(* ===== verification/Prelude.thy ===== *)
theory Prelude
  imports Main "HOL-Library.List_Lexorder" "HOL-Library.Char_ord" "HOL-Library.Multiset"
begin

text \<open>
  Shared vocabulary of the development: the fact collections, the part of Go's standard library the
  sources use on strings and slices (package \<open>strings\<close>, \<open>strconv\<close>, \<open>sort\<close>), and the three-state
  booleans (\<open>*bool\<close>) of the scanners.

  A Go string is a list of bytes; the model uses HOL's \<open>string\<close> (a \<open>char\<close> is a byte) with the
  lexicographic order on bytes, which is Go's \<open><\<close> on strings. The case and space functions are
  written for ASCII bytes: they agree with the Go functions on every ASCII string, and bytes above
  127 (which Go would decode as UTF-8) are left as they are.
\<close>

named_theorems go_strings \<open>facts on the string functions\<close>
named_theorems go_sorting \<open>content and order of sorted slices\<close>

section \<open>Three-state booleans\<close>

text \<open>A \<open>*bool\<close> is \<open>None\<close> (nil, unknown) or \<open>Some b\<close>.\<close>

type_synonym tri = "bool option"

section \<open>Strings\<close>

definition upper_char :: "char \<Rightarrow> char" where
  "upper_char c = (if 97 \<le> (of_char c :: nat) \<and> (of_char c :: nat) \<le> 122 then char_of ((of_char c :: nat) - 32) else c)"

definition lower_char :: "char \<Rightarrow> char" where
  "lower_char c = (if 65 \<le> (of_char c :: nat) \<and> (of_char c :: nat) \<le> 90 then char_of ((of_char c :: nat) + 32) else c)"

definition ToUpper :: "string \<Rightarrow> string" where
  "ToUpper s = map upper_char s"

definition ToLower :: "string \<Rightarrow> string" where
  "ToLower s = map lower_char s"

text \<open>The ASCII spaces of \<open>unicode.IsSpace\<close>: tab, newline, vertical tab, form feed, return, space.\<close>

definition is_space :: "char \<Rightarrow> bool" where
  "is_space c = ((9 \<le> (of_char c :: nat) \<and> (of_char c :: nat) \<le> 13) \<or> (of_char c :: nat) = 32)"

definition TrimSpace :: "string \<Rightarrow> string" where
  "TrimSpace s = rev (dropWhile is_space (rev (dropWhile is_space s)))"

fun HasPrefix :: "string \<Rightarrow> string \<Rightarrow> bool" where
  "HasPrefix s [] = True"
| "HasPrefix [] (p # ps) = False"
| "HasPrefix (c # s) (p # ps) = (c = p \<and> HasPrefix s ps)"

definition TrimPrefix :: "string \<Rightarrow> string \<Rightarrow> string" where
  "TrimPrefix s p = (if HasPrefix s p then drop (length p) s else s)"

definition HasSuffix :: "string \<Rightarrow> string \<Rightarrow> bool" where
  "HasSuffix s p = HasPrefix (rev s) (rev p)"

definition TrimSuffix :: "string \<Rightarrow> string \<Rightarrow> string" where
  "TrimSuffix s p = (if HasSuffix s p then take (length s - length p) s else s)"

fun Join :: "string list \<Rightarrow> string \<Rightarrow> string" where
  "Join [] sep = []"
| "Join [x] sep = x"
| "Join (x # y # xs) sep = x @ sep @ Join (y # xs) sep"

text \<open>\<open>strings.Split(s, sep)\<close> for a one-byte separator: always at least one part.\<close>

fun Split :: "string \<Rightarrow> char \<Rightarrow> string list" where
  "Split [] sep = [[]]"
| "Split (c # s) sep =
     (if c = sep then [] # Split s sep
      else (case Split s sep of [] \<Rightarrow> [[c]] | p # ps \<Rightarrow> (c # p) # ps))"

text \<open>\<open>%d\<close>: decimal digits, with a minus sign below zero.\<close>

fun digits_of :: "nat \<Rightarrow> string" where
  "digits_of n =
     (if n < 10 then [char_of (48 + n)] else digits_of (n div 10) @ [char_of (48 + n mod 10)])"

declare digits_of.simps [simp del]

definition itoa :: "int \<Rightarrow> string" where
  "itoa i = (if i < 0 then CHR ''-'' # digits_of (nat (- i)) else digits_of (nat i))"

lemma HasPrefix_iff [go_strings]: "HasPrefix s p \<longleftrightarrow> (\<exists>t. s = p @ t)"
  by (induction s p rule: HasPrefix.induct) auto

lemma HasSuffix_iff [go_strings]: "HasSuffix s p \<longleftrightarrow> (\<exists>t. s = t @ p)"
proof -
  have "HasSuffix s p \<longleftrightarrow> (\<exists>t. rev s = rev p @ t)"
    by (simp add: HasSuffix_def HasPrefix_iff)
  also have "\<dots> \<longleftrightarrow> (\<exists>t. s = t @ p)"
    by (metis rev_append rev_rev_ident)
  finally show ?thesis .
qed

lemma Split_not_Nil [simp]: "Split s sep \<noteq> []"
  by (cases s) (auto split: list.splits)

lemma Join_Split [go_strings]: "Join (Split s sep) [sep] = s"
proof (induction s)
  case Nil
  show ?case by simp
next
  case (Cons c s)
  then show ?case
    by (cases "Split s sep"; cases "tl (Split s sep)") auto
qed

lemma Split_no_sep: "p \<in> set (Split s sep) \<Longrightarrow> sep \<notin> set p"
  by (induction s arbitrary: p) (auto split: list.splits if_splits)

lemma digits_of_not_Nil [simp]: "digits_of n \<noteq> []"
  by (subst digits_of.simps) simp

section \<open>Slices\<close>

text \<open>
  \<open>sort.SliceStable(xs, lt)\<close>. For a strict weak order every stable sort gives the same result, so
  an insertion sort stands for the library's algorithm; an element goes before the first element it
  is not behind, and equal elements keep their order. \<open>sort.Slice\<close> (which promises no stability) is
  modelled by the same function: where the sources use it the order is total on the elements, or its
  ties are broken as the library does for short slices (insertion sort, stable).
\<close>

fun insert_by :: "('a \<Rightarrow> 'a \<Rightarrow> bool) \<Rightarrow> 'a \<Rightarrow> 'a list \<Rightarrow> 'a list" where
  "insert_by lt x [] = [x]"
| "insert_by lt x (y # ys) = (if lt y x then y # insert_by lt x ys else x # y # ys)"

definition sort_by :: "('a \<Rightarrow> 'a \<Rightarrow> bool) \<Rightarrow> 'a list \<Rightarrow> 'a list" where
  "sort_by lt xs = foldr (insert_by lt) xs []"

lemma sort_by_simps [simp]:
  "sort_by lt [] = []"
  "sort_by lt (x # xs) = insert_by lt x (sort_by lt xs)"
  by (simp_all add: sort_by_def)

lemma mset_insert_by [go_sorting, simp]: "mset (insert_by lt x ys) = add_mset x (mset ys)"
  by (induction ys) auto

lemma mset_sort_by [go_sorting, simp]: "mset (sort_by lt xs) = mset xs"
  by (induction xs) auto

lemma set_sort_by [go_sorting, simp]: "set (sort_by lt xs) = set xs"
  by (metis mset_sort_by set_mset_mset)

lemma sort_by_cong: "(\<And>x y. x \<in> set xs \<Longrightarrow> y \<in> set xs \<Longrightarrow> lt x y = lt' x y) \<Longrightarrow> sort_by lt xs = sort_by lt' xs"
proof (induction xs)
  case (Cons x xs)
  have "insert_by lt x ys = insert_by lt' x ys" if "set ys \<subseteq> set xs" for ys
    using that Cons.prems by (induction ys) auto
  then show ?case using Cons by simp
qed simp

lemma length_sort_by [simp]: "length (sort_by lt xs) = length xs"
  by (metis mset_sort_by size_mset)

lemma sort_by_Nil_iff [simp]: "sort_by lt xs = [] \<longleftrightarrow> xs = []"
  by (metis length_0_conv length_sort_by)

lemma distinct_sort_by [simp]: "distinct (sort_by lt xs) = distinct xs"
  by (metis mset_eq_imp_distinct_iff mset_sort_by)

lemma sort_by_singleton_iff: "length xs = 1 \<Longrightarrow> sort_by lt xs = xs"
  by (cases xs) auto

text \<open>
  What the clients of a sort rely on: the comparison is a strict weak order. A total one determines
  the sorted slice from its elements alone.
\<close>

locale weak_order =
  fixes lt :: "'a \<Rightarrow> 'a \<Rightarrow> bool"
  assumes asym: "lt a b \<Longrightarrow> \<not> lt b a"
    and neg_trans: "lt a c \<Longrightarrow> lt a b \<or> lt b c"
begin

lemma irrefl: "\<not> lt a a"
  using asym by blast

lemma sorted_insert_by:
  "sorted_wrt (\<lambda>a b. \<not> lt b a) ys \<Longrightarrow> sorted_wrt (\<lambda>a b. \<not> lt b a) (insert_by lt x ys)"
proof (induction ys)
  case Nil
  then show ?case by simp
next
  case (Cons y ys)
  have eq: "set (insert_by lt x ys) = insert x (set ys)" for ys
    by (metis mset_insert_by set_mset_add_mset_insert set_mset_mset)
  show ?case
    using Cons asym by (auto simp: eq dest: neg_trans [where b = y])
qed

lemma sorted_sort_by: "sorted_wrt (\<lambda>a b. \<not> lt b a) (sort_by lt xs)"
  by (induction xs) (auto intro: sorted_insert_by)

lemma sort_by_hd: "xs \<noteq> [] \<Longrightarrow> x \<in> set xs \<Longrightarrow> \<not> lt x (hd (sort_by lt xs))"
  using sorted_sort_by [of xs] irrefl
  by (cases "sort_by lt xs") (auto simp flip: set_sort_by [of lt xs])

lemma insert_by_front: "\<forall>y\<in>set ys. \<not> lt y x \<Longrightarrow> insert_by lt x ys = x # ys"
  by (cases ys) auto

lemma sort_by_id: "sorted_wrt (\<lambda>a b. \<not> lt b a) xs \<Longrightarrow> sort_by lt xs = xs"
  by (induction xs) (auto simp: insert_by_front)

lemma sort_by_idem: "sort_by lt (sort_by lt xs) = sort_by lt xs"
  by (rule sort_by_id) (rule sorted_sort_by)

lemma sorted_unique:
  assumes "sorted_wrt (\<lambda>a b. \<not> lt b a) xs" and "sorted_wrt (\<lambda>a b. \<not> lt b a) ys"
    and "mset xs = mset ys"
    and "\<And>a b. a \<in> set xs \<Longrightarrow> b \<in> set xs \<Longrightarrow> a \<noteq> b \<Longrightarrow> lt a b \<or> lt b a"
  shows "xs = ys"
  using assms
proof (induction xs arbitrary: ys)
  case Nil
  then show ?case by simp
next
  case (Cons x xs)
  then obtain y zs where ys: "ys = y # zs" by (cases ys) auto
  have "set ys = set (x # xs)"
    using Cons.prems(3) by (metis set_mset_mset)
  then have "y \<in> set (x # xs)" and "x \<in> set ys" by (auto simp: ys)
  then have "\<not> lt y x" and "\<not> lt x y"
    using Cons.prems(1,2) irrefl by (auto simp: ys)
  then have "x = y"
    using Cons.prems(4) \<open>y \<in> set (x # xs)\<close> by auto
  moreover have "xs = zs"
    using Cons.prems \<open>x = y\<close> by (intro Cons.IH) (auto simp: ys)
  ultimately show ?case by (simp add: ys)
qed

lemma sort_by_perm:
  assumes "mset xs = mset ys"
    and "\<And>a b. a \<in> set xs \<Longrightarrow> b \<in> set xs \<Longrightarrow> a \<noteq> b \<Longrightarrow> lt a b \<or> lt b a"
  shows "sort_by lt xs = sort_by lt ys"
  using assms by (intro sorted_unique sorted_sort_by) auto

end

locale total_strict_order = weak_order +
  assumes total: "a \<noteq> b \<Longrightarrow> lt a b \<or> lt b a"
begin

lemma sort_by_mset: "mset xs = mset ys \<Longrightarrow> sort_by lt xs = sort_by lt ys"
  by (rule sort_by_perm) (use total in auto)

end

text \<open>\<open>sort.Strings\<close> sorts by the order on strings.\<close>

definition sort_strings :: "string list \<Rightarrow> string list" where
  "sort_strings xs = sort_by (<) xs"

interpretation str: total_strict_order "(<) :: string \<Rightarrow> string \<Rightarrow> bool"
  by unfold_locales auto

lemma set_sort_strings [simp]: "set (sort_strings xs) = set xs"
  by (simp add: sort_strings_def)

lemma length_sort_strings [simp]: "length (sort_strings xs) = length xs"
  by (simp add: sort_strings_def)

lemma sorted_sort_strings [go_sorting]: "sorted (sort_strings xs)"
  using str.sorted_sort_by [of xs] by (simp add: sort_strings_def not_less)

lemma sort_strings_mset: "mset xs = mset ys \<Longrightarrow> sort_strings xs = sort_strings ys"
  unfolding sort_strings_def by (rule str.sort_by_mset)

text \<open>\<open>slices.Compact\<close> keeps the first of each run of equal elements: HOL's \<open>remdups_adj\<close>.\<close>

text \<open>
  A generic fact on folds that keep a maximum: the position of a fold over a projected measure.
\<close>

lemma fold_max_ge: "(a :: int) \<le> fold (\<lambda>x m. if f x > m then f x else m) xs a"
proof (induction xs arbitrary: a)
  case Nil
  show ?case by simp
next
  case (Cons x xs)
  show ?case
    using Cons.IH [of "f x"] Cons.IH [of a] by (cases "f x > a") auto
qed

lemma fold_max_ge_elem: "x \<in> set xs \<Longrightarrow> (f x :: int) \<le> fold (\<lambda>x m. if f x > m then f x else m) xs a"
proof (induction xs arbitrary: a)
  case Nil
  then show ?case by simp
next
  case (Cons y ys)
  then show ?case
    using fold_max_ge [where a = "f y" and f = f and xs = ys] fold_max_ge [where a = a and f = f and xs = ys]
    by (cases "x = y"; cases "f y > a") auto
qed

lemma fold_inv:
  "P a \<Longrightarrow> (\<And>x a. x \<in> set xs \<Longrightarrow> P a \<Longrightarrow> P (f x a)) \<Longrightarrow> P (fold f xs a)"
  by (induction xs arbitrary: a) auto

end
