(* ===== verification/Go_Time.thy ===== *)
theory Go_Time
  imports Prelude
begin

text \<open>
  The part of Go's package \<open>time\<close> the sources use. A \<open>time.Time\<close> is an instant (nanoseconds since
  year 1, January 1, 00:00 UTC, the zero time) and the offset in seconds of the location it is shown
  in; comparisons read the instant, calendar fields the shifted instant. A \<open>time.Duration\<close> is a
  64-bit count of nanoseconds: \<open>Sub\<close> saturates at its ends, as the library does.
\<close>

record gotime =
  t_ns :: int
  t_off :: int

definition zero_time :: gotime where
  "zero_time = \<lparr>t_ns = 0, t_off = 0\<rparr>"

definition IsZero :: "gotime \<Rightarrow> bool" where
  "IsZero t = (t_ns t = 0)"

definition After :: "gotime \<Rightarrow> gotime \<Rightarrow> bool" where
  "After t u = (t_ns t > t_ns u)"

definition Before :: "gotime \<Rightarrow> gotime \<Rightarrow> bool" where
  "Before t u = (t_ns t < t_ns u)"

definition UTC :: "gotime \<Rightarrow> gotime" where
  "UTC t = t\<lparr>t_off := 0\<rparr>"

definition max_dur :: int where "max_dur = 9223372036854775807"
definition min_dur :: int where "min_dur = - 9223372036854775808"

definition day_ns :: int where "day_ns = 86400000000000"

definition Sub :: "gotime \<Rightarrow> gotime \<Rightarrow> int" where
  "Sub t u = max min_dur (min max_dur (t_ns t - t_ns u))"

definition AddDays :: "gotime \<Rightarrow> int \<Rightarrow> gotime" where
  "AddDays t d = t\<lparr>t_ns := t_ns t + d * day_ns\<rparr>"

text \<open>\<open>int(d.Hours() / 24)\<close>: whole days, truncated towards zero.\<close>

definition whole_days :: "int \<Rightarrow> int" where
  "whole_days d = (if d < 0 then - ((- d) div day_ns) else d div day_ns)"

text \<open>
  The civil date of an instant: days since the zero date, shifted to years that start in March so
  that the leap day ends a year, in cycles of 146097 days (400 years).
\<close>

record civil =
  c_year :: int
  c_month :: int
  c_day :: int

definition civil_of_days :: "int \<Rightarrow> civil" where
  "civil_of_days n =
     (let z = n + 306;
          era = z div 146097;
          doe = z mod 146097;
          yoe = (doe - doe div 1460 + doe div 36524 - doe div 146096) div 365;
          doy = doe - (365 * yoe + yoe div 4 - yoe div 100);
          mp = (5 * doy + 2) div 153;
          d = doy - (153 * mp + 2) div 5 + 1;
          m = (if mp < 10 then mp + 3 else mp - 9);
          y = yoe + era * 400 + (if m \<le> 2 then 1 else 0)
      in \<lparr>c_year = y, c_month = m, c_day = d\<rparr>)"

definition civil_of :: "gotime \<Rightarrow> civil" where
  "civil_of t = civil_of_days ((t_ns t + t_off t * 1000000000) div day_ns)"

definition Year :: "gotime \<Rightarrow> int" where "Year t = c_year (civil_of t)"
definition Month :: "gotime \<Rightarrow> int" where "Month t = c_month (civil_of t)"
definition Day :: "gotime \<Rightarrow> int" where "Day t = c_day (civil_of t)"

text \<open>Midnight UTC of a civil date, for the examples.\<close>

definition date_utc :: "int \<Rightarrow> int \<Rightarrow> int \<Rightarrow> gotime" where
  "date_utc y m d =
     (let y' = (if m \<le> 2 then y - 1 else y);
          era = y' div 400;
          yoe = y' mod 400;
          doy = (153 * (if m > 2 then m - 3 else m + 9) + 2) div 5 + d - 1;
          doe = yoe * 365 + yoe div 4 - yoe div 100 + doy
      in \<lparr>t_ns = (era * 146097 + doe - 306) * day_ns, t_off = 0\<rparr>)"

lemma civil_zero_time: "civil_of zero_time = \<lparr>c_year = 1, c_month = 1, c_day = 1\<rparr>"
  by code_simp

lemma civil_leap_day: "civil_of (date_utc 2024 2 29) = \<lparr>c_year = 2024, c_month = 2, c_day = 29\<rparr>"
  by code_simp

section \<open>Formatting\<close>

definition month_name :: "int \<Rightarrow> string" where
  "month_name m =
     (if m = 1 then ''January'' else if m = 2 then ''February'' else if m = 3 then ''March''
      else if m = 4 then ''April'' else if m = 5 then ''May'' else if m = 6 then ''June''
      else if m = 7 then ''July'' else if m = 8 then ''August'' else if m = 9 then ''September''
      else if m = 10 then ''October'' else if m = 11 then ''November'' else ''December'')"

definition pad_left :: "nat \<Rightarrow> string \<Rightarrow> string" where
  "pad_left n s = replicate (n - length s) (CHR ''0'') @ s"

text \<open>The layouts \<open>2 January\<close>, \<open>2 January 2006\<close>, \<open>Jan 2006\<close> and \<open>2006-01-02\<close>.\<close>

definition fmt_day_month :: "gotime \<Rightarrow> string" where
  "fmt_day_month t = itoa (Day t) @ '' '' @ month_name (Month t)"

definition fmt_year :: "gotime \<Rightarrow> string" where
  "fmt_year t = pad_left 4 (itoa (Year t))"

definition fmt_mon_year :: "gotime \<Rightarrow> string" where
  "fmt_mon_year t = take 3 (month_name (Month t)) @ '' '' @ fmt_year t"

definition fmt_iso_date :: "gotime \<Rightarrow> string" where
  "fmt_iso_date t = fmt_year t @ ''-'' @ pad_left 2 (itoa (Month t)) @ ''-'' @ pad_left 2 (itoa (Day t))"

lemma whole_days_nonneg: "0 \<le> d \<Longrightarrow> 0 \<le> whole_days d"
  by (simp add: whole_days_def day_ns_def pos_imp_zdiv_nonneg_iff)

end
