(* ===== verification/Grade_Types.thy ===== *)
theory Grade_Types
  imports Go_Time
begin

text \<open>
  The data of package \<open>pkg/grade\<close> (\<open>types.go\<close>): the letters, the tiers and upkeep states, the
  input (findings, rows, checks) and the result (finding, row and tree results, Pending, the
  grade). Structs are records with the fields in the source's order, prefixed to keep them apart;
  \<open>*T\<close> is \<open>option\<close>, a nil slice is \<open>[]\<close>. The constants of the string types \<open>Letter\<close>, tier and
  upkeep state are datatypes.
\<close>

section \<open>Letters, tiers, states\<close>

text \<open>\<open>type Letter string\<close>: \<open>LetterNone\<close> is the empty string of a Pending grade.\<close>

datatype letter = LetterNone | LetterA | LetterB | LetterC | LetterD | LetterF

fun letter_str :: "letter \<Rightarrow> string" where
  "letter_str LetterNone = ''''"
| "letter_str LetterA = ''A''"
| "letter_str LetterB = ''B''"
| "letter_str LetterC = ''C''"
| "letter_str LetterD = ''D''"
| "letter_str LetterF = ''F''"

fun letter_rank :: "letter \<Rightarrow> nat" where
  "letter_rank LetterNone = 0"
| "letter_rank LetterA = 1"
| "letter_rank LetterB = 2"
| "letter_rank LetterC = 3"
| "letter_rank LetterD = 4"
| "letter_rank LetterF = 5"

lemma letter_rank_inj: "letter_rank a = letter_rank b \<longleftrightarrow> a = b"
  by (cases a; cases b) simp_all

instantiation letter :: linorder
begin

definition less_eq_letter :: "letter \<Rightarrow> letter \<Rightarrow> bool" where
  "less_eq_letter a b = (letter_rank a \<le> letter_rank b)"

definition less_letter :: "letter \<Rightarrow> letter \<Rightarrow> bool" where
  "less_letter a b = (letter_rank a < letter_rank b)"

instance
  by standard (auto simp: less_eq_letter_def less_letter_def letter_rank_inj)

end

text \<open>The source compares letters as strings; the order of the datatype is that order.\<close>

lemma letter_str_less: "letter_str a < letter_str b \<longleftrightarrow> a < b"
  by (cases a; cases b) (simp_all add: less_letter_def less_char_def)

datatype tier = TierCalled | TierImported | TierGraphOnly

datatype upkeep_state =
  StateActive | StateFinished | StateParked | StateDeprecated | StateArchived | StateUnknown
| StateNotAssessed

text \<open>A normalized severity (what \<open>severityOf\<close> returns).\<close>

datatype severity = LOW | MEDIUM | HIGH | CRITICAL

fun sev_str :: "severity \<Rightarrow> string" where
  "sev_str LOW = ''LOW''"
| "sev_str MEDIUM = ''MEDIUM''"
| "sev_str HIGH = ''HIGH''"
| "sev_str CRITICAL = ''CRITICAL''"

fun sev_rank :: "severity \<Rightarrow> nat" where
  "sev_rank LOW = 1"
| "sev_rank MEDIUM = 2"
| "sev_rank HIGH = 3"
| "sev_rank CRITICAL = 4"

lemma sev_rank_inj: "sev_rank a = sev_rank b \<longleftrightarrow> a = b"
  by (cases a; cases b) simp_all

instantiation severity :: linorder
begin

definition less_eq_severity :: "severity \<Rightarrow> severity \<Rightarrow> bool" where
  "less_eq_severity a b = (sev_rank a \<le> sev_rank b)"

definition less_severity :: "severity \<Rightarrow> severity \<Rightarrow> bool" where
  "less_severity a b = (sev_rank a < sev_rank b)"

instance
  by standard (auto simp: less_eq_severity_def less_severity_def sev_rank_inj)

end

lemma severity_LOW_least [simp]: "LOW \<le> s" and severity_CRITICAL_greatest [simp]: "s \<le> CRITICAL"
  by (cases s; simp add: less_eq_severity_def)+

section \<open>The input\<close>

record finding =
  f_ID :: string
  f_Aliases :: "string list"
  f_Module :: string
  f_Summary :: string
  f_Severity :: string
  f_Reachability :: string
  f_SeverityLookupFailed :: bool
  f_FixRequiresGo :: string
  f_Exploited :: bool
  f_FixedVersion :: string
  f_FixReleasedAt :: "gotime option"
  f_FixDateSource :: string
  f_AffectedPackages :: "string list"
  f_Condition :: string

record upkeep =
  u_Archived :: bool
  u_Deprecated :: bool
  u_Retracted :: bool
  u_Message :: string
  u_LastRelease :: gotime
  u_LastActivity :: gotime
  u_NotAssessed :: bool
  u_ArchivedUnread :: bool
  u_Missing :: bool

record row =
  r_Module :: string
  r_Version :: string
  r_Self :: bool
  r_Direct :: bool
  r_TestOnly :: tri
  r_InBuild :: tri
  r_Private :: bool
  r_Findings :: "finding list"
  r_Upkeep :: upkeep

record checks =
  c_VulnScanFailed :: bool
  c_VulnScanReason :: string
  c_VulnScanCode :: string
  c_VulnScanKind :: string
  c_ScanTimedOut :: bool
  c_CalledPassStale :: string
  c_CalledPassNever :: bool
  c_SelfStatusFailed :: bool
  c_SelfAdvisoriesFailed :: bool
  c_SelfAdvisoriesSkipped :: bool
  c_PrivateModules :: "string list"
  c_SelfPrivate :: bool
  c_KEVUnchecked :: int
  c_ChecksumUnverified :: bool
  c_StdlibVersion :: string
  c_StdlibGraded :: bool
  c_KEVStaleSince :: gotime
  c_MaintenanceHint :: string
  c_SelfStatusReason :: string
  c_SelfAdvisoriesReason :: string
  c_ArchiveUnchecked :: "string list"

record response_history =
  h_Dependency :: string
  h_MedianDays :: int
  h_Samples :: int
  h_From :: gotime
  h_To :: gotime

record grade_input =
  i_Self :: row
  i_Deps :: "row list"
  i_ProjectGo :: string
  i_ChecksumMismatch :: bool
  i_ChecksumDetail :: string
  i_Checks :: checks
  i_History :: "string \<Rightarrow> response_history option"
  i_Now :: gotime
  i_SelfReleasedAt :: "gotime option"

section \<open>The result\<close>

record vex_status =
  vex_Status :: string
  vex_Justification :: string

record response =
  rs_Status :: string
  rs_FixReleasedAt :: "gotime option"
  rs_DateSource :: string
  rs_WindowEnds :: "gotime option"
  rs_DaysSinceFix :: int
  rs_FixAgeAtReleaseDays :: int
  rs_Text :: string
  rs_FixRequiresGo :: string
  rs_FixCompat :: string
  rs_History :: string

record finding_result =
  fr_ID :: string
  fr_Aliases :: "string list"
  fr_Module :: string
  fr_Severity :: severity
  fr_Estimated :: bool
  fr_Tier :: tier
  fr_TierAssumed :: bool
  fr_Score :: int
  fr_Counted :: bool
  fr_Exploited :: bool
  fr_FixedVersion :: string
  fr_AffectedPackages :: "string list"
  fr_Condition :: string
  fr_Note :: string
  fr_VEX :: vex_status
  fr_Response :: response

record row_result =
  rr_Module :: string
  rr_Version :: string
  rr_Self :: bool
  rr_Direct :: bool
  rr_TestOnly :: bool
  rr_NotBuilt :: bool
  rr_Private :: bool
  rr_Score :: int
  rr_VulnScore :: int
  rr_UpkeepScore :: int
  rr_Letter :: letter
  rr_Reason :: string
  rr_UpkeepState :: upkeep_state
  rr_UpkeepNote :: string
  rr_Estimated :: bool
  rr_UpkeepMissed :: bool
  rr_ArchivedUnread :: bool
  rr_Findings :: "finding_result list"

record tree_row =
  tr_Rule :: string
  tr_Score :: int
  tr_Letter :: letter
  tr_Reason :: string
  tr_Estimated :: bool

record pending =
  p_Check :: string
  p_Code :: string
  p_Kind :: string
  p_Reason :: string
  p_Known :: "string list"

record deciding =
  d_Module :: string
  d_Self :: bool
  d_Tree :: string
  d_Reason :: string
  d_Score :: int

record grade_result =
  g_RuleVersion :: int
  g_Letter :: letter
  g_Estimated :: bool
  g_Score :: int
  g_Deciding :: "deciding option"
  g_Rows :: "row_result list"
  g_TreeRows :: "tree_row list"
  g_Pending :: "pending option"
  g_Notes :: "string list"
  g_FixesNeedNewerGo :: int
  g_ArchivedUnread :: "string list"
  g_ChecksumMismatch :: bool
  g_ChecksumDetail :: string

section \<open>Go's zero values\<close>

definition zero_finding :: finding where
  "zero_finding = \<lparr>f_ID = '''', f_Aliases = [], f_Module = '''', f_Summary = '''', f_Severity = '''',
     f_Reachability = '''', f_SeverityLookupFailed = False, f_FixRequiresGo = '''', f_Exploited = False,
     f_FixedVersion = '''', f_FixReleasedAt = None, f_FixDateSource = '''', f_AffectedPackages = [],
     f_Condition = ''''\<rparr>"

definition zero_upkeep :: upkeep where
  "zero_upkeep = \<lparr>u_Archived = False, u_Deprecated = False, u_Retracted = False, u_Message = '''',
     u_LastRelease = zero_time, u_LastActivity = zero_time, u_NotAssessed = False,
     u_ArchivedUnread = False, u_Missing = False\<rparr>"

definition zero_row :: row where
  "zero_row = \<lparr>r_Module = '''', r_Version = '''', r_Self = False, r_Direct = False, r_TestOnly = None,
     r_InBuild = None, r_Private = False, r_Findings = [], r_Upkeep = zero_upkeep\<rparr>"

definition zero_checks :: checks where
  "zero_checks = \<lparr>c_VulnScanFailed = False, c_VulnScanReason = '''', c_VulnScanCode = '''',
     c_VulnScanKind = '''', c_ScanTimedOut = False, c_CalledPassStale = '''', c_CalledPassNever = False,
     c_SelfStatusFailed = False, c_SelfAdvisoriesFailed = False, c_SelfAdvisoriesSkipped = False,
     c_PrivateModules = [], c_SelfPrivate = False, c_KEVUnchecked = 0, c_ChecksumUnverified = False,
     c_StdlibVersion = '''', c_StdlibGraded = False, c_KEVStaleSince = zero_time,
     c_MaintenanceHint = '''', c_SelfStatusReason = '''', c_SelfAdvisoriesReason = '''',
     c_ArchiveUnchecked = []\<rparr>"

definition zero_input :: grade_input where
  "zero_input = \<lparr>i_Self = zero_row, i_Deps = [], i_ProjectGo = '''', i_ChecksumMismatch = False,
     i_ChecksumDetail = '''', i_Checks = zero_checks, i_History = (\<lambda>_. None), i_Now = zero_time,
     i_SelfReleasedAt = None\<rparr>"

definition zero_response :: response where
  "zero_response = \<lparr>rs_Status = '''', rs_FixReleasedAt = None, rs_DateSource = '''', rs_WindowEnds = None,
     rs_DaysSinceFix = 0, rs_FixAgeAtReleaseDays = 0, rs_Text = '''', rs_FixRequiresGo = '''',
     rs_FixCompat = '''', rs_History = ''''\<rparr>"

end
