(* ===== verification/Grade_Score.thy ===== *)
theory Grade_Score
  imports Grade_Types
begin

text \<open>
  The scores of one row (\<open>pkg/grade/engine.go\<close>, up to \<open>gradeRow\<close>): the letter bands, the normalized
  severity and tier of a finding, its table value, the upkeep state and score, and the vulnerability
  score of a row with the words for it. The lemmas give the vulnerability score a reference
  definition (worst value plus five per further distinct advisory) and derive its bounds and its
  monotonicity in the severities from it.
\<close>

section \<open>Bands\<close>

definition importedCap :: int where "importedCap = 50"
definition furtherAdvisoryAdd :: int where "furtherAdvisoryAdd = 5"
definition exploitedFloor :: int where "exploitedFloor = 76"
definition testOnlyCap :: int where "testOnlyCap = 50"
definition upkeepSelf :: int where "upkeepSelf = 35"
definition upkeepDependency :: int where "upkeepDependency = 20"
definition upkeepMinor :: int where "upkeepMinor = 10"
definition treeFScore :: int where "treeFScore = 76"
definition treeDScore :: int where "treeDScore = 51"
definition treeCalledFindings :: nat where "treeCalledFindings = 3"
definition treeImportedOrCalled :: nat where "treeImportedOrCalled = 5"
definition activeSelfMonths :: int where "activeSelfMonths = 12"
definition activeDepMonths :: int where "activeDepMonths = 24"

lemmas grade_consts = importedCap_def furtherAdvisoryAdd_def exploitedFloor_def testOnlyCap_def
  upkeepSelf_def upkeepDependency_def upkeepMinor_def treeFScore_def treeDScore_def

definition bandOf :: "int \<Rightarrow> letter" where
  "bandOf score =
     (if score \<le> 10 then LetterA
      else if score \<le> 25 then LetterB
      else if score \<le> 50 then LetterC
      else if score \<le> 75 then LetterD
      else LetterF)"

lemma bandOf_mono: "a \<le> b \<Longrightarrow> bandOf a \<le> bandOf b"
  by (auto simp: bandOf_def less_eq_letter_def)

lemma bandOf_not_None [simp]: "bandOf s \<noteq> LetterNone"
  by (simp add: bandOf_def)

lemma bandOf_less_iff: "bandOf a < bandOf b \<Longrightarrow> a < b"
  using bandOf_mono [of b a] by (meson not_le)

lemma bandOf_max: "bandOf (max a b) = max (bandOf a) (bandOf b)"
  using bandOf_mono [of a b] bandOf_mono [of b a] by (simp add: max_def) (metis linear order_antisym)

section \<open>Severity and tier of a finding\<close>

definition isConfirmed :: "tri \<Rightarrow> bool" where
  "isConfirmed b = (case b of None \<Rightarrow> False | Some v \<Rightarrow> v)"

definition isRefuted :: "tri \<Rightarrow> bool" where
  "isRefuted b = (case b of None \<Rightarrow> False | Some v \<Rightarrow> \<not> v)"

definition severityOf :: "string \<Rightarrow> severity \<times> bool" where
  "severityOf s =
     (let u = ToUpper (TrimSpace s) in
      if u = ''CRITICAL'' then (CRITICAL, False)
      else if u = ''HIGH'' then (HIGH, False)
      else if u = ''MEDIUM'' then (MEDIUM, False)
      else if u = ''LOW'' then (LOW, False)
      else (MEDIUM, True))"

definition highOrCritical :: "severity \<Rightarrow> bool" where
  "highOrCritical sev = (sev = HIGH \<or> sev = CRITICAL)"

definition tierOf :: "string \<Rightarrow> bool \<Rightarrow> tier \<times> bool" where
  "tierOf reachability self =
     (if self then (TierCalled, reachability = '''')
      else (let u = ToLower (TrimSpace reachability) in
        if u = ''called'' then (TierCalled, False)
        else if u = ''imported'' then (TierImported, False)
        else if u = ''required'' then (TierGraphOnly, False)
        else (TierCalled, True)))"

definition vexFor :: "tier \<Rightarrow> vex_status" where
  "vexFor t =
     (case t of
        TierGraphOnly \<Rightarrow> \<lparr>vex_Status = ''not_affected'', vex_Justification = ''vulnerable_code_not_present''\<rparr>
      | TierImported \<Rightarrow> \<lparr>vex_Status = ''not_affected'', vex_Justification = ''vulnerable_code_not_in_execute_path''\<rparr>
      | TierCalled \<Rightarrow> \<lparr>vex_Status = ''affected'', vex_Justification = ''''\<rparr>)"

fun calledScore :: "severity \<Rightarrow> int" where
  "calledScore CRITICAL = 90"
| "calledScore HIGH = 70"
| "calledScore MEDIUM = 45"
| "calledScore LOW = 15"

fun importedScore :: "severity \<Rightarrow> int" where
  "importedScore CRITICAL = 50"
| "importedScore HIGH = 49"
| "importedScore MEDIUM = 32"
| "importedScore LOW = 11"

record scored =
  s_Finding :: finding
  s_sev :: severity
  s_estimated :: bool
  s_tier :: tier
  s_assumed :: bool
  s_score :: int

abbreviation s_ID :: "scored \<Rightarrow> string" where
  "s_ID s \<equiv> f_ID (s_Finding s)"

definition scoreFinding :: "finding \<Rightarrow> row \<Rightarrow> scored" where
  "scoreFinding f r =
     (let (sev, est) = severityOf (f_Severity f);
          (t0, a0) = tierOf (f_Reachability f) (r_Self r);
          (t, a) = (if \<not> r_Self r \<and> isRefuted (r_InBuild r) then (TierGraphOnly, False) else (t0, a0))
      in \<lparr>s_Finding = f, s_sev = sev, s_estimated = est, s_tier = t, s_assumed = a,
          s_score = (case t of TierCalled \<Rightarrow> calledScore sev | TierImported \<Rightarrow> importedScore sev
                     | TierGraphOnly \<Rightarrow> 0)\<rparr>)"

section \<open>Upkeep\<close>

definition monthsSince :: "gotime \<Rightarrow> gotime \<Rightarrow> int" where
  "monthsSince t now =
     (if IsZero t \<or> After t now then 0
      else (let m = (Year now - Year t) * 12 + Month now - Month t;
                m' = (if Day now < Day t then m - 1 else m)
            in if m' < 0 then 0 else m'))"

definition upkeepState :: "row \<Rightarrow> gotime \<Rightarrow> upkeep_state" where
  "upkeepState r now =
     (let u = r_Upkeep r in
      if u_NotAssessed u \<and> \<not> u_Archived u \<and> \<not> u_Deprecated u \<and> \<not> u_Retracted u then StateNotAssessed
      else if u_Archived u then StateArchived
      else if u_Deprecated u \<or> u_Retracted u then StateDeprecated
      else if u_Missing u then StateUnknown
      else (let active =
              (if r_Self r
               then (\<not> IsZero (u_LastRelease u) \<and> monthsSince (u_LastRelease u) now < activeSelfMonths)
                  \<or> (\<not> IsZero (u_LastActivity u) \<and> monthsSince (u_LastActivity u) now < activeSelfMonths)
               else \<not> IsZero (u_LastRelease u) \<and> monthsSince (u_LastRelease u) now < activeDepMonths)
        in if active then StateActive
           else if list_ex (\<lambda>f. TrimSpace (f_FixedVersion f) = '''') (r_Findings r) then StateParked
           else StateFinished))"

definition upkeepScore :: "row \<Rightarrow> upkeep_state \<Rightarrow> int" where
  "upkeepScore r state =
     (if state \<noteq> StateArchived \<and> state \<noteq> StateDeprecated then 0
      else if r_Self r then upkeepSelf
      else if isConfirmed (r_TestOnly r) \<or> isRefuted (r_InBuild r) then upkeepMinor
      else upkeepDependency)"

section \<open>The vulnerability score of a row\<close>

definition plural :: "int \<Rightarrow> string \<Rightarrow> string \<Rightarrow> string" where
  "plural n one many = (if n = 1 then one else many)"

definition describeVuln :: "scored \<Rightarrow> string \<Rightarrow> int \<Rightarrow> string" where
  "describeVuln tp t further =
     t @ '' '' @ ToLower (sev_str (s_sev tp)) @ '' '' @ s_ID tp
     @ (if s_estimated tp then '' (severity unknown, estimated as medium)'' else '''')
     @ '' ('' @ itoa (s_score tp) @ '')''
     @ (if further > 0
        then '', +'' @ itoa (further * furtherAdvisoryAdd) @ '' for '' @ itoa further @ '' more '' @ t
          @ '' high or critical advisor'' @ plural further ''y'' ''ies''
        else '''')"

text \<open>
  \<open>byID\<close>: a map from advisory ID to the worst finding seen with it. The key of an entry is its
  value's ID, so the map is the list of its values.
\<close>

fun keep_worst :: "scored \<Rightarrow> scored list \<Rightarrow> scored list" where
  "keep_worst f [] = [f]"
| "keep_worst f (g # gs) =
     (if s_ID g = s_ID f then (if s_score f > s_score g then f # gs else g # gs) else g # keep_worst f gs)"

definition by_id :: "scored list \<Rightarrow> scored list" where
  "by_id ts = fold keep_worst ts []"

definition worse_first :: "scored \<Rightarrow> scored \<Rightarrow> bool" where
  "worse_first a b = (if s_score a \<noteq> s_score b then s_score a > s_score b else s_ID a < s_ID b)"

definition best :: "scored list \<Rightarrow> int \<Rightarrow> bool \<Rightarrow> int \<times> scored option \<times> int" where
  "best ts cap bonus =
     (case sort_by worse_first (by_id ts) of
        [] \<Rightarrow> (0, None, 0)
      | tp # rest \<Rightarrow>
          (let further = int (length (filter (\<lambda>f. bonus \<and> highOrCritical (s_sev f)) rest));
               s = s_score tp + further * furtherAdvisoryAdd
           in (if cap > 0 \<and> s > cap then cap else s, Some tp, further)))"

definition worse_kev :: "scored \<Rightarrow> scored option \<Rightarrow> scored option" where
  "worse_kev f kev =
     (if f_Exploited (s_Finding f) \<and>
         (case kev of None \<Rightarrow> True
          | Some k \<Rightarrow> s_score f > s_score k \<or> (s_score f = s_score k \<and> s_ID f < s_ID k))
      then Some f else kev)"

definition vulnScore :: "row \<Rightarrow> scored list \<Rightarrow> int \<times> bool \<times> scored option \<times> string" where
  "vulnScore r fs =
     (let called = filter (\<lambda>f. s_tier f = TierCalled) fs;
          imported = filter (\<lambda>f. s_tier f = TierImported) fs;
          (cs, ctop, cfurther) = best called 0 True;
          (is, itop, ifurther) = best imported importedCap False;
          (score0, top0, reason0) =
            (case ctop of
               Some c \<Rightarrow> if cs \<ge> is then (cs, ctop, describeVuln c ''called'' cfurther)
                 else (case itop of Some i \<Rightarrow> (is, itop, describeVuln i ''imported'' ifurther) | None \<Rightarrow> (0, None, ''''))
             | None \<Rightarrow> (case itop of Some i \<Rightarrow> (is, itop, describeVuln i ''imported'' ifurther) | None \<Rightarrow> (0, None, '''')));
          (score1, reason1) = (if score0 > 100 then (100, reason0 @ ''; capped at 100'') else (score0, reason0));
          kev = fold worse_kev called None;
          (score2, top2, floored, reason2) =
            (case kev of
               Some k \<Rightarrow> if score1 < exploitedFloor
                 then (exploitedFloor, kev, True,
                       ''called known-exploited '' @ ToLower (sev_str (s_sev k)) @ '' '' @ s_ID k
                       @ '' (at least '' @ itoa exploitedFloor @ '')'')
                 else (score1, top0, False, reason1)
             | None \<Rightarrow> (score1, top0, False, reason1));
          est = (case top2 of Some t \<Rightarrow> s_estimated t \<and> \<not> floored | None \<Rightarrow> False)
      in if isConfirmed (r_TestOnly r) \<and> score2 > 0
         then (let half = (if score2 div 2 > testOnlyCap then testOnlyCap else score2 div 2)
               in (half, est, top2, reason2 @ ''; test-only dependency: halved to '' @ itoa half))
         else (score2, est, top2, reason2))"

definition upkeepReason :: "row \<Rightarrow> upkeep_state \<Rightarrow> int \<Rightarrow> string" where
  "upkeepReason r state score =
     (let who = (if r_Self r then ''module'' else ''dependency'');
          what = (if u_Archived (r_Upkeep r) then ''archived''
                  else if u_Retracted (r_Upkeep r) \<and> \<not> u_Deprecated (r_Upkeep r) then ''this version is retracted''
                  else ''deprecated'');
          who' = (if score = upkeepMinor then who @ '' (test-only or not compiled in)'' else who)
      in what @ '' '' @ who' @ '' ('' @ itoa score @ '')'')"

section \<open>The score against a reference definition\<close>

text \<open>
  The reference: the worst table value, plus five for each distinct high or critical advisory
  beyond the first, the imported column capped at 50, at most 100, at least 76 when a called finding
  is known to be exploited, and for a confirmed test-only row half of that, at most 50.
\<close>

definition tabled :: "scored \<Rightarrow> bool" where
  "tabled f = (s_score f = (case s_tier f of TierCalled \<Rightarrow> calledScore (s_sev f)
     | TierImported \<Rightarrow> importedScore (s_sev f) | TierGraphOnly \<Rightarrow> 0))"

definition hc_ids :: "scored list \<Rightarrow> string set" where
  "hc_ids ts = s_ID ` {f \<in> set ts. highOrCritical (s_sev f)}"

definition max_score :: "scored list \<Rightarrow> int" where
  "max_score ts = Max (insert 0 (s_score ` set ts))"

definition called_value :: "scored list \<Rightarrow> int" where
  "called_value ts = max_score ts + 5 * int (card (hc_ids ts) - 1)"

definition vuln_cap :: "bool \<Rightarrow> bool \<Rightarrow> int \<Rightarrow> int" where
  "vuln_cap kev testonly s =
     (let s1 = (if kev then max 76 (min 100 s) else min 100 s)
      in if testonly then min 50 (s1 div 2) else s1)"

lemma vuln_cap_bounds: "0 \<le> s \<Longrightarrow> 0 \<le> vuln_cap kev t s \<and> vuln_cap kev t s \<le> 100"
  by (cases kev; cases t) (auto simp: vuln_cap_def)

lemma vuln_cap_mono: "s \<le> s' \<Longrightarrow> vuln_cap kev t s \<le> vuln_cap kev t s'"
proof -
  assume "s \<le> s'"
  then have "(if kev then max 76 (min 100 s) else min 100 s) \<le> (if kev then max 76 (min 100 s') else min 100 s')"
    by (auto simp: min_def max_def)
  then show ?thesis
    unfolding vuln_cap_def Let_def by (auto intro: min.mono zdiv_mono1)
qed

definition vuln_value :: "bool \<Rightarrow> scored list \<Rightarrow> int" where
  "vuln_value testonly fs =
     (let called = filter (\<lambda>f. s_tier f = TierCalled) fs;
          imported = filter (\<lambda>f. s_tier f = TierImported) fs
      in vuln_cap (\<exists>f\<in>set called. f_Exploited (s_Finding f)) testonly
           (max (called_value called) (min 50 (max_score imported))))"

lemma scoreFinding_tabled [simp]: "tabled (scoreFinding f r)"
  by (auto simp: scoreFinding_def tabled_def Let_def split_beta split: tier.split)

lemma scoreFinding_Finding [simp]: "s_Finding (scoreFinding f r) = f"
  by (simp add: scoreFinding_def Let_def split_beta)

lemma scoreFinding_sev [simp]: "s_sev (scoreFinding f r) = fst (severityOf (f_Severity f))"
  by (simp add: scoreFinding_def Let_def split_beta)

lemma scoreFinding_estimated [simp]: "s_estimated (scoreFinding f r) = snd (severityOf (f_Severity f))"
  by (simp add: scoreFinding_def Let_def split_beta)

lemma scoreFinding_tier:
  "s_tier (scoreFinding f r) =
     (if \<not> r_Self r \<and> isRefuted (r_InBuild r) then TierGraphOnly else fst (tierOf (f_Reachability f) (r_Self r)))"
  by (simp add: scoreFinding_def Let_def split_beta)

lemma tabled_nonneg: "tabled f \<Longrightarrow> 0 \<le> s_score f \<and> s_score f \<le> 90"
  by (cases "s_sev f"; cases "s_tier f") (simp_all add: tabled_def)

lemma tabled_called_hc:
  "tabled f \<Longrightarrow> s_tier f = TierCalled \<Longrightarrow> highOrCritical (s_sev f) \<longleftrightarrow> 70 \<le> s_score f"
  by (cases "s_sev f") (simp_all add: tabled_def highOrCritical_def)

interpretation worse: weak_order worse_first
  by unfold_locales (auto simp: worse_first_def split: if_splits)

lemma keep_worst_IDs: "set (map s_ID (keep_worst f gs)) = insert (s_ID f) (set (map s_ID gs))"
  by (induction gs) auto

lemma keep_worst_distinct: "distinct (map s_ID gs) \<Longrightarrow> distinct (map s_ID (keep_worst f gs))"
  using keep_worst_IDs by (induction gs) auto

lemma keep_worst_sub: "set (keep_worst f gs) \<subseteq> insert f (set gs)"
  by (induction gs) auto

lemma keep_worst_covers:
  "h = f \<or> h \<in> set gs \<Longrightarrow> \<exists>k\<in>set (keep_worst f gs). s_ID k = s_ID h \<and> s_score h \<le> s_score k"
proof (induction gs)
  case Nil
  then show ?case by simp
next
  case (Cons a gs)
  consider "h = f" | "h = a" | "h \<in> set gs" using Cons.prems by auto
  then show ?case
    by cases (use Cons.IH in \<open>(cases "s_ID a = s_ID f"; cases "s_score f > s_score a"; fastforce)+\<close>)
qed

lemma by_id_snoc: "by_id (ts @ [f]) = keep_worst f (by_id ts)"
  by (simp add: by_id_def)

lemma by_id_Nil [simp]: "by_id [] = []"
  by (simp add: by_id_def)

lemma by_id_distinct: "distinct (map s_ID (by_id ts))"
  by (induction ts rule: rev_induct) (simp_all add: by_id_snoc keep_worst_distinct del: set_map)

lemma by_id_sub: "set (by_id ts) \<subseteq> set ts"
proof (induction ts rule: rev_induct)
  case Nil
  show ?case by (simp add: by_id_def)
next
  case (snoc f ts)
  then show ?case using keep_worst_sub [of f "by_id ts"] by (auto simp: by_id_snoc)
qed

lemma by_id_covers: "f \<in> set ts \<Longrightarrow> \<exists>g\<in>set (by_id ts). s_ID g = s_ID f \<and> s_score f \<le> s_score g"
proof (induction ts rule: rev_induct)
  case Nil
  then show ?case by simp
next
  case (snoc h ts)
  show ?case
  proof (cases "f = h")
    case True
    then show ?thesis using keep_worst_covers [of h h "by_id ts"] by (simp add: by_id_snoc)
  next
    case False
    with snoc obtain g where g: "g \<in> set (by_id ts)" "s_ID g = s_ID f" "s_score f \<le> s_score g"
      by auto
    with keep_worst_covers [of g h "by_id ts"] show ?thesis
      by (fastforce simp: by_id_snoc)
  qed
qed

lemma by_id_Nil_iff [simp]: "by_id ts = [] \<longleftrightarrow> ts = []"
  using by_id_covers [of "hd ts" ts] by (cases ts) (auto simp: by_id_def)

lemma max_score_ge: "f \<in> set ts \<Longrightarrow> s_score f \<le> max_score ts"
  by (simp add: max_score_def)

lemma max_score_nonneg [simp]: "0 \<le> max_score ts"
  by (simp add: max_score_def)

lemma max_score_le: "0 \<le> b \<Longrightarrow> (\<And>f. f \<in> set ts \<Longrightarrow> s_score f \<le> b) \<Longrightarrow> max_score ts \<le> b"
  by (auto simp: max_score_def)

lemma max_score_Nil [simp]: "max_score [] = 0"
  by (simp add: max_score_def)

lemma max_score_eq:
  "f \<in> set ts \<Longrightarrow> 0 \<le> s_score f \<Longrightarrow> (\<And>g. g \<in> set ts \<Longrightarrow> s_score g \<le> s_score f) \<Longrightarrow> max_score ts = s_score f"
  by (meson max_score_ge max_score_le order_antisym)

lemma finite_hc_ids [simp]: "finite (hc_ids ts)"
  by (simp add: hc_ids_def)

lemma hc_ids_Nil [simp]: "hc_ids [] = {}"
  by (simp add: hc_ids_def)

lemma length_hc_by_id:
  assumes "\<forall>f\<in>set ts. tabled f \<and> s_tier f = TierCalled"
  shows "length (filter (\<lambda>f. highOrCritical (s_sev f)) (by_id ts)) = card (hc_ids ts)"
proof -
  let ?hc = "filter (\<lambda>f. highOrCritical (s_sev f)) (by_id ts)"
  have "s_ID f \<in> s_ID ` set ?hc" if f: "f \<in> set ts" "highOrCritical (s_sev f)" for f
  proof -
    obtain g where g: "g \<in> set (by_id ts)" "s_ID g = s_ID f" "s_score f \<le> s_score g"
      using by_id_covers [OF f(1)] by blast
    with assms f by_id_sub [of ts] have "highOrCritical (s_sev g)"
      by (meson order_trans subsetD tabled_called_hc)
    with g show ?thesis by (auto intro!: rev_image_eqI [of g])
  qed
  then have "s_ID ` set ?hc = hc_ids ts"
    using by_id_sub [of ts] by (auto simp: hc_ids_def)
  moreover have "distinct (map s_ID ?hc)"
    by (rule distinct_map_filter) (rule by_id_distinct)
  ultimately show ?thesis
    by (metis distinct_card length_map set_map)
qed

lemma best_Cons:
  assumes "ts \<noteq> []" and "\<forall>f\<in>set ts. tabled f"
  obtains tp rest where "sort_by worse_first (by_id ts) = tp # rest" and "tp \<in> set ts"
    and "s_score tp = max_score ts" and "mset (by_id ts) = add_mset tp (mset rest)"
proof -
  obtain tp rest where eq: "sort_by worse_first (by_id ts) = tp # rest"
    using assms(1) by (metis by_id_Nil_iff list.exhaust sort_by_Nil_iff)
  have m: "mset (by_id ts) = add_mset tp (mset rest)"
    by (metis eq mset.simps(2) mset_sort_by)
  have tp: "tp \<in> set ts"
    using by_id_sub [of ts] m by (metis insertI1 set_mset_add_mset_insert set_mset_mset subsetD)
  have "s_score g \<le> s_score tp" if g: "g \<in> set ts" for g
  proof -
    obtain h where h: "h \<in> set (by_id ts)" "s_score g \<le> s_score h"
      using by_id_covers [OF g] by blast
    then have "\<not> worse_first h tp"
      using worse.sort_by_hd [of "by_id ts" h] eq by (metis empty_iff list.sel(1) list.set(1))
    then show ?thesis using h by (auto simp: worse_first_def split: if_splits)
  qed
  then have sc: "s_score tp = max_score ts"
    using tp assms(2) tabled_nonneg by (metis max_score_eq)
  show thesis using eq tp sc m by (rule that)
qed

lemma best_called:
  assumes "\<forall>f\<in>set ts. tabled f \<and> s_tier f = TierCalled"
  shows "fst (best ts 0 True) = called_value ts"
proof (cases "ts = []")
  case True
  then show ?thesis by (simp add: best_def called_value_def)
next
  case False
  then obtain tp rest where eq: "sort_by worse_first (by_id ts) = tp # rest" and tp: "tp \<in> set ts"
    and score: "s_score tp = max_score ts" and m: "mset (by_id ts) = add_mset tp (mset rest)"
    using best_Cons assms by blast
  let ?hc = "\<lambda>f. highOrCritical (s_sev f)"
  have "length (filter ?hc (by_id ts)) = (if ?hc tp then 1 else 0) + length (filter ?hc rest)"
    using arg_cong [OF m, of "\<lambda>M. size (filter_mset ?hc M)"] by (simp flip: mset_filter)
  then have len: "length (filter ?hc rest) = card (hc_ids ts) - (if ?hc tp then 1 else 0)"
    using length_hc_by_id [OF assms] by simp
  have "hc_ids ts = {}" if "\<not> ?hc tp"
  proof -
    have "\<not> ?hc f" if "f \<in> set ts" for f
      using \<open>\<not> ?hc tp\<close> assms tp that max_score_ge [OF that] score
      by (metis order_trans tabled_called_hc)
    then show ?thesis by (auto simp: hc_ids_def)
  qed
  then have "length (filter ?hc rest) = card (hc_ids ts) - 1"
    using len by (cases "?hc tp") auto
  then show ?thesis
    by (simp add: best_def eq called_value_def score furtherAdvisoryAdd_def Let_def)
qed

lemma best_top_iff: "fst (snd (best ts cap bonus)) = None \<longleftrightarrow> ts = []"
  by (cases "sort_by worse_first (by_id ts)")
    (auto simp: best_def Let_def dest: arg_cong [where f = set])

lemma best_imported:
  assumes "\<forall>f\<in>set ts. tabled f"
  shows "fst (best ts importedCap False) = min 50 (max_score ts)"
proof (cases "ts = []")
  case True
  then show ?thesis by (simp add: best_def)
next
  case False
  then obtain tp rest where "sort_by worse_first (by_id ts) = tp # rest" "s_score tp = max_score ts"
    using best_Cons assms by blast
  then show ?thesis by (simp add: best_def importedCap_def min_def Let_def)
qed

lemma worse_kev_fold: "(fold worse_kev ts kev = None) \<longleftrightarrow> kev = None \<and> (\<forall>f\<in>set ts. \<not> f_Exploited (s_Finding f))"
proof (induction ts arbitrary: kev)
  case Nil
  then show ?case by simp
next
  case (Cons f ts)
  have "worse_kev f kev = None \<longleftrightarrow> kev = None \<and> \<not> f_Exploited (s_Finding f)"
    by (auto simp: worse_kev_def)
  then show ?case by (auto simp: Cons.IH)
qed

lemma called_value_nonneg [simp]: "0 \<le> called_value ts"
  by (simp add: called_value_def)

lemma vulnScore_value:
  assumes "\<forall>f\<in>set fs. tabled f"
  shows "fst (vulnScore r fs) = vuln_value (isConfirmed (r_TestOnly r)) fs"
proof -
  let ?c = "filter (\<lambda>f. s_tier f = TierCalled) fs" and ?i = "filter (\<lambda>f. s_tier f = TierImported) fs"
  obtain cs ctop cf where c: "best ?c 0 True = (cs, ctop, cf)" by (metis surj_pair)
  obtain im itop jf where i: "best ?i importedCap False = (im, itop, jf)" by (metis surj_pair)
  have cs: "cs = called_value ?c" using best_called [of ?c] assms c by simp
  have im: "im = min 50 (max_score ?i)" using best_imported [of ?i] assms i by simp
  have ct: "ctop = None \<Longrightarrow> cs = 0" using best_top_iff [of ?c 0 True] c by (auto simp: cs called_value_def)
  have it: "itop = None \<Longrightarrow> im = 0" using best_top_iff [of ?i importedCap False] i by (auto simp: im)
  have pos: "0 \<le> cs" "0 \<le> im" by (simp_all add: cs im)
  let ?kev = "fold worse_kev ?c None"
  have kev: "(\<exists>f\<in>set ?c. f_Exploited (s_Finding f)) = (?kev \<noteq> None)"
    by (simp only: worse_kev_fold) blast
  have v: "vuln_value t fs = vuln_cap (?kev \<noteq> None) t (max cs im)" for t
    unfolding vuln_value_def Let_def kev cs im by (rule refl)
  let ?pick = "case ctop of
      Some c \<Rightarrow> if cs \<ge> im then (cs, ctop, describeVuln c ''called'' cf)
        else (case itop of Some i \<Rightarrow> (im, itop, describeVuln i ''imported'' jf) | None \<Rightarrow> (0, None, ''''))
    | None \<Rightarrow> (case itop of Some i \<Rightarrow> (im, itop, describeVuln i ''imported'' jf) | None \<Rightarrow> (0, None, ''''))"
  have "fst ?pick = max cs im"
    using ct it pos by (cases ctop; cases itop; cases "im \<le> cs") simp_all
  then obtain tp rs where pick: "?pick = (max cs im, tp, rs)"
    by (metis eq_fst_iff surj_pair)
  obtain m where m: "max cs im = m" and m0: "0 \<le> m" using pos by simp
  show ?thesis
    unfolding v vulnScore_def Let_def c i prod.case pick unfolding m
    using m0 by (cases "100 < m"; cases "m < 76"; cases ?kev)
      (auto simp: vuln_cap_def Let_def exploitedFloor_def testOnlyCap_def)
qed

lemma vuln_value_bounds: "0 \<le> vuln_value t fs \<and> vuln_value t fs \<le> 100"
  unfolding vuln_value_def Let_def by (rule vuln_cap_bounds) (simp add: le_max_iff_disj)

section \<open>Monotonicity in the severities\<close>

text \<open>\<open>sev_le f g\<close>: the same finding in the same tier, with a severity at least as high in \<open>g\<close>.\<close>

definition sev_le :: "scored \<Rightarrow> scored \<Rightarrow> bool" where
  "sev_le f g = (s_ID f = s_ID g \<and> s_tier f = s_tier g \<and> s_sev f \<le> s_sev g
     \<and> f_Exploited (s_Finding f) = f_Exploited (s_Finding g) \<and> tabled f \<and> tabled g)"

lemma sev_le_score: "sev_le f g \<Longrightarrow> s_score f \<le> s_score g"
  by (cases "s_sev f"; cases "s_sev g"; cases "s_tier g")
    (simp_all add: sev_le_def tabled_def less_eq_severity_def)

lemma sev_le_hc: "sev_le f g \<Longrightarrow> highOrCritical (s_sev f) \<Longrightarrow> highOrCritical (s_sev g)"
  by (cases "s_sev g") (auto simp: sev_le_def highOrCritical_def less_eq_severity_def)

lemma sev_le_filter:
  "list_all2 sev_le fs gs \<Longrightarrow>
     list_all2 sev_le (filter (\<lambda>f. s_tier f = t) fs) (filter (\<lambda>f. s_tier f = t) gs)"
  by (induction rule: list_all2_induct) (auto simp: sev_le_def)

lemma sev_le_elem: "list_all2 sev_le fs gs \<Longrightarrow> f \<in> set fs \<Longrightarrow> \<exists>g\<in>set gs. sev_le f g"
  by (induction rule: list_all2_induct) auto

lemma sev_le_elem2: "list_all2 sev_le fs gs \<Longrightarrow> g \<in> set gs \<Longrightarrow> \<exists>f\<in>set fs. sev_le f g"
  by (induction rule: list_all2_induct) auto

lemma sev_le_max_score: "list_all2 sev_le fs gs \<Longrightarrow> max_score fs \<le> max_score gs"
  by (rule max_score_le) (auto dest!: sev_le_elem intro: order_trans [OF sev_le_score max_score_ge])

lemma sev_le_hc_ids: "list_all2 sev_le fs gs \<Longrightarrow> hc_ids fs \<subseteq> hc_ids gs"
  by (auto simp: hc_ids_def image_iff Bex_def dest!: sev_le_elem intro: sev_le_hc)
    (metis sev_le_def sev_le_hc)

lemma sev_le_called_value: "list_all2 sev_le fs gs \<Longrightarrow> called_value fs \<le> called_value gs"
  using sev_le_max_score [of fs gs] card_mono [OF finite_hc_ids sev_le_hc_ids, of fs gs]
  by (simp add: called_value_def)

lemma sev_le_exploited:
  "list_all2 sev_le fs gs \<Longrightarrow>
     (\<exists>f\<in>set fs. f_Exploited (s_Finding f)) \<longleftrightarrow> (\<exists>f\<in>set gs. f_Exploited (s_Finding f))"
  by (meson sev_le_def sev_le_elem sev_le_elem2)

lemma vuln_value_mono:
  assumes "list_all2 sev_le fs gs"
  shows "vuln_value t fs \<le> vuln_value t gs"
proof -
  note c = sev_le_filter [OF assms, of TierCalled] and i = sev_le_filter [OF assms, of TierImported]
  have "called_value (filter (\<lambda>f. s_tier f = TierCalled) fs) \<le> called_value (filter (\<lambda>f. s_tier f = TierCalled) gs)"
    by (rule sev_le_called_value [OF c])
  moreover have "max_score (filter (\<lambda>f. s_tier f = TierImported) fs) \<le> max_score (filter (\<lambda>f. s_tier f = TierImported) gs)"
    by (rule sev_le_max_score [OF i])
  ultimately show ?thesis
    unfolding vuln_value_def Let_def sev_le_exploited [OF c]
    by (intro vuln_cap_mono max.mono min.mono order_refl)
qed

text \<open>A row whose findings are all graph-only scores nothing for them.\<close>

lemma vuln_value_graph_only:
  "\<forall>f\<in>set fs. s_tier f = TierGraphOnly \<Longrightarrow> vuln_value t fs = 0"
proof -
  assume "\<forall>f\<in>set fs. s_tier f = TierGraphOnly"
  then have "filter (\<lambda>f. s_tier f = TierCalled) fs = []" "filter (\<lambda>f. s_tier f = TierImported) fs = []"
    by (auto simp: filter_empty_conv)
  then show ?thesis by (simp add: vuln_value_def vuln_cap_def called_value_def)
qed

text \<open>Without a called finding the value stays in band C.\<close>

lemma vuln_value_no_called:
  assumes "\<forall>f\<in>set fs. s_tier f \<noteq> TierCalled"
  shows "vuln_value t fs \<le> 50"
proof -
  from assms have c: "filter (\<lambda>f. s_tier f = TierCalled) fs = []" by (auto simp: filter_empty_conv)
  show ?thesis
    unfolding vuln_value_def Let_def c by (auto simp: vuln_cap_def called_value_def Let_def)
qed

end
