(* ===== verification/Grade_Finding.thy ===== *)
theory Grade_Finding
  imports Grade_Score
begin

text \<open>
  \<open>pkg/grade/finding.go\<close>: a finding after grading, with the words around its fix. The response is a
  label next to the letter; the lemmas show that its status follows from the fix facts alone and that
  nothing of it enters the score.

  \<open>golang.org/x/mod/semver\<close> is third-party code: its two functions are the record \<open>sv\<close>, an argument
  of every definition that compares Go versions.
\<close>

record semver_api =
  sv_IsValid :: "string \<Rightarrow> bool"
  sv_Compare :: "string \<Rightarrow> string \<Rightarrow> int"

definition ResponseWindowDays :: int where "ResponseWindowDays = 14"

definition joinLimited :: "string list \<Rightarrow> nat \<Rightarrow> string" where
  "joinLimited items n =
     (if length items \<le> n then Join items '', ''
      else Join (take n items) '', '' @ '' and '' @ itoa (int (length items) - int n) @ '' more'')"

definition monthYear :: "gotime \<Rightarrow> string" where
  "monthYear t = fmt_mon_year (UTC t)"

definition dayMonth :: "gotime \<Rightarrow> gotime \<Rightarrow> string" where
  "dayMonth t now =
     (if Year t \<noteq> Year now then fmt_day_month t @ '' '' @ fmt_year t else fmt_day_month t)"

definition historyText :: "finding \<Rightarrow> grade_input \<Rightarrow> string" where
  "historyText f inp =
     (if f_Module f = '''' then ''''
      else (case i_History inp (f_Module f) of
          None \<Rightarrow> ''Not enough response history.''
        | Some h \<Rightarrow>
            if h_Samples h \<le> 0 then ''Not enough response history.''
            else ''Historically adopted comparable fixes in about '' @ itoa (h_MedianDays h) @ '' days ('' @ itoa (h_Samples h)
              @ '' fixes, '' @ monthYear (h_From h) @ '' to '' @ monthYear (h_To h) @ '').''))"

text \<open>The middle dot of the source's text, in UTF-8.\<close>

definition middle_dot :: string where
  "middle_dot = [CHR 0xC2, CHR 0xB7]"

definition responseBase :: "finding \<Rightarrow> row \<Rightarrow> grade_input \<Rightarrow> response" where
  "responseBase f r inp =
     (if f_Exploited f then
        zero_response\<lparr>rs_Status := ''exploited'', rs_Text := ''Known to be exploited (CISA KEV): it counts at once.''\<rparr>
      else if TrimSpace (f_FixedVersion f) = '''' then
        zero_response\<lparr>rs_Status := ''no_fix'', rs_Text := ''No fix available.''\<rparr>
      else (case f_FixReleasedAt f of
          None \<Rightarrow> zero_response\<lparr>rs_Status := ''date_unknown'', rs_Text := ''Fix release date unavailable.'',
                    rs_History := historyText f inp\<rparr>
        | Some t0 \<Rightarrow>
            (let t = UTC t0;
                 ends = AddDays t ResponseWindowDays;
                 d0 = whole_days (Sub (i_Now inp) t);
                 days = (if d0 < 0 then 0 else d0);
                 age = (case i_SelfReleasedAt inp of
                          Some rel \<Rightarrow> if Before t rel then whole_days (Sub rel t) else 0
                        | None \<Rightarrow> 0);
                 resp = zero_response\<lparr>rs_FixReleasedAt := Some t, rs_DateSource := f_FixDateSource f,
                   rs_WindowEnds := Some ends, rs_DaysSinceFix := days, rs_FixAgeAtReleaseDays := age,
                   rs_History := historyText f inp\<rparr>
             in if Before (i_Now inp) ends then
                  resp\<lparr>rs_Status := ''within_window'',
                    rs_Text := ''Fix released '' @ dayMonth t (i_Now inp) @ '' '' @ middle_dot @ '' response window ends ''
                      @ dayMonth ends (i_Now inp) @ ''.''
                      @ (if age > 0 then '' The fix was available for '' @ itoa age @ '' days before this version was released.''
                         else '''')\<rparr>
                else
                  (let module = (if f_Module f = '''' then r_Module r else f_Module f)
                   in resp\<lparr>rs_Status := ''past_window'',
                        rs_Text := (if age > 0
                          then ''Fix available for '' @ itoa age @ '' days before this version was released ('' @ itoa days
                            @ '' days to the scan date); the graded version still requires the affected '' @ module @ '' version.''
                          else ''Fix available for '' @ itoa days @ '' days; the graded version still requires the affected ''
                            @ module @ '' version.'')\<rparr>))))"

definition FixCompatible :: string where "FixCompatible = ''compatible''"
definition FixRaisesMinimum :: string where "FixRaisesMinimum = ''raises_minimum''"

definition compareGo :: "semver_api \<Rightarrow> string \<Rightarrow> string \<Rightarrow> int \<times> bool" where
  "compareGo sv a b =
     (let x = ''v'' @ TrimPrefix a ''go''; y = ''v'' @ TrimPrefix b ''go''
      in if \<not> sv_IsValid sv x \<or> \<not> sv_IsValid sv y then (0, False) else (sv_Compare sv x y, True))"

definition addFixGo :: "semver_api \<Rightarrow> response \<Rightarrow> finding \<Rightarrow> grade_input \<Rightarrow> response" where
  "addFixGo sv resp f inp =
     (let need = TrimSpace (f_FixRequiresGo f)
      in if need = '''' \<or> TrimSpace (f_FixedVersion f) = '''' then resp
         else (let resp = resp\<lparr>rs_FixRequiresGo := need\<rparr>;
                   have_go = TrimSpace (i_ProjectGo inp);
                   (cmp, ok) = compareGo sv need have_go
               in if have_go = '''' \<or> \<not> ok then
                    resp\<lparr>rs_Text := rs_Text resp @ '' The fix requires Go '' @ need @ '' or newer.''\<rparr>
                  else if cmp > 0 then
                    resp\<lparr>rs_FixCompat := FixRaisesMinimum,
                      rs_Text := rs_Text resp @ '' The fix requires Go '' @ need @ '' or newer; this module supports Go '' @ have_go
                        @ '', so taking it raises the minimum Go version.''\<rparr>
                  else resp\<lparr>rs_FixCompat := FixCompatible\<rparr>))"

definition responseFor :: "semver_api \<Rightarrow> finding \<Rightarrow> row \<Rightarrow> grade_input \<Rightarrow> response" where
  "responseFor sv f r inp = addFixGo sv (responseBase f r inp) f inp"

definition findingResult :: "semver_api \<Rightarrow> scored \<Rightarrow> row \<Rightarrow> grade_input \<Rightarrow> finding_result" where
  "findingResult sv s r inp =
     (let f = s_Finding s;
          notes = (if r_Self r then [''Reachability is assumed: anyone who uses the module can use its vulnerable code.'']
                   else if s_assumed s then [''Reachability was not determined and is scored as called.''] else [])
            @ (if f_AffectedPackages f \<noteq> []
               then [''Only if you import '' @ joinLimited (f_AffectedPackages f) 3 @ ''.''] else [])
            @ (if s_estimated s then [''Severity is unknown and is scored as medium.''] else [])
      in \<lparr>fr_ID = f_ID f, fr_Aliases = f_Aliases f,
          fr_Module = (if f_Module f = '''' then r_Module r else f_Module f),
          fr_Severity = s_sev s, fr_Estimated = s_estimated s, fr_Tier = s_tier s, fr_TierAssumed = s_assumed s,
          fr_Score = s_score s, fr_Counted = (s_tier s \<noteq> TierGraphOnly), fr_Exploited = f_Exploited f,
          fr_FixedVersion = f_FixedVersion f, fr_AffectedPackages = f_AffectedPackages f,
          fr_Condition = f_Condition f, fr_Note = Join notes '' '', fr_VEX = vexFor (s_tier s),
          fr_Response = responseFor sv f r inp\<rparr>)"

section \<open>What the response says\<close>

lemma addFixGo_keeps [simp]:
  "rs_Status (addFixGo sv resp f inp) = rs_Status resp"
  "rs_DaysSinceFix (addFixGo sv resp f inp) = rs_DaysSinceFix resp"
  "rs_WindowEnds (addFixGo sv resp f inp) = rs_WindowEnds resp"
  by (simp_all add: addFixGo_def Let_def split_beta)

lemma responseBase_status:
  "rs_Status (responseBase f r inp) =
     (if f_Exploited f then ''exploited''
      else if TrimSpace (f_FixedVersion f) = '''' then ''no_fix''
      else (case f_FixReleasedAt f of None \<Rightarrow> ''date_unknown''
            | Some t \<Rightarrow> if t_ns (i_Now inp) < t_ns t + 14 * day_ns then ''within_window'' else ''past_window''))"
  by (simp add: responseBase_def Let_def Before_def AddDays_def UTC_def ResponseWindowDays_def split: option.split)

lemma responseBase_days: "0 \<le> rs_DaysSinceFix (responseBase f r inp)"
  by (simp add: responseBase_def Let_def zero_response_def split: option.split)

lemma findingResult_simps [simp]:
  "fr_ID (findingResult sv s r inp) = s_ID s"
  "fr_Score (findingResult sv s r inp) = s_score s"
  "fr_Tier (findingResult sv s r inp) = s_tier s"
  "fr_Counted (findingResult sv s r inp) = (s_tier s \<noteq> TierGraphOnly)"
  "fr_VEX (findingResult sv s r inp) = vexFor (s_tier s)"
  "fr_Response (findingResult sv s r inp) = responseFor sv (s_Finding s) r inp"
  by (simp_all add: findingResult_def Let_def)

end
