(* ===== verification/Grade_Rows.thy ===== *)
theory Grade_Rows
  imports Grade_Finding
begin

text \<open>
  \<open>gradeRow\<close> and \<open>preferVuln\<close> of \<open>pkg/grade/engine.go\<close>, the whole-tree rules (\<open>tree.go\<close>) and the
  Pending rules (\<open>pending.go\<close>). The lemmas give each of the three a closed form: the score of a row,
  the score of the tree rule, and when a grade is Pending.
\<close>

section \<open>One row\<close>

definition isArchivedOrDeprecated :: "row \<Rightarrow> bool" where
  "isArchivedOrDeprecated r =
     (u_Archived (r_Upkeep r) \<or> u_Deprecated (r_Upkeep r) \<or> u_Retracted (r_Upkeep r))"

definition possible_upkeep :: "row \<Rightarrow> int" where
  "possible_upkeep r =
     (if isConfirmed (r_TestOnly r) \<or> isRefuted (r_InBuild r) then upkeepMinor
      else if r_Self r then upkeepSelf else upkeepDependency)"

definition finding_lt :: "finding_result \<Rightarrow> finding_result \<Rightarrow> bool" where
  "finding_lt a b = (if fr_Score a \<noteq> fr_Score b then fr_Score a > fr_Score b else fr_ID a < fr_ID b)"

definition gradeRow :: "semver_api \<Rightarrow> row \<Rightarrow> grade_input \<Rightarrow> row_result" where
  "gradeRow sv r inp =
     (let state = upkeepState r (i_Now inp);
          fs = map (\<lambda>f. scoreFinding f r) (r_Findings r);
          (vs, est, tp, vreason) = vulnScore r fs;
          us = upkeepScore r state;
          score0 = (if us > vs then us else vs);
          score = (if score0 > 100 then 100 else score0);
          letter = (if u_Missing (r_Upkeep r) \<and> \<not> isArchivedOrDeprecated r
                      \<and> bandOf (possible_upkeep r) > bandOf score
                    then LetterNone else bandOf score);
          (reason, estimated) =
            (if vs > 0 \<and> vs \<ge> us then (vreason, est)
             else if us > 0 then (upkeepReason r state us, False)
             else if length fs > 0 then (''findings are shown, not graded'', False)
             else if state = StateUnknown then (''upkeep could not be read'', False)
             else if r_Private r then (''private module: not looked up, not graded on upkeep'', False)
             else if state = StateNotAssessed then (''not assessed'', False)
             else (''nothing found'', False))
      in \<lparr>rr_Module = r_Module r, rr_Version = r_Version r, rr_Self = r_Self r, rr_Direct = r_Direct r,
          rr_TestOnly = isConfirmed (r_TestOnly r), rr_NotBuilt = isRefuted (r_InBuild r), rr_Private = r_Private r,
          rr_Score = score, rr_VulnScore = vs, rr_UpkeepScore = us, rr_Letter = letter, rr_Reason = reason,
          rr_UpkeepState = state, rr_UpkeepNote = TrimSpace (u_Message (r_Upkeep r)), rr_Estimated = estimated,
          rr_UpkeepMissed = u_Missing (r_Upkeep r), rr_ArchivedUnread = u_ArchivedUnread (r_Upkeep r),
          rr_Findings = sort_by finding_lt (map (\<lambda>s. findingResult sv s r inp) fs)\<rparr>)"

definition decided_by_vuln :: "row_result \<Rightarrow> bool" where
  "decided_by_vuln a = (rr_VulnScore a \<ge> rr_UpkeepScore a \<and> rr_VulnScore a > 0)"

definition preferVuln :: "row_result \<Rightarrow> row_result \<Rightarrow> bool" where
  "preferVuln a b =
     (if decided_by_vuln a \<noteq> decided_by_vuln b then decided_by_vuln a
      else if rr_Estimated a \<noteq> rr_Estimated b then \<not> rr_Estimated a
      else if rr_Self a \<noteq> rr_Self b then rr_Self a
      else if rr_Direct a \<noteq> rr_Direct b then rr_Direct a
      else rr_Module a < rr_Module b)"

definition row_lt :: "row_result \<Rightarrow> row_result \<Rightarrow> bool" where
  "row_lt a b = (if rr_Score a \<noteq> rr_Score b then rr_Score a > rr_Score b else preferVuln a b)"

section \<open>The whole-tree rules\<close>

definition tree_findings :: "grade_input \<Rightarrow> (string \<times> scored) list" where
  "tree_findings inp =
     concat (map (\<lambda>r. map (\<lambda>f. (r_Module r, scoreFinding f r)) (r_Findings r))
       (filter (\<lambda>r. \<not> isConfirmed (r_TestOnly r)) (i_Self inp # i_Deps inp)))"

definition called_hc :: "string \<times> scored \<Rightarrow> bool" where
  "called_hc k = (s_tier (snd k) = TierCalled \<and> highOrCritical (s_sev (snd k)))"

definition reached_hc :: "string \<times> scored \<Rightarrow> bool" where
  "reached_hc k =
     ((s_tier (snd k) = TierCalled \<or> s_tier (snd k) = TierImported) \<and> highOrCritical (s_sev (snd k)))"

definition tree_keys :: "(string \<times> scored \<Rightarrow> bool) \<Rightarrow> grade_input \<Rightarrow> (string \<times> string) list" where
  "tree_keys P inp = remdups (map (\<lambda>k. (fst k, s_ID (snd k))) (filter P (tree_findings inp)))"

definition tree_modules :: "(string \<times> scored \<Rightarrow> bool) \<Rightarrow> grade_input \<Rightarrow> string list" where
  "tree_modules P inp = remdups (map fst (filter P (tree_findings inp)))"

definition least_id :: "(scored \<Rightarrow> bool) \<Rightarrow> grade_input \<Rightarrow> string" where
  "least_id P inp =
     fold (\<lambda>k cc. if P (snd k) \<and> (cc = '''' \<or> s_ID (snd k) < cc) then s_ID (snd k) else cc) (tree_findings inp) ''''"

definition treeRule :: "grade_input \<Rightarrow> tree_row option" where
  "treeRule inp =
     (let calledHC = int (length (tree_keys called_hc inp));
          anyHC = int (length (tree_keys reached_hc inp));
          modules = int (length (tree_modules called_hc inp));
          modulesAny = int (length (tree_modules reached_hc inp));
          calledCritical = least_id (\<lambda>s. s_tier s = TierCalled \<and> s_sev s = CRITICAL) inp;
          calledExploited = least_id (\<lambda>s. s_tier s = TierCalled \<and> f_Exploited (s_Finding s)) inp
      in if i_ChecksumMismatch inp then
           Some \<lparr>tr_Rule = ''checksum_mismatch'', tr_Score = treeFScore, tr_Letter = LetterF,
             tr_Reason = ''a module does not match its checksum (go.sum)''
               @ (if i_ChecksumDetail inp \<noteq> '''' then '': '' @ i_ChecksumDetail inp else ''''),
             tr_Estimated = False\<rparr>
         else if calledExploited \<noteq> '''' then
           Some \<lparr>tr_Rule = ''called_exploited'', tr_Score = treeFScore, tr_Letter = LetterF,
             tr_Reason = ''a called known-exploited finding: '' @ calledExploited, tr_Estimated = False\<rparr>
         else if calledCritical \<noteq> '''' then
           Some \<lparr>tr_Rule = ''called_critical'', tr_Score = treeFScore, tr_Letter = LetterF,
             tr_Reason = ''a called critical finding: '' @ calledCritical, tr_Estimated = False\<rparr>
         else if calledHC \<ge> int treeCalledFindings then
           Some \<lparr>tr_Rule = ''called_findings'', tr_Score = treeFScore, tr_Letter = LetterF,
             tr_Reason = itoa calledHC @ '' called high or critical findings across '' @ itoa modules @ '' module''
               @ plural modules '''' ''s'', tr_Estimated = False\<rparr>
         else if anyHC \<ge> int treeImportedOrCalled then
           Some \<lparr>tr_Rule = ''imported_and_called_findings'', tr_Score = treeDScore, tr_Letter = LetterD,
             tr_Reason = itoa anyHC @ '' called or imported high or critical findings across '' @ itoa modulesAny
               @ '' module'' @ plural modulesAny '''' ''s'', tr_Estimated = False\<rparr>
         else None)"

section \<open>Pending\<close>

definition withDetail :: "string \<Rightarrow> string \<Rightarrow> string" where
  "withDetail base detail = (if detail = '''' then base else base @ '': '' @ detail)"

definition hintSuffix :: "string \<Rightarrow> string" where
  "hintSuffix h = (if TrimSpace h = '''' then '''' else ''. '' @ TrimSpace h)"

definition knownFacts :: "row_result list \<Rightarrow> string list" where
  "knownFacts rows =
     concat (map (\<lambda>r. if rr_Self r then
         (case rr_UpkeepState r of StateArchived \<Rightarrow> [''Archived''] | StateDeprecated \<Rightarrow> [''Deprecated''] | _ \<Rightarrow> [])
         else []) rows)
     @ (case rows of
          [] \<Rightarrow> []
        | w # _ \<Rightarrow>
            if rr_Score w > 0 \<and> (\<not> rr_UpkeepMissed w \<or> rr_VulnScore w \<ge> rr_UpkeepScore w \<and> rr_VulnScore w > 0)
            then [''worst row so far: '' @ (if rr_Self w then ''the module itself'' else rr_Module w) @ '', '' @ rr_Reason w]
            else [])"

definition pending_for :: "string \<Rightarrow> string \<Rightarrow> string list \<Rightarrow> pending" where
  "pending_for check reason known = \<lparr>p_Check = check, p_Code = '''', p_Kind = '''', p_Reason = reason, p_Known = known\<rparr>"

definition missing_dep_score :: "row \<Rightarrow> int" where
  "missing_dep_score d = (if isConfirmed (r_TestOnly d) \<or> isRefuted (r_InBuild d) then upkeepMinor else upkeepDependency)"

definition missing_deps :: "grade_input \<Rightarrow> int \<Rightarrow> row list" where
  "missing_deps inp score =
     filter (\<lambda>d. u_Missing (r_Upkeep d) \<and> bandOf (missing_dep_score d) > bandOf score) (i_Deps inp)"

definition missing_reason :: "grade_input \<Rightarrow> row list \<Rightarrow> string" where
  "missing_reason inp ds =
     (let missing = sort_strings (map r_Module ds);
          maxPossible = fold (\<lambda>d m. if missing_dep_score d > m then missing_dep_score d else m) ds 0;
          more = (if length missing > 3 then '' and '' @ itoa (int (length missing) - 3) @ '' more'' else '''')
      in ''the maintenance data of '' @ Join (take 3 missing) '', '' @ more
         @ '' could not be read, and an archived or deprecated state ('' @ itoa maxPossible
         @ '') would be worse than anything found so far'' @ hintSuffix (c_MaintenanceHint (i_Checks inp)))"

definition pendingFor :: "grade_input \<Rightarrow> row_result list \<Rightarrow> int \<Rightarrow> pending option" where
  "pendingFor inp rows score =
     (let c = i_Checks inp; known = knownFacts rows
      in if c_VulnScanFailed c then
           Some \<lparr>p_Check = ''vulnerability_scan'', p_Code = c_VulnScanCode c, p_Kind = c_VulnScanKind c,
             p_Reason = withDetail ''the vulnerability scan did not run'' (c_VulnScanReason c), p_Known = known\<rparr>
         else if c_ScanTimedOut c then
           Some (pending_for ''scan_incomplete''
             ''the scan did not finish (it timed out or was interrupted), so some checks never ran'' known)
         else if c_CalledPassStale c \<noteq> '''' then Some (pending_for ''called_pass'' (c_CalledPassStale c) known)
         else if c_ChecksumUnverified c \<and> bandOf treeFScore > bandOf score then
           Some (pending_for ''checksum''
             ''go mod verify could not complete, so a checksum mismatch cannot be ruled out'' known)
         else if c_KEVUnchecked c > 0 \<and> bandOf treeFScore > bandOf score then
           Some (pending_for ''known_exploited''
             (''the known-exploited status (CISA's catalog) could not be checked for '' @ itoa (c_KEVUnchecked c)
              @ '' reached finding'' @ plural (c_KEVUnchecked c) '''' ''s'' @ '', and one on that list would grade F'') known)
         else if (c_SelfStatusFailed c \<or> u_Missing (r_Upkeep (i_Self inp))) \<and> bandOf upkeepSelf > bandOf score then
           Some (pending_for ''module_status''
             (withDetail ''the module's own status (archived, deprecated) could not be read'' (c_SelfStatusReason c)) known)
         else if c_SelfAdvisoriesFailed c then
           Some (pending_for ''module_advisories''
             (withDetail ''the lookup of the module's own advisories failed'' (c_SelfAdvisoriesReason c)) known)
         else if missing_deps inp score \<noteq> [] then
           Some (pending_for ''dependency_maintenance'' (missing_reason inp (missing_deps inp score)) known)
         else None)"

section \<open>The score of a row in closed form\<close>

definition row_scored :: "row \<Rightarrow> scored list" where
  "row_scored r = map (\<lambda>f. scoreFinding f r) (r_Findings r)"

definition row_vuln :: "row \<Rightarrow> int" where
  "row_vuln r = vuln_value (isConfirmed (r_TestOnly r)) (row_scored r)"

definition upkeep_value :: "row \<Rightarrow> int" where
  "upkeep_value r =
     (if \<not> isArchivedOrDeprecated r then 0
      else if r_Self r then 35
      else if isConfirmed (r_TestOnly r) \<or> isRefuted (r_InBuild r) then 10 else 20)"

definition row_value :: "row \<Rightarrow> int" where
  "row_value r = max (row_vuln r) (upkeep_value r)"

lemma row_scored_tabled: "\<forall>s\<in>set (row_scored r). tabled s"
  by (auto simp: row_scored_def)

lemma upkeepScore_value: "upkeepScore r (upkeepState r now) = upkeep_value r"
  by (auto simp: upkeepScore_def upkeepState_def upkeep_value_def isArchivedOrDeprecated_def Let_def
      upkeepSelf_def upkeepMinor_def upkeepDependency_def)

lemma upkeep_value_bounds: "0 \<le> upkeep_value r \<and> upkeep_value r \<le> 35"
  by (simp add: upkeep_value_def)

lemma row_vuln_bounds: "0 \<le> row_vuln r \<and> row_vuln r \<le> 100"
  unfolding row_vuln_def by (rule vuln_value_bounds)

lemma row_value_bounds: "0 \<le> row_value r \<and> row_value r \<le> 100"
  using upkeep_value_bounds [of r] row_vuln_bounds [of r] by (auto simp: row_value_def)

lemma gradeRow_VulnScore: "rr_VulnScore (gradeRow sv r inp) = row_vuln r"
  using vulnScore_value [OF row_scored_tabled, of r r]
  by (simp add: gradeRow_def Let_def split_beta row_scored_def row_vuln_def)

lemma gradeRow_UpkeepScore: "rr_UpkeepScore (gradeRow sv r inp) = upkeep_value r"
  by (simp add: gradeRow_def Let_def split_beta upkeepScore_value)

lemma gradeRow_Score: "rr_Score (gradeRow sv r inp) = row_value r"
proof -
  have "rr_Score (gradeRow sv r inp) =
      (let s = if upkeep_value r > row_vuln r then upkeep_value r else row_vuln r in if s > 100 then 100 else s)"
    using vulnScore_value [OF row_scored_tabled, of r r]
    by (simp add: gradeRow_def Let_def split_beta upkeepScore_value row_scored_def row_vuln_def)
  then show ?thesis
    using upkeep_value_bounds [of r] row_vuln_bounds [of r] by (auto simp: row_value_def Let_def)
qed

lemma gradeRow_fields [simp]:
  "rr_Module (gradeRow sv r inp) = r_Module r"
  "rr_Self (gradeRow sv r inp) = r_Self r"
  "rr_Direct (gradeRow sv r inp) = r_Direct r"
  "rr_UpkeepMissed (gradeRow sv r inp) = u_Missing (r_Upkeep r)"
  "rr_Findings (gradeRow sv r inp) = sort_by finding_lt (map (\<lambda>s. findingResult sv s r inp) (row_scored r))"
  by (simp_all add: gradeRow_def Let_def split_beta row_scored_def)

lemma gradeRow_Letter:
  "rr_Letter (gradeRow sv r inp) =
     (if u_Missing (r_Upkeep r) \<and> \<not> isArchivedOrDeprecated r \<and> bandOf (possible_upkeep r) > bandOf (row_value r)
      then LetterNone else bandOf (row_value r))"
proof -
  let ?a = "gradeRow sv r inp"
  have "rr_Letter ?a = (if u_Missing (r_Upkeep r) \<and> \<not> isArchivedOrDeprecated r
      \<and> bandOf (possible_upkeep r) > bandOf (rr_Score ?a) then LetterNone else bandOf (rr_Score ?a))"
    by (simp add: gradeRow_def Let_def split_beta)
  then show ?thesis by (simp add: gradeRow_Score)
qed

section \<open>The order of the rows\<close>

interpretation finding_order: weak_order finding_lt
  by unfold_locales (auto simp: finding_lt_def split: if_splits)

interpretation prefer_order: weak_order preferVuln
  by unfold_locales (auto simp: preferVuln_def split: if_splits)

interpretation row_order: weak_order row_lt
proof unfold_locales
  fix a b c
  show "row_lt a b \<Longrightarrow> \<not> row_lt b a"
    using prefer_order.asym by (auto simp: row_lt_def split: if_splits)
  show "row_lt a c \<Longrightarrow> row_lt a b \<or> row_lt b c"
    using prefer_order.neg_trans [of a c b] by (auto simp: row_lt_def split: if_splits)
qed

lemma row_lt_total:
  "(rr_Self a, rr_Module a) \<noteq> (rr_Self b, rr_Module b) \<Longrightarrow> row_lt a b \<or> row_lt b a"
  by (auto simp: row_lt_def preferVuln_def)

section \<open>The tree rule in closed form\<close>

definition tree_value :: "grade_input \<Rightarrow> int" where
  "tree_value inp =
     (if i_ChecksumMismatch inp \<or> length (tree_keys called_hc inp) \<ge> 3 then 76
      else if length (tree_keys reached_hc inp) \<ge> 5 then 51 else 0)"

lemma tree_finding_row:
  assumes "(m, s) \<in> set (tree_findings inp)"
  obtains r where "r \<in> set (i_Self inp # i_Deps inp)" and "\<not> isConfirmed (r_TestOnly r)"
    and "s \<in> set (row_scored r)" and "m = r_Module r"
proof -
  from assms obtain r f where "r \<in> set (filter (\<lambda>r. \<not> isConfirmed (r_TestOnly r)) (i_Self inp # i_Deps inp))"
    and "f \<in> set (r_Findings r)" and "m = r_Module r" and "s = scoreFinding f r"
    by (auto simp: tree_findings_def simp del: filter.simps set_filter)
  then show thesis by (intro that [of r]) (auto simp: row_scored_def split: if_splits)
qed

lemma least_id_none:
  "(\<And>k. k \<in> set (tree_findings inp) \<Longrightarrow> \<not> P (snd k)) \<Longrightarrow> least_id P inp = ''''"
proof -
  assume "\<And>k. k \<in> set (tree_findings inp) \<Longrightarrow> \<not> P (snd k)"
  then have "fold (\<lambda>k cc. if P (snd k) \<and> (cc = '''' \<or> s_ID (snd k) < cc) then s_ID (snd k) else cc)
      (tree_findings inp) '''' = ''''"
    by (intro fold_inv [where P = "\<lambda>cc. cc = ''''"]) auto
  then show ?thesis by (simp add: least_id_def)
qed

text \<open>A called critical or exploited finding outside the tests already makes its row an F.\<close>

lemma called_row_vuln:
  assumes r: "\<not> isConfirmed (r_TestOnly r)" and s: "s \<in> set (row_scored r)" "s_tier s = TierCalled"
    and bad: "s_sev s = CRITICAL \<or> f_Exploited (s_Finding s)"
  shows "76 \<le> row_vuln r"
proof -
  let ?c = "filter (\<lambda>f. s_tier f = TierCalled) (row_scored r)"
  have in_c: "s \<in> set ?c" using s by simp
  show ?thesis
  proof (cases "f_Exploited (s_Finding s)")
    case True
    then have "\<exists>f\<in>set ?c. f_Exploited (s_Finding f)" using in_c by blast
    then show ?thesis using r by (auto simp: row_vuln_def vuln_value_def vuln_cap_def Let_def)
  next
    case False
    then have "s_score s = 90" using bad s row_scored_tabled [of r] by (auto simp: tabled_def)
    then have "90 \<le> called_value ?c" using max_score_ge [OF in_c] by (simp add: called_value_def)
    then show ?thesis using r by (auto simp: row_vuln_def vuln_value_def vuln_cap_def Let_def)
  qed
qed

lemma treeRule_value:
  assumes "\<And>r. r \<in> set (i_Self inp # i_Deps inp) \<Longrightarrow> row_value r \<le> worst"
  shows "(case treeRule inp of Some t \<Rightarrow> max (tr_Score t) worst | None \<Rightarrow> worst) = max (tree_value inp) worst"
proof -
  have pos: "0 \<le> worst" using assms [of "i_Self inp"] row_value_bounds [of "i_Self inp"] by simp
  have tv: "tree_value inp \<le> 76" by (simp add: tree_value_def)
  let ?cr = "least_id (\<lambda>s. s_tier s = TierCalled \<and> s_sev s = CRITICAL) inp"
  let ?ex = "least_id (\<lambda>s. s_tier s = TierCalled \<and> f_Exploited (s_Finding s)) inp"
  have le76: "treeRule inp = Some t \<Longrightarrow> tr_Score t \<le> 76" for t
    by (auto simp: treeRule_def Let_def treeFScore_def treeDScore_def split: if_splits)
  show ?thesis
  proof (cases "\<exists>k\<in>set (tree_findings inp). s_tier (snd k) = TierCalled
      \<and> (s_sev (snd k) = CRITICAL \<or> f_Exploited (s_Finding (snd k)))")
    case True
    then obtain m s where k: "(m, s) \<in> set (tree_findings inp)" "s_tier s = TierCalled"
      "s_sev s = CRITICAL \<or> f_Exploited (s_Finding s)" by auto
    obtain r where "r \<in> set (i_Self inp # i_Deps inp)" "\<not> isConfirmed (r_TestOnly r)" "s \<in> set (row_scored r)"
      using tree_finding_row [OF k(1)] by blast
    then have "76 \<le> worst" using called_row_vuln [of r s] k assms [of r] by (simp add: row_value_def)
    then show ?thesis using le76 tv by (auto simp: max_def split: option.split)
  next
    case False
    then have "?cr = ''''" "?ex = ''''" by (auto intro!: least_id_none)
    then show ?thesis using pos
      by (auto simp: treeRule_def tree_value_def Let_def treeFScore_def treeDScore_def treeCalledFindings_def
          treeImportedOrCalled_def max_def)
  qed
qed

section \<open>When a grade is Pending\<close>

definition pending_cond :: "grade_input \<Rightarrow> int \<Rightarrow> bool" where
  "pending_cond inp score =
     (let c = i_Checks inp in
      c_VulnScanFailed c \<or> c_ScanTimedOut c \<or> c_CalledPassStale c \<noteq> '''' \<or> c_SelfAdvisoriesFailed c
      \<or> (c_ChecksumUnverified c \<or> c_KEVUnchecked c > 0) \<and> bandOf 76 > bandOf score
      \<or> (c_SelfStatusFailed c \<or> u_Missing (r_Upkeep (i_Self inp))) \<and> bandOf 35 > bandOf score
      \<or> missing_deps inp score \<noteq> [])"

lemma pendingFor_None: "pendingFor inp rows score = None \<longleftrightarrow> \<not> pending_cond inp score"
  by (auto simp: pendingFor_def pending_cond_def Let_def treeFScore_def upkeepSelf_def split: list.split)

lemma missing_deps_antimono:
  "s \<le> s' \<Longrightarrow> missing_deps inp s = [] \<Longrightarrow> missing_deps inp s' = []"
  using bandOf_mono [of s s'] by (auto simp: missing_deps_def filter_empty_conv dest: le_less_trans)

lemma pending_cond_antimono: "s \<le> s' \<Longrightarrow> pending_cond inp s' \<Longrightarrow> pending_cond inp s"
  using bandOf_mono [of s s'] missing_deps_antimono [of s s' inp]
  by (auto simp: pending_cond_def Let_def dest: le_less_trans)

end
