(* ===== verification/Grade_Dedupe.thy ===== *)
theory Grade_Dedupe
  imports Grade_Types "HOL-Library.While_Combinator"
begin

text \<open>
  \<open>pkg/grade/dedupe.go\<close>: one finding per vulnerability. A union-find over the identifiers of a row's
  findings groups the findings that share one, transitively, and each group is folded into one
  finding. The lemmas show that path halving terminates and returns the representative, that the
  groups are exactly the connected components of "shares an identifier", and that merging twice is
  merging once.
\<close>

section \<open>The union-find\<close>

text \<open>
  The parent slice is a list; the loop of the closure \<open>find\<close> halves the path it walks, so it returns
  the slice it leaves behind.
\<close>

definition find_cond :: "nat list \<times> nat \<Rightarrow> bool" where
  "find_cond s = (case s of (p, x) \<Rightarrow> p ! x \<noteq> x)"

definition find_body :: "nat list \<times> nat \<Rightarrow> nat list \<times> nat" where
  "find_body s = (case s of (p, x) \<Rightarrow> let p' = p[x := p ! (p ! x)] in (p', p' ! x))"

definition uf_find :: "nat list \<Rightarrow> nat \<Rightarrow> nat list \<times> nat" where
  "uf_find p x = while find_cond find_body (p, x)"

type_synonym uf_state = "nat list \<times> (string \<Rightarrow> nat option)"

definition uf_visit :: "nat \<Rightarrow> string \<Rightarrow> uf_state \<Rightarrow> uf_state" where
  "uf_visit i key st =
     (let (p, owner) = st in
      if key = '''' then (p, owner)
      else (case owner key of
          Some j \<Rightarrow> (let (p1, ri) = uf_find p i; (p2, rj) = uf_find p1 j in (p2[ri := rj], owner))
        | None \<Rightarrow> (p, owner(key \<mapsto> i))))"

definition ids_of :: "finding \<Rightarrow> string list" where
  "ids_of f = f_ID f # f_Aliases f"

definition uf_build :: "finding list \<Rightarrow> uf_state" where
  "uf_build fs =
     fold (\<lambda>i st. fold (uf_visit i) (ids_of (fs ! i)) st) [0..<length fs] ([0..<length fs], Map.empty)"

type_synonym group_state = "nat list \<times> nat list \<times> (nat \<Rightarrow> nat list option)"

definition group_step :: "nat \<Rightarrow> group_state \<Rightarrow> group_state" where
  "group_step i st =
     (let (p, order, groups) = st;
          (p', r) = uf_find p i
      in (case groups r of
            None \<Rightarrow> (p', order @ [r], groups(r \<mapsto> [i]))
          | Some g \<Rightarrow> (p', order, groups(r \<mapsto> g @ [i]))))"

section \<open>Folding a group\<close>

definition severityRank :: "string \<Rightarrow> int" where
  "severityRank s =
     (let u = ToUpper (TrimSpace s) in
      if u = ''CRITICAL'' then 4 else if u = ''HIGH'' then 3 else if u = ''MEDIUM'' then 2
      else if u = ''LOW'' then 1 else 0)"

definition reachRank :: "string \<Rightarrow> int" where
  "reachRank s =
     (let u = ToLower (TrimSpace s) in
      if u = ''called'' then 4 else if u = ''imported'' then 2 else if u = ''required'' then 1 else 3)"

definition group_lt :: "finding list \<Rightarrow> nat \<Rightarrow> nat \<Rightarrow> bool" where
  "group_lt all x y =
     (let a = all ! x; b = all ! y in
      if f_ID a \<noteq> f_ID b then f_ID a < f_ID b
      else if f_FixedVersion a \<noteq> f_FixedVersion b then f_FixedVersion a < f_FixedVersion b
      else if f_Condition a \<noteq> f_Condition b then f_Condition a < f_Condition b
      else if f_Summary a \<noteq> f_Summary b then f_Summary a < f_Summary b
      else if f_Reachability a \<noteq> f_Reachability b then f_Reachability a < f_Reachability b
      else f_Severity a < f_Severity b)"

definition pick_rep :: "finding list \<Rightarrow> nat \<Rightarrow> nat \<Rightarrow> nat" where
  "pick_rep all i rep =
     (let a = all ! i; b = all ! rep; ag = HasPrefix (f_ID a) ''GO-''; bg = HasPrefix (f_ID b) ''GO-''
      in if (ag \<and> \<not> bg) \<or> (ag = bg \<and> f_ID a < f_ID b) then i else rep)"

text \<open>The body of the fold over a group, one definition per statement.\<close>

definition take_severity :: "finding \<Rightarrow> finding \<Rightarrow> finding" where
  "take_severity f m =
     (if severityRank (f_Severity f) > severityRank (f_Severity m) then m\<lparr>f_Severity := f_Severity f\<rparr> else m)"

definition take_lookup :: "finding \<Rightarrow> finding \<Rightarrow> finding" where
  "take_lookup f m = m\<lparr>f_SeverityLookupFailed :=
     severityRank (f_Severity m) = 0 \<and> (f_SeverityLookupFailed m \<or> f_SeverityLookupFailed f)\<rparr>"

definition take_reach :: "finding \<Rightarrow> finding \<Rightarrow> finding" where
  "take_reach f m =
     (if reachRank (f_Reachability f) > reachRank (f_Reachability m) then m\<lparr>f_Reachability := f_Reachability f\<rparr> else m)"

definition take_exploited :: "finding \<Rightarrow> finding \<Rightarrow> finding" where
  "take_exploited f m = (if f_Exploited f then m\<lparr>f_Exploited := True\<rparr> else m)"

definition take_fix :: "finding \<Rightarrow> finding \<Rightarrow> finding" where
  "take_fix f m =
     (if f_FixedVersion m = '''' \<and> f_FixedVersion f \<noteq> ''''
      then m\<lparr>f_FixedVersion := f_FixedVersion f, f_FixReleasedAt := f_FixReleasedAt f,
             f_FixDateSource := f_FixDateSource f\<rparr>
      else m)"

definition take_text :: "finding \<Rightarrow> finding \<Rightarrow> finding" where
  "take_text f m =
     m\<lparr>f_Summary := (if f_Summary m = '''' then f_Summary f else f_Summary m),
       f_Condition := (if f_Condition m = '''' then f_Condition f else f_Condition m),
       f_AffectedPackages := (if f_AffectedPackages m = [] then f_AffectedPackages f else f_AffectedPackages m)\<rparr>"

lemmas take_defs = take_severity_def take_lookup_def take_reach_def take_exploited_def take_fix_def take_text_def

definition merge_step :: "finding \<Rightarrow> finding \<times> string list \<Rightarrow> finding \<times> string list" where
  "merge_step f st =
     (take_text f (take_fix f (take_exploited f (take_reach f (take_lookup f (take_severity f (fst st)))))),
      snd st @ ids_of f)"

definition mergeGroup :: "finding list \<Rightarrow> nat list \<Rightarrow> finding" where
  "mergeGroup all idx =
     (if length idx = 1 then all ! hd idx
      else (let idx = sort_by (group_lt all) idx;
                rep = fold (pick_rep all) (tl idx) (hd idx);
                (m, ids) = fold (\<lambda>i. merge_step (all ! i)) idx (all ! rep, [])
            in m\<lparr>f_Aliases := sort_strings (remdups (removeAll (f_ID m) ids))\<rparr>))"

definition mergeAdvisories :: "finding list \<Rightarrow> finding list" where
  "mergeAdvisories fs =
     (if length fs < 2 then fs
      else (let (p, owner) = uf_build fs;
                (p', order, groups) = fold group_step [0..<length fs] (p, [], Map.empty)
            in map (\<lambda>r. mergeGroup fs (the (groups r))) order))"

section \<open>Representatives\<close>

text \<open>
  \<open>forest p r d\<close>: the slice \<open>p\<close> is a forest in which \<open>r\<close> gives the root of a node, and \<open>d\<close> is a
  measure that falls on every step towards the root.
\<close>

definition forest :: "nat list \<Rightarrow> (nat \<Rightarrow> nat) \<Rightarrow> (nat \<Rightarrow> nat) \<Rightarrow> bool" where
  "forest p r d = (\<forall>i<length p. p ! i < length p \<and> r i < length p \<and> r (r i) = r i \<and> r (p ! i) = r i
     \<and> (p ! i = i \<longleftrightarrow> r i = i) \<and> (p ! i \<noteq> i \<longrightarrow> d (p ! i) < d i))"

lemma forest_init: "forest [0..<n] id (\<lambda>_. 0)"
  by (simp add: forest_def)

lemma forestD:
  assumes "forest p r d" and "i < length p"
  shows "p ! i < length p" "r i < length p" "r (r i) = r i" "r (p ! i) = r i" "p ! i = i \<longleftrightarrow> r i = i"
    "p ! i \<noteq> i \<Longrightarrow> d (p ! i) < d i"
  using assms by (auto simp: forest_def)

lemma forest_halve:
  assumes f: "forest p r d" and x: "x < length p" and nx: "p ! x \<noteq> x"
  shows "forest (p[x := p ! (p ! x)]) r d" and "d (p ! (p ! x)) < d x"
proof -
  let ?y = "p ! x" and ?z = "p ! (p ! x)"
  note X = forestD [OF f x] and Y = forestD [OF f forestD(1) [OF f x]]
  have "d ?z \<le> d ?y" using Y(6) by (cases "?z = ?y") auto
  with X(6) [OF nx] show dz: "d ?z < d x" by simp
  then have zx: "?z \<noteq> x" by auto
  have "r x \<noteq> x" using X(5) nx by simp
  show "forest (p[x := ?z]) r d"
    unfolding forest_def
  proof (intro allI impI)
    fix i assume "i < length (p[x := ?z])"
    then have i: "i < length p" by simp
    show "p[x := ?z] ! i < length (p[x := ?z]) \<and> r i < length (p[x := ?z]) \<and> r (r i) = r i \<and>
        r (p[x := ?z] ! i) = r i \<and> (p[x := ?z] ! i = i \<longleftrightarrow> r i = i) \<and> (p[x := ?z] ! i \<noteq> i \<longrightarrow> d (p[x := ?z] ! i) < d i)"
      using X Y x \<open>r x \<noteq> x\<close> dz zx forestD [OF f i] by (cases "i = x") simp_all
  qed
qed

lemma forest_link:
  assumes f: "forest p r d" and a: "a < length p" "r a = a" and b: "b < length p" "r b = b"
  shows "\<exists>d'. forest (p[a := b]) (\<lambda>k. if r k = a then b else r k) d'"
proof (cases "a = b")
  case True
  have "p ! a = a" using forestD(5) [OF f a(1)] a by simp
  then have "p[a := b] = p" using True by (metis list_update_id)
  moreover have "(\<lambda>k. if r k = a then b else r k) = r" using True by auto
  ultimately show ?thesis using f by auto
next
  case False
  let ?d = "\<lambda>k. if r k = a then d k + Suc (d b) else d k"
  have "forest (p[a := b]) (\<lambda>k. if r k = a then b else r k) ?d"
    using f a b False by (auto simp: forest_def nth_list_update)
  then show ?thesis by blast
qed

text \<open>The loop of \<open>find\<close> stops, at the representative, and leaves a forest with the same roots.\<close>

definition find_inv :: "nat list \<Rightarrow> (nat \<Rightarrow> nat) \<Rightarrow> (nat \<Rightarrow> nat) \<Rightarrow> nat \<Rightarrow> nat list \<times> nat \<Rightarrow> bool" where
  "find_inv p r d x s = (case s of (q, y) \<Rightarrow> forest q r d \<and> length q = length p \<and> y < length q \<and> r y = r x)"

lemma find_inv_body:
  assumes "find_inv p r d x s" and "find_cond s"
  shows "find_inv p r d x (find_body s)" and "d (snd (find_body s)) < d (snd s)"
proof -
  obtain q y where s: "s = (q, y)" by (cases s)
  with assms have q: "forest q r d" "length q = length p" "y < length q" "r y = r x" "q ! y \<noteq> y"
    by (simp_all add: find_inv_def find_cond_def)
  note h = forest_halve [OF q(1,3,5)] and Y = forestD [OF q(1) q(3)] and Z = forestD [OF q(1) forestD(1) [OF q(1,3)]]
  show "find_inv p r d x (find_body s)"
    using h q Y Z by (simp add: s find_inv_def find_body_def Let_def)
  show "d (snd (find_body s)) < d (snd s)"
    using h q by (simp add: s find_body_def Let_def)
qed

lemma uf_find_returns:
  assumes "forest p r d" and "x < length p"
  shows "\<exists>s. while_option find_cond find_body (p, x) = Some s"
  by (rule measure_while_option_Some [where P = "find_inv p r d x" and f = "\<lambda>s. d (snd s)"])
    (use assms find_inv_body in \<open>auto simp: find_inv_def\<close>)

lemma uf_find_spec:
  assumes "forest p r d" and "x < length p" and "uf_find p x = (p', y)"
  shows "forest p' r d" and "length p' = length p" and "y = r x"
proof -
  have "find_inv p r d x (uf_find p x) \<and> \<not> find_cond (uf_find p x)"
    unfolding uf_find_def
    by (rule while_rule [where P = "find_inv p r d x" and r = "measure (\<lambda>s. d (snd s))"])
      (use assms(1,2) find_inv_body in \<open>auto simp: find_inv_def\<close>)
  with assms(3) have i: "find_inv p r d x (p', y)" and c: "p' ! y = y"
    by (simp_all add: find_cond_def)
  then show "forest p' r d" and "length p' = length p" by (simp_all add: find_inv_def)
  show "y = r x"
    using i c forestD(5) by (fastforce simp: find_inv_def)
qed

section \<open>The groups are the connected components\<close>

text \<open>Two findings of a row are linked when they carry a common non-empty identifier.\<close>

definition carries :: "finding list \<Rightarrow> nat \<Rightarrow> string \<Rightarrow> bool" where
  "carries fs i key = (i < length fs \<and> key \<noteq> '''' \<and> key \<in> set (ids_of (fs ! i)))"

definition linked :: "finding list \<Rightarrow> nat \<Rightarrow> nat \<Rightarrow> bool" where
  "linked fs i j = (\<exists>key. carries fs i key \<and> carries fs j key)"

definition connected :: "finding list \<Rightarrow> nat \<Rightarrow> nat \<Rightarrow> bool" where
  "connected fs = (linked fs)\<^sup>*\<^sup>*"

lemma linked_sym: "linked fs i j \<Longrightarrow> linked fs j i"
  by (auto simp: linked_def)

lemma connected_refl [simp]: "connected fs i i"
  by (simp add: connected_def)

lemma connected_sym: "connected fs i j \<Longrightarrow> connected fs j i"
  unfolding connected_def
  by (induction rule: rtranclp_induct) (auto intro: converse_rtranclp_into_rtranclp dest: linked_sym)

lemma connected_trans: "connected fs i j \<Longrightarrow> connected fs j k \<Longrightarrow> connected fs i k"
  by (simp add: connected_def)

lemma linked_connected: "linked fs i j \<Longrightarrow> connected fs i j"
  by (auto simp: connected_def)

definition build_inv :: "finding list \<Rightarrow> (nat \<times> string) set \<Rightarrow> (nat \<Rightarrow> nat) \<Rightarrow> uf_state \<Rightarrow> bool" where
  "build_inv fs E r st = (case st of (p, owner) \<Rightarrow>
     (\<exists>d. forest p r d) \<and> length p = length fs
     \<and> (\<forall>key k. owner key = Some k \<longrightarrow> carries fs k key)
     \<and> (\<forall>i key. (i, key) \<in> E \<longrightarrow> (\<exists>k. owner key = Some k \<and> r k = r i))
     \<and> (\<forall>i<length fs. \<forall>j<length fs. r i = r j \<longrightarrow> connected fs i j))"

lemma build_inv_visit:
  assumes inv: "build_inv fs E r st" and key: "key \<in> set (ids_of (fs ! i))" and i: "i < length fs"
  shows "\<exists>r'. build_inv fs (E \<union> {(i, key)} \<inter> {(i, key). key \<noteq> ''''}) r' (uf_visit i key st)"
proof -
  obtain p owner where st: "st = (p, owner)" by (cases st)
  obtain d where f: "forest p r d" and len: "length p = length fs"
    and own: "\<And>key k. owner key = Some k \<Longrightarrow> carries fs k key"
    and E: "\<And>i key. (i, key) \<in> E \<Longrightarrow> \<exists>k. owner key = Some k \<and> r k = r i"
    and snd: "\<And>i j. i < length fs \<Longrightarrow> j < length fs \<Longrightarrow> r i = r j \<Longrightarrow> connected fs i j"
    using inv unfolding build_inv_def st prod.case by blast
  consider (empty) "key = ''''" | (new) "key \<noteq> ''''" "owner key = None"
    | (old) j where "key \<noteq> ''''" "owner key = Some j" by (cases "owner key") auto
  then show ?thesis
  proof cases
    case empty
    then show ?thesis using inv by (auto simp: uf_visit_def st)
  next
    case new
    have "build_inv fs (insert (i, key) E) r (p, owner(key \<mapsto> i))"
      unfolding build_inv_def prod.case
    proof (intro conjI allI impI)
      fix i' k' assume "(i', k') \<in> insert (i, key) E"
      then show "\<exists>n. (owner(key \<mapsto> i)) k' = Some n \<and> r n = r i'"
        using E [of i' k'] new by (cases "k' = key") auto
    qed (use f len own snd new key i in \<open>auto simp: carries_def split: if_splits\<close>)
    with new show ?thesis by (auto simp: uf_visit_def st)
  next
    case old
    have j: "j < length p" "carries fs j key" using own [OF old(2)] by (auto simp: carries_def len)
    obtain p1 ri p2 rj where e1: "uf_find p i = (p1, ri)" and e2: "uf_find p1 j = (p2, rj)"
      by (metis surj_pair)
    note F1 = uf_find_spec [OF f _ e1, unfolded len, OF i]
    have j2: "j < length p1" using F1(2) j(1) len by simp
    note F2 = uf_find_spec [OF F1(1) j2 e2]
    have len2: "length p2 = length p" using F1(2) F2(2) len by simp
    have R: "ri < length p2" "r ri = ri" "rj < length p2" "r rj = rj"
      using F1(3) F2(3) forestD [OF f, of i] forestD [OF f, of j] i j len len2 by simp_all
    let ?r = "\<lambda>k. if r k = ri then rj else r k"
    obtain d' where d': "forest (p2[ri := rj]) ?r d'" using forest_link [OF F2(1) R] by blast
    have lij: "connected fs i j" using j key i old by (intro linked_connected) (auto simp: linked_def carries_def)
    have con: "connected fs a b" if ab: "a < length fs" "b < length fs" "?r a = ?r b" for a b
    proof -
      have *: "connected fs x j" if x: "x < length fs" "?r x = rj" for x
      proof (cases "r x = ri")
        case True
        then have "connected fs x i" using snd [OF x(1) i] F1(3) by simp
        then show ?thesis using lij by (rule connected_trans)
      next
        case False
        then show ?thesis using x snd [of x j] F2(3) j(1) len by simp
      qed
      show ?thesis
      proof (cases "?r a = rj")
        case True
        then show ?thesis using * [OF ab(1)] * [OF ab(2)] ab(3) by (metis connected_sym connected_trans)
      next
        case False
        then have "r a = r b" using ab(3) by (auto split: if_splits)
        then show ?thesis by (rule snd [OF ab(1,2)])
      qed
    qed
    have "build_inv fs (insert (i, key) E) ?r (p2[ri := rj], owner)"
      unfolding build_inv_def prod.case
    proof (intro conjI allI impI)
      fix i' k' assume "(i', k') \<in> insert (i, key) E"
      then show "\<exists>n. owner k' = Some n \<and> ?r n = ?r i'"
      proof (cases "(i', k') = (i, key)")
        case True
        then show ?thesis using old F1(3) F2(3) by (intro exI [of _ j]) simp
      next
        case False
        then obtain k where "owner k' = Some k" "r k = r i'" using E [of i' k'] \<open>(i', k') \<in> _\<close> by auto
        then show ?thesis by (intro exI [of _ k]) simp
      qed
    qed (use d' len len2 own con in auto)
    with old show ?thesis by (auto simp: uf_visit_def st e1 e2)
  qed
qed

lemma build_inv_visits:
  assumes "build_inv fs E r st" and "set keys \<subseteq> set (ids_of (fs ! i))" and "i < length fs"
  shows "\<exists>r'. build_inv fs (E \<union> {(i, key) | key. key \<in> set keys \<and> key \<noteq> ''''}) r' (fold (uf_visit i) keys st)"
  using assms
proof (induction keys arbitrary: E r st)
  case Nil
  then show ?case by auto
next
  case (Cons k keys)
  have k: "k \<in> set (ids_of (fs ! i))" using Cons.prems(2) by simp
  obtain r' where v: "build_inv fs (E \<union> {(i, k)} \<inter> {(i, key). key \<noteq> ''''}) r' (uf_visit i k st)"
    using build_inv_visit [OF Cons.prems(1) k Cons.prems(3)] by blast
  have sub: "set keys \<subseteq> set (ids_of (fs ! i))" using Cons.prems(2) by simp
  obtain r''
    where "build_inv fs (E \<union> {(i, k)} \<inter> {(i, key). key \<noteq> ''''} \<union> {(i, key) | key. key \<in> set keys \<and> key \<noteq> ''''}) r''
      (fold (uf_visit i) keys (uf_visit i k st))"
    using Cons.IH [OF v sub Cons.prems(3)] by blast
  moreover have "E \<union> {(i, k)} \<inter> {(i, key). key \<noteq> ''''} \<union> {(i, key) | key. key \<in> set keys \<and> key \<noteq> ''''}
      = E \<union> {(i, key) | key. key \<in> set (k # keys) \<and> key \<noteq> ''''}" by auto
  ultimately show ?case by auto
qed

lemma build_inv_build:
  "m \<le> length fs \<Longrightarrow> \<exists>r. build_inv fs {(i, key). i < m \<and> carries fs i key} r
     (fold (\<lambda>i st. fold (uf_visit i) (ids_of (fs ! i)) st) [0..<m] ([0..<length fs], Map.empty))"
proof (induction m)
  case 0
  have "build_inv fs {} (\<lambda>i. i) ([0..<length fs], Map.empty)"
    using forest_init [of "length fs"] by (auto simp: build_inv_def id_def)
  then show ?case by auto
next
  case (Suc m)
  then obtain r where "build_inv fs {(i, key). i < m \<and> carries fs i key} r
     (fold (\<lambda>i st. fold (uf_visit i) (ids_of (fs ! i)) st) [0..<m] ([0..<length fs], Map.empty))" by auto
  from build_inv_visits [OF this order_refl [of "set (ids_of (fs ! m))"]] Suc.prems
  obtain r' where r': "build_inv fs ({(i, key). i < m \<and> carries fs i key}
      \<union> {(m, key) | key. key \<in> set (ids_of (fs ! m)) \<and> key \<noteq> ''''}) r'
     (fold (uf_visit m) (ids_of (fs ! m))
       (fold (\<lambda>i st. fold (uf_visit i) (ids_of (fs ! i)) st) [0..<m] ([0..<length fs], Map.empty)))" by auto
  have "{(i, key). i < m \<and> carries fs i key} \<union> {(m, key) | key. key \<in> set (ids_of (fs ! m)) \<and> key \<noteq> ''''}
      = {(i, key). i < Suc m \<and> carries fs i key}"
    using Suc.prems by (auto simp: carries_def less_Suc_eq)
  then show ?case using r' by auto
qed

text \<open>After the build, two findings have one representative exactly when they are connected.\<close>

lemma uf_build_spec:
  obtains p owner r d where "uf_build fs = (p, owner)" and "forest p r d" and "length p = length fs"
    and "\<And>i j. i < length fs \<Longrightarrow> j < length fs \<Longrightarrow> r i = r j \<longleftrightarrow> connected fs i j"
proof -
  obtain r where inv: "build_inv fs {(i, key). i < length fs \<and> carries fs i key} r (uf_build fs)"
    using build_inv_build [of "length fs" fs] by (auto simp: uf_build_def)
  obtain p owner where b: "uf_build fs = (p, owner)" by fastforce
  from inv obtain d where f: "forest p r d" and len: "length p = length fs"
    and E: "\<And>i key. carries fs i key \<Longrightarrow> \<exists>k. owner key = Some k \<and> r k = r i"
    and snd: "\<And>i j. i < length fs \<Longrightarrow> j < length fs \<Longrightarrow> r i = r j \<Longrightarrow> connected fs i j"
    by (auto simp: build_inv_def b carries_def)
  have L: "r i = r j" if l: "linked fs i j" for i j
    using l E by (metis linked_def option.inject)
  have "r i = r j" if c: "connected fs i j" for i j
    using c unfolding connected_def by (induction rule: rtranclp_induct) (auto dest: L)
  with that [OF b f len] snd show thesis by blast
qed

text \<open>The groups, in the order of their first findings.\<close>

fun firsts :: "(nat \<Rightarrow> nat) \<Rightarrow> nat \<Rightarrow> nat list" where
  "firsts r 0 = []"
| "firsts r (Suc m) = (if r m \<in> r ` {0..<m} then firsts r m else firsts r m @ [r m])"

lemma set_firsts: "set (firsts r m) = r ` {0..<m}"
  by (induction m) (auto simp: atLeastLessThanSuc)

lemma distinct_firsts: "distinct (firsts r m)"
  by (induction m) (auto simp: set_firsts)

lemma firsts_inj: "inj_on r {0..<m} \<Longrightarrow> firsts r m = map r [0..<m]"
proof (induction m)
  case 0
  then show ?case by simp
next
  case (Suc m)
  have "r m \<notin> r ` {0..<m}"
    using inj_on_image_mem_iff [OF Suc.prems, of m "{0..<m}"] by (simp add: atLeastLessThanSuc subset_insertI)
  moreover have "inj_on r {0..<m}" using Suc.prems by (auto simp: inj_on_def)
  ultimately show ?case using Suc.IH by simp
qed

definition group_inv :: "nat \<Rightarrow> (nat \<Rightarrow> nat) \<Rightarrow> nat \<Rightarrow> group_state \<Rightarrow> bool" where
  "group_inv n r m st = (case st of (p, order, groups) \<Rightarrow>
     (\<exists>d. forest p r d) \<and> length p = n \<and> order = firsts r m
     \<and> groups = (\<lambda>x. if x \<in> r ` {0..<m} then Some (filter (\<lambda>i. r i = x) [0..<m]) else None))"

lemma group_inv_step:
  assumes inv: "group_inv n r m st" and m: "m < n"
  shows "group_inv n r (Suc m) (group_step m st)"
proof -
  obtain p order groups where st: "st = (p, order, groups)" by (cases st)
  obtain d where f: "forest p r d" and len: "length p = n" and ord: "order = firsts r m"
    and g: "groups = (\<lambda>x. if x \<in> r ` {0..<m} then Some (filter (\<lambda>i. r i = x) [0..<m]) else None)"
    using inv unfolding group_inv_def st prod.case by blast
  obtain p' y where e: "uf_find p m = (p', y)" by fastforce
  note F = uf_find_spec [OF f _ e, unfolded len, OF m]
  have ins: "r ` {0..<Suc m} = insert (r m) (r ` {0..<m})" by (auto simp: less_Suc_eq)
  show ?thesis
  proof (cases "r m \<in> r ` {0..<m}")
    case True
    then have "groups(r m \<mapsto> the (groups (r m)) @ [m]) =
        (\<lambda>x. if x \<in> r ` {0..<Suc m} then Some (filter (\<lambda>i. r i = x) [0..<Suc m]) else None)"
      unfolding ins by (auto simp: g)
    moreover have "groups (r m) = Some (filter (\<lambda>i. r i = r m) [0..<m])" using True by (simp add: g)
    ultimately show ?thesis
      using True F ord by (auto simp: group_inv_def group_step_def st e)
  next
    case False
    then have "filter (\<lambda>i. r i = r m) [0..<m] = []" by (auto simp: filter_empty_conv image_iff)
    then have "groups(r m \<mapsto> [m]) =
        (\<lambda>x. if x \<in> r ` {0..<Suc m} then Some (filter (\<lambda>i. r i = x) [0..<Suc m]) else None)"
      unfolding ins by (auto simp: g)
    moreover have "groups (r m) = None" using False by (simp add: g)
    ultimately show ?thesis
      using False F ord by (auto simp: group_inv_def group_step_def st e)
  qed
qed

lemma group_inv_fold:
  "group_inv n r 0 st \<Longrightarrow> m \<le> n \<Longrightarrow> group_inv n r m (fold group_step [0..<m] st)"
  by (induction m) (auto intro: group_inv_step)

lemma uf_build_ids:
  assumes "length gs = length fs" and "\<And>i. i < length fs \<Longrightarrow> ids_of (gs ! i) = ids_of (fs ! i)"
  shows "uf_build gs = uf_build fs"
  unfolding uf_build_def assms(1) by (rule fold_cong) (simp_all add: assms(2))

text \<open>
  The merged list, in closed form: one finding per class of connected findings, in the order of
  their first members, each folded from the members in input order. Lists with the same identifiers have the
  same classes.
\<close>

lemma mergeAdvisories_same_classes:
  obtains r where "\<And>i j. i < length fs \<Longrightarrow> j < length fs \<Longrightarrow> r i = r j \<longleftrightarrow> connected fs i j"
    and "\<And>gs. length gs = length fs \<Longrightarrow> (\<And>i. i < length fs \<Longrightarrow> ids_of (gs ! i) = ids_of (fs ! i)) \<Longrightarrow>
      mergeAdvisories gs = map (\<lambda>x. mergeGroup gs (filter (\<lambda>i. r i = x) [0..<length fs])) (firsts r (length fs))"
proof (cases "length fs < 2")
  case True
  then consider "fs = []" | f where "fs = [f]"
    by (cases fs; cases "tl fs") auto
  then show thesis
  proof cases
    case 1
    then show ?thesis using that [of id] by (simp add: mergeAdvisories_def)
  next
    case 2
    have "mergeAdvisories gs = map (\<lambda>x. mergeGroup gs (filter (\<lambda>i. id i = x) [0..<length fs])) (firsts id (length fs))"
      if "length gs = length fs" for gs
      using that 2 by (cases gs) (simp_all add: mergeAdvisories_def mergeGroup_def)
    then show ?thesis using 2 by (intro that [of id]) auto
  qed
next
  case False
  obtain p owner r d where b: "uf_build fs = (p, owner)" and f: "forest p r d" and len: "length p = length fs"
    and r: "\<And>i j. i < length fs \<Longrightarrow> j < length fs \<Longrightarrow> r i = r j \<longleftrightarrow> connected fs i j"
    using uf_build_spec by blast
  have "group_inv (length fs) r 0 (p, [], Map.empty)"
    using f len by (auto simp: group_inv_def)
  then have g: "group_inv (length fs) r (length fs) (fold group_step [0..<length fs] (p, [], Map.empty))"
    by (rule group_inv_fold) simp
  obtain p' order groups where e: "fold group_step [0..<length fs] (p, [], Map.empty) = (p', order, groups)"
    by (metis surj_pair)
  have gr: "order = firsts r (length fs)"
    "groups = (\<lambda>x. if x \<in> r ` {0..<length fs} then Some (filter (\<lambda>i. r i = x) [0..<length fs]) else None)"
    using g by (auto simp: group_inv_def e)
  have "mergeAdvisories gs = map (\<lambda>x. mergeGroup gs (filter (\<lambda>i. r i = x) [0..<length fs])) (firsts r (length fs))"
    if gs: "length gs = length fs" "\<And>i. i < length fs \<Longrightarrow> ids_of (gs ! i) = ids_of (fs ! i)" for gs
  proof -
    have "mergeAdvisories gs = map (\<lambda>x. mergeGroup gs (the (groups x))) (firsts r (length fs))"
      using False gs(1) by (simp add: mergeAdvisories_def uf_build_ids [OF gs] b e gr(1))
    also have "\<dots> = map (\<lambda>x. mergeGroup gs (filter (\<lambda>i. r i = x) [0..<length fs])) (firsts r (length fs))"
      unfolding gr(2) by (rule map_cong [OF refl]) (simp add: set_firsts)
    finally show ?thesis .
  qed
  then show thesis using r that by blast
qed

lemma mergeAdvisories_classes:
  obtains r where "\<And>i j. i < length fs \<Longrightarrow> j < length fs \<Longrightarrow> r i = r j \<longleftrightarrow> connected fs i j"
    and "mergeAdvisories fs =
      map (\<lambda>x. mergeGroup fs (filter (\<lambda>i. r i = x) [0..<length fs])) (firsts r (length fs))"
proof -
  obtain r where r: "\<And>i j. i < length fs \<Longrightarrow> j < length fs \<Longrightarrow> r i = r j \<longleftrightarrow> connected fs i j"
    and m: "\<And>gs. length gs = length fs \<Longrightarrow> (\<And>i. i < length fs \<Longrightarrow> ids_of (gs ! i) = ids_of (fs ! i)) \<Longrightarrow>
      mergeAdvisories gs = map (\<lambda>x. mergeGroup gs (filter (\<lambda>i. r i = x) [0..<length fs])) (firsts r (length fs))"
    using mergeAdvisories_same_classes [of fs] by metis
  show thesis by (rule that [of r]) (simp_all only: r m)
qed

section \<open>What a fold keeps\<close>

lemma take_ID [simp]:
  "f_ID (take_severity f m) = f_ID m" "f_ID (take_lookup f m) = f_ID m" "f_ID (take_reach f m) = f_ID m"
  "f_ID (take_exploited f m) = f_ID m" "f_ID (take_fix f m) = f_ID m" "f_ID (take_text f m) = f_ID m"
  by (simp_all add: take_defs)

lemma merge_fold_ID [simp]: "f_ID (fst (fold (\<lambda>i. merge_step (all ! i)) idx st)) = f_ID (fst st)"
  by (induction idx arbitrary: st) (auto simp: merge_step_def)

lemma merge_fold_ids: "snd (fold (\<lambda>i. merge_step (all ! i)) idx st) = snd st @ concat (map (\<lambda>i. ids_of (all ! i)) idx)"
  by (induction idx arbitrary: st) (auto simp: merge_step_def)

lemma pick_rep_in: "fold (pick_rep all) is i \<in> insert i (set is)"
proof (induction "is" arbitrary: i)
  case Nil
  show ?case by simp
next
  case (Cons j js)
  have "pick_rep all j i = i \<or> pick_rep all j i = j" by (auto simp: pick_rep_def Let_def)
  then show ?case using Cons.IH [of i] Cons.IH [of j] by auto
qed

lemma mergeGroup_rep:
  assumes "idx \<noteq> []"
  obtains rep where "rep \<in> set idx" and "f_ID (mergeGroup all idx) = f_ID (all ! rep)"
proof (cases "length idx = 1")
  case True
  then show thesis using that [of "hd idx"] assms by (simp add: mergeGroup_def)
next
  case False
  define s where "s = sort_by (group_lt all) idx"
  have s: "s \<noteq> []" "set s = set idx" using assms by (simp_all add: s_def)
  then have "fold (pick_rep all) (tl s) (hd s) \<in> set idx"
    using pick_rep_in [of all "tl s" "hd s"] by (cases s) auto
  moreover have "f_ID (mergeGroup all idx) = f_ID (all ! fold (pick_rep all) (tl s) (hd s))"
    using False merge_fold_ID [of all s] by (simp add: mergeGroup_def s_def Let_def split_beta)
  ultimately show thesis by (rule that)
qed

text \<open>A fold reads the members of its group only, and its reachability is that of a member.\<close>

lemma mergeGroup_cong:
  assumes "idx \<noteq> []" "\<And>i. i \<in> set idx \<Longrightarrow> gs ! i = fs ! i"
  shows "mergeGroup gs idx = mergeGroup fs idx"
proof -
  have s: "sort_by (group_lt gs) idx = sort_by (group_lt fs) idx"
    by (rule sort_by_cong) (simp add: group_lt_def assms(2))
  let ?s = "sort_by (group_lt fs) idx"
  have ne: "?s \<noteq> []" "set ?s = set idx" using assms(1) by simp_all
  have p: "fold (pick_rep gs) is i = fold (pick_rep fs) is i \<and> fold (pick_rep fs) is i \<in> set idx"
    if "set is \<subseteq> set idx" "i \<in> set idx" for "is" i
    using that
  proof (induction "is" arbitrary: i)
    case (Cons j js)
    have "pick_rep gs j i = pick_rep fs j i" using Cons.prems by (simp add: pick_rep_def assms(2))
    moreover have "pick_rep fs j i \<in> set idx" using Cons.prems by (auto simp: pick_rep_def Let_def)
    ultimately show ?case using Cons by simp
  qed simp
  have rep: "fold (pick_rep gs) (tl ?s) (hd ?s) = fold (pick_rep fs) (tl ?s) (hd ?s)"
    "fold (pick_rep fs) (tl ?s) (hd ?s) \<in> set idx"
    using p [of "tl ?s" "hd ?s"] ne list.set_sel(1) [OF ne(1)] list.set_sel(2) [OF ne(1)] by blast+
  have "fold (\<lambda>i. merge_step (gs ! i)) ?s st = fold (\<lambda>i. merge_step (fs ! i)) ?s st" for st
    by (rule fold_cong) (simp_all add: assms(2))
  then show ?thesis
    using assms rep by (simp add: mergeGroup_def Let_def s)
qed

lemma merge_step_Reachability:
  "f_Reachability (fst (merge_step f st)) \<in> {f_Reachability f, f_Reachability (fst st)}"
  by (simp add: merge_step_def take_defs)

lemma mergeGroup_Reachability:
  assumes "idx \<noteq> []"
  shows "\<exists>i \<in> set idx. f_Reachability (mergeGroup fs idx) = f_Reachability (fs ! i)"
proof (cases "length idx = 1")
  case True
  then show ?thesis using assms by (auto simp: mergeGroup_def intro!: bexI [of _ "hd idx"])
next
  case False
  define s where "s = sort_by (group_lt fs) idx"
  have s: "s \<noteq> []" "set s = set idx" using assms by (simp_all add: s_def)
  define rep where "rep = fold (pick_rep fs) (tl s) (hd s)"
  have rep: "rep \<in> set idx"
    using pick_rep_in [of fs "tl s" "hd s"] s by (cases s) (auto simp: rep_def)
  have "\<exists>i \<in> set idx. f_Reachability (fst (fold (\<lambda>i. merge_step (fs ! i)) xs st)) = f_Reachability (fs ! i)"
    if "set xs \<subseteq> set idx" "\<exists>i \<in> set idx. f_Reachability (fst st) = f_Reachability (fs ! i)" for xs st
    using that
  proof (induction xs arbitrary: st)
    case (Cons x xs)
    then have "\<exists>i \<in> set idx. f_Reachability (fst (merge_step (fs ! x) st)) = f_Reachability (fs ! i)"
      using merge_step_Reachability [of "fs ! x" st] by auto
    then show ?case using Cons.IH [of "merge_step (fs ! x) st"] Cons.prems(1) by simp
  qed simp
  from this [of s "(fs ! rep, [])"] show ?thesis
    using False rep s(2) by (auto simp: mergeGroup_def Let_def split_beta simp flip: s_def rep_def)
qed

text \<open>A merged finding carries exactly the identifiers of its members.\<close>

lemma set_ids_mergeGroup:
  assumes "idx \<noteq> []"
  shows "set (ids_of (mergeGroup all idx)) = (\<Union>i\<in>set idx. set (ids_of (all ! i)))"
proof (cases "length idx = 1")
  case True
  then have "set idx = {hd idx}" by (cases idx) auto
  then show ?thesis using True by (simp add: mergeGroup_def)
next
  case False
  define s where "s = sort_by (group_lt all) idx"
  define rep where "rep = fold (pick_rep all) (tl s) (hd s)"
  have s: "s \<noteq> []" "set s = set idx" using assms by (simp_all add: s_def)
  then have "rep \<in> set idx"
    using pick_rep_in [of all "tl s" "hd s"] by (cases s) (auto simp: rep_def)
  define st where "st = fold (\<lambda>i. merge_step (all ! i)) s (all ! rep, [])"
  have st: "f_ID (fst st) = f_ID (all ! rep)" "snd st = concat (map (\<lambda>i. ids_of (all ! i)) s)"
    by (simp_all add: st_def merge_fold_ids)
  have m: "mergeGroup all idx = (fst st)\<lparr>f_Aliases := sort_strings (remdups (removeAll (f_ID (fst st)) (snd st)))\<rparr>"
    using False by (simp add: mergeGroup_def Let_def split_beta st_def rep_def s_def)
  have "set (ids_of (mergeGroup all idx)) = insert (f_ID (fst st)) (set (snd st))"
    by (auto simp: m ids_of_def)
  also have "\<dots> = set (snd st)"
    using \<open>rep \<in> set idx\<close> s by (auto simp: st ids_of_def intro!: bexI [of _ rep])
  finally show ?thesis by (simp add: st s)
qed

section \<open>Merging once is enough\<close>

definition unlinked :: "finding list \<Rightarrow> bool" where
  "unlinked fs = (\<forall>i j. linked fs i j \<longrightarrow> i = j)"

lemma unlinked_connected:
  assumes "unlinked fs" and "connected fs i j"
  shows "i = j"
  using assms(2) unfolding connected_def
  by (induction rule: rtranclp_induct) (use assms(1) in \<open>auto simp: unlinked_def\<close>)

lemma unlinked_mergeAdvisories: "unlinked (mergeAdvisories fs)"
  unfolding unlinked_def
proof (intro allI impI)
  fix a b assume l: "linked (mergeAdvisories fs) a b"
  let ?n = "length fs"
  obtain r where r: "\<And>i j. i < ?n \<Longrightarrow> j < ?n \<Longrightarrow> r i = r j \<longleftrightarrow> connected fs i j"
    and m: "mergeAdvisories fs = map (\<lambda>x. mergeGroup fs (filter (\<lambda>i. r i = x) [0..<?n])) (firsts r ?n)"
    using mergeAdvisories_classes by blast
  let ?g = "\<lambda>k. filter (\<lambda>i. r i = firsts r ?n ! k) [0..<?n]"
  have ab: "a < length (firsts r ?n)" "b < length (firsts r ?n)"
    using l by (auto simp: linked_def carries_def m)
  have ne: "?g k \<noteq> []" if k: "k < length (firsts r ?n)" for k
    using nth_mem [OF k] by (auto simp: set_firsts filter_empty_conv)
  obtain key where key: "key \<noteq> ''''" "key \<in> set (ids_of (mergeGroup fs (?g a)))" "key \<in> set (ids_of (mergeGroup fs (?g b)))"
    using l ab by (auto simp: linked_def carries_def m)
  then obtain i j where ij: "i < ?n" "r i = firsts r ?n ! a" "key \<in> set (ids_of (fs ! i))"
    "j < ?n" "r j = firsts r ?n ! b" "key \<in> set (ids_of (fs ! j))"
    unfolding set_ids_mergeGroup [OF ne [OF ab(1)]] set_ids_mergeGroup [OF ne [OF ab(2)]] by auto
  then have "linked fs i j" using key by (auto simp: linked_def carries_def)
  then have "r i = r j" using r ij linked_connected by blast
  then show "a = b" using ij ab distinct_firsts by (metis nth_eq_iff_index_eq)
qed

lemma filter_eq_upt: "j < n \<Longrightarrow> filter (\<lambda>i. i = j) [0..<n] = [j]"
  by (induction n) (auto simp: less_Suc_eq)

lemma mergeAdvisories_unlinked:
  assumes "unlinked fs"
  shows "mergeAdvisories fs = fs"
proof -
  let ?n = "length fs"
  obtain r where r: "\<And>i j. i < ?n \<Longrightarrow> j < ?n \<Longrightarrow> r i = r j \<longleftrightarrow> connected fs i j"
    and m: "mergeAdvisories fs = map (\<lambda>x. mergeGroup fs (filter (\<lambda>i. r i = x) [0..<?n])) (firsts r ?n)"
    using mergeAdvisories_classes by blast
  have inj: "r i = r j \<longleftrightarrow> i = j" if "i < ?n" "j < ?n" for i j
    using r that unlinked_connected [OF assms] by auto
  have "filter (\<lambda>i. r i = r j) [0..<?n] = [j]" if j: "j < ?n" for j
  proof -
    have "filter (\<lambda>i. r i = r j) [0..<?n] = filter (\<lambda>i. i = j) [0..<?n]"
      by (rule filter_cong) (auto simp: inj j)
    also have "\<dots> = [j]" using j by (rule filter_eq_upt)
    finally show ?thesis .
  qed
  moreover have "firsts r ?n = map r [0..<?n]"
    by (rule firsts_inj) (auto simp: inj_on_def inj)
  ultimately have "mergeAdvisories fs = map (\<lambda>j. fs ! j) [0..<?n]"
    by (simp add: m mergeGroup_def)
  then show ?thesis by (simp add: map_nth)
qed

end
