(* ===== verification/Grade_Engine.thy ===== *)
theory Grade_Engine
  imports Grade_Rows Grade_Dedupe
begin

text \<open>
  \<open>gradeOnce\<close> and \<open>Grade\<close> of \<open>pkg/grade/engine.go\<close>: merging, grading and ordering the rows, the
  whole-tree rules, Pending, the notes, and the checks that ask whether an unpublished or unread
  severity could change the letter. \<open>clock k\<close> is the reading of \<open>time.Now().UTC()\<close> in the \<open>k\<close>-th call of
  \<open>gradeOnce\<close>; it is used only when the input has no time of its own.
\<close>

section \<open>Copies of the input\<close>

definition map_findings :: "(finding list \<Rightarrow> finding list) \<Rightarrow> grade_input \<Rightarrow> grade_input" where
  "map_findings F inp =
     inp\<lparr>i_Self := (i_Self inp)\<lparr>r_Findings := F (r_Findings (i_Self inp))\<rparr>,
         i_Deps := map (\<lambda>d. d\<lparr>r_Findings := F (r_Findings d)\<rparr>) (i_Deps inp)\<rparr>"

definition mergedInput :: "grade_input \<Rightarrow> grade_input" where
  "mergedInput inp = map_findings mergeAdvisories inp"

definition withEstimatedSeverity :: "grade_input \<Rightarrow> string \<Rightarrow> grade_input" where
  "withEstimatedSeverity inp sev =
     map_findings (map (\<lambda>f. if snd (severityOf (f_Severity f)) then f\<lparr>f_Severity := sev\<rparr> else f)) inp"

definition withLookupSeverity :: "grade_input \<Rightarrow> string \<Rightarrow> grade_input" where
  "withLookupSeverity inp sev =
     map_findings (map (\<lambda>f. if f_SeverityLookupFailed f then f\<lparr>f_Severity := sev\<rparr> else f)) inp"

definition all_findings :: "grade_input \<Rightarrow> finding list" where
  "all_findings inp = concat (map r_Findings (i_Self inp # i_Deps inp))"

definition hasEstimatedSeverity :: "grade_input \<Rightarrow> bool" where
  "hasEstimatedSeverity inp = list_ex (\<lambda>f. snd (severityOf (f_Severity f))) (all_findings inp)"

section \<open>Rows, tree rule and deciding row\<close>

definition grade_rows :: "semver_api \<Rightarrow> grade_input \<Rightarrow> row_result list" where
  "grade_rows sv inp = sort_by row_lt (map (\<lambda>r. gradeRow sv r inp) (i_Self inp # i_Deps inp))"

definition tree_decision :: "grade_input \<Rightarrow> row_result \<Rightarrow> tree_row list \<times> int \<times> deciding option" where
  "tree_decision inp worst =
     (let by_row = ([], rr_Score worst,
            if rr_Score worst > 0
            then Some \<lparr>d_Module = rr_Module worst, d_Self = rr_Self worst, d_Tree = '''', d_Reason = rr_Reason worst,
                   d_Score = rr_Score worst\<rparr>
            else None)
      in (case treeRule inp of
            Some t \<Rightarrow>
              if tr_Score t > rr_Score worst
              then ([t], tr_Score t, Some \<lparr>d_Module = '''', d_Self = False, d_Tree = tr_Rule t, d_Reason = tr_Reason t,
                     d_Score = tr_Score t\<rparr>)
              else by_row
          | None \<Rightarrow> by_row))"

definition archivedUnreadThatMatters :: "semver_api \<Rightarrow> grade_input \<Rightarrow> int \<Rightarrow> string list" where
  "archivedUnreadThatMatters sv inp letterScore =
     sort_strings (map r_Module (filter (\<lambda>d. u_ArchivedUnread (r_Upkeep d)
       \<and> bandOf (rr_Score (gradeRow sv (d\<lparr>r_Upkeep := (r_Upkeep d)\<lparr>u_ArchivedUnread := False, u_Archived := True\<rparr>\<rparr>) inp))
          > bandOf letterScore) (i_Deps inp)))"

section \<open>Notes\<close>

definition privateNote :: "string list \<Rightarrow> string" where
  "privateNote modules =
     (if modules = [] then ''''
      else (let n = int (length modules) in
        itoa n @ '' private module'' @ plural n '''' ''s'' @ '' '' @ plural n ''was'' ''were'' @ '' not looked up and ''
        @ plural n ''is'' ''are'' @ '' not graded on upkeep: '' @ joinLimited modules 3 @ ''.''))"

definition archiveUncheckedNote :: "string list \<Rightarrow> string" where
  "archiveUncheckedNote modules =
     (if modules = [] then ''''
      else (let s = sort_strings modules; shown = take 3 s; more = int (length s) - int (length shown)
        in ''Archived status was not checked for '' @ itoa (int (length s))
           @ '' module(s) (their repository is not on GitHub or could not be found): '' @ Join shown '', ''
           @ (if more > 0 then '' and '' @ itoa more @ '' more'' else '''') @ ''.''))"

definition fixes_need_newer_go :: "row_result list \<Rightarrow> int" where
  "fixes_need_newer_go rows =
     int (length (filter (\<lambda>f. fr_Counted f \<and> rs_FixCompat (fr_Response f) = FixRaisesMinimum)
       (concat (map rr_Findings rows))))"

definition note_if :: "bool \<Rightarrow> string \<Rightarrow> string list" where
  "note_if b s = (if b then [s] else [])"

definition grade_notes :: "grade_input \<Rightarrow> tree_row list \<Rightarrow> int \<Rightarrow> string list \<Rightarrow> string list" where
  "grade_notes inp trees newer unread =
     (let c = i_Checks inp; hint = TrimSpace (c_MaintenanceHint c); v = TrimSpace (c_StdlibVersion c);
          n = int (length unread)
      in note_if (i_ChecksumMismatch inp \<and> trees = [])
           (''A module does not match its checksum (go.sum)''
            @ (if i_ChecksumDetail inp \<noteq> '''' then '': '' @ i_ChecksumDetail inp else '''') @ ''.'')
       @ note_if (newer > 0)
           (itoa newer @ '' reached finding'' @ plural newer '' is'' ''s are''
            @ '' fixed only in versions that need a newer Go than this module supports (go '' @ TrimSpace (i_ProjectGo inp)
            @ ''): taking the fix raises the module's minimum Go version. The grade does not change for that.'')
       @ note_if (n > 0)
           (''The archived status of '' @ itoa n @ '' module'' @ plural n '''' ''s''
            @ '' could not be read: an archived module would add at most '' @ itoa upkeepDependency
            @ '' to its row, so this letter may be one band better than it would be with the flag.''
            @ (if hint \<noteq> '''' then '' '' @ hint @ ''.'' else ''''))
       @ note_if (\<not> IsZero (c_KEVStaleSince c))
           (''The known-exploited catalog (CISA) could not be refreshed: the copy from '' @ fmt_iso_date (UTC (c_KEVStaleSince c))
            @ '' ('' @ itoa (max 0 (whole_days (Sub (i_Now inp) (c_KEVStaleSince c)))) @ '' days old) was used.'')
       @ note_if (v \<noteq> '''')
           (if c_StdlibGraded c
            then ''The standard library is graded at '' @ v @ '', the Go toolchain this scan ran with.''
            else ''The standard library was scanned at '' @ v
              @ '', the Go toolchain this scan ran with; its findings are listed, not graded.'')
       @ note_if (c_CalledPassNever c)
           (''The called pass was switched off (--called-pass never): every finding is shown as imported, so this letter is a ''
            @ ''floor. A vulnerable function that the code reaches would make it worse.'')
       @ note_if (c_SelfPrivate c) ''The module itself is private: its status and advisories were not looked up.''
       @ note_if (privateNote (c_PrivateModules c) \<noteq> '''') (privateNote (c_PrivateModules c))
       @ note_if (c_SelfAdvisoriesSkipped c \<and> \<not> c_SelfPrivate c)
           ''The module's own advisories were not looked up: no module version was given.''
       @ note_if (archiveUncheckedNote (c_ArchiveUnchecked c) \<noteq> '''') (archiveUncheckedNote (c_ArchiveUnchecked c)))"

section \<open>One grade\<close>

definition RuleVersion :: int where "RuleVersion = 2"

definition with_now :: "gotime \<Rightarrow> grade_input \<Rightarrow> grade_input" where
  "with_now clock inp = (if IsZero (i_Now inp) then inp\<lparr>i_Now := clock\<rparr> else inp)"

definition gradeOnce :: "semver_api \<Rightarrow> gotime \<Rightarrow> grade_input \<Rightarrow> grade_result" where
  "gradeOnce sv clock input =
     (let inp = mergedInput (with_now clock input);
          rows = grade_rows sv inp;
          (trees, score, dec) = tree_decision inp (hd rows);
          p = pendingFor inp rows score;
          newer = fixes_need_newer_go rows;
          unread = (if p = None then sort_strings (archivedUnreadThatMatters sv inp score) else [])
      in \<lparr>g_RuleVersion = RuleVersion,
          g_Letter = (if p = None then bandOf score else LetterNone),
          g_Estimated = False,
          g_Score = (if p = None then score else 0),
          g_Deciding = (if p = None then dec else None),
          g_Rows = rows, g_TreeRows = trees, g_Pending = p,
          g_Notes = grade_notes inp trees newer unread,
          g_FixesNeedNewerGo = newer, g_ArchivedUnread = unread,
          g_ChecksumMismatch = i_ChecksumMismatch inp,
          g_ChecksumDetail = (if i_ChecksumMismatch inp then i_ChecksumDetail inp else '''')\<rparr>)"

section \<open>The grade\<close>

definition severityLookupPending :: "semver_api \<Rightarrow> (nat \<Rightarrow> gotime) \<Rightarrow> grade_input \<Rightarrow> grade_result \<Rightarrow> pending option" where
  "severityLookupPending sv clock merged res =
     (let ids = map f_ID (filter f_SeverityLookupFailed (all_findings merged))
      in if ids = [] then None
         else if g_Letter (gradeOnce sv (clock 1) (withLookupSeverity merged ''LOW'')) = g_Letter res
              \<and> g_Letter (gradeOnce sv (clock 2) (withLookupSeverity merged ''CRITICAL'')) = g_Letter res then None
         else (let ids = remdups_adj (sort_strings ids);
                   more = (if length ids > 3 then '' and '' @ itoa (int (length ids) - 3) @ '' more'' else '''')
               in Some (pending_for ''severity_lookup''
                    (''the severity of '' @ Join (take 3 ids) '', '' @ more
                     @ '' could not be looked up (OSV, NVD and GitHub did not answer, often a rate limit: set NVD_API_KEY), ''
                     @ ''and a different severity would change the letter'')
                    (knownFacts (g_Rows res)))))"

definition Grade :: "semver_api \<Rightarrow> (nat \<Rightarrow> gotime) \<Rightarrow> grade_input option \<Rightarrow> grade_result" where
  "Grade sv clock input =
     (let inp = (case input of None \<Rightarrow> zero_input | Some i \<Rightarrow> i);
          merged = mergedInput inp;
          res = gradeOnce sv (clock 0) merged
      in if g_Pending res \<noteq> None then res
         else (case severityLookupPending sv clock merged res of
             Some p \<Rightarrow> res\<lparr>g_Pending := Some p, g_Letter := LetterNone, g_Deciding := None, g_Score := 0,
                           g_Estimated := False\<rparr>
           | None \<Rightarrow>
               if \<not> hasEstimatedSeverity merged then res
               else if g_Letter (gradeOnce sv (clock 3) (withEstimatedSeverity merged ''LOW'')) \<noteq> g_Letter res
                     \<or> g_Letter (gradeOnce sv (clock 4) (withEstimatedSeverity merged ''CRITICAL'')) \<noteq> g_Letter res
                    then res\<lparr>g_Estimated := True\<rparr>
               else res))"

section \<open>The letter in closed form\<close>

abbreviation all_rows :: "grade_input \<Rightarrow> row list" where
  "all_rows inp \<equiv> i_Self inp # i_Deps inp"

definition worst_value :: "grade_input \<Rightarrow> int" where
  "worst_value inp = Max (row_value ` set (all_rows inp))"

definition total_value :: "grade_input \<Rightarrow> int" where
  "total_value inp = max (tree_value inp) (worst_value inp)"

definition letter_of :: "grade_input \<Rightarrow> letter" where
  "letter_of inp = (if pending_cond inp (total_value inp) then LetterNone else bandOf (total_value inp))"

lemma row_value_le_worst: "r \<in> set (all_rows inp) \<Longrightarrow> row_value r \<le> worst_value inp"
  unfolding worst_value_def by (rule Max_ge) auto

lemma row_value_le_total: "r \<in> set (all_rows inp) \<Longrightarrow> row_value r \<le> total_value inp"
  unfolding total_value_def by (rule max.coboundedI2) (rule row_value_le_worst)

lemma worst_value_le: "(\<And>r. r \<in> set (all_rows inp) \<Longrightarrow> row_value r \<le> b) \<Longrightarrow> worst_value inp \<le> b"
  by (auto simp: worst_value_def)

lemma worst_value_row: obtains r where "r \<in> set (all_rows inp)" and "row_value r = worst_value inp"
proof -
  have "worst_value inp \<in> row_value ` set (all_rows inp)"
    unfolding worst_value_def by (rule Max_in) auto
  then obtain r where "worst_value inp = row_value r" "r \<in> set (all_rows inp)" by (elim imageE)
  then show thesis using that by metis
qed

lemma grade_rows_not_Nil [simp]: "grade_rows sv inp \<noteq> []"
  by (simp add: grade_rows_def del: sort_by_simps)

lemma set_grade_rows: "set (grade_rows sv inp) = (\<lambda>r. gradeRow sv r inp) ` set (all_rows inp)"
  by (simp add: grade_rows_def del: sort_by_simps)

lemma hd_grade_rows: "rr_Score (hd (grade_rows sv inp)) = worst_value inp"
proof (rule order_antisym)
  let ?xs = "map (\<lambda>r. gradeRow sv r inp) (all_rows inp)"
  have "hd (grade_rows sv inp) \<in> (\<lambda>r. gradeRow sv r inp) ` set (all_rows inp)"
    using hd_in_set [OF grade_rows_not_Nil] by (simp only: set_grade_rows)
  then show "rr_Score (hd (grade_rows sv inp)) \<le> worst_value inp"
    using row_value_le_worst by (auto simp: gradeRow_Score)
  show "worst_value inp \<le> rr_Score (hd (grade_rows sv inp))"
  proof (rule worst_value_le)
    fix r assume "r \<in> set (all_rows inp)"
    then have "gradeRow sv r inp \<in> set ?xs" by auto
    then have "\<not> row_lt (gradeRow sv r inp) (hd (grade_rows sv inp))"
      unfolding grade_rows_def by (intro row_order.sort_by_hd) auto
    then show "row_value r \<le> rr_Score (hd (grade_rows sv inp))"
      by (auto simp: row_lt_def gradeRow_Score split: if_splits)
  qed
qed

lemma tree_decision_score:
  "fst (snd (tree_decision inp (hd (grade_rows sv inp)))) = total_value inp"
proof -
  have "fst (snd (tree_decision inp w)) =
      (case treeRule inp of Some t \<Rightarrow> max (tr_Score t) (rr_Score w) | None \<Rightarrow> rr_Score w)" for w
    by (auto simp: tree_decision_def Let_def max_def split: option.split)
  then show ?thesis
    using treeRule_value [of inp "worst_value inp"] row_value_le_worst [of _ inp]
    by (cases "treeRule inp") (simp_all add: hd_grade_rows total_value_def)
qed

text \<open>The clock reading enters no score and no Pending rule.\<close>

lemma with_now_same [simp]:
  "i_Self (with_now c inp) = i_Self inp" "i_Deps (with_now c inp) = i_Deps inp"
  "i_Checks (with_now c inp) = i_Checks inp" "i_ChecksumMismatch (with_now c inp) = i_ChecksumMismatch inp"
  by (simp_all add: with_now_def)

lemma map_findings_same [simp]:
  "i_Checks (map_findings F inp) = i_Checks inp" "i_ChecksumMismatch (map_findings F inp) = i_ChecksumMismatch inp"
  "i_Now (map_findings F inp) = i_Now inp"
  by (simp_all add: map_findings_def)

text \<open>\<open>same_scoring a b\<close>: the two inputs agree on everything the letter is computed from.\<close>

definition same_scoring :: "grade_input \<Rightarrow> grade_input \<Rightarrow> bool" where
  "same_scoring a b = (i_Self a = i_Self b \<and> i_Deps a = i_Deps b \<and> i_Checks a = i_Checks b
     \<and> i_ChecksumMismatch a = i_ChecksumMismatch b)"

lemma same_scoring_letter:
  assumes "same_scoring a b"
  shows "total_value a = total_value b \<and> pending_cond a s = pending_cond b s \<and> letter_of a = letter_of b"
proof -
  note eqs = assms [unfolded same_scoring_def]
  have "tree_keys P a = tree_keys P b" for P
    using eqs by (simp only: tree_keys_def tree_findings_def)
  then have t: "total_value a = total_value b"
    using eqs by (simp only: total_value_def worst_value_def tree_value_def)
  have p: "pending_cond a s = pending_cond b s" for s
    using eqs by (simp only: pending_cond_def missing_deps_def)
  show ?thesis using t p by (simp only: letter_of_def)
qed

lemma same_scoring_now: "same_scoring (mergedInput (with_now c inp)) (mergedInput inp)"
  by (simp add: same_scoring_def mergedInput_def map_findings_def)

lemma gradeOnce_fields:
  assumes "m = mergedInput (with_now c inp)"
  shows "g_Pending (gradeOnce sv c inp) = pendingFor m (grade_rows sv m) (total_value m)"
    and "g_Letter (gradeOnce sv c inp) = letter_of m"
    and "g_Score (gradeOnce sv c inp) = (if pending_cond m (total_value m) then 0 else total_value m)"
  by (simp_all add: assms gradeOnce_def Let_def split_beta tree_decision_score pendingFor_None letter_of_def)

lemma gradeOnce_Pending:
  "g_Pending (gradeOnce sv c inp) = None \<longleftrightarrow> \<not> pending_cond (mergedInput inp) (total_value (mergedInput inp))"
  unfolding gradeOnce_fields(1) [OF refl] pendingFor_None
  using same_scoring_letter [OF same_scoring_now] by metis

lemma gradeOnce_Letter: "g_Letter (gradeOnce sv c inp) = letter_of (mergedInput inp)"
  unfolding gradeOnce_fields(2) [OF refl] using same_scoring_letter [OF same_scoring_now] by metis

lemma gradeOnce_Score:
  "g_Score (gradeOnce sv c inp) =
     (if pending_cond (mergedInput inp) (total_value (mergedInput inp)) then 0 else total_value (mergedInput inp))"
  unfolding gradeOnce_fields(3) [OF refl] using same_scoring_letter [OF same_scoring_now] by metis

lemma gradeOnce_Rows: "g_Rows (gradeOnce sv c inp) = grade_rows sv (mergedInput (with_now c inp))"
  by (simp add: gradeOnce_def Let_def split_beta)

lemma letter_of_None_iff: "letter_of inp = LetterNone \<longleftrightarrow> pending_cond inp (total_value inp)"
  by (simp add: letter_of_def)

section \<open>Merged inputs\<close>

definition merged_ok :: "grade_input \<Rightarrow> bool" where
  "merged_ok inp = (\<forall>r\<in>set (all_rows inp). unlinked (r_Findings r))"

lemma merged_ok_mergedInput: "merged_ok (mergedInput inp)"
  by (auto simp: merged_ok_def mergedInput_def map_findings_def unlinked_mergeAdvisories)

lemma mergedInput_merged: "merged_ok inp \<Longrightarrow> mergedInput inp = inp"
proof -
  assume ok: "merged_ok inp"
  have "map (\<lambda>d. d\<lparr>r_Findings := mergeAdvisories (r_Findings d)\<rparr>) (i_Deps inp) = i_Deps inp"
    using ok by (intro map_idI) (simp add: merged_ok_def mergeAdvisories_unlinked)
  then show ?thesis
    using ok by (simp add: mergedInput_def map_findings_def merged_ok_def mergeAdvisories_unlinked)
qed

lemma mergedInput_idem: "mergedInput (mergedInput inp) = mergedInput inp"
  by (rule mergedInput_merged) (rule merged_ok_mergedInput)

lemma Grade_none_Letter:
  assumes "g_Pending (Grade sv clock (Some inp)) = None"
  shows "g_Letter (Grade sv clock (Some inp)) = letter_of (mergedInput inp)"
    and "\<not> pending_cond (mergedInput inp) (total_value (mergedInput inp))"
proof -
  have p: "g_Pending (gradeOnce sv (clock 0) (mergedInput inp)) = None"
    using assms by (auto simp: Grade_def Let_def split: if_splits option.splits)
  then show "\<not> pending_cond (mergedInput inp) (total_value (mergedInput inp))"
    by (simp add: gradeOnce_Pending mergedInput_idem)
  show "g_Letter (Grade sv clock (Some inp)) = letter_of (mergedInput inp)"
    using assms p gradeOnce_Letter [of sv "clock 0" "mergedInput inp"]
    by (auto simp: Grade_def Let_def mergedInput_idem split: if_splits option.splits)
qed

end
