(* ===== verification/Grade_Letter.thy ===== *)
theory Grade_Letter
  imports Grade_Engine
begin

text \<open>
  What a letter of \<open>Grade\<close> promises. The score of a row and the whole-tree rule are monotone in the
  severities, and a higher score never makes a grade Pending; so the two extreme assignments of the
  source (every unknown severity as low, then as critical) bound all others, and a grade that is
  neither Pending nor marked as estimated holds for every severity the unknown ones could turn out to
  have. The same argument covers upkeep data that could not be read, and the order of the
  dependencies.
\<close>

section \<open>Raising severities\<close>

definition fsev_le :: "finding \<Rightarrow> finding \<Rightarrow> bool" where
  "fsev_le f g = (g = f\<lparr>f_Severity := f_Severity g\<rparr>
     \<and> fst (severityOf (f_Severity f)) \<le> fst (severityOf (f_Severity g)))"

definition rsev_le :: "row \<Rightarrow> row \<Rightarrow> bool" where
  "rsev_le r q = (q = r\<lparr>r_Findings := r_Findings q\<rparr> \<and> list_all2 fsev_le (r_Findings r) (r_Findings q))"

definition isev_le :: "grade_input \<Rightarrow> grade_input \<Rightarrow> bool" where
  "isev_le a b = (i_Checks a = i_Checks b \<and> i_ChecksumMismatch a = i_ChecksumMismatch b
     \<and> list_all2 rsev_le (all_rows a) (all_rows b))"

lemma fsev_le_same:
  assumes "fsev_le f g"
  shows "f_ID g = f_ID f" "f_Aliases g = f_Aliases f" "f_Reachability g = f_Reachability f" "f_Exploited g = f_Exploited f"
proof -
  have g: "g = f\<lparr>f_Severity := f_Severity g\<rparr>" using assms by (simp add: fsev_le_def)
  show "f_ID g = f_ID f" "f_Aliases g = f_Aliases f" "f_Reachability g = f_Reachability f" "f_Exploited g = f_Exploited f"
    by (subst g, simp)+
qed

lemma rsev_le_same:
  assumes "rsev_le r q"
  shows "r_Module q = r_Module r" "r_Self q = r_Self r" "r_TestOnly q = r_TestOnly r" "r_InBuild q = r_InBuild r"
    "r_Upkeep q = r_Upkeep r"
proof -
  have q: "q = r\<lparr>r_Findings := r_Findings q\<rparr>" using assms by (simp add: rsev_le_def)
  show "r_Module q = r_Module r" "r_Self q = r_Self r" "r_TestOnly q = r_TestOnly r" "r_InBuild q = r_InBuild r"
    "r_Upkeep q = r_Upkeep r"
    by (subst q, simp)+
qed

lemma fsev_le_scored:
  assumes "rsev_le r q" and "fsev_le f g"
  shows "sev_le (scoreFinding f r) (scoreFinding g q)"
  using assms(2) by (simp add: sev_le_def fsev_le_same [OF assms(2)] rsev_le_same [OF assms(1)] scoreFinding_tier fsev_le_def)

lemma rsev_le_scored: "rsev_le r q \<Longrightarrow> list_all2 sev_le (row_scored r) (row_scored q)"
  unfolding row_scored_def list_all2_map1 list_all2_map2
  by (rule list_all2_mono [where P = fsev_le]) (auto simp: rsev_le_def intro: fsev_le_scored [unfolded rsev_le_def])

lemma rsev_le_value: "rsev_le r q \<Longrightarrow> row_value r \<le> row_value q"
proof -
  assume a: "rsev_le r q"
  have "row_vuln r \<le> row_vuln q"
    using vuln_value_mono [OF rsev_le_scored [OF a]] by (simp only: row_vuln_def rsev_le_same [OF a])
  moreover have "upkeep_value q = upkeep_value r"
    by (simp only: upkeep_value_def isArchivedOrDeprecated_def rsev_le_same [OF a])
  ultimately show ?thesis by (simp add: row_value_def)
qed

lemma list_all2_flipI: "list_all2 P xs ys \<Longrightarrow> (\<And>x y. P x y \<Longrightarrow> Q y x) \<Longrightarrow> list_all2 Q ys xs"
  by (induction rule: list_all2_induct) auto

lemma list_all2_elem1: "list_all2 P xs ys \<Longrightarrow> x \<in> set xs \<Longrightarrow> \<exists>y\<in>set ys. P x y"
  by (induction rule: list_all2_induct) auto

lemma list_all2_elem2: "list_all2 P xs ys \<Longrightarrow> y \<in> set ys \<Longrightarrow> \<exists>x\<in>set xs. P x y"
  by (induction rule: list_all2_induct) auto

lemma isev_le_row:
  assumes "isev_le a b" and "r \<in> set (all_rows a)"
  obtains q where "q \<in> set (all_rows b)" and "rsev_le r q"
proof -
  have "list_all2 rsev_le (all_rows a) (all_rows b)"
    using assms(1) unfolding isev_le_def by (elim conjE)
  then show thesis using list_all2_elem1 [OF _ assms(2)] that by blast
qed

lemma isev_le_worst:
  assumes "isev_le a b"
  shows "worst_value a \<le> worst_value b"
proof (rule worst_value_le)
  fix r assume "r \<in> set (all_rows a)"
  then obtain q where "q \<in> set (all_rows b)" "rsev_le r q" by (rule isev_le_row [OF assms])
  then show "row_value r \<le> worst_value b"
    by (intro order_trans [OF rsev_le_value row_value_le_worst])
qed

text \<open>The keys a tree rule counts, as a set of (module, advisory) pairs.\<close>

lemma tree_findings_rows:
  "set (tree_findings inp) =
     (\<Union>r\<in>{r \<in> set (all_rows inp). \<not> isConfirmed (r_TestOnly r)}. Pair (r_Module r) ` set (row_scored r))"
  by (auto simp: tree_findings_def row_scored_def simp del: filter.simps)

lemma set_tree_keys:
  "set (tree_keys P inp) = {(m, i). \<exists>s. (m, s) \<in> set (tree_findings inp) \<and> P (m, s) \<and> i = s_ID s}"
  by (force simp: tree_keys_def)

lemma length_tree_keys: "length (tree_keys P inp) = card (set (tree_keys P inp))"
  unfolding tree_keys_def by (rule distinct_card [symmetric]) (rule distinct_remdups)

lemma isev_le_tree_findings:
  assumes "isev_le a b" and "(m, s) \<in> set (tree_findings a)"
  shows "\<exists>t. (m, t) \<in> set (tree_findings b) \<and> sev_le s t"
proof -
  obtain r where r: "r \<in> set (all_rows a)" "\<not> isConfirmed (r_TestOnly r)" "m = r_Module r" "s \<in> set (row_scored r)"
    using assms(2) by (auto simp: tree_findings_rows simp del: list.set)
  obtain q where q: "q \<in> set (all_rows b)" "rsev_le r q"
    using r(1) by (rule isev_le_row [OF assms(1)])
  obtain t where "t \<in> set (row_scored q)" "sev_le s t"
    using list_all2_elem1 [OF rsev_le_scored [OF q(2)] r(4)] by blast
  then show ?thesis
    using q r by (intro exI [of _ t]) (auto simp: tree_findings_rows rsev_le_same simp del: list.set)
qed

lemma isev_le_tree_keys:
  assumes "isev_le a b" and "\<And>m s t. sev_le s t \<Longrightarrow> P (m, s) \<Longrightarrow> P (m, t)"
  shows "length (tree_keys P a) \<le> length (tree_keys P b)"
proof -
  have "set (tree_keys P a) \<subseteq> set (tree_keys P b)"
  proof
    fix k assume "k \<in> set (tree_keys P a)"
    then obtain m s where k: "k = (m, s_ID s)" "(m, s) \<in> set (tree_findings a)" "P (m, s)"
      by (auto simp: set_tree_keys)
    then obtain t where "(m, t) \<in> set (tree_findings b)" "sev_le s t"
      using isev_le_tree_findings [OF assms(1)] by blast
    then show "k \<in> set (tree_keys P b)"
      using k assms(2) by (auto simp: set_tree_keys sev_le_def)
  qed
  then show ?thesis by (simp add: length_tree_keys card_mono)
qed

lemma isev_le_tree:
  assumes "isev_le a b"
  shows "tree_value a \<le> tree_value b"
proof -
  have t: "s_tier t = s_tier s" if "sev_le s t" for s t using that by (simp add: sev_le_def)
  have "length (tree_keys called_hc a) \<le> length (tree_keys called_hc b)"
    by (rule isev_le_tree_keys [OF assms]) (auto simp: called_hc_def t intro: sev_le_hc)
  moreover have "length (tree_keys reached_hc a) \<le> length (tree_keys reached_hc b)"
    by (rule isev_le_tree_keys [OF assms]) (auto simp: reached_hc_def t intro: sev_le_hc)
  moreover have "i_ChecksumMismatch b = i_ChecksumMismatch a"
    using assms by (simp add: isev_le_def)
  ultimately show ?thesis by (auto simp: tree_value_def)
qed

lemma isev_le_total: "isev_le a b \<Longrightarrow> total_value a \<le> total_value b"
  unfolding total_value_def by (intro max.mono isev_le_tree isev_le_worst)

lemma list_all2_filter_eq:
  "list_all2 R xs ys \<Longrightarrow> (\<And>x y. R x y \<Longrightarrow> P x \<longleftrightarrow> P y) \<Longrightarrow> filter P xs = [] \<longleftrightarrow> filter P ys = []"
  by (induction rule: list_all2_induct) auto

lemma isev_le_pending:
  assumes "isev_le a b"
  shows "pending_cond a s = pending_cond b s"
proof -
  have "missing_deps a s = [] \<longleftrightarrow> missing_deps b s = []"
    unfolding missing_deps_def using assms
    by (intro list_all2_filter_eq [where R = rsev_le]) (auto simp: isev_le_def rsev_le_same missing_dep_score_def)
  moreover have "r_Upkeep (i_Self a) = r_Upkeep (i_Self b)" "i_Checks a = i_Checks b"
    using assms by (auto simp: isev_le_def rsev_le_same)
  ultimately show ?thesis by (simp only: pending_cond_def)
qed

text \<open>A letter that both ends agree on is the letter of everything between them.\<close>

lemma letter_sandwich:
  assumes "isev_le lo x" and "isev_le x hi" and "letter_of lo = l" and "letter_of hi = l" and "l \<noteq> LetterNone"
  shows "letter_of x = l"
proof -
  have t: "total_value lo \<le> total_value x" "total_value x \<le> total_value hi"
    using assms(1,2) by (auto intro: isev_le_total)
  have "\<not> pending_cond lo (total_value lo)" and lo: "bandOf (total_value lo) = l"
    using assms(3,5) by (auto simp: letter_of_def split: if_splits)
  then have np: "\<not> pending_cond x (total_value x)"
    using pending_cond_antimono [OF t(1)] isev_le_pending [OF assms(1)] by metis
  have hi: "bandOf (total_value hi) = l"
    using assms(4,5) by (auto simp: letter_of_def split: if_splits)
  have "bandOf (total_value x) = l"
    using bandOf_mono [OF t(1)] bandOf_mono [OF t(2)] lo hi by (metis order_antisym)
  with np show ?thesis by (simp add: letter_of_def)
qed

section \<open>Inputs that differ in some severities\<close>

text \<open>
  \<open>resevered P Q a b\<close>: \<open>b\<close> is \<open>a\<close> with the severity of each finding that satisfies \<open>P\<close> replaced by
  some string that satisfies \<open>Q\<close>.
\<close>

definition resev_finding :: "(finding \<Rightarrow> bool) \<Rightarrow> (string \<Rightarrow> bool) \<Rightarrow> finding \<Rightarrow> finding \<Rightarrow> bool" where
  "resev_finding P Q f g = (if P f then g = f\<lparr>f_Severity := f_Severity g\<rparr> \<and> Q (f_Severity g) else g = f)"

definition resev_row :: "(finding \<Rightarrow> bool) \<Rightarrow> (string \<Rightarrow> bool) \<Rightarrow> row \<Rightarrow> row \<Rightarrow> bool" where
  "resev_row P Q r q = (q = r\<lparr>r_Findings := r_Findings q\<rparr> \<and> list_all2 (resev_finding P Q) (r_Findings r) (r_Findings q))"

definition resevered :: "(finding \<Rightarrow> bool) \<Rightarrow> (string \<Rightarrow> bool) \<Rightarrow> grade_input \<Rightarrow> grade_input \<Rightarrow> bool" where
  "resevered P Q a b = (b = a\<lparr>i_Self := i_Self b, i_Deps := i_Deps b\<rparr>
     \<and> list_all2 (resev_row P Q) (all_rows a) (all_rows b))"

definition set_severity :: "(finding \<Rightarrow> bool) \<Rightarrow> string \<Rightarrow> grade_input \<Rightarrow> grade_input" where
  "set_severity P sev inp = map_findings (map (\<lambda>f. if P f then f\<lparr>f_Severity := sev\<rparr> else f)) inp"

lemma set_severity_eqs:
  "withEstimatedSeverity inp sev = set_severity (\<lambda>f. snd (severityOf (f_Severity f))) sev inp"
  "withLookupSeverity inp sev = set_severity f_SeverityLookupFailed sev inp"
  by (simp_all add: withEstimatedSeverity_def withLookupSeverity_def set_severity_def)

lemma sev_LOW [simp]: "severityOf ''LOW'' = (LOW, False)" and sev_CRITICAL [simp]: "severityOf ''CRITICAL'' = (CRITICAL, False)"
  by code_simp+

lemma all_rows_set_severity:
  "all_rows (set_severity P sev inp) =
     map (\<lambda>r. r\<lparr>r_Findings := map (\<lambda>f. if P f then f\<lparr>f_Severity := sev\<rparr> else f) (r_Findings r)\<rparr>) (all_rows inp)"
  by (simp add: set_severity_def map_findings_def)

lemma resev_row_lo:
  assumes "resev_row P Q r q"
  shows "rsev_le (r\<lparr>r_Findings := map (\<lambda>f. if P f then f\<lparr>f_Severity := ''LOW''\<rparr> else f) (r_Findings r)\<rparr>) q"
    and "rsev_le q (r\<lparr>r_Findings := map (\<lambda>f. if P f then f\<lparr>f_Severity := ''CRITICAL''\<rparr> else f) (r_Findings r)\<rparr>)"
proof -
  have q: "q = r\<lparr>r_Findings := r_Findings q\<rparr>" and l: "list_all2 (resev_finding P Q) (r_Findings r) (r_Findings q)"
    using assms by (simp_all add: resev_row_def)
  have *: "fsev_le (f\<lparr>f_Severity := ''LOW''\<rparr>) g \<and> fsev_le g (f\<lparr>f_Severity := ''CRITICAL''\<rparr>)"
    if "g = f\<lparr>f_Severity := f_Severity g\<rparr>" for f g
    unfolding fsev_le_def by (subst (1 4) that) simp
  have lo: "fsev_le (if P f then f\<lparr>f_Severity := ''LOW''\<rparr> else f) g"
    and hi: "fsev_le g (if P f then f\<lparr>f_Severity := ''CRITICAL''\<rparr> else f)" if "resev_finding P Q f g" for f g
    using that * by (auto simp: resev_finding_def fsev_le_def split: if_splits)
  show "rsev_le (r\<lparr>r_Findings := map (\<lambda>f. if P f then f\<lparr>f_Severity := ''LOW''\<rparr> else f) (r_Findings r)\<rparr>) q"
    unfolding rsev_le_def using list_all2_mono [OF l lo] q by (simp add: list_all2_map1)
  have "list_all2 (\<lambda>g f. fsev_le g (if P f then f\<lparr>f_Severity := ''CRITICAL''\<rparr> else f)) (r_Findings q) (r_Findings r)"
    using hi by (rule list_all2_flipI [OF l])
  then show "rsev_le q (r\<lparr>r_Findings := map (\<lambda>f. if P f then f\<lparr>f_Severity := ''CRITICAL''\<rparr> else f) (r_Findings r)\<rparr>)"
    unfolding rsev_le_def by (subst q) (simp add: list_all2_map2)
qed

lemma resevered_between:
  assumes "resevered P Q a x"
  shows "isev_le (set_severity P ''LOW'' a) x" and "isev_le x (set_severity P ''CRITICAL'' a)"
proof -
  have l: "list_all2 (resev_row P Q) (all_rows a) (all_rows x)" using assms by (simp add: resevered_def)
  have c: "i_Checks x = i_Checks a" "i_ChecksumMismatch x = i_ChecksumMismatch a"
    using assms unfolding resevered_def by (metis grade_input.simps(6) grade_input.select_convs grade_input.surjective
      grade_input.update_convs)+
  show "isev_le (set_severity P ''LOW'' a) x"
    unfolding isev_le_def all_rows_set_severity list_all2_map1
    by (intro conjI list_all2_mono [OF l] resev_row_lo(1)) (simp_all add: c set_severity_def)
  show "isev_le x (set_severity P ''CRITICAL'' a)"
    unfolding isev_le_def all_rows_set_severity list_all2_map2
    by (intro conjI list_all2_flipI [OF l] resev_row_lo(2)) (simp_all add: c set_severity_def)
qed

end
