(* ===== verification/Grade_Order.thy ===== *)
theory Grade_Order
  imports Grade_Letter
begin

text \<open>
  The order of the dependencies. \<open>Grade\<close> collects, counts, takes maxima and sorts, so its whole result
  (rows, reasons, notes, Pending text) is a function of the set of dependency rows, as long as the
  rows have different modules and every advisory has an ID.
\<close>

section \<open>Inputs that list the dependencies in another order\<close>

definition reordered :: "grade_input \<Rightarrow> grade_input \<Rightarrow> bool" where
  "reordered a b = (b = a\<lparr>i_Deps := i_Deps b\<rparr> \<and> mset (i_Deps b) = mset (i_Deps a))"

definition row_keys_differ :: "grade_input \<Rightarrow> bool" where
  "row_keys_differ a = inj_on (\<lambda>r. (r_Self r, r_Module r)) (set (all_rows a))"

definition ids_given :: "grade_input \<Rightarrow> bool" where
  "ids_given a = (\<forall>f\<in>set (all_findings a). f_ID f \<noteq> '''')"

lemma reordered_same:
  assumes "reordered a b"
  shows "i_Self b = i_Self a" "i_Checks b = i_Checks a" "i_ChecksumMismatch b = i_ChecksumMismatch a"
    "i_ChecksumDetail b = i_ChecksumDetail a" "i_ProjectGo b = i_ProjectGo a" "i_History b = i_History a"
    "i_Now b = i_Now a" "i_SelfReleasedAt b = i_SelfReleasedAt a" "mset (i_Deps b) = mset (i_Deps a)"
proof -
  have b: "b = a\<lparr>i_Deps := i_Deps b\<rparr>" using assms by (simp add: reordered_def)
  show "i_Self b = i_Self a" "i_Checks b = i_Checks a" "i_ChecksumMismatch b = i_ChecksumMismatch a"
    "i_ChecksumDetail b = i_ChecksumDetail a" "i_ProjectGo b = i_ProjectGo a" "i_History b = i_History a"
    "i_Now b = i_Now a" "i_SelfReleasedAt b = i_SelfReleasedAt a"
    by (subst b, simp)+
  show "mset (i_Deps b) = mset (i_Deps a)" using assms by (simp add: reordered_def)
qed

lemma reordered_rows: "reordered a b \<Longrightarrow> mset (all_rows b) = mset (all_rows a)"
  by (simp add: reordered_same)

lemma reordered_map: "reordered a b \<Longrightarrow> reordered (map_findings F a) (map_findings F b)"
proof -
  assume ab: "reordered a b"
  note eqs = reordered_same [OF ab]
  have "map_findings F b = (map_findings F a)\<lparr>i_Deps := i_Deps (map_findings F b)\<rparr>"
    using eqs by (simp add: map_findings_def)
  moreover have "mset (i_Deps (map_findings F b)) = mset (i_Deps (map_findings F a))"
    using eqs(9) by (simp add: map_findings_def)
  ultimately show ?thesis by (simp only: reordered_def)
qed

section \<open>The rows\<close>

lemma reordered_gradeRow: "reordered a b \<Longrightarrow> gradeRow sv r b = gradeRow sv r a"
proof -
  assume ab: "reordered a b"
  note eqs = reordered_same [OF ab]
  have h: "historyText f b = historyText f a" for f by (simp only: historyText_def eqs)
  have r: "responseBase f r b = responseBase f r a" for f by (simp only: responseBase_def eqs h)
  have "responseFor sv f r b = responseFor sv f r a" for f by (simp only: responseFor_def addFixGo_def eqs r)
  then have "findingResult sv s r b = findingResult sv s r a" for s by (simp only: findingResult_def)
  then show ?thesis by (simp only: gradeRow_def eqs)
qed

lemma reordered_grade_rows:
  assumes ab: "reordered a b" and keys: "row_keys_differ a"
  shows "grade_rows sv b = grade_rows sv a"
  unfolding grade_rows_def
proof (rule sym, rule row_order.sort_by_perm)
  show "mset (map (\<lambda>r. gradeRow sv r a) (all_rows a)) = mset (map (\<lambda>r. gradeRow sv r b) (all_rows b))"
    by (simp only: mset_map reordered_rows [OF ab] reordered_gradeRow [OF ab])
  fix x y
  assume "x \<in> set (map (\<lambda>r. gradeRow sv r a) (all_rows a))" "y \<in> set (map (\<lambda>r. gradeRow sv r a) (all_rows a))"
  then obtain r q where rq: "r \<in> set (all_rows a)" "q \<in> set (all_rows a)" "x = gradeRow sv r a" "y = gradeRow sv q a"
    by (auto simp only: set_map)
  assume "x \<noteq> y"
  then have "r \<noteq> q" using rq by blast
  then have "(r_Self r, r_Module r) \<noteq> (r_Self q, r_Module q)"
    using keys rq by (auto simp only: row_keys_differ_def inj_on_def)
  then show "row_lt x y \<or> row_lt y x" using rq by (intro row_lt_total) simp
qed

section \<open>The tree rule\<close>

lemma reordered_tree_findings: "reordered a b \<Longrightarrow> mset (tree_findings b) = mset (tree_findings a)"
proof -
  assume ab: "reordered a b"
  have "mset (filter (\<lambda>r. \<not> isConfirmed (r_TestOnly r)) (all_rows b)) = mset (filter (\<lambda>r. \<not> isConfirmed (r_TestOnly r)) (all_rows a))"
    by (simp only: mset_filter reordered_rows [OF ab])
  then show ?thesis
    unfolding tree_findings_def mset_concat map_map o_def by (metis (no_types, lifting) mset_map sum_mset_sum_list)
qed

lemma mset_length_remdups: "mset xs = mset ys \<Longrightarrow> length (remdups xs) = length (remdups ys)"
  by (metis length_remdups_card_conv set_mset_mset)

lemma reordered_counts:
  assumes "reordered a b"
  shows "length (tree_keys P b) = length (tree_keys P a)" and "length (tree_modules P b) = length (tree_modules P a)"
  unfolding tree_keys_def tree_modules_def
  by (rule mset_length_remdups, simp only: mset_map mset_filter reordered_tree_findings [OF assms])+

lemma reordered_least_id:
  assumes ab: "reordered a b" and ids: "\<And>k. k \<in> set (tree_findings a) \<Longrightarrow> s_ID (snd k) \<noteq> ''''"
  shows "least_id P b = least_id P a"
proof -
  let ?f = "\<lambda>k cc. if P (snd k) \<and> (cc = '''' \<or> s_ID (snd k) < cc) then s_ID (snd k) else cc"
  have "fold ?f (tree_findings a) = fold ?f (tree_findings b)"
  proof (rule fold_multiset_equiv)
    fix x y :: "string \<times> scored"
    assume "x \<in> set (tree_findings a)" "y \<in> set (tree_findings a)"
    then have ne: "s_ID (snd x) \<noteq> ''''" "s_ID (snd y) \<noteq> ''''" using ids by blast+
    show "?f x \<circ> ?f y = ?f y \<circ> ?f x" using ne by (auto simp: fun_eq_iff)
  qed (simp only: reordered_tree_findings [OF ab])
  then show ?thesis by (simp only: least_id_def)
qed

lemma reordered_treeRule:
  assumes "reordered a b" and "\<And>k. k \<in> set (tree_findings a) \<Longrightarrow> s_ID (snd k) \<noteq> ''''"
  shows "treeRule b = treeRule a"
proof -
  have l: "least_id P b = least_id P a" for P by (rule reordered_least_id [OF assms])
  show ?thesis
    unfolding treeRule_def reordered_counts [OF assms(1)] l reordered_same [OF assms(1)] by (rule refl)
qed

lemma ids_given_tree: "ids_given a \<Longrightarrow> k \<in> set (tree_findings a) \<Longrightarrow> s_ID (snd k) \<noteq> ''''"
proof -
  assume ids: "ids_given a" and k: "k \<in> set (tree_findings a)"
  obtain m s where ms: "k = (m, s)" by (cases k)
  obtain r where r: "r \<in> set (all_rows a)" "s \<in> set (row_scored r)" using tree_finding_row k ms by metis
  then have "s_Finding s \<in> set (all_findings a)" by (auto simp: all_findings_def row_scored_def)
  then show ?thesis using ids ms by (simp add: ids_given_def)
qed

section \<open>Pending and the notes\<close>

lemma mset_eq_Nil: "mset xs = mset ys \<Longrightarrow> xs = [] \<longleftrightarrow> ys = []"
  by (metis mset_zero_iff)

lemma reordered_missing: "reordered a b \<Longrightarrow> mset (missing_deps b s) = mset (missing_deps a s)"
  by (simp only: missing_deps_def mset_filter reordered_same)

lemma fold_max_perm: "mset xs = mset ys \<Longrightarrow>
  fold (\<lambda>d m. if f d > m then f d else m) xs (0::int) = fold (\<lambda>d m. if f d > m then f d else m) ys 0"
  by (rule fun_cong [OF fold_multiset_equiv]) (auto simp: fun_eq_iff)

lemma missing_reason_perm: "mset xs = mset ys \<Longrightarrow> missing_reason inp xs = missing_reason inp ys"
proof -
  assume m: "mset xs = mset ys"
  have s: "sort_strings (map r_Module xs) = sort_strings (map r_Module ys)"
    by (rule sort_strings_mset) (simp add: m)
  show ?thesis unfolding missing_reason_def s fold_max_perm [OF m] by (rule refl)
qed

lemma reordered_pendingFor:
  assumes ab: "reordered a b"
  shows "pendingFor b rows s = pendingFor a rows s"
proof -
  have m: "missing_reason b xs = missing_reason a xs" for xs
    by (simp only: missing_reason_def reordered_same [OF ab])
  note eqs = reordered_same [OF ab] m missing_reason_perm [OF reordered_missing [OF ab]]
    mset_eq_Nil [OF reordered_missing [OF ab]]
  show ?thesis unfolding pendingFor_def Let_def eqs by (rule refl)
qed

lemma reordered_unread:
  assumes ab: "reordered a b"
  shows "archivedUnreadThatMatters sv b s = archivedUnreadThatMatters sv a s"
  unfolding archivedUnreadThatMatters_def
  by (rule sort_strings_mset) (simp only: mset_map mset_filter reordered_same [OF ab] reordered_gradeRow [OF ab])

section \<open>The grade\<close>

lemma mergeAdvisories_ID: "f \<in> set (mergeAdvisories fs) \<Longrightarrow> \<exists>g\<in>set fs. f_ID f = f_ID g"
proof -
  assume f: "f \<in> set (mergeAdvisories fs)"
  obtain r where m: "mergeAdvisories fs =
      map (\<lambda>x. mergeGroup fs (filter (\<lambda>i. r i = x) [0..<length fs])) (firsts r (length fs))"
    using mergeAdvisories_classes by blast
  then obtain x where x: "x \<in> set (firsts r (length fs))" "f = mergeGroup fs (filter (\<lambda>i. r i = x) [0..<length fs])"
    using f by auto
  then have "filter (\<lambda>i. r i = x) [0..<length fs] \<noteq> []" by (auto simp: set_firsts filter_empty_conv)
  then obtain rep where "rep \<in> set (filter (\<lambda>i. r i = x) [0..<length fs])" "f_ID f = f_ID (fs ! rep)"
    using mergeGroup_rep x(2) by metis
  then show ?thesis by auto
qed

lemma ids_given_merged: "ids_given a \<Longrightarrow> ids_given (mergedInput a)"
  by (auto simp: ids_given_def all_findings_def mergedInput_def map_findings_def dest!: mergeAdvisories_ID)

lemma ids_given_iff: "ids_given a \<longleftrightarrow> '''' \<notin> set (map f_ID (all_findings a))"
  by (auto simp: ids_given_def image_iff)

lemma ids_given_map: "(\<And>fs. map f_ID (F fs) = map f_ID fs) \<Longrightarrow> ids_given (map_findings F a) = ids_given a"
  unfolding ids_given_iff by (simp add: all_findings_def map_findings_def map_concat o_def)

lemma ids_given_set [simp]:
  "ids_given (withEstimatedSeverity a s) = ids_given a" "ids_given (withLookupSeverity a s) = ids_given a"
  unfolding withEstimatedSeverity_def withLookupSeverity_def by (rule ids_given_map; simp)+

lemma row_keys_map: "row_keys_differ a \<Longrightarrow> row_keys_differ (map_findings F a)"
proof -
  assume k: "row_keys_differ a"
  let ?g = "\<lambda>r. r\<lparr>r_Findings := F (r_Findings r)\<rparr>"
  have "inj_on ((\<lambda>r. (r_Self r, r_Module r)) \<circ> ?g) (set (all_rows a))"
    using k by (simp add: row_keys_differ_def o_def)
  then have "inj_on (\<lambda>r. (r_Self r, r_Module r)) (?g ` set (all_rows a))" by (rule inj_on_imageI)
  moreover have "set (all_rows (map_findings F a)) = ?g ` set (all_rows a)" by (simp add: map_findings_def)
  ultimately show ?thesis by (simp only: row_keys_differ_def)
qed

lemma reordered_now: "reordered a b \<Longrightarrow> reordered (with_now c a) (with_now c b)"
proof -
  assume ab: "reordered a b"
  obtain ds where b: "b = a\<lparr>i_Deps := ds\<rparr>" and m: "mset ds = mset (i_Deps a)"
    using ab unfolding reordered_def by blast
  show ?thesis unfolding b using m by (simp add: reordered_def with_now_def)
qed

lemma now_same [simp]: "ids_given (with_now c a) = ids_given a" "row_keys_differ (with_now c a) = row_keys_differ a"
  by (simp_all add: with_now_def ids_given_def row_keys_differ_def all_findings_def)

lemma reordered_gradeOnce:
  assumes ab: "reordered a b" and k: "row_keys_differ a" and ids: "ids_given a"
  shows "gradeOnce sv c b = gradeOnce sv c a"
proof -
  let ?a = "mergedInput (with_now c a)" and ?b = "mergedInput (with_now c b)"
  have r: "reordered ?a ?b" unfolding mergedInput_def by (rule reordered_map) (rule reordered_now [OF ab])
  have k': "row_keys_differ ?a" unfolding mergedInput_def by (rule row_keys_map) (simp add: k)
  have "ids_given ?a" by (rule ids_given_merged) (simp add: ids)
  then have t: "treeRule ?b = treeRule ?a" by (intro reordered_treeRule [OF r] ids_given_tree)
  note eqs = reordered_same [OF r] t reordered_grade_rows [OF r k'] reordered_pendingFor [OF r] reordered_unread [OF r]
  have d: "tree_decision ?b w = tree_decision ?a w" for w by (simp only: tree_decision_def eqs)
  have n: "grade_notes ?b ts i us = grade_notes ?a ts i us" for ts i us by (simp only: grade_notes_def eqs)
  show ?thesis unfolding gradeOnce_def Let_def eqs d n by (rule refl)
qed

lemma reordered_all_findings: "reordered a b \<Longrightarrow> mset (all_findings b) = mset (all_findings a)"
  unfolding all_findings_def mset_concat map_map by (simp add: reordered_same) (metis mset_map sum_mset_sum_list reordered_same(9))

lemma reordered_Grade:
  assumes ab: "reordered a b" and k: "row_keys_differ a" and ids: "ids_given a"
  shows "Grade sv clock (Some b) = Grade sv clock (Some a)"
proof -
  let ?a = "mergedInput a" and ?b = "mergedInput b"
  have r: "reordered ?a ?b" unfolding mergedInput_def by (rule reordered_map [OF ab])
  have k': "row_keys_differ ?a" unfolding mergedInput_def by (rule row_keys_map [OF k])
  have i': "ids_given ?a" by (rule ids_given_merged [OF ids])
  have G: "gradeOnce sv c (f ?b) = gradeOnce sv c (f ?a)"
    if "\<And>x. f x = map_findings F x" "ids_given (f ?a)" for c f F
    unfolding that(1) by (rule reordered_gradeOnce [OF reordered_map [OF r] row_keys_map [OF k'] that(2) [unfolded that(1)]])
  have e: "gradeOnce sv c (withEstimatedSeverity ?b s) = gradeOnce sv c (withEstimatedSeverity ?a s)"
    and l: "gradeOnce sv c (withLookupSeverity ?b s) = gradeOnce sv c (withLookupSeverity ?a s)" for c s
    by (rule G, rule withEstimatedSeverity_def withLookupSeverity_def, simp add: i')+
  have ne: "list_ex P (all_findings ?b) = list_ex P (all_findings ?a)" for P
    using reordered_all_findings [OF r] by (simp only: list_ex_iff flip: set_mset_mset)
  have s: "sort_strings (map f_ID (filter P (all_findings ?b))) = sort_strings (map f_ID (filter P (all_findings ?a)))" for P
    by (rule sort_strings_mset) (simp only: mset_map mset_filter reordered_all_findings [OF r])
  have n: "map f_ID (filter P (all_findings ?b)) = [] \<longleftrightarrow> map f_ID (filter P (all_findings ?a)) = []" for P
    by (rule mset_eq_Nil) (simp only: mset_map mset_filter reordered_all_findings [OF r])
  have p: "severityLookupPending sv clock ?b res = severityLookupPending sv clock ?a res" for res
    unfolding severityLookupPending_def Let_def l s n by (rule refl)
  show ?thesis
    unfolding Grade_def Let_def option.case hasEstimatedSeverity_def reordered_gradeOnce [OF r k' i'] p ne e by (rule refl)
qed

end
