(* ===== verification/Grade_Unread.thy ===== *)
theory Grade_Unread
  imports Grade_Letter
begin

text \<open>
  Upkeep data that could not be read. A grade that is not Pending has shown that no state the missing
  data could reveal is worse than what it found; these lemmas turn the Pending rules and the
  \<open>ArchivedUnread\<close> list into that statement.
\<close>

section \<open>Learning more about the upkeep of rows\<close>

text \<open>The score of \<open>q\<close>'s upkeep is at least that of \<open>r\<close> and in a band no worse than \<open>l\<close>; nothing else changes.\<close>

definition upkeep_within :: "letter \<Rightarrow> row \<Rightarrow> row \<Rightarrow> bool" where
  "upkeep_within l r q = (q = r\<lparr>r_Upkeep := r_Upkeep q\<rparr> \<and> upkeep_value r \<le> upkeep_value q
     \<and> (bandOf (upkeep_value q) \<le> l \<or> upkeep_value q = upkeep_value r)
     \<and> (u_Missing (r_Upkeep q) \<longrightarrow> u_Missing (r_Upkeep r)))"

lemma upkeep_within_same:
  assumes "upkeep_within l r q"
  shows "r_Module q = r_Module r" "r_Self q = r_Self r" "r_TestOnly q = r_TestOnly r" "r_InBuild q = r_InBuild r"
    "row_scored q = row_scored r" "row_vuln q = row_vuln r"
proof -
  have q: "q = r\<lparr>r_Upkeep := r_Upkeep q\<rparr>" using assms by (simp add: upkeep_within_def)
  show eqs: "r_Module q = r_Module r" "r_Self q = r_Self r" "r_TestOnly q = r_TestOnly r" "r_InBuild q = r_InBuild r"
    by (subst q, simp)+
  have f: "r_Findings q = r_Findings r" by (subst q) simp
  have "scoreFinding f q = scoreFinding f r" for f by (simp only: scoreFinding_def eqs)
  then show s: "row_scored q = row_scored r" by (simp only: row_scored_def f)
  show "row_vuln q = row_vuln r" by (simp only: row_vuln_def s eqs)
qed

lemma upkeep_within_tree:
  assumes l: "list_all2 (upkeep_within w) (all_rows a) (all_rows b)" and c: "i_ChecksumMismatch b = i_ChecksumMismatch a"
  shows "tree_value b = tree_value a"
proof -
  have row: "map (\<lambda>f. (r_Module q, scoreFinding f q)) (r_Findings q) = map (\<lambda>f. (r_Module r, scoreFinding f r)) (r_Findings r)"
    if "upkeep_within w r q" for r q
    using arg_cong [OF upkeep_within_same(5) [OF that], of "map (Pair (r_Module r))"] upkeep_within_same(1) [OF that]
    by (simp add: row_scored_def o_def)
  have "tree_findings b = tree_findings a"
    unfolding tree_findings_def using l
  proof (induction rule: list_all2_induct)
    case Nil
    show ?case by simp
  next
    case (Cons r rs q qs)
    then show ?case using row [OF Cons(1)] upkeep_within_same(3) [OF Cons(1)] by simp
  qed
  then show ?thesis by (simp only: tree_value_def tree_keys_def c)
qed

lemma upkeep_within_letter:
  assumes l: "list_all2 (upkeep_within (bandOf (total_value a))) (all_rows a) (all_rows b)"
    and c: "i_ChecksumMismatch b = i_ChecksumMismatch a" "i_Checks b = i_Checks a"
    and np: "\<not> pending_cond a (total_value a)"
  shows "letter_of b = letter_of a"
proof -
  let ?w = "bandOf (total_value a)"
  have t: "tree_value b = tree_value a" by (rule upkeep_within_tree [OF l c(1)])
  have up: "bandOf (row_value q) \<le> ?w" if q: "q \<in> set (all_rows b)" for q
  proof -
    obtain r where r: "r \<in> set (all_rows a)" "upkeep_within ?w r q" using list_all2_elem2 [OF l q] by blast
    then have "bandOf (row_vuln r) \<le> ?w" "bandOf (upkeep_value r) \<le> ?w"
      using bandOf_mono [OF row_value_le_total [OF r(1)]] by (simp_all add: row_value_def bandOf_max)
    then show ?thesis
      using r(2) upkeep_within_same(6) [OF r(2)] by (auto simp: row_value_def bandOf_max upkeep_within_def)
  qed
  obtain q where "q \<in> set (all_rows b)" "row_value q = worst_value b" by (rule worst_value_row)
  then have "bandOf (worst_value b) \<le> ?w" using up by force
  then have le: "bandOf (total_value b) \<le> ?w" by (simp add: total_value_def bandOf_max t)
  have "worst_value a \<le> worst_value b"
  proof (rule worst_value_le)
    fix r assume "r \<in> set (all_rows a)"
    then obtain q where q: "q \<in> set (all_rows b)" "upkeep_within ?w r q" using list_all2_elem1 [OF l] by blast
    have "row_value r \<le> row_value q"
      using q(2) upkeep_within_same(6) [OF q(2)] by (auto simp: row_value_def upkeep_within_def)
    then show "row_value r \<le> worst_value b" using row_value_le_worst [OF q(1)] by (rule order_trans)
  qed
  then have "total_value a \<le> total_value b" by (simp add: total_value_def t)
  then have band: "bandOf (total_value b) = ?w" using le bandOf_mono by (metis antisym)
  have "u_Missing (r_Upkeep (i_Self b)) \<longrightarrow> u_Missing (r_Upkeep (i_Self a))"
    using l by (simp add: upkeep_within_def)
  moreover have "missing_deps b (total_value b) = []" if "missing_deps a (total_value a) = []"
  proof -
    have ds: "list_all2 (upkeep_within ?w) (i_Deps a) (i_Deps b)" using l by simp
    show ?thesis
      unfolding missing_deps_def filter_empty_conv band
    proof
      fix q assume q: "q \<in> set (i_Deps b)"
      obtain r where r: "r \<in> set (i_Deps a)" "upkeep_within ?w r q" using list_all2_elem2 [OF ds q] by blast
      then have "u_Missing (r_Upkeep q) \<longrightarrow> u_Missing (r_Upkeep r)" "missing_dep_score q = missing_dep_score r"
        using upkeep_within_same [OF r(2)] by (simp_all add: upkeep_within_def missing_dep_score_def)
      then show "\<not> (u_Missing (r_Upkeep q) \<and> bandOf (missing_dep_score q) > ?w)"
        using that r(1) by (auto simp: missing_deps_def filter_empty_conv)
    qed
  qed
  ultimately have "\<not> pending_cond b (total_value b)"
    using np by (auto simp: pending_cond_def Let_def band c)
  then show ?thesis using np by (simp add: letter_of_def band)
qed

section \<open>Missing upkeep data\<close>

text \<open>
  \<open>revealed r q\<close>: the upkeep of \<open>r\<close> was missing and \<open>q\<close> has it, or \<open>q\<close> is \<open>r\<close>. What is already known
  of a row (an archived, deprecated or retracted state) stays known.
\<close>

definition revealed :: "row \<Rightarrow> row \<Rightarrow> bool" where
  "revealed r q = (q = r \<or> u_Missing (r_Upkeep r) \<and> q = r\<lparr>r_Upkeep := r_Upkeep q\<rparr>
     \<and> (isArchivedOrDeprecated r \<longrightarrow> isArchivedOrDeprecated q))"

definition upkeep_revealed :: "grade_input \<Rightarrow> grade_input \<Rightarrow> bool" where
  "upkeep_revealed a b = (b = a\<lparr>i_Self := i_Self b, i_Deps := i_Deps b\<rparr> \<and> list_all2 revealed (all_rows a) (all_rows b))"

lemma upkeep_update_fields:
  assumes "q = r\<lparr>r_Upkeep := r_Upkeep q\<rparr>"
  shows "r_Self q = r_Self r" "r_TestOnly q = r_TestOnly r" "r_InBuild q = r_InBuild r"
  by (subst assms, simp)+

lemma revealed_within:
  assumes np: "\<not> pending_cond a (total_value a)" and rq: "revealed r q"
    and r: "r = i_Self a \<or> r \<in> set (i_Deps a) \<and> \<not> r_Self r"
  shows "upkeep_within (bandOf (total_value a)) r q"
proof (cases "q = r")
  case True
  then show ?thesis by (simp add: upkeep_within_def)
next
  case False
  then have m: "u_Missing (r_Upkeep r)" and q: "q = r\<lparr>r_Upkeep := r_Upkeep q\<rparr>"
    and k: "isArchivedOrDeprecated r \<longrightarrow> isArchivedOrDeprecated q"
    using rq by (auto simp: revealed_def)
  note f = upkeep_update_fields [OF q]
  have "upkeep_value r \<le> upkeep_value q" using k f by (auto simp: upkeep_value_def)
  moreover have "bandOf (upkeep_value q) \<le> bandOf (total_value a)"
  proof (cases "r \<in> set (i_Deps a) \<and> \<not> r_Self r")
    case True
    then have "\<not> bandOf (missing_dep_score r) > bandOf (total_value a)"
      using np m by (auto simp: pending_cond_def Let_def missing_deps_def filter_empty_conv)
    moreover have "upkeep_value q \<le> missing_dep_score r"
      using True f by (auto simp: upkeep_value_def missing_dep_score_def upkeepMinor_def upkeepDependency_def)
    ultimately show ?thesis using bandOf_mono by (meson not_less order_trans)
  next
    case False
    then have "\<not> bandOf 35 > bandOf (total_value a)" using np m r by (auto simp: pending_cond_def Let_def)
    moreover have "upkeep_value q \<le> 35" using upkeep_value_bounds by blast
    ultimately show ?thesis using bandOf_mono by (meson not_less order_trans)
  qed
  ultimately show ?thesis using m q by (simp add: upkeep_within_def)
qed

lemma upkeep_revealed_letter:
  assumes np: "\<not> pending_cond a (total_value a)" and ab: "upkeep_revealed a b" and deps: "\<forall>r\<in>set (i_Deps a). \<not> r_Self r"
  shows "letter_of b = letter_of a"
proof (rule upkeep_within_letter [OF _ _ _ np])
  obtain s ds where b: "b = a\<lparr>i_Self := s, i_Deps := ds\<rparr>" using ab unfolding upkeep_revealed_def by blast
  show "i_ChecksumMismatch b = i_ChecksumMismatch a" "i_Checks b = i_Checks a" by (simp_all add: b)
  have "list_all2 revealed (i_Deps a) (i_Deps b)" "revealed (i_Self a) (i_Self b)" using ab by (simp_all add: upkeep_revealed_def)
  then show "list_all2 (upkeep_within (bandOf (total_value a))) (all_rows a) (all_rows b)"
    using deps by (auto intro: revealed_within [OF np] elim!: list.rel_mono_strong)
qed

section \<open>Archived flags that could not be read\<close>

text \<open>\<open>flag_read r q\<close>: the unread flag of \<open>r\<close> has been read, and the repository is archived or not.\<close>

definition flag_read :: "row \<Rightarrow> row \<Rightarrow> bool" where
  "flag_read r q = (q = r \<or> u_ArchivedUnread (r_Upkeep r)
     \<and> (q = r\<lparr>r_Upkeep := (r_Upkeep r)\<lparr>u_ArchivedUnread := False\<rparr>\<rparr>
        \<or> q = r\<lparr>r_Upkeep := (r_Upkeep r)\<lparr>u_ArchivedUnread := False, u_Archived := True\<rparr>\<rparr>))"

definition flags_read :: "grade_input \<Rightarrow> grade_input \<Rightarrow> bool" where
  "flags_read a b = (b = a\<lparr>i_Deps := i_Deps b\<rparr> \<and> list_all2 flag_read (i_Deps a) (i_Deps b))"

lemma flag_read_within:
  assumes rq: "flag_read r q"
    and le: "u_ArchivedUnread (r_Upkeep r) \<Longrightarrow>
      bandOf (row_value (r\<lparr>r_Upkeep := (r_Upkeep r)\<lparr>u_ArchivedUnread := False, u_Archived := True\<rparr>\<rparr>)) \<le> l"
  shows "upkeep_within l r q"
proof (cases "q = r")
  case True
  then show ?thesis by (simp add: upkeep_within_def)
next
  case False
  let ?m = "r\<lparr>r_Upkeep := (r_Upkeep r)\<lparr>u_ArchivedUnread := False, u_Archived := True\<rparr>\<rparr>"
  have ur: "u_ArchivedUnread (r_Upkeep r)"
    and q: "q = r\<lparr>r_Upkeep := (r_Upkeep r)\<lparr>u_ArchivedUnread := False\<rparr>\<rparr> \<or> q = ?m"
    using rq False by (auto simp: flag_read_def)
  have m: "upkeep_value r \<le> upkeep_value ?m" "bandOf (upkeep_value ?m) \<le> l"
    using le [OF ur] by (auto simp: upkeep_value_def isArchivedOrDeprecated_def row_value_def bandOf_max)
  have "upkeep_value (r\<lparr>r_Upkeep := (r_Upkeep r)\<lparr>u_ArchivedUnread := False\<rparr>\<rparr>) = upkeep_value r"
    by (simp add: upkeep_value_def isArchivedOrDeprecated_def)
  then show ?thesis using q m by (elim disjE) (simp_all add: upkeep_within_def)
qed

lemma flags_read_letter:
  assumes np: "\<not> pending_cond a (total_value a)" and ab: "flags_read a b"
    and none: "archivedUnreadThatMatters sv a (total_value a) = []"
  shows "letter_of b = letter_of a"
proof (rule upkeep_within_letter [OF _ _ _ np])
  obtain ds where b: "b = a\<lparr>i_Deps := ds\<rparr>" using ab unfolding flags_read_def by blast
  show "i_ChecksumMismatch b = i_ChecksumMismatch a" "i_Checks b = i_Checks a" by (simp_all add: b)
  have le: "bandOf (row_value (r\<lparr>r_Upkeep := (r_Upkeep r)\<lparr>u_ArchivedUnread := False, u_Archived := True\<rparr>\<rparr>)) \<le> bandOf (total_value a)"
    if "r \<in> set (i_Deps a)" "u_ArchivedUnread (r_Upkeep r)" for r
    using none that by (auto simp: archivedUnreadThatMatters_def sort_strings_def filter_empty_conv gradeRow_Score not_less)
  have "list_all2 flag_read (i_Deps a) (i_Deps b)" using ab by (simp add: flags_read_def)
  then have "list_all2 (upkeep_within (bandOf (total_value a))) (i_Deps a) (i_Deps b)"
    by (rule list.rel_mono_strong) (rule flag_read_within, assumption, rule le)
  moreover have "upkeep_within (bandOf (total_value a)) (i_Self a) (i_Self a)" by (simp add: upkeep_within_def)
  ultimately show "list_all2 (upkeep_within (bandOf (total_value a))) (all_rows a) (all_rows b)"
    by (simp add: b)
qed

end
