(* ===== verification/Called_Pass.thy ===== *)
theory Called_Pass
  imports Grade_Letter
begin

text \<open>
  \<open>pkg/grade/calledpass.go\<close>: the test that lets a scan skip govulncheck's called pass. The imported
  findings by module path are an association list (the source's map; the first entry of a key
  counts). The theory relates a negative answer to the letter: turning imported findings into called
  ones leaves every row and the tree rule in the same band.
\<close>

section \<open>The test\<close>

text \<open>\<open>scanner.Vulnerability\<close>, the fields the grade reads.\<close>

record vulnerability =
  v_ID :: string
  v_Aliases :: "string list"
  v_Severity :: string
  v_Reachability :: string
  v_InKEV :: bool

definition isImported :: "vulnerability \<Rightarrow> bool" where
  "isImported v = (ToLower (TrimSpace (v_Reachability v)) = ''imported'')"

definition probe_finding :: "string \<Rightarrow> vulnerability \<Rightarrow> finding" where
  "probe_finding reach v =
     zero_finding\<lparr>f_ID := v_ID v, f_Severity := v_Severity v, f_Reachability := reach, f_Exploited := v_InKEV v\<rparr>"

definition probe_row :: "string \<Rightarrow> tri \<Rightarrow> string \<Rightarrow> vulnerability list \<Rightarrow> row" where
  "probe_row m testOnly reach vs =
     zero_row\<lparr>r_Module := m, r_Direct := True, r_TestOnly := testOnly,
       r_Findings := map (probe_finding reach) (filter isImported vs)\<rparr>"

definition rowVulnBand :: "row \<Rightarrow> letter" where
  "rowVulnBand r = bandOf (fst (vulnScore r (map (\<lambda>f. scoreFinding f r) (r_Findings r))))"

definition treeBand :: "grade_input \<Rightarrow> letter" where
  "treeBand inp = (case treeRule inp of Some t \<Rightarrow> bandOf (tr_Score t) | None \<Rightarrow> LetterA)"

definition vulns_of :: "(string \<times> vulnerability list) list \<Rightarrow> string \<Rightarrow> vulnerability list" where
  "vulns_of imported m = (case map_of imported m of Some vs \<Rightarrow> vs | None \<Rightarrow> [])"

text \<open>
  The modules with an imported finding in the order of the loop, their imported findings, and the
  modules whose row changes band with or without the test-only halving.
\<close>

definition probed_modules :: "(string \<times> vulnerability list) list \<Rightarrow> string list" where
  "probed_modules imported =
     filter (\<lambda>m. filter isImported (vulns_of imported m) \<noteq> []) (sort_strings (remdups (map fst imported)))"

definition probed :: "(string \<times> vulnerability list) list \<Rightarrow> vulnerability list" where
  "probed imported = concat (map (\<lambda>m. filter isImported (vulns_of imported m)) (probed_modules imported))"

definition band_diff :: "(string \<times> vulnerability list) list \<Rightarrow> string list" where
  "band_diff imported =
     concat (map (\<lambda>m. concat (map (\<lambda>t.
         if rowVulnBand (probe_row m t ''imported'' (vulns_of imported m))
            \<noteq> rowVulnBand (probe_row m t ''called'' (vulns_of imported m)) then [m] else [])
       [None, Some True])) (probed_modules imported))"

definition probe_input :: "(string \<times> vulnerability list) list \<Rightarrow> string \<Rightarrow> grade_input" where
  "probe_input imported reach =
     zero_input\<lparr>i_Deps := map (\<lambda>m. probe_row m None reach (vulns_of imported m)) (probed_modules imported)\<rparr>"

definition CalledPassCanChangeLetter :: "(string \<times> vulnerability list) list \<Rightarrow> bool \<times> string" where
  "CalledPassCanChangeLetter imported =
     (let vs = probed imported;
          noSev = sort_strings (map v_ID (filter (\<lambda>v. snd (severityOf (v_Severity v))) vs));
          exploit = sort_strings (map v_ID (filter v_InKEV vs))
      in if vs = [] then (False, ''the code imports no package with an advisory, so no function can be called'')
         else if exploit \<noteq> [] then
           (True, ''an imported advisory is known to be exploited ('' @ hd exploit @ ''), which grades F when called'')
         else if noSev \<noteq> [] then
           (True, ''an imported advisory has no severity yet ('' @ hd noSev
             @ ''), so what its called score would be is not known'')
         else if band_diff imported \<noteq> []
             \<or> treeBand (probe_input imported ''imported'') \<noteq> treeBand (probe_input imported ''called'') then
           (True, ''an imported advisory is high or critical, or scores in a higher band when called'')
         else (False, ''the '' @ itoa (int (length vs))
           @ '' imported advisories are all medium or low, and are in the same band whether called or imported''))"

section \<open>What a negative answer rules out\<close>

lemma rowVulnBand_value: "rowVulnBand r = bandOf (row_vuln r)"
  using vulnScore_value [OF row_scored_tabled, of r r] by (simp add: rowVulnBand_def row_scored_def row_vuln_def)

lemma tier_names [simp]:
  "tierOf ''imported'' False = (TierImported, False)" "tierOf ''called'' False = (TierCalled, False)"
  by code_simp+

lemma probe_scored:
  "row_scored (probe_row m t ''called'' vs) = map (\<lambda>v. scoreFinding (probe_finding ''called'' v) (probe_row m t ''called'' vs)) (filter isImported vs)"
  "row_scored (probe_row m t ''imported'' vs) = map (\<lambda>v. scoreFinding (probe_finding ''imported'' v) (probe_row m t ''imported'' vs)) (filter isImported vs)"
  by (simp_all add: row_scored_def probe_row_def zero_row_def)

lemma probe_tier [simp]:
  "s_tier (scoreFinding (probe_finding ''called'' v) (probe_row m t ''called'' vs)) = TierCalled"
  "s_tier (scoreFinding (probe_finding ''imported'' v) (probe_row m t ''imported'' vs)) = TierImported"
  by (simp_all add: scoreFinding_tier probe_row_def zero_row_def isRefuted_def probe_finding_def zero_finding_def)

text \<open>A high or critical imported finding changes the band of its own row, so it cannot be missed.\<close>

lemma probe_band_differs:
  assumes v: "v \<in> set vs" "isImported v" and hc: "highOrCritical (fst (severityOf (v_Severity v)))"
  shows "rowVulnBand (probe_row m None ''imported'' vs) \<noteq> rowVulnBand (probe_row m None ''called'' vs)"
proof -
  let ?i = "row_scored (probe_row m None ''imported'' vs)" and ?c = "row_scored (probe_row m None ''called'' vs)"
  let ?s = "scoreFinding (probe_finding ''called'' v) (probe_row m None ''called'' vs)"
  have nt: "isConfirmed (r_TestOnly (probe_row m None r vs)) = False" for r
    by (simp add: probe_row_def isConfirmed_def)
  have "row_vuln (probe_row m None ''imported'' vs) \<le> 50"
    unfolding row_vuln_def by (rule vuln_value_no_called) (auto simp: probe_scored)
  moreover have "70 \<le> row_vuln (probe_row m None ''called'' vs)"
  proof -
    have all: "filter (\<lambda>f. s_tier f = TierCalled) ?c = ?c" by (auto simp: probe_scored intro!: filter_True)
    have s: "?s \<in> set ?c" using v by (auto simp: probe_scored)
    have "highOrCritical (s_sev ?s)" using hc by (simp add: probe_finding_def)
    then have "70 \<le> s_score ?s" using tabled_called_hc [of ?s] by simp
    then have "70 \<le> called_value ?c" using max_score_ge [OF s] by (simp add: called_value_def)
    then show ?thesis by (auto simp: row_vuln_def vuln_value_def nt vuln_cap_def Let_def all)
  qed
  ultimately show ?thesis by (auto simp: rowVulnBand_value bandOf_def)
qed

lemma answer_True:
  "v \<in> set (probed imported) \<Longrightarrow> v_InKEV v \<or> snd (severityOf (v_Severity v)) \<or> band_diff imported \<noteq> []
     \<Longrightarrow> fst (CalledPassCanChangeLetter imported)"
  unfolding CalledPassCanChangeLetter_def Let_def sort_strings_def
  by (auto simp: filter_empty_conv)

lemma negative_answer:
  assumes no: "\<not> fst (CalledPassCanChangeLetter imported)"
    and v: "v \<in> set (vulns_of imported m)" "isImported v"
  shows "\<not> highOrCritical (fst (severityOf (v_Severity v)))" and "\<not> snd (severityOf (v_Severity v))"
    and "\<not> v_InKEV v"
proof -
  have "map_of imported m \<noteq> None" using v(1) by (cases "map_of imported m") (simp_all add: vulns_of_def)
  then have "m \<in> set (map fst imported)" by (simp add: map_of_eq_None_iff)
  then have m: "m \<in> set (probed_modules imported)" using v by (auto simp: probed_modules_def filter_empty_conv)
  then have vs: "v \<in> set (probed imported)" using v by (auto simp: probed_def)
  show "\<not> v_InKEV v" "\<not> snd (severityOf (v_Severity v))" using answer_True [OF vs] no by blast+
  have b: "band_diff imported = []" using answer_True [OF vs] no by blast
  have "rowVulnBand (probe_row m None ''imported'' (vulns_of imported m))
      = rowVulnBand (probe_row m None ''called'' (vulns_of imported m))"
    using b m by (simp add: band_diff_def split: if_splits)
  then show "\<not> highOrCritical (fst (severityOf (v_Severity v)))"
    using probe_band_differs [OF v] by blast
qed

section \<open>Imported findings that turn out to be called\<close>

definition mild :: "scored \<Rightarrow> bool" where
  "mild s = (tabled s \<and> (s_sev s = LOW \<or> s_sev s = MEDIUM))"

definition moved :: "scored \<Rightarrow> scored \<Rightarrow> bool" where
  "moved s t = (tabled s \<and> tabled t \<and> s_ID t = s_ID s \<and> s_sev t = s_sev s
     \<and> f_Exploited (s_Finding t) = f_Exploited (s_Finding s)
     \<and> (s_tier s = TierImported \<longrightarrow> mild s \<and> \<not> f_Exploited (s_Finding s))
     \<and> (s_tier t = s_tier s \<or> s_tier s = TierImported \<and> s_tier t = TierCalled))"

abbreviation called_of :: "scored list \<Rightarrow> scored list" where
  "called_of fs \<equiv> filter (\<lambda>f. s_tier f = TierCalled) fs"

abbreviation imported_of :: "scored list \<Rightarrow> scored list" where
  "imported_of fs \<equiv> filter (\<lambda>f. s_tier f = TierImported) fs"

definition raw_value :: "scored list \<Rightarrow> int" where
  "raw_value fs = max (called_value (called_of fs)) (min 50 (max_score (imported_of fs)))"

lemma moved_elem1: "list_all2 moved fs gs \<Longrightarrow> s \<in> set fs \<Longrightarrow> \<exists>t\<in>set gs. moved s t"
  by (rule list_all2_elem1)

lemma moved_elem2: "list_all2 moved fs gs \<Longrightarrow> t \<in> set gs \<Longrightarrow> \<exists>s\<in>set fs. moved s t"
  by (rule list_all2_elem2)

text \<open>Findings of at most medium severity: the value lies in the range of the worst one, in either tier.\<close>

lemma raw_value_mild:
  assumes mild: "\<And>s. s \<in> set fs \<Longrightarrow> s_tier s \<noteq> TierGraphOnly \<Longrightarrow> mild s"
  shows "(\<exists>s\<in>set fs. s_tier s \<noteq> TierGraphOnly \<and> s_sev s = MEDIUM) \<Longrightarrow> 32 \<le> raw_value fs \<and> raw_value fs \<le> 45"
    and "\<not> (\<exists>s\<in>set fs. s_tier s \<noteq> TierGraphOnly \<and> s_sev s = MEDIUM) \<Longrightarrow>
      \<exists>s\<in>set fs. s_tier s \<noteq> TierGraphOnly \<Longrightarrow> 11 \<le> raw_value fs \<and> raw_value fs \<le> 15"
    and "\<forall>s\<in>set fs. s_tier s = TierGraphOnly \<Longrightarrow> raw_value fs = 0"
proof -
  let ?c = "called_of fs" and ?i = "imported_of fs"
  have "\<not> highOrCritical (s_sev s)" if "s \<in> set ?c" for s
    using mild [of s] that by (auto simp: mild_def highOrCritical_def)
  then have hc: "hc_ids ?c = {}" by (auto simp: hc_ids_def)
  have v: "raw_value fs = max (max_score ?c) (min 50 (max_score ?i))"
    by (simp add: raw_value_def called_value_def hc)
  have up: "raw_value fs \<le> b" if "0 \<le> b" and "\<And>s. s \<in> set fs \<Longrightarrow> s_tier s \<noteq> TierGraphOnly \<Longrightarrow> s_score s \<le> b" for b
    unfolding v using that by (intro max.boundedI min.coboundedI2 max_score_le) auto
  have low: "min 50 (s_score s) \<le> raw_value fs" if "s \<in> set fs" "s_tier s \<noteq> TierGraphOnly" for s
    using that max_score_ge [of s ?c] max_score_ge [of s ?i] by (cases "s_tier s") (auto simp: v)
  have sc: "s_score s = (if s_sev s = LOW then if s_tier s = TierCalled then 15 else 11 else if s_tier s = TierCalled then 45 else 32)"
    if "s \<in> set fs" "s_tier s \<noteq> TierGraphOnly" for s
    using mild [OF that] that by (cases "s_tier s") (auto simp: mild_def tabled_def)
  show "32 \<le> raw_value fs \<and> raw_value fs \<le> 45" if med: "\<exists>s\<in>set fs. s_tier s \<noteq> TierGraphOnly \<and> s_sev s = MEDIUM"
  proof (intro conjI up)
    obtain s where "s \<in> set fs" "s_tier s \<noteq> TierGraphOnly" "s_sev s = MEDIUM" using med by blast
    then show "32 \<le> raw_value fs" using sc [of s] low [of s] by (cases "s_tier s") simp_all
    show "s_score s \<le> 45" if "s \<in> set fs" "s_tier s \<noteq> TierGraphOnly" for s using sc [OF that] by simp
  qed simp
  show "11 \<le> raw_value fs \<and> raw_value fs \<le> 15"
    if n: "\<not> (\<exists>s\<in>set fs. s_tier s \<noteq> TierGraphOnly \<and> s_sev s = MEDIUM)" and e: "\<exists>s\<in>set fs. s_tier s \<noteq> TierGraphOnly"
  proof (intro conjI up)
    have L: "s_sev s = LOW" if "s \<in> set fs" "s_tier s \<noteq> TierGraphOnly" for s
      using n mild [OF that] that by (auto simp: mild_def)
    show "11 \<le> raw_value fs" using e L sc low by (fastforce split: if_splits)
    show "s_score s \<le> 15" if "s \<in> set fs" "s_tier s \<noteq> TierGraphOnly" for s using L [OF that] sc [OF that] by simp
  qed simp
  show "raw_value fs = 0" if "\<forall>s\<in>set fs. s_tier s = TierGraphOnly"
  proof -
    have "?c = []" "?i = []" using that by (auto simp: filter_empty_conv)
    then show ?thesis by (simp add: v)
  qed
qed

text \<open>The two ranges survive the floor of an exploited finding and the test-only halving.\<close>

lemma vuln_cap_band:
  assumes "32 \<le> a \<and> a \<le> 45 \<and> 32 \<le> b \<and> b \<le> 45 \<or> 11 \<le> a \<and> a \<le> 15 \<and> 11 \<le> b \<and> b \<le> 15 \<or> a = b"
  shows "bandOf (vuln_cap kev t a) = bandOf (vuln_cap kev t b)"
proof -
  have hi: "bandOf (vuln_cap kev t x) = (if kev then if t then LetterC else LetterF else if t then LetterB else LetterC)"
    if "32 \<le> x" "x \<le> 45" for x
    using that by (cases kev; cases t) (auto simp: vuln_cap_def bandOf_def)
  have lo: "bandOf (vuln_cap kev t x) = (if kev then if t then LetterC else LetterF else if t then LetterA else LetterB)"
    if "11 \<le> x" "x \<le> 15" for x
    using that by (cases kev; cases t) (auto simp: vuln_cap_def bandOf_def)
  show ?thesis using assms hi lo by metis
qed

lemma vuln_value_raw:
  "vuln_value t fs = vuln_cap (\<exists>f\<in>set (called_of fs). f_Exploited (s_Finding f)) t (raw_value fs)"
  by (simp add: vuln_value_def raw_value_def Let_def)

lemma moved_exploited:
  assumes "list_all2 moved fs gs"
  shows "(\<exists>f\<in>set (called_of fs). f_Exploited (s_Finding f)) \<longleftrightarrow> (\<exists>g\<in>set (called_of gs). f_Exploited (s_Finding g))"
  using moved_elem1 [OF assms] moved_elem2 [OF assms] by (auto simp: moved_def) (metis tier.distinct(1))+

lemma moved_called_high:
  assumes l: "list_all2 moved fs gs" and hc: "s \<in> set (called_of fs)" "highOrCritical (s_sev s)"
  shows "raw_value gs = raw_value fs"
proof -
  have s70: "70 \<le> s_score s"
    using hc moved_elem1 [OF l, of s] tabled_called_hc [of s] by (auto simp: moved_def)
  have sub: "\<exists>g\<in>set (called_of gs). s_ID g = s_ID f \<and> s_score g = s_score f \<and> s_sev g = s_sev f"
    if "f \<in> set (called_of fs)" for f
    using moved_elem1 [OF l, of f] that by (auto simp: moved_def tabled_def)
  have sup: "s_score g \<le> 45 \<and> \<not> highOrCritical (s_sev g) \<or>
      (\<exists>f\<in>set (called_of fs). s_ID g = s_ID f \<and> s_score g = s_score f \<and> s_sev g = s_sev f)"
    if "g \<in> set (called_of gs)" for g
    using moved_elem2 [OF l, of g] that by (auto simp: moved_def tabled_def mild_def highOrCritical_def)
  have m70: "70 \<le> max_score (called_of fs)" using max_score_ge [OF hc(1)] s70 by simp
  have "max_score (called_of gs) = max_score (called_of fs)"
  proof (rule antisym)
    show "max_score (called_of gs) \<le> max_score (called_of fs)"
      using sup m70 max_score_ge [of _ "called_of fs"] by (intro max_score_le) fastforce+
    show "max_score (called_of fs) \<le> max_score (called_of gs)"
      using sub max_score_ge [of _ "called_of gs"] by (intro max_score_le) fastforce+
  qed
  moreover have "hc_ids (called_of gs) = hc_ids (called_of fs)"
    unfolding hc_ids_def using sub sup by (auto simp: image_iff) (metis, metis)
  ultimately have "called_value (called_of gs) = called_value (called_of fs)"
    by (simp only: called_value_def)
  moreover have "70 \<le> called_value (called_of fs)" using m70 by (simp add: called_value_def)
  ultimately show ?thesis by (auto simp: raw_value_def)
qed

lemma moved_band:
  assumes l: "list_all2 moved fs gs"
  shows "bandOf (vuln_value t gs) = bandOf (vuln_value t fs)"
proof (cases "\<exists>s\<in>set (called_of fs). highOrCritical (s_sev s)")
  case True
  then show ?thesis using moved_called_high [OF l] moved_exploited [OF l] by (auto simp: vuln_value_raw)
next
  case False
  have mf: "mild s" if "s \<in> set fs" "s_tier s \<noteq> TierGraphOnly" for s
  proof -
    have "tabled s" "s_tier s = TierImported \<longrightarrow> mild s" using moved_elem1 [OF l that(1)] by (auto simp: moved_def)
    then show ?thesis using False that by (cases "s_tier s"; cases "s_sev s") (auto simp: mild_def highOrCritical_def)
  qed
  have mg: "mild g" if g: "g \<in> set gs" "s_tier g \<noteq> TierGraphOnly" for g
  proof -
    obtain s where s: "s \<in> set fs" "moved s g" using moved_elem2 [OF l g(1)] by blast
    then have "s_tier s \<noteq> TierGraphOnly" using g(2) by (auto simp: moved_def)
    then show ?thesis using mf [OF s(1)] s(2) by (auto simp: moved_def mild_def)
  qed
  have ex: "(\<exists>s\<in>set fs. s_tier s \<noteq> TierGraphOnly \<and> P (s_sev s)) \<longleftrightarrow> (\<exists>s\<in>set gs. s_tier s \<noteq> TierGraphOnly \<and> P (s_sev s))" for P
    using moved_elem1 [OF l] moved_elem2 [OF l] unfolding moved_def by (metis tier.distinct(3,5))
  have "32 \<le> raw_value gs \<and> raw_value gs \<le> 45 \<and> 32 \<le> raw_value fs \<and> raw_value fs \<le> 45
      \<or> 11 \<le> raw_value gs \<and> raw_value gs \<le> 15 \<and> 11 \<le> raw_value fs \<and> raw_value fs \<le> 15 \<or> raw_value gs = raw_value fs"
  proof (cases "\<exists>s\<in>set fs. s_tier s \<noteq> TierGraphOnly \<and> s_sev s = MEDIUM")
    case True
    then show ?thesis
      using raw_value_mild(1) [OF mf True] raw_value_mild(1) [OF mg ex [of "\<lambda>s. s = MEDIUM", THEN iffD1, OF True]] by simp
  next
    case nomed: False
    then have nomed': "\<not> (\<exists>s\<in>set gs. s_tier s \<noteq> TierGraphOnly \<and> s_sev s = MEDIUM)"
      using ex [of "\<lambda>s. s = MEDIUM"] by blast
    show ?thesis
    proof (cases "\<exists>s\<in>set fs. s_tier s \<noteq> TierGraphOnly")
      case True
      then have "\<exists>s\<in>set gs. s_tier s \<noteq> TierGraphOnly" using ex [of "\<lambda>_. True"] by simp
      then show ?thesis using raw_value_mild(2) [OF mf nomed True] raw_value_mild(2) [OF mg nomed'] by simp
    next
      case False
      then have "\<forall>s\<in>set fs. s_tier s = TierGraphOnly" "\<forall>s\<in>set gs. s_tier s = TierGraphOnly"
        using ex [of "\<lambda>_. True"] by simp_all
      then show ?thesis using raw_value_mild(3) [OF mf] raw_value_mild(3) [OF mg] by simp
    qed
  qed
  then show ?thesis
    unfolding vuln_value_raw moved_exploited [OF l, symmetric] by (rule vuln_cap_band)
qed

text \<open>
  \<open>called_later a b\<close>: \<open>b\<close> is \<open>a\<close> in which some imported findings of the dependencies turned out to be
  called. \<open>scanned imported a\<close>: each imported finding of a dependency is one of the scan's.
\<close>

definition isImportedFinding :: "finding \<Rightarrow> bool" where
  "isImportedFinding f = (ToLower (TrimSpace (f_Reachability f)) = ''imported'')"

definition called_finding :: "finding \<Rightarrow> finding \<Rightarrow> bool" where
  "called_finding f g = (g = f \<or> isImportedFinding f \<and> g = f\<lparr>f_Reachability := ''called''\<rparr>)"

definition called_row :: "row \<Rightarrow> row \<Rightarrow> bool" where
  "called_row r q = (q = r\<lparr>r_Findings := r_Findings q\<rparr> \<and> list_all2 called_finding (r_Findings r) (r_Findings q))"

definition called_later :: "grade_input \<Rightarrow> grade_input \<Rightarrow> bool" where
  "called_later a b = (b = a\<lparr>i_Deps := i_Deps b\<rparr> \<and> list_all2 called_row (i_Deps a) (i_Deps b))"

definition scanned :: "(string \<times> vulnerability list) list \<Rightarrow> grade_input \<Rightarrow> bool" where
  "scanned imported a = (r_Self (i_Self a) \<and> (\<forall>r\<in>set (i_Deps a). \<not> r_Self r \<and> (\<forall>f\<in>set (r_Findings r). isImportedFinding f \<longrightarrow>
     (\<exists>v\<in>set (vulns_of imported (r_Module r)). isImported v \<and> severityOf (v_Severity v) = severityOf (f_Severity f) \<and> v_InKEV v = f_Exploited f))))"

lemma called_row_same:
  assumes "called_row r q"
  shows "r_Module q = r_Module r" "r_Self q = r_Self r" "r_TestOnly q = r_TestOnly r" "r_InBuild q = r_InBuild r"
    "r_Upkeep q = r_Upkeep r"
proof -
  have q: "q = r\<lparr>r_Findings := r_Findings q\<rparr>" using assms by (simp add: called_row_def)
  show "r_Module q = r_Module r" "r_Self q = r_Self r" "r_TestOnly q = r_TestOnly r" "r_InBuild q = r_InBuild r"
    "r_Upkeep q = r_Upkeep r"
    by (subst q, simp)+
qed

lemma tierOf_imported: "fst (tierOf x False) = TierImported \<longleftrightarrow> ToLower (TrimSpace x) = ''imported''"
  by (simp add: tierOf_def Let_def)

lemma called_row_moved:
  assumes no: "\<not> fst (CalledPassCanChangeLetter imported)" and sc: "scanned imported a"
    and r: "r \<in> set (i_Deps a)" and rq: "called_row r q"
  shows "list_all2 moved (row_scored r) (row_scored q)"
proof -
  have "moved (scoreFinding f r) (scoreFinding g q)" if f: "f \<in> set (r_Findings r)" and fg: "called_finding f g" for f g
  proof -
    have ns: "\<not> r_Self r" using sc r by (auto simp: scanned_def)
    have g: "f_ID g = f_ID f" "f_Severity g = f_Severity f" "f_Exploited g = f_Exploited f"
      using fg by (auto simp: called_finding_def)
    have m: "mild (scoreFinding f r) \<and> \<not> f_Exploited f" if i: "isImportedFinding f"
    proof -
      obtain v where v: "v \<in> set (vulns_of imported (r_Module r))" "isImported v"
          "severityOf (v_Severity v) = severityOf (f_Severity f)" "v_InKEV v = f_Exploited f"
        using sc r f i by (auto simp: scanned_def)
      then show ?thesis
        using negative_answer [OF no v(1,2)]
        by (cases "fst (severityOf (f_Severity f))") (auto simp: mild_def highOrCritical_def)
    qed
    have t: "s_tier (scoreFinding f r) = TierImported \<longrightarrow> isImportedFinding f"
      using ns by (simp add: scoreFinding_tier tierOf_imported isImportedFinding_def)
    have t': "s_tier (scoreFinding g q) = s_tier (scoreFinding f r) \<or>
        s_tier (scoreFinding f r) = TierImported \<and> s_tier (scoreFinding g q) = TierCalled"
    proof (cases "g = f")
      case True
      then show ?thesis by (simp add: scoreFinding_tier called_row_same [OF rq])
    next
      case False
      then have "isImportedFinding f" "f_Reachability g = ''called''" using fg by (auto simp: called_finding_def)
      then show ?thesis
        using ns by (simp add: scoreFinding_tier called_row_same [OF rq] isImportedFinding_def tierOf_imported)
    qed
    show ?thesis using g m t t' by (auto simp: moved_def)
  qed
  then show ?thesis
    unfolding row_scored_def list_all2_map1 list_all2_map2
    using rq by (auto simp: called_row_def list_all2_conv_all_nth)
qed

text \<open>Rows in the same bands and the same tree value give the same letter.\<close>

definition same_band_row :: "row \<Rightarrow> row \<Rightarrow> bool" where
  "same_band_row r q = (bandOf (row_value q) = bandOf (row_value r) \<and> r_Upkeep q = r_Upkeep r
     \<and> r_TestOnly q = r_TestOnly r \<and> r_InBuild q = r_InBuild r)"

lemma same_band_worst:
  assumes l: "list_all2 same_band_row (all_rows a) (all_rows b)"
  shows "bandOf (worst_value b) = bandOf (worst_value a)"
proof (rule antisym)
  obtain q where q: "q \<in> set (all_rows b)" "row_value q = worst_value b" by (rule worst_value_row)
  obtain r where r: "r \<in> set (all_rows a)" "same_band_row r q" using list_all2_elem2 [OF l q(1)] by blast
  show "bandOf (worst_value b) \<le> bandOf (worst_value a)"
    using bandOf_mono [OF row_value_le_worst [OF r(1)]] r(2) q(2) by (simp add: same_band_row_def)
next
  obtain r where r: "r \<in> set (all_rows a)" "row_value r = worst_value a" by (rule worst_value_row)
  obtain q where q: "q \<in> set (all_rows b)" "same_band_row r q" using list_all2_elem1 [OF l r(1)] by blast
  show "bandOf (worst_value a) \<le> bandOf (worst_value b)"
    using bandOf_mono [OF row_value_le_worst [OF q(1)]] q(2) r(2) by (simp add: same_band_row_def)
qed

lemma same_band_letter:
  assumes l: "list_all2 same_band_row (all_rows a) (all_rows b)" and t: "tree_value b = tree_value a"
    and c: "i_Checks b = i_Checks a"
  shows "letter_of b = letter_of a"
proof -
  have band: "bandOf (total_value b) = bandOf (total_value a)"
    by (simp only: total_value_def bandOf_max t same_band_worst [OF l])
  have "missing_deps b (total_value b) = [] \<longleftrightarrow> missing_deps a (total_value a) = []"
    unfolding missing_deps_def band using l
    by (intro sym [OF list_all2_filter_eq [where R = same_band_row]]) (auto simp: same_band_row_def missing_dep_score_def)
  moreover have "r_Upkeep (i_Self b) = r_Upkeep (i_Self a)" using l by (simp add: same_band_row_def)
  ultimately have "pending_cond b (total_value b) = pending_cond a (total_value a)"
    by (simp only: pending_cond_def band c)
  then show ?thesis by (simp only: letter_of_def band)
qed

lemma tree_keys_eqI:
  assumes "\<And>m s. (m, s) \<in> set (tree_findings a) \<Longrightarrow> P (m, s) \<Longrightarrow> \<exists>t. (m, t) \<in> set (tree_findings b) \<and> P (m, t) \<and> s_ID t = s_ID s"
    and "\<And>m t. (m, t) \<in> set (tree_findings b) \<Longrightarrow> P (m, t) \<Longrightarrow> \<exists>s. (m, s) \<in> set (tree_findings a) \<and> P (m, s) \<and> s_ID s = s_ID t"
  shows "length (tree_keys P a) = length (tree_keys P b)"
proof -
  have "set (tree_keys P a) = set (tree_keys P b)"
    unfolding set_tree_keys using assms by (safe; metis)
  then show ?thesis by (simp add: length_tree_keys)
qed

definition moved_row :: "row \<Rightarrow> row \<Rightarrow> bool" where
  "moved_row r q = (list_all2 moved (row_scored r) (row_scored q) \<and> r_Module q = r_Module r \<and> r_Self q = r_Self r
     \<and> r_TestOnly q = r_TestOnly r \<and> r_InBuild q = r_InBuild r \<and> r_Upkeep q = r_Upkeep r)"

lemma moved_row_band: "moved_row r q \<Longrightarrow> same_band_row r q"
  by (auto simp: same_band_row_def moved_row_def row_value_def bandOf_max row_vuln_def moved_band upkeep_value_def
      isArchivedOrDeprecated_def)

lemma moved_tree_finding:
  assumes l: "list_all2 moved_row (all_rows a) (all_rows b)"
  shows "(m, s) \<in> set (tree_findings a) \<Longrightarrow> \<exists>t. (m, t) \<in> set (tree_findings b) \<and> moved s t"
    and "(m, t) \<in> set (tree_findings b) \<Longrightarrow> \<exists>s. (m, s) \<in> set (tree_findings a) \<and> moved s t"
proof -
  assume "(m, s) \<in> set (tree_findings a)"
  then obtain r where r: "r \<in> set (all_rows a)" "\<not> isConfirmed (r_TestOnly r)" "s \<in> set (row_scored r)" "m = r_Module r"
    by (rule tree_finding_row)
  obtain q where q: "q \<in> set (all_rows b)" "moved_row r q" using list_all2_elem1 [OF l r(1)] by blast
  obtain t where "t \<in> set (row_scored q)" "moved s t"
    using q(2) list_all2_elem1 [of moved, OF _ r(3)] by (auto simp: moved_row_def)
  then show "\<exists>t. (m, t) \<in> set (tree_findings b) \<and> moved s t"
    unfolding tree_findings_rows using q r by (intro exI [of _ t]) (auto simp: moved_row_def simp del: list.set)
next
  assume "(m, t) \<in> set (tree_findings b)"
  then obtain q where q: "q \<in> set (all_rows b)" "\<not> isConfirmed (r_TestOnly q)" "t \<in> set (row_scored q)" "m = r_Module q"
    by (rule tree_finding_row)
  obtain r where r: "r \<in> set (all_rows a)" "moved_row r q" using list_all2_elem2 [OF l q(1)] by blast
  obtain s where "s \<in> set (row_scored r)" "moved s t"
    using r(2) list_all2_elem2 [of moved, OF _ q(3)] by (auto simp: moved_row_def)
  then show "\<exists>s. (m, s) \<in> set (tree_findings a) \<and> moved s t"
    unfolding tree_findings_rows using q r by (intro exI [of _ s]) (auto simp: moved_row_def simp del: list.set)
qed

text \<open>A finding that moves is neither high nor critical, so the tree rules count the same findings.\<close>

lemma moved_hc: "moved s t \<Longrightarrow> called_hc (m, s) = called_hc (m, t) \<and> reached_hc (m, s) = reached_hc (m, t) \<and> s_ID t = s_ID s"
  by (auto simp: moved_def called_hc_def reached_hc_def mild_def highOrCritical_def)

lemma moved_tree_value:
  assumes l: "list_all2 moved_row (all_rows a) (all_rows b)" and "i_ChecksumMismatch b = i_ChecksumMismatch a"
  shows "tree_value b = tree_value a"
proof -
  have "length (tree_keys P a) = length (tree_keys P b)" if P: "\<And>s t m. moved s t \<Longrightarrow> P (m, s) = P (m, t)" for P
  proof (rule tree_keys_eqI)
    fix m s assume s: "(m, s) \<in> set (tree_findings a)" "P (m, s)"
    obtain t where "(m, t) \<in> set (tree_findings b)" "moved s t" using moved_tree_finding(1) [OF l s(1)] by blast
    then show "\<exists>t. (m, t) \<in> set (tree_findings b) \<and> P (m, t) \<and> s_ID t = s_ID s"
      using P [of s t m] s(2) by (intro exI [of _ t]) (simp add: moved_def)
  next
    fix m t assume t: "(m, t) \<in> set (tree_findings b)" "P (m, t)"
    obtain s where "(m, s) \<in> set (tree_findings a)" "moved s t" using moved_tree_finding(2) [OF l t(1)] by blast
    then show "\<exists>s. (m, s) \<in> set (tree_findings a) \<and> P (m, s) \<and> s_ID s = s_ID t"
      using P [of s t m] t(2) by (intro exI [of _ s]) (simp add: moved_def)
  qed
  then have "length (tree_keys called_hc a) = length (tree_keys called_hc b)"
      "length (tree_keys reached_hc a) = length (tree_keys reached_hc b)"
    using moved_hc by blast+
  then show ?thesis by (simp only: tree_value_def assms(2))
qed

lemma called_later_same:
  assumes "called_later a b"
  shows "i_Self b = i_Self a" "i_Checks b = i_Checks a" "i_ChecksumMismatch b = i_ChecksumMismatch a"
proof -
  have b: "b = a\<lparr>i_Deps := i_Deps b\<rparr>" using assms by (simp add: called_later_def)
  show "i_Self b = i_Self a" "i_Checks b = i_Checks a" "i_ChecksumMismatch b = i_ChecksumMismatch a"
    by (subst b, simp)+
qed

lemma called_later_letter:
  assumes no: "\<not> fst (CalledPassCanChangeLetter imported)" and sc: "scanned imported a" and ab: "called_later a b"
  shows "letter_of b = letter_of a"
proof -
  have "r_Self (i_Self a)" using sc by (simp add: scanned_def)
  then have "moved s s" if "s \<in> set (row_scored (i_Self a))" for s
    using that by (auto simp: moved_def row_scored_def scoreFinding_tier tierOf_def)
  then have self: "moved_row (i_Self a) (i_Self a)"
    by (simp add: moved_row_def list_all2_same)
  have "list_all2 called_row (i_Deps a) (i_Deps b)" using ab by (simp add: called_later_def)
  then have "list_all2 moved_row (i_Deps a) (i_Deps b)"
    by (rule list.rel_mono_strong) (simp add: moved_row_def called_row_moved [OF no sc] called_row_same)
  then have l: "list_all2 moved_row (all_rows a) (all_rows b)" by (simp add: called_later_same [OF ab] self)
  show ?thesis
    by (rule same_band_letter [OF list_all2_mono [OF l moved_row_band] moved_tree_value [OF l]])
      (simp_all add: called_later_same [OF ab])
qed

lemma unlinked_ids: "list_all2 (\<lambda>f g. f_ID g = f_ID f \<and> f_Aliases g = f_Aliases f) fs gs \<Longrightarrow> unlinked fs \<Longrightarrow> unlinked gs"
proof -
  assume l: "list_all2 (\<lambda>f g. f_ID g = f_ID f \<and> f_Aliases g = f_Aliases f) fs gs" and u: "unlinked fs"
  have "ids_of (gs ! i) = ids_of (fs ! i)" if "i < length fs" for i
    using list_all2_nthD [OF l that] by (simp add: ids_of_def)
  then have "carries gs i key = carries fs i key" for i key
    using list_all2_lengthD [OF l] by (auto simp: carries_def)
  then show ?thesis using u by (simp add: unlinked_def linked_def)
qed

lemma called_later_merged: "called_later a b \<Longrightarrow> merged_ok a \<Longrightarrow> merged_ok b"
proof -
  assume ab: "called_later a b" and ok: "merged_ok a"
  have "unlinked (r_Findings q)" if q: "q \<in> set (i_Deps b)" for q
  proof -
    obtain r where r: "r \<in> set (i_Deps a)" "called_row r q"
      using list_all2_elem2 [OF _ q, of called_row "i_Deps a"] ab unfolding called_later_def by blast
    have "list_all2 called_finding (r_Findings r) (r_Findings q)" using r(2) by (simp add: called_row_def)
    then have "list_all2 (\<lambda>f g. f_ID g = f_ID f \<and> f_Aliases g = f_Aliases f) (r_Findings r) (r_Findings q)"
      by (rule list_all2_mono) (auto simp: called_finding_def)
    then show ?thesis using ok r(1) by (auto simp: merged_ok_def intro: unlinked_ids)
  qed
  then show ?thesis using ok called_later_same [OF ab] by (auto simp: merged_ok_def)
qed

end
