(* ===== verification/Grade_Props.thy ===== *)
theory Grade_Props
  imports Grade_Order Grade_Unread Called_Pass
begin

text \<open>
  The properties of \<open>pkg/grade\<close>, each with a witness where it has hypotheses. The concrete inputs of
  the witnesses are a module \<open>app\<close> with a few dependencies; its Go versions are compared by a function
  that knows no version.
\<close>

section \<open>The result of Grade in closed form\<close>

lemma merged_withs:
  "merged_ok m \<Longrightarrow> mergedInput (withEstimatedSeverity m s) = withEstimatedSeverity m s"
  "merged_ok m \<Longrightarrow> mergedInput (withLookupSeverity m s) = withLookupSeverity m s"
proof -
  have u: "unlinked (map (\<lambda>f. if P f then f\<lparr>f_Severity := s\<rparr> else f) fs) = unlinked fs" for P fs
  proof -
    have "ids_of (map (\<lambda>f. if P f then f\<lparr>f_Severity := s\<rparr> else f) fs ! i) = ids_of (fs ! i)" if "i < length fs" for i
      using that by (simp add: ids_of_def)
    then have "carries (map (\<lambda>f. if P f then f\<lparr>f_Severity := s\<rparr> else f) fs) i key = carries fs i key" for i key
      by (auto simp: carries_def)
    then show ?thesis by (simp add: unlinked_def linked_def)
  qed
  assume ok: "merged_ok m"
  show "mergedInput (withEstimatedSeverity m s) = withEstimatedSeverity m s"
    by (rule mergedInput_merged) (use ok in \<open>auto simp: merged_ok_def withEstimatedSeverity_def map_findings_def u\<close>)
  show "mergedInput (withLookupSeverity m s) = withLookupSeverity m s"
    by (rule mergedInput_merged) (use ok in \<open>auto simp: merged_ok_def withLookupSeverity_def map_findings_def u\<close>)
qed

definition lookup_settled :: "grade_input \<Rightarrow> bool" where
  "lookup_settled m = (\<not> list_ex f_SeverityLookupFailed (all_findings m)
     \<or> letter_of (withLookupSeverity m ''LOW'') = letter_of m \<and> letter_of (withLookupSeverity m ''CRITICAL'') = letter_of m)"

definition estimate_settled :: "grade_input \<Rightarrow> bool" where
  "estimate_settled m = (\<not> hasEstimatedSeverity m
     \<or> letter_of (withEstimatedSeverity m ''LOW'') = letter_of m \<and> letter_of (withEstimatedSeverity m ''CRITICAL'') = letter_of m)"

lemma severityLookupPending_None:
  assumes "m = mergedInput inp"
  shows "severityLookupPending sv clock m (gradeOnce sv c m) = None \<longleftrightarrow> lookup_settled m"
proof -
  have ok: "merged_ok m" by (simp add: assms merged_ok_mergedInput)
  have "map f_ID (filter f_SeverityLookupFailed (all_findings m)) = [] \<longleftrightarrow> \<not> list_ex f_SeverityLookupFailed (all_findings m)"
    by (auto simp: filter_empty_conv list_ex_iff)
  then show ?thesis
    unfolding severityLookupPending_def Let_def lookup_settled_def gradeOnce_Letter merged_withs(2) [OF ok] mergedInput_merged [OF ok]
    by auto
qed

lemma Grade_result:
  assumes "m = mergedInput inp"
  shows "g_Pending (Grade sv clock (Some inp)) = None \<longleftrightarrow> \<not> pending_cond m (total_value m) \<and> lookup_settled m"
    and "g_Pending (Grade sv clock (Some inp)) = None \<Longrightarrow> g_Letter (Grade sv clock (Some inp)) = letter_of m"
    and "g_Pending (Grade sv clock (Some inp)) = None \<Longrightarrow> g_Score (Grade sv clock (Some inp)) = total_value m"
    and "g_Estimated (Grade sv clock (Some inp)) \<longleftrightarrow>
      g_Pending (Grade sv clock (Some inp)) = None \<and> \<not> estimate_settled m"
    and "g_Pending (Grade sv clock (Some inp)) \<noteq> None \<Longrightarrow> g_Letter (Grade sv clock (Some inp)) = LetterNone
      \<and> g_Score (Grade sv clock (Some inp)) = 0 \<and> g_Deciding (Grade sv clock (Some inp)) = None"
    and "g_Rows (Grade sv clock (Some inp)) = grade_rows sv (mergedInput (with_now (clock 0) m))"
proof -
  have mm: "mergedInput m = m" by (simp add: assms mergedInput_idem)
  have ok: "merged_ok m" by (simp add: assms merged_ok_mergedInput)
  let ?o = "gradeOnce sv (clock 0) m"
  have p: "g_Pending ?o = None \<longleftrightarrow> \<not> pending_cond m (total_value m)" by (simp only: gradeOnce_Pending mm)
  have s: "severityLookupPending sv clock m ?o = None \<longleftrightarrow> lookup_settled m"
    by (rule severityLookupPending_None [OF assms])
  have l: "g_Letter (gradeOnce sv c m) = letter_of m" "g_Letter (gradeOnce sv c (withEstimatedSeverity m x)) = letter_of (withEstimatedSeverity m x)" for c x
    by (simp_all only: gradeOnce_Letter mm merged_withs [OF ok])
  have sc: "g_Score ?o = (if pending_cond m (total_value m) then 0 else total_value m)" by (simp only: gradeOnce_Score mm)
  have e: "g_Estimated ?o = False" "g_Pending ?o \<noteq> None \<Longrightarrow> g_Deciding ?o = None"
    by (auto simp: gradeOnce_def Let_def split_beta split: if_splits)
  have r: "g_Rows ?o = grade_rows sv (mergedInput (with_now (clock 0) m))" by (rule gradeOnce_Rows)
  have G: "Grade sv clock (Some inp) =
     (if g_Pending ?o \<noteq> None then ?o
      else (case severityLookupPending sv clock m ?o of
             Some p \<Rightarrow> ?o\<lparr>g_Pending := Some p, g_Letter := LetterNone, g_Deciding := None, g_Score := 0, g_Estimated := False\<rparr>
           | None \<Rightarrow> if estimate_settled m then ?o else ?o\<lparr>g_Estimated := True\<rparr>))"
    unfolding Grade_def Let_def option.case assms [symmetric] l estimate_settled_def by (auto split: option.split)
  show "g_Pending (Grade sv clock (Some inp)) = None \<longleftrightarrow> \<not> pending_cond m (total_value m) \<and> lookup_settled m"
    unfolding G s [symmetric] p [symmetric] by (auto split: option.split)
  show "g_Pending (Grade sv clock (Some inp)) = None \<Longrightarrow> g_Letter (Grade sv clock (Some inp)) = letter_of m"
    unfolding G using l(1) by (auto split: option.splits if_splits)
  show "g_Pending (Grade sv clock (Some inp)) = None \<Longrightarrow> g_Score (Grade sv clock (Some inp)) = total_value m"
    unfolding G using sc p by (auto split: option.splits if_splits)
  show "g_Estimated (Grade sv clock (Some inp)) \<longleftrightarrow> g_Pending (Grade sv clock (Some inp)) = None \<and> \<not> estimate_settled m"
    unfolding G using e by (auto split: option.split)
  show "g_Pending (Grade sv clock (Some inp)) \<noteq> None \<Longrightarrow> g_Letter (Grade sv clock (Some inp)) = LetterNone
      \<and> g_Score (Grade sv clock (Some inp)) = 0 \<and> g_Deciding (Grade sv clock (Some inp)) = None"
    unfolding G using l(1) [of "clock 0"] sc p e by (auto simp: letter_of_def split: option.splits if_splits)
  show "g_Rows (Grade sv clock (Some inp)) = grade_rows sv (mergedInput (with_now (clock 0) m))"
    unfolding G using r by (auto split: option.split)
qed

section \<open>Concrete inputs\<close>

definition ex_sv :: semver_api where
  "ex_sv = \<lparr>sv_IsValid = (\<lambda>_. False), sv_Compare = (\<lambda>_ _. 0)\<rparr>"

definition ex_clock :: "nat \<Rightarrow> gotime" where
  "ex_clock k = \<lparr>t_ns = 1700000000000000000 + int k, t_off = 0\<rparr>"

definition ex_finding :: "string \<Rightarrow> string \<Rightarrow> string \<Rightarrow> finding" where
  "ex_finding advisory sev reach = zero_finding\<lparr>f_ID := advisory, f_Severity := sev, f_Reachability := reach\<rparr>"

definition ex_dep :: "string \<Rightarrow> finding list \<Rightarrow> row" where
  "ex_dep m fs = zero_row\<lparr>r_Module := m, r_Direct := True, r_Findings := fs\<rparr>"

definition ex_input :: "row list \<Rightarrow> grade_input" where
  "ex_input ds = zero_input\<lparr>i_Self := zero_row\<lparr>r_Module := ''app'', r_Self := True\<rparr>, i_Deps := ds\<rparr>"

lemma ex_merged: "\<forall>d\<in>set ds. length (r_Findings d) < 2 \<Longrightarrow> mergedInput (ex_input ds) = ex_input ds"
proof -
  assume "\<forall>d\<in>set ds. length (r_Findings d) < 2"
  then have "map (\<lambda>d. d\<lparr>r_Findings := mergeAdvisories (r_Findings d)\<rparr>) ds = ds"
    by (intro map_idI) (simp add: mergeAdvisories_def)
  then show ?thesis
    by (simp add: mergedInput_def map_findings_def ex_input_def zero_row_def) (simp add: mergeAdvisories_def)
qed

definition ex_unknown :: grade_input where
  "ex_unknown = ex_input [ex_dep ''a'' [ex_finding ''GO-1'' ''CRITICAL'' ''called''], ex_dep ''b'' [ex_finding ''GO-2'' '''' ''imported'']]"

definition ex_known :: grade_input where
  "ex_known = ex_input [ex_dep ''a'' [ex_finding ''GO-1'' ''CRITICAL'' ''called''], ex_dep ''b'' [ex_finding ''GO-2'' ''HIGH'' ''imported'']]"

lemma ex_unknown_merged: "mergedInput ex_unknown = ex_unknown"
  unfolding ex_unknown_def by (rule ex_merged) (simp add: ex_dep_def)

lemma ex_severities: "severityOf '''' = (MEDIUM, True)" "severityOf ''HIGH'' = (HIGH, False)"
  by code_simp+

lemma ex_unknown_settled:
  "\<not> pending_cond ex_unknown (total_value ex_unknown)" "lookup_settled ex_unknown" "estimate_settled ex_unknown"
  by code_simp+

section \<open>Unknown severities\<close>

lemma resevered_merged:
  assumes "resevered P Q a b" and ok: "merged_ok a"
  shows "mergedInput b = b"
proof (rule mergedInput_merged)
  have l: "list_all2 (resev_row P Q) (all_rows a) (all_rows b)" using assms(1) by (simp add: resevered_def)
  have "unlinked (r_Findings q)" if q: "q \<in> set (all_rows b)" for q
  proof -
    obtain r where r: "r \<in> set (all_rows a)" "resev_row P Q r q" using list_all2_elem2 [OF l q] by blast
    then have "list_all2 (resev_finding P Q) (r_Findings r) (r_Findings q)" by (simp add: resev_row_def)
    then have "list_all2 (\<lambda>f g. f_ID g = f_ID f \<and> f_Aliases g = f_Aliases f) (r_Findings r) (r_Findings q)"
    proof (rule list_all2_mono)
      fix f g assume "resev_finding P Q f g"
      then have "g = f\<lparr>f_Severity := f_Severity g\<rparr>" by (auto simp: resev_finding_def split: if_splits)
      then show "f_ID g = f_ID f \<and> f_Aliases g = f_Aliases f" by (metis finding.select_convs finding.surjective finding.update_convs(5))
    qed
    then show ?thesis using ok r(1) by (auto simp: merged_ok_def intro: unlinked_ids)
  qed
  then show "merged_ok b" by (simp add: merged_ok_def)
qed

lemma resevered_letter:
  assumes np: "\<not> pending_cond m (total_value m)" and ok: "merged_ok m" and x: "resevered P Q m x"
    and ends: "letter_of (set_severity P ''LOW'' m) = letter_of m" "letter_of (set_severity P ''CRITICAL'' m) = letter_of m"
  shows "g_Letter (gradeOnce sv c x) = letter_of m"
proof -
  have "letter_of m \<noteq> LetterNone" using np by (simp add: letter_of_def)
  then have "letter_of x = letter_of m"
    using letter_sandwich [OF resevered_between [OF x]] ends by blast
  then show ?thesis by (simp only: gradeOnce_Letter resevered_merged [OF x ok])
qed

lemma resevered_none:
  assumes "\<not> list_ex P (all_findings m)" and "resevered P Q m x"
  shows "x = m"
proof -
  obtain s ds where x: "x = m\<lparr>i_Self := s, i_Deps := ds\<rparr>" using assms(2) unfolding resevered_def by blast
  have l: "list_all2 (resev_row P Q) (all_rows m) (all_rows x)" using assms(2) by (simp add: resevered_def)
  have "list_all2 (=) (all_rows m) (all_rows x)"
    using l
  proof (rule list.rel_mono_strong)
    fix r q assume r: "r \<in> set (all_rows m)" and rq: "resev_row P Q r q"
    have "list_all2 (=) (r_Findings r) (r_Findings q)"
    proof (rule list.rel_mono_strong)
      show "list_all2 (resev_finding P Q) (r_Findings r) (r_Findings q)" using rq by (simp add: resev_row_def)
      fix f g assume "f \<in> set (r_Findings r)" and fg: "resev_finding P Q f g"
      then have "f \<in> set (all_findings m)" using r by (auto simp: all_findings_def)
      then have "\<not> P f" using assms(1) by (simp add: list_ex_iff)
      then show "f = g" using fg by (simp add: resev_finding_def)
    qed
    then have "r_Findings q = r_Findings r" by (simp add: list.rel_eq)
    moreover have "q = r\<lparr>r_Findings := r_Findings q\<rparr>" using rq by (simp add: resev_row_def)
    ultimately show "r = q" by simp
  qed
  then show ?thesis by (simp add: x list.rel_eq)
qed

text \<open>C1: A grade that is neither Pending nor marked as estimated does not depend on the severities that
  are not published yet: in the input as the grade sees it (aliases merged), any severities whatsoever for
  the findings whose severity is unknown give the same letter.\<close>

theorem grade_unknown_severities_sound:
  assumes "g_Pending (Grade sv clock (Some inp)) = None" and "\<not> g_Estimated (Grade sv clock (Some inp))"
    and "resevered (\<lambda>f. snd (severityOf (f_Severity f))) (\<lambda>_. True) (mergedInput inp) x"
  shows "g_Letter (gradeOnce sv now x) = g_Letter (Grade sv clock (Some inp))"
proof -
  let ?m = "mergedInput inp"
  note res = Grade_result [OF refl, of sv clock inp]
  have np: "\<not> pending_cond ?m (total_value ?m)" and es: "estimate_settled ?m" using assms(1,2) res(1,4) by blast+
  have "g_Letter (gradeOnce sv now x) = letter_of ?m"
  proof (cases "hasEstimatedSeverity ?m")
    case True
    then have "letter_of (withEstimatedSeverity ?m ''LOW'') = letter_of ?m" "letter_of (withEstimatedSeverity ?m ''CRITICAL'') = letter_of ?m"
      using es by (simp_all add: estimate_settled_def)
    then show ?thesis
      unfolding set_severity_eqs by (rule resevered_letter [OF np merged_ok_mergedInput assms(3)])
  next
    case False
    then have "x = ?m" using assms(3) unfolding hasEstimatedSeverity_def by (rule resevered_none)
    then show ?thesis by (simp add: gradeOnce_Letter mergedInput_idem)
  qed
  then show ?thesis using res(2) assms(1) by simp
qed

theorem grade_unknown_severities_sound_witness:
  "g_Letter (gradeOnce ex_sv (ex_clock 9) ex_known) = g_Letter (Grade ex_sv ex_clock (Some ex_unknown))"
proof (rule grade_unknown_severities_sound)
  show "g_Pending (Grade ex_sv ex_clock (Some ex_unknown)) = None"
    using Grade_result(1) [OF ex_unknown_merged [symmetric]] ex_unknown_settled by blast
  show "\<not> g_Estimated (Grade ex_sv ex_clock (Some ex_unknown))"
    using Grade_result(4) [OF ex_unknown_merged [symmetric]] ex_unknown_settled by blast
  show "resevered (\<lambda>f. snd (severityOf (f_Severity f))) (\<lambda>_. True) (mergedInput ex_unknown) ex_known"
    unfolding ex_unknown_merged resevered_def
    by (simp add: ex_unknown_def ex_known_def ex_input_def ex_dep_def ex_finding_def resev_row_def resev_finding_def
        zero_row_def ex_severities)
qed

text \<open>C6: A grade that is not Pending does not depend on the severities that could not be looked up: any
  severities for the findings whose lookup failed give the same letter.\<close>

theorem grade_failed_lookups_sound:
  assumes "g_Pending (Grade sv clock (Some inp)) = None"
    and "resevered f_SeverityLookupFailed (\<lambda>_. True) (mergedInput inp) x"
  shows "g_Letter (gradeOnce sv now x) = g_Letter (Grade sv clock (Some inp))"
proof -
  let ?m = "mergedInput inp"
  note res = Grade_result [OF refl, of sv clock inp]
  have np: "\<not> pending_cond ?m (total_value ?m)" and ls: "lookup_settled ?m" using assms(1) res(1) by blast+
  have "g_Letter (gradeOnce sv now x) = letter_of ?m"
  proof (cases "list_ex f_SeverityLookupFailed (all_findings ?m)")
    case True
    then have "letter_of (withLookupSeverity ?m ''LOW'') = letter_of ?m" "letter_of (withLookupSeverity ?m ''CRITICAL'') = letter_of ?m"
      using ls by (simp_all add: lookup_settled_def)
    then show ?thesis
      unfolding set_severity_eqs by (rule resevered_letter [OF np merged_ok_mergedInput assms(2)])
  next
    case False
    then have "x = ?m" using assms(2) by (rule resevered_none)
    then show ?thesis by (simp add: gradeOnce_Letter mergedInput_idem)
  qed
  then show ?thesis using res(2) assms(1) by simp
qed

definition ex_lookup :: grade_input where
  "ex_lookup = ex_input [ex_dep ''a'' [ex_finding ''GO-1'' ''CRITICAL'' ''called''],
     ex_dep ''b'' [(ex_finding ''GO-2'' '''' ''imported'')\<lparr>f_SeverityLookupFailed := True\<rparr>]]"

definition ex_looked_up :: grade_input where
  "ex_looked_up = ex_input [ex_dep ''a'' [ex_finding ''GO-1'' ''CRITICAL'' ''called''],
     ex_dep ''b'' [(ex_finding ''GO-2'' ''HIGH'' ''imported'')\<lparr>f_SeverityLookupFailed := True\<rparr>]]"

lemma ex_lookup_merged: "mergedInput ex_lookup = ex_lookup"
  unfolding ex_lookup_def by (rule ex_merged) (simp add: ex_dep_def)

lemma ex_lookup_settled: "\<not> pending_cond ex_lookup (total_value ex_lookup)" "lookup_settled ex_lookup"
  by code_simp+

theorem grade_failed_lookups_sound_witness:
  "g_Letter (gradeOnce ex_sv (ex_clock 9) ex_looked_up) = g_Letter (Grade ex_sv ex_clock (Some ex_lookup))"
proof (rule grade_failed_lookups_sound)
  show "g_Pending (Grade ex_sv ex_clock (Some ex_lookup)) = None"
    using Grade_result(1) [OF ex_lookup_merged [symmetric]] ex_lookup_settled by blast
  show "resevered f_SeverityLookupFailed (\<lambda>_. True) (mergedInput ex_lookup) ex_looked_up"
    unfolding ex_lookup_merged resevered_def
    by (simp add: ex_lookup_def ex_looked_up_def ex_input_def ex_dep_def ex_finding_def resev_row_def resev_finding_def
        zero_row_def zero_finding_def)
qed

section \<open>Missing upkeep data\<close>

lemma upkeep_revealed_merged:
  assumes "upkeep_revealed a b"
  shows "upkeep_revealed (mergedInput a) (mergedInput b)"
proof -
  obtain s ds where b: "b = a\<lparr>i_Self := s, i_Deps := ds\<rparr>" using assms unfolding upkeep_revealed_def by blast
  have rev: "revealed (r\<lparr>r_Findings := mergeAdvisories (r_Findings r)\<rparr>) (q\<lparr>r_Findings := mergeAdvisories (r_Findings q)\<rparr>)"
    if "revealed r q" for r q
  proof (cases "q = r")
    case True
    then show ?thesis by (simp add: revealed_def)
  next
    case False
    then obtain u where q: "q = r\<lparr>r_Upkeep := u\<rparr>" using \<open>revealed r q\<close> unfolding revealed_def by blast
    show ?thesis using \<open>revealed r q\<close> False unfolding q by (simp add: revealed_def isArchivedOrDeprecated_def)
  qed
  have "list_all2 revealed (all_rows a) (all_rows b)" using assms by (simp add: upkeep_revealed_def)
  then show ?thesis
    unfolding upkeep_revealed_def mergedInput_def map_findings_def b
    by (simp add: list_all2_map1 list_all2_map2 rev) (auto elim!: list.rel_mono_strong intro: rev)
qed

lemma deps_not_self_merged: "\<forall>r\<in>set (i_Deps a). \<not> r_Self r \<Longrightarrow> \<forall>r\<in>set (i_Deps (mergedInput a)). \<not> r_Self r"
  by (simp add: mergedInput_def map_findings_def)

text \<open>C5: A grade that is not Pending does not depend on the upkeep data that was missing: whatever the
  missing data of the module and of any dependency turns out to be (archived, deprecated, retracted, or
  none of them), the letter is the same.\<close>

theorem grade_missing_upkeep_sound:
  assumes "g_Pending (Grade sv clock (Some inp)) = None" and "\<forall>r\<in>set (i_Deps inp). \<not> r_Self r"
    and "upkeep_revealed inp x"
  shows "g_Letter (gradeOnce sv now x) = g_Letter (Grade sv clock (Some inp))"
proof -
  have np: "\<not> pending_cond (mergedInput inp) (total_value (mergedInput inp))" using assms(1) Grade_result(1) [OF refl] by blast
  have "letter_of (mergedInput x) = letter_of (mergedInput inp)"
    by (rule upkeep_revealed_letter [OF np upkeep_revealed_merged [OF assms(3)] deps_not_self_merged [OF assms(2)]])
  then show ?thesis using Grade_result(2) [OF refl assms(1)] by (simp only: gradeOnce_Letter)
qed

definition ex_missing :: grade_input where
  "ex_missing = ex_input [ex_dep ''a'' [ex_finding ''GO-1'' ''HIGH'' ''imported''],
     (ex_dep ''b'' [])\<lparr>r_Upkeep := zero_upkeep\<lparr>u_Missing := True, u_ArchivedUnread := True\<rparr>\<rparr>]"

lemma ex_missing_merged: "mergedInput ex_missing = ex_missing"
  unfolding ex_missing_def by (rule ex_merged) (simp add: ex_dep_def)

lemma ex_missing_settled: "\<not> pending_cond ex_missing (total_value ex_missing)" "lookup_settled ex_missing" "total_value ex_missing = 49"
  by code_simp+

lemma ex_missing_Pending: "g_Pending (Grade ex_sv ex_clock (Some ex_missing)) = None"
  using Grade_result(1) [OF ex_missing_merged [symmetric]] ex_missing_settled by blast

theorem grade_missing_upkeep_sound_witness:
  "g_Letter (gradeOnce ex_sv (ex_clock 9) (ex_input [ex_dep ''a'' [ex_finding ''GO-1'' ''HIGH'' ''imported''],
     (ex_dep ''b'' [])\<lparr>r_Upkeep := zero_upkeep\<lparr>u_Archived := True\<rparr>\<rparr>])) = g_Letter (Grade ex_sv ex_clock (Some ex_missing))"
proof (rule grade_missing_upkeep_sound [OF ex_missing_Pending])
  show "\<forall>r\<in>set (i_Deps ex_missing). \<not> r_Self r" by (simp add: ex_missing_def ex_input_def ex_dep_def zero_row_def)
  show "upkeep_revealed ex_missing (ex_input [ex_dep ''a'' [ex_finding ''GO-1'' ''HIGH'' ''imported''],
     (ex_dep ''b'' [])\<lparr>r_Upkeep := zero_upkeep\<lparr>u_Archived := True\<rparr>\<rparr>])"
    by (simp add: ex_missing_def ex_input_def ex_dep_def upkeep_revealed_def revealed_def isArchivedOrDeprecated_def
        zero_upkeep_def zero_row_def)
qed

lemma flags_read_merged:
  assumes "flags_read a b"
  shows "flags_read (mergedInput a) (mergedInput b)"
proof -
  obtain ds where b: "b = a\<lparr>i_Deps := ds\<rparr>" using assms unfolding flags_read_def by blast
  have rev: "flag_read (r\<lparr>r_Findings := mergeAdvisories (r_Findings r)\<rparr>) (q\<lparr>r_Findings := mergeAdvisories (r_Findings q)\<rparr>)"
    if rq: "flag_read r q" for r q
    using rq unfolding flag_read_def by (elim disjE conjE) simp_all
  have "list_all2 flag_read (i_Deps a) (i_Deps b)" using assms by (simp add: flags_read_def)
  then show ?thesis
    unfolding flags_read_def mergedInput_def map_findings_def b
    by (simp add: list_all2_map1 list_all2_map2) (auto elim!: list.rel_mono_strong intro: rev)
qed

lemma unread_of_Grade:
  assumes "g_Pending (Grade sv clock (Some inp)) = None"
  shows "g_ArchivedUnread (Grade sv clock (Some inp)) = sort_strings (archivedUnreadThatMatters sv
    (mergedInput (with_now (clock 0) (mergedInput inp))) (total_value (mergedInput inp)))"
proof -
  let ?m = "mergedInput inp"
  let ?w = "mergedInput (with_now (clock 0) ?m)"
  have np: "\<not> pending_cond ?m (total_value ?m)" using assms(1) Grade_result(1) [OF refl] by blast
  have ss: "same_scoring ?w ?m" using same_scoring_now [of "clock 0" ?m] by (simp only: mergedInput_idem)
  have "g_ArchivedUnread (Grade sv clock (Some inp)) = g_ArchivedUnread (gradeOnce sv (clock 0) ?m)"
    using assms(1) by (auto simp: Grade_def Let_def split: option.splits if_splits)
  then show ?thesis
    using np pendingFor_None [of ?w] same_scoring_letter [OF ss]
    by (simp add: gradeOnce_def Let_def split_beta tree_decision_score)
qed

text \<open>C14: When a grade is not Pending and lists no module under \<open>ArchivedUnread\<close>, the archived flags that
  could not be read do not matter: whichever of those dependencies are archived, the letter is the same.\<close>

theorem grade_archived_unread_sound:
  assumes "g_Pending (Grade sv clock (Some inp)) = None" and "g_ArchivedUnread (Grade sv clock (Some inp)) = []"
    and "flags_read inp x"
  shows "g_Letter (gradeOnce sv now x) = g_Letter (Grade sv clock (Some inp))"
proof -
  let ?m = "mergedInput inp"
  have np: "\<not> pending_cond ?m (total_value ?m)" using assms(1) Grade_result(1) [OF refl] by blast
  let ?w = "mergedInput (with_now (clock 0) ?m)"
  have ss: "same_scoring ?w ?m" using same_scoring_now [of "clock 0" ?m] by (simp only: mergedInput_idem)
  have "archivedUnreadThatMatters sv ?w (total_value ?m) = []"
    using assms(2) unread_of_Grade [OF assms(1)] by (metis sort_by_Nil_iff sort_strings_def)
  moreover have "archivedUnreadThatMatters sv ?m s = archivedUnreadThatMatters sv ?w s" for s
    using ss by (simp add: archivedUnreadThatMatters_def gradeRow_Score same_scoring_def)
  ultimately have "letter_of (mergedInput x) = letter_of ?m"
    by (intro flags_read_letter [where sv = sv, OF np flags_read_merged [OF assms(3)]]) simp
  then show ?thesis using Grade_result(2) [OF refl assms(1)] by (simp only: gradeOnce_Letter)
qed

theorem grade_archived_unread_sound_witness:
  "g_Letter (gradeOnce ex_sv (ex_clock 9) (ex_input [ex_dep ''a'' [ex_finding ''GO-1'' ''HIGH'' ''imported''],
     (ex_dep ''b'' [])\<lparr>r_Upkeep := zero_upkeep\<lparr>u_Missing := True, u_Archived := True\<rparr>\<rparr>])) = g_Letter (Grade ex_sv ex_clock (Some ex_missing))"
proof (rule grade_archived_unread_sound [OF ex_missing_Pending])
  show "flags_read ex_missing (ex_input [ex_dep ''a'' [ex_finding ''GO-1'' ''HIGH'' ''imported''],
     (ex_dep ''b'' [])\<lparr>r_Upkeep := zero_upkeep\<lparr>u_Missing := True, u_Archived := True\<rparr>\<rparr>])"
    by (simp add: ex_missing_def ex_input_def ex_dep_def flags_read_def flag_read_def zero_upkeep_def zero_row_def)
  have "g_ArchivedUnread (Grade ex_sv ex_clock (Some ex_missing)) = sort_strings (archivedUnreadThatMatters ex_sv
      (mergedInput (with_now (ex_clock 0) ex_missing)) 49)"
    using unread_of_Grade [OF ex_missing_Pending] by (simp only: ex_missing_merged ex_missing_settled)
  also have "archivedUnreadThatMatters ex_sv (mergedInput (with_now (ex_clock 0) ex_missing)) 49
      = archivedUnreadThatMatters ex_sv ex_missing 49"
    using same_scoring_now [of "ex_clock 0" ex_missing] unfolding ex_missing_merged
    by (simp add: archivedUnreadThatMatters_def gradeRow_Score same_scoring_def)
  also have "archivedUnreadThatMatters ex_sv ex_missing 49 = []"
    unfolding archivedUnreadThatMatters_def gradeRow_Score by code_simp
  finally show "g_ArchivedUnread (Grade ex_sv ex_clock (Some ex_missing)) = []" by (simp add: sort_strings_def)
qed

end
