(* ===== verification/Grade_Facts.thy ===== *)
theory Grade_Facts
  imports Grade_Props
begin

text \<open>
  Further properties of \<open>pkg/grade\<close>: the called-pass test, the order of the dependencies, merging, the
  letter against its evidence, Pending, and two places where the code does not do what it says.
\<close>

section \<open>The called pass\<close>

text \<open>C2: When \<open>CalledPassCanChangeLetter\<close> answers no for the imported findings of a scan, then whichever
  of the imported findings of the (merged) dependencies a called pass would report as called, the letter
  is the one without them called.\<close>

theorem called_pass_skip_sound:
  assumes "\<not> fst (CalledPassCanChangeLetter imported)" and "scanned imported (mergedInput inp)"
    and "called_later (mergedInput inp) x"
  shows "g_Letter (gradeOnce sv now x) = g_Letter (gradeOnce sv now' inp)"
proof -
  have "mergedInput x = x"
    by (rule mergedInput_merged) (rule called_later_merged [OF assms(3) merged_ok_mergedInput])
  then show ?thesis
    using called_later_letter [OF assms] by (simp only: gradeOnce_Letter)
qed

lemma answer_iff:
  "fst (CalledPassCanChangeLetter imported) \<longleftrightarrow>
     probed imported \<noteq> [] \<and> (filter v_InKEV (probed imported) \<noteq> []
       \<or> filter (\<lambda>v. snd (severityOf (v_Severity v))) (probed imported) \<noteq> []
       \<or> band_diff imported \<noteq> [] \<or> treeBand (probe_input imported ''imported'') \<noteq> treeBand (probe_input imported ''called''))"
  unfolding CalledPassCanChangeLetter_def Let_def sort_strings_def by simp

definition ex_vuln :: "string \<Rightarrow> string \<Rightarrow> string \<Rightarrow> vulnerability" where
  "ex_vuln advisory sev reach = \<lparr>v_ID = advisory, v_Aliases = [], v_Severity = sev, v_Reachability = reach, v_InKEV = False\<rparr>"

lemma ex_low_answer: "\<not> fst (CalledPassCanChangeLetter [(''a'', [ex_vuln ''GO-1'' ''LOW'' ''imported''])])"
proof -
  let ?scan = "[(''a'', [ex_vuln ''GO-1'' ''LOW'' ''imported''])]"
  have p: "probed ?scan = [ex_vuln ''GO-1'' ''LOW'' ''imported'']" by code_simp
  have m: "probed_modules ?scan = [''a'']" by code_simp
  have s: "severityOf ''LOW'' = (LOW, False)" by code_simp
  have r: "row_vuln (probe_row ''a'' None ''imported'' (vulns_of ?scan ''a'')) = 11"
    "row_vuln (probe_row ''a'' None ''called'' (vulns_of ?scan ''a'')) = 15"
    "row_vuln (probe_row ''a'' (Some True) ''imported'' (vulns_of ?scan ''a'')) = 5"
    "row_vuln (probe_row ''a'' (Some True) ''called'' (vulns_of ?scan ''a'')) = 7"
    by code_simp+
  have t: "treeBand (probe_input ?scan ''imported'') = LetterA" "treeBand (probe_input ?scan ''called'') = LetterA"
    by code_simp+
  have v: "v_Severity (ex_vuln ''GO-1'' ''LOW'' ''imported'') = ''LOW''" "\<not> v_InKEV (ex_vuln ''GO-1'' ''LOW'' ''imported'')"
    by (simp_all add: ex_vuln_def)
  show ?thesis unfolding answer_iff p band_diff_def m rowVulnBand_value by (simp add: r t s v bandOf_def)
qed

lemma ex_merged_1: "mergedInput (ex_input [ex_dep m [f]]) = ex_input [ex_dep m [f]]"
  by (rule ex_merged) (simp add: ex_dep_def)

theorem called_pass_skip_sound_witness:
  "g_Letter (gradeOnce ex_sv (ex_clock 1) (ex_input [ex_dep ''a'' [ex_finding ''GO-1'' ''LOW'' ''called'']]))
     = g_Letter (gradeOnce ex_sv (ex_clock 0) (ex_input [ex_dep ''a'' [ex_finding ''GO-1'' ''LOW'' ''imported'']]))"
proof (rule called_pass_skip_sound [OF ex_low_answer], unfold ex_merged_1)
  show "scanned [(''a'', [ex_vuln ''GO-1'' ''LOW'' ''imported''])] (ex_input [ex_dep ''a'' [ex_finding ''GO-1'' ''LOW'' ''imported'']])"
    by code_simp
  have i: "isImportedFinding (ex_finding ''GO-1'' ''LOW'' ''imported'')" by code_simp
  show "called_later (ex_input [ex_dep ''a'' [ex_finding ''GO-1'' ''LOW'' ''imported'']]) (ex_input [ex_dep ''a'' [ex_finding ''GO-1'' ''LOW'' ''called'']])"
    using i by (simp add: called_later_def ex_input_def called_row_def ex_dep_def called_finding_def ex_finding_def)
qed

definition ex_alias :: "string \<Rightarrow> grade_input" where
  "ex_alias reach = ex_input [ex_dep ''a''
     [(ex_finding ''GO-1'' ''MEDIUM'' reach)\<lparr>f_Aliases := [''C'']\<rparr>, (ex_finding ''GO-2'' ''HIGH'' ''required'')\<lparr>f_Aliases := [''C'']\<rparr>]]"

definition ex_alias_scan :: "(string \<times> vulnerability list) list" where
  "ex_alias_scan = [(''a'', [(ex_vuln ''GO-1'' ''MEDIUM'' ''imported'')\<lparr>v_Aliases := [''C'']\<rparr>,
     (ex_vuln ''GO-2'' ''HIGH'' ''required'')\<lparr>v_Aliases := [''C'']\<rparr>])]"

text \<open>The promise of the test does not reach findings that are merged: it answers no for a scan with an
  imported medium advisory and a required-only high alias of it, but after merging the imported finding is
  a high one, and a called pass would move the letter from C to D.\<close>

theorem called_pass_skip_misses_aliases:
  "\<not> fst (CalledPassCanChangeLetter ex_alias_scan)
   \<and> g_Letter (gradeOnce sv now (ex_alias ''imported'')) = LetterC
   \<and> g_Letter (gradeOnce sv now (ex_alias ''called'')) = LetterD"
proof (intro conjI)
  have p: "map v_Severity (probed ex_alias_scan) = [''MEDIUM'']" "map v_InKEV (probed ex_alias_scan) = [False]" by code_simp+
  then obtain v where v: "probed ex_alias_scan = [v]" "v_Severity v = ''MEDIUM''" "\<not> v_InKEV v"
    by (cases "probed ex_alias_scan") auto
  have m: "probed_modules ex_alias_scan = [''a'']" by code_simp
  have s: "severityOf ''MEDIUM'' = (MEDIUM, False)" by code_simp
  have r: "row_vuln (probe_row ''a'' None ''imported'' (vulns_of ex_alias_scan ''a'')) = 32"
    "row_vuln (probe_row ''a'' None ''called'' (vulns_of ex_alias_scan ''a'')) = 45"
    "row_vuln (probe_row ''a'' (Some True) ''imported'' (vulns_of ex_alias_scan ''a'')) = 16"
    "row_vuln (probe_row ''a'' (Some True) ''called'' (vulns_of ex_alias_scan ''a'')) = 22"
    by code_simp+
  have t: "treeBand (probe_input ex_alias_scan ''imported'') = LetterA" "treeBand (probe_input ex_alias_scan ''called'') = LetterA"
    by code_simp+
  show "\<not> fst (CalledPassCanChangeLetter ex_alias_scan)"
    by (simp add: answer_iff v band_diff_def m rowVulnBand_value r t s bandOf_def)
  show "g_Letter (gradeOnce sv now (ex_alias ''imported'')) = LetterC"
    unfolding gradeOnce_Letter by code_simp
  show "g_Letter (gradeOnce sv now (ex_alias ''called'')) = LetterD"
    unfolding gradeOnce_Letter by code_simp
qed

section \<open>Order and merging\<close>

text \<open>C21: The whole result of \<open>Grade\<close> (letter, rows, deciding row, notes, Pending) is independent of the
  order of the dependencies, when rows have different modules and findings have IDs.\<close>

theorem grade_order_independent:
  assumes "reordered a b" and "row_keys_differ a" and "ids_given a"
  shows "Grade sv clock (Some b) = Grade sv clock (Some a)"
  by (rule reordered_Grade [OF assms])

theorem grade_order_independent_witness:
  "Grade ex_sv ex_clock (Some (ex_input [ex_dep ''b'' [], ex_dep ''a'' [ex_finding ''GO-1'' ''LOW'' ''called'']]))
     = Grade ex_sv ex_clock (Some (ex_input [ex_dep ''a'' [ex_finding ''GO-1'' ''LOW'' ''called''], ex_dep ''b'' []]))"
  by (rule grade_order_independent)
    (simp_all add: reordered_def row_keys_differ_def ids_given_def all_findings_def ex_input_def ex_dep_def ex_finding_def
      zero_row_def zero_finding_def)

definition leaders :: "finding list \<Rightarrow> nat list" where
  "leaders fs = filter (\<lambda>i. filter (connected fs i) [0..<i] = []) [0..<length fs]"

lemma firsts_leaders:
  assumes r: "\<And>i j. i < length fs \<Longrightarrow> j < length fs \<Longrightarrow> r i = r j \<longleftrightarrow> connected fs i j"
  shows "m \<le> length fs \<Longrightarrow> firsts r m = map r (filter (\<lambda>i. filter (connected fs i) [0..<i] = []) [0..<m])"
proof (induction m)
  case 0
  then show ?case by simp
next
  case (Suc m)
  have "r m \<in> r ` {0..<m} \<longleftrightarrow> filter (connected fs m) [0..<m] \<noteq> []"
    using r Suc.prems by (auto simp: filter_empty_conv image_iff)
  then show ?case using Suc by (auto simp: set_firsts)
qed

text \<open>C20: The groups of \<open>mergeAdvisories\<close> are the connected components of "shares an identifier": the
  result has one merged finding for each finding that is connected to no earlier one, in that order, and it
  merges exactly the findings connected to it.\<close>

theorem merge_groups_are_components:
  "mergeAdvisories fs = map (\<lambda>i. mergeGroup fs (filter (connected fs i) [0..<length fs])) (leaders fs)"
proof -
  obtain r where r: "\<And>i j. i < length fs \<Longrightarrow> j < length fs \<Longrightarrow> r i = r j \<longleftrightarrow> connected fs i j"
    and m: "mergeAdvisories fs = map (\<lambda>x. mergeGroup fs (filter (\<lambda>i. r i = x) [0..<length fs])) (firsts r (length fs))"
    using mergeAdvisories_classes by blast
  have f: "firsts r (length fs) = map r (leaders fs)"
    unfolding leaders_def by (rule firsts_leaders [OF r]) simp_all
  have "filter (\<lambda>i. r i = r j) [0..<length fs] = filter (connected fs j) [0..<length fs]" if "j < length fs" for j
    using r that connected_sym by (intro filter_cong) auto
  then show ?thesis unfolding m f by (simp add: leaders_def)
qed

text \<open>Merging is idempotent: no two merged findings share an identifier, and merging them again changes
  nothing.\<close>

theorem merge_idempotent:
  "unlinked (mergeAdvisories fs) \<and> mergeAdvisories (mergeAdvisories fs) = mergeAdvisories fs"
  using unlinked_mergeAdvisories mergeAdvisories_unlinked by blast

text \<open>The search for a representative in the union-find of a finding list returns, from every node of
  the parent slice that the build loop leaves, and the node it returns is its own parent.\<close>

theorem merge_find_terminates:
  assumes "uf_build fs = (p, owner)" and "i < length fs"
  shows "\<exists>q x. while_option find_cond find_body (p, i) = Some (q, x) \<and> q ! x = x \<and> length q = length p"
proof -
  obtain p' owner' r d where b: "uf_build fs = (p', owner')" and f: "forest p' r d" "length p' = length fs"
    using uf_build_spec [of fs] by metis
  then have p: "p' = p" using assms(1) by simp
  obtain s where s: "while_option find_cond find_body (p, i) = Some s"
    using uf_find_returns f assms(2) p by metis
  have "\<not> find_cond s" by (rule while_option_stop [OF s])
  moreover have "uf_find p i = s" using s by (simp add: uf_find_def while_def)
  moreover have "length (fst s) = length p"
    using uf_find_spec(2) [of p r d i "fst s" "snd s"] f p assms(2) \<open>uf_find p i = s\<close> by simp
  ultimately show ?thesis using s by (cases s) (auto simp: find_cond_def)
qed

theorem merge_find_terminates_witness:
  "\<exists>q x. while_option find_cond find_body (fst (uf_build [zero_finding, zero_finding]), 1) = Some (q, x) \<and> q ! x = x
     \<and> length q = length (fst (uf_build [zero_finding, zero_finding]))"
  by (rule merge_find_terminates [where fs = "[zero_finding, zero_finding]" and owner = "snd (uf_build [zero_finding, zero_finding])"]) simp_all

text \<open>Merging a group drops the Go version its fix needs when the fix comes from an alias: the
  representative has no fixed version, the alias has one that needs go1.99, and the merged finding has the
  fixed version without that requirement.\<close>

theorem merge_drops_fix_go:
  "\<exists>f. mergeAdvisories [(ex_finding ''GO-1'' '''' '''')\<lparr>f_Aliases := [''C'']\<rparr>,
       (ex_finding ''H'' '''' '''')\<lparr>f_Aliases := [''C''], f_FixedVersion := ''v2'', f_FixRequiresGo := ''1.99''\<rparr>] = [f]
     \<and> f_FixedVersion f = ''v2'' \<and> f_FixRequiresGo f = ''''"
proof -
  let ?fs = "[(ex_finding ''GO-1'' '''' '''')\<lparr>f_Aliases := [''C'']\<rparr>,
       (ex_finding ''H'' '''' '''')\<lparr>f_Aliases := [''C''], f_FixedVersion := ''v2'', f_FixRequiresGo := ''1.99''\<rparr>]"
  have "map f_FixedVersion (mergeAdvisories ?fs) = [''v2'']" by code_simp
  moreover have "map f_FixRequiresGo (mergeAdvisories ?fs) = ['''']" by code_simp
  ultimately show ?thesis by (cases "mergeAdvisories ?fs") auto
qed

section \<open>The letter and its evidence\<close>

text \<open>The vulnerability score of a row is its reference: the worst called table value plus five for
  each further distinct high or critical called advisory, or the worst imported value capped at 50,
  whichever is more, at most 100, at least 76 with a called known-exploited finding, and halved (at most 50)
  for a test-only row.\<close>

theorem vuln_score_reference:
  "fst (vulnScore r (map (\<lambda>f. scoreFinding f r) (r_Findings r)))
     = vuln_value (isConfirmed (r_TestOnly r)) (map (\<lambda>f. scoreFinding f r) (r_Findings r))"
  by (rule vulnScore_value) auto

text \<open>A grade that is not Pending has the band of its score, and the score is the larger of the worst
  row's and the tree rule's.\<close>

theorem grade_letter_is_band:
  assumes "g_Pending (Grade sv clock (Some inp)) = None"
  shows "g_Letter (Grade sv clock (Some inp)) = bandOf (g_Score (Grade sv clock (Some inp)))
    \<and> g_Score (Grade sv clock (Some inp)) = max (tree_value (mergedInput inp)) (rr_Score (hd (g_Rows (Grade sv clock (Some inp)))))"
proof -
  let ?m = "mergedInput inp"
  note res = Grade_result [OF refl, of sv clock inp]
  have np: "\<not> pending_cond ?m (total_value ?m)" using res(1) assms by blast
  have "same_scoring (mergedInput (with_now (clock 0) ?m)) ?m"
    using same_scoring_now [of "clock 0" ?m] by (simp only: mergedInput_idem)
  then have "worst_value (mergedInput (with_now (clock 0) ?m)) = worst_value ?m"
    by (simp add: same_scoring_def worst_value_def)
  then show ?thesis
    using res(2,3) [OF assms] res(6) np by (simp add: letter_of_def hd_grade_rows total_value_def)
qed


theorem grade_letter_is_band_witness:
  "g_Letter (Grade ex_sv ex_clock (Some ex_missing)) = bandOf (g_Score (Grade ex_sv ex_clock (Some ex_missing)))
    \<and> g_Score (Grade ex_sv ex_clock (Some ex_missing)) = max (tree_value (mergedInput ex_missing))
        (rr_Score (hd (g_Rows (Grade ex_sv ex_clock (Some ex_missing)))))"
  by (rule grade_letter_is_band [OF ex_missing_Pending])

text \<open>A grade is Pending exactly when it has no letter, and then it has no score, no deciding row and no
  estimate mark.\<close>

theorem grade_pending_has_no_letter:
  "(g_Pending (Grade sv clock (Some inp)) \<noteq> None) = (g_Letter (Grade sv clock (Some inp)) = LetterNone
     \<and> g_Score (Grade sv clock (Some inp)) = 0 \<and> g_Deciding (Grade sv clock (Some inp)) = None
     \<and> \<not> g_Estimated (Grade sv clock (Some inp)))"
proof (cases "g_Pending (Grade sv clock (Some inp)) = None")
  case True
  note res = Grade_result [OF refl, of sv clock inp]
  have "\<not> pending_cond (mergedInput inp) (total_value (mergedInput inp))" using res(1) True by blast
  then have "g_Letter (Grade sv clock (Some inp)) \<noteq> LetterNone" using res(2) True by (simp add: letter_of_def)
  then show ?thesis using True by simp
next
  case False
  then show ?thesis using Grade_result(4,5) [OF refl, of sv clock inp] by simp
qed

text \<open>A check that did not run leaves no letter: with a failed vulnerability scan, a scan that timed out,
  a stale called pass or a failed lookup of the module's own advisories the grade is Pending, whatever else
  was found.\<close>

theorem failed_check_is_pending:
  assumes "c_VulnScanFailed (i_Checks inp) \<or> c_ScanTimedOut (i_Checks inp) \<or> c_CalledPassStale (i_Checks inp) \<noteq> ''''
    \<or> c_SelfAdvisoriesFailed (i_Checks inp)"
  shows "g_Letter (Grade sv clock (Some inp)) = LetterNone"
proof -
  have "i_Checks (mergedInput inp) = i_Checks inp" by (simp add: mergedInput_def)
  then have "pending_cond (mergedInput inp) (total_value (mergedInput inp))"
    using assms by (auto simp: pending_cond_def Let_def)
  then show ?thesis using Grade_result(1,5) [OF refl, of sv clock inp] by blast
qed

theorem failed_check_is_pending_witness:
  "g_Letter (Grade ex_sv ex_clock (Some (zero_input\<lparr>i_Checks := zero_checks\<lparr>c_ScanTimedOut := True\<rparr>\<rparr>))) = LetterNone"
  by (rule failed_check_is_pending) simp

text \<open>D and F need evidence: a checksum mismatch, a called finding in some row, or five imported high or
  critical advisories outside the tests. Without any of them the letter is at most C.\<close>

theorem no_evidence_at_most_C:
  assumes "\<not> i_ChecksumMismatch inp" and "\<forall>r\<in>set (all_rows (mergedInput inp)). \<forall>s\<in>set (row_scored r). s_tier s \<noteq> TierCalled"
    and "length (tree_keys reached_hc (mergedInput inp)) < 5"
  shows "g_Letter (Grade sv clock (Some inp)) \<le> LetterC"
proof (cases "g_Pending (Grade sv clock (Some inp)) = None")
  case True
  let ?m = "mergedInput inp"
  note res = Grade_result [OF refl, of sv clock inp]
  have "row_value r \<le> 50" if r: "r \<in> set (all_rows ?m)" for r
  proof -
    have "row_vuln r \<le> 50" unfolding row_vuln_def by (rule vuln_value_no_called) (use assms(2) r in blast)
    then show ?thesis using upkeep_value_bounds [of r] by (simp add: row_value_def)
  qed
  then have w: "worst_value ?m \<le> 50" by (rule worst_value_le)
  have "filter called_hc (tree_findings ?m) = []"
    using assms(2) by (auto simp: filter_empty_conv called_hc_def elim!: tree_finding_row)
  then have "tree_keys called_hc ?m = []" by (simp add: tree_keys_def)
  moreover have "i_ChecksumMismatch ?m = i_ChecksumMismatch inp" by (simp add: mergedInput_def)
  ultimately have "tree_value ?m = 0" using assms(1,3) by (simp add: tree_value_def)
  then have "bandOf (total_value ?m) \<le> LetterC"
    using bandOf_mono [of "total_value ?m" 50] w by (simp add: total_value_def bandOf_def less_eq_letter_def)
  then show ?thesis using res(2) [OF True] res(1) True by (simp add: letter_of_def)
next
  case False
  then show ?thesis using Grade_result(5) [OF refl, of sv clock inp] by (simp add: less_eq_letter_def)
qed

theorem no_evidence_at_most_C_witness:
  "g_Letter (Grade ex_sv ex_clock (Some ex_missing)) \<le> LetterC"
proof (rule no_evidence_at_most_C)
  show "\<not> i_ChecksumMismatch ex_missing" by (simp add: ex_missing_def ex_input_def zero_input_def)
  show "\<forall>r\<in>set (all_rows (mergedInput ex_missing)). \<forall>s\<in>set (row_scored r). s_tier s \<noteq> TierCalled"
    unfolding ex_missing_merged by code_simp
  show "length (tree_keys reached_hc (mergedInput ex_missing)) < 5"
    unfolding ex_missing_merged by code_simp
qed

text \<open>Imported code alone can reach D: five modules with one imported high advisory each, and nothing
  called, grade D by the tree rule.\<close>

theorem imported_alone_can_reach_D:
  "g_Letter (gradeOnce sv now (ex_input [ex_dep ''a'' [ex_finding ''1'' ''HIGH'' ''imported''], ex_dep ''b'' [ex_finding ''2'' ''HIGH'' ''imported''],
     ex_dep ''c'' [ex_finding ''3'' ''HIGH'' ''imported''], ex_dep ''d'' [ex_finding ''4'' ''HIGH'' ''imported''],
     ex_dep ''e'' [ex_finding ''5'' ''HIGH'' ''imported'']])) = LetterD"
  unfolding gradeOnce_Letter by (subst ex_merged) (simp add: ex_dep_def, code_simp)

section \<open>Rows\<close>

text \<open>The rows of a grade are the graded module and dependencies, each once, ordered by \<open>row_lt\<close> (score
  first, then \<open>preferVuln\<close>), so no row has a higher score than the first.\<close>

theorem grade_rows_sorted:
  "mset (grade_rows sv inp) = image_mset (\<lambda>r. gradeRow sv r inp) (mset (all_rows inp))
   \<and> sorted_wrt (\<lambda>a b. \<not> row_lt b a) (grade_rows sv inp)
   \<and> rr_Score (hd (grade_rows sv inp)) = Max (row_value ` set (all_rows inp))"
proof (intro conjI)
  show "mset (grade_rows sv inp) = image_mset (\<lambda>r. gradeRow sv r inp) (mset (all_rows inp))"
    unfolding grade_rows_def mset_sort_by by (rule mset_map)
  show "sorted_wrt (\<lambda>a b. \<not> row_lt b a) (grade_rows sv inp)"
    unfolding grade_rows_def by (rule row_order.sorted_sort_by)
  show "rr_Score (hd (grade_rows sv inp)) = Max (row_value ` set (all_rows inp))"
    using hd_grade_rows by (simp only: worst_value_def)
qed

text \<open>A dependency that is not compiled into the build scores nothing for its findings, however severe
  and however reached they are, and at most 10 for its upkeep.\<close>

theorem not_built_scores_nothing:
  assumes "\<not> r_Self r" and "isRefuted (r_InBuild r)"
  shows "rr_VulnScore (gradeRow sv r inp) = 0 \<and> rr_Score (gradeRow sv r inp) \<le> 10"
proof -
  have "row_vuln r = 0"
    unfolding row_vuln_def by (rule vuln_value_graph_only) (auto simp: row_scored_def scoreFinding_tier assms)
  moreover have "upkeep_value r \<le> 10" using assms by (simp add: upkeep_value_def)
  ultimately show ?thesis by (simp add: gradeRow_VulnScore gradeRow_Score row_value_def)
qed

theorem not_built_scores_nothing_witness:
  "rr_VulnScore (gradeRow ex_sv ((ex_dep ''a'' [ex_finding ''1'' ''CRITICAL'' ''called''])\<lparr>r_InBuild := Some False\<rparr>) zero_input) = 0
   \<and> rr_Score (gradeRow ex_sv ((ex_dep ''a'' [ex_finding ''1'' ''CRITICAL'' ''called''])\<lparr>r_InBuild := Some False\<rparr>) zero_input) \<le> 10"
  by (rule not_built_scores_nothing) (simp_all add: ex_dep_def zero_row_def isRefuted_def)

text \<open>Raising the severity of findings never improves the letter.\<close>

theorem grade_monotone_in_severity:
  assumes "isev_le (mergedInput a) (mergedInput b)" and "g_Pending (Grade sv clock (Some b)) = None"
  shows "g_Letter (Grade sv clock (Some a)) \<le> g_Letter (Grade sv clock (Some b))"
proof (cases "g_Pending (Grade sv clock (Some a)) = None")
  case True
  have "bandOf (total_value (mergedInput a)) \<le> bandOf (total_value (mergedInput b))"
    by (rule bandOf_mono [OF isev_le_total [OF assms(1)]])
  then show ?thesis
    using Grade_result(1,2) [OF refl, of sv clock a] Grade_result(1,2) [OF refl, of sv clock b] True assms(2)
    by (simp add: letter_of_def)
next
  case False
  then show ?thesis using Grade_result(5) [OF refl, of sv clock a] by (simp add: less_eq_letter_def)
qed

theorem grade_monotone_in_severity_witness:
  "g_Letter (Grade ex_sv ex_clock (Some ex_missing)) \<le> g_Letter (Grade ex_sv ex_clock (Some ex_missing))"
proof (rule grade_monotone_in_severity [OF _ ex_missing_Pending])
  have "fsev_le f f" for f by (simp add: fsev_le_def)
  then have "rsev_le r r" for r by (simp add: rsev_le_def list_all2_same)
  then show "isev_le (mergedInput ex_missing) (mergedInput ex_missing)" by (simp add: isev_le_def list_all2_same)
qed

end
