(* ===== verification/Go_Float.thy ===== *)
theory Go_Float
  imports Prelude
begin

text \<open>
  The \<open>float64\<close> values of the typosquatting confidence. Every value there is a non-negative multiple of
  2^-55 (the constants 0.15 to 0.7 and their sums), so a value is the integer number of those units; a
  constant and the result of an addition or multiplication are rounded to 53 significant bits, ties to
  even, as IEEE 754 does.
\<close>

type_synonym float64 = int

definition units :: int where "units = 2 ^ 55"

text \<open>
  The bits beyond 53 of a value below 2^65 units (1024): every value here is at most 235 (a confidence
  in percent).
\<close>

definition extra_bits :: "int \<Rightarrow> nat" where
  "extra_bits a = length (takeWhile (\<lambda>k. a \<ge> 2 ^ (53 + k)) [0..<12])"

text \<open>\<open>div_even a b\<close>: the quotient rounded to the nearest integer, ties to the even one.\<close>

definition div_even :: "int \<Rightarrow> int \<Rightarrow> int" where
  "div_even a b =
     (let q = a div b; r = a mod b
      in if 2 * r < b then q else if 2 * r > b then q + 1 else if even q then q else q + 1)"

text \<open>The float nearest to the rational \<open>a / b\<close> units.\<close>

definition round64 :: "int \<Rightarrow> int \<Rightarrow> float64" where
  "round64 a b = (let s = 2 ^ extra_bits (a div b) in div_even a (b * s) * s)"

definition decimal :: "int \<Rightarrow> int \<Rightarrow> float64" where
  "decimal p q = round64 (p * units) q"

definition fadd :: "float64 \<Rightarrow> float64 \<Rightarrow> float64" where
  "fadd a b = round64 (a + b) 1"

definition fscale :: "float64 \<Rightarrow> int \<Rightarrow> float64" where
  "fscale a n = round64 (a * n) 1"

text \<open>\<open>%.0f\<close>: the nearest integer, ties to even.\<close>

definition fmt_f0 :: "float64 \<Rightarrow> string" where
  "fmt_f0 a = itoa (div_even a units)"

text \<open>The constants, and the sum that famously is not 0.3.\<close>

lemma decimal_values:
  "decimal 2 10 = 7205759403792794" "decimal 3 10 = 10808639105689190" "decimal 7 10 = 25220157913274776"
  "decimal 1 1 = units" "fadd (decimal 1 2) (decimal 2 10) = decimal 7 10"
  by (simp_all add: decimal_def fadd_def round64_def units_def extra_bits_def div_even_def Let_def upt_rec)

lemma div_even_nonneg: "0 \<le> a \<Longrightarrow> 0 < b \<Longrightarrow> 0 \<le> div_even a b"
  by (simp add: div_even_def Let_def pos_imp_zdiv_nonneg_iff add_nonneg_nonneg)

lemma round64_nonneg: "0 \<le> a \<Longrightarrow> 0 < b \<Longrightarrow> 0 \<le> round64 a b"
  by (simp add: round64_def Let_def div_even_nonneg)

end
