(* ===== verification/Typosquat.thy ===== *)
theory Typosquat
  imports Go_Float
begin

text \<open>
  \<open>pkg/scanner/typosquat.go\<close>: the comparison of a module path with the well-known modules. The lemmas
  show that the two-row table of \<open>levenshtein\<close> computes the least number of single-character edits, that
  this is a metric, what the character tests accept, and what a reported match is.
\<close>

section \<open>Levenshtein distance\<close>

definition min3 :: "int \<Rightarrow> int \<Rightarrow> int \<Rightarrow> int" where
  "min3 a b c = (if a < b then (if a < c then a else c) else if b < c then b else c)"

text \<open>
  The inner loop: \<open>prev\<close> from column \<open>j - 1\<close> on and \<open>left\<close> = \<open>curr[j-1]\<close> give \<open>curr\<close> from column \<open>j\<close> on.
\<close>

fun fill_row :: "char \<Rightarrow> string \<Rightarrow> int list \<Rightarrow> int \<Rightarrow> int list" where
  "fill_row x [] prev left = []"
| "fill_row x (y # ys) prev left =
     (let v = min3 (prev ! 1 + 1) (left + 1) (prev ! 0 + (if x = y then 0 else 1))
      in v # fill_row x ys (tl prev) v)"

text \<open>The outer loop: row \<open>i\<close> from the row before it, for the remaining characters of \<open>a\<close>.\<close>

fun lev_rows :: "string \<Rightarrow> string \<Rightarrow> int \<Rightarrow> int list \<Rightarrow> int list" where
  "lev_rows [] b i prev = prev"
| "lev_rows (x # xs) b i prev = lev_rows xs b (i + 1) (i # fill_row x b prev i)"

definition levenshtein :: "string \<Rightarrow> string \<Rightarrow> int" where
  "levenshtein a b =
     (let la = int (length a); lb = int (length b)
      in if la = 0 then lb else if lb = 0 then la
         else lev_rows a b 1 (map int [0..<length b + 1]) ! length b)"

section \<open>The character tests\<close>

definition diff_count :: "string \<Rightarrow> string \<Rightarrow> nat" where
  "diff_count a b = length (filter (\<lambda>i. a ! i \<noteq> b ! i) [0..<length a])"

definition checkSwappedChars :: "string \<Rightarrow> string \<Rightarrow> bool" where
  "checkSwappedChars a b =
     (if length a \<noteq> length b \<or> length a < 2 then False
      else if diff_count a b \<noteq> 2 then False
      else list_ex (\<lambda>i. a ! i = b ! (i + 1) \<and> a ! (i + 1) = b ! i) [0..<length a - 1])"

definition strip_separators :: "string \<Rightarrow> string" where
  "strip_separators s = filter (\<lambda>c. c \<noteq> CHR ''_'') (filter (\<lambda>c. c \<noteq> CHR ''-'') s)"

definition checkMissingDash :: "string \<Rightarrow> string \<Rightarrow> bool" where
  "checkMissingDash a b = (strip_separators a = strip_separators b \<and> a \<noteq> b)"

text \<open>The loop of \<open>checkExtraChar\<close> over the rest of \<open>a\<close> and of \<open>b\<close>.\<close>

fun extra_loop :: "string \<Rightarrow> string \<Rightarrow> bool \<Rightarrow> bool" where
  "extra_loop [] b skipped = True"
| "extra_loop (x # a) [] skipped = True"
| "extra_loop (x # a) (y # b) skipped =
     (if x = y then extra_loop a b skipped else if \<not> skipped then extra_loop a (y # b) True else False)"

definition checkExtraChar :: "string \<Rightarrow> string \<Rightarrow> bool" where
  "checkExtraChar a b = (length a = length b + 1 \<and> extra_loop a b False)"

definition homoglyphs :: "char \<Rightarrow> string option" where
  "homoglyphs c =
     (if c = CHR ''l'' then Some ''1Ii'' else if c = CHR ''1'' then Some ''lIi''
      else if c = CHR ''0'' then Some ''Oo'' else if c = CHR ''O'' then Some ''0o''
      else if c = CHR ''o'' then Some ''0O'' else if c = CHR ''I'' then Some ''l1''
      else if c = CHR ''i'' then Some ''l1'' else if c = CHR ''n'' then Some ''m''
      else if c = CHR ''m'' then Some ''n'' else None)"

fun homoglyph_loop :: "string \<Rightarrow> string \<Rightarrow> nat \<Rightarrow> nat option" where
  "homoglyph_loop (x # a) (y # b) diffs =
     (if x = y then homoglyph_loop a b diffs
      else (case homoglyphs y of
          Some subs \<Rightarrow> if x \<in> set subs then homoglyph_loop a b (diffs + 1) else None
        | None \<Rightarrow> None))"
| "homoglyph_loop a b diffs = Some diffs"

definition checkHomoglyph :: "string \<Rightarrow> string \<Rightarrow> bool" where
  "checkHomoglyph a b =
     (if length a \<noteq> length b then False
      else (case homoglyph_loop a b 0 of Some diffs \<Rightarrow> 0 < diffs \<and> diffs \<le> 2 | None \<Rightarrow> False))"

section \<open>Comparing modules\<close>

datatype typosquat_result = TyposquatResult
  (ty_Module: string) (ty_SimilarTo: string) (ty_Distance: int) (ty_Confidence: float64)
  (ty_Indicators: "string list") (ty_SuspectMatches: "typosquat_result list")

definition lastPathComponent :: "string \<Rightarrow> string" where
  "lastPathComponent path = last (Split path CHR ''/'')"

definition orgComponent :: "string \<Rightarrow> string" where
  "orgComponent path = (let parts = Split path CHR ''/'' in if length parts \<ge> 2 then parts ! 1 else '''')"

text \<open>One check: when it holds, its weight is added to the confidence and its name to the indicators.\<close>

definition indicate :: "bool \<Rightarrow> float64 \<Rightarrow> string \<Rightarrow> float64 \<times> string list \<Rightarrow> float64 \<times> string list" where
  "indicate b w name acc = (if b then (fadd (fst acc) w, snd acc @ [name]) else acc)"

text \<open>The seven checks in the order of the source.\<close>

definition gather :: "string \<Rightarrow> string \<Rightarrow> float64 \<times> string list" where
  "gather candidate known =
     (let cn = lastPathComponent candidate; kn = lastPathComponent known;
          co = orgComponent candidate; ko = orgComponent known;
          nameDist = levenshtein cn kn; orgDist = levenshtein co ko;
          acc = indicate (nameDist > 0 \<and> nameDist \<le> 2 \<and> length kn > 3) (decimal 5 10) ''similar_package_name'' (0, []);
          acc = indicate (co \<noteq> ko \<and> orgDist > 0 \<and> orgDist \<le> 2 \<and> length ko > 3) (decimal 3 10) ''similar_org_name'' acc;
          acc = indicate (checkSwappedChars cn kn) (decimal 2 10) ''swapped_characters'' acc;
          acc = indicate (checkMissingDash cn kn) (decimal 2 10) ''missing_separator'' acc;
          acc = indicate (checkExtraChar cn kn) (decimal 15 100) ''extra_character'' acc;
          acc = indicate (checkHomoglyph cn kn) (decimal 3 10) ''homoglyph_substitution'' acc
      in indicate (cn = kn \<and> co \<noteq> ko) (decimal 4 10) ''same_name_different_org'' acc)"

definition compareModules :: "string \<Rightarrow> string \<Rightarrow> typosquat_result option" where
  "compareModules candidate known =
     (let (confidence, indicators) = gather candidate known
      in if confidence < decimal 3 10 \<or> indicators = [] then None
         else Some (TyposquatResult candidate known (levenshtein candidate known)
           (if confidence > decimal 1 1 then decimal 1 1 else confidence) indicators []))"

definition wellKnownModules :: "string list" where
  "wellKnownModules =
     [''github.com/gin-gonic/gin'', ''github.com/gorilla/mux'', ''github.com/gorilla/websocket'',
      ''github.com/go-chi/chi'', ''github.com/labstack/echo'', ''github.com/stretchr/testify'',
      ''github.com/sirupsen/logrus'', ''github.com/uber-go/zap'', ''go.uber.org/zap'', ''github.com/spf13/cobra'',
      ''github.com/spf13/viper'', ''github.com/spf13/pflag'', ''github.com/go-sql-driver/mysql'',
      ''github.com/lib/pq'', ''github.com/jackc/pgx'', ''github.com/redis/go-redis'', ''github.com/go-redis/redis'',
      ''github.com/aws/aws-sdk-go'', ''github.com/aws/aws-sdk-go-v2'', ''google.golang.org/grpc'',
      ''google.golang.org/protobuf'', ''github.com/golang/protobuf'', ''github.com/prometheus/client_golang'',
      ''github.com/hashicorp/consul'', ''github.com/hashicorp/vault'', ''github.com/hashicorp/terraform'',
      ''github.com/docker/docker'', ''github.com/kubernetes/kubernetes'', ''k8s.io/client-go'', ''k8s.io/api'',
      ''github.com/go-gorm/gorm'', ''gorm.io/gorm'', ''github.com/jmoiron/sqlx'', ''github.com/mattn/go-sqlite3'',
      ''github.com/dgrijalva/jwt-go'', ''github.com/golang-jwt/jwt'', ''github.com/google/uuid'',
      ''github.com/google/go-cmp'', ''github.com/mitchellh/mapstructure'', ''github.com/fatih/color'',
      ''github.com/pkg/errors'', ''github.com/go-playground/validator'', ''github.com/shopspring/decimal'',
      ''github.com/tidwall/gjson'', ''github.com/valyala/fasthttp'', ''github.com/gofiber/fiber'',
      ''github.com/unidoc/unipdf'', ''github.com/unidoc/unioffice'', ''golang.org/x/crypto'', ''golang.org/x/net'',
      ''golang.org/x/sys'', ''golang.org/x/text'', ''golang.org/x/sync'', ''golang.org/x/tools'',
      ''golang.org/x/oauth2'']"

text \<open>The loop over the well-known modules: the best match of confidence 0.7 or more, and the weaker ones.\<close>

fun match_loop :: "string \<Rightarrow> string list \<Rightarrow> typosquat_result option \<Rightarrow> typosquat_result list \<Rightarrow>
    typosquat_result option \<times> typosquat_result list" where
  "match_loop m [] best suspects = (best, suspects)"
| "match_loop m (k # ks) best suspects =
     (case compareModules m k of
        None \<Rightarrow> match_loop m ks best suspects
      | Some r \<Rightarrow>
          if ty_Confidence r < decimal 7 10 then match_loop m ks best (suspects @ [r])
          else if (case best of None \<Rightarrow> True | Some b \<Rightarrow> ty_Confidence r > ty_Confidence b)
          then match_loop m ks (Some r) suspects
          else match_loop m ks best suspects)"

definition with_suspects :: "typosquat_result \<Rightarrow> typosquat_result list \<Rightarrow> typosquat_result" where
  "with_suspects r ss =
     TyposquatResult (ty_Module r) (ty_SimilarTo r) (ty_Distance r) (ty_Confidence r) (ty_Indicators r) ss"

definition checkModule :: "string \<Rightarrow> typosquat_result option" where
  "checkModule modPath =
     (if modPath \<in> set wellKnownModules then None
      else (let (best, suspects) = match_loop modPath wellKnownModules None []
            in map_option (\<lambda>b. with_suspects b suspects) best))"

text \<open>\<open>ScanAll\<close> over the module paths of the graph.\<close>

definition ScanAll :: "string list \<Rightarrow> (string \<times> typosquat_result) list" where
  "ScanAll paths = List.map_filter (\<lambda>p. map_option (Pair p) (checkModule p)) paths"

section \<open>The table computes the edit distance\<close>

text \<open>\<open>edits n a b\<close>: \<open>b\<close> comes from \<open>a\<close> by \<open>n\<close> insertions, deletions and substitutions of one character.\<close>

inductive edits :: "nat \<Rightarrow> string \<Rightarrow> string \<Rightarrow> bool" where
  done_edit: "edits 0 [] []"
| keep_edit: "edits n a b \<Longrightarrow> edits n (x # a) (x # b)"
| subst_edit: "edits n a b \<Longrightarrow> edits (Suc n) (x # a) (y # b)"
| insert_edit: "edits n a b \<Longrightarrow> edits (Suc n) a (y # b)"
| delete_edit: "edits n a b \<Longrightarrow> edits (Suc n) (x # a) b"

inductive_cases edits_zeroE: "edits 0 a b"

fun ed :: "string \<Rightarrow> string \<Rightarrow> int" where
  "ed [] b = int (length b)"
| "ed (x # a) [] = int (length (x # a))"
| "ed (x # a) (y # b) = min3 (ed a (y # b) + 1) (ed (x # a) b + 1) (ed a b + (if x = y then 0 else 1))"

lemma min3_le: "min3 a b c \<le> a" "min3 a b c \<le> b" "min3 a b c \<le> c"
  by (auto simp: min3_def)

lemma min3_cases: "P a \<Longrightarrow> P b \<Longrightarrow> P c \<Longrightarrow> P (min3 a b c)"
  by (simp add: min3_def)

lemma ed_nonneg [simp]: "0 \<le> ed a b"
  by (induction a b rule: ed.induct) (auto intro: min3_cases)

lemma edits_length: "edits (length b) [] b" "edits (length a) a []"
  by (induction b; auto intro: edits.intros) (induction a; auto intro: edits.intros)

lemma ed_Nil [simp]: "ed a [] = int (length a)"
  by (cases a) simp_all

lemma ed_edits: "edits (nat (ed a b)) a b"
proof (induction a b rule: ed.induct)
  case (1 b)
  then show ?case by (simp add: edits_length)
next
  case (2 x a)
  then show ?case by (simp only: ed.simps nat_int edits_length)
next
  case (3 x a y b)
  have s: "nat (z + 1) = Suc (nat z)" if "0 \<le> z" for z :: int using that by simp
  show ?case
    unfolding ed.simps
  proof (rule min3_cases [where P = "\<lambda>v. edits (nat v) (x # a) (y # b)"])
    show "edits (nat (ed a (y # b) + 1)) (x # a) (y # b)"
      using 3 by (subst s) (auto intro: delete_edit)
    show "edits (nat (ed (x # a) b + 1)) (x # a) (y # b)"
      using 3 by (subst s) (auto intro: insert_edit)
    show "edits (nat (ed a b + (if x = y then 0 else 1))) (x # a) (y # b)"
    proof (cases "x = y")
      case True
      then show ?thesis using 3 by (auto intro: keep_edit)
    next
      case False
      then show ?thesis using 3 by (simp only: if_False) (subst s, auto intro: subst_edit)
    qed
  qed
qed

lemma ed_Cons_le:
  "ed (x # a) b \<le> ed a b + 1" "ed a (y # b) \<le> ed a b + 1"
proof -
  show "ed (x # a) b \<le> ed a b + 1" by (cases b) (auto intro: min3_le(1) simp: min3_le(1))
  show "ed a (y # b) \<le> ed a b + 1" by (cases a) (auto simp: min3_le(2))
qed

lemma edits_ed: "edits n a b \<Longrightarrow> ed a b \<le> int n"
proof (induction rule: edits.induct)
  case done_edit
  then show ?case by simp
next
  case (keep_edit n a b x)
  have "ed (x # a) (x # b) \<le> ed a b" using min3_le(3) [of "ed a (x # b) + 1" "ed (x # a) b + 1" "ed a b + 0"] by simp
  then show ?case using keep_edit by simp
next
  case (subst_edit n a b x y)
  have "ed (x # a) (y # b) \<le> ed a b + (if x = y then 0 else 1)" by (simp add: min3_le(3) del: if_cancel)
  then show ?case using subst_edit by (simp split: if_splits)
next
  case (insert_edit n a b y)
  then show ?case using ed_Cons_le(2) [of a y b] by simp
next
  case (delete_edit n a b x)
  then show ?case using ed_Cons_le(1) [of x a b] by simp
qed

lemma ed_Least: "ed a b = int (LEAST n. edits n a b)"
proof -
  have "(LEAST n. edits n a b) = nat (ed a b)"
    by (rule Least_equality) (use ed_edits edits_ed in \<open>force+\<close>)
  then show ?thesis by simp
qed

text \<open>The rows of the table: entry \<open>j\<close> of row \<open>i\<close> is the distance of the prefixes of lengths \<open>i\<close> and \<open>j\<close>.\<close>

definition row_of :: "string \<Rightarrow> string \<Rightarrow> string \<Rightarrow> int list" where
  "row_of u v w = map (\<lambda>j. ed u (rev (take j w) @ v)) [0..<length w + 1]"

lemma row_of_Cons: "row_of u v (y # w) = ed u v # row_of u (y # v) w"
proof -
  have e: "[0..<length (y # w) + 1] = 0 # map Suc [0..<length w + 1]"    unfolding map_Suc_upt by (subst upt_conv_Cons) simp_all
  show ?thesis unfolding row_of_def e by simp
qed

lemma row_of_nth: "j \<le> length w \<Longrightarrow> row_of u v w ! j = ed u (rev (take j w) @ v)"
  unfolding row_of_def by (subst nth_map) (simp_all del: upt_Suc ed.simps)

lemma row_of_nth0: "row_of u v w ! 0 = ed u v"
  using row_of_nth [of 0 w u v] by simp

lemma fill_row_spec: "ed (x # u) v # fill_row x w (row_of u v w) (ed (x # u) v) = row_of (x # u) v w"
proof (induction w arbitrary: v)
  case Nil
  then show ?case by (simp add: row_of_def)
next
  case (Cons y w)
  have "min3 (ed u (y # v) + 1) (ed (x # u) v + 1) (ed u v + (if x = y then 0 else 1)) = ed (x # u) (y # v)" by simp
  then show ?case
    using Cons.IH [of "y # v"] by (simp add: row_of_Cons row_of_nth0 Let_def del: ed.simps)
qed

lemma lev_rows_spec:
  "lev_rows xs b (int (length u) + 1) (row_of u [] b) = row_of (rev xs @ u) [] b"
proof (induction xs arbitrary: u)
  case Nil
  then show ?case by simp
next
  case (Cons x xs)
  have "int (length u) + 1 = ed (x # u) []" by simp
  then show ?case
    using Cons.IH [of "x # u"] fill_row_spec [of x u "[]" b] by (simp add: add.commute del: ed.simps)
qed

lemma levenshtein_ed: "levenshtein a b = ed (rev a) (rev b)"
proof -
  have "ed (rev a) [] = int (length a)" by (cases "rev a") (auto dest: arg_cong [where f = length])
  moreover have "map int [0..<length b + 1] = row_of [] [] b"
    unfolding row_of_def by (rule map_cong) auto
  moreover have "row_of (rev a) [] b ! length b = ed (rev a) (rev b)"
    using row_of_nth [of "length b" b "rev a" "[]"] by simp
  ultimately show ?thesis
    using lev_rows_spec [of a b "[]"] by (auto simp: levenshtein_def Let_def)
qed

lemma edits_append: "edits n a b \<Longrightarrow> edits m c d \<Longrightarrow> edits (n + m) (a @ c) (b @ d)"
  by (induction rule: edits.induct) (auto intro: edits.intros)

lemma edits_rev: "edits n a b \<Longrightarrow> edits n (rev a) (rev b)"
proof (induction rule: edits.induct)
  case done_edit
  then show ?case by (simp add: edits.done_edit)
next
  case (keep_edit n a b x)
  then show ?case using edits_append [OF keep_edit.IH, of 0 "[x]" "[x]"] by (simp add: edits.intros)
next
  case (subst_edit n a b x y)
  then show ?case using edits_append [OF subst_edit.IH, of 1 "[x]" "[y]"] edits.subst_edit [OF edits.done_edit] by simp
next
  case (insert_edit n a b y)
  then show ?case using edits_append [OF insert_edit.IH, of 1 "[]" "[y]"] edits.insert_edit [OF edits.done_edit] by simp
next
  case (delete_edit n a b x)
  then show ?case using edits_append [OF delete_edit.IH, of 1 "[x]" "[]"] edits.delete_edit [OF edits.done_edit] by simp
qed

lemma levenshtein_Least: "levenshtein a b = int (LEAST n. edits n a b)"
proof -
  have "edits n (rev a) (rev b) = edits n a b" for n using edits_rev by fastforce
  then show ?thesis by (simp add: levenshtein_ed ed_Least)
qed

lemma levenshtein_le: "edits n a b \<Longrightarrow> levenshtein a b \<le> int n"
  by (simp add: levenshtein_Least Least_le)

lemma levenshtein_edits: obtains n where "levenshtein a b = int n" and "edits n a b"
proof -
  have "edits (LEAST n. edits n a b) a b" by (rule LeastI) (rule ed_edits)
  then show thesis using that levenshtein_Least by blast
qed

section \<open>It is a metric\<close>

lemma edits_sym: "edits n a b \<Longrightarrow> edits n b a"
  by (induction rule: edits.induct) (auto intro: edits.intros)

lemma edits_refl: "edits 0 a a"
  by (induction a) (auto intro: edits.intros)

lemma edits_zero: "edits 0 a b \<Longrightarrow> a = b"
  by (induction "0 :: nat" a b rule: edits.induct) auto

text \<open>Two edit scripts compose: every character of the middle string is touched once in each.\<close>

lemma edits_Cons_induct:
  assumes "edits m (w # b) c"
    and "\<And>m c. edits m b c \<Longrightarrow> P m (w # c)" "\<And>m c z. edits m b c \<Longrightarrow> P (Suc m) (z # c)"
      "\<And>m c. edits m b c \<Longrightarrow> P (Suc m) c" "\<And>m c z. P m c \<Longrightarrow> P (Suc m) (z # c)"
  shows "P m c"
proof -
  have "P m c" if "edits m bb c" "bb = w # b" for bb
    using that by (induction rule: edits.induct) (auto intro: assms(2-))
  then show ?thesis using assms(1) by blast
qed

definition within :: "nat \<Rightarrow> string \<Rightarrow> string \<Rightarrow> bool" where
  "within n a c = (\<exists>k\<le>n. edits k a c)"

lemma withinI: "edits n a c \<Longrightarrow> within n a c"
  by (auto simp: within_def)

lemma within_steps:
  "within n a c \<Longrightarrow> within n (x # a) (x # c)"
  "within n a c \<Longrightarrow> within (Suc n) (x # a) (y # c)"
  "within n a c \<Longrightarrow> within (Suc n) a (y # c)"
  "within n a c \<Longrightarrow> within (Suc n) (x # a) c"
  "within n a c \<Longrightarrow> within (Suc n) a c"
  unfolding within_def by (blast intro: edits.intros Suc_le_mono [THEN iffD2] le_SucI)+

lemma edits_trans: "edits n a b \<Longrightarrow> edits m b c \<Longrightarrow> within (n + m) a c"
proof (induction arbitrary: m c rule: edits.induct)
  case done_edit
  then show ?case by (simp add: withinI)
next
  case (delete_edit n a b x)
  then show ?case by (simp add: within_steps(4))
next
  case (keep_edit n a b x)
  from keep_edit.prems show ?case
    by (rule edits_Cons_induct) (simp_all add: keep_edit.IH within_steps)
next
  case (subst_edit n a b x w)
  from subst_edit.prems show ?case
    by (rule edits_Cons_induct) (simp_all add: subst_edit.IH within_steps)
next
  case (insert_edit n a b w)
  from insert_edit.prems show ?case
    by (rule edits_Cons_induct) (simp_all add: insert_edit.IH within_steps)
qed

lemma levenshtein_triangle: "levenshtein a c \<le> levenshtein a b + levenshtein b c"
proof -
  obtain n m where "levenshtein a b = int n" "edits n a b" "levenshtein b c = int m" "edits m b c"
    using levenshtein_edits by metis
  moreover then obtain k where "k \<le> n + m" "edits k a c" using edits_trans unfolding within_def by blast
  ultimately show ?thesis using levenshtein_le [of k a c] by simp
qed

section \<open>What the character tests accept\<close>

lemma extra_loop_skipped: "length a = length b \<Longrightarrow> extra_loop a b True \<longleftrightarrow> a = b"
  by (induction a b rule: list_induct2) auto

lemma extra_loop_insert:
  "length a = length b + 1 \<Longrightarrow> extra_loop a b False \<longleftrightarrow> (\<exists>u c v. a = u @ c # v \<and> b = u @ v)"
proof (induction b arbitrary: a)
  case Nil
  then obtain c where "a = [c]" by (cases a) auto
  then show ?case by simp
next
  case (Cons y b)
  then obtain x a' where a: "a = x # a'" "length a' = length b + 1" by (cases a) auto
  show ?case
  proof (cases "x = y")
    case True
    have "(\<exists>u c v. x # a' = u @ c # v \<and> y # b = u @ v) \<longleftrightarrow> (\<exists>u c v. a' = u @ c # v \<and> b = u @ v)" (is "?l \<longleftrightarrow> ?r")
    proof
      assume ?l
      then obtain u c v where u: "x # a' = u @ c # v" "y # b = u @ v" by blast
      show ?r
      proof (cases u)
        case Nil
        then show ?thesis using u by (intro exI [of _ "[]"] exI [of _ y] exI [of _ b]) simp
      next
        case (Cons z u')
        then show ?thesis using u by auto
      qed
    next
      assume ?r
      then obtain u c v where "a' = u @ c # v" "b = u @ v" by blast
      then show ?l using True by (intro exI [of _ "x # u"] exI [of _ c] exI [of _ v]) simp
    qed
    then show ?thesis using Cons.IH [OF a(2)] True by (simp add: a)
  next
    case False
    have "(\<exists>u c v. x # a' = u @ c # v \<and> y # b = u @ v) \<longleftrightarrow> a' = y # b" (is "?l \<longleftrightarrow> ?r")
    proof
      assume ?l
      then obtain u c v where u: "x # a' = u @ c # v" "y # b = u @ v" by blast
      then show ?r using False by (cases u) auto
    next
      assume ?r
      then show ?l by (intro exI [of _ "[]"] exI [of _ x] exI [of _ "y # b"]) simp
    qed
    then show ?thesis using False extra_loop_skipped [of a' "y # b"] a(2) by (simp add: a)
  qed
qed

lemma diff_count_zip: "length a = length b \<Longrightarrow> diff_count a b = length (filter (\<lambda>p. fst p \<noteq> snd p) (zip a b))"
proof -
  assume l: "length a = length b"
  then have "zip a b = map (\<lambda>i. (a ! i, b ! i)) [0..<length a]" by (intro nth_equalityI) simp_all
  then show ?thesis by (simp add: diff_count_def filter_map o_def)
qed

lemma filter_zip_same: "filter (\<lambda>p. fst p \<noteq> snd p) (zip u u) = []"
  by (induction u) auto

lemma swapped_transposition:
  assumes "x \<noteq> y"
  shows "checkSwappedChars (u @ [x, y] @ v) (u @ [y, x] @ v)"
proof -
  let ?a = "u @ [x, y] @ v" and ?b = "u @ [y, x] @ v" and ?n = "length u"
  have "diff_count ?a ?b = 2" using assms by (simp add: diff_count_zip filter_zip_same)
  moreover have "list_ex (\<lambda>i. ?a ! i = ?b ! (i + 1) \<and> ?a ! (i + 1) = ?b ! i) [0..<length ?a - 1]"
    unfolding list_ex_iff by (rule bexI [of _ ?n]) (auto simp: nth_append)
  ultimately show ?thesis by (simp add: checkSwappedChars_def)
qed

section \<open>What a match is\<close>

lemma compareModules_range:
  assumes "compareModules m k = Some r"
  shows "ty_SimilarTo r = k" "ty_Module r = m" "decimal 3 10 \<le> ty_Confidence r" "ty_Confidence r \<le> units" "ty_Indicators r \<noteq> []"
    "ty_Distance r = levenshtein m k" "ty_SuspectMatches r = []"
proof -
  obtain c inds where g: "gather m k = (c, inds)" by fastforce
  have d: "decimal 3 10 \<le> units" "decimal 1 1 = units" by (simp_all add: decimal_values units_def)
  have "c \<ge> decimal 3 10" "inds \<noteq> []"
    and r: "r = TyposquatResult m k (levenshtein m k) (if c > units then units else c) inds []"
    using assms g d by (auto simp: compareModules_def split: if_splits)
  then show "ty_SimilarTo r = k" "ty_Module r = m" "decimal 3 10 \<le> ty_Confidence r" "ty_Confidence r \<le> units" "ty_Indicators r \<noteq> []"
    "ty_Distance r = levenshtein m k" "ty_SuspectMatches r = []"
    using d by auto
qed

text \<open>
  The loop keeps the first of the best strong matches; \<open>matches\<close> lists the strong ones.
\<close>

definition matches :: "string \<Rightarrow> string list \<Rightarrow> typosquat_result list" where
  "matches m ks = filter (\<lambda>r. ty_Confidence r \<ge> decimal 7 10) (List.map_filter (compareModules m) ks)"

definition is_best :: "typosquat_result option \<Rightarrow> typosquat_result list \<Rightarrow> bool" where
  "is_best best rs = (case best of None \<Rightarrow> rs = []
     | Some b \<Rightarrow> b \<in> set rs \<and> (\<forall>r\<in>set rs. ty_Confidence r \<le> ty_Confidence b))"

lemma match_loop_best:
  "is_best best rs \<Longrightarrow> is_best (fst (match_loop m ks best ss)) (rs @ matches m ks)"
proof (induction m ks best ss arbitrary: rs rule: match_loop.induct)
  case (1 m best suspects)
  then show ?case by (simp add: matches_def map_filter_simps)
next
  case (2 m k ks best suspects)
  show ?case
  proof (cases "compareModules m k")
    case None
    then show ?thesis using 2 by (simp add: matches_def map_filter_simps)
  next
    case (Some r)
    consider (weak) "ty_Confidence r < decimal 7 10"
      | (new) "\<not> ty_Confidence r < decimal 7 10" "case best of None \<Rightarrow> True | Some b \<Rightarrow> ty_Confidence r > ty_Confidence b"
      | (old) "\<not> ty_Confidence r < decimal 7 10" "\<not> (case best of None \<Rightarrow> True | Some b \<Rightarrow> ty_Confidence r > ty_Confidence b)"
      by blast
    then show ?thesis
    proof cases
      case weak
      then show ?thesis using 2(2) [OF Some weak 2(5)] Some by (simp add: matches_def map_filter_simps)
    next
      case new
      then have "is_best (Some r) (rs @ [r])" using 2(5) by (fastforce simp: is_best_def split: option.splits)
      then show ?thesis using 2(3) [OF Some new, of "rs @ [r]"] Some new by (simp add: matches_def map_filter_simps)
    next
      case old
      then have "is_best best (rs @ [r])" using 2(5) by (auto simp: is_best_def split: option.splits)
      then show ?thesis using 2(4) [OF Some old, of "rs @ [r]"] Some old by (simp add: matches_def map_filter_simps)
    qed
  qed
qed

lemma checkModule_best:
  assumes "checkModule m = Some r"
  shows "m \<notin> set wellKnownModules" "\<exists>b\<in>set (matches m wellKnownModules). r = with_suspects b (ty_SuspectMatches r)
    \<and> (\<forall>q\<in>set (matches m wellKnownModules). ty_Confidence q \<le> ty_Confidence b)"
proof -
  show n: "m \<notin> set wellKnownModules" using assms by (auto simp: checkModule_def split: if_splits)
  obtain b ss where b: "match_loop m wellKnownModules None [] = (Some b, ss)" "r = with_suspects b ss"
    using assms n by (auto simp: checkModule_def split_beta) (metis prod.collapse)
  have "is_best (Some b) (matches m wellKnownModules)"
    using match_loop_best [of None "[]" m wellKnownModules "[]"] b(1) by (simp add: is_best_def)
  then show "\<exists>b\<in>set (matches m wellKnownModules). r = with_suspects b (ty_SuspectMatches r)
    \<and> (\<forall>q\<in>set (matches m wellKnownModules). ty_Confidence q \<le> ty_Confidence b)"
    using b(2) by (intro bexI [of _ b]) (auto simp: is_best_def with_suspects_def)
qed

lemma checkModule_None:
  "checkModule m = None \<longleftrightarrow> m \<in> set wellKnownModules \<or> matches m wellKnownModules = []"
  using match_loop_best [of None "[]" m wellKnownModules "[]"]
  by (auto simp: checkModule_def is_best_def split_beta split: option.splits)

section \<open>Properties\<close>

text \<open>C23: \<open>levenshtein\<close>, with its two rows, returns the least number of single-character insertions, deletions
  and substitutions that turn one string into the other.\<close>

theorem levenshtein_is_edit_distance: "levenshtein a b = int (LEAST n. edits n a b)"
  by (rule levenshtein_Least)

text \<open>The distance is a metric: never negative, 0 exactly for equal strings, symmetric, and no larger than
  the detour over a third string.\<close>

theorem levenshtein_metric:
  "0 \<le> levenshtein a b \<and> (levenshtein a b = 0) = (a = b) \<and> levenshtein a b = levenshtein b a
   \<and> levenshtein a c \<le> levenshtein a b + levenshtein b c"
proof (intro conjI)
  show "0 \<le> levenshtein a b" by (simp add: levenshtein_ed)
  have "a = b" if "levenshtein a b = 0" using that levenshtein_edits [of a b] edits_zero by fastforce
  moreover have "levenshtein a a \<le> 0" using levenshtein_le [OF edits_refl, of a] by simp
  then have "levenshtein a a = 0" by (simp add: levenshtein_ed antisym)
  ultimately show "(levenshtein a b = 0) = (a = b)" by auto
  have "levenshtein x y \<le> levenshtein y x" for x y
    using levenshtein_edits [of y x] edits_sym levenshtein_le by metis
  then show "levenshtein a b = levenshtein b a" by (simp add: antisym)
  show "levenshtein a c \<le> levenshtein a b + levenshtein b c" by (rule levenshtein_triangle)
qed

text \<open>\<open>checkExtraChar\<close> accepts exactly the strings with one character inserted somewhere.\<close>

theorem extra_char_iff_insertion: "checkExtraChar a b = (\<exists>u c v. a = u @ c # v \<and> b = u @ v)"
proof -
  have "length a = length b + 1" if "\<exists>u c v. a = u @ c # v \<and> b = u @ v" using that by auto
  then show ?thesis using extra_loop_insert [of a b] unfolding checkExtraChar_def by blast
qed

text \<open>A module is reported exactly when it is not well known and some well-known module is at least 0.7
  similar, and then the report names a well-known module with the greatest confidence, at most 1.\<close>

theorem typosquat_report_is_best:
  "case checkModule m of
     None \<Rightarrow> m \<in> set wellKnownModules \<or> matches m wellKnownModules = []
   | Some r \<Rightarrow> m \<notin> set wellKnownModules \<and> ty_Module r = m \<and> ty_SimilarTo r \<in> set wellKnownModules
       \<and> ty_Distance r = levenshtein m (ty_SimilarTo r)
       \<and> ty_Confidence r = Max (ty_Confidence ` set (matches m wellKnownModules))
       \<and> decimal 7 10 \<le> ty_Confidence r \<and> ty_Confidence r \<le> decimal 1 1"
proof (cases "checkModule m")
  case None
  then have "m \<in> set wellKnownModules \<or> matches m wellKnownModules = []" using checkModule_None by blast
  then show ?thesis unfolding None option.case .
next
  case (Some r)
  obtain b where b: "b \<in> set (matches m wellKnownModules)" "r = with_suspects b (ty_SuspectMatches r)"
    "\<forall>q\<in>set (matches m wellKnownModules). ty_Confidence q \<le> ty_Confidence b"
    using checkModule_best(2) [OF Some] by blast
  then obtain k where k: "k \<in> set wellKnownModules" "compareModules m k = Some b" "decimal 7 10 \<le> ty_Confidence b"
    by (auto simp: matches_def List.map_filter_def)
  have f: "ty_Module r = ty_Module b" "ty_SimilarTo r = ty_SimilarTo b" "ty_Distance r = ty_Distance b" "ty_Confidence r = ty_Confidence b"
    by (subst b(2), simp add: with_suspects_def)+
  have "Max (ty_Confidence ` set (matches m wellKnownModules)) = ty_Confidence b"
    using b(1,3) by (intro Max_eqI) auto
  then show ?thesis
    using compareModules_range [OF k(2)] checkModule_best(1) [OF Some] k f by (simp add: Some decimal_values(4))
qed

text \<open>\<open>checkSwappedChars\<close> accepts every transposition of two different adjacent characters, but not only
  those: it takes \<open>aabc\<close> and \<open>aade\<close> for one, because the pair of equal characters it finds need not be the
  place where the strings differ.\<close>

theorem swapped_chars_accepts_more:
  "(checkSwappedChars (u @ [x, y] @ v) (u @ [y, x] @ v) \<or> x = y) \<and> checkSwappedChars ''aabc'' ''aade''"
proof
  show "checkSwappedChars (u @ [x, y] @ v) (u @ [y, x] @ v) \<or> x = y" using swapped_transposition by blast
  show "checkSwappedChars ''aabc'' ''aade''" by code_simp
qed

end
