(* ===== verification/Go_Text.thy ===== *)
theory Go_Text
  imports Prelude
begin

text \<open>
  More of Go's text handling: \<open>strings.Fields\<close>, \<open>strings.Index\<close> and \<open>strings.Cut\<close>, \<open>strings.Contains\<close>,
  \<open>strings.Trim\<close>, and the line scanner of \<open>bufio\<close>. The lemmas give the round trips the parsers rest on:
  words joined by spaces are the fields of the line, and lines joined by newlines are its parts.
\<close>

section \<open>Fields\<close>

text \<open>\<open>strings.Fields\<close>: the maximal runs of characters that are no white space.\<close>

fun fields_acc :: "string \<Rightarrow> string \<Rightarrow> string list" where
  "fields_acc [] w = (if w = [] then [] else [w])"
| "fields_acc (c # s) w =
     (if is_space c then (if w = [] then fields_acc s [] else w # fields_acc s []) else fields_acc s (w @ [c]))"

definition Fields :: "string \<Rightarrow> string list" where
  "Fields s = fields_acc s []"

text \<open>A word: what \<open>Fields\<close> may return.\<close>

definition word_ok :: "string \<Rightarrow> bool" where
  "word_ok w \<longleftrightarrow> w \<noteq> [] \<and> list_all (\<lambda>c. \<not> is_space c) w"

lemma fields_acc_word: "list_all (\<lambda>c. \<not> is_space c) u \<Longrightarrow> fields_acc (u @ s) w = fields_acc s (w @ u)"
  by (induction u arbitrary: w) auto

lemma fields_acc_ok: "list_all (\<lambda>c. \<not> is_space c) w \<Longrightarrow> v \<in> set (fields_acc s w) \<Longrightarrow> word_ok v"
  by (induction s w rule: fields_acc.induct) (auto simp: word_ok_def split: if_splits)

lemma Fields_ok: "v \<in> set (Fields s) \<Longrightarrow> word_ok v"
  unfolding Fields_def by (rule fields_acc_ok [of "[]"]) simp_all

lemma is_space_space [simp]: "is_space CHR '' ''"
  by (simp add: is_space_def)

lemma is_space_newline [simp]: "is_space (CHR 0x0A)"
  by (simp add: is_space_def)

lemma Fields_word: "word_ok w \<Longrightarrow> Fields w = [w]"
  using fields_acc_word [of w "[]" "[]"] by (simp add: Fields_def word_ok_def)

lemma Fields_word_space: "word_ok w \<Longrightarrow> Fields (w @ CHR '' '' # s) = w # Fields s"
  using fields_acc_word [of w "CHR '' '' # s" "[]"] by (simp add: Fields_def word_ok_def)

lemma Fields_Nil [simp]: "Fields [] = []"
  by (simp add: Fields_def)

lemma Fields_space [simp]: "is_space c \<Longrightarrow> Fields (c # s) = Fields s"
  by (simp add: Fields_def)

lemma Fields_Join [go_strings]: "list_all word_ok ws \<Longrightarrow> Fields (Join ws '' '') = ws"
  by (induction ws "'' ''" rule: Join.induct) (simp_all add: Fields_word Fields_word_space)

section \<open>Trimming\<close>

lemma TrimSpace_id:
  assumes "s = [] \<or> (\<not> is_space (hd s) \<and> \<not> is_space (last s))"
  shows "TrimSpace s = s"
proof (cases "s = []")
  case True
  then show ?thesis by (simp add: TrimSpace_def)
next
  case False
  then have h: "\<not> is_space (hd s)" and l: "\<not> is_space (hd (rev s))"
    using assms by (simp_all add: hd_rev)
  have drop_id: "dropWhile is_space t = t" if "\<not> is_space (hd t)" "t \<noteq> []" for t
    using that by (cases t) simp_all
  show ?thesis
    using drop_id [OF h False] drop_id [OF l] False by (simp add: TrimSpace_def)
qed

lemma TrimSpace_word: "word_ok w \<Longrightarrow> TrimSpace w = w"
  by (rule TrimSpace_id) (auto simp: word_ok_def list_all_iff)

text \<open>\<open>strings.Trim(s, cutset)\<close>.\<close>

definition Trim :: "string \<Rightarrow> char list \<Rightarrow> string" where
  "Trim s cutset = rev (dropWhile (\<lambda>c. c \<in> set cutset) (rev (dropWhile (\<lambda>c. c \<in> set cutset) s)))"

section \<open>Searching\<close>

text \<open>
  \<open>strings.Cut\<close>: what is before and after the first occurrence of a separator. \<open>strings.Index\<close> and
  \<open>strings.SplitN(s, sep, 2)\<close> are its uses in the sources.
\<close>

fun Cut :: "string \<Rightarrow> string \<Rightarrow> (string \<times> string) option" where
  "Cut [] sep = (if sep = [] then Some ([], []) else None)"
| "Cut (c # s) sep =
     (if HasPrefix (c # s) sep then Some ([], drop (length sep) (c # s))
      else map_option (\<lambda>(a, b). (c # a, b)) (Cut s sep))"

lemma Cut_Some: "Cut s sep = Some (a, b) \<Longrightarrow> s = a @ sep @ b"
  by (induction s arbitrary: a) (auto simp: HasPrefix_iff split: if_splits)

lemma Cut_char: "c \<notin> set a \<Longrightarrow> Cut (a @ c # b) [c] = Some (a, b)"
  by (induction a) auto

lemma Cut_None_char: "Cut s [c] = None \<longleftrightarrow> c \<notin> set s"
  by (induction s) auto

lemma HasPrefix_refl [simp]: "HasPrefix (p @ s) p"
  by (simp add: HasPrefix_iff)

definition Contains :: "string \<Rightarrow> string \<Rightarrow> bool" where
  "Contains s sep \<longleftrightarrow> Cut s sep \<noteq> None"

lemma Cut_None_iff: "Cut s sep = None \<longleftrightarrow> (\<nexists>a b. s = a @ sep @ b)"
proof (induction s)
  case Nil
  show ?case by auto
next
  case (Cons c s)
  show ?case
  proof (cases "HasPrefix (c # s) sep")
    case True
    then show ?thesis by (force simp: HasPrefix_iff intro: exI [of _ "[]"])
  next
    case False
    have "(\<exists>a b. c # s = a @ sep @ b) \<longleftrightarrow> (\<exists>a b. s = a @ sep @ b)"
      using False by (auto simp: HasPrefix_iff Cons_eq_append_conv)
    then show ?thesis
      using False Cons.IH by simp
  qed
qed

lemma Contains_iff [go_strings]: "Contains s sep \<longleftrightarrow> (\<exists>a b. s = a @ sep @ b)"
  by (simp only: Contains_def Cut_None_iff) blast

section \<open>Lines\<close>

lemma Split_char: "c \<notin> set a \<Longrightarrow> Split (a @ c # b) c = a # Split b c"
  by (induction a) auto

lemma Split_none: "c \<notin> set a \<Longrightarrow> Split a c = [a]"
  by (induction a) auto

lemma Split_Join [go_strings]: "xs \<noteq> [] \<Longrightarrow> list_all (\<lambda>x. c \<notin> set x) xs \<Longrightarrow> Split (Join xs [c]) c = xs"
  by (induction xs "[c]" rule: Join.induct) (simp_all add: Split_char Split_none)

text \<open>
  \<open>bufio.Scanner\<close> with its default split function: the lines without their line ends, up to the first
  line that does not fit its buffer of 64 KB (then \<open>Err\<close> is not nil, the second component).
\<close>

definition max_token :: int where
  "max_token = 65536"

definition drop_cr :: "string \<Rightarrow> string" where
  "drop_cr l = (if l \<noteq> [] \<and> last l = CHR 0x0D then butlast l else l)"

definition raw_lines :: "string \<Rightarrow> string list" where
  "raw_lines s = (let ls = Split s (CHR 0x0A) in if last ls = [] then butlast ls else ls)"

definition scan_lines :: "string \<Rightarrow> string list \<times> bool" where
  "scan_lines s =
     (map drop_cr (takeWhile (\<lambda>l. int (length l) < max_token) (raw_lines s)),
      list_ex (\<lambda>l. \<not> int (length l) < max_token) (raw_lines s))"

end
