(* ===== verification/Policy.thy ===== *)
theory Policy
  imports Called_Pass Typosquat Go_Text
begin

text \<open>
  \<open>pkg/policy/engine.go\<close>: a policy, its evaluation on a scored project, and the text of the result. The
  violations are collected in a result that each rule extends; one definition per rule, composed in the
  order of the source. The lemmas show that every rule only appends, and derive from it when a gate passes.
\<close>

section \<open>Data\<close>

record policy =
  pl_MaxGrade :: string
  pl_AllowPending :: bool
  pl_NoKnownVulns :: bool
  pl_NoCriticalVulns :: bool
  pl_NoSingleMaintainer :: bool
  pl_NoUnmaintainedMonths :: "int option"
  pl_NoArchived :: bool
  pl_NoDeprecated :: bool
  pl_NoTyposquatting :: bool
  pl_MaxDepth :: "int option"
  pl_AllowedModules :: "string list"
  pl_BlockedModules :: "string list"
  pl_MaxCIScore :: "int option"
  pl_ForbidReplaceRedirect :: bool
  pl_RequireGoSumVerified :: bool
  pl_ForbidPseudoVersions :: bool

record violation =
  vi_Rule :: string
  vi_Module :: string
  vi_Detail :: string
  vi_Severity :: string

record policy_result =
  pr_Pass :: bool
  pr_Violations :: "violation list"

text \<open>The fields of the scanners' and the scorer's structs that the rules read.\<close>

record maintenance_info =
  mi_Archived :: bool
  mi_Deprecated :: bool
  mi_DeprecationMessage :: string
  mi_MonthsSinceRelease :: int
  mi_LastActivity :: gotime
  mi_MonthsSinceActivity :: int

record maintainer_info =
  ma_BusFactor :: int
  ma_ContributorCount :: int

record dependency_score =
  ds_Module :: string
  ds_Version :: string
  ds_Direct :: bool
  ds_Vulns :: "vulnerability list"
  ds_Maintenance :: "maintenance_info option"
  ds_PseudoVersion :: bool
  ds_IsTestOnly :: tri
  ds_InBuild :: tri

record integrity_finding =
  if_Category :: string
  if_Module :: string
  if_Detail :: string

record integrity_report =
  ir_Findings :: "integrity_finding list"
  ir_GoSumVerified :: string

record eval_input =
  ei_ProjectScore :: "dependency_score list option"
  ei_Grade :: "grade_result option"
  ei_Maintainers :: "string \<Rightarrow> maintainer_info option"
  ei_Typosquats :: "string \<Rightarrow> typosquat_result option"
  ei_CIReport :: "int option"
  ei_IntegrityReport :: "integrity_report option"

section \<open>Helpers of the scanners\<close>

definition HasActivity :: "maintenance_info \<Rightarrow> bool" where
  "HasActivity m = (\<not> IsZero (mi_LastActivity m))"

definition MonthsInactive :: "maintenance_info \<Rightarrow> int" where
  "MonthsInactive m =
     (if \<not> HasActivity m then mi_MonthsSinceRelease m else min (mi_MonthsSinceRelease m) (mi_MonthsSinceActivity m))"

definition DeprecationNotice :: "maintenance_info \<Rightarrow> string" where
  "DeprecationNotice m = Join (Fields (mi_DeprecationMessage m)) '' ''"

section \<open>Collecting violations\<close>

definition addWarning :: "string \<Rightarrow> string \<Rightarrow> string \<Rightarrow> policy_result \<Rightarrow> policy_result" where
  "addWarning rule module detail r =
     r\<lparr>pr_Violations := pr_Violations r
        @ [\<lparr>vi_Rule = rule, vi_Module = module, vi_Detail = detail, vi_Severity = ''warning''\<rparr>]\<rparr>"

definition addError :: "string \<Rightarrow> string \<Rightarrow> string \<Rightarrow> policy_result \<Rightarrow> policy_result" where
  "addError rule module detail r =
     r\<lparr>pr_Pass := False,
       pr_Violations := pr_Violations r
        @ [\<lparr>vi_Rule = rule, vi_Module = module, vi_Detail = detail, vi_Severity = ''error''\<rparr>]\<rparr>"


section \<open>The grade\<close>

text \<open>\<open>%q\<close> on the characters a policy file can hold (printable ASCII, tab and newline).\<close>

definition quote_char :: "char \<Rightarrow> string" where
  "quote_char c =
     (if c = CHR 0x22 then [CHR 0x5C, CHR 0x22] else if c = CHR 0x5C then [CHR 0x5C, CHR 0x5C]
      else if c = CHR 0x0A then [CHR 0x5C, CHR ''n''] else if c = CHR 0x09 then [CHR 0x5C, CHR ''t''] else [c])"

definition quote :: "string \<Rightarrow> string" where
  "quote s = [CHR 0x22] @ concat (map quote_char s) @ [CHR 0x22]"

definition max_letter :: "policy \<Rightarrow> string" where
  "max_letter p = ToUpper (TrimSpace (pl_MaxGrade p))"

definition validate :: "policy \<Rightarrow> string option" where
  "validate p =
     (if pl_MaxGrade p = '''' then None
      else if max_letter p \<in> set (map letter_str [LetterA, LetterB, LetterC, LetterD, LetterF]) then None
      else Some (''max_grade '' @ quote (pl_MaxGrade p) @ '' is not one of A, B, C, D, F''))"

definition unread_words :: "grade_result \<Rightarrow> string" where
  "unread_words g = (if length (g_ArchivedUnread g) \<noteq> 1 then ''s'' else '''')"

definition evalGrade :: "policy \<Rightarrow> grade_result option \<Rightarrow> policy_result \<Rightarrow> policy_result" where
  "evalGrade p g r =
     (if pl_MaxGrade p = '''' then r
      else (case validate p of
          Some err \<Rightarrow> addError ''max_grade'' '''' err r
        | None \<Rightarrow>
            (let worst = max_letter p;
                 pending = (\<lambda>reason.
                   (let detail = ''the grade is Pending ('' @ reason @ ''), so it cannot be checked against maximum '' @ worst
                    in if pl_AllowPending p then addWarning ''max_grade'' '''' detail r
                       else addError ''max_grade'' '''' detail r))
             in (case g of
                None \<Rightarrow> pending ''grading did not run''
              | Some g \<Rightarrow>
                  if g_Letter g = LetterNone then
                    pending (case g_Pending g of Some pe \<Rightarrow> p_Reason pe | None \<Rightarrow> ''grading did not run'')
                  else if letter_str (g_Letter g) > worst then
                    addError ''max_grade'' (case g_Deciding g of Some d \<Rightarrow> d_Module d | None \<Rightarrow> '''')
                      (''grade '' @ letter_str (g_Letter g) @ '' is worse than the maximum '' @ worst
                       @ (case g_Deciding g of Some d \<Rightarrow> '': '' @ d_Reason d | None \<Rightarrow> '''')) r
                  else if g_ArchivedUnread g \<noteq> [] then
                    (let n = itoa (int (length (g_ArchivedUnread g)))
                     in if letter_str (g_Letter g) = worst then
                          addError ''max_grade'' ''''
                            (''grade '' @ letter_str (g_Letter g) @ '' is the maximum '' @ worst @ '', but it rests on '' @ n
                             @ '' archived flag'' @ unread_words g
                             @ '' that could not be read (a dependency that is archived would make it one band worse); ''
                             @ ''set GITHUB_TOKEN to read them'') r
                        else
                          addWarning ''max_grade'' ''''
                            (''grade '' @ letter_str (g_Letter g) @ '' was given without '' @ n @ '' unread archived flag''
                             @ unread_words g
                             @ '' (a dependency that is archived could make it one band worse); set GITHUB_TOKEN to read them'') r)
                  else r))))"

section \<open>The rules of a dependency\<close>

definition isConfirmedOutsideBuild :: "dependency_score \<Rightarrow> bool" where
  "isConfirmedOutsideBuild ds = (case ds_InBuild ds of None \<Rightarrow> False | Some b \<Rightarrow> \<not> b)"

definition rule_known_vulns :: "policy \<Rightarrow> dependency_score \<Rightarrow> policy_result \<Rightarrow> policy_result" where
  "rule_known_vulns p ds r =
     (if pl_NoKnownVulns p \<and> ds_Vulns ds \<noteq> []
      then addError ''no_known_vulns'' (ds_Module ds)
        (''has '' @ itoa (int (length (ds_Vulns ds))) @ '' known vulnerabilities: '' @ Join (map v_ID (ds_Vulns ds)) '', '') r
      else r)"

definition rule_critical_vulns :: "policy \<Rightarrow> dependency_score \<Rightarrow> policy_result \<Rightarrow> policy_result" where
  "rule_critical_vulns p ds r =
     (if pl_NoCriticalVulns p
      then fold (\<lambda>v. if ToUpper (v_Severity v) = ''CRITICAL'' \<or> ToUpper (v_Severity v) = ''HIGH''
          then addError ''no_critical_vulns'' (ds_Module ds)
            (''has '' @ v_Severity v @ '' severity vulnerability: '' @ v_ID v)
          else (\<lambda>r. r)) (ds_Vulns ds) r
      else r)"

definition rule_single_maintainer :: "policy \<Rightarrow> eval_input \<Rightarrow> dependency_score \<Rightarrow> policy_result \<Rightarrow> policy_result" where
  "rule_single_maintainer p inp ds r =
     (if pl_NoSingleMaintainer p \<and> ds_Direct ds
      then (case ei_Maintainers inp (ds_Module ds) of
          Some mi \<Rightarrow> if ma_BusFactor mi \<le> 1 \<and> ma_ContributorCount mi > 0
            then addError ''no_single_maintainer'' (ds_Module ds)
              (''bus factor is '' @ itoa (ma_BusFactor mi) @ '' (single maintainer risk)'') r
            else r
        | None \<Rightarrow> r)
      else r)"

definition rule_pseudo_versions :: "policy \<Rightarrow> dependency_score \<Rightarrow> policy_result \<Rightarrow> policy_result" where
  "rule_pseudo_versions p ds r =
     (if pl_ForbidPseudoVersions p \<and> ds_PseudoVersion ds
      then (let testOnly = (case ds_IsTestOnly ds of None \<Rightarrow> False | Some b \<Rightarrow> b)
            in if \<not> testOnly \<and> \<not> isConfirmedOutsideBuild ds
               then addError ''forbid_pseudo_versions'' (ds_Module ds) (''pinned to pseudo-version '' @ ds_Version ds) r
               else r)
      else r)"

definition rule_unmaintained :: "policy \<Rightarrow> dependency_score \<Rightarrow> policy_result \<Rightarrow> policy_result" where
  "rule_unmaintained p ds r =
     (case (pl_NoUnmaintainedMonths p, ds_Maintenance ds) of
        (Some limit, Some m) \<Rightarrow>
          if \<not> isConfirmedOutsideBuild ds \<and> MonthsInactive m > limit
          then addError ''no_unmaintained'' (ds_Module ds)
            (if HasActivity m
             then ''last release '' @ itoa (mi_MonthsSinceRelease m) @ '' months ago and last default-branch commit ''
               @ itoa (mi_MonthsSinceActivity m) @ '' months ago (max: '' @ itoa limit @ '')''
             else ''last release '' @ itoa (mi_MonthsSinceRelease m) @ '' months ago (max: '' @ itoa limit @ '')'') r
          else r
      | _ \<Rightarrow> r)"

definition rule_archived :: "policy \<Rightarrow> dependency_score \<Rightarrow> policy_result \<Rightarrow> policy_result" where
  "rule_archived p ds r =
     (case ds_Maintenance ds of
        Some m \<Rightarrow> if pl_NoArchived p \<and> mi_Archived m \<and> \<not> isConfirmedOutsideBuild ds
          then addError ''no_archived'' (ds_Module ds) ''repository is archived'' r else r
      | None \<Rightarrow> r)"

definition rule_deprecated :: "policy \<Rightarrow> dependency_score \<Rightarrow> policy_result \<Rightarrow> policy_result" where
  "rule_deprecated p ds r =
     (case ds_Maintenance ds of
        Some m \<Rightarrow> if pl_NoDeprecated p \<and> mi_Deprecated m \<and> \<not> isConfirmedOutsideBuild ds
          then addError ''no_deprecated'' (ds_Module ds)
            (''module is deprecated'' @ (if DeprecationNotice m \<noteq> '''' then '': '' @ DeprecationNotice m else '''')) r
          else r
      | None \<Rightarrow> r)"

definition rule_typosquatting :: "policy \<Rightarrow> eval_input \<Rightarrow> dependency_score \<Rightarrow> policy_result \<Rightarrow> policy_result" where
  "rule_typosquatting p inp ds r =
     (if pl_NoTyposquatting p
      then (case ei_Typosquats inp (ds_Module ds) of
          Some ts \<Rightarrow> addError ''no_typosquatting'' (ds_Module ds)
            (''similar to '' @ ty_SimilarTo ts @ '' (confidence: '' @ fmt_f0 (fscale (ty_Confidence ts) 100) @ ''%)'') r
        | None \<Rightarrow> r)
      else r)"

definition under_prefix :: "string \<Rightarrow> string \<Rightarrow> bool" where
  "under_prefix module entry =
     (let prefix = TrimSuffix entry ''/'' in module = prefix \<or> HasPrefix module (prefix @ ''/''))"

definition rule_blocked :: "policy \<Rightarrow> dependency_score \<Rightarrow> policy_result \<Rightarrow> policy_result" where
  "rule_blocked p ds r =
     fold (\<lambda>b. if under_prefix (ds_Module ds) b
         then addError ''blocked_module'' (ds_Module ds) ''module is on the blocklist'' else (\<lambda>r. r)) (pl_BlockedModules p) r"

definition rule_allowed :: "policy \<Rightarrow> dependency_score \<Rightarrow> policy_result \<Rightarrow> policy_result" where
  "rule_allowed p ds r =
     (if pl_AllowedModules p \<noteq> [] \<and> ds_Direct ds \<and> \<not> list_ex (under_prefix (ds_Module ds)) (pl_AllowedModules p)
      then addError ''allowed_modules'' (ds_Module ds) ''module is not on the allowlist'' r else r)"

definition check_dependency :: "policy \<Rightarrow> eval_input \<Rightarrow> dependency_score \<Rightarrow> policy_result \<Rightarrow> policy_result" where
  "check_dependency p inp ds r =
     rule_allowed p ds (rule_blocked p ds (rule_typosquatting p inp ds (rule_deprecated p ds (rule_archived p ds
       (rule_unmaintained p ds (rule_pseudo_versions p ds (rule_single_maintainer p inp ds
         (rule_critical_vulns p ds (rule_known_vulns p ds r)))))))))"

section \<open>The rules of the project\<close>

definition rule_ci_score :: "policy \<Rightarrow> eval_input \<Rightarrow> policy_result \<Rightarrow> policy_result" where
  "rule_ci_score p inp r =
     (case (pl_MaxCIScore p, ei_CIReport inp) of
        (Some limit, Some score) \<Rightarrow>
          if score > limit
          then addError ''max_ci_score'' '''' (''CI/CD risk score '' @ itoa score @ '' exceeds maximum '' @ itoa limit) r
          else r
      | _ \<Rightarrow> r)"

definition rule_replace_redirect :: "policy \<Rightarrow> eval_input \<Rightarrow> policy_result \<Rightarrow> policy_result" where
  "rule_replace_redirect p inp r =
     (case ei_IntegrityReport inp of
        Some ir \<Rightarrow>
          if pl_ForbidReplaceRedirect p
          then fold (\<lambda>f. if if_Category f = ''replace_redirect''
              then addError ''forbid_replace_redirect'' (if_Module f) (if_Detail f) else (\<lambda>r. r)) (ir_Findings ir) r
          else r
      | None \<Rightarrow> r)"

text \<open>The em dash of the source's text, in UTF-8.\<close>

definition em_dash :: string where
  "em_dash = [CHR 0xE2, CHR 0x80, CHR 0x94]"

definition rule_gosum :: "policy \<Rightarrow> eval_input \<Rightarrow> policy_result \<Rightarrow> policy_result" where
  "rule_gosum p inp r =
     (case ei_IntegrityReport inp of
        Some ir \<Rightarrow>
          if pl_RequireGoSumVerified p \<and> ir_GoSumVerified ir = ''false''
          then addError ''require_gosum_verified'' ''go.sum''
            (case find (\<lambda>f. if_Category f = ''gosum_mismatch'') (ir_Findings ir) of
               Some f \<Rightarrow> if_Detail f
             | None \<Rightarrow> ''go mod verify reported a checksum mismatch '' @ em_dash
                 @ '' go.sum does not match the local module cache'') r
          else r
      | None \<Rightarrow> r)"

definition Evaluate :: "policy \<Rightarrow> eval_input \<Rightarrow> policy_result" where
  "Evaluate p inp =
     (let r = evalGrade p (ei_Grade inp) \<lparr>pr_Pass = True, pr_Violations = []\<rparr>
      in (case ei_ProjectScore inp of
          None \<Rightarrow> r
        | Some deps \<Rightarrow>
            rule_gosum p inp (rule_replace_redirect p inp (rule_ci_score p inp (fold (check_dependency p inp) deps r)))))"

section \<open>Presets\<close>

definition zero_policy :: policy where
  "zero_policy = \<lparr>pl_MaxGrade = '''', pl_AllowPending = False, pl_NoKnownVulns = False, pl_NoCriticalVulns = False,
     pl_NoSingleMaintainer = False, pl_NoUnmaintainedMonths = None, pl_NoArchived = False, pl_NoDeprecated = False,
     pl_NoTyposquatting = False, pl_MaxDepth = None, pl_AllowedModules = [], pl_BlockedModules = [], pl_MaxCIScore = None,
     pl_ForbidReplaceRedirect = False, pl_RequireGoSumVerified = False, pl_ForbidPseudoVersions = False\<rparr>"

definition DefaultStrictPolicy :: policy where
  "DefaultStrictPolicy = zero_policy\<lparr>pl_MaxGrade := ''B'', pl_NoCriticalVulns := True, pl_NoSingleMaintainer := True,
     pl_NoUnmaintainedMonths := Some 24, pl_NoArchived := True, pl_NoTyposquatting := True, pl_MaxCIScore := Some 50,
     pl_ForbidReplaceRedirect := True, pl_RequireGoSumVerified := True, pl_ForbidPseudoVersions := True\<rparr>"

definition DefaultModeratePolicy :: policy where
  "DefaultModeratePolicy = zero_policy\<lparr>pl_MaxGrade := ''C'', pl_NoCriticalVulns := True, pl_NoArchived := True\<rparr>"

section \<open>The text of a result\<close>

definition newline :: string where "newline = [CHR 0x0A]"
definition colour :: "string \<Rightarrow> string" where "colour code = [CHR 0x1B] @ ''['' @ code @ ''m''"

definition paint :: "bool \<Rightarrow> string \<Rightarrow> string \<Rightarrow> string" where
  "paint noColor code s = (if noColor then s else colour code @ s @ colour ''0'')"

definition count_words :: "int \<Rightarrow> string \<Rightarrow> string" where
  "count_words n word = (if n = 1 then itoa n @ '' '' @ word else itoa n @ '' '' @ word @ ''s'')"

fun writeViolationLines :: "violation list \<Rightarrow> int \<Rightarrow> string" where
  "writeViolationLines [] n = ''''"
| "writeViolationLines (v # vs) n =
     ''  '' @ itoa n @ ''. ['' @ vi_Rule v @ '']''
     @ (if vi_Module v \<noteq> '''' then '' '' @ vi_Module v @ '': '' @ vi_Detail v else '' '' @ vi_Detail v) @ newline
     @ writeViolationLines vs (n + 1)"

definition FormatText :: "policy_result \<Rightarrow> bool \<Rightarrow> string" where
  "FormatText r noColor =
     (let warns = filter (\<lambda>v. vi_Severity v = ''warning'') (pr_Violations r);
          errs = filter (\<lambda>v. vi_Severity v \<noteq> ''warning'') (pr_Violations r)
      in if pr_Pass r then
           (if warns = [] then paint noColor ''32'' ''PASS: All policies satisfied.'' @ newline
            else paint noColor ''32'' (''PASS ('' @ count_words (int (length warns)) ''warning''
                @ ''): All policies satisfied except what is listed below.'') @ newline @ newline
              @ writeViolationLines warns 1)
         else paint noColor ''31'' (''FAIL: '' @ itoa (int (length errs)) @ '' policy violation(s) found.'') @ newline @ newline
           @ writeViolationLines errs 1
           @ (if warns \<noteq> [] then newline @ count_words (int (length warns)) ''warning'' @ '':'' @ newline
                @ writeViolationLines warns 1 else ''''))"

section \<open>Every rule only appends\<close>

text \<open>
  \<open>extend r vs\<close>: the violations \<open>vs\<close> after those of \<open>r\<close>, with \<open>Pass\<close> kept only if they are warnings. A
  rule that is such an extension is a \<open>policy_step\<close>; the locale's laws are what \<open>Evaluate\<close> relies on.
\<close>

definition extend :: "policy_result \<Rightarrow> violation list \<Rightarrow> policy_result" where
  "extend r vs = \<lparr>pr_Pass = (pr_Pass r \<and> list_all (\<lambda>v. vi_Severity v = ''warning'') vs),
     pr_Violations = pr_Violations r @ vs\<rparr>"

definition appends :: "(policy_result \<Rightarrow> policy_result) \<Rightarrow> bool" where
  "appends f = (\<exists>vs. \<forall>r. f r = extend r vs)"

named_theorems policy_rules

lemma extend_Nil [simp]: "extend r [] = r"
  by (simp add: extend_def)

lemma extend_extend: "extend (extend r vs) ws = extend r (vs @ ws)"
  by (simp add: extend_def)

lemma addError_extend:
  "addError rule m d r = extend r [\<lparr>vi_Rule = rule, vi_Module = m, vi_Detail = d, vi_Severity = ''error''\<rparr>]"
  by (simp add: addError_def extend_def)

lemma addWarning_extend:
  "addWarning rule m d r = extend r [\<lparr>vi_Rule = rule, vi_Module = m, vi_Detail = d, vi_Severity = ''warning''\<rparr>]"
  by (simp add: addWarning_def extend_def)

lemma appends_skip [policy_rules]: "appends (\<lambda>r. r)"
  unfolding appends_def by (rule exI [of _ "[]"]) simp

lemma appends_add [policy_rules]: "appends (addError rule m d)" "appends (addWarning rule m d)"
  unfolding appends_def addError_extend addWarning_extend by blast+

lemma appends_add' [policy_rules]: "appends (\<lambda>r. addError rule m d r)" "appends (\<lambda>r. addWarning rule m d r)"
  by (rule appends_add)+

lemma appends_comp: "appends f \<Longrightarrow> appends g \<Longrightarrow> appends (\<lambda>r. f (g r))"
  unfolding appends_def by (metis extend_extend)

lemma appends_if [policy_rules]: "appends f \<Longrightarrow> appends g \<Longrightarrow> appends (\<lambda>r. if b then f r else g r)"
  by (cases b) simp_all

lemma appends_if' [policy_rules]: "appends f \<Longrightarrow> appends g \<Longrightarrow> appends (if b then f else g)"
  by (cases b) simp_all

lemma appends_fold [policy_rules]: "(\<And>x. x \<in> set xs \<Longrightarrow> appends (f x)) \<Longrightarrow> appends (\<lambda>r. fold f xs r)"
proof (induction xs)
  case Nil
  then show ?case by (simp add: appends_skip)
next
  case (Cons x xs)
  then show ?case using appends_comp [of "fold f xs" "f x"] by simp
qed

lemma appends_option [policy_rules]:
  "(\<And>x. appends (f x)) \<Longrightarrow> appends g \<Longrightarrow> appends (\<lambda>r. case y of Some x \<Rightarrow> f x r | None \<Rightarrow> g r)"
  by (cases y) simp_all

locale policy_step =
  fixes step :: "policy_result \<Rightarrow> policy_result"
  assumes appends: "appends step"
begin

lemma keeps_violations: "\<exists>vs. pr_Violations (step r) = pr_Violations r @ vs"
  using appends by (auto simp: appends_def extend_def)

lemma keeps_failure: "pr_Pass (step r) \<Longrightarrow> pr_Pass r"
  using appends by (auto simp: appends_def extend_def)

lemma keeps_consistent:
  "pr_Pass r = list_all (\<lambda>v. vi_Severity v = ''warning'') (pr_Violations r) \<Longrightarrow>
     pr_Pass (step r) = list_all (\<lambda>v. vi_Severity v = ''warning'') (pr_Violations (step r))"
  using appends by (auto simp: appends_def extend_def)

end

lemma appends_dependency_rules [policy_rules]:
  "appends (rule_known_vulns p ds)" "appends (rule_critical_vulns p ds)" "appends (rule_single_maintainer p inp ds)"
  "appends (rule_pseudo_versions p ds)" "appends (rule_unmaintained p ds)" "appends (rule_archived p ds)"
  "appends (rule_deprecated p ds)" "appends (rule_typosquatting p inp ds)" "appends (rule_blocked p ds)"
  "appends (rule_allowed p ds)"
  unfolding rule_known_vulns_def [abs_def] rule_critical_vulns_def [abs_def] rule_single_maintainer_def [abs_def]
    rule_pseudo_versions_def [abs_def] rule_unmaintained_def [abs_def] rule_archived_def [abs_def] rule_deprecated_def [abs_def]
    rule_typosquatting_def [abs_def] rule_blocked_def [abs_def] rule_allowed_def [abs_def] Let_def prod.case
  by (intro policy_rules)+

lemma appends_project_rules [policy_rules]:
  "appends (rule_ci_score p inp)" "appends (rule_replace_redirect p inp)" "appends (rule_gosum p inp)"
  unfolding rule_ci_score_def [abs_def] rule_replace_redirect_def [abs_def] rule_gosum_def [abs_def] prod.case
  by (intro policy_rules)+

lemma appends_grade [policy_rules]: "appends (evalGrade p g)"
  unfolding evalGrade_def [abs_def] Let_def by (intro policy_rules)

lemma appends_check [policy_rules]: "appends (check_dependency p inp ds)"
  unfolding check_dependency_def [abs_def]
  by (rule appends_comp [OF _ appends_comp [OF _ appends_comp [OF _ appends_comp [OF _ appends_comp [OF _
    appends_comp [OF _ appends_comp [OF _ appends_comp [OF _ appends_comp]]]]]]]]; rule appends_dependency_rules)

lemma appends_evaluate:
  "appends (\<lambda>r. rule_gosum p inp (rule_replace_redirect p inp (rule_ci_score p inp (fold (check_dependency p inp) deps r))))"
  by (rule appends_comp [OF _ appends_comp [OF _ appends_comp]];
      (rule appends_project_rules | rule appends_fold, rule appends_check))

interpretation grade_step: policy_step "evalGrade p g" for p g
  by unfold_locales (rule appends_grade)

interpretation dependency_step: policy_step "check_dependency p inp ds" for p inp ds
  by unfold_locales (rule appends_check)

interpretation rest_step: policy_step
  "\<lambda>r. rule_gosum p inp (rule_replace_redirect p inp (rule_ci_score p inp (fold (check_dependency p inp) deps r)))" for p inp deps
  by unfold_locales (rule appends_evaluate)

section \<open>Properties\<close>

definition start_result :: policy_result where
  "start_result = \<lparr>pr_Pass = True, pr_Violations = []\<rparr>"

lemma Evaluate_steps:
  "Evaluate p inp = (case ei_ProjectScore inp of None \<Rightarrow> evalGrade p (ei_Grade inp) start_result
     | Some deps \<Rightarrow> rule_gosum p inp (rule_replace_redirect p inp (rule_ci_score p inp
         (fold (check_dependency p inp) deps (evalGrade p (ei_Grade inp) start_result)))))"
  unfolding Evaluate_def Let_def start_result_def by (rule refl)

lemma Evaluate_failure: "pr_Pass (Evaluate p inp) \<Longrightarrow> pr_Pass (evalGrade p (ei_Grade inp) start_result)"
  unfolding Evaluate_steps using rest_step.keeps_failure by (auto split: option.splits)

text \<open>A policy evaluation passes exactly when every violation it lists is a warning: no rule fails the gate
  without saying so, and none is listed as an error without failing it.\<close>

theorem evaluate_pass_iff_no_error:
  "pr_Pass (Evaluate p inp) = list_all (\<lambda>v. vi_Severity v = ''warning'') (pr_Violations (Evaluate p inp))"
proof -
  have "pr_Pass start_result = list_all (\<lambda>v. vi_Severity v = ''warning'') (pr_Violations start_result)"
    by (simp add: start_result_def)
  then show ?thesis
    unfolding Evaluate_steps
    by (auto split: option.split intro!: rest_step.keeps_consistent grade_step.keeps_consistent)
qed

lemma evalGrade_pass:
  assumes "pl_MaxGrade p \<noteq> ''''" and "pr_Pass (evalGrade p g start_result)"
  shows "case g of None \<Rightarrow> pl_AllowPending p
    | Some g \<Rightarrow> if g_Letter g = LetterNone then pl_AllowPending p
        else letter_str (g_Letter g) \<le> max_letter p
          \<and> (g_ArchivedUnread g = [] \<or> letter_str (g_Letter g) < max_letter p)"
proof (cases "validate p")
  case (Some err)
  then have "\<not> pr_Pass (evalGrade p g start_result)" using assms(1) by (simp add: evalGrade_def addError_def)
  then show ?thesis using assms(2) by contradiction
next
  case valid: None
  have err: "pr_Pass (addError rule m d r) = False" for rule m d r by (simp add: addError_def)
  show ?thesis
  proof (cases g)
    case None
    then show ?thesis using assms valid by (simp add: evalGrade_def Let_def err split: if_splits)
  next
    case (Some g')
    note pass = assms(2) [unfolded evalGrade_def Some valid option.case Let_def, simplified assms(1) if_False]
    show ?thesis
    proof (cases "g_Letter g' = LetterNone")
      case True
      then have "pl_AllowPending p" using pass by (simp only: True if_True err split: if_splits)
      then show ?thesis using Some True by simp
    next
      case False
      have "\<not> letter_str (g_Letter g') > max_letter p"
        using pass False by (simp only: if_False if_True err simp_thms split: if_splits)
      moreover then have "g_ArchivedUnread g' = [] \<or> letter_str (g_Letter g') \<noteq> max_letter p"
        using pass False by (cases "g_ArchivedUnread g' = []") (simp_all only: if_False if_True err simp_thms split: if_splits)
      ultimately show ?thesis using Some False by (auto simp: not_less le_less)
    qed
  qed
qed

text \<open>C22: A gate with \<open>max_grade\<close> never passes on no result: when the evaluation passes, either the grade is
  missing or Pending and the policy allows that, or the letter is no worse than the maximum, and strictly
  better when archived flags that matter could not be read.\<close>

theorem gate_enforces_max_grade:
  assumes "pl_MaxGrade p \<noteq> ''''" and "pr_Pass (Evaluate p inp)"
  shows "case ei_Grade inp of None \<Rightarrow> pl_AllowPending p
    | Some g \<Rightarrow> if g_Letter g = LetterNone then pl_AllowPending p
        else letter_str (g_Letter g) \<le> max_letter p
          \<and> (g_ArchivedUnread g = [] \<or> letter_str (g_Letter g) < max_letter p)"
  by (rule evalGrade_pass [OF assms(1) Evaluate_failure [OF assms(2)]])

definition ex_eval :: eval_input where
  "ex_eval = \<lparr>ei_ProjectScore = None, ei_Grade = None, ei_Maintainers = (\<lambda>_. None), ei_Typosquats = (\<lambda>_. None),
     ei_CIReport = None, ei_IntegrityReport = None\<rparr>"

theorem gate_enforces_max_grade_witness:
  "case ei_Grade ex_eval of None \<Rightarrow> pl_AllowPending (zero_policy\<lparr>pl_MaxGrade := ''B'', pl_AllowPending := True\<rparr>)
    | Some g \<Rightarrow> if g_Letter g = LetterNone then pl_AllowPending (zero_policy\<lparr>pl_MaxGrade := ''B'', pl_AllowPending := True\<rparr>)
        else letter_str (g_Letter g) \<le> max_letter (zero_policy\<lparr>pl_MaxGrade := ''B'', pl_AllowPending := True\<rparr>)
          \<and> (g_ArchivedUnread g = []
             \<or> letter_str (g_Letter g) < max_letter (zero_policy\<lparr>pl_MaxGrade := ''B'', pl_AllowPending := True\<rparr>))"
proof (rule gate_enforces_max_grade)
  show "pl_MaxGrade (zero_policy\<lparr>pl_MaxGrade := ''B'', pl_AllowPending := True\<rparr>) \<noteq> ''''" by simp
  have v: "validate (zero_policy\<lparr>pl_MaxGrade := ''B'', pl_AllowPending := True\<rparr>) = None" by code_simp
  show "pr_Pass (Evaluate (zero_policy\<lparr>pl_MaxGrade := ''B'', pl_AllowPending := True\<rparr>) ex_eval)"
    by (simp add: Evaluate_def ex_eval_def evalGrade_def v Let_def addWarning_def)
qed

text \<open>The \<open>max_depth\<close> rule is never checked: changing it changes no evaluation.\<close>

theorem max_depth_is_ignored: "Evaluate (p\<lparr>pl_MaxDepth := d\<rparr>) inp = Evaluate p inp"
proof -
  let ?q = "p\<lparr>pl_MaxDepth := d\<rparr>"
  have f: "pl_MaxGrade ?q = pl_MaxGrade p" "pl_AllowPending ?q = pl_AllowPending p" "pl_NoKnownVulns ?q = pl_NoKnownVulns p"
    "pl_NoCriticalVulns ?q = pl_NoCriticalVulns p" "pl_NoSingleMaintainer ?q = pl_NoSingleMaintainer p"
    "pl_NoUnmaintainedMonths ?q = pl_NoUnmaintainedMonths p" "pl_NoArchived ?q = pl_NoArchived p"
    "pl_NoDeprecated ?q = pl_NoDeprecated p" "pl_NoTyposquatting ?q = pl_NoTyposquatting p"
    "pl_AllowedModules ?q = pl_AllowedModules p" "pl_BlockedModules ?q = pl_BlockedModules p" "pl_MaxCIScore ?q = pl_MaxCIScore p"
    "pl_ForbidReplaceRedirect ?q = pl_ForbidReplaceRedirect p" "pl_RequireGoSumVerified ?q = pl_RequireGoSumVerified p"
    "pl_ForbidPseudoVersions ?q = pl_ForbidPseudoVersions p"
    by simp_all
  have g: "evalGrade ?q = evalGrade p"
    unfolding evalGrade_def [abs_def] validate_def max_letter_def f by (rule refl)
  have c: "check_dependency ?q inp = check_dependency p inp"
    unfolding check_dependency_def [abs_def] rule_known_vulns_def rule_critical_vulns_def rule_single_maintainer_def
      rule_pseudo_versions_def rule_unmaintained_def rule_archived_def rule_deprecated_def rule_typosquatting_def
      rule_blocked_def rule_allowed_def f by (rule refl)
  have p: "rule_ci_score ?q inp = rule_ci_score p inp" "rule_replace_redirect ?q inp = rule_replace_redirect p inp"
    "rule_gosum ?q inp = rule_gosum p inp"
    unfolding rule_ci_score_def [abs_def] rule_replace_redirect_def [abs_def] rule_gosum_def [abs_def] f by (rule refl)+
  show ?thesis by (simp only: Evaluate_def g c p)
qed

text \<open>A dependency that is confirmed to be outside the build is exempt from the maintenance and the
  pseudo-version rules: whatever its maintenance data and version pin are, its violations are the same.\<close>

theorem outside_build_is_exempt:
  assumes "isConfirmedOutsideBuild ds"
  shows "check_dependency p inp (ds\<lparr>ds_Maintenance := m, ds_PseudoVersion := b\<rparr>) r = check_dependency p inp ds r"
proof -
  have o: "isConfirmedOutsideBuild (ds\<lparr>ds_Maintenance := m, ds_PseudoVersion := b\<rparr>)"
    using assms by (simp add: isConfirmedOutsideBuild_def)
  have u: "rule_unmaintained p d s = s" "rule_archived p d s = s" "rule_deprecated p d s = s"
    "rule_pseudo_versions p d s = s" if "isConfirmedOutsideBuild d" for d s
    unfolding rule_unmaintained_def rule_archived_def rule_deprecated_def rule_pseudo_versions_def Let_def
    using that by (simp_all split: option.split)
  let ?d = "ds\<lparr>ds_Maintenance := m, ds_PseudoVersion := b\<rparr>"
  have f: "ds_Module ?d = ds_Module ds" "ds_Version ?d = ds_Version ds" "ds_Direct ?d = ds_Direct ds" "ds_Vulns ?d = ds_Vulns ds"
    by simp_all
  show ?thesis
    unfolding check_dependency_def u [OF o] u [OF assms] rule_known_vulns_def rule_critical_vulns_def
      rule_single_maintainer_def rule_typosquatting_def rule_blocked_def rule_allowed_def f by (rule refl)
qed

definition ex_ds :: dependency_score where
  "ex_ds = \<lparr>ds_Module = ''m'', ds_Version = ''v1'', ds_Direct = False, ds_Vulns = [], ds_Maintenance = None,
     ds_PseudoVersion = False, ds_IsTestOnly = None, ds_InBuild = Some False\<rparr>"

theorem outside_build_is_exempt_witness:
  "check_dependency DefaultStrictPolicy ex_eval (ex_ds\<lparr>ds_Maintenance := None, ds_PseudoVersion := True\<rparr>) start_result
     = check_dependency DefaultStrictPolicy ex_eval ex_ds start_result"
  by (rule outside_build_is_exempt) (simp add: ex_ds_def isConfirmedOutsideBuild_def)

lemma fold_check_failure:
  assumes "ds \<in> set deps" and "\<And>r. \<not> pr_Pass (check_dependency p inp ds r)"
  shows "\<not> pr_Pass (fold (check_dependency p inp) deps r)"
  using assms
proof (induction deps arbitrary: r)
  case Nil
  then show ?case by simp
next
  case (Cons d deps)
  have keep: "\<not> pr_Pass (fold (check_dependency p inp) ds s)" if "\<not> pr_Pass s" for s ds
    using that dependency_step.keeps_failure by (induction ds arbitrary: s) (auto, blast)
  show ?case using Cons keep by (cases "ds = d") auto
qed

text \<open>An archived dependency fails a policy with \<open>no_archived\<close> unless it is confirmed to be outside the
  build; a dependency whose build membership is unknown is not exempt.\<close>

theorem archived_fails_the_gate:
  assumes "pl_NoArchived p" and "ei_ProjectScore inp = Some deps" and "ds \<in> set deps"
    and "ds_Maintenance ds = Some m" and "mi_Archived m" and "ds_InBuild ds \<noteq> Some False"
  shows "\<not> pr_Pass (Evaluate p inp)"
proof -
  have "\<not> isConfirmedOutsideBuild ds" using assms(6) by (auto simp: isConfirmedOutsideBuild_def split: option.split)
  then have a: "\<not> pr_Pass (rule_archived p ds r)" for r using assms by (simp add: rule_archived_def addError_def)
  have "\<not> pr_Pass (check_dependency p inp ds r)" for r
  proof -
    have "appends (\<lambda>r. rule_allowed p ds (rule_blocked p ds (rule_typosquatting p inp ds (rule_deprecated p ds r))))"
      by (rule appends_comp [OF _ appends_comp [OF _ appends_comp]]; rule appends_dependency_rules)
    then have "\<not> pr_Pass s \<Longrightarrow> \<not> pr_Pass (rule_allowed p ds (rule_blocked p ds (rule_typosquatting p inp ds (rule_deprecated p ds s))))" for s
      by (auto simp: appends_def extend_def)
    then show ?thesis unfolding check_dependency_def using a by blast
  qed
  then have "\<not> pr_Pass (fold (check_dependency p inp) deps s)" for s using fold_check_failure [OF assms(3)] by blast
  moreover have "appends (\<lambda>r. rule_gosum p inp (rule_replace_redirect p inp (rule_ci_score p inp r)))"
    by (rule appends_comp [OF _ appends_comp]; rule appends_project_rules)
  ultimately show ?thesis
    unfolding Evaluate_steps assms(2) by (auto simp: appends_def extend_def)
qed

definition ex_archived :: dependency_score where
  "ex_archived = ex_ds\<lparr>ds_InBuild := None, ds_Maintenance := Some \<lparr>mi_Archived = True, mi_Deprecated = False,
     mi_DeprecationMessage = '''', mi_MonthsSinceRelease = 1, mi_LastActivity = zero_time, mi_MonthsSinceActivity = 0\<rparr>\<rparr>"

theorem archived_fails_the_gate_witness:
  "\<not> pr_Pass (Evaluate DefaultModeratePolicy (ex_eval\<lparr>ei_ProjectScore := Some [ex_archived]\<rparr>))"
  by (rule archived_fails_the_gate [where deps = "[ex_archived]" and ds = ex_archived and m = "the (ds_Maintenance ex_archived)"])
    (simp_all add: DefaultModeratePolicy_def ex_archived_def ex_ds_def)

end
