(* ===== verification/Go_Mod.thy ===== *)
theory Go_Mod
  imports Go_Text
begin

text \<open>
  \<open>pkg/parser/gomod.go\<close>: the line scan of \<open>go.mod\<close> and \<open>go.sum\<close>. The state of the scan is the parsed file
  and the three block flags; one function handles one line. The lemmas show that a written \<open>go.mod\<close> is
  read back, when a replace directive applies, and that the entries of \<open>go.sum\<close> are unique.

  The real \<open>go.mod\<close> parser (\<open>golang.org/x/mod/modfile\<close>, third-party) is the parameter \<open>lax\<close>: nil for a
  file it rejects, else the module path and the go version it found.
\<close>

section \<open>Data\<close>

record gomodule =
  md_Path :: string
  md_Version :: string
  md_Indirect :: bool

record replace =
  rp_OldVersion :: string
  rp_New :: gomodule

record gomod =
  gm_ModulePath :: string
  gm_GoVersion :: string
  gm_Requirements :: "gomodule list"
  gm_Replaces :: "string \<Rightarrow> replace option"
  gm_Excludes :: "gomodule list"

record gosum_entry =
  se_Path :: string
  se_Version :: string

definition ReplacementFor :: "gomod \<Rightarrow> string \<Rightarrow> string \<Rightarrow> replace option" where
  "ReplacementFor gm path version =
     (case gm_Replaces gm path of
        None \<Rightarrow> None
      | Some r \<Rightarrow> if rp_OldVersion r \<noteq> [] \<and> rp_OldVersion r \<noteq> version then None else Some r)"

section \<open>One line\<close>

definition directiveValue :: "string \<Rightarrow> string" where
  "directiveValue arg0 =
     (let arg = TrimSpace arg0
      in if arg \<noteq> [] \<and> (hd arg = CHR 0x22 \<or> hd arg = CHR 0x60)
         then (case Cut (tl arg) [hd arg] of
                 Some (a, b) \<Rightarrow> a
               | None \<Rightarrow> Trim arg [CHR 0x22, CHR 0x60])
         else TrimSpace (case Cut arg ''//'' of Some (a, b) \<Rightarrow> a | None \<Rightarrow> arg))"

definition parseRequireLine :: "string \<Rightarrow> gomodule option" where
  "parseRequireLine line0 =
     (let line = TrimSpace line0
      in if line = [] \<or> HasPrefix line ''//'' then None
         else let parts = Fields line
              in if length parts < 2 then None
                 else Some \<lparr>md_Path = parts ! 0, md_Version = parts ! 1,
                            md_Indirect = (length parts \<ge> 4 \<and> parts ! 2 = ''//'' \<and> parts ! 3 = ''indirect'')\<rparr>)"

definition parseReplaceLine :: "string \<Rightarrow> (string \<Rightarrow> replace option) \<Rightarrow> (string \<Rightarrow> replace option)" where
  "parseReplaceLine line0 replaces =
     (let line = TrimSpace line0
      in if line = [] \<or> HasPrefix line ''//'' then replaces
         else case Cut line ''=>'' of
                None \<Rightarrow> replaces
              | Some (l, r) \<Rightarrow>
                  (let original = Fields (TrimSpace l); replacement = Fields (TrimSpace r)
                   in if length original < 1 \<or> length replacement < 1 then replaces
                      else replaces
                             (original ! 0 \<mapsto>
                                \<lparr>rp_OldVersion = (if length original \<ge> 2 then original ! 1 else []),
                                 rp_New = \<lparr>md_Path = replacement ! 0,
                                           md_Version = (if length replacement \<ge> 2 then replacement ! 1 else []),
                                           md_Indirect = False\<rparr>\<rparr>)))"

section \<open>The file\<close>

record scan_state =
  sc_mod :: gomod
  sc_require :: bool
  sc_replace :: bool
  sc_exclude :: bool

definition add_require :: "string \<Rightarrow> gomod \<Rightarrow> gomod" where
  "add_require line gm =
     (case parseRequireLine line of None \<Rightarrow> gm | Some m \<Rightarrow> gm\<lparr>gm_Requirements := gm_Requirements gm @ [m]\<rparr>)"

definition add_exclude :: "string \<Rightarrow> gomod \<Rightarrow> gomod" where
  "add_exclude line gm =
     (case parseRequireLine line of None \<Rightarrow> gm | Some m \<Rightarrow> gm\<lparr>gm_Excludes := gm_Excludes gm @ [m]\<rparr>)"

definition add_replace :: "string \<Rightarrow> gomod \<Rightarrow> gomod" where
  "add_replace line gm = gm\<lparr>gm_Replaces := parseReplaceLine line (gm_Replaces gm)\<rparr>"

definition gomod_line :: "string \<Rightarrow> scan_state \<Rightarrow> scan_state" where
  "gomod_line line0 st =
     (let line = TrimSpace line0; gm = sc_mod st
      in if line = [] \<or> HasPrefix line ''//'' then st
         else if HasPrefix line ''module '' then
           st\<lparr>sc_mod := gm\<lparr>gm_ModulePath := directiveValue (TrimPrefix line ''module '')\<rparr>\<rparr>
         else if HasPrefix line ''go '' then
           st\<lparr>sc_mod := gm\<lparr>gm_GoVersion := directiveValue (TrimPrefix line ''go '')\<rparr>\<rparr>
         else if line = ''require ('' then st\<lparr>sc_require := True\<rparr>
         else if line = ''replace ('' then st\<lparr>sc_replace := True\<rparr>
         else if line = ''exclude ('' then st\<lparr>sc_exclude := True\<rparr>
         else if line = '')'' then st\<lparr>sc_require := False, sc_replace := False, sc_exclude := False\<rparr>
         else if HasPrefix line ''require '' then st\<lparr>sc_mod := add_require (TrimPrefix line ''require '') gm\<rparr>
         else if HasPrefix line ''replace '' then st\<lparr>sc_mod := add_replace (TrimPrefix line ''replace '') gm\<rparr>
         else if HasPrefix line ''exclude '' then st\<lparr>sc_mod := add_exclude (TrimPrefix line ''exclude '') gm\<rparr>
         else if sc_require st then st\<lparr>sc_mod := add_require line gm\<rparr>
         else if sc_replace st then st\<lparr>sc_mod := add_replace line gm\<rparr>
         else if sc_exclude st then st\<lparr>sc_mod := add_exclude line gm\<rparr>
         else st)"

definition empty_gomod :: gomod where
  "empty_gomod = \<lparr>gm_ModulePath = [], gm_GoVersion = [], gm_Requirements = [], gm_Replaces = Map.empty, gm_Excludes = []\<rparr>"

definition scan_start :: scan_state where
  "scan_start = \<lparr>sc_mod = empty_gomod, sc_require = False, sc_replace = False, sc_exclude = False\<rparr>"

definition scan_gomod :: "string \<Rightarrow> scan_state" where
  "scan_gomod text = fold gomod_line (Split text (CHR 0x0A)) scan_start"

definition set_option :: "string option \<Rightarrow> string \<Rightarrow> string" where
  "set_option new old = (case new of None \<Rightarrow> old | Some s \<Rightarrow> s)"

definition ParseGoMod :: "(string \<Rightarrow> (string option \<times> string option) option) \<Rightarrow> string + string \<Rightarrow> string + gomod" where
  "ParseGoMod lax file =
     (case file of
        Inl err \<Rightarrow> Inl (''reading go.mod: '' @ err)
      | Inr text \<Rightarrow>
          (let gm = sc_mod (scan_gomod text)
           in Inr (case lax text of
                     None \<Rightarrow> gm
                   | Some (path, version) \<Rightarrow>
                       gm\<lparr>gm_ModulePath := set_option path (gm_ModulePath gm),
                          gm_GoVersion := set_option version (gm_GoVersion gm)\<rparr>)))"

section \<open>The checksum file\<close>

definition gosum_line :: "string \<Rightarrow> string set \<times> gosum_entry list \<Rightarrow> string set \<times> gosum_entry list" where
  "gosum_line line0 = (\<lambda>(seen, entries).
     let parts = Fields (TrimSpace line0)
     in if length parts < 3 then (seen, entries)
        else let modPath = parts ! 0; version = TrimSuffix (parts ! 1) ''/go.mod'';
                 key = modPath @ ''@'' @ version
             in if key \<in> seen then (seen, entries)
                else (insert key seen, entries @ [\<lparr>se_Path = modPath, se_Version = version\<rparr>]))"

text \<open>
  The result carries the entries and the scanner's error, as in the source (callers drop the entries of a
  failed scan).
\<close>

definition ParseGoSum :: "string + string \<Rightarrow> gosum_entry list \<times> string option" where
  "ParseGoSum file =
     (case file of
        Inl err \<Rightarrow> ([], Some (''reading go.sum: '' @ err))
      | Inr text \<Rightarrow>
          (case scan_lines text of (lines, too_long) \<Rightarrow>
             (snd (fold gosum_line lines ({}, [])),
              if too_long then Some ''bufio.Scanner: token too long'' else None)))"

section \<open>Words and lines\<close>

text \<open>The written form of a line: its words separated by one space.\<close>

lemma Join_append: "xs \<noteq> [] \<Longrightarrow> ys \<noteq> [] \<Longrightarrow> Join (xs @ ys) sep = Join xs sep @ sep @ Join ys sep"
  by (induction xs sep rule: Join.induct) (auto simp: neq_Nil_conv)

lemma Join_words_ends:
  "list_all word_ok ws \<Longrightarrow> ws \<noteq> [] \<Longrightarrow>
   Join ws '' '' \<noteq> [] \<and> \<not> is_space (hd (Join ws '' '')) \<and> \<not> is_space (last (Join ws '' ''))"
  by (induction ws "'' ''" rule: Join.induct) (auto simp: word_ok_def list_all_iff last_append)

lemma TrimSpace_words: "list_all word_ok ws \<Longrightarrow> TrimSpace (Join ws '' '') = Join ws '' ''"
  using Join_words_ends [of ws] by (cases "ws = []") (auto intro!: TrimSpace_id)

lemma TrimSpace_lead [simp]: "is_space c \<Longrightarrow> TrimSpace (c # s) = TrimSpace s"
  by (simp add: TrimSpace_def)

lemma TrimSpace_trail: "is_space c \<Longrightarrow> TrimSpace (s @ [c]) = TrimSpace s"
  by (cases "\<exists>x\<in>set s. \<not> is_space x") (auto simp: TrimSpace_def dropWhile_append1 dropWhile_append3 dest: set_dropWhileD)

lemma Fields_words_nonempty: "list_all word_ok ws \<Longrightarrow> ws \<noteq> [] \<Longrightarrow> Join ws '' '' \<noteq> []"
  using Join_words_ends by blast

lemma HasPrefix_keyword:
  assumes "word_ok p" and "word_ok k"
  shows "HasPrefix (p @ CHR '' '' # r) (k @ '' '') \<longleftrightarrow> p = k"
proof
  assume "HasPrefix (p @ CHR '' '' # r) (k @ '' '')"
  then obtain t where "p @ CHR '' '' # r = k @ CHR '' '' # t"
    by (auto simp: HasPrefix_iff)
  then have "Fields (p @ CHR '' '' # r) = Fields (k @ CHR '' '' # t)" by simp
  then show "p = k"
    using assms by (simp add: Fields_word_space)
qed (simp add: HasPrefix_iff)

lemma Join_Cons_word: "ws \<noteq> [] \<Longrightarrow> Join (p # ws) '' '' = p @ CHR '' '' # Join ws '' ''"
  by (cases ws) auto

lemma Join_no_newline: "list_all word_ok ws \<Longrightarrow> CHR 0x0A \<notin> set (Join ws '' '')"
  by (induction ws "'' ''" rule: Join.induct) (auto simp: word_ok_def list_all_iff)

lemma Cut_arrow: "CHR ''='' \<notin> set a \<Longrightarrow> Cut (a @ ''=>'' @ b) ''=>'' = Some (a, b)"
  by (induction a) auto

lemma Cut_slashes: "\<not> Contains a ''//'' \<Longrightarrow> Cut a ''//'' = None"
  unfolding Contains_def by (cases "Cut a ''//''") auto

section \<open>A written file is read back\<close>

definition require_words :: "gomodule \<Rightarrow> string list" where
  "require_words m = [md_Path m, md_Version m] @ (if md_Indirect m then [''//'', ''indirect''] else [])"

definition opt_word :: "string \<Rightarrow> string list" where
  "opt_word w = (if w = [] then [] else [w])"

definition replace_words :: "string \<times> replace \<Rightarrow> string list" where
  "replace_words = (\<lambda>(p, r). p # opt_word (rp_OldVersion r) @ [''=>'', md_Path (rp_New r)] @ opt_word (md_Version (rp_New r)))"

definition entry_line :: "string list \<Rightarrow> string" where
  "entry_line ws = CHR 0x09 # Join ws '' ''"

definition block :: "string \<Rightarrow> string list list \<Rightarrow> string list" where
  "block keyword entries = (keyword @ '' ('') # map entry_line entries @ ['')'']"

text \<open>The text of a \<open>go.mod\<close> in the layout the \<open>go\<close> command writes.\<close>

definition gomod_text :: "string \<Rightarrow> string \<Rightarrow> gomodule list \<Rightarrow> (string \<times> replace) list \<Rightarrow> gomodule list \<Rightarrow> string" where
  "gomod_text path version reqs reps excls =
     Join ([''module '' @ path, ''go '' @ version]
           @ block ''require'' (map require_words reqs)
           @ block ''replace'' (map replace_words reps)
           @ block ''exclude'' (map require_words excls))
       [CHR 0x0A]"

definition directives :: "string list" where
  "directives = [''module'', ''go'', ''require'', ''replace'', ''exclude'']"

definition path_ok :: "string \<Rightarrow> bool" where
  "path_ok p \<longleftrightarrow> word_ok p \<and> \<not> HasPrefix p ''//'' \<and> CHR ''='' \<notin> set p \<and> p \<notin> set directives"

definition require_ok :: "gomodule \<Rightarrow> bool" where
  "require_ok m \<longleftrightarrow> path_ok (md_Path m) \<and> word_ok (md_Version m)"

definition replace_ok :: "string \<times> replace \<Rightarrow> bool" where
  "replace_ok = (\<lambda>(p, r).
     path_ok p \<and> (rp_OldVersion r = [] \<or> word_ok (rp_OldVersion r)) \<and> CHR ''='' \<notin> set (rp_OldVersion r) \<and>
     word_ok (md_Path (rp_New r)) \<and> (md_Version (rp_New r) = [] \<or> word_ok (md_Version (rp_New r))) \<and>
     \<not> md_Indirect (rp_New r))"

definition value_ok :: "string \<Rightarrow> bool" where
  "value_ok v \<longleftrightarrow> word_ok v \<and> hd v \<noteq> CHR 0x22 \<and> hd v \<noteq> CHR 0x60 \<and> \<not> Contains v ''//''"

lemma word_ok_consts [simp]:
  "word_ok ''//''" "word_ok ''indirect''" "word_ok ''=>''"
  "word_ok ''module''" "word_ok ''go''" "word_ok ''require''" "word_ok ''replace''" "word_ok ''exclude''"
  by code_simp+

lemma is_space_tab [simp]: "is_space (CHR 0x09)"
  by code_simp

lemma require_words_ok: "require_ok m \<Longrightarrow> list_all word_ok (require_words m)"
  by (simp add: require_ok_def require_words_def path_ok_def)

lemma replace_words_ok: "replace_ok pr \<Longrightarrow> list_all word_ok (replace_words pr)"
  by (cases pr) (auto simp: replace_ok_def replace_words_def path_ok_def opt_word_def)

lemma parseRequireLine_words:
  assumes "require_ok m"
  shows "parseRequireLine (Join (require_words m) '' '') = Some m"
proof -
  have w: "list_all word_ok (require_words m)" using assms by (rule require_words_ok)
  have "Join (require_words m) '' '' = md_Path m @ CHR '' '' # Join (tl (require_words m)) '' ''"
    by (simp add: require_words_def)
  moreover have "\<not> HasPrefix (md_Path m @ s) ''//''" if "s = CHR '' '' # t" for s t
    using assms that by (cases "md_Path m"; cases "tl (md_Path m)") (auto simp: require_ok_def path_ok_def word_ok_def)
  ultimately have "\<not> HasPrefix (Join (require_words m) '' '') ''//''" by metis
  moreover have "Join (require_words m) '' '' \<noteq> []"
    using Fields_words_nonempty [OF w] by (simp add: require_words_def)
  ultimately show ?thesis
    by (simp add: parseRequireLine_def Let_def TrimSpace_words [OF w] Fields_Join [OF w])
       (simp add: require_words_def)
qed


lemma parseReplaceLine_words:
  assumes "replace_ok (p, r)"
  shows "parseReplaceLine (Join (replace_words (p, r)) '' '') reps = reps(p \<mapsto> r)"
proof -
  define xs where "xs = p # opt_word (rp_OldVersion r)"
  define ys where "ys = md_Path (rp_New r) # opt_word (md_Version (rp_New r))"
  have ok: "list_all word_ok xs" "list_all word_ok ys" "list_all word_ok (replace_words (p, r))"
    using assms replace_words_ok [OF assms] by (auto simp: xs_def ys_def replace_ok_def path_ok_def opt_word_def)
  have line: "Join (replace_words (p, r)) '' '' = (Join xs '' '' @ '' '') @ ''=>'' @ ('' '' @ Join ys '' '')"
    using Join_append [of xs "''=>'' # ys" "'' ''"]
    by (simp add: replace_words_def xs_def ys_def Join_Cons_word)
  have "CHR ''='' \<notin> set (Join xs '' '' @ '' '')"
    using assms by (auto simp: xs_def opt_word_def replace_ok_def path_ok_def)
  then have cut: "Cut (Join (replace_words (p, r)) '' '') ''=>'' = Some (Join xs '' '' @ '' '', '' '' @ Join ys '' '')"
    unfolding line by (rule Cut_arrow)
  have "Join (replace_words (p, r)) '' '' = p @ CHR '' '' # Join (tl (replace_words (p, r))) '' ''"
    by (simp add: replace_words_def Join_Cons_word)
  moreover have "\<not> HasPrefix (p @ CHR '' '' # t) ''//''" for t
    using assms by (cases p; cases "tl p") (auto simp: replace_ok_def path_ok_def word_ok_def)
  ultimately have pre: "\<not> HasPrefix (Join (replace_words (p, r)) '' '') ''//''" by metis
  have ne: "Join (replace_words (p, r)) '' '' \<noteq> []"
    by (simp add: line)
  have f: "Fields (TrimSpace (Join xs '' '' @ '' '')) = xs" "Fields (TrimSpace ('' '' @ Join ys '' '')) = ys"
    by (simp_all add: TrimSpace_trail TrimSpace_words ok Fields_Join)
  have "parseReplaceLine (Join (replace_words (p, r)) '' '') reps =
      reps(p \<mapsto> \<lparr>rp_OldVersion = (if length xs \<ge> 2 then xs ! 1 else []),
                 rp_New = \<lparr>md_Path = md_Path (rp_New r), md_Version = (if length ys \<ge> 2 then ys ! 1 else []),
                           md_Indirect = False\<rparr>\<rparr>)"
    using ne pre cut f
    by (simp add: parseReplaceLine_def Let_def TrimSpace_words [OF ok(3)]) (simp add: xs_def ys_def)
  also have "\<dots> = reps(p \<mapsto> r)"
    using assms by (cases r; cases "rp_New r") (simp add: xs_def ys_def opt_word_def replace_ok_def)
  finally show ?thesis .
qed

lemma gomod_line_entry:
  assumes "list_all word_ok ws" and "ws \<noteq> []" and "path_ok p"
  shows "gomod_line (entry_line (p # ws)) st =
    (let line = Join (p # ws) '' ''
     in if sc_require st then st\<lparr>sc_mod := add_require line (sc_mod st)\<rparr>
        else if sc_replace st then st\<lparr>sc_mod := add_replace line (sc_mod st)\<rparr>
        else if sc_exclude st then st\<lparr>sc_mod := add_exclude line (sc_mod st)\<rparr>
        else st)"
proof -
  define line where "line = Join (p # ws) '' ''"
  have p: "word_ok p" "p \<notin> set directives" "\<not> HasPrefix p ''//''"
    using assms(3) by (simp_all add: path_ok_def)
  have eq: "line = p @ CHR '' '' # Join ws '' ''"
    using assms(2) by (simp add: line_def Join_Cons_word)
  have trim: "TrimSpace (entry_line (p # ws)) = line"
    using TrimSpace_words [of "p # ws"] assms(1) p by (simp add: entry_line_def line_def)
  have kw: "\<not> HasPrefix line (k @ '' '')" if "k \<in> set directives" for k
    using that p HasPrefix_keyword [OF p(1), of k] by (auto simp: eq directives_def)
  have kw': "line \<noteq> k @ '' ('' " if "k \<in> set directives" for k
    using kw [OF that] by (auto simp: HasPrefix_iff)
  have "\<not> HasPrefix line ''//''"
    using p by (cases p; cases "tl p") (auto simp: eq word_ok_def)
  moreover have "line \<noteq> []" "line \<noteq> '')''"
    using p(1) by (auto simp: eq word_ok_def append_eq_Cons_conv)
  ultimately show ?thesis
    using kw [of "''module''"] kw [of "''go''"] kw [of "''require''"] kw [of "''replace''"] kw [of "''exclude''"]
      kw' [of "''require''"] kw' [of "''replace''"] kw' [of "''exclude''"]
    by (simp add: gomod_line_def trim Let_def directives_def line_def [symmetric])
qed


text \<open>The state after the entries of each kind of block.\<close>

lemma fold_requires:
  assumes "list_all require_ok ms" and "sc_require st"
  shows "fold gomod_line (map (entry_line \<circ> require_words) ms) st =
    st\<lparr>sc_mod := sc_mod st\<lparr>gm_Requirements := gm_Requirements (sc_mod st) @ ms\<rparr>\<rparr>"
  using assms
proof (induction ms arbitrary: st)
  case Nil
  then show ?case by simp
next
  case (Cons m ms)
  have w: "list_all word_ok (tl (require_words m))" "tl (require_words m) \<noteq> []" "path_ok (md_Path m)"
    and eq: "md_Path m # tl (require_words m) = require_words m"
    using Cons.prems require_words_ok [of m] by (auto simp: require_words_def require_ok_def)
  show ?case
    using Cons gomod_line_entry [OF w, of st]
    by (simp add: eq add_require_def parseRequireLine_words)
qed

lemma fold_excludes:
  assumes "list_all require_ok ms" and "sc_exclude st" and "\<not> sc_require st" and "\<not> sc_replace st"
  shows "fold gomod_line (map (entry_line \<circ> require_words) ms) st =
    st\<lparr>sc_mod := sc_mod st\<lparr>gm_Excludes := gm_Excludes (sc_mod st) @ ms\<rparr>\<rparr>"
  using assms
proof (induction ms arbitrary: st)
  case Nil
  then show ?case by simp
next
  case (Cons m ms)
  have w: "list_all word_ok (tl (require_words m))" "tl (require_words m) \<noteq> []" "path_ok (md_Path m)"
    and eq: "md_Path m # tl (require_words m) = require_words m"
    using Cons.prems require_words_ok [of m] by (auto simp: require_words_def require_ok_def)
  show ?case
    using Cons gomod_line_entry [OF w, of st]
    by (simp add: eq add_exclude_def parseRequireLine_words)
qed

lemma fold_replaces:
  assumes "list_all replace_ok rs" and "sc_replace st" and "\<not> sc_require st"
  shows "fold gomod_line (map (entry_line \<circ> replace_words) rs) st =
    st\<lparr>sc_mod := sc_mod st\<lparr>gm_Replaces := gm_Replaces (sc_mod st) ++ map_of (rev rs)\<rparr>\<rparr>"
  using assms
proof (induction rs arbitrary: st)
  case Nil
  then show ?case by simp
next
  case (Cons pr rs)
  obtain p r where pr: "pr = (p, r)" by (cases pr)
  have w: "list_all word_ok (tl (replace_words pr))" "tl (replace_words pr) \<noteq> []" "path_ok p"
    and eq: "p # tl (replace_words pr) = replace_words pr"
    using Cons.prems replace_words_ok [of pr] by (auto simp: replace_words_def replace_ok_def pr)
  show ?case
    using Cons gomod_line_entry [OF w, of st]
    by (simp add: eq [unfolded pr] add_replace_def parseReplaceLine_words pr)
qed

lemma gomod_line_open:
  "gomod_line (''require'' @ '' ('') st = st\<lparr>sc_require := True\<rparr>"
  "gomod_line (''replace'' @ '' ('') st = st\<lparr>sc_replace := True\<rparr>"
  "gomod_line (''exclude'' @ '' ('') st = st\<lparr>sc_exclude := True\<rparr>"
  "gomod_line '')'' st = st\<lparr>sc_require := False, sc_replace := False, sc_exclude := False\<rparr>"
proof -
  have t: "TrimSpace ''require ('' = ''require (''" "TrimSpace ''replace ('' = ''replace (''"
    "TrimSpace ''exclude ('' = ''exclude (''" "TrimSpace '')'' = '')''"
    by code_simp+
  show "gomod_line (''require'' @ '' ('') st = st\<lparr>sc_require := True\<rparr>"
    "gomod_line (''replace'' @ '' ('') st = st\<lparr>sc_replace := True\<rparr>"
    "gomod_line (''exclude'' @ '' ('') st = st\<lparr>sc_exclude := True\<rparr>"
    "gomod_line '')'' st = st\<lparr>sc_require := False, sc_replace := False, sc_exclude := False\<rparr>"
    by (simp_all add: gomod_line_def Let_def t)
qed

lemma directiveValue_value: "value_ok v \<Longrightarrow> directiveValue v = v"
  by (auto simp: directiveValue_def Let_def value_ok_def TrimSpace_word Cut_slashes)

lemma gomod_line_value:
  assumes "value_ok v"
  shows "gomod_line (''module '' @ v) st = st\<lparr>sc_mod := sc_mod st\<lparr>gm_ModulePath := v\<rparr>\<rparr>"
    and "gomod_line (''go '' @ v) st = st\<lparr>sc_mod := sc_mod st\<lparr>gm_GoVersion := v\<rparr>\<rparr>"
proof -
  have "TrimSpace (''module '' @ v) = ''module '' @ v" "TrimSpace (''go '' @ v) = ''go '' @ v"
    using TrimSpace_words [of "[''module'', v]"] TrimSpace_words [of "[''go'', v]"] assms
    by (simp_all add: value_ok_def)
  then show "gomod_line (''module '' @ v) st = st\<lparr>sc_mod := sc_mod st\<lparr>gm_ModulePath := v\<rparr>\<rparr>"
    and "gomod_line (''go '' @ v) st = st\<lparr>sc_mod := sc_mod st\<lparr>gm_GoVersion := v\<rparr>\<rparr>"
    by (simp_all add: gomod_line_def Let_def TrimPrefix_def directiveValue_value [OF assms])
qed

lemma ParseGoMod_text:
  assumes "lax (gomod_text path version reqs reps excls) = None"
    and "value_ok path" and "value_ok version"
    and "list_all require_ok reqs" and "list_all replace_ok reps" and "list_all require_ok excls"
  shows "ParseGoMod lax (Inr (gomod_text path version reqs reps excls)) =
    Inr \<lparr>gm_ModulePath = path, gm_GoVersion = version, gm_Requirements = reqs,
         gm_Replaces = map_of (rev reps), gm_Excludes = excls\<rparr>"
proof -
  let ?lines = "[''module '' @ path, ''go '' @ version]
    @ block ''require'' (map require_words reqs) @ block ''replace'' (map replace_words reps)
    @ block ''exclude'' (map require_words excls)"
  have "list_all (\<lambda>l. CHR 0x0A \<notin> set l) ?lines"
    using assms Join_no_newline require_words_ok replace_words_ok
    by (auto simp: list_all_iff block_def entry_line_def value_ok_def word_ok_def)
  then have "Split (gomod_text path version reqs reps excls) (CHR 0x0A) = ?lines"
    unfolding gomod_text_def by (intro Split_Join) simp_all
  then have "scan_gomod (gomod_text path version reqs reps excls) = fold gomod_line ?lines scan_start"
    by (simp add: scan_gomod_def)
  also have "\<dots> = scan_start\<lparr>sc_mod := \<lparr>gm_ModulePath = path, gm_GoVersion = version, gm_Requirements = reqs,
         gm_Replaces = map_of (rev reps), gm_Excludes = excls\<rparr>\<rparr>"
    using assms
    by (simp add: block_def gomod_line_value gomod_line_open fold_requires fold_excludes fold_replaces
        scan_start_def empty_gomod_def del: append_Cons append_Nil)
  finally show ?thesis
    by (simp add: ParseGoMod_def Let_def assms(1) scan_start_def)
qed


text \<open>C19: reading back a written \<open>go.mod\<close>. When the real parser rejects the file, so that only the line scan
  counts, \<open>ParseGoMod\<close> returns exactly the module path, the go version, the requirements with their
  indirect marks, the excludes and the replace directives that were written, the last directive of a path
  winning.\<close>

theorem gomod_roundtrip:
  assumes "lax (gomod_text path version reqs reps excls) = None"
    and "value_ok path" and "value_ok version"
    and "list_all require_ok reqs" and "list_all replace_ok reps" and "list_all require_ok excls"
  shows "ParseGoMod lax (Inr (gomod_text path version reqs reps excls)) =
    Inr \<lparr>gm_ModulePath = path, gm_GoVersion = version, gm_Requirements = reqs,
         gm_Replaces = map_of (rev reps), gm_Excludes = excls\<rparr>"
  using assms by (rule ParseGoMod_text)

theorem gomod_roundtrip_witness:
  "ParseGoMod (\<lambda>_. None)
     (Inr (gomod_text ''example.com/app'' ''1.22''
            [\<lparr>md_Path = ''a.b/c'', md_Version = ''v1.0.0'', md_Indirect = False\<rparr>,
             \<lparr>md_Path = ''d.e/f'', md_Version = ''v0.1.0'', md_Indirect = True\<rparr>]
            [(''a.b/c'', \<lparr>rp_OldVersion = ''v1.0.0'', rp_New = \<lparr>md_Path = ''../c'', md_Version = [], md_Indirect = False\<rparr>\<rparr>)]
            [])) =
   Inr \<lparr>gm_ModulePath = ''example.com/app'', gm_GoVersion = ''1.22'',
        gm_Requirements =
          [\<lparr>md_Path = ''a.b/c'', md_Version = ''v1.0.0'', md_Indirect = False\<rparr>,
           \<lparr>md_Path = ''d.e/f'', md_Version = ''v0.1.0'', md_Indirect = True\<rparr>],
        gm_Replaces =
          map_of (rev [(''a.b/c'', \<lparr>rp_OldVersion = ''v1.0.0'',
                                  rp_New = \<lparr>md_Path = ''../c'', md_Version = [], md_Indirect = False\<rparr>\<rparr>)]),
        gm_Excludes = []\<rparr>"
  by (rule gomod_roundtrip) (rule refl | code_simp)+

section \<open>The checksum file\<close>

text \<open>What the scan keeps: the seen keys are those of the entries, and no key is kept twice.\<close>

definition gosum_key :: "gosum_entry \<Rightarrow> string" where
  "gosum_key e = se_Path e @ ''@'' @ se_Version e"

definition gosum_inv :: "string set \<times> gosum_entry list \<Rightarrow> bool" where
  "gosum_inv = (\<lambda>(seen, es). seen = gosum_key ` set es \<and> distinct (map gosum_key es))"

lemma gosum_line_inv: "gosum_inv st \<Longrightarrow> gosum_inv (gosum_line l st)"
  by (auto simp: gosum_inv_def gosum_line_def gosum_key_def Let_def split: prod.splits)

lemma gosum_inv_fold: "gosum_inv (fold gosum_line ls ({}, []))"
  by (rule fold_inv) (simp_all add: gosum_inv_def gosum_line_inv [unfolded gosum_inv_def])

lemma ParseGoSum_distinct: "distinct (map gosum_key (fst (ParseGoSum file)))"
proof (cases "file")
  case (Inl e)
  then show ?thesis by (simp add: ParseGoSum_def)
next
  case (Inr data)
  then show ?thesis
    using gosum_inv_fold [of "fst (scan_lines data)"]
    by (auto simp: ParseGoSum_def gosum_inv_def split: prod.splits)
qed

section \<open>A comment behind an opening parenthesis\<close>

text \<open>
  The \<open>go\<close> command accepts a comment behind the parenthesis that opens a block. The line scan compares the
  whole line with \<open>require (\<close>, so such a line opens no block, and the requirements of the block are lost; the
  line itself is read as a requirement of a module named \<open>(\<close>.
\<close>

lemma gomod_line_entry_closed:
  assumes "require_ok m" and "\<not> sc_require st" and "\<not> sc_replace st" and "\<not> sc_exclude st"
  shows "gomod_line (entry_line (require_words m)) st = st"
proof -
  have w: "list_all word_ok (tl (require_words m))" "tl (require_words m) \<noteq> []" "path_ok (md_Path m)"
    and eq: "md_Path m # tl (require_words m) = require_words m"
    using assms(1) require_words_ok [of m] by (auto simp: require_words_def require_ok_def)
  show ?thesis
    using gomod_line_entry [OF w, of st] assms by (simp add: eq)
qed

lemma commented_block_is_lost:
  assumes "list_all require_ok ms" and "\<not> sc_require st" and "\<not> sc_replace st" and "\<not> sc_exclude st"
  shows "fold gomod_line (map (entry_line \<circ> require_words) ms) (gomod_line ''require ( // direct'' st) =
    st\<lparr>sc_mod := sc_mod st\<lparr>gm_Requirements := gm_Requirements (sc_mod st)
      @ [\<lparr>md_Path = ''('', md_Version = ''//'', md_Indirect = False\<rparr>]\<rparr>\<rparr>"
proof -
  have t: "TrimSpace ''require ( // direct'' = ''require ( // direct''" by code_simp
  have p: "parseRequireLine ''( // direct'' = Some \<lparr>md_Path = ''('', md_Version = ''//'', md_Indirect = False\<rparr>"
    by code_simp
  have step: "gomod_line ''require ( // direct'' st = st\<lparr>sc_mod := sc_mod st\<lparr>gm_Requirements := gm_Requirements (sc_mod st)
      @ [\<lparr>md_Path = ''('', md_Version = ''//'', md_Indirect = False\<rparr>]\<rparr>\<rparr>"
    by (simp add: gomod_line_def Let_def t TrimPrefix_def add_require_def p)
  have "fold gomod_line (map (entry_line \<circ> require_words) ms) s = s"
    if "\<not> sc_require s" "\<not> sc_replace s" "\<not> sc_exclude s" for s
    using assms(1) that by (induction ms) (simp_all add: gomod_line_entry_closed)
  then show ?thesis
    using assms by (simp add: step)
qed

lemma indirect_needs_bare_mark:
  "parseRequireLine ''a.b/c v1.0.0 // indirect; tool'' =
   Some \<lparr>md_Path = ''a.b/c'', md_Version = ''v1.0.0'', md_Indirect = False\<rparr>"
  by code_simp

end
