(* ===== verification/Resolver_Graph.thy ===== *)
theory Resolver_Graph
  imports Go_Mod "HOL-Library.AList"
begin

text \<open>
  \<open>pkg/resolver/graph.go\<close>, first half: the graph, its edges, and its construction from \<open>go mod graph\<close>,
  from \<open>go.mod\<close> and from \<open>go.sum\<close>. A Go map that the code ranges over is an association list with
  distinct keys. The lemmas show that the breadth-first search ends with the least distance from the main
  module, that the selected version is the greatest one required, and what \<open>Edges\<close> lists.

  The output of the \<open>go\<close> command is an argument. \<open>golang.org/x/mod/semver\<close> is third-party: its \<open>Compare\<close> is
  the parameter \<open>cmp\<close>.
\<close>

section \<open>Data\<close>

record dependency =
  dp_Module :: gomodule
  dp_Direct :: bool
  dp_Depth :: int
  dp_UsedBy :: "string list"
  dp_Replaced :: bool
  dp_TransitiveDeps :: int
  dp_IsTestOnly :: tri
  dp_InBuild :: tri
  dp_Platforms :: "string list"

record depgraph =
  gr_Root :: string
  gr_Dependencies :: "(string \<times> dependency) list"
  gr_EdgeCount :: int
  gr_Source :: string
  gr_Notes :: "string list"

definition SourceGoModGraph :: string where
  "SourceGoModGraph = ''go_mod_graph''"

definition SourceGoModRequires :: string where
  "SourceGoModRequires = ''go_mod_requires''"

definition SourceDirectOnly :: string where
  "SourceDirectOnly = ''direct_only''"

definition set_dep :: "string \<Rightarrow> dependency \<Rightarrow> depgraph \<Rightarrow> depgraph" where
  "set_dep p d g = g\<lparr>gr_Dependencies := AList.update p d (gr_Dependencies g)\<rparr>"

definition dep_of :: "depgraph \<Rightarrow> string \<Rightarrow> dependency option" where
  "dep_of g = map_of (gr_Dependencies g)"

section \<open>Queries\<close>

definition SortedPaths :: "depgraph \<Rightarrow> string list" where
  "SortedPaths g = sort_strings (map fst (gr_Dependencies g))"

type_synonym edge = "string \<times> string"

definition edge_lt :: "edge \<Rightarrow> edge \<Rightarrow> bool" where
  "edge_lt a b = (if fst a \<noteq> fst b then fst a < fst b else snd a < snd b)"

definition edges_to :: "depgraph \<Rightarrow> string \<Rightarrow> edge list" where
  "edges_to g to =
     (case dep_of g to of
        None \<Rightarrow> []
      | Some d \<Rightarrow>
          map (\<lambda>from. (from, to))
            (filter (\<lambda>from. from \<noteq> to \<and> (from = gr_Root g \<or> dep_of g from \<noteq> None)) (dp_UsedBy d)))"

definition Edges :: "depgraph \<Rightarrow> edge list" where
  "Edges g = remdups_adj (sort_by edge_lt (concat (map (edges_to g) (SortedPaths g))))"

definition DirectCount :: "depgraph \<Rightarrow> nat" where
  "DirectCount g = length (filter (\<lambda>(p, d). dp_Direct d) (gr_Dependencies g))"

definition TransitiveCount :: "depgraph \<Rightarrow> nat" where
  "TransitiveCount g = length (filter (\<lambda>(p, d). \<not> dp_Direct d) (gr_Dependencies g))"

definition TotalEdges :: "depgraph \<Rightarrow> int" where
  "TotalEdges g = gr_EdgeCount g"

section \<open>The output of go mod graph\<close>

definition modulePath :: "string \<Rightarrow> string" where
  "modulePath s = (case Cut s ''@'' of None \<Rightarrow> s | Some (a, b) \<Rightarrow> a)"

definition moduleVersion :: "string \<Rightarrow> string" where
  "moduleVersion s = (case Cut s ''@'' of None \<Rightarrow> [] | Some (a, b) \<Rightarrow> b)"

definition containsStr :: "string list \<Rightarrow> string \<Rightarrow> bool" where
  "containsStr ss s = list_ex (\<lambda>v. v = s) ss"

text \<open>What the scan of the output collects; \<open>mg_edges\<close> counts the lines kept.\<close>

record mod_graph =
  mg_edges :: int
  mg_children :: "(string \<times> string list) list"
  mg_parents :: "(string \<times> string list) list"
  mg_all :: "(string \<times> string) list"

definition at_key :: "(string \<times> string list) list \<Rightarrow> string \<Rightarrow> string list" where
  "at_key m k = (case map_of m k of None \<Rightarrow> [] | Some vs \<Rightarrow> vs)"

definition add_once :: "string \<Rightarrow> string \<Rightarrow> (string \<times> string list) list \<Rightarrow> (string \<times> string list) list" where
  "add_once k v m = (if containsStr (at_key m k) v then m else AList.update k (at_key m k @ [v]) m)"

definition keep_highest :: "(string \<Rightarrow> string \<Rightarrow> int) \<Rightarrow> string \<Rightarrow> string \<Rightarrow> (string \<times> string) list \<Rightarrow> (string \<times> string) list" where
  "keep_highest cmp p v m =
     (case map_of m p of
        None \<Rightarrow> AList.update p v m
      | Some existing \<Rightarrow> if cmp v existing > 0 then AList.update p v m else m)"

text \<open>A kept line is a requirement of one module version on another.\<close>

definition line_edge :: "string \<Rightarrow> (string \<times> string) option" where
  "line_edge line =
     (let parts = Fields (TrimSpace line)
      in if length parts \<noteq> 2 then None
         else let fromP = modulePath (parts ! 0); toP = modulePath (parts ! 1)
              in if fromP = ''go'' \<or> toP = ''go'' then None
                 else if HasPrefix fromP ''toolchain'' \<or> HasPrefix toP ''toolchain'' then None
                 else Some (parts ! 0, parts ! 1))"

text \<open>
  The pseudo-module the lines are filtered for is named \<open>toolchain\<close>; the prefix test also drops every
  requirement on a module whose path merely starts with that word.
\<close>

lemma toolchain_prefix_drops_modules: "line_edge ''example.com/app toolchains.dev/kit@v1.0.0'' = None"
  by code_simp

definition graph_line :: "(string \<Rightarrow> string \<Rightarrow> int) \<Rightarrow> string \<Rightarrow> mod_graph \<Rightarrow> mod_graph" where
  "graph_line cmp line st =
     (case line_edge line of
        None \<Rightarrow> st
      | Some (from, to) \<Rightarrow>
          st\<lparr>mg_edges := mg_edges st + 1,
             mg_children := add_once (modulePath from) (modulePath to) (mg_children st),
             mg_parents := add_once (modulePath to) (modulePath from) (mg_parents st),
             mg_all := keep_highest cmp (modulePath to) (moduleVersion to) (mg_all st)\<rparr>)"

definition graph_start :: mod_graph where
  "graph_start = \<lparr>mg_edges = 0, mg_children = [], mg_parents = [], mg_all = []\<rparr>"

text \<open>The source does not read the scanner's error: a line beyond its buffer ends the scan silently.\<close>

definition read_graph :: "(string \<Rightarrow> string \<Rightarrow> int) \<Rightarrow> string \<Rightarrow> mod_graph" where
  "read_graph cmp out = fold (graph_line cmp) (fst (scan_lines out)) graph_start"

section \<open>Breadth-first search\<close>

type_synonym depths = "string \<Rightarrow> int option"

definition visit :: "int \<Rightarrow> string \<Rightarrow> depths \<times> string list \<Rightarrow> depths \<times> string list" where
  "visit d child = (\<lambda>(depths, queue).
     if depths child = None then (depths(child \<mapsto> d), queue @ [child]) else (depths, queue))"

definition visit_all :: "int \<Rightarrow> string list \<Rightarrow> depths \<times> string list \<Rightarrow> depths \<times> string list" where
  "visit_all d cs = fold (visit d) cs"

text \<open>Every module named as a child: the modules the search can still visit are among them.\<close>

definition child_names :: "(string \<times> string list) list \<Rightarrow> string list" where
  "child_names m = concat (map snd m)"

lemma at_key_child_names: "set (at_key m k) \<subseteq> set (child_names m)"
  by (cases "map_of m k") (force simp: at_key_def child_names_def dest: map_of_SomeD)+

definition unvisited :: "string set \<Rightarrow> depths \<Rightarrow> nat" where
  "unvisited U depths = card (U - dom depths)"

lemma visit_measure:
  assumes "finite U" and "c \<in> U" and "visit d c (depths, queue) = (depths', queue')"
  shows "2 * unvisited U depths' + length queue' \<le> 2 * unvisited U depths + length queue"
proof (cases "depths c = None")
  case True
  then have "U - dom depths' = (U - dom depths) - {c}" and "c \<in> U - dom depths" and "length queue' = length queue + 1"
    using assms by (auto simp: visit_def split: if_splits)
  then show ?thesis
    using assms(1) card_Suc_Diff1 [of "U - dom depths" c] by (simp add: unvisited_def)
next
  case False
  then show ?thesis
    using assms by (auto simp: visit_def)
qed

lemma visit_all_measure:
  assumes "finite U" and "set cs \<subseteq> U"
  shows "2 * unvisited U (fst (visit_all d cs st)) + length (snd (visit_all d cs st))
    \<le> 2 * unvisited U (fst st) + length (snd st)"
  using assms(2)
proof (induction cs arbitrary: st)
  case Nil
  then show ?case by (simp add: visit_all_def)
next
  case (Cons c cs)
  have "2 * unvisited U (fst (visit d c st)) + length (snd (visit d c st)) \<le> 2 * unvisited U (fst st) + length (snd st)"
    using visit_measure [OF assms(1), of c d "fst st" "snd st"] Cons.prems by (cases "visit d c st") auto
  then show ?case
    using Cons.IH [of "visit d c st"] Cons.prems by (simp add: visit_all_def)
qed

lemma visit_all_decreases:
  assumes "visit_all d (at_key m c) (D, Q) = (D', Q')"
  shows "2 * unvisited (set (child_names m)) D' + length Q' < Suc (2 * unvisited (set (child_names m)) D + length Q)"
  using visit_all_measure [OF finite_set at_key_child_names, where st = "(D, Q)"]
  by (metis assms fst_conv snd_conv le_imp_less_Suc)

function bfs :: "(string \<times> string list) list \<Rightarrow> depths \<Rightarrow> string list \<Rightarrow> depths" where
  "bfs children depths [] = depths"
| "bfs children depths (current # queue) =
     (case visit_all (the (depths current) + 1) (at_key children current) (depths, queue) of
        (depths', queue') \<Rightarrow> bfs children depths' queue')"
  by pat_completeness auto

termination bfs
  by (relation "measure (\<lambda>(m, depths, queue). 2 * unvisited (set (child_names m)) depths + length queue)")
    (auto split: prod.split intro: visit_all_decreases)

definition bfs_depths :: "(string \<times> string list) list \<Rightarrow> string \<Rightarrow> depths" where
  "bfs_depths children root = bfs children [root \<mapsto> -1] [root]"

section \<open>The search ends with the least distances\<close>

definition requires_rel :: "(string \<times> string list) list \<Rightarrow> (string \<times> string) set" where
  "requires_rel children = {(a, b). b \<in> set (at_key children a)}"

lemma visit_all_result:
  "visit_all k cs (D, Q) = (D', Q') \<Longrightarrow>
   (\<forall>x. D' x = (if D x = None \<and> x \<in> set cs then Some k else D x)) \<and>
   (\<exists>new. Q' = Q @ new \<and> set new = {x \<in> set cs. D x = None})"
proof (induction cs arbitrary: D Q)
  case Nil
  then show ?case by (simp add: visit_all_def)
next
  case (Cons c cs)
  show ?case
  proof (cases "D c = None")
    case True
    then have "visit_all k cs (D(c \<mapsto> k), Q @ [c]) = (D', Q')"
      using Cons.prems by (simp add: visit_all_def visit_def)
    from Cons.IH [OF this]
    obtain new where D': "\<forall>x. D' x = (if (D(c \<mapsto> k)) x = None \<and> x \<in> set cs then Some k else (D(c \<mapsto> k)) x)"
      and Q': "Q' = (Q @ [c]) @ new" and new: "set new = {x \<in> set cs. (D(c \<mapsto> k)) x = None}"
      by blast
    have "Q' = Q @ (c # new)" by (simp add: Q')
    moreover have "set (c # new) = {x \<in> set (c # cs). D x = None}"
      using True by (auto simp: new split: if_splits)
    moreover have "D' x = (if D x = None \<and> x \<in> set (c # cs) then Some k else D x)" for x
      using True by (cases "x = c") (simp_all add: D' [rule_format])
    ultimately show ?thesis by blast
  next
    case False
    then have "visit_all k cs (D, Q) = (D', Q')"
      using Cons.prems by (auto simp: visit_all_def visit_def)
    from Cons.IH [OF this] False show ?thesis by auto
  qed
qed

definition bfs_inv :: "(string \<times> string list) list \<Rightarrow> string \<Rightarrow> depths \<Rightarrow> string list \<Rightarrow> bool" where
  "bfs_inv children root D Q \<longleftrightarrow>
     D root = Some (-1)
     \<and> (\<forall>p d. D p = Some d \<longrightarrow> -1 \<le> d \<and> (root, p) \<in> requires_rel children ^^ nat (d + 1))
     \<and> set Q \<subseteq> dom D
     \<and> sorted (map (the \<circ> D) Q)
     \<and> (Q \<noteq> [] \<longrightarrow> (\<forall>p\<in>dom D. the (D p) \<le> the (D (hd Q)) + 1))
     \<and> (\<forall>p d. D p = Some d \<and> p \<notin> set Q \<longrightarrow> (\<forall>c\<in>set (at_key children p). \<exists>d'. D c = Some d' \<and> d' \<le> d + 1))"

lemma bfs_inv_start: "bfs_inv children root [root \<mapsto> -1] [root]"
  by (auto simp: bfs_inv_def)

lemma bfs_inv_step:
  assumes inv: "bfs_inv children root D (q # Q)"
    and step: "visit_all (the (D q) + 1) (at_key children q) (D, Q) = (D', Q')"
  shows "bfs_inv children root D' Q'"
proof -
  let ?E = "requires_rel children"
  obtain k where k: "D q = Some k"
    using inv by (auto simp: bfs_inv_def)
  from visit_all_result [OF step]
  obtain new where D': "\<And>x. D' x = (if D x = None \<and> x \<in> set (at_key children q) then Some (k + 1) else D x)"
    and Q': "Q' = Q @ new" and new: "set new = {x \<in> set (at_key children q). D x = None}"
    using k by auto
  have old: "D' x = Some d" if "D x = Some d" for x d using that by (simp add: D')
  have dist: "-1 \<le> d \<and> (root, p) \<in> ?E ^^ nat (d + 1)" if "D p = Some d" for p d
    using inv that by (simp add: bfs_inv_def)
  have most: "\<forall>p\<in>dom D. the (D p) \<le> k + 1" and least: "\<forall>p\<in>set Q. k \<le> the (D p)"
    using inv k by (simp_all add: bfs_inv_def)
  have up: "d \<le> k + 1" if "D p = Some d" for p d
    using that most by (metis domI option.sel)
  have low: "k \<le> d" if "p \<in> set Q" "D p = Some d" for p d
    using that least by (metis option.sel)
  have Qdom: "set Q \<subseteq> dom D" using inv by (simp add: bfs_inv_def)
  have same: "the (D' p) = the (D p)" if "p \<in> set Q" for p
    using that Qdom old by (metis domIff option.collapse subset_iff)
  have a: "D' root = Some (-1)"
    using inv old by (simp add: bfs_inv_def)
  have b: "-1 \<le> d \<and> (root, p) \<in> ?E ^^ nat (d + 1)" if "D' p = Some d" for p d
  proof (cases "D p = None \<and> p \<in> set (at_key children q)")
    case True
    then have "(q, p) \<in> ?E" and "d = k + 1" using that by (simp_all add: D' requires_rel_def)
    moreover have "nat (k + 1 + 1) = Suc (nat (k + 1))" using dist [OF k] by arith
    ultimately show ?thesis using dist [OF k] by auto
  next
    case False
    then show ?thesis using that dist by (auto simp: D' split: if_splits)
  qed
  have c: "set Q' \<subseteq> dom D'"
    using Qdom by (auto simp: Q' new D' dom_def)
  have newk: "the (D' p) = k + 1" if "p \<in> set new" for p
    using that new by (simp add: D')
  have d: "sorted (map (the \<circ> D') Q')"
  proof -
    have "map (the \<circ> D') Q = map (the \<circ> D) Q" using same by simp
    moreover have "sorted (map (the \<circ> D) Q)" using inv by (simp add: bfs_inv_def)
    ultimately have s1: "sorted (map (the \<circ> D') Q)" by (simp only:)
    have "map (the \<circ> D') new = replicate (length new) (k + 1)"
      using newk by (simp add: map_eq_conv map_replicate_const [symmetric])
    then have s2: "sorted (map (the \<circ> D') new)" by simp
    have "the (D' p) \<le> k + 1" if "p \<in> set Q" for p
      using same [OF that] up Qdom that by (metis domIff option.collapse subset_iff)
    then show ?thesis
      using s1 s2 unfolding Q' map_append sorted_append by (simp add: newk)
  qed
  have e: "the (D' p) \<le> the (D' (hd Q')) + 1" if "Q' \<noteq> []" "p \<in> dom D'" for p
  proof -
    have "k \<le> the (D' (hd Q'))"
    proof (cases Q)
      case Nil
      then show ?thesis using that(1) newk [of "hd new"] by (simp add: Q')
    next
      case (Cons q1 Q1)
      then show ?thesis
        using same [of q1] low [of q1] Qdom by (auto simp: Q')
    qed
    moreover have "the (D' p) \<le> k + 1"
      using that(2) up by (auto simp: D' split: if_splits)
    ultimately show ?thesis by linarith
  qed
  have f: "\<exists>d'. D' c = Some d' \<and> d' \<le> d + 1" if "D' p = Some d" "p \<notin> set Q'" "c \<in> set (at_key children p)" for p d c
  proof (cases "p = q")
    case True
    then have "d = k" using that(1) k old by fastforce
    show ?thesis
    proof (cases "D c")
      case None
      then show ?thesis using that(3) True by (simp add: D' \<open>d = k\<close>)
    next
      case (Some d')
      then show ?thesis using up [OF Some] old [OF Some] by (simp add: \<open>d = k\<close>)
    qed
  next
    case False
    have "D p = Some d" and "p \<notin> set (q # Q)"
      using that new False by (auto simp: D' Q' split: if_splits)
    then have "\<exists>d'. D c = Some d' \<and> d' \<le> d + 1"
      using inv that(3) unfolding bfs_inv_def by blast
    then show ?thesis using old by blast
  qed
  show ?thesis
    unfolding bfs_inv_def using a b c d e f by blast
qed

lemma bfs_inv_bfs: "bfs_inv children root D Q \<Longrightarrow> bfs_inv children root (bfs children D Q) []"
proof (induction children D Q rule: bfs.induct)
  case (1 children depths)
  then show ?case by simp
next
  case (2 children depths current queue)
  obtain D' Q' where s: "visit_all (the (depths current) + 1) (at_key children current) (depths, queue) = (D', Q')"
    by (cases "visit_all (the (depths current) + 1) (at_key children current) (depths, queue)")
  then show ?case
    using 2 bfs_inv_step [OF "2.prems" s] by simp
qed

lemma bfs_within:
  assumes "bfs_inv children root D []" and "(root, p) \<in> requires_rel children ^^ n"
  shows "\<exists>d. D p = Some d \<and> d + 1 \<le> int n"
  using assms(2)
proof (induction n arbitrary: p)
  case 0
  then show ?case using assms(1) by (simp add: bfs_inv_def)
next
  case (Suc n)
  then obtain a where "(root, a) \<in> requires_rel children ^^ n" and e: "p \<in> set (at_key children a)"
    by (auto simp: requires_rel_def)
  with Suc.IH obtain d where d: "D a = Some d" "d + 1 \<le> int n" by blast
  then have "\<exists>d'. D p = Some d' \<and> d' \<le> d + 1"
    using assms(1) e unfolding bfs_inv_def by (metis list.set(1) empty_iff)
  then show ?case using d by fastforce
qed

text \<open>The distance from the main module, as the search promises it.\<close>

definition distance :: "(string \<times> string list) list \<Rightarrow> string \<Rightarrow> string \<Rightarrow> nat" where
  "distance children root p = (LEAST n. (root, p) \<in> requires_rel children ^^ n)"

lemma bfs_depths_distance:
  "bfs_depths children root p =
     (if (root, p) \<in> (requires_rel children)\<^sup>* then Some (int (distance children root p) - 1) else None)"
proof -
  define D where "D = bfs_depths children root"
  have inv: "bfs_inv children root D []"
    unfolding D_def bfs_depths_def by (rule bfs_inv_bfs) (rule bfs_inv_start)
  have sound: "-1 \<le> d \<and> (root, p) \<in> requires_rel children ^^ nat (d + 1)" if "D p = Some d" for d
    using inv that by (simp add: bfs_inv_def)
  show ?thesis
  proof (cases "D p")
    case None
    then have "(root, p) \<notin> (requires_rel children)\<^sup>*"
      using bfs_within [OF inv] by (fastforce simp: rtrancl_power)
    then show ?thesis using None by (simp add: D_def)
  next
    case (Some d)
    have path: "(root, p) \<in> requires_rel children ^^ nat (d + 1)" and ge: "-1 \<le> d" using sound [OF Some] by auto
    have "nat (d + 1) \<le> n" if "(root, p) \<in> requires_rel children ^^ n" for n
      using bfs_within [OF inv that] Some by auto
    then have "distance children root p = nat (d + 1)"
      unfolding distance_def using path by (rule Least_equality [rotated])
    moreover have "(root, p) \<in> (requires_rel children)\<^sup>*"
      using path by (metis relpow_imp_rtrancl)
    ultimately show ?thesis using Some ge by (simp add: D_def)
  qed
qed

section \<open>The graph\<close>

definition isDirectPath :: "gomod \<Rightarrow> string \<Rightarrow> bool" where
  "isDirectPath gm p = list_ex (\<lambda>r. \<not> md_Indirect r \<and> md_Path r = p) (gm_Requirements gm)"

definition is_replaced :: "gomod \<Rightarrow> string \<Rightarrow> string \<Rightarrow> bool" where
  "is_replaced gm p v = (ReplacementFor gm p v \<noteq> None)"

definition graph_depth :: "depths \<Rightarrow> string \<Rightarrow> int" where
  "graph_depth depths p = (case depths p of None \<Rightarrow> 1 | Some d \<Rightarrow> if d \<ge> 0 then d else 1)"

definition graph_dep :: "gomod \<Rightarrow> mod_graph \<Rightarrow> depths \<Rightarrow> string \<Rightarrow> string \<Rightarrow> dependency" where
  "graph_dep gm st depths p v =
     \<lparr>dp_Module = \<lparr>md_Path = p, md_Version = v, md_Indirect = (\<not> isDirectPath gm p)\<rparr>,
      dp_Direct = isDirectPath gm p, dp_Depth = graph_depth depths p, dp_UsedBy = at_key (mg_parents st) p,
      dp_Replaced = is_replaced gm p v, dp_TransitiveDeps = int (length (at_key (mg_children st) p)),
      dp_IsTestOnly = None, dp_InBuild = None, dp_Platforms = []\<rparr>"

definition populate :: "gomod \<Rightarrow> mod_graph \<Rightarrow> depths \<Rightarrow> depgraph \<Rightarrow> depgraph" where
  "populate gm st depths g =
     fold (\<lambda>(p, v) g. if p = gm_ModulePath gm then g else set_dep p (graph_dep gm st depths p v) g) (mg_all st) g"

definition empty_graph :: "gomod \<Rightarrow> depgraph" where
  "empty_graph gm =
     \<lparr>gr_Root = gm_ModulePath gm, gr_Dependencies = [], gr_EdgeCount = 0, gr_Source = [], gr_Notes = []\<rparr>"

definition resolveWithGoModGraph ::
  "(string \<Rightarrow> string \<Rightarrow> int) \<Rightarrow> string + string \<Rightarrow> gomod \<Rightarrow> depgraph \<Rightarrow> string + depgraph" where
  "resolveWithGoModGraph cmp out gm g =
     (case out of
        Inl err \<Rightarrow> Inl (''go mod graph: '' @ err)
      | Inr text \<Rightarrow>
          (let st = read_graph cmp text; depths = bfs_depths (mg_children st) (gm_ModulePath gm)
           in Inr (populate gm st depths (g\<lparr>gr_EdgeCount := mg_edges st, gr_Source := SourceGoModGraph\<rparr>))))"

definition depthFromIndirect :: "bool \<Rightarrow> int" where
  "depthFromIndirect indirect = (if indirect then 1 else 0)"

definition required_dep :: "gomod \<Rightarrow> gomodule \<Rightarrow> dependency" where
  "required_dep gm req =
     \<lparr>dp_Module = req, dp_Direct = (\<not> md_Indirect req), dp_Depth = depthFromIndirect (md_Indirect req),
      dp_UsedBy = [gm_ModulePath gm], dp_Replaced = is_replaced gm (md_Path req) (md_Version req),
      dp_TransitiveDeps = 0, dp_IsTestOnly = None, dp_InBuild = None, dp_Platforms = []\<rparr>"

definition add_required :: "gomod \<Rightarrow> gomodule list \<Rightarrow> depgraph \<Rightarrow> depgraph" where
  "add_required gm reqs g = fold (\<lambda>req. set_dep (md_Path req) (required_dep gm req)) reqs g"

definition from_go_sum :: string where
  "from_go_sum = ''(from go.sum)''"

definition gosum_dep :: "gomod \<Rightarrow> gosum_entry \<Rightarrow> dependency" where
  "gosum_dep gm e =
     \<lparr>dp_Module = \<lparr>md_Path = se_Path e, md_Version = se_Version e, md_Indirect = True\<rparr>,
      dp_Direct = False, dp_Depth = 1, dp_UsedBy = [from_go_sum],
      dp_Replaced = is_replaced gm (se_Path e) (se_Version e),
      dp_TransitiveDeps = 0, dp_IsTestOnly = None, dp_InBuild = None, dp_Platforms = []\<rparr>"

definition addFromGoSum :: "string + string \<Rightarrow> gomod \<Rightarrow> depgraph \<Rightarrow> depgraph \<times> string option" where
  "addFromGoSum go_sum gm g =
     (case ParseGoSum go_sum of (entries, err) \<Rightarrow>
        (case err of
           Some e \<Rightarrow> (g, Some e)
         | None \<Rightarrow>
             (fold (\<lambda>e g. if se_Path e = gm_ModulePath gm \<or> dep_of g (se_Path e) \<noteq> None then g
                          else set_dep (se_Path e) (gosum_dep gm e) g) entries g, None)))"

section \<open>The keys of the graph\<close>

lemma dep_of_set_dep [simp]: "dep_of (set_dep p d g) = (dep_of g)(p \<mapsto> d)"
  by (simp add: dep_of_def set_dep_def update_conv')

lemma set_dep_fields [simp]:
  "gr_Root (set_dep p d g) = gr_Root g" "gr_EdgeCount (set_dep p d g) = gr_EdgeCount g"
  "gr_Source (set_dep p d g) = gr_Source g" "gr_Notes (set_dep p d g) = gr_Notes g"
  by (simp_all add: set_dep_def)

lemma distinct_set_dep:
  "distinct (map fst (gr_Dependencies g)) \<Longrightarrow> distinct (map fst (gr_Dependencies (set_dep p d g)))"
  by (simp add: set_dep_def distinct_update)

text \<open>
  The selected version: the versions a module is required at are those of the kept lines, the version the
  graph records is one of them, and none of them is greater.
\<close>

definition required_versions :: "string \<Rightarrow> string \<Rightarrow> string set" where
  "required_versions out p =
     {moduleVersion to | line from to.
        line \<in> set (fst (scan_lines out)) \<and> line_edge line = Some (from, to) \<and> modulePath to = p}"

definition lines_versions :: "string list \<Rightarrow> string \<Rightarrow> string set" where
  "lines_versions ls p =
     {moduleVersion to | line from to. line \<in> set ls \<and> line_edge line = Some (from, to) \<and> modulePath to = p}"

lemma lines_versions_Nil [simp]: "lines_versions [] p = {}"
  by (simp add: lines_versions_def)

lemma lines_versions_snoc:
  "lines_versions (ls @ [l]) p = lines_versions ls p \<union>
     (case line_edge l of None \<Rightarrow> {} | Some (from, to) \<Rightarrow> if modulePath to = p then {moduleVersion to} else {})"
  by (auto simp: lines_versions_def split: option.splits)

lemma highest_step:
  assumes "weak_order (\<lambda>a b. cmp b a > 0)" and "cmp v e > (0 :: int)" and "\<forall>w\<in>W. \<not> cmp w e > 0"
  shows "\<forall>w\<in>W. \<not> cmp w v > 0"
  using weak_order.neg_trans [OF assms(1)] weak_order.asym [OF assms(1)] assms(2,3) by blast

lemma mg_all_highest:
  assumes "weak_order (\<lambda>a b. cmp b a > 0)"
  shows "(case map_of (mg_all (fold (graph_line cmp) ls graph_start)) p of
           None \<Rightarrow> lines_versions ls p = {}
         | Some v \<Rightarrow> v \<in> lines_versions ls p \<and> (\<forall>w\<in>lines_versions ls p. \<not> cmp w v > 0))"
proof (induction ls rule: rev_induct)
  case Nil
  then show ?case by (simp add: graph_start_def)
next
  case (snoc l ls)
  let ?st = "fold (graph_line cmp) ls graph_start"
  show ?case
  proof (cases "line_edge l")
    case None
    then have "lines_versions (ls @ [l]) p = lines_versions ls p"
      and "fold (graph_line cmp) (ls @ [l]) graph_start = ?st"
      by (simp_all add: graph_line_def lines_versions_snoc)
    then show ?thesis using snoc by presburger
  next
    case (Some ft)
    obtain src to where ft: "ft = (src, to)" by (cases ft)
    let ?q = "modulePath to" and ?v = "moduleVersion to"
    have all: "mg_all (fold (graph_line cmp) (ls @ [l]) graph_start) = keep_highest cmp ?q ?v (mg_all ?st)"
      by (simp add: graph_line_def Some ft)
    have vs: "lines_versions (ls @ [l]) p = lines_versions ls p \<union> (if ?q = p then {?v} else {})"
      by (simp add: lines_versions_snoc Some ft)
    have new: "map_of (mg_all (fold (graph_line cmp) (ls @ [l]) graph_start)) p =
        (if ?q \<noteq> p then map_of (mg_all ?st) p
         else case map_of (mg_all ?st) p of
                None \<Rightarrow> Some ?v
              | Some e \<Rightarrow> if cmp ?v e > 0 then Some ?v else Some e)"
      unfolding all keep_highest_def by (auto simp: update_conv' split: option.splits)
    show ?thesis
      using snoc highest_step [OF assms, of ?v _ "lines_versions ls p"] weak_order.irrefl [OF assms]
      unfolding new vs by (cases "map_of (mg_all ?st) p") auto
  qed
qed

section \<open>Modules and requirements of the graph\<close>

lemma at_key_add_once:
  "at_key (add_once k v m) x = (if x = k \<and> v \<notin> set (at_key m k) then at_key m k @ [v] else at_key m x)"
  by (auto simp: add_once_def containsStr_def at_key_def list_ex_iff update_conv')

text \<open>The requirements of the output, between module paths.\<close>

definition lines_requires :: "string list \<Rightarrow> (string \<times> string) set" where
  "lines_requires ls = {(modulePath a, modulePath b) | l a b. l \<in> set ls \<and> line_edge l = Some (a, b)}"

lemma lines_requires_Nil [simp]: "lines_requires [] = {}"
  by (simp add: lines_requires_def)

lemma lines_requires_snoc:
  "lines_requires (ls @ [l]) = lines_requires ls \<union>
     (case line_edge l of None \<Rightarrow> {} | Some (a, b) \<Rightarrow> {(modulePath a, modulePath b)})"
  by (auto simp: lines_requires_def split: option.splits)

lemma graph_lines_adjacent:
  "(b \<in> set (at_key (mg_children (fold (graph_line cmp) ls graph_start)) a) \<longleftrightarrow> (a, b) \<in> lines_requires ls) \<and>
   (a \<in> set (at_key (mg_parents (fold (graph_line cmp) ls graph_start)) b) \<longleftrightarrow> (a, b) \<in> lines_requires ls)"
proof (induction ls rule: rev_induct)
  case Nil
  then show ?case by (simp add: graph_start_def at_key_def)
next
  case (snoc l ls)
  show ?case
  proof (cases "line_edge l")
    case None
    then show ?thesis using snoc by (simp add: graph_line_def lines_requires_snoc)
  next
    case (Some e)
    then show ?thesis using snoc
      by (cases e) (auto simp: graph_line_def lines_requires_snoc at_key_add_once split: if_splits)
  qed
qed

lemma mg_all_requires:
  "map_of (mg_all (fold (graph_line cmp) ls graph_start)) p \<noteq> None \<Longrightarrow> \<exists>a. (a, p) \<in> lines_requires ls"
proof (induction ls rule: rev_induct)
  case Nil
  then show ?case by (simp add: graph_start_def)
next
  case (snoc l ls)
  then show ?case
    by (cases "line_edge l")
      (auto simp: graph_line_def lines_requires_snoc keep_highest_def update_conv' split: option.splits if_splits)
qed

definition graph_requires :: "string \<Rightarrow> (string \<times> string) set" where
  "graph_requires out = lines_requires (fst (scan_lines out))"

lemma requires_rel_lines: "requires_rel (mg_children (read_graph cmp out)) = graph_requires out"
  using graph_lines_adjacent [of _ cmp "fst (scan_lines out)"]
  by (auto simp: requires_rel_def graph_requires_def read_graph_def)

lemma parents_lines: "set (at_key (mg_parents (read_graph cmp out)) b) = {a. (a, b) \<in> graph_requires out}"
  using graph_lines_adjacent [of b cmp "fst (scan_lines out)"]
  by (auto simp: graph_requires_def read_graph_def)

text \<open>What populating the graph from an association list with distinct keys gives.\<close>

lemma fold_populate:
  assumes "distinct (map fst kvs)"
  shows "dep_of (fold (\<lambda>(p, v) g. if p = root then g else set_dep p (mk p v) g) kvs g) p =
    (if p = root then dep_of g p else case map_of kvs p of None \<Rightarrow> dep_of g p | Some v \<Rightarrow> Some (mk p v))"
  using assms
proof (induction kvs arbitrary: g)
  case Nil
  then show ?case by simp
next
  case (Cons kv kvs)
  obtain k v where kv: "kv = (k, v)" by (cases kv)
  have "map_of kvs k = None"
    using Cons.prems by (simp add: kv map_of_eq_None_iff)
  then show ?case
    using Cons by (auto simp: kv split: option.splits)
qed

lemma fold_populate_fields:
  "distinct (map fst (gr_Dependencies g)) \<Longrightarrow>
   distinct (map fst (gr_Dependencies (fold (\<lambda>(p, v) g. if p = root then g else set_dep p (mk p v) g) kvs g)))"
  "gr_Root (fold (\<lambda>(p, v) g. if p = root then g else set_dep p (mk p v) g) kvs g) = gr_Root g"
  "gr_Notes (fold (\<lambda>(p, v) g. if p = root then g else set_dep p (mk p v) g) kvs g) = gr_Notes g"
  by (induction kvs arbitrary: g) (auto simp: distinct_set_dep)

lemma keep_highest_distinct: "distinct (map fst m) \<Longrightarrow> distinct (map fst (keep_highest cmp p v m))"
  by (auto simp: keep_highest_def distinct_update split: option.splits)

lemma mg_all_distinct: "distinct (map fst (mg_all (fold (graph_line cmp) ls graph_start)))"
proof (rule fold_inv [where P = "\<lambda>st. distinct (map fst (mg_all st))"])
  show "distinct (map fst (mg_all graph_start))" by (simp add: graph_start_def)
next
  fix l and st :: mod_graph
  assume "distinct (map fst (mg_all st))"
  then show "distinct (map fst (mg_all (graph_line cmp l st)))"
    by (cases "line_edge l") (auto simp: graph_line_def keep_highest_distinct)
qed

lemma resolve_graph_dep:
  assumes "resolveWithGoModGraph cmp (Inr out) gm (empty_graph gm) = Inr g"
  shows "dep_of g p =
    (if p = gm_ModulePath gm then None
     else map_option (graph_dep gm (read_graph cmp out) (bfs_depths (mg_children (read_graph cmp out)) (gm_ModulePath gm)) p)
            (map_of (mg_all (read_graph cmp out)) p))"
proof -
  have e: "dep_of (empty_graph gm\<lparr>gr_EdgeCount := n, gr_Source := s\<rparr>) q = None" for n s q
    by (simp add: dep_of_def empty_graph_def)
  show ?thesis
    using assms mg_all_distinct [of cmp "fst (scan_lines out)"]
    by (auto simp: resolveWithGoModGraph_def Let_def populate_def fold_populate read_graph_def e split: option.splits)
qed

text \<open>C16: the depth of a module of the graph built from \<open>go mod graph\<close> is its least distance from the main
  module, in requirements, less one; 1 for a module no requirement chain reaches.\<close>

theorem depth_is_distance:
  assumes "resolveWithGoModGraph cmp (Inr out) gm (empty_graph gm) = Inr g" and "dep_of g p = Some d"
  shows "dp_Depth d =
    (if (gm_ModulePath gm, p) \<in> (graph_requires out)\<^sup>*
     then int (LEAST n. (gm_ModulePath gm, p) \<in> graph_requires out ^^ n) - 1 else 1)"
proof -
  let ?root = "gm_ModulePath gm" and ?m = "mg_children (read_graph cmp out)"
  have ne: "p \<noteq> ?root" and d: "dp_Depth d = graph_depth (bfs_depths ?m ?root) p"
    using assms(2) by (auto simp: resolve_graph_dep [OF assms(1)] graph_dep_def split: if_splits)
  have "distance ?m ?root p \<noteq> 0" if "(?root, p) \<in> (requires_rel ?m)\<^sup>*"
  proof
    assume "distance ?m ?root p = 0"
    then have "(?root, p) \<in> requires_rel ?m ^^ 0"
      unfolding distance_def using that by (metis LeastI_ex rtrancl_power)
    then show False using ne by simp
  qed
  then show ?thesis
    unfolding d graph_depth_def bfs_depths_distance by (auto simp: requires_rel_lines distance_def)
qed

text \<open>A small output: the main module \<open>m\<close> requires \<open>a\<close> and \<open>b\<close>, and \<open>a\<close> requires a later \<open>b\<close>.\<close>

definition ex_out :: string where
  "ex_out = Join [''m a@v1'', ''m b@v1'', ''a@v1 b@v2'', ''b@v2 c@v1''] [CHR 0x0A]"

definition ex_gm :: gomod where
  "ex_gm = empty_gomod\<lparr>gm_ModulePath := ''m''\<rparr>"

definition ex_cmp :: "string \<Rightarrow> string \<Rightarrow> int" where
  "ex_cmp a b = (if a < b then -1 else if a = b then 0 else 1)"

definition ex_graph :: depgraph where
  "ex_graph = projr (resolveWithGoModGraph ex_cmp (Inr ex_out) ex_gm (empty_graph ex_gm))"

lemma ex_graph: "resolveWithGoModGraph ex_cmp (Inr ex_out) ex_gm (empty_graph ex_gm) = Inr ex_graph"
  by (simp add: ex_graph_def resolveWithGoModGraph_def Let_def)

lemma ex_cmp_order: "weak_order (\<lambda>a b. ex_cmp b a > 0)"
  by unfold_locales (auto simp: ex_cmp_def split: if_splits)

lemma ex_graph_dep: "dep_of ex_graph ''c'' = Some (the (dep_of ex_graph ''c''))"
proof -
  have "dep_of ex_graph ''c'' \<noteq> None" by code_simp
  then show ?thesis by auto
qed

theorem depth_is_distance_witness:
  "dp_Depth (the (dep_of ex_graph ''c'')) =
    (if (gm_ModulePath ex_gm, ''c'') \<in> (graph_requires ex_out)\<^sup>*
     then int (LEAST n. (gm_ModulePath ex_gm, ''c'') \<in> graph_requires ex_out ^^ n) - 1 else 1)"
  by (rule depth_is_distance [OF ex_graph ex_graph_dep])

text \<open>C15: the graph built from \<open>go mod graph\<close> has exactly the modules some kept line requires, the main module
  apart; each has one of the versions required of it, and none of them is greater (minimal version
  selection); and its requirers are exactly the modules with such a line. The comparison of versions
  is assumed to be a weak order, as \<open>semver.Compare\<close> documents.\<close>

theorem selected_version_is_greatest:
  assumes "weak_order (\<lambda>a b. cmp b a > (0 :: int))"
    and "resolveWithGoModGraph cmp (Inr out) gm (empty_graph gm) = Inr g"
  shows "case dep_of g p of
    None \<Rightarrow> p = gm_ModulePath gm \<or> required_versions out p = {}
  | Some d \<Rightarrow>
      p \<noteq> gm_ModulePath gm \<and> md_Path (dp_Module d) = p
      \<and> md_Version (dp_Module d) \<in> required_versions out p
      \<and> {w \<in> required_versions out p. cmp w (md_Version (dp_Module d)) > 0} = {}
      \<and> set (dp_UsedBy d) = {a. (a, p) \<in> graph_requires out}"
proof -
  have v: "required_versions out p = lines_versions (fst (scan_lines out)) p"
    by (simp add: required_versions_def lines_versions_def)
  show ?thesis
    using mg_all_highest [OF assms(1), of "fst (scan_lines out)" p]
    unfolding resolve_graph_dep [OF assms(2)] v read_graph_def [symmetric]
    by (cases "map_of (mg_all (read_graph cmp out)) p") (auto simp: graph_dep_def parents_lines)
qed

theorem selected_version_is_greatest_witness:
  "case dep_of ex_graph ''c'' of
    None \<Rightarrow> ''c'' = gm_ModulePath ex_gm \<or> required_versions ex_out ''c'' = {}
  | Some d \<Rightarrow>
      ''c'' \<noteq> gm_ModulePath ex_gm \<and> md_Path (dp_Module d) = ''c''
      \<and> md_Version (dp_Module d) \<in> required_versions ex_out ''c''
      \<and> {w \<in> required_versions ex_out ''c''. ex_cmp w (md_Version (dp_Module d)) > 0} = {}
      \<and> set (dp_UsedBy d) = {a. (a, ''c'') \<in> graph_requires ex_out}"
  by (rule selected_version_is_greatest [OF ex_cmp_order ex_graph])

section \<open>The edges\<close>

context total_strict_order
begin

lemma sorted_remdups_adj:
  "sorted_wrt (\<lambda>a b. \<not> lt b a) xs \<Longrightarrow> sorted_wrt lt (remdups_adj xs)"
proof (induction xs rule: remdups_adj.induct)
  case (3 x y xs)
  show ?case
  proof (cases "x = y")
    case True
    then show ?thesis using 3 by simp
  next
    case False
    have "lt x y" using 3(3) False total by auto
    moreover have "lt x z" if "z \<in> set xs" for z
      using that 3(3) neg_trans [OF \<open>lt x y\<close>, of z] by auto
    ultimately show ?thesis using 3 False by (auto simp: remdups_adj_set)
  qed
qed simp_all

end

interpretation edge_order: total_strict_order edge_lt
  by unfold_locales (auto simp: edge_lt_def split: if_splits)

lemma in_edges_to:
  "(a, b) \<in> set (edges_to g t) \<longleftrightarrow>
   b = t \<and> a \<noteq> t \<and> (a = gr_Root g \<or> dep_of g a \<noteq> None) \<and>
   (case dep_of g t of None \<Rightarrow> False | Some d \<Rightarrow> a \<in> set (dp_UsedBy d))"
  by (cases "dep_of g t") (auto simp: edges_to_def)

lemma in_Edges: "(a, b) \<in> set (Edges g) \<longleftrightarrow> b \<in> set (SortedPaths g) \<and> (a, b) \<in> set (edges_to g b)"
  by (auto simp: Edges_def in_edges_to)

lemma in_SortedPaths: "p \<in> set (SortedPaths g) \<longleftrightarrow> dep_of g p \<noteq> None"
  by (auto simp: SortedPaths_def dep_of_def map_of_eq_None_iff)

text \<open>\<open>Edges\<close> lists, in strictly ascending order, exactly the pairs of a module and a requirer of it that
  is the main module or a module of the graph, self-requirements left out.\<close>

theorem edges_exact:
  "set (Edges g) =
     {(from, to). from \<noteq> to \<and> from \<in> insert (gr_Root g) (dom (dep_of g))
        \<and> (case dep_of g to of None \<Rightarrow> False | Some d \<Rightarrow> from \<in> set (dp_UsedBy d))}
   \<and> sorted_wrt edge_lt (Edges g)"
proof -
  have "set (Edges g) =
     {(from, to). from \<noteq> to \<and> from \<in> insert (gr_Root g) (dom (dep_of g))
        \<and> (case dep_of g to of None \<Rightarrow> False | Some d \<Rightarrow> from \<in> set (dp_UsedBy d))}"
    by (auto simp: in_Edges in_edges_to in_SortedPaths dom_def split: option.splits)
  moreover have "sorted_wrt edge_lt (Edges g)"
    unfolding Edges_def by (rule edge_order.sorted_remdups_adj) (rule edge_order.sorted_sort_by)
  ultimately show ?thesis by blast
qed

end
