(* ===== verification/Resolver_Classify.thy ===== *)
theory Resolver_Classify
  imports Resolver_Graph
begin

text \<open>
  \<open>pkg/resolver/graph.go\<close>, second half: the \<open>go list\<close> runs for every platform, their merging, the
  classification of every module as production, test-only or outside the build, and \<open>Resolve\<close>, which
  composes the parts. What one run of the \<open>go\<close> command printed is an argument (a function of its
  environment and arguments); the runs are independent, so running them at once does not matter.
\<close>

section \<open>Reachable modules\<close>

definition used_children :: "depgraph \<Rightarrow> string \<Rightarrow> string list" where
  "used_children g parent =
     concat (map (\<lambda>(p, d). map (\<lambda>_. p) (filter (\<lambda>u. u = parent) (dp_UsedBy d))) (gr_Dependencies g))"

definition see :: "string \<Rightarrow> string \<Rightarrow> string list \<times> string list \<Rightarrow> string list \<times> string list" where
  "see root child = (\<lambda>(seen, queue).
     if child = root \<or> child \<in> set seen then (seen, queue) else (child # seen, queue @ [child]))"

definition see_all :: "string \<Rightarrow> string list \<Rightarrow> string list \<times> string list \<Rightarrow> string list \<times> string list" where
  "see_all root cs = fold (see root) cs"

definition unseen :: "depgraph \<Rightarrow> string list \<Rightarrow> nat" where
  "unseen g seen = card (set (map fst (gr_Dependencies g)) - set seen)"

lemma used_children_iff:
  "c \<in> set (used_children g p) \<longleftrightarrow> (\<exists>d. (c, d) \<in> set (gr_Dependencies g) \<and> p \<in> set (dp_UsedBy d))"
  by (force simp: used_children_def)

lemma used_children_keys: "set (used_children g p) \<subseteq> set (map fst (gr_Dependencies g))"
  by (force simp: used_children_iff)

lemma see_measure:
  assumes "c \<in> set (map fst (gr_Dependencies g))" and "see root c (seen, queue) = (seen', queue')"
  shows "2 * unseen g seen' + length queue' \<le> 2 * unseen g seen + length queue"
proof (cases "c = root \<or> c \<in> set seen")
  case True
  then show ?thesis using assms(2) by (auto simp: see_def)
next
  case False
  let ?U = "set (map fst (gr_Dependencies g))"
  have "?U - set seen' = (?U - set seen) - {c}" and "c \<in> ?U - set seen" and "length queue' = length queue + 1"
    using assms False by (auto simp: see_def)
  then show ?thesis
    using card_Suc_Diff1 [of "?U - set seen" c] by (simp add: unseen_def)
qed

lemma see_all_measure:
  assumes "set cs \<subseteq> set (map fst (gr_Dependencies g))" and "see_all root cs (seen, queue) = (seen', queue')"
  shows "2 * unseen g seen' + length queue' \<le> 2 * unseen g seen + length queue"
  using assms
proof (induction cs arbitrary: seen queue)
  case Nil
  then show ?case by (simp add: see_all_def)
next
  case (Cons c cs)
  obtain seen1 queue1 where s: "see root c (seen, queue) = (seen1, queue1)"
    by (cases "see root c (seen, queue)")
  have "see_all root cs (seen1, queue1) = (seen', queue')"
    using Cons.prems(2) s by (simp add: see_all_def)
  then show ?case
    using Cons.IH [of seen1 queue1] Cons.prems(1) see_measure [OF _ s, of g] by fastforce
qed

lemma see_all_decreases:
  "see_all root (used_children g c) (seen, queue) = (seen', queue') \<Longrightarrow>
   2 * unseen g seen' + length queue' < Suc (2 * unseen g seen + length queue)"
  using see_all_measure [OF used_children_keys] by (fastforce simp: less_Suc_eq_le)

function reach_loop :: "depgraph \<Rightarrow> string list \<Rightarrow> string list \<Rightarrow> string list" where
  "reach_loop g seen [] = seen"
| "reach_loop g seen (current # queue) =
     (case see_all (gr_Root g) (used_children g current) (seen, queue) of (seen', queue') \<Rightarrow> reach_loop g seen' queue')"
  by pat_completeness auto

termination reach_loop
  by (relation "measure (\<lambda>(g, seen, queue). 2 * unseen g seen + length queue)")
    (auto split: prod.split intro: see_all_decreases)

definition reachableFrom :: "depgraph \<Rightarrow> string list \<Rightarrow> string list" where
  "reachableFrom g seeds = (if seeds = [] then [] else reach_loop g seeds seeds)"

section \<open>Listing the packages\<close>

definition listGOOS :: "string list" where
  "listGOOS = [''darwin'', ''linux'', ''windows'']"

definition listGOARCH :: "string list" where
  "listGOARCH = [''amd64'', ''arm64'']"

record list_run =
  lr_goos :: string
  lr_goarch :: string
  lr_cgo :: bool
  lr_test :: bool

record list_result =
  ls_mods :: "string set"
  ls_unresolved :: "string list"
  ls_tolerated :: "string list"
  ls_err :: "string option"
  ls_needsModUpdate :: bool

record platform_list =
  pl_goos :: string
  pl_goarch :: string
  pl_prod :: "string set"
  pl_test :: "string set"
  pl_unresolved :: "string list"
  pl_err :: "string option"
  pl_needsModUpdate :: bool

record listed_package =
  lp_ImportPath :: string
  lp_Standard :: bool
  lp_Module :: "string option"
  lp_Error :: "string option"

definition platform_name :: "platform_list \<Rightarrow> string" where
  "platform_name p = pl_goos p @ ''/'' @ pl_goarch p"

definition clean :: "platform_list \<Rightarrow> bool" where
  "clean p = (pl_err p = None \<and> length (pl_unresolved p) = 0)"

definition failure :: "platform_list \<Rightarrow> string" where
  "failure p =
     (case pl_err p of
        Some e \<Rightarrow> e
      | None \<Rightarrow>
          (let names = pl_unresolved p
           in ''unresolved packages: '' @ Join (if length names > 3 then take 3 names @ [''...''] else names) '', ''))"

definition listFields :: string where
  "listFields = ''ImportPath,Standard,Module,Error,EmbedFiles''"

definition listArgs :: "list_run \<Rightarrow> bool \<Rightarrow> string list" where
  "listArgs run readOnly =
     [''list'', ''-e'', ''-deps'']
     @ (if lr_test run then [''-test''] else [])
     @ (if readOnly then [''-mod=readonly''] else [])
     @ [''-json='' @ listFields, ''./...'']"

definition modUpdateMarkers :: "string list" where
  "modUpdateMarkers = [''disabled by -mod=readonly'', ''missing go.sum entry'', ''is replaced but not required'']"

definition needsModUpdate :: "string \<Rightarrow> bool" where
  "needsModUpdate msg = list_ex (\<lambda>m. Contains msg m) modUpdateMarkers"

definition firstLine :: "string \<Rightarrow> string" where
  "firstLine s =
     (case filter (\<lambda>l. l \<noteq> []) (map TrimSpace (Split s (CHR 0x0A))) of [] \<Rightarrow> [] | l # ls \<Rightarrow> l)"

text \<open>One decoded package of a run.\<close>

definition list_package :: "listed_package \<Rightarrow> list_result \<Rightarrow> list_result" where
  "list_package pkg res =
     (let res = (case lp_Module pkg of
                   None \<Rightarrow> res
                 | Some path \<Rightarrow> if path \<noteq> [] then res\<lparr>ls_mods := insert path (ls_mods res)\<rparr> else res)
      in case lp_Error pkg of
           None \<Rightarrow> res
         | Some err \<Rightarrow>
             if lp_Module pkg = None \<and> \<not> lp_Standard pkg then
               res\<lparr>ls_unresolved := ls_unresolved res @ [lp_ImportPath pkg],
                   ls_needsModUpdate := (ls_needsModUpdate res \<or> needsModUpdate err)\<rparr>
             else res\<lparr>ls_tolerated := ls_tolerated res @ [lp_ImportPath pkg @ '': '' @ firstLine err]\<rparr>)"

definition no_result :: list_result where
  "no_result = \<lparr>ls_mods = {}, ls_unresolved = [], ls_tolerated = [], ls_err = None, ls_needsModUpdate = False\<rparr>"

text \<open>
  What the command did: it failed, with its error and, when it ran and exited non-zero, its standard error
  output; or it printed packages, with the decoder's error when its output broke off.
\<close>

datatype go_outcome =
    GoFailed string "string option"
  | GoListed "listed_package list" "string option"

definition run_env :: "list_run \<Rightarrow> string list" where
  "run_env run =
     [''GOOS='' @ lr_goos run, ''GOARCH='' @ lr_goarch run, ''CGO_ENABLED='' @ (if lr_cgo run then ''1'' else ''0'')]"

definition listPackages :: "(string list \<Rightarrow> string list \<Rightarrow> go_outcome) \<Rightarrow> bool \<Rightarrow> list_run \<Rightarrow> list_result" where
  "listPackages go offline run =
     (case go (run_env run) (listArgs run offline) of
        GoFailed err None \<Rightarrow> no_result\<lparr>ls_err := Some err\<rparr>
      | GoFailed err (Some stderr) \<Rightarrow>
          (let msg = firstLine stderr
           in no_result\<lparr>ls_err := Some (if msg \<noteq> [] then err @ '': '' @ msg else err),
                        ls_needsModUpdate := needsModUpdate stderr\<rparr>)
      | GoListed pkgs err \<Rightarrow>
          (let res = fold list_package pkgs no_result
           in case err of None \<Rightarrow> res | Some e \<Rightarrow> res\<lparr>ls_err := Some (''decoding go list output: '' @ e)\<rparr>))"

definition all_runs :: "list_run list" where
  "all_runs =
     concat (map (\<lambda>goos. concat (map (\<lambda>goarch. concat (map (\<lambda>cgo. map (\<lambda>test.
       \<lparr>lr_goos = goos, lr_goarch = goarch, lr_cgo = cgo, lr_test = test\<rparr>)
         [False, True]) [False, True])) listGOARCH)) listGOOS)"

definition empty_platform :: "string \<Rightarrow> string \<Rightarrow> platform_list" where
  "empty_platform goos goarch =
     \<lparr>pl_goos = goos, pl_goarch = goarch, pl_prod = {}, pl_test = {}, pl_unresolved = [], pl_err = None,
      pl_needsModUpdate = False\<rparr>"

definition all_platforms :: "platform_list list" where
  "all_platforms = concat (map (\<lambda>goos. map (empty_platform goos) listGOARCH) listGOOS)"

definition add_new :: "string \<Rightarrow> string list \<Rightarrow> string list" where
  "add_new u xs = (if u \<in> set xs then xs else xs @ [u])"

definition merge_run :: "list_run \<Rightarrow> list_result \<Rightarrow> platform_list \<Rightarrow> platform_list" where
  "merge_run run res p =
     (if platform_name p \<noteq> lr_goos run @ ''/'' @ lr_goarch run then p
      else p\<lparr>pl_prod := (if lr_test run then pl_prod p else pl_prod p \<union> ls_mods res),
             pl_test := (if lr_test run then pl_test p \<union> ls_mods res else pl_test p),
             pl_err := (if ls_err res \<noteq> None \<and> pl_err p = None then ls_err res else pl_err p),
             pl_needsModUpdate := (pl_needsModUpdate p \<or> ls_needsModUpdate res),
             pl_unresolved := fold add_new (ls_unresolved res) (pl_unresolved p)\<rparr>)"

definition listPlatforms :: "(list_run \<Rightarrow> list_result) \<Rightarrow> platform_list list \<times> string list" where
  "listPlatforms run_list =
     (map (\<lambda>p. let p = fold (\<lambda>run. merge_run run (run_list run)) all_runs p
               in p\<lparr>pl_unresolved := sort_strings (pl_unresolved p)\<rparr>) all_platforms,
      sort_strings (remdups (concat (map (\<lambda>run. ls_tolerated (run_list run)) all_runs))))"

section \<open>The go version of go.mod\<close>

definition is_digit :: "char \<Rightarrow> bool" where
  "is_digit c \<longleftrightarrow> c \<in> set ''0123456789''"

definition digit_value :: "char \<Rightarrow> int" where
  "digit_value c = int (of_char c) - 48"

definition digits_value :: "string \<Rightarrow> int" where
  "digits_value s = foldl (\<lambda>n c. 10 * n + digit_value c) 0 s"

text \<open>The verb \<open>%d\<close> of \<open>fmt.Sscanf\<close>: spaces, a sign, digits; a value out of the 64-bit range is an error.\<close>

definition scan_int :: "string \<Rightarrow> (int \<times> string) option" where
  "scan_int s0 =
     (let s = dropWhile is_space s0;
          neg = (s \<noteq> [] \<and> hd s = CHR ''-'');
          t = (if s \<noteq> [] \<and> (hd s = CHR ''-'' \<or> hd s = CHR ''+'') then tl s else s);
          ds = takeWhile is_digit t;
          n = (if neg then - digits_value ds else digits_value ds)
      in if ds = [] \<or> n < - (2 ^ 63) \<or> n \<ge> 2 ^ 63 then None else Some (n, dropWhile is_digit t))"

definition goVersionAtLeast :: "string \<Rightarrow> int \<Rightarrow> int \<Rightarrow> bool" where
  "goVersionAtLeast v major minor =
     (case scan_int v of
        Some (maj, CHR ''.'' # rest) \<Rightarrow>
          (case scan_int rest of
             Some (mnr, _) \<Rightarrow> maj > major \<or> (maj = major \<and> mnr \<ge> minor)
           | None \<Rightarrow> False)
      | _ \<Rightarrow> False)"

definition goModListed :: "string + gomod \<Rightarrow> string list option" where
  "goModListed parsed =
     (case parsed of
        Inl err \<Rightarrow> None
      | Inr gm \<Rightarrow>
          if \<not> goVersionAtLeast (gm_GoVersion gm) 1 17 then None else Some (map md_Path (gm_Requirements gm)))"

section \<open>Classification\<close>

text \<open>The dash of the messages, in UTF-8.\<close>

definition em_dash :: string where
  "em_dash = [CHR 0xE2, CHR 0x80, CHR 0x94]"

definition unavailable :: "bool \<Rightarrow> string list \<Rightarrow> bool \<Rightarrow> string" where
  "unavailable offline failures needs_update =
     (if offline \<and> needs_update then
        ''offline '' @ em_dash @ '' go.mod or go.sum needs updating (go mod tidy); go list was run read-only so the project's go.mod and go.sum are not modified; test-only classification unavailable (IsTestOnly and InBuild will be nil for all deps)''
      else if offline then
        ''offline '' @ em_dash @ '' go list could not resolve from the local module cache; test-only classification unavailable (IsTestOnly and InBuild will be nil for all deps)''
      else ''go list failed on every platform; test-only classification unavailable (IsTestOnly and InBuild will be nil for all deps): ''
           @ Join failures ''; '')"

text \<open>The GOOS values with the module in a production list, and whether a test list has it.\<close>

definition membership :: "platform_list list \<Rightarrow> string \<Rightarrow> string list \<times> bool" where
  "membership platforms modPath =
     (fold (\<lambda>p os. if modPath \<in> pl_prod p then add_new (pl_goos p) os else os) platforms [],
      list_ex (\<lambda>p. modPath \<in> pl_test p) platforms)"

definition in_no_list :: "platform_list list \<Rightarrow> string \<Rightarrow> bool" where
  "in_no_list platforms modPath =
     (case membership platforms modPath of (prodOn, inTest) \<Rightarrow> length prodOn = 0 \<and> \<not> inTest)"

definition unknown_seeds :: "platform_list list \<Rightarrow> depgraph \<Rightarrow> string list" where
  "unknown_seeds platforms g =
     map fst (filter (\<lambda>(p, d). dp_Direct d \<and> in_no_list platforms p) (gr_Dependencies g))"

definition belowUnknown :: "platform_list list \<Rightarrow> string list option \<Rightarrow> depgraph \<Rightarrow> string list" where
  "belowUnknown platforms mod_listed g =
     (let below = reachableFrom g (unknown_seeds platforms g)
      in case mod_listed of None \<Rightarrow> below | Some ps \<Rightarrow> filter (\<lambda>p. p \<in> set ps) below)"

definition classify_dep :: "bool \<Rightarrow> platform_list list \<Rightarrow> string list \<Rightarrow> string \<Rightarrow> dependency \<Rightarrow> dependency" where
  "classify_dep partial platforms below modPath dep =
     (case membership platforms modPath of (prodOn, inTest) \<Rightarrow>
        if length prodOn > 0 then
          dep\<lparr>dp_IsTestOnly := Some False, dp_InBuild := Some True,
              dp_Platforms := (if \<not> partial \<and> length prodOn < length listGOOS then prodOn else dp_Platforms dep)\<rparr>
        else if inTest then
          dep\<lparr>dp_IsTestOnly := (if \<not> partial then Some True else dp_IsTestOnly dep), dp_InBuild := Some True\<rparr>
        else if partial \<or> dp_Direct dep \<or> modPath \<in> set below then dep
        else dep\<lparr>dp_InBuild := Some False\<rparr>)"

definition failed_text :: "platform_list \<Rightarrow> string" where
  "failed_text p = ''GOOS='' @ pl_goos p @ '' GOARCH='' @ pl_goarch p @ '' ('' @ failure p @ '')''"

definition tolerated_note :: "string list \<Rightarrow> string" where
  "tolerated_note tolerated =
     (if length tolerated > 0
      then ''go list reported package errors that do not affect module classification: '' @ Join tolerated ''; ''
      else [])"

definition classifyTestOnlyDeps ::
  "bool \<Rightarrow> string + gomod \<Rightarrow> platform_list list \<times> string list \<Rightarrow> depgraph \<Rightarrow> depgraph \<times> string \<times> string" where
  "classifyTestOnlyDeps offline reparsed listing g =
     (case listing of (platforms, tolerated) \<Rightarrow>
       let failed = map failed_text (filter (\<lambda>p. \<not> clean p) platforms);
           okTargets = map platform_name (filter clean platforms);
           needs_update = list_ex (\<lambda>p. \<not> clean p \<and> pl_needsModUpdate p) platforms;
           partial = (length failed > 0)
       in if length okTargets = 0 then (g, unavailable offline failed needs_update, [])
          else if \<not> list_ex (\<lambda>p. pl_prod p \<noteq> {} \<or> pl_test p \<noteq> {}) platforms then
            (g, ''go list returned no module paths; test-only classification unavailable'', [])
          else
            let below = (if partial then [] else belowUnknown platforms (goModListed reparsed) g)
            in (g\<lparr>gr_Dependencies :=
                     map (\<lambda>(p, d). (p, classify_dep partial platforms below p d)) (gr_Dependencies g)\<rparr>,
                (if partial then
                   ''go list failed for '' @ Join failed ''; '' @ ''; classified from '' @ Join okTargets '',''
                   @ '' only. Modules found on no platform are left unclassified (InBuild nil), and test-only and platform-restriction verdicts are withheld''
                 else []),
                tolerated_note tolerated))"

section \<open>Resolve\<close>

text \<open>
  What \<open>Resolve\<close> reads: the files, the output of \<open>go mod graph\<close>, the runs of \<open>go list\<close>, the offline switch,
  and the two third-party functions. \<open>go.mod\<close> is read again for the classification.
\<close>

record resolve_env =
  re_lax :: "string \<Rightarrow> (string option \<times> string option) option"
  re_cmp :: "string \<Rightarrow> string \<Rightarrow> int"
  re_gomod :: "string + string"
  re_gomod_again :: "string + string"
  re_gosum :: "string + string"
  re_mod_graph :: "string + string"
  re_go_list :: "string list \<Rightarrow> string list \<Rightarrow> go_outcome"
  re_offline :: bool

definition resolve_direct :: "gomod \<Rightarrow> depgraph" where
  "resolve_direct gm =
     add_required gm (filter (\<lambda>r. \<not> md_Indirect r) (gm_Requirements gm))
       ((empty_graph gm)\<lparr>gr_Source := SourceDirectOnly\<rparr>)"

definition fallback_warning :: "string \<Rightarrow> string" where
  "fallback_warning err =
     ''Could not run 'go mod graph': '' @ err
     @ ''. Falling back to go.mod/go.sum parsing (may miss transitive dependencies).''"

definition resolve_modules :: "resolve_env \<Rightarrow> gomod \<Rightarrow> depgraph \<times> string list" where
  "resolve_modules env gm =
     (case resolveWithGoModGraph (re_cmp env) (re_mod_graph env) gm (empty_graph gm) of
        Inr g \<Rightarrow> (g, [])
      | Inl err \<Rightarrow>
          (case addFromGoSum (re_gosum env) gm
                  (add_required gm (gm_Requirements gm) ((empty_graph gm)\<lparr>gr_Source := SourceGoModRequires\<rparr>)) of
             (g, sum_err) \<Rightarrow>
               (g, fallback_warning err
                   # (case sum_err of None \<Rightarrow> [] | Some e \<Rightarrow> [''Could not parse go.sum: '' @ e]))))"

definition Resolve :: "resolve_env \<Rightarrow> bool \<Rightarrow> string + depgraph \<times> string list" where
  "Resolve env directOnly =
     (case ParseGoMod (re_lax env) (re_gomod env) of
        Inl err \<Rightarrow> Inl err
      | Inr gm \<Rightarrow>
          if directOnly then Inr (resolve_direct gm, [])
          else (case resolve_modules env gm of (g, warnings) \<Rightarrow>
                 (case classifyTestOnlyDeps (re_offline env) (ParseGoMod (re_lax env) (re_gomod_again env))
                         (listPlatforms (listPackages (re_go_list env) (re_offline env))) g of
                    (g, listWarn, listNote) \<Rightarrow>
                      Inr (if listNote \<noteq> [] then g\<lparr>gr_Notes := gr_Notes g @ [listNote]\<rparr> else g,
                           if listWarn \<noteq> [] then warnings @ [listWarn] else warnings))))"

end
