(* ===== verification/Resolver_Props.thy ===== *)
theory Resolver_Props
  imports Resolver_Classify
begin

text \<open>
  What resolution promises: the loop of \<open>reachableFrom\<close> computes the closure of its seeds, a verdict of
  the classification is backed by every run of \<open>go list\<close>, and \<open>Resolve\<close> records the requirers
  that were read, in a graph for every readable \<open>go.mod\<close>.
\<close>

section \<open>Reachable modules\<close>

definition used_rel :: "depgraph \<Rightarrow> (string \<times> string) set" where
  "used_rel g = {(a, b). b \<noteq> gr_Root g \<and> b \<in> set (used_children g a)}"

lemma see_all_result:
  "see_all root cs (seen, queue) = (seen', queue') \<Longrightarrow>
   set seen' = set seen \<union> (set cs - {root}) \<and>
   (\<exists>new. queue' = queue @ new \<and> set new = (set cs - {root}) - set seen)"
proof (induction cs arbitrary: seen queue)
  case Nil
  then show ?case by (simp add: see_all_def)
next
  case (Cons c cs)
  show ?case
  proof (cases "c = root \<or> c \<in> set seen")
    case True
    then have "see_all root cs (seen, queue) = (seen', queue')"
      using Cons.prems by (simp add: see_all_def see_def)
    from Cons.IH [OF this] True show ?thesis by auto
  next
    case False
    then have "see_all root cs (c # seen, queue @ [c]) = (seen', queue')"
      using Cons.prems by (simp add: see_all_def see_def)
    from Cons.IH [OF this] obtain new where
      seen': "set seen' = set (c # seen) \<union> (set cs - {root})" and
      queue': "queue' = (queue @ [c]) @ new" and new: "set new = (set cs - {root}) - set (c # seen)"
      by blast
    have "queue' = queue @ (c # new)" by (simp add: queue')
    moreover have "set (c # new) = (set (c # cs) - {root}) - set seen"
      using False by (auto simp: new)
    ultimately show ?thesis using False seen' by auto
  qed
qed

definition reach_inv :: "depgraph \<Rightarrow> string set \<Rightarrow> string list \<Rightarrow> string list \<Rightarrow> bool" where
  "reach_inv g S seen queue \<longleftrightarrow>
     S \<subseteq> set seen \<and> set queue \<subseteq> set seen \<and> set seen \<subseteq> (used_rel g)\<^sup>* `` S \<and>
     used_rel g `` (set seen - set queue) \<subseteq> set seen"

lemma reach_inv_loop: "reach_inv g S seen queue \<Longrightarrow> reach_inv g S (reach_loop g seen queue) []"
proof (induction g seen queue rule: reach_loop.induct)
  case (1 g seen)
  then show ?case by simp
next
  case (2 g seen current queue)
  obtain seen' queue' where s: "see_all (gr_Root g) (used_children g current) (seen, queue) = (seen', queue')"
    by (cases "see_all (gr_Root g) (used_children g current) (seen, queue)")
  from see_all_result [OF s] obtain new where
    seen': "set seen' = set seen \<union> used_rel g `` {current}" and
    queue': "queue' = queue @ new" and new: "set new = used_rel g `` {current} - set seen"
    by (auto simp: used_rel_def)
  have "current \<in> (used_rel g)\<^sup>* `` S"
    using "2.prems" by (auto simp: reach_inv_def)
  then have "used_rel g `` {current} \<subseteq> (used_rel g)\<^sup>* `` S"
    by (auto intro: rtrancl_into_rtrancl)
  then have "reach_inv g S seen' queue'"
    using "2.prems" by (auto simp: reach_inv_def seen' queue' new)
  then show ?case
    using "2.IH" s by simp
qed

text \<open>\<open>reachableFrom\<close> returns exactly the modules that a chain of requirements leads to from a seed,
  seeds included, where no chain passes through the main module.\<close>

lemma reachable_closure: "set (reachableFrom g seeds) = (used_rel g)\<^sup>* `` set seeds"
proof (cases "seeds = []")
  case True
  then show ?thesis by (simp add: reachableFrom_def)
next
  case False
  have "reach_inv g (set seeds) seeds seeds"
    by (auto simp: reach_inv_def)
  then have inv: "reach_inv g (set seeds) (reachableFrom g seeds) []"
    using False by (simp add: reachableFrom_def reach_inv_loop)
  then have "used_rel g `` set (reachableFrom g seeds) \<subseteq> set (reachableFrom g seeds)"
    by (simp add: reach_inv_def)
  then have "(used_rel g)\<^sup>* `` set (reachableFrom g seeds) \<subseteq> set (reachableFrom g seeds)"
    by (simp add: Image_closed_trancl)
  then show ?thesis
    using inv by (auto simp: reach_inv_def)
qed

section \<open>Merging the runs\<close>

definition run_name :: "list_run \<Rightarrow> string" where
  "run_name run = lr_goos run @ ''/'' @ lr_goarch run"

definition runs_of :: "platform_list \<Rightarrow> list_run list \<Rightarrow> list_run set" where
  "runs_of p runs = {run \<in> set runs. run_name run = platform_name p}"

lemma set_add_new [simp]: "set (add_new u xs) = insert u (set xs)"
  by (auto simp: add_new_def)

lemma set_fold_add_new [simp]: "set (fold add_new us xs) = set us \<union> set xs"
  by (induction us arbitrary: xs) auto

lemma merge_run_name [simp]: "platform_name (merge_run run res p) = platform_name p"
  by (simp add: merge_run_def platform_name_def)

lemma merge_run_other: "platform_name p \<noteq> run_name r \<Longrightarrow> merge_run r res p = p"
  by (simp add: merge_run_def run_name_def)

lemma merge_run_fields:
  assumes "platform_name p = run_name r"
  shows "pl_prod (merge_run r res p) = (if lr_test r then pl_prod p else pl_prod p \<union> ls_mods res)"
    and "pl_test (merge_run r res p) = (if lr_test r then pl_test p \<union> ls_mods res else pl_test p)"
    and "set (pl_unresolved (merge_run r res p)) = set (pl_unresolved p) \<union> set (ls_unresolved res)"
    and "pl_err (merge_run r res p) = None \<longleftrightarrow> pl_err p = None \<and> ls_err res = None"
  using assms by (auto simp: merge_run_def run_name_def)

text \<open>The state of one platform after a list of runs.\<close>

definition merged :: "(list_run \<Rightarrow> list_result) \<Rightarrow> list_run list \<Rightarrow> platform_list \<Rightarrow> platform_list" where
  "merged f runs p = fold (\<lambda>run. merge_run run (f run)) runs p"

lemma merged_Nil [simp]: "merged f [] p = p"
  by (simp add: merged_def)

lemma merged_snoc [simp]: "merged f (runs @ [r]) p = merge_run r (f r) (merged f runs p)"
  by (simp add: merged_def)

lemma merged_name [simp]: "platform_name (merged f runs p) = platform_name p"
  by (induction runs rule: rev_induct) simp_all

lemma runs_of_snoc:
  "runs_of p (runs @ [r]) = (if run_name r = platform_name p then insert r (runs_of p runs) else runs_of p runs)"
  by (auto simp: runs_of_def)

lemma runs_of_Nil [simp]: "runs_of p [] = {}"
  by (simp add: runs_of_def)

lemma merged_prod:
  "m \<in> pl_prod (merged f runs p) \<longleftrightarrow> m \<in> pl_prod p \<or> (\<exists>r\<in>runs_of p runs. \<not> lr_test r \<and> m \<in> ls_mods (f r))"
proof (induction runs rule: rev_induct)
  case (snoc r runs)
  then show ?case
    by (cases "run_name r = platform_name p") (auto simp: runs_of_snoc merge_run_other merge_run_fields)
qed simp

lemma merged_test:
  "m \<in> pl_test (merged f runs p) \<longleftrightarrow> m \<in> pl_test p \<or> (\<exists>r\<in>runs_of p runs. lr_test r \<and> m \<in> ls_mods (f r))"
proof (induction runs rule: rev_induct)
  case (snoc r runs)
  then show ?case
    by (cases "run_name r = platform_name p") (auto simp: runs_of_snoc merge_run_other merge_run_fields)
qed simp

lemma merged_unresolved:
  "u \<in> set (pl_unresolved (merged f runs p)) \<longleftrightarrow>
   u \<in> set (pl_unresolved p) \<or> (\<exists>r\<in>runs_of p runs. u \<in> set (ls_unresolved (f r)))"
proof (induction runs rule: rev_induct)
  case (snoc r runs)
  then show ?case
    by (cases "run_name r = platform_name p") (auto simp: runs_of_snoc merge_run_other merge_run_fields)
qed simp

lemma merged_err:
  "pl_err (merged f runs p) = None \<longleftrightarrow> pl_err p = None \<and> (\<forall>r\<in>runs_of p runs. ls_err (f r) = None)"
proof (induction runs rule: rev_induct)
  case (snoc r runs)
  then show ?case
    by (cases "run_name r = platform_name p") (auto simp: runs_of_snoc merge_run_other merge_run_fields)
qed simp

text \<open>Every run belongs to a platform; the platforms start empty.\<close>

lemma run_has_platform: "list_all (\<lambda>r. list_ex (\<lambda>p. run_name r = platform_name p) all_platforms) all_runs"
  by code_simp

lemma all_runs_set: "set all_runs = (\<Union>p\<in>set all_platforms. runs_of p all_runs)"
  using run_has_platform by (auto simp: list_all_iff list_ex_iff runs_of_def)

lemma all_platforms_empty:
  "p \<in> set all_platforms \<Longrightarrow> pl_prod p = {} \<and> pl_test p = {} \<and> pl_unresolved p = [] \<and> pl_err p = None"
  by (auto simp: all_platforms_def empty_platform_def)

lemma fst_listPlatforms:
  "fst (listPlatforms f) =
   map (\<lambda>p. (merged f all_runs p)\<lparr>pl_unresolved := sort_strings (pl_unresolved (merged f all_runs p))\<rparr>) all_platforms"
  by (simp add: listPlatforms_def merged_def Let_def)

definition run_ok :: "list_result \<Rightarrow> bool" where
  "run_ok res \<longleftrightarrow> ls_err res = None \<and> ls_unresolved res = []"

lemma listed_prod:
  "(\<exists>q\<in>set (fst (listPlatforms f)). m \<in> pl_prod q) \<longleftrightarrow> (\<exists>r\<in>set all_runs. \<not> lr_test r \<and> m \<in> ls_mods (f r))"
proof -
  have "(\<exists>q\<in>set (fst (listPlatforms f)). m \<in> pl_prod q) \<longleftrightarrow> (\<exists>p\<in>set all_platforms. m \<in> pl_prod (merged f all_runs p))"
    by (simp add: fst_listPlatforms)
  also have "\<dots> \<longleftrightarrow> (\<exists>p\<in>set all_platforms. \<exists>r\<in>runs_of p all_runs. \<not> lr_test r \<and> m \<in> ls_mods (f r))"
    by (intro bex_cong refl) (simp add: merged_prod all_platforms_empty)
  also have "\<dots> \<longleftrightarrow> (\<exists>r\<in>set all_runs. \<not> lr_test r \<and> m \<in> ls_mods (f r))"
    by (simp add: all_runs_set)
  finally show ?thesis .
qed

lemma listed_test:
  "(\<exists>q\<in>set (fst (listPlatforms f)). m \<in> pl_test q) \<longleftrightarrow> (\<exists>r\<in>set all_runs. lr_test r \<and> m \<in> ls_mods (f r))"
proof -
  have "(\<exists>q\<in>set (fst (listPlatforms f)). m \<in> pl_test q) \<longleftrightarrow> (\<exists>p\<in>set all_platforms. m \<in> pl_test (merged f all_runs p))"
    by (simp add: fst_listPlatforms)
  also have "\<dots> \<longleftrightarrow> (\<exists>p\<in>set all_platforms. \<exists>r\<in>runs_of p all_runs. lr_test r \<and> m \<in> ls_mods (f r))"
    by (intro bex_cong refl) (simp add: merged_test all_platforms_empty)
  also have "\<dots> \<longleftrightarrow> (\<exists>r\<in>set all_runs. lr_test r \<and> m \<in> ls_mods (f r))"
    by (simp add: all_runs_set)
  finally show ?thesis .
qed

lemma clean_merged:
  assumes "p \<in> set all_platforms"
  shows "clean ((merged f all_runs p)\<lparr>pl_unresolved := sort_strings (pl_unresolved (merged f all_runs p))\<rparr>) \<longleftrightarrow>
    (\<forall>r\<in>runs_of p all_runs. run_ok (f r))"
proof -
  have "pl_unresolved (merged f all_runs p) = [] \<longleftrightarrow> (\<forall>r\<in>runs_of p all_runs. ls_unresolved (f r) = [])"
    using merged_unresolved [of _ f all_runs p] all_platforms_empty [OF assms]
    by (metis (no_types) empty_iff equals0I list.set(1) set_empty)
  then show ?thesis
    using all_platforms_empty [OF assms] by (auto simp: clean_def merged_err run_ok_def)
qed

lemma listed_clean:
  "(\<forall>q\<in>set (fst (listPlatforms f)). clean q) \<longleftrightarrow> (\<forall>r\<in>set all_runs. run_ok (f r))"
  by (simp add: all_runs_set fst_listPlatforms clean_merged)

lemma membership_goos:
  "(\<exists>os. fst (membership ps m) = os \<and> set os = pl_goos ` {q \<in> set ps. m \<in> pl_prod q})"
proof -
  have "set (fold (\<lambda>p os. if m \<in> pl_prod p then add_new (pl_goos p) os else os) ps os) =
      set os \<union> pl_goos ` {q \<in> set ps. m \<in> pl_prod q}" for os
    by (induction ps arbitrary: os) auto
  then show ?thesis by (simp add: membership_def)
qed

lemma in_prod_iff: "fst (membership ps m) \<noteq> [] \<longleftrightarrow> (\<exists>q\<in>set ps. m \<in> pl_prod q)"
  using membership_goos [of ps m] by (metis (mono_tags, lifting) empty_Collect_eq image_is_empty set_empty)

lemma in_test_iff: "snd (membership ps m) \<longleftrightarrow> (\<exists>q\<in>set ps. m \<in> pl_test q)"
  by (simp add: membership_def list_ex_iff)

section \<open>Well-formed graphs\<close>

text \<open>A module as the construction of the graph leaves it: under its own path, with a requirer, without a
  verdict.\<close>

definition fresh_dep :: "string \<Rightarrow> dependency \<Rightarrow> bool" where
  "fresh_dep p d \<longleftrightarrow> md_Path (dp_Module d) = p \<and> dp_UsedBy d \<noteq> [] \<and>
     dp_IsTestOnly d = None \<and> dp_InBuild d = None \<and> dp_Platforms d = []"

definition graph_ok :: "(string \<Rightarrow> dependency \<Rightarrow> bool) \<Rightarrow> depgraph \<Rightarrow> bool" where
  "graph_ok Q g \<longleftrightarrow> distinct (map fst (gr_Dependencies g)) \<and> (\<forall>p d. dep_of g p = Some d \<longrightarrow> Q p d)"

lemma graph_ok_set_dep: "graph_ok Q g \<Longrightarrow> Q p d \<Longrightarrow> graph_ok Q (set_dep p d g)"
  by (auto simp: graph_ok_def distinct_set_dep split: if_splits)

lemma graph_ok_empty: "graph_ok Q (empty_graph gm\<lparr>gr_Source := s\<rparr>)" "graph_ok Q (empty_graph gm)"
  by (simp_all add: graph_ok_def empty_graph_def dep_of_def)

lemma graph_ok_required: "graph_ok fresh_dep g \<Longrightarrow> graph_ok fresh_dep (add_required gm reqs g)"
  unfolding add_required_def
  by (rule fold_inv [where P = "graph_ok fresh_dep"]) (auto intro!: graph_ok_set_dep simp: required_dep_def fresh_dep_def)

lemma graph_ok_gosum: "graph_ok fresh_dep g \<Longrightarrow> graph_ok fresh_dep (fst (addFromGoSum sums gm g))"
proof (cases "ParseGoSum sums")
  case (Pair entries err)
  assume "graph_ok fresh_dep g"
  then have "graph_ok fresh_dep (fold (\<lambda>e g. if se_Path e = gm_ModulePath gm \<or> dep_of g (se_Path e) \<noteq> None then g
      else set_dep (se_Path e) (gosum_dep gm e) g) entries g)"
    by (rule fold_inv [where P = "graph_ok fresh_dep"])
      (simp add: graph_ok_set_dep gosum_dep_def fresh_dep_def)
  then show ?thesis
    using \<open>graph_ok fresh_dep g\<close> by (cases err) (simp_all add: addFromGoSum_def Pair)
qed

lemma graph_ok_mod_graph:
  assumes "resolveWithGoModGraph cmp out gm (empty_graph gm) = Inr g"
  shows "graph_ok fresh_dep g"
proof -
  obtain raw where out: "out = Inr raw"
    using assms by (auto simp: resolveWithGoModGraph_def split: sum.splits)
  have "dp_UsedBy d \<noteq> []" if "dep_of g p = Some d" for p d
  proof -
    have "map_of (mg_all (read_graph cmp raw)) p \<noteq> None" and u: "dp_UsedBy d = at_key (mg_parents (read_graph cmp raw)) p"
      using that by (auto simp: resolve_graph_dep [OF assms [unfolded out]] graph_dep_def split: if_splits)
    then have "\<exists>a. (a, p) \<in> graph_requires raw"
      using mg_all_requires [of cmp "fst (scan_lines raw)" p] by (simp add: read_graph_def graph_requires_def)
    then show ?thesis using u parents_lines [of cmp raw p] by auto
  qed
  moreover have "distinct (map fst (gr_Dependencies g))"
    using assms by (auto simp: out resolveWithGoModGraph_def Let_def populate_def empty_graph_def intro!: fold_populate_fields)
  ultimately show ?thesis
    by (auto simp: graph_ok_def fresh_dep_def resolve_graph_dep [OF assms [unfolded out]] graph_dep_def split: if_splits)
qed

lemma graph_ok_resolve_modules: "graph_ok fresh_dep (fst (resolve_modules env gm))"
proof (cases "resolveWithGoModGraph (re_cmp env) (re_mod_graph env) gm (empty_graph gm)")
  case (Inr g)
  then show ?thesis
    using graph_ok_mod_graph [OF Inr] by (simp add: resolve_modules_def)
next
  case (Inl err)
  have "graph_ok fresh_dep (add_required gm (gm_Requirements gm) (empty_graph gm\<lparr>gr_Source := SourceGoModRequires\<rparr>))"
    by (rule graph_ok_required) (rule graph_ok_empty)
  then show ?thesis
    using graph_ok_gosum by (simp add: resolve_modules_def Inl prod.case_eq_if)
qed

section \<open>Verdicts\<close>

lemma map_of_map_entries: "map_of (map (\<lambda>(p, d). (p, f p d)) kvs) x = map_option (f x) (map_of kvs x)"
  by (induction kvs) auto

lemma map_fst_map_entries: "map fst (map (\<lambda>(p, d). (p, f p d)) kvs) = map fst kvs"
  by (induction kvs) auto

text \<open>What classification makes of a module without a verdict, for the runs \<open>f\<close>.\<close>

definition seen_by :: "(list_run \<Rightarrow> list_result) \<Rightarrow> bool \<Rightarrow> string \<Rightarrow> bool" where
  "seen_by f test m = list_ex (\<lambda>r. lr_test r = test \<and> m \<in> ls_mods (f r)) all_runs"

definition all_ok :: "(list_run \<Rightarrow> list_result) \<Rightarrow> bool" where
  "all_ok f = list_all (\<lambda>r. run_ok (f r)) all_runs"

lemma classify_dep_verdicts:
  assumes "fresh_dep p d" and "ps = fst (listPlatforms f)" and "partial = (\<not> all_ok f)"
    and "d' = classify_dep partial ps below p d"
  shows "md_Path (dp_Module d') = p \<and> dp_UsedBy d' = dp_UsedBy d \<and> dp_Direct d' = dp_Direct d"
    and "dp_IsTestOnly d' =
      (if seen_by f False p then Some False else if seen_by f True p \<and> all_ok f then Some True else None)"
    and "dp_InBuild d' =
      (if seen_by f False p \<or> seen_by f True p then Some True
       else if all_ok f \<and> \<not> dp_Direct d \<and> p \<notin> set below then Some False else None)"
    and "dp_Platforms d' \<noteq> [] \<longrightarrow> all_ok f \<and> seen_by f False p"
proof -
  have pr: "fst (membership ps p) \<noteq> [] \<longleftrightarrow> seen_by f False p"
    by (auto simp: in_prod_iff assms(2) listed_prod seen_by_def list_ex_iff)
  have te: "snd (membership ps p) \<longleftrightarrow> seen_by f True p"
    by (auto simp: in_test_iff assms(2) listed_test seen_by_def list_ex_iff)
  show "md_Path (dp_Module d') = p \<and> dp_UsedBy d' = dp_UsedBy d \<and> dp_Direct d' = dp_Direct d"
    using assms(1) by (simp add: assms(4) classify_dep_def fresh_dep_def prod.case_eq_if)
  show "dp_IsTestOnly d' =
      (if seen_by f False p then Some False else if seen_by f True p \<and> all_ok f then Some True else None)"
    using assms(1) pr te by (simp add: assms(3,4) classify_dep_def fresh_dep_def prod.case_eq_if)
  show "dp_InBuild d' =
      (if seen_by f False p \<or> seen_by f True p then Some True
       else if all_ok f \<and> \<not> dp_Direct d \<and> p \<notin> set below then Some False else None)"
    using assms(1) pr te by (auto simp: assms(3,4) classify_dep_def fresh_dep_def prod.case_eq_if)
  show "dp_Platforms d' \<noteq> [] \<longrightarrow> all_ok f \<and> seen_by f False p"
    using assms(1) pr te by (simp add: assms(3,4) classify_dep_def fresh_dep_def prod.case_eq_if)
qed

text \<open>The verdicts a classification may leave: none on any module, or those of \<open>classify_dep\<close>.\<close>

lemma partial_iff: "filter (\<lambda>p. \<not> clean p) (fst (listPlatforms f)) \<noteq> [] \<longleftrightarrow> \<not> all_ok f"
  using listed_clean [of f] by (simp add: filter_empty_conv all_ok_def list_all_iff)

lemma classify_cases:
  assumes "classifyTestOnlyDeps offline reparsed (listPlatforms f) g = (g', warn, note)"
  shows "g' = g \<or> g' = g\<lparr>gr_Dependencies := map (\<lambda>(p, d). (p, classify_dep (\<not> all_ok f) (fst (listPlatforms f))
      (if all_ok f then belowUnknown (fst (listPlatforms f)) (goModListed reparsed) g else []) p d)) (gr_Dependencies g)\<rparr>"
proof -
  obtain ps tol where l: "listPlatforms f = (ps, tol)" by (cases "listPlatforms f")
  have "length (map failed_text (filter (\<lambda>p. \<not> clean p) ps)) > 0 \<longleftrightarrow> \<not> all_ok f"
    using partial_iff [of f] by (simp add: l)
  then show ?thesis
    using assms by (auto simp: classifyTestOnlyDeps_def l Let_def split: if_splits)
qed

lemma classify_done:
  assumes "all_ok f" and "seen_by f False m"
  shows "fst (classifyTestOnlyDeps offline reparsed (listPlatforms f) g) =
    g\<lparr>gr_Dependencies := map (\<lambda>(p, d). (p, classify_dep False (fst (listPlatforms f))
      (belowUnknown (fst (listPlatforms f)) (goModListed reparsed) g) p d)) (gr_Dependencies g)\<rparr>"
proof -
  obtain ps tol where l: "listPlatforms f = (ps, tol)" by (cases "listPlatforms f")
  have no_failed: "filter (\<lambda>p. \<not> clean p) ps = []"
    using partial_iff [of f] assms(1) by (simp add: l)
  have "\<exists>q\<in>set ps. m \<in> pl_prod q"
    using assms(2) listed_prod [of f m] by (simp add: l seen_by_def list_ex_iff)
  then have "list_ex (\<lambda>p. pl_prod p \<noteq> {} \<or> pl_test p \<noteq> {}) ps" and "ps \<noteq> []"
    by (auto simp: list_ex_iff)
  moreover from this no_failed have "filter clean ps \<noteq> []"
    by (cases ps) (auto split: if_splits)
  ultimately show ?thesis
    using no_failed by (simp add: classifyTestOnlyDeps_def l Let_def)
qed

lemma classified_used_rel:
  "used_rel (g\<lparr>gr_Dependencies := map (\<lambda>(p, d). (p, classify_dep partial ps below p d)) (gr_Dependencies g)\<rparr>) = used_rel g"
proof -
  have u: "dp_UsedBy (classify_dep partial ps below p d) = dp_UsedBy d" for p d
    by (simp add: classify_dep_def prod.case_eq_if)
  have "used_children (g\<lparr>gr_Dependencies := map (\<lambda>(p, d). (p, classify_dep partial ps below p d)) (gr_Dependencies g)\<rparr>) a
      = used_children g a" for a
    by (simp add: used_children_def u comp_def case_prod_beta')
  then show ?thesis by (simp add: used_rel_def)
qed

text \<open>The modules whose absence from every run proves nothing: the direct requirements no run saw.\<close>

definition unseen_direct :: "(list_run \<Rightarrow> list_result) \<Rightarrow> depgraph \<Rightarrow> string set" where
  "unseen_direct f g =
     {q. case dep_of g q of None \<Rightarrow> False | Some d \<Rightarrow> dp_Direct d \<and> \<not> seen_by f False q \<and> \<not> seen_by f True q}"

lemma set_unknown_seeds:
  assumes "distinct (map fst (gr_Dependencies g))"
  shows "set (unknown_seeds (fst (listPlatforms f)) g) = unseen_direct f g"
proof -
  have n: "in_no_list (fst (listPlatforms f)) q \<longleftrightarrow> \<not> seen_by f False q \<and> \<not> seen_by f True q" for q
    using in_prod_iff [of "fst (listPlatforms f)" q] in_test_iff [of "fst (listPlatforms f)" q]
    by (auto simp: in_no_list_def prod.case_eq_if listed_prod listed_test seen_by_def list_ex_iff)
  have m: "(q, d) \<in> set (gr_Dependencies g) \<longleftrightarrow> dep_of g q = Some d" for q d
    using assms by (simp add: dep_of_def)
  show ?thesis
    by (force simp: unknown_seeds_def unseen_direct_def n m split: option.splits)
qed

lemma in_belowUnknown:
  assumes "distinct (map fst (gr_Dependencies g))"
  shows "p \<in> set (belowUnknown (fst (listPlatforms f)) listed g) \<longleftrightarrow>
    p \<in> (used_rel g)\<^sup>* `` unseen_direct f g \<and> (case listed of None \<Rightarrow> True | Some ps \<Rightarrow> p \<in> set ps)"
  by (simp add: belowUnknown_def Let_def reachable_closure set_unknown_seeds [OF assms] split: option.split)

text \<open>One module of the result of \<open>Resolve\<close>.\<close>

definition runs_of_env :: "resolve_env \<Rightarrow> list_run \<Rightarrow> list_result" where
  "runs_of_env env = listPackages (re_go_list env) (re_offline env)"

definition listed_in_gomod :: "resolve_env \<Rightarrow> string \<Rightarrow> bool" where
  "listed_in_gomod env p =
     (case goModListed (ParseGoMod (re_lax env) (re_gomod_again env)) of None \<Rightarrow> True | Some ps \<Rightarrow> p \<in> set ps)"

definition verdict_ok :: "resolve_env \<Rightarrow> depgraph \<Rightarrow> string \<Rightarrow> dependency \<Rightarrow> bool" where
  "verdict_ok env g p d \<longleftrightarrow>
     md_Path (dp_Module d) = p \<and> dp_UsedBy d \<noteq> []
     \<and> (dp_IsTestOnly d = None \<and> dp_InBuild d = None \<and> dp_Platforms d = []
        \<or> dp_IsTestOnly d =
            (if seen_by (runs_of_env env) False p then Some False
             else if seen_by (runs_of_env env) True p \<and> all_ok (runs_of_env env) then Some True else None)
          \<and> dp_InBuild d =
            (if seen_by (runs_of_env env) False p \<or> seen_by (runs_of_env env) True p then Some True
             else if all_ok (runs_of_env env) \<and> \<not> dp_Direct d
                     \<and> \<not> (p \<in> (used_rel g)\<^sup>* `` unseen_direct (runs_of_env env) g \<and> listed_in_gomod env p)
                  then Some False else None)
          \<and> (dp_Platforms d \<noteq> [] \<longrightarrow> all_ok (runs_of_env env) \<and> seen_by (runs_of_env env) False p))"

lemma classified_verdict_ok:
  assumes ok: "graph_ok fresh_dep g0"
    and c: "classifyTestOnlyDeps (re_offline env) (ParseGoMod (re_lax env) (re_gomod_again env))
              (listPlatforms (runs_of_env env)) g0 = (g, warn, note)"
  shows "graph_ok (verdict_ok env g) g"
proof -
  let ?f = "runs_of_env env"
  let ?below = "if all_ok ?f then belowUnknown (fst (listPlatforms ?f)) (goModListed (ParseGoMod (re_lax env) (re_gomod_again env))) g0 else []"
  let ?c = "classify_dep (\<not> all_ok ?f) (fst (listPlatforms ?f)) ?below"
  have dist: "distinct (map fst (gr_Dependencies g0))" using ok by (simp add: graph_ok_def)
  consider "g = g0" | "g = g0\<lparr>gr_Dependencies := map (\<lambda>(p, d). (p, ?c p d)) (gr_Dependencies g0)\<rparr>"
    using classify_cases [OF c] by blast
  then show ?thesis
  proof cases
    case 1
    then show ?thesis using ok by (auto simp: graph_ok_def fresh_dep_def verdict_ok_def)
  next
    case 2
    have dep: "dep_of g p = map_option (?c p) (dep_of g0 p)" for p
      by (simp add: 2 dep_of_def map_of_map_entries)
    have "dp_Direct (?c p d) = dp_Direct d" for p d
      by (simp add: classify_dep_def prod.case_eq_if)
    then have ud: "unseen_direct ?f g = unseen_direct ?f g0"
      by (auto simp: unseen_direct_def dep split: option.splits)
    have ur: "used_rel g = used_rel g0" unfolding 2 by (rule classified_used_rel)
    have "verdict_ok env g p d" if "dep_of g p = Some d" for p d
    proof -
      obtain d0 where d0: "dep_of g0 p = Some d0" and d: "d = ?c p d0"
        using \<open>dep_of g p = Some d\<close> by (auto simp: dep)
      have fr: "fresh_dep p d0" using ok d0 by (simp add: graph_ok_def)
      note v = classify_dep_verdicts [OF fr refl refl d]
      have below: "p \<notin> set ?below \<longleftrightarrow> \<not> (p \<in> (used_rel g)\<^sup>* `` unseen_direct ?f g \<and> listed_in_gomod env p)"
        if "all_ok ?f"
        using that by (simp add: in_belowUnknown [OF dist] ud ur listed_in_gomod_def)
      show ?thesis
        unfolding verdict_ok_def using v below fr by (auto simp: fresh_dep_def)
    qed
    moreover have "map fst (gr_Dependencies g) = map fst (gr_Dependencies g0)"
      using map_fst_map_entries [of ?c "gr_Dependencies g0"] by (simp add: 2 del: map_map)
    ultimately show ?thesis
      using dist unfolding graph_ok_def by simp
  qed
qed

lemma Resolve_verdict_ok:
  assumes "Resolve env False = Inr (g, ws)"
  shows "graph_ok (verdict_ok env g) g"
proof -
  obtain gm where "ParseGoMod (re_lax env) (re_gomod env) = Inr gm"
    using assms by (auto simp: Resolve_def split: sum.splits)
  moreover obtain g0 ws0 where m: "resolve_modules env gm = (g0, ws0)"
    by (cases "resolve_modules env gm")
  moreover obtain g1 warn nt where c: "classifyTestOnlyDeps (re_offline env) (ParseGoMod (re_lax env) (re_gomod_again env))
      (listPlatforms (runs_of_env env)) g0 = (g1, warn, nt)"
    by (metis prod_cases3)
  ultimately have g: "g = (if nt \<noteq> [] then g1\<lparr>gr_Notes := gr_Notes g1 @ [nt]\<rparr> else g1)"
    using assms by (simp add: Resolve_def runs_of_env_def)
  have "graph_ok (verdict_ok env g1) g1"
    using classified_verdict_ok [OF _ c] graph_ok_resolve_modules [of env gm] m by simp
  moreover have "used_rel g = used_rel g1" "dep_of g = dep_of g1" "gr_Dependencies g = gr_Dependencies g1"
    by (simp_all add: g used_rel_def used_children_def dep_of_def)
  then have "verdict_ok env g = verdict_ok env g1" "graph_ok Q g = graph_ok Q g1" for Q
    by (simp_all add: fun_eq_iff verdict_ok_def unseen_direct_def graph_ok_def)
  ultimately show ?thesis by simp
qed

section \<open>What Resolve promises\<close>

lemma graph_ok_direct: "graph_ok fresh_dep (resolve_direct gm)"
  unfolding resolve_direct_def by (rule graph_ok_required) (rule graph_ok_empty)

lemma Resolve_direct: "Resolve env True = Inr (g, ws) \<Longrightarrow> graph_ok fresh_dep g"
  using graph_ok_direct by (auto simp: Resolve_def split: sum.splits)

text \<open>Who requires a module, by what was read: the main module for a requirement of \<open>go.mod\<close>, the modules with a kept line
  of \<open>go mod graph\<close>, and no module at all, only the marker, for one that \<open>go.sum\<close> alone names.\<close>

definition requirers_read :: "resolve_env \<Rightarrow> gomod \<Rightarrow> string \<Rightarrow> string list \<Rightarrow> bool" where
  "requirers_read env gm p us =
     (case re_mod_graph env of
        Inr out \<Rightarrow> us \<noteq> [] \<and> set us = {a. (a, p) \<in> graph_requires out}
      | Inl err \<Rightarrow> us = (if p \<in> md_Path ` set (gm_Requirements gm) then [gm_ModulePath gm] else [from_go_sum]))"

lemma add_required_dep:
  "dep_of (add_required gm reqs g) p = Some d \<Longrightarrow>
     (p \<in> md_Path ` set reqs \<and> dp_UsedBy d = [gm_ModulePath gm]) \<or> (p \<notin> md_Path ` set reqs \<and> dep_of g p = Some d)"
proof (induction reqs arbitrary: g)
  case Nil
  then show ?case by (simp add: add_required_def)
next
  case (Cons r reqs)
  have "dep_of (add_required gm reqs (set_dep (md_Path r) (required_dep gm r) g)) p = Some d"
    using Cons.prems by (simp add: add_required_def)
  from Cons.IH [OF this] show ?case by (auto simp: required_dep_def split: if_splits)
qed

lemma add_required_dom: "dep_of g p \<noteq> None \<or> p \<in> md_Path ` set reqs \<Longrightarrow> dep_of (add_required gm reqs g) p \<noteq> None"
proof (induction reqs arbitrary: g)
  case Nil
  then show ?case by (simp add: add_required_def)
next
  case (Cons r reqs)
  then show ?case using Cons.IH [of "set_dep (md_Path r) (required_dep gm r) g"] by (auto simp: add_required_def)
qed

lemma add_required_Root [simp]: "gr_Root (add_required gm reqs g) = gr_Root g"
  unfolding add_required_def by (rule fold_inv [where P = "\<lambda>h. gr_Root h = gr_Root g"]) simp_all

text \<open>What \<open>go.sum\<close> adds is a module that was not there, under the marker.\<close>

lemma addFromGoSum_dep:
  "dep_of (fst (addFromGoSum sums gm g)) p = Some d \<Longrightarrow> dep_of g p = Some d \<or> dep_of g p = None \<and> dp_UsedBy d = [from_go_sum]"
  "gr_Root (fst (addFromGoSum sums gm g)) = gr_Root g"
proof -
  let ?step = "\<lambda>e g. if se_Path e = gm_ModulePath gm \<or> dep_of g (se_Path e) \<noteq> None then g
    else set_dep (se_Path e) (gosum_dep gm e) g"
  let ?P = "\<lambda>h. gr_Root h = gr_Root g \<and> (\<forall>d. dep_of h p = Some d \<longrightarrow>
    dep_of g p = Some d \<or> dep_of g p = None \<and> dp_UsedBy d = [from_go_sum]) \<and> (dep_of g p \<noteq> None \<longrightarrow> dep_of h p \<noteq> None)"
  have "?P (fold ?step es g)" for es
    by (rule fold_inv [where P = ?P]) (auto simp: gosum_dep_def split: if_splits)
  then have "?P (fst (addFromGoSum sums gm g))"
    by (auto simp: addFromGoSum_def split: prod.split option.split)
  then show "dep_of (fst (addFromGoSum sums gm g)) p = Some d \<Longrightarrow>
      dep_of g p = Some d \<or> dep_of g p = None \<and> dp_UsedBy d = [from_go_sum]"
    "gr_Root (fst (addFromGoSum sums gm g)) = gr_Root g" by blast+
qed

lemma resolve_modules_requirers:
  "dep_of (fst (resolve_modules env gm)) p = Some d \<Longrightarrow> requirers_read env gm p (dp_UsedBy d)"
  "gr_Root (fst (resolve_modules env gm)) = gm_ModulePath gm"
proof -
  let ?g = "fst (resolve_modules env gm)"
  have "(dep_of ?g p = Some d \<longrightarrow> requirers_read env gm p (dp_UsedBy d)) \<and> gr_Root ?g = gm_ModulePath gm"
  proof (cases "re_mod_graph env")
    case (Inr out)
    then obtain g where g: "resolveWithGoModGraph (re_cmp env) (Inr out) gm (empty_graph gm) = Inr g" "?g = g"
      by (auto simp: resolve_modules_def resolveWithGoModGraph_def Let_def)
    have "dp_UsedBy d \<noteq> [] \<and> set (dp_UsedBy d) = {a. (a, p) \<in> graph_requires out}" if "dep_of g p = Some d"
      using that graph_ok_mod_graph [OF g(1)] resolve_graph_dep [OF g(1), of p]
      by (auto simp: graph_ok_def fresh_dep_def graph_dep_def parents_lines split: if_splits)
    moreover have "gr_Root g = gm_ModulePath gm"
      using g(1) by (auto simp: resolveWithGoModGraph_def Let_def populate_def fold_populate_fields empty_graph_def)
    ultimately show ?thesis by (simp add: requirers_read_def Inr g(2))
  next
    case (Inl err)
    let ?reqs = "add_required gm (gm_Requirements gm) (empty_graph gm\<lparr>gr_Source := SourceGoModRequires\<rparr>)"
    have e: "?g = fst (addFromGoSum (re_gosum env) gm ?reqs)"
      unfolding resolve_modules_def resolveWithGoModGraph_def Inl sum.case prod.case_eq_if fst_conv by (rule refl)
    have start: "dep_of (empty_graph gm\<lparr>gr_Source := SourceGoModRequires\<rparr>) p = None" by (simp add: empty_graph_def dep_of_def)
    have "requirers_read env gm p (dp_UsedBy d)" if "dep_of ?g p = Some d"
      using addFromGoSum_dep(1) [OF that [unfolded e]]
    proof
      assume "dep_of ?reqs p = Some d"
      from add_required_dep [OF this] show ?thesis using start by (auto simp: requirers_read_def Inl)
    next
      assume d: "dep_of ?reqs p = None \<and> dp_UsedBy d = [from_go_sum]"
      then have "p \<notin> md_Path ` set (gm_Requirements gm)" using add_required_dom by metis
      then show ?thesis using d by (simp add: requirers_read_def Inl)
    qed
    moreover have "gr_Root ?g = gm_ModulePath gm"
      using addFromGoSum_dep(2) [of "re_gosum env" gm ?reqs] by (simp add: e) (simp add: empty_graph_def)
    ultimately show ?thesis by blast
  qed
  then show "dep_of ?g p = Some d \<Longrightarrow> requirers_read env gm p (dp_UsedBy d)" "gr_Root ?g = gm_ModulePath gm" by blast+
qed

text \<open>The classification leaves the requirers as they are.\<close>

lemma Resolve_requirers:
  assumes "Resolve env False = Inr (g, ws)" and "ParseGoMod (re_lax env) (re_gomod env) = Inr gm"
  shows "gr_Root g = gm_ModulePath gm" "dep_of g p = Some d \<Longrightarrow> requirers_read env gm p (dp_UsedBy d)"
proof -
  obtain g0 ws0 where m: "resolve_modules env gm = (g0, ws0)" by fastforce
  obtain g1 warn nt where c: "classifyTestOnlyDeps (re_offline env) (ParseGoMod (re_lax env) (re_gomod_again env))
      (listPlatforms (runs_of_env env)) g0 = (g1, warn, nt)"
    by (metis prod_cases3)
  have g: "g = (if nt \<noteq> [] then g1\<lparr>gr_Notes := gr_Notes g1 @ [nt]\<rparr> else g1)"
    using assms m c by (simp add: Resolve_def runs_of_env_def)
  have "dp_UsedBy (classify_dep partial ps below q e) = dp_UsedBy e" for partial ps below q e
    by (simp add: classify_dep_def prod.case_eq_if)
  then have "gr_Root g1 = gr_Root g0 \<and> (\<forall>d. dep_of g1 p = Some d \<longrightarrow> (\<exists>e. dep_of g0 p = Some e \<and> dp_UsedBy d = dp_UsedBy e))"
    using classify_cases [OF c] by (auto simp: dep_of_def map_of_map_entries)
  then show "gr_Root g = gm_ModulePath gm" "dep_of g p = Some d \<Longrightarrow> requirers_read env gm p (dp_UsedBy d)"
    using resolve_modules_requirers [of env gm] m by (auto simp: g dep_of_def split: if_splits)
qed

lemma Resolve_direct_requirers:
  assumes "Resolve env True = Inr (g, ws)" and "ParseGoMod (re_lax env) (re_gomod env) = Inr gm"
  shows "gr_Root g = gm_ModulePath gm"
    "dep_of g p = Some d \<Longrightarrow> isDirectPath gm p \<and> dp_UsedBy d = [gm_ModulePath gm]"
proof -
  have g: "g = resolve_direct gm" using assms by (simp add: Resolve_def)
  show "gr_Root g = gm_ModulePath gm" by (simp add: g resolve_direct_def) (simp add: empty_graph_def)
  have "dep_of (empty_graph gm\<lparr>gr_Source := SourceDirectOnly\<rparr>) p = None" by (simp add: empty_graph_def dep_of_def)
  then show "dep_of g p = Some d \<Longrightarrow> isDirectPath gm p \<and> dp_UsedBy d = [gm_ModulePath gm]"
    unfolding g resolve_direct_def by (auto dest!: add_required_dep simp: isDirectPath_def list_ex_iff)
qed

lemma Edges_to:
  "dep_of g p = Some d \<Longrightarrow>
     {a. (a, p) \<in> set (Edges g)} = {a \<in> set (dp_UsedBy d). a \<noteq> p \<and> (a = gr_Root g \<or> dep_of g a \<noteq> None)}"
  by (auto simp: in_Edges in_edges_to in_SortedPaths)

text \<open>C24: what a resolved graph records of a module is what was read of it. It stands under its own path. With direct
  dependencies only it is a direct requirement and the main module is its one requirer. When \<open>go mod graph\<close> answered, its
  requirers are exactly the modules with a kept line that requires it, and there is one. When it did not, the one requirer of
  a requirement of \<open>go.mod\<close> is the main module, and any other module carries the marker of \<open>go.sum\<close>, which is no requirer.
  The edges to a module are from its requirers, as far as they are the main module or in the graph: the marker gives none.
  A test-only verdict comes with a positive in-build verdict, and a platform restriction only with a production verdict.\<close>

theorem resolved_graph_well_formed:
  assumes "Resolve env directOnly = Inr (g, ws)" and "dep_of g p = Some d"
    and "ParseGoMod (re_lax env) (re_gomod env) = Inr gm"
  shows "gr_Root g = gm_ModulePath gm \<and> md_Path (dp_Module d) = p
    \<and> (if directOnly then isDirectPath gm p \<and> dp_UsedBy d = [gm_ModulePath gm]
       else case re_mod_graph env of
              Inr out \<Rightarrow> dp_UsedBy d \<noteq> [] \<and> set (dp_UsedBy d) = {a. (a, p) \<in> graph_requires out}
            | Inl err \<Rightarrow> dp_UsedBy d = (if p \<in> md_Path ` set (gm_Requirements gm) then [gm_ModulePath gm] else [from_go_sum]))
    \<and> {a. (a, p) \<in> set (Edges g)} = {a \<in> set (dp_UsedBy d). a \<noteq> p \<and> (a = gm_ModulePath gm \<or> dep_of g a \<noteq> None)}
    \<and> (dp_IsTestOnly d \<noteq> None \<longrightarrow> dp_InBuild d = Some True)
    \<and> (dp_Platforms d \<noteq> [] \<longrightarrow> dp_IsTestOnly d = Some False)"
proof (cases directOnly)
  case True
  then have r: "Resolve env True = Inr (g, ws)" using assms(1) by simp
  show ?thesis
    using True Resolve_direct [OF r] Resolve_direct_requirers [OF r assms(3)] Edges_to [OF assms(2)] assms(2)
    by (auto simp: graph_ok_def fresh_dep_def)
next
  case False
  then have r: "Resolve env False = Inr (g, ws)" using assms(1) by simp
  have "verdict_ok env g p d" using Resolve_verdict_ok [OF r] assms(2) by (simp add: graph_ok_def)
  then have "md_Path (dp_Module d) = p" "dp_IsTestOnly d \<noteq> None \<longrightarrow> dp_InBuild d = Some True"
    "dp_Platforms d \<noteq> [] \<longrightarrow> dp_IsTestOnly d = Some False"
    by (auto simp: verdict_ok_def split: if_splits)
  then show ?thesis
    using False Resolve_requirers [OF r assms(3)] Edges_to [OF assms(2)] assms(2) unfolding requirers_read_def by simp
qed

text \<open>C7: a module that \<open>Resolve\<close> reports as outside the build is proved to be: all 24 runs of \<open>go list\<close>
  succeeded and mapped every package to a module, none of them saw the module, the main module does not
  require it directly, and it is not listed in \<open>go.mod\<close> below a direct requirement that no run saw.\<close>

theorem outside_build_is_proved:
  assumes "Resolve env False = Inr (g, ws)" and "dep_of g p = Some d" and "dp_InBuild d = Some False"
  shows "list_all (\<lambda>run. case listPackages (re_go_list env) (re_offline env) run of res \<Rightarrow>
           ls_err res = None \<and> ls_unresolved res = [] \<and> p \<notin> ls_mods res) all_runs
    \<and> \<not> dp_Direct d
    \<and> \<not> (p \<in> (used_rel g)\<^sup>* `` unseen_direct (runs_of_env env) g \<and> listed_in_gomod env p)"
proof -
  have "verdict_ok env g p d"
    using Resolve_verdict_ok [OF assms(1)] assms(2) by (simp add: graph_ok_def)
  then have v: "\<not> seen_by (runs_of_env env) False p" "\<not> seen_by (runs_of_env env) True p" "all_ok (runs_of_env env)"
    "\<not> dp_Direct d" "\<not> (p \<in> (used_rel g)\<^sup>* `` unseen_direct (runs_of_env env) g \<and> listed_in_gomod env p)"
    using assms(3) by (auto simp: verdict_ok_def split: if_splits)
  have "p \<notin> ls_mods (runs_of_env env run)" if "run \<in> set all_runs" for run
    using v(1,2) that by (cases "lr_test run") (auto simp: seen_by_def list_ex_iff)
  then show ?thesis
    using v by (simp add: list_all_iff all_ok_def run_ok_def runs_of_env_def)
qed

text \<open>C8: a module that \<open>Resolve\<close> reports as test-only is proved to be: all 24 runs succeeded and mapped every
  package to a module, no production run saw the module, and a test run did.\<close>

theorem test_only_is_proved:
  assumes "Resolve env False = Inr (g, ws)" and "dep_of g p = Some d" and "dp_IsTestOnly d = Some True"
  shows "list_all (\<lambda>run. case listPackages (re_go_list env) (re_offline env) run of res \<Rightarrow>
           ls_err res = None \<and> ls_unresolved res = [] \<and> (p \<in> ls_mods res \<longrightarrow> lr_test run)) all_runs
    \<and> list_ex (\<lambda>run. lr_test run \<and> p \<in> ls_mods (listPackages (re_go_list env) (re_offline env) run)) all_runs"
proof -
  have "verdict_ok env g p d"
    using Resolve_verdict_ok [OF assms(1)] assms(2) by (simp add: graph_ok_def)
  then have v: "\<not> seen_by (runs_of_env env) False p" "seen_by (runs_of_env env) True p" "all_ok (runs_of_env env)"
    using assms(3) by (auto simp: verdict_ok_def split: if_splits)
  then show ?thesis
    by (auto simp: list_all_iff list_ex_iff seen_by_def all_ok_def run_ok_def runs_of_env_def)
qed

text \<open>\<open>Resolve\<close> fails exactly when \<open>go.mod\<close> cannot be read; every other failure, of \<open>go mod graph\<close>, of
  \<open>go.sum\<close> or of \<open>go list\<close>, still gives a graph.\<close>

theorem resolve_fails_iff_unreadable:
  "Resolve env directOnly = Inl e \<longleftrightarrow>
   (case re_gomod env of Inl err \<Rightarrow> e = ''reading go.mod: '' @ err | Inr data \<Rightarrow> False)"
  by (cases "re_gomod env") (auto simp: Resolve_def ParseGoMod_def Let_def split: prod.splits)

section \<open>A small project\<close>

definition ex_package :: "string \<Rightarrow> listed_package" where
  "ex_package m = \<lparr>lp_ImportPath = m, lp_Standard = False, lp_Module = Some m, lp_Error = None\<rparr>"

definition ex_go_list :: "string list \<Rightarrow> string list \<Rightarrow> go_outcome" where
  "ex_go_list env args =
     GoListed (map ex_package (''m'' # ''a'' # (if ''-test'' \<in> set args then [''b''] else []))) None"

definition ex_reqs :: "gomodule list" where
  "ex_reqs =
     [\<lparr>md_Path = ''a'', md_Version = ''v1'', md_Indirect = False\<rparr>,
      \<lparr>md_Path = ''b'', md_Version = ''v1'', md_Indirect = False\<rparr>]"

definition ex_env :: resolve_env where
  "ex_env =
     \<lparr>re_lax = (\<lambda>_. None), re_cmp = ex_cmp,
      re_gomod = Inr (gomod_text ''m'' ''1.22'' ex_reqs [] []),
      re_gomod_again = Inr (gomod_text ''m'' ''1.22'' ex_reqs [] []),
      re_gosum = Inl ''no file'', re_mod_graph = Inr ex_out, re_go_list = ex_go_list, re_offline = False\<rparr>"

lemma ex_env_fields: "re_go_list ex_env = ex_go_list" "re_offline ex_env = False"
  by (simp_all add: ex_env_def)

definition ex_runs :: "list_run \<Rightarrow> list_result" where
  "ex_runs = listPackages ex_go_list False"

definition ex_file :: gomod where
  "ex_file =
     \<lparr>gm_ModulePath = ''m'', gm_GoVersion = ''1.22'', gm_Requirements = ex_reqs,
      gm_Replaces = map_of (rev []), gm_Excludes = []\<rparr>"

lemma ex_parse: "ParseGoMod (re_lax ex_env) (re_gomod ex_env) = Inr ex_file"
  "ParseGoMod (re_lax ex_env) (re_gomod_again ex_env) = Inr ex_file"
proof -
  have ok: "value_ok ''m''" "value_ok ''1.22''" "list_all require_ok ex_reqs" "list_all replace_ok []" "list_all require_ok []"
    by code_simp+
  show "ParseGoMod (re_lax ex_env) (re_gomod ex_env) = Inr ex_file"
    "ParseGoMod (re_lax ex_env) (re_gomod_again ex_env) = Inr ex_file"
    unfolding ex_env_def ex_file_def resolve_env.simps
    by (rule ParseGoMod_text [OF refl ok])+
qed

lemma ex_run:
  "ls_mods (ex_runs run) = {''m'', ''a''} \<union> (if lr_test run then {''b''} else {})"
  "ls_err (ex_runs run) = None" "ls_unresolved (ex_runs run) = []"
  by (auto simp: ex_runs_def listPackages_def ex_go_list_def listArgs_def listFields_def list_package_def
      ex_package_def no_result_def)

lemma ex_all_ok: "all_ok ex_runs"
  by (simp add: all_ok_def run_ok_def ex_run list_all_iff)

lemma all_runs_both: "list_ex lr_test all_runs" "list_ex (\<lambda>r. \<not> lr_test r) all_runs"
  by code_simp+

lemma ex_seen:
  "seen_by ex_runs False ''m''" "\<not> seen_by ex_runs False ''b''" "seen_by ex_runs True ''b''"
  "\<not> seen_by ex_runs False ''c''" "\<not> seen_by ex_runs True ''c''"
  using all_runs_both by (auto simp: seen_by_def ex_run list_ex_iff)

lemma ex_listed: "goModListed (Inr ex_file) = Some [''a'', ''b'']"
  by code_simp

text \<open>The graph before and after the classification.\<close>

definition ex_unclassified :: depgraph where
  "ex_unclassified = projr (resolveWithGoModGraph ex_cmp (Inr ex_out) ex_file (empty_graph ex_file))"

definition ex_resolved :: depgraph where
  "ex_resolved = fst (projr (Resolve ex_env False))"

definition ex_warnings :: "string list" where
  "ex_warnings = snd (projr (Resolve ex_env False))"

lemma ex_unclassified: "resolveWithGoModGraph ex_cmp (Inr ex_out) ex_file (empty_graph ex_file) = Inr ex_unclassified"
  by (simp add: ex_unclassified_def resolveWithGoModGraph_def Let_def)

lemma ex_resolved: "Resolve ex_env False = Inr (ex_resolved, ex_warnings)"
  by (simp add: ex_resolved_def ex_warnings_def Resolve_def ex_parse split: prod.split)

lemma ex_resolved_dep:
  "dep_of ex_resolved p = map_option (classify_dep False (fst (listPlatforms ex_runs))
     (belowUnknown (fst (listPlatforms ex_runs)) (goModListed (Inr ex_file)) ex_unclassified) p) (dep_of ex_unclassified p)"
proof -
  obtain g1 warn nt where c: "classifyTestOnlyDeps False (Inr ex_file) (listPlatforms ex_runs) ex_unclassified = (g1, warn, nt)"
    by (metis prod_cases3)
  have "resolve_modules ex_env ex_file = (ex_unclassified, [])"
    by (simp add: resolve_modules_def ex_env_def ex_unclassified)
  then have "dep_of ex_resolved p = dep_of g1 p"
    using c by (simp add: ex_resolved_def Resolve_def ex_parse ex_runs_def ex_env_fields dep_of_def)
  then show ?thesis
    using classify_done [OF ex_all_ok ex_seen(1), of False "Inr ex_file" ex_unclassified] c
    by (simp add: dep_of_def map_of_map_entries)
qed

lemma ex_unclassified_deps:
  "map_option dp_Direct (dep_of ex_unclassified ''b'') = Some True"
  "map_option dp_Direct (dep_of ex_unclassified ''c'') = Some False"
  by code_simp+

lemma ex_below: "''c'' \<notin> set (belowUnknown ps (goModListed (Inr ex_file)) g)"
  by (simp add: belowUnknown_def ex_listed Let_def)

lemma ex_verdicts:
  "\<exists>d. dep_of ex_resolved ''b'' = Some d \<and> dp_IsTestOnly d = Some True"
  "\<exists>d. dep_of ex_resolved ''c'' = Some d \<and> dp_InBuild d = Some False"
proof -
  have ok: "graph_ok fresh_dep ex_unclassified"
    using graph_ok_mod_graph [OF ex_unclassified] .
  obtain b where b: "dep_of ex_unclassified ''b'' = Some b"
    using ex_unclassified_deps(1) by auto
  obtain c where c: "dep_of ex_unclassified ''c'' = Some c" "\<not> dp_Direct c"
    using ex_unclassified_deps(2) by auto
  have fresh: "fresh_dep ''b'' b" "fresh_dep ''c'' c"
    using ok b c by (simp_all add: graph_ok_def)
  have p: "False = (\<not> all_ok ex_runs)" using ex_all_ok by simp
  show "\<exists>d. dep_of ex_resolved ''b'' = Some d \<and> dp_IsTestOnly d = Some True"
    using classify_dep_verdicts(2) [OF fresh(1) refl p refl] ex_seen ex_all_ok
    by (simp add: ex_resolved_dep b)
  show "\<exists>d. dep_of ex_resolved ''c'' = Some d \<and> dp_InBuild d = Some False"
    using classify_dep_verdicts(3) [OF fresh(2) refl p refl] ex_seen ex_all_ok c ex_below
    by (simp add: ex_resolved_dep)
qed

theorem resolved_graph_well_formed_witness:
  "case dep_of ex_resolved ''b'' of None \<Rightarrow> False | Some d \<Rightarrow>
    gr_Root ex_resolved = ''m'' \<and> set (dp_UsedBy d) = {a. (a, ''b'') \<in> graph_requires ex_out}
    \<and> {a. (a, ''b'') \<in> set (Edges ex_resolved)} = {a \<in> set (dp_UsedBy d). a \<noteq> ''b'' \<and> (a = ''m'' \<or> dep_of ex_resolved a \<noteq> None)}"
proof -
  obtain d where d: "dep_of ex_resolved ''b'' = Some d" using ex_verdicts(1) by blast
  show ?thesis
    using resolved_graph_well_formed [OF ex_resolved d ex_parse(1)] unfolding d option.case by (simp add: ex_env_def ex_file_def)
qed

theorem outside_build_is_proved_witness:
  "case dep_of ex_resolved ''c'' of None \<Rightarrow> False | Some d \<Rightarrow>
    list_all (\<lambda>run. case listPackages (re_go_list ex_env) (re_offline ex_env) run of res \<Rightarrow>
           ls_err res = None \<and> ls_unresolved res = [] \<and> ''c'' \<notin> ls_mods res) all_runs
    \<and> \<not> dp_Direct d
    \<and> \<not> (''c'' \<in> (used_rel ex_resolved)\<^sup>* `` unseen_direct (runs_of_env ex_env) ex_resolved \<and> listed_in_gomod ex_env ''c'')"
proof -
  obtain d where d: "dep_of ex_resolved ''c'' = Some d" "dp_InBuild d = Some False"
    using ex_verdicts(2) by blast
  show ?thesis
    using outside_build_is_proved [OF ex_resolved d] unfolding d(1) option.case .
qed

theorem test_only_is_proved_witness:
  "list_all (\<lambda>run. case listPackages (re_go_list ex_env) (re_offline ex_env) run of res \<Rightarrow>
           ls_err res = None \<and> ls_unresolved res = [] \<and> (''b'' \<in> ls_mods res \<longrightarrow> lr_test run)) all_runs
    \<and> list_ex (\<lambda>run. lr_test run \<and> ''b'' \<in> ls_mods (listPackages (re_go_list ex_env) (re_offline ex_env) run)) all_runs"
proof -
  obtain d where d: "dep_of ex_resolved ''b'' = Some d" "dp_IsTestOnly d = Some True"
    using ex_verdicts(1) by blast
  show ?thesis
    by (rule test_only_is_proved [OF ex_resolved d])
qed

end
