(* ===== verification/Workflow_File.thy ===== *)
theory Workflow_File
  imports Go_Text
begin

text \<open>
  \<open>pkg/parser/workflow.go\<close>: from the decoded YAML of a GitHub Actions workflow to the jobs and steps the
  CI scan reads, and the parsing of an action reference. The YAML decoder (\<open>gopkg.in/yaml.v3\<close>,
  third-party) is a parameter; its untyped values (\<open>interface{}\<close>) are the datatype \<open>yaml\<close>, whose last
  constructor carries what \<open>%v\<close> prints for the values the code never looks into.
\<close>

section \<open>Data\<close>

datatype yaml =
    YNull
  | YStr string
  | YList "yaml list"
  | YMap "(string \<times> yaml) list"
  | YOther string

record workflow_permissions =
  wp_Raw :: string
  wp_Granular :: "string \<Rightarrow> string option"
  wp_IsWriteAll :: bool

record workflow_step =
  ws_Name :: string
  ws_Uses :: string
  ws_Run :: string
  ws_With :: "string \<Rightarrow> string option"
  ws_Env :: "string \<Rightarrow> string option"

record workflow_job =
  wj_Name :: string
  wj_RunsOn :: string
  wj_Permissions :: workflow_permissions
  wj_Steps :: "workflow_step list"
  wj_IsSelfHosted :: bool

record workflow =
  wf_Name :: string
  wf_FilePath :: string
  wf_Permissions :: workflow_permissions
  wf_Jobs :: "string \<Rightarrow> workflow_job option"

record action_ref =
  ar_Owner :: string
  ar_Repo :: string
  ar_Version :: string
  ar_IsPinned :: bool
  ar_IsLocal :: bool

record raw_job =
  rj_Name :: string
  rj_RunsOn :: yaml
  rj_Permissions :: yaml
  rj_Steps :: "workflow_step list"

record raw_workflow =
  rw_Name :: string
  rw_Permissions :: yaml
  rw_Jobs :: "string \<Rightarrow> raw_job option"

section \<open>Permissions and runners\<close>

definition no_permissions :: workflow_permissions where
  "no_permissions = \<lparr>wp_Raw = [], wp_Granular = Map.empty, wp_IsWriteAll = False\<rparr>"

definition granular :: "(string \<times> yaml) list \<Rightarrow> string \<Rightarrow> string option" where
  "granular m key = (case map_of m key of Some (YStr s) \<Rightarrow> Some s | _ \<Rightarrow> None)"

definition parsePermissions :: "yaml \<Rightarrow> workflow_permissions" where
  "parsePermissions raw =
     (case raw of
        YStr v \<Rightarrow> \<lparr>wp_Raw = v, wp_Granular = Map.empty, wp_IsWriteAll = (v = ''write-all'')\<rparr>
      | YMap m \<Rightarrow> \<lparr>wp_Raw = [], wp_Granular = granular m, wp_IsWriteAll = False\<rparr>
      | _ \<Rightarrow> no_permissions)"

fun strings_in :: "yaml list \<Rightarrow> string list" where
  "strings_in [] = []"
| "strings_in (YStr s # ys) = s # strings_in ys"
| "strings_in (y # ys) = strings_in ys"

text \<open>\<open>printed\<close> is \<open>fmt.Sprintf("%v", raw)\<close> for a map (its keys are printed in sorted order).\<close>

definition parseRunsOn :: "((string \<times> yaml) list \<Rightarrow> string) \<Rightarrow> yaml \<Rightarrow> string" where
  "parseRunsOn printed raw =
     (case raw of
        YNull \<Rightarrow> []
      | YStr v \<Rightarrow> v
      | YList v \<Rightarrow> Join (strings_in v) '', ''
      | YMap m \<Rightarrow> printed m
      | YOther v \<Rightarrow> v)"

section \<open>The file\<close>

definition maxWorkflowSize :: int where
  "maxWorkflowSize = 2 ^ 20"

definition parse_job :: "((string \<times> yaml) list \<Rightarrow> string) \<Rightarrow> raw_job \<Rightarrow> workflow_job" where
  "parse_job printed j =
     (let runs_on = parseRunsOn printed (rj_RunsOn j)
      in \<lparr>wj_Name = rj_Name j, wj_RunsOn = runs_on, wj_Permissions = parsePermissions (rj_Permissions j),
          wj_Steps = rj_Steps j, wj_IsSelfHosted = Contains (ToLower runs_on) ''self-hosted''\<rparr>)"

definition quoted :: "string \<Rightarrow> string" where
  "quoted s = CHR 0x22 # s @ [CHR 0x22]"

text \<open>The file's bytes are an argument (\<open>Inl\<close>: reading failed), \<open>decode\<close> is the YAML decoder.\<close>

definition ParseWorkflow ::
  "(string \<Rightarrow> string + raw_workflow) \<Rightarrow> ((string \<times> yaml) list \<Rightarrow> string) \<Rightarrow> string \<Rightarrow> string + string \<Rightarrow> string + workflow" where
  "ParseWorkflow decode printed path file =
     (case file of
        Inl err \<Rightarrow> Inl (''reading workflow '' @ path @ '': '' @ err)
      | Inr data \<Rightarrow>
          if int (length data) > maxWorkflowSize
          then Inl (''workflow file '' @ quoted path @ '' exceeds 1 MB limit ('' @ itoa (int (length data))
                    @ '' bytes): refusing to parse'')
          else case decode data of
                 Inl err \<Rightarrow> Inl (''parsing workflow '' @ path @ '': '' @ err)
               | Inr raw \<Rightarrow>
                   Inr \<lparr>wf_Name = rw_Name raw, wf_FilePath = path, wf_Permissions = parsePermissions (rw_Permissions raw),
                        wf_Jobs = (\<lambda>id. map_option (parse_job printed) (rw_Jobs raw id))\<rparr>)"

text \<open>
  \<open>ParseAllWorkflows\<close>: the files of the two globs (an argument, each with its bytes) in order; a file that
  does not parse becomes a warning. The first glob's error is the error of the call, the second one's is
  ignored.
\<close>

fun parse_all :: "(string \<Rightarrow> string + string \<Rightarrow> string + workflow) \<Rightarrow> (string \<times> (string + string)) list \<Rightarrow>
    workflow list \<times> string list" where
  "parse_all parse [] = ([], [])"
| "parse_all parse ((path, file) # fs) =
     (case parse_all parse fs of (wfs, warnings) \<Rightarrow>
        (case parse path file of
           Inl err \<Rightarrow> (wfs, (''skipping workflow: '' @ err) # warnings)
         | Inr w \<Rightarrow> (w # wfs, warnings)))"

definition ParseAllWorkflows ::
  "(string \<Rightarrow> string + string \<Rightarrow> string + workflow) \<Rightarrow> string + (string \<times> (string + string)) list \<Rightarrow>
   string + (string \<times> (string + string)) list \<Rightarrow> string + workflow list \<times> string list" where
  "ParseAllWorkflows parse yml yaml =
     (case yml of
        Inl err \<Rightarrow> Inl (''globbing workflows: '' @ err)
      | Inr files \<Rightarrow> Inr (parse_all parse (files @ (case yaml of Inl err \<Rightarrow> [] | Inr fs \<Rightarrow> fs))))"

section \<open>Action references\<close>

definition is_hex :: "char \<Rightarrow> bool" where
  "is_hex c \<longleftrightarrow> c \<in> set ''0123456789abcdef''"

definition is_sha :: "string \<Rightarrow> bool" where
  "is_sha v \<longleftrightarrow> (length v = 40 \<or> length v = 64) \<and> list_all is_hex v"

text \<open>\<open>strings.LastIndex\<close> of a byte, as the text before and after it.\<close>

definition cut_last :: "string \<Rightarrow> char \<Rightarrow> (string \<times> string) option" where
  "cut_last s c = map_option (\<lambda>(a, b). (rev b, rev a)) (Cut (rev s) [c])"

definition ParseActionRef :: "string \<Rightarrow> action_ref option" where
  "ParseActionRef uses =
     (if uses = [] then None
      else if HasPrefix uses ''./'' \<or> HasPrefix uses ''../'' then
        Some \<lparr>ar_Owner = [], ar_Repo = [], ar_Version = [], ar_IsPinned = False, ar_IsLocal = True\<rparr>
      else if HasPrefix uses ''docker://'' then
        Some \<lparr>ar_Owner = ''docker'', ar_Repo = uses, ar_Version = ''latest'', ar_IsPinned = False, ar_IsLocal = False\<rparr>
      else case cut_last uses CHR ''@'' of
        None \<Rightarrow> None
      | Some (ref, version) \<Rightarrow>
          (case Split ref CHR ''/'' of
             owner # repo # rest \<Rightarrow>
               Some \<lparr>ar_Owner = owner, ar_Repo = repo, ar_Version = version, ar_IsPinned = is_sha version, ar_IsLocal = False\<rparr>
           | _ \<Rightarrow> None))"

definition trustedOrgs :: "string list" where
  "trustedOrgs = [''actions'', ''github'', ''docker'', ''azure'', ''aws-actions'', ''google-github-actions'',
     ''hashicorp'', ''goreleaser'', ''codecov'']"

definition IsOfficialAction :: "action_ref option \<Rightarrow> bool" where
  "IsOfficialAction ref = (case ref of None \<Rightarrow> True | Some r \<Rightarrow> ar_IsLocal r \<or> ar_Owner r \<in> set trustedOrgs)"

lemma cut_last_Some: "c \<notin> set b \<Longrightarrow> cut_last (a @ c # b) c = Some (a, b)"
  using Cut_char [of c "rev b" "rev a"] by (simp add: cut_last_def)

text \<open>
  A reference \<open>owner/repo[/path]@version\<close> is taken apart into its parts, and it counts as pinned exactly for
  a full commit hash.
\<close>

definition action_text :: "string \<Rightarrow> string \<Rightarrow> string list \<Rightarrow> string \<Rightarrow> string" where
  "action_text owner repo sub version = Join (owner # repo # sub) ''/'' @ ''@'' @ version"

lemma ParseActionRef_text:
  assumes "owner \<noteq> []" "CHR ''/'' \<notin> set owner" "CHR ''/'' \<notin> set repo" "list_all (\<lambda>p. CHR ''/'' \<notin> set p) sub"
    and "CHR ''@'' \<notin> set version" "owner \<notin> {''.'', ''..'', ''docker:''}"
  shows "ParseActionRef (action_text owner repo sub version) =
    Some \<lparr>ar_Owner = owner, ar_Repo = repo, ar_Version = version, ar_IsPinned = is_sha version, ar_IsLocal = False\<rparr>"
proof -
  have s: "Split (Join (owner # repo # sub) ''/'') CHR ''/'' = owner # repo # sub"
    using assms by (intro Split_Join) simp_all
  have prefix: "\<not> HasPrefix (owner @ CHR ''/'' # t) (k @ CHR ''/'' # u)"
    if "owner \<noteq> k" "CHR ''/'' \<notin> set k" for k t u
  proof
    assume "HasPrefix (owner @ CHR ''/'' # t) (k @ CHR ''/'' # u)"
    then obtain v where "owner @ CHR ''/'' # t = k @ CHR ''/'' # (u @ v)"
      by (auto simp: HasPrefix_iff)
    then have "Split (owner @ CHR ''/'' # t) CHR ''/'' = Split (k @ CHR ''/'' # (u @ v)) CHR ''/''" by simp
    then show False
      using that assms(2) by (simp add: Split_char)
  qed
  have eq: "action_text owner repo sub version = owner @ CHR ''/'' # (Join (repo # sub) ''/'' @ ''@'' @ version)"
    by (simp add: action_text_def)
  have c: "cut_last (action_text owner repo sub version) CHR ''@'' = Some (Join (owner # repo # sub) ''/'', version)"
    using cut_last_Some [OF assms(5), of "Join (owner # repo # sub) ''/''"] by (simp add: action_text_def)
  show ?thesis
    using prefix [of "''.''" _ "[]"] prefix [of "''..''" _ "[]"] prefix [of "''docker:''" _ "''/''"] assms(1,6)
    by (simp add: ParseActionRef_def c s del: Join.simps) (simp add: eq)
qed

text \<open>Every file is accounted for: it is a parsed workflow or a warning.\<close>

lemma parse_all_accounts: "length (fst (parse_all parse fs)) + length (snd (parse_all parse fs)) = length fs"
  by (induction parse fs rule: parse_all.induct) (auto split: prod.splits sum.splits)

end
