(* ===== verification/Go_Double.thy ===== *)
theory Go_Double
  imports Complex_Main Prelude
begin

text \<open>
  Go's \<open>float64\<close> in the range the sources use. A value is the rational number it stands for; every constant
  and every result of an operation is rounded to the nearest multiple of its unit in the last place, ties
  to even, as IEEE 754 prescribes: 53 significant bits, and never below the least subnormal unit \<open>2 ^ -1074\<close>.
  Overflow, infinities and NaN do not occur (no value here exceeds the number of modules times 200). The
  compiler may fuse a multiplication with an addition on some processors; the model is the unfused
  arithmetic of \<open>amd64\<close>.

  The lemmas give what the sources rely on: rounding is monotone, keeps the sign and leaves integers alone.
\<close>

type_synonym double = rat

named_theorems go_double \<open>facts on rounded arithmetic\<close>

section \<open>Rounding\<close>

text \<open>The number of binary digits.\<close>

function bits :: "int \<Rightarrow> int" where
  "bits n = (if n \<le> 0 then 0 else 1 + bits (n div 2))"
  by pat_completeness auto
termination by (relation "measure nat") auto

declare bits.simps [simp del]

lemma bits_0 [simp]: "bits 0 = 0"
  by (simp add: bits.simps)

lemma bits_pos [go_double]: "0 < n \<Longrightarrow> bits n = 1 + bits (n div 2)"
  by (simp add: bits.simps [of n])

definition pow2 :: "int \<Rightarrow> rat" where
  "pow2 e = (if 0 \<le> e then of_int (2 ^ nat e) else 1 / of_int (2 ^ nat (- e)))"

text \<open>The exponent of a positive value: the greatest power of two below it.\<close>

definition ilog2 :: "rat \<Rightarrow> int" where
  "ilog2 q = (if 1 \<le> q then bits \<lfloor>q\<rfloor> - 1 else - bits (\<lceil>1 / q\<rceil> - 1))"

definition ulp :: "rat \<Rightarrow> rat" where
  "ulp q = pow2 (max (ilog2 q - 52) (- 1074))"

definition round_even :: "rat \<Rightarrow> int" where
  "round_even x =
     (let f = \<lfloor>x\<rfloor>; r = x - of_int f
      in if r < 1 / 2 then f else if r > 1 / 2 then f + 1 else if even f then f else f + 1)"

definition rnd :: "rat \<Rightarrow> double" where
  "rnd q =
     (if q = 0 then 0
      else if q < 0 then - (of_int (round_even (- q / ulp (- q))) * ulp (- q))
      else of_int (round_even (q / ulp q)) * ulp q)"

definition dadd :: "double \<Rightarrow> double \<Rightarrow> double" where "dadd a b = rnd (a + b)"
definition dmul :: "double \<Rightarrow> double \<Rightarrow> double" where "dmul a b = rnd (a * b)"
definition ddiv :: "double \<Rightarrow> double \<Rightarrow> double" where "ddiv a b = rnd (a / b)"

text \<open>\<open>int(x)\<close> truncates towards zero, and \<open>Hours\<close> of a duration adds its whole hours and the rest.\<close>

definition go_int :: "double \<Rightarrow> int" where
  "go_int x = (if x < 0 then \<lceil>x\<rceil> else \<lfloor>x\<rfloor>)"

definition Hours :: "int \<Rightarrow> double" where
  "Hours d =
     (let hour = 3600000000000; h = (if d < 0 then - (- d div hour) else d div hour)
      in dadd (of_int h) (ddiv (of_int (d - h * hour)) (of_int hour)))"

text \<open>\<open>math.Round\<close> (half away from zero), \<open>math.Ceil\<close>, and \<open>%.0f\<close> (half to even).\<close>

definition go_round :: "double \<Rightarrow> int" where
  "go_round x = (if x < 0 then - \<lfloor>- x + 1 / 2\<rfloor> else \<lfloor>x + 1 / 2\<rfloor>)"

definition fmt_whole :: "double \<Rightarrow> string" where
  "fmt_whole x = itoa (if x < 0 then - round_even (- x) else round_even x)"

section \<open>Rounding is monotone\<close>

lemma pow2_powi: "pow2 e = 2 powi e"
  by (simp add: pow2_def power_int_def power_one_over inverse_eq_divide)

lemma pow2_pos [simp]: "0 < pow2 e"
  by (simp add: pow2_powi)

lemma pow2_not_0: "pow2 e \<noteq> 0"
  by (simp add: pow2_powi)

lemma pow2_mono: "a \<le> b \<Longrightarrow> pow2 a \<le> pow2 b"
  unfolding pow2_powi by (rule power_int_increasing) auto

lemma pow2_split: "pow2 a = pow2 (a - b) * pow2 b"
  by (simp add: pow2_powi flip: power_int_add)

lemma pow2_nat: "0 \<le> e \<Longrightarrow> pow2 e = of_int (2 ^ nat e)"
  by (simp add: pow2_def)

lemma bits_nonneg [simp]: "0 \<le> bits n"
  by (induction n rule: bits.induct) (subst bits.simps, auto)

lemma bits_bounds: "0 < n \<Longrightarrow> 2 ^ nat (bits n - 1) \<le> n \<and> n < 2 ^ nat (bits n)"
proof (induction n rule: bits.induct)
  case (1 n)
  show ?case
  proof (cases "n = 1")
    case True
    then show ?thesis by (simp add: bits_pos)
  next
    case False
    then have half: "0 < n div 2" using 1 by auto
    then have pos: "1 \<le> bits (n div 2)"
      by (simp add: bits_pos [of "n div 2"])
    have ih: "2 ^ nat (bits (n div 2) - 1) \<le> n div 2" "n div 2 < 2 ^ nat (bits (n div 2))"
      using 1 half by auto
    have lower: "nat (bits (n div 2)) = Suc (nat (bits (n div 2) - 1))" using pos by simp
    have "(2 :: int) ^ nat (bits (n div 2)) = 2 * 2 ^ nat (bits (n div 2) - 1)"
      unfolding lower by simp
    moreover have "nat (1 + bits (n div 2)) = Suc (nat (bits (n div 2)))" using pos by simp
    then have "(2 :: int) ^ nat (1 + bits (n div 2)) = 2 * 2 ^ nat (bits (n div 2))" by simp
    ultimately show ?thesis
      using ih 1(2) unfolding bits_pos [OF 1(2)] by simp linarith
  qed
qed

lemma ilog2_bounds:
  assumes "0 < q"
  shows "pow2 (ilog2 q) \<le> q" "q < pow2 (ilog2 q + 1)"
proof -
  have "pow2 (ilog2 q) \<le> q \<and> q < pow2 (ilog2 q + 1)"
  proof (cases "1 \<le> q")
    case True
    then have f: "1 \<le> \<lfloor>q\<rfloor>" by simp
    then have "0 \<le> bits \<lfloor>q\<rfloor> - 1" by (simp add: bits_pos)
    moreover have "(2 :: int) ^ nat (bits \<lfloor>q\<rfloor> - 1) \<le> \<lfloor>q\<rfloor>" "\<lfloor>q\<rfloor> + 1 \<le> 2 ^ nat (bits \<lfloor>q\<rfloor>)"
      using bits_bounds [of "\<lfloor>q\<rfloor>"] f by auto
    then have "of_int (2 ^ nat (bits \<lfloor>q\<rfloor> - 1)) \<le> q" "q < of_int (2 ^ nat (bits \<lfloor>q\<rfloor>))"
      by linarith+
    ultimately show ?thesis using True by (simp add: ilog2_def pow2_nat)
  next
    case False
    define c where "c = \<lceil>1 / q\<rceil>"
    have inv: "1 < 1 / q" using False assms by simp
    then have c: "2 \<le> c" unfolding c_def by linarith
    have b: "1 \<le> bits (c - 1)" using c by (simp add: bits_pos)
    have "(2 :: int) ^ nat (bits (c - 1) - 1) \<le> c - 1" "c \<le> 2 ^ nat (bits (c - 1))"
      using bits_bounds [of "c - 1"] c by auto
    then have "of_int (2 ^ nat (bits (c - 1) - 1)) < 1 / q" "1 / q \<le> of_int (2 ^ nat (bits (c - 1)))"
      unfolding c_def by linarith+
    then have "pow2 (bits (c - 1) - 1) < 1 / q" "1 / q \<le> pow2 (bits (c - 1))"
      using b by (simp_all add: pow2_nat)
    moreover have "pow2 (- e) = 1 / pow2 e" for e
      by (simp add: pow2_powi power_int_minus inverse_eq_divide)
    then have "pow2 (- bits (c - 1)) = 1 / pow2 (bits (c - 1))"
      "pow2 (1 - bits (c - 1)) = 1 / pow2 (bits (c - 1) - 1)"
      by (metis, metis minus_diff_eq)
    ultimately show ?thesis
      using False assms by (simp add: ilog2_def field_simps flip: c_def)
  qed
  then show "pow2 (ilog2 q) \<le> q" "q < pow2 (ilog2 q + 1)" by auto
qed

lemma round_even_of_int [simp]: "round_even (of_int n) = n"
  by (simp add: round_even_def)

lemma round_even_le_iff: "round_even x \<le> n \<longleftrightarrow> x < of_int n + 1 / 2 \<or> x = of_int n + 1 / 2 \<and> even n"
proof -
  define f where "f = \<lfloor>x\<rfloor>"
  have f: "of_int f \<le> x" "x < of_int f + 1" unfolding f_def by linarith+
  consider "f < n" "f + 1 \<le> n" | "f = n" | "n < f" "n + 1 \<le> f" by linarith
  then show ?thesis
  proof cases
    case 1
    then have "of_int f + 1 \<le> (of_int n :: rat)" by (metis of_int_1 of_int_add of_int_le_iff)
    then show ?thesis using 1 f by (auto simp: round_even_def Let_def simp flip: f_def)
  next
    case 2
    then show ?thesis using f by (auto simp: round_even_def Let_def simp flip: f_def)
  next
    case 3
    then have "of_int n + 1 \<le> (of_int f :: rat)" by (metis of_int_1 of_int_add of_int_le_iff)
    then show ?thesis using 3 f by (auto simp: round_even_def Let_def simp flip: f_def)
  qed
qed

lemma round_even_mono: "x \<le> y \<Longrightarrow> round_even x \<le> round_even y"
  using round_even_le_iff [of x "round_even y"] round_even_le_iff [of y "round_even y"] by auto

lemma ulp_pos [simp]: "0 < ulp q"
  by (simp add: ulp_def)

lemma ulp_nonneg [simp]: "0 \<le> ulp q"
  by (rule less_imp_le) simp

lemma rnd_0 [simp]: "rnd 0 = 0"
  by (simp add: rnd_def)

lemma rnd_minus: "rnd (- q) = - rnd q"
  by (simp add: rnd_def)

lemma rnd_pos: "0 < q \<Longrightarrow> rnd q = of_int (round_even (q / ulp q)) * ulp q"
  by (simp add: rnd_def)

lemma round_even_nonneg: "0 \<le> x \<Longrightarrow> 0 \<le> round_even x"
  using round_even_mono [of 0 x] round_even_of_int [of 0] by simp

lemma rnd_nonneg: "0 \<le> q \<Longrightarrow> 0 \<le> rnd q"
  by (cases "q = 0") (auto simp: rnd_pos round_even_nonneg intro!: mult_nonneg_nonneg)

text \<open>A bound that is a multiple of the unit survives the rounding.\<close>

lemma rnd_le_multiple:
  assumes "0 < q" and "q \<le> of_int n * ulp q"
  shows "rnd q \<le> of_int n * ulp q"
proof -
  have "q / ulp q \<le> of_int n" using assms by (simp add: divide_le_eq)
  then have "round_even (q / ulp q) \<le> n" using round_even_mono by fastforce
  then show ?thesis using assms(1) by (simp add: rnd_pos)
qed

lemma multiple_le_rnd:
  assumes "0 < q" and "of_int n * ulp q \<le> q"
  shows "of_int n * ulp q \<le> rnd q"
proof -
  have "of_int n \<le> q / ulp q" using assms by (simp add: le_divide_eq)
  then have "n \<le> round_even (q / ulp q)" using round_even_mono by fastforce
  then show ?thesis using assms(1) by (simp add: rnd_pos)
qed

lemma rnd_mono_pos:
  assumes "0 < p" and "p \<le> q"
  shows "rnd p \<le> rnd q"
proof (cases "ulp p = ulp q")
  case True
  then have "p / ulp p \<le> q / ulp q" using assms by (simp add: divide_right_mono True)
  then show ?thesis using assms True round_even_mono by (simp add: rnd_pos)
next
  case False
  have "pow2 (ilog2 p) < pow2 (ilog2 q + 1)"
    using assms ilog2_bounds(1) [of p] ilog2_bounds(2) [of q] by simp
  then have "ilog2 p \<le> ilog2 q"
    using pow2_mono [of "ilog2 q + 1" "ilog2 p"] by linarith
  moreover have "max (ilog2 p - 52) (- 1074) \<noteq> max (ilog2 q - 52) (- 1074)"
    using False by (auto simp: ulp_def)
  ultimately have e: "ilog2 p < ilog2 q" "- 1074 < ilog2 q - 52" by linarith+
  define b where "b = pow2 (ilog2 q)"
  have "b = of_int (2 ^ 52) * ulp q"
    using e pow2_split [of "ilog2 q" "ilog2 q - 52"] by (simp add: b_def ulp_def pow2_def)
  moreover have "b \<le> q" using ilog2_bounds(1) [of q] assms by (simp add: b_def)
  ultimately have upper: "b \<le> rnd q"
    using multiple_le_rnd [of q "2 ^ 52"] assms by simp
  have "b = of_int (2 ^ nat (ilog2 q - max (ilog2 p - 52) (- 1074))) * ulp p"
    using e pow2_split [of "ilog2 q" "max (ilog2 p - 52) (- 1074)"] by (simp add: b_def ulp_def pow2_nat)
  moreover have "p \<le> b"
    using ilog2_bounds(2) [of p] assms pow2_mono [of "ilog2 p + 1" "ilog2 q"] e by (simp add: b_def)
  ultimately have "rnd p \<le> b"
    using rnd_le_multiple [of p "2 ^ nat (ilog2 q - max (ilog2 p - 52) (- 1074))"] assms by simp
  with upper show ?thesis by simp
qed

lemma rnd_mono: "p \<le> q \<Longrightarrow> rnd p \<le> rnd q"
proof -
  assume "p \<le> q"
  then consider "0 < p" | "p \<le> 0" "0 \<le> q" | "0 < - q" "- q \<le> - p" by linarith
  then show "rnd p \<le> rnd q"
  proof cases
    case 1
    then show ?thesis using \<open>p \<le> q\<close> by (rule rnd_mono_pos)
  next
    case 2
    then show ?thesis using rnd_nonneg [of q] rnd_nonneg [of "- p"] by (simp add: rnd_minus)
  next
    case 3
    then show ?thesis using rnd_mono_pos [of "- q" "- p"] by (simp add: rnd_minus)
  qed
qed

text \<open>The relative error from \<open>1 / 2\<close> on.\<close>

lemma round_even_error: "\<bar>of_int (round_even x) - x\<bar> \<le> 1 / 2"
proof -
  have "of_int \<lfloor>x\<rfloor> \<le> x" "x < of_int \<lfloor>x\<rfloor> + 1" by linarith+
  then show ?thesis by (auto simp: round_even_def Let_def abs_le_iff)
qed

lemma rnd_error:
  assumes "1 / 2 \<le> q"
  shows "\<bar>rnd q - q\<bar> \<le> q / 2 ^ 53"
proof -
  have q: "0 < q" using assms by linarith
  have "pow2 (- 1) < pow2 (ilog2 q + 1)"
    using ilog2_bounds(2) [OF q] assms by (simp add: pow2_def [of "- 1"])
  then have "- 1 \<le> ilog2 q"
    using pow2_mono [of "ilog2 q + 1" "- 1"] by linarith
  then have "ulp q = pow2 (ilog2 q - 52)" by (simp add: ulp_def)
  then have u: "ulp q * 2 ^ 52 = pow2 (ilog2 q)"
    using pow2_split [of "ilog2 q" "52"] by (simp add: pow2_def [of 52])
  have "\<bar>rnd q - q\<bar> = \<bar>of_int (round_even (q / ulp q)) - q / ulp q\<bar> * ulp q"
    using ulp_pos [of q] by (simp add: rnd_pos [OF q] abs_mult_pos left_diff_distrib del: ulp_pos)
  also have "\<dots> \<le> 1 / 2 * ulp q"
    by (intro mult_right_mono round_even_error) simp
  also have "\<dots> \<le> q / 2 ^ 53"
    using u ilog2_bounds(1) [OF q] by simp
  finally show ?thesis .
qed

text \<open>An integer of at most 53 bits is a float.\<close>

lemma rnd_of_int:
  assumes "\<bar>n\<bar> < 2 ^ 53"
  shows "rnd (of_int n) = of_int n"
proof -
  have pos: "rnd (of_int m) = of_int m" if "0 < m" "m < 2 ^ 53" for m
  proof -
    define k where "k = ilog2 (of_int m :: rat) - 52"
    have "(of_int m :: rat) < of_int (2 ^ 53)"
      using that(2) of_int_less_iff by blast
    then have "pow2 (ilog2 (of_int m)) < pow2 53"
      using ilog2_bounds(1) [of "of_int m"] that by (simp add: pow2_def)
    then have "ilog2 (of_int m) < 53"
      using pow2_mono [of 53 "ilog2 (of_int m)"] by linarith
    then have k: "k \<le> 0" by (simp add: k_def)
    define j where "j = max k (- 1074)"
    have j: "j \<le> 0" using k by (simp add: j_def)
    have u: "ulp (of_int m) = pow2 j" by (simp add: ulp_def k_def j_def)
    have eq: "of_int m / pow2 j = (of_int (m * 2 ^ nat (- j)) :: rat)"
      using j by (simp add: pow2_def)
    show ?thesis
      using that unfolding rnd_pos [of "of_int m", unfolded of_int_0_less_iff, OF that(1)] u eq round_even_of_int
      unfolding eq [symmetric] by (simp add: pow2_not_0)
  qed
  show ?thesis
    using assms pos [of n] pos [of "- n"] rnd_minus [of "of_int n"]
    by (cases "n = 0"; cases "0 < n") auto
qed

lemma rnd_numeral: "numeral k < (2 ^ 53 :: int) \<Longrightarrow> rnd (numeral k) = numeral k"
  using rnd_of_int [of "numeral k"] by simp

lemma go_round_of_int [simp]: "go_round (of_int n) = n"
  by (auto simp: go_round_def) linarith+

lemma go_round_mono: "x \<le> y \<Longrightarrow> go_round x \<le> go_round y"
  by (auto simp: go_round_def) linarith+

section \<open>Evaluation at numerals\<close>

lemma floor_rat [go_double]:
  "\<lfloor>numeral a / numeral b :: rat\<rfloor> = numeral a div numeral b"
  "\<lfloor>1 / numeral b :: rat\<rfloor> = 1 div numeral b"
  using floor_divide_of_int_eq [of "numeral a" "numeral b", where 'a = rat]
    floor_divide_of_int_eq [of 1 "numeral b", where 'a = rat] by simp_all

lemma ceiling_rat [go_double]:
  "\<lceil>numeral a / numeral b :: rat\<rceil> = - ((- numeral a) div numeral b)"
  "\<lceil>1 / numeral b :: rat\<rceil> = - ((- 1) div numeral b)"
  using ceiling_divide_eq_div [of "numeral a" "numeral b", where 'a = rat]
    ceiling_divide_eq_div [of 1 "numeral b", where 'a = rat] by simp_all

lemmas double_eval = Hours_def go_int_def rnd_def dadd_def dmul_def ddiv_def ulp_def ilog2_def pow2_def round_even_def Let_def go_double

end
