(* ===== verification/Scanner_Data.thy ===== *)
theory Scanner_Data
  imports Policy Go_Double
begin

text \<open>
  The records of \<open>pkg/scanner\<close> that the scorer and the runner read beyond those of the grade and the policy,
  and the small helpers on them. A record extends the one the other parts use, with the further fields of
  the same struct.
\<close>

section \<open>Records\<close>

text \<open>The further fields of \<open>scanner.Vulnerability\<close>.\<close>

record scanned_vulnerability = vulnerability +
  v_Summary :: string
  v_FixedVersion :: string
  v_EnrichmentFailed :: bool
  v_FixRequiresGo :: string
  v_FixReleasedAt :: "gotime option"
  v_FixDateSource :: string
  v_AffectedPackages :: "string list"
  v_Condition :: string
  v_KEVChecked :: bool

record scored_vulnerability = scanned_vulnerability +
  v_SeveritySource :: string
  v_EPSSScore :: "double option"
  v_KEVRansomware :: string
  v_PublishedAt :: "gotime option"
  v_FixPublishedAt :: "gotime option"

text \<open>The further fields of \<open>scanner.MaintainerInfo\<close>, and the fields read of the resilience and AI reports.\<close>

record maintainer_record = maintainer_info +
  ma_DataAvailable :: bool
  ma_UnavailableReason :: string
  ma_OwnerVerified :: bool
  ma_IsArchived :: bool
  ma_ActivityPattern :: string
  ma_TakeoverCandidate :: bool

record resilience_info =
  rs_DataAvailable :: bool
  rs_Score :: int

record aigen_risk =
  ag_RiskLevel :: string
  ag_Score :: int
  ag_MeetsPromotionGate :: bool

definition UnavailableAPIError :: string where "UnavailableAPIError = ''github_api_error''"
definition UnavailableNotFound :: string where "UnavailableNotFound = ''repo_not_found''"

text \<open>The levels of a \<open>go.mod\<close> directive are strings; the empty one stands for a missing entry.\<close>

definition IntegrityLow :: string where "IntegrityLow = ''LOW''"
definition IntegrityMedium :: string where "IntegrityMedium = ''MEDIUM''"
definition IntegrityHigh :: string where "IntegrityHigh = ''HIGH''"

section \<open>Helpers\<close>

definition EqualFold :: "string \<Rightarrow> string \<Rightarrow> bool" where
  "EqualFold a b = (ToLower a = ToLower b)"

text \<open>The regular expression \<open>^(GO|CVE|GHSA)-[A-Za-z0-9._-]+$\<close>, on at most 100 bytes.\<close>

definition id_char :: "char \<Rightarrow> bool" where
  "id_char c =
     (let n = (of_char c :: nat)
      in (65 \<le> n \<and> n \<le> 90) \<or> (97 \<le> n \<and> n \<le> 122) \<or> (48 \<le> n \<and> n \<le> 57) \<or> c = CHR ''.'' \<or> c = CHR ''_'' \<or> c = CHR ''-'')"

definition id_after :: "string \<Rightarrow> string \<Rightarrow> bool" where
  "id_after start i =
     (HasPrefix i start \<and> TrimPrefix i start \<noteq> [] \<and> list_all id_char (TrimPrefix i start))"

definition validateVulnID :: "string \<Rightarrow> bool" where
  "validateVulnID i = (length i \<le> 100 \<and> (id_after ''GO-'' i \<or> id_after ''CVE-'' i \<or> id_after ''GHSA-'' i))"

definition CVEAlias :: "'a vulnerability_scheme \<Rightarrow> string" where
  "CVEAlias v =
     (case find (\<lambda>i. HasPrefix i ''CVE-'' \<and> validateVulnID i) (v_ID v # v_Aliases v) of
        Some i \<Rightarrow> i
      | None \<Rightarrow> '''')"

text \<open>The bytes of an em dash and an arrow.\<close>

definition em_dash :: string where "em_dash = [CHR 0xE2, CHR 0x80, CHR 0x94]"
definition arrow :: string where "arrow = [CHR 0xE2, CHR 0x86, CHR 0x92]"

end
