(* ===== verification/Runner_Grade.thy ===== *)
theory Runner_Grade
  imports Scanner_Data Resolver_Props
begin

text \<open>
  \<open>pkg/runner/grade.go\<close>, and the parts of \<open>runner.go\<close>, \<open>regrade.go\<close> and \<open>scanner/private.go\<close> it uses: from the
  scanners' outputs and the graph to the input of the grade. The lookups about the module itself are
  arguments, as is the pattern matcher for private modules (\<open>golang.org/x/mod/module\<close>, third-party). A map
  from module paths is an association list where the code ranges over it, else a function.
\<close>

section \<open>Data\<close>

text \<open>The further fields of \<open>scanner.MaintenanceInfo\<close> that are read here.\<close>

record maintenance_record = maintenance_info +
  mr_LastRelease :: gotime
  mr_Retracted :: bool
  mr_RetractionMessage :: string
  mr_ModCheckFailed :: bool
  mr_RepositoryURL :: string
  mr_ArchivedCheck :: string
  mr_RepositoryNotFound :: bool

definition ArchivedChecked :: string where "ArchivedChecked = ''checked''"
definition ArchivedCheckFailed :: string where "ArchivedCheckFailed = ''failed''"
definition ArchivedUnsupported :: string where "ArchivedUnsupported = ''unsupported''"

definition stdlibModule :: string where
  "stdlibModule = ''stdlib''"

record grade_inputs =
  gi_Graph :: "depgraph option"
  gi_Vulns :: "(string \<times> scanned_vulnerability list) list"
  gi_Stdlib :: "scanned_vulnerability list"
  gi_Maintenance :: "(string \<times> maintenance_record) list"
  gi_Self :: row
  gi_GoSumBad :: bool
  gi_GoSumInfo :: string
  gi_Checks :: checks
  gi_History :: "string \<Rightarrow> response_history option"
  gi_Now :: gotime
  gi_SelfReleasedAt :: "gotime option"
  gi_StdlibVersion :: string
  gi_ProjectGo :: string
  gi_StrictArchived :: bool
  gi_LocalReplaced :: "string set"
  gi_Private :: "string set"

section \<open>One finding and one module's upkeep\<close>

definition FindingFromVuln :: "string \<Rightarrow> scanned_vulnerability \<Rightarrow> finding" where
  "FindingFromVuln m v =
     \<lparr>f_ID = v_ID v, f_Aliases = v_Aliases v, f_Module = m, f_Summary = v_Summary v, f_Severity = ToUpper (v_Severity v),
      f_Reachability = v_Reachability v,
      f_SeverityLookupFailed = (v_EnrichmentFailed v \<and> (TrimSpace (v_Severity v) = [] \<or> EqualFold (v_Severity v) ''UNKNOWN'')),
      f_FixRequiresGo = v_FixRequiresGo v, f_Exploited = v_InKEV v, f_FixedVersion = v_FixedVersion v,
      f_FixReleasedAt = v_FixReleasedAt v, f_FixDateSource = v_FixDateSource v,
      f_AffectedPackages = v_AffectedPackages v, f_Condition = v_Condition v\<rparr>"

definition findingsOf :: "string \<Rightarrow> scanned_vulnerability list \<Rightarrow> finding list" where
  "findingsOf m vulns = map (FindingFromVuln m) vulns"

definition archivedFlagFailed :: "maintenance_record \<Rightarrow> bool" where
  "archivedFlagFailed m = (mr_ArchivedCheck m = ArchivedCheckFailed \<and> \<not> mr_RepositoryNotFound m)"

definition upkeepOfRule :: "maintenance_record option \<Rightarrow> bool \<Rightarrow> upkeep" where
  "upkeepOfRule mo strict =
     (case mo of
        None \<Rightarrow> zero_upkeep\<lparr>u_Missing := True\<rparr>
      | Some m \<Rightarrow>
          \<lparr>u_Archived = mi_Archived m, u_Deprecated = mi_Deprecated m, u_Retracted = mr_Retracted m,
           u_Message = (if mi_DeprecationMessage m = [] then mr_RetractionMessage m else mi_DeprecationMessage m),
           u_LastRelease = mr_LastRelease m, u_LastActivity = mi_LastActivity m, u_NotAssessed = False,
           u_ArchivedUnread = (\<not> strict \<and> \<not> mi_Archived m \<and> \<not> mr_ModCheckFailed m \<and> archivedFlagFailed m),
           u_Missing = (\<not> mi_Archived m \<and> (mr_ModCheckFailed m \<or> (strict \<and> archivedFlagFailed m)))\<rparr>)"

definition upkeepOf :: "maintenance_record option \<Rightarrow> upkeep" where
  "upkeepOf m = upkeepOfRule m True"

section \<open>The input of the grade\<close>

definition lookup_list :: "(string \<times> 'a list) list \<Rightarrow> string \<Rightarrow> 'a list" where
  "lookup_list m k = (case map_of m k of None \<Rightarrow> [] | Some xs \<Rightarrow> xs)"

definition not_assessed :: upkeep where
  "not_assessed = zero_upkeep\<lparr>u_NotAssessed := True\<rparr>"

definition dep_row :: "grade_inputs \<Rightarrow> string \<Rightarrow> dependency \<Rightarrow> row" where
  "dep_row inp path d =
     (let upkeep0 = upkeepOfRule (map_of (gi_Maintenance inp) path) (gi_StrictArchived inp);
          upkeep1 = (if path \<in> gi_Private inp then not_assessed else upkeep0);
          upkeep2 = (if path \<in> gi_LocalReplaced inp then not_assessed else upkeep1)
      in \<lparr>r_Module = path, r_Version = md_Version (dp_Module d), r_Self = False, r_Direct = dp_Direct d,
          r_TestOnly = dp_IsTestOnly d, r_InBuild = dp_InBuild d, r_Private = (path \<in> gi_Private inp),
          r_Findings = findingsOf path (lookup_list (gi_Vulns inp) path), r_Upkeep = upkeep2\<rparr>)"

definition stdlib_row :: "grade_inputs \<Rightarrow> row" where
  "stdlib_row inp =
     \<lparr>r_Module = stdlibModule, r_Version = gi_StdlibVersion inp, r_Self = False, r_Direct = True, r_TestOnly = None,
      r_InBuild = None, r_Private = False, r_Findings = findingsOf stdlibModule (gi_Stdlib inp), r_Upkeep = not_assessed\<rparr>"

definition graph_rows :: "grade_inputs \<Rightarrow> row list" where
  "graph_rows inp =
     (case gi_Graph inp of
        None \<Rightarrow> []
      | Some g \<Rightarrow> map (\<lambda>path. dep_row inp path (the (dep_of g path))) (SortedPaths g))"

definition buildGradeInput :: "grade_inputs \<Rightarrow> grade_input" where
  "buildGradeInput inp =
     \<lparr>i_Self = gi_Self inp,
      i_Deps = graph_rows inp @ (if length (gi_Stdlib inp) > 0 then [stdlib_row inp] else []),
      i_ProjectGo = gi_ProjectGo inp, i_ChecksumMismatch = gi_GoSumBad inp, i_ChecksumDetail = gi_GoSumInfo inp,
      i_Checks = gi_Checks inp, i_History = gi_History inp, i_Now = gi_Now inp, i_SelfReleasedAt = gi_SelfReleasedAt inp\<rparr>"

section \<open>Private and local modules\<close>

text \<open>The patterns as one comma list; \<open>goprivate\<close> and \<open>gonoproxy\<close> are the environment variables.\<close>

definition pattern_parts :: "string \<Rightarrow> string list" where
  "pattern_parts s = filter (\<lambda>p. p \<noteq> []) (map TrimSpace (Split s CHR '',''))"

definition NewPrivateModules :: "string list \<Rightarrow> string \<Rightarrow> string \<Rightarrow> string" where
  "NewPrivateModules patterns goprivate gonoproxy =
     (let parts = concat (map pattern_parts patterns)
      in Join (if length parts = 0 then pattern_parts goprivate @ pattern_parts gonoproxy else parts) '','')"

text \<open>A matcher is its patterns, nil without one; \<open>glob\<close> is \<open>module.MatchPrefixPatterns\<close>.\<close>

definition Match :: "(string \<Rightarrow> string \<Rightarrow> bool) \<Rightarrow> string option \<Rightarrow> string \<Rightarrow> bool" where
  "Match glob p path =
     (case p of None \<Rightarrow> False | Some globs \<Rightarrow> if globs = [] \<or> path = [] then False else glob globs path)"

definition Any :: "string option \<Rightarrow> bool" where
  "Any p = (case p of None \<Rightarrow> False | Some globs \<Rightarrow> globs \<noteq> [])"

definition isLocalPath :: "string \<Rightarrow> bool" where
  "isLocalPath p =
     (p = ''.'' \<or> p = ''..'' \<or> HasPrefix p ''./'' \<or> HasPrefix p ''../'' \<or> HasPrefix p ''/''
      \<or> HasPrefix p [CHR ''.'', CHR 0x5C] \<or> HasPrefix p [CHR ''.'', CHR ''.'', CHR 0x5C]
      \<or> (length p > 2 \<and> p ! 1 = CHR '':'' \<and> (p ! 2 = CHR 0x5C \<or> p ! 2 = CHR ''/'')))"

definition localReplaced :: "gomod option \<Rightarrow> depgraph option \<Rightarrow> string set" where
  "localReplaced gm g =
     (case (gm, g) of
        (Some gm, Some g) \<Rightarrow>
          set (map fst (filter (\<lambda>(path, d).
                 case ReplacementFor gm path (md_Version (dp_Module d)) of
                   None \<Rightarrow> False | Some rep \<Rightarrow> isLocalPath (md_Path (rp_New rep))) (gr_Dependencies g)))
      | _ \<Rightarrow> {})"

definition countChecksummed :: "depgraph option \<Rightarrow> string set \<Rightarrow> nat" where
  "countChecksummed g local =
     (case g of None \<Rightarrow> 0 | Some g \<Rightarrow> length (filter (\<lambda>(path, d). path \<notin> local) (gr_Dependencies g)))"

definition goDirective :: "gomod option \<Rightarrow> string" where
  "goDirective gm = (case gm of None \<Rightarrow> [] | Some gm \<Rightarrow> TrimSpace (gm_GoVersion gm))"

definition privateModules :: "(string \<Rightarrow> string \<Rightarrow> bool) \<Rightarrow> depgraph option \<Rightarrow> string option \<Rightarrow> string set \<times> string list" where
  "privateModules glob g p =
     (case g of
        None \<Rightarrow> ({}, [])
      | Some g \<Rightarrow>
          if \<not> Any p then ({}, [])
          else let paths = filter (Match glob p) (map fst (gr_Dependencies g)) in (set paths, sort_strings paths))"

definition subgraph :: "depgraph \<Rightarrow> string set \<Rightarrow> depgraph" where
  "subgraph g paths =
     \<lparr>gr_Root = gr_Root g, gr_Dependencies = filter (\<lambda>(p, d). p \<in> paths) (gr_Dependencies g),
      gr_EdgeCount = 0, gr_Source = gr_Source g, gr_Notes = []\<rparr>"

definition publicGraph :: "depgraph \<Rightarrow> string set \<Rightarrow> depgraph" where
  "publicGraph g priv =
     (if priv = {} then g else subgraph g (set (filter (\<lambda>p. p \<notin> priv) (map fst (gr_Dependencies g)))))"

definition publicVulns :: "(string \<Rightarrow> string \<Rightarrow> bool) \<Rightarrow> (string \<times> 'a list) list \<Rightarrow> string option \<Rightarrow> (string \<times> 'a list) list" where
  "publicVulns glob v p = (if \<not> Any p then v else filter (\<lambda>(k, l). \<not> Match glob p k) v)"

section \<open>What could not be checked\<close>

definition archive_unread :: "maintenance_record \<Rightarrow> bool" where
  "archive_unread m =
     (mr_RepositoryNotFound m \<or> mr_ArchivedCheck m = ArchivedUnsupported
      \<or> (mr_ArchivedCheck m = [] \<and> mr_RepositoryURL m = []))"

definition archiveUnchecked :: "(string \<times> maintenance_record) list \<Rightarrow> string set \<Rightarrow> string list" where
  "archiveUnchecked maintenance local =
     sort_strings (map fst (filter (\<lambda>(path, m). \<not> mi_Archived m \<and> path \<notin> local \<and> archive_unread m) maintenance))"

definition moduleDependencies :: "(string \<Rightarrow> string \<Rightarrow> bool) \<Rightarrow> depgraph option \<Rightarrow> string option \<Rightarrow> string list" where
  "moduleDependencies glob g p =
     (case g of
        None \<Rightarrow> []
      | Some g \<Rightarrow> sort_strings (map fst (filter (\<lambda>(path, d). dp_Direct d \<and> \<not> Match glob p path) (gr_Dependencies g))))"

definition kev_open :: "scanned_vulnerability \<Rightarrow> bool" where
  "kev_open v =
     (\<not> v_KEVChecked v \<and> (v_Reachability v = ''called'' \<or> v_Reachability v = [])
      \<and> list_ex (\<lambda>a. HasPrefix a ''CVE-'') (v_ID v # v_Aliases v))"

definition kevUnchecked :: "(string \<times> scanned_vulnerability list) list \<Rightarrow> scanned_vulnerability list \<Rightarrow> depgraph option \<Rightarrow> int" where
  "kevUnchecked vulns stdlib graph =
     (let counted = filter (\<lambda>(m, l).
            case graph of
              None \<Rightarrow> True
            | Some g \<Rightarrow> (case dep_of g m of None \<Rightarrow> True | Some d \<Rightarrow> dp_IsTestOnly d \<noteq> Some True)) vulns
      in int (length (filter kev_open (concat (map snd counted) @ stdlib))))"

definition gradedStdlib :: "bool \<Rightarrow> 'a list \<Rightarrow> 'a list" where
  "gradedStdlib grade_stdlib vulns = (if \<not> grade_stdlib then [] else vulns)"

definition selfStatusFailureReason :: "bool \<Rightarrow> string \<Rightarrow> string" where
  "selfStatusFailureReason offline path =
     (if offline then ''offline: no network requests were made''
      else ''the module proxy did not answer for '' @ path)"

section \<open>The module's own row\<close>

text \<open>
  What the lookups about the module itself gave: a fresh fact from the store; else whether the maintenance
  scan found the module, the error of the archived lookup, and the record after the archived and activity
  lookups; and its own advisories with their fix dates, or the error of that scan.
\<close>

record self_lookups =
  sl_fact :: "maintenance_record option"
  sl_found :: bool
  sl_archived_err :: "string option"
  sl_info :: maintenance_record
  sl_own :: "string + scanned_vulnerability list"

definition self_status :: "bool \<Rightarrow> string \<Rightarrow> self_lookups \<Rightarrow> checks \<Rightarrow> upkeep \<times> checks" where
  "self_status offline path l checks =
     (case sl_fact l of
        Some info \<Rightarrow> (upkeepOf (Some info), checks)
      | None \<Rightarrow>
          if \<not> sl_found l then
            (zero_upkeep\<lparr>u_Missing := True\<rparr>,
             checks\<lparr>c_SelfStatusFailed := True, c_SelfStatusReason := selfStatusFailureReason offline path\<rparr>)
          else
            (let checks1 = (case sl_archived_err l of
                   None \<Rightarrow> checks
                 | Some e \<Rightarrow> checks\<lparr>c_SelfStatusFailed := True,
                                   c_SelfStatusReason := ''archived status could not be read: '' @ e\<rparr>);
                 u = upkeepOf (Some (sl_info l))
             in (u, if u_Missing u then
                      checks1\<lparr>c_SelfStatusFailed := True,
                              c_SelfStatusReason :=
                                (if mr_ModCheckFailed (sl_info l)
                                 then ''its go.mod notices (deprecation, retraction) could not be read''
                                 else ''archived status could not be read'')\<rparr>
                    else checks1)))"

definition assessSelf ::
  "(string \<Rightarrow> string \<Rightarrow> bool) \<Rightarrow> string option \<Rightarrow> bool \<Rightarrow> string \<Rightarrow> string \<Rightarrow> self_lookups \<Rightarrow> checks \<Rightarrow> row \<times> checks" where
  "assessSelf glob priv offline path version l checks =
     (let row = zero_row\<lparr>r_Module := path, r_Version := version, r_Self := True\<rparr>
      in if Match glob priv path then
           (row\<lparr>r_Private := True, r_Upkeep := not_assessed\<rparr>, checks\<lparr>c_SelfPrivate := True\<rparr>)
         else if version = [] then
           (row\<lparr>r_Upkeep := not_assessed\<rparr>, checks\<lparr>c_SelfAdvisoriesSkipped := True\<rparr>)
         else case self_status offline path l checks of
           (u, checks) \<Rightarrow>
             (case sl_own l of
                Inl err \<Rightarrow>
                  (row\<lparr>r_Upkeep := u\<rparr>, checks\<lparr>c_SelfAdvisoriesFailed := True, c_SelfAdvisoriesReason := err\<rparr>)
              | Inr own \<Rightarrow>
                  (row\<lparr>r_Upkeep := u, r_Findings := findingsOf path own\<rparr>,
                   checks\<lparr>c_KEVUnchecked := c_KEVUnchecked checks + kevUnchecked [(path, own)] [] None\<rparr>)))"

section \<open>The whole grade\<close>

text \<open>The lookups of the release time and of the response history are arguments too.\<close>

record run_options =
  op_SelfVersion :: string
  op_StrictArchivedStatus :: bool
  op_GradeStdlib :: bool
  op_ResponseHistory :: bool

record grade_run =
  ru_Opts :: run_options
  ru_GoMod :: gomod
  ru_Graph :: "depgraph option"
  ru_GoSumVerified :: "string option"
  ru_ScanStart :: gotime
  ru_Toolchain :: string
  ru_Private :: "string option"
  ru_Vulns :: "(string \<times> scanned_vulnerability list) list"
  ru_Stdlib :: "scanned_vulnerability list"
  ru_Maintenance :: "(string \<times> maintenance_record) list"
  ru_VulnScanned :: bool
  ru_VulnScanReason :: string
  ru_VulnScanCode :: string
  ru_VulnScanKind :: string
  ru_Interrupted :: bool
  ru_CalledPassStale :: string
  ru_CalledPassNever :: bool
  ru_StdlibScanned :: bool
  ru_TokenMissing :: bool
  ru_KEVStaleSince :: gotime

record grade_lookups =
  lk_glob :: "string \<Rightarrow> string \<Rightarrow> bool"
  lk_offline :: bool
  lk_self :: self_lookups
  lk_release :: "gotime option"
  lk_history :: "string list \<Rightarrow> string \<Rightarrow> response_history option"

definition lookupSelfRelease :: "grade_lookups \<Rightarrow> grade_run \<Rightarrow> gotime option" where
  "lookupSelfRelease lk r =
     (if op_SelfVersion (ru_Opts r) = [] \<or> lk_offline lk \<or> Match (lk_glob lk) (ru_Private r) (gm_ModulePath (ru_GoMod r))
      then None else lk_release lk)"

definition maintenance_hint :: string where
  "maintenance_hint = ''GitHub allows 60 unauthenticated requests an hour, so most archived flags could not be read: set GITHUB_TOKEN''"

definition run_checks :: "grade_lookups \<Rightarrow> grade_run \<Rightarrow> string set \<Rightarrow> string list \<Rightarrow> checks" where
  "run_checks lk r local privList =
     zero_checks\<lparr>c_VulnScanFailed := \<not> ru_VulnScanned r, c_VulnScanReason := ru_VulnScanReason r,
       c_VulnScanCode := ru_VulnScanCode r, c_VulnScanKind := ru_VulnScanKind r, c_ScanTimedOut := ru_Interrupted r,
       c_CalledPassStale := ru_CalledPassStale r, c_CalledPassNever := ru_CalledPassNever r,
       c_ArchiveUnchecked := archiveUnchecked (ru_Maintenance r) local, c_PrivateModules := privList,
       c_KEVStaleSince := ru_KEVStaleSince r,
       c_KEVUnchecked := kevUnchecked (ru_Vulns r) (ru_Stdlib r) (ru_Graph r),
       c_ChecksumUnverified := (ru_GoSumVerified r = Some ''skipped'' \<and> countChecksummed (ru_Graph r) local > 0),
       c_StdlibVersion := (if ru_StdlibScanned r then ru_Toolchain r else []),
       c_StdlibGraded := (ru_StdlibScanned r \<and> op_GradeStdlib (ru_Opts r)),
       c_MaintenanceHint :=
         (if ru_TokenMissing r \<and> \<not> lk_offline lk
             \<and> list_ex (\<lambda>(p, m). mr_ArchivedCheck m = ArchivedCheckFailed) (ru_Maintenance r)
          then maintenance_hint else [])\<rparr>"

definition grade_inputs_of :: "grade_lookups \<Rightarrow> grade_run \<Rightarrow> grade_inputs" where
  "grade_inputs_of lk r =
     (let local = localReplaced (Some (ru_GoMod r)) (ru_Graph r);
          priv = privateModules (lk_glob lk) (ru_Graph r) (ru_Private r);
          path = gm_ModulePath (ru_GoMod r);
          version = op_SelfVersion (ru_Opts r);
          self = assessSelf (lk_glob lk) (ru_Private r) (lk_offline lk) path version (lk_self lk)
                   (run_checks lk r local (snd priv))
      in \<lparr>gi_Graph = ru_Graph r, gi_Vulns = ru_Vulns r, gi_Stdlib = ru_Stdlib r, gi_Maintenance = ru_Maintenance r,
          gi_Self = fst self,
          gi_GoSumBad = (ru_GoSumVerified r = Some ''false''),
          gi_GoSumInfo = (if ru_GoSumVerified r = Some ''false'' then ''go mod verify reported a checksum mismatch'' else []),
          gi_Checks = snd self,
          gi_History =
            (if op_ResponseHistory (ru_Opts r) \<and> version \<noteq> [] \<and> \<not> lk_offline lk \<and> \<not> Match (lk_glob lk) (ru_Private r) path
             then lk_history lk (moduleDependencies (lk_glob lk) (ru_Graph r) (ru_Private r)) else (\<lambda>_. None)),
          gi_Now = ru_ScanStart r, gi_SelfReleasedAt = lookupSelfRelease lk r,
          gi_StdlibVersion = (if ru_StdlibScanned r then ru_Toolchain r else []),
          gi_ProjectGo = goDirective (Some (ru_GoMod r)), gi_StrictArchived = op_StrictArchivedStatus (ru_Opts r),
          gi_LocalReplaced = local, gi_Private = fst priv\<rparr>)"

definition gradeAll :: "semver_api \<Rightarrow> (nat \<Rightarrow> gotime) \<Rightarrow> grade_lookups \<Rightarrow> grade_run \<Rightarrow> grade_result" where
  "gradeAll sv clock lk r = Grade sv clock (Some (buildGradeInput (grade_inputs_of lk r)))"

section \<open>The called pass\<close>

text \<open>\<open>calledPassTest\<close> and \<open>staleCalledPass\<close>, on the findings with the facts of the day.\<close>

definition found_of :: "(string \<times> scanned_vulnerability list) list \<Rightarrow> (string \<times> vulnerability list) list" where
  "found_of vulns = map (\<lambda>(m, l). (m, map vulnerability.truncate l)) vulns"

definition calledPassTest :: "bool \<Rightarrow> (string \<times> vulnerability list) list \<Rightarrow> bool \<times> string" where
  "calledPassTest gradeStdlib found =
     (let listed = (length (lookup_list found stdlibModule) > 0);
          found' = (if \<not> gradeStdlib \<and> listed then filter (\<lambda>(m, l). m \<noteq> stdlibModule) found else found)
      in case CalledPassCanChangeLetter found' of
           (needed, reason) \<Rightarrow>
             (needed,
              if \<not> needed \<and> \<not> gradeStdlib \<and> listed
              then reason @ ''; the standard library's advisories are listed, not graded, and are shown as imported''
              else reason))"

record scan_info =
  si_CalledPassMode :: string
  si_CalledPass :: string

definition calledPassNever :: "scan_info \<Rightarrow> bool" where
  "calledPassNever info = (si_CalledPassMode info = ''never'')"

definition staleCalledPass :: "scan_info option \<Rightarrow> (string \<times> vulnerability list) list \<Rightarrow> bool \<Rightarrow> string" where
  "staleCalledPass scan vulns gradeStdlib =
     (case scan of
        None \<Rightarrow> []
      | Some info \<Rightarrow>
          if si_CalledPass info \<noteq> ''skipped'' \<or> si_CalledPassMode info \<noteq> ''auto'' then []
          else case calledPassTest gradeStdlib vulns of
                 (needed, reason) \<Rightarrow>
                   if needed then
                     ''the analysis skipped govulncheck's called pass, and with today's facts it could change the letter (''
                     @ reason @ ''): analyse again''
                   else [])"

definition takeStdlibVulns :: "(string \<times> vulnerability list) list \<Rightarrow> vulnerability list \<times> (string \<times> vulnerability list) list" where
  "takeStdlibVulns vulns =
     (case map_of vulns ''stdlib'' of
        None \<Rightarrow> ([], vulns)
      | Some l \<Rightarrow> (sort_by (\<lambda>a b. v_ID a < v_ID b) l, filter (\<lambda>(m, l). m \<noteq> ''stdlib'') vulns))"

end
