(* ===== verification/Runner_Props.thy ===== *)
theory Runner_Props
  imports Runner_Grade Grade_Facts
begin

text \<open>
  What the runner adds to the grade: an archived flag that was not read is always said, and skipping the
  called pass is sound for the graph, the findings and the checks a whole run hands to the grade, when no imported advisory of a
  dependency shares an identifier with another.
\<close>

section \<open>Archived flags\<close>

text \<open>An archived flag that was not read is never taken for "not archived" in silence: the module's upkeep
  is missing (so the grade may be Pending), or it is marked as graded without the flag, or the module is
  in the list of those that could not be checked. The values of the check are the four the scanner sets;
  a lookup that was not attempted although a repository is known is the one case left out.\<close>

theorem unread_archived_flag_is_said:
  assumes "(p, m) \<in> set maintenance" and "p \<notin> local" and "\<not> mi_Archived m"
    and "mr_ArchivedCheck m \<in> {ArchivedCheckFailed, ArchivedUnsupported, []}"
    and "mr_ArchivedCheck m = [] \<longrightarrow> mr_RepositoryURL m = [] \<or> mr_RepositoryNotFound m"
  shows "u_Missing (upkeepOfRule (Some m) strict) \<or> u_ArchivedUnread (upkeepOfRule (Some m) strict)
    \<or> p \<in> set (archiveUnchecked maintenance local)"
proof (cases "archivedFlagFailed m")
  case True
  then show ?thesis using assms(3) by (cases "mr_ModCheckFailed m"; cases strict) (simp_all add: upkeepOfRule_def)
next
  case False
  then have "archive_unread m"
    using assms(4,5) by (auto simp: archivedFlagFailed_def archive_unread_def)
  then have "p \<in> set (archiveUnchecked maintenance local)"
    using assms(1-3) by (force simp: archiveUnchecked_def)
  then show ?thesis by blast
qed

definition ex_record :: maintenance_record where
  "ex_record =
     \<lparr>mi_Archived = False, mi_Deprecated = False, mi_DeprecationMessage = [], mi_MonthsSinceRelease = 3,
      mi_LastActivity = zero_time, mi_MonthsSinceActivity = 0, mr_LastRelease = zero_time, mr_Retracted = False,
      mr_RetractionMessage = [], mr_ModCheckFailed = False, mr_RepositoryURL = ''https://github.com/a/b'',
      mr_ArchivedCheck = ArchivedCheckFailed, mr_RepositoryNotFound = False\<rparr>"

theorem unread_archived_flag_is_said_witness:
  "u_Missing (upkeepOfRule (Some ex_record) False) \<or> u_ArchivedUnread (upkeepOfRule (Some ex_record) False)
    \<or> ''a'' \<in> set (archiveUnchecked [(''a'', ex_record)] {})"
  by (rule unread_archived_flag_is_said)
    (simp_all add: ex_record_def ArchivedCheckFailed_def)

section \<open>The findings of a run\<close>

lemma is_space_upper: "is_space (upper_char c) = is_space c"
proof -
  have "of_char (char_of (n - 32) :: char) = n - 32" if "97 \<le> n" "n \<le> 122" for n :: nat
    using that by (simp add: of_char_of)
  then show ?thesis
    by (cases "97 \<le> (of_char c :: nat) \<and> (of_char c :: nat) \<le> 122") (auto simp: upper_char_def is_space_def)
qed

lemma upper_char_idem: "upper_char (upper_char c) = upper_char c"
proof -
  have "of_char (char_of (n - 32) :: char) = n - 32" if "97 \<le> n" "n \<le> 122" for n :: nat
    using that by (simp add: of_char_of)
  then show ?thesis
    by (cases "97 \<le> (of_char c :: nat) \<and> (of_char c :: nat) \<le> 122") (auto simp: upper_char_def)
qed

lemma dropWhile_upper: "dropWhile is_space (map upper_char s) = map upper_char (dropWhile is_space s)"
  by (simp add: dropWhile_map comp_def is_space_upper)

lemma ToUpper_TrimSpace_ToUpper: "ToUpper (TrimSpace (ToUpper s)) = ToUpper (TrimSpace s)"
  by (simp add: ToUpper_def TrimSpace_def rev_map dropWhile_upper upper_char_idem comp_def)

lemma severityOf_ToUpper: "severityOf (ToUpper s) = severityOf s"
  by (simp add: severityOf_def ToUpper_TrimSpace_ToUpper)

lemma lookup_list_filter: "k \<noteq> m \<Longrightarrow> lookup_list (filter (\<lambda>(m', l). m' \<noteq> m) kvs) k = lookup_list kvs k"
  by (induction kvs) (auto simp: lookup_list_def)

lemma lookup_list_removed [simp]: "lookup_list (filter (\<lambda>(m', l). m' \<noteq> m) kvs) m = []"
proof -
  have "map_of (filter (\<lambda>(m', l). m' \<noteq> m) kvs) m = None"
    by (auto simp: map_of_eq_None_iff)
  then show ?thesis by (simp add: lookup_list_def)
qed

lemma vulns_of_lookup: "vulns_of = lookup_list"
  by (simp add: fun_eq_iff vulns_of_def lookup_list_def split: option.splits)

lemma lookup_found_of: "lookup_list (found_of vs) m = map vulnerability.truncate (lookup_list vs m)"
  by (induction vs) (auto simp: found_of_def lookup_list_def)

lemma truncate_fields [simp]:
  "v_Severity (vulnerability.truncate v) = v_Severity v" "v_InKEV (vulnerability.truncate v) = v_InKEV v"
  "v_Reachability (vulnerability.truncate v) = v_Reachability v"
  by (simp_all add: vulnerability.defs)

text \<open>The findings the test is given: all, or those of the modules that are graded.\<close>

definition tested :: "bool \<Rightarrow> (string \<times> vulnerability list) list \<Rightarrow> (string \<times> vulnerability list) list" where
  "tested gs found =
     (if \<not> gs \<and> length (lookup_list found stdlibModule) > 0 then filter (\<lambda>(m, l). m \<noteq> stdlibModule) found else found)"

lemma fst_calledPassTest: "fst (calledPassTest gs found) = fst (CalledPassCanChangeLetter (tested gs found))"
  by (simp add: calledPassTest_def tested_def Let_def prod.case_eq_if)

lemma staleCalledPass_none:
  assumes "si_CalledPass info = ''skipped''" and "si_CalledPassMode info = ''auto''"
  shows "staleCalledPass (Some info) found gs = [] \<longleftrightarrow> \<not> fst (CalledPassCanChangeLetter (tested gs found))"
  using assms by (simp add: staleCalledPass_def prod.case_eq_if fst_calledPassTest)

lemma finding_scanned:
  assumes "f \<in> set (findingsOf m vs)" and "isImportedFinding f"
  shows "\<exists>v\<in>set (map vulnerability.truncate vs). isImported v \<and> severityOf (v_Severity v) = severityOf (f_Severity f)
    \<and> v_InKEV v = f_Exploited f"
  using assms
  by (auto simp: findingsOf_def FindingFromVuln_def isImportedFinding_def isImported_def severityOf_ToUpper)

lemma assessSelf_Self [simp]: "r_Self (fst (assessSelf glob priv offline path version l checks))"
  by (simp add: assessSelf_def Let_def zero_row_def split: prod.split sum.split)

lemma self_status_stale [simp]: "c_CalledPassStale (snd (self_status offline path l checks)) = c_CalledPassStale checks"
  by (simp add: self_status_def Let_def split: option.split)

lemma assessSelf_stale [simp]:
  "c_CalledPassStale (snd (assessSelf glob priv offline path version l checks)) = c_CalledPassStale checks"
proof -
  have "c_CalledPassStale (case self_status offline path l checks of (u, c) \<Rightarrow> c) = c_CalledPassStale checks"
    by (simp add: prod.case_eq_if)
  then show ?thesis
    by (simp add: assessSelf_def Let_def prod.case_eq_if split: sum.split)
qed

lemma run_input_stale: "c_CalledPassStale (i_Checks (buildGradeInput (grade_inputs_of lk r))) = ru_CalledPassStale r"
  by (simp add: buildGradeInput_def grade_inputs_of_def Let_def run_checks_def)

lemma run_scanned:
  assumes "ru_Vulns r = filter (\<lambda>(m, l). m \<noteq> stdlibModule) vulns"
    and "set (ru_Stdlib r) = set (gradedStdlib gs (lookup_list vulns stdlibModule))"
  shows "scanned (tested gs (found_of vulns)) (buildGradeInput (grade_inputs_of lk r))"
proof -
  let ?inp = "buildGradeInput (grade_inputs_of lk r)" and ?t = "tested gs (found_of vulns)"
  have imp: "\<exists>v\<in>set (vulns_of ?t (r_Module d)). isImported v \<and> severityOf (v_Severity v) = severityOf (f_Severity f)
      \<and> v_InKEV v = f_Exploited f"
    if d: "d \<in> set (i_Deps ?inp)" and f: "f \<in> set (r_Findings d)" "isImportedFinding f" for d f
  proof (cases "d \<in> set (graph_rows (grade_inputs_of lk r))")
    case True
    then obtain path dep where row: "d = dep_row (grade_inputs_of lk r) path dep"
      by (auto simp: graph_rows_def split: option.splits)
    then have m: "r_Module d = path" and fs: "f \<in> set (findingsOf path (lookup_list (ru_Vulns r) path))"
      using f(1) by (simp_all add: dep_row_def Let_def grade_inputs_of_def)
    have ne: "path \<noteq> stdlibModule"
      using fs by (auto simp: assms(1) findingsOf_def)
    then have "vulns_of ?t path = map vulnerability.truncate (lookup_list (ru_Vulns r) path)"
      by (simp add: vulns_of_lookup tested_def lookup_list_filter lookup_found_of assms(1))
    then show ?thesis
      using finding_scanned [OF fs f(2)] m by simp
  next
    case False
    then have row: "d = stdlib_row (grade_inputs_of lk r)"
      using d by (auto simp: buildGradeInput_def split: if_splits)
    then have m: "r_Module d = stdlibModule" and fs: "f \<in> set (findingsOf stdlibModule (ru_Stdlib r))"
      using f(1) by (simp_all add: stdlib_row_def grade_inputs_of_def Let_def)
    have gs: "gs" using fs assms(2) by (cases gs) (auto simp: gradedStdlib_def findingsOf_def)
    then have "set (vulns_of ?t stdlibModule) = set (map vulnerability.truncate (ru_Stdlib r))"
      using assms(2) by (simp add: vulns_of_lookup tested_def lookup_found_of gradedStdlib_def)
    then show ?thesis
      using finding_scanned [OF fs f(2)] m by simp
  qed
  have "\<not> r_Self d" if "d \<in> set (i_Deps ?inp)" for d
    using that by (auto simp: buildGradeInput_def graph_rows_def dep_row_def stdlib_row_def Let_def split: option.splits if_splits)
  moreover have "r_Self (i_Self ?inp)"
    by (simp add: buildGradeInput_def grade_inputs_of_def Let_def)
  ultimately show ?thesis
    using imp by (simp add: scanned_def)
qed

section \<open>Merging and the called pass\<close>

text \<open>No imported finding shares an identifier with another finding of its row.\<close>

definition imported_alone :: "finding list \<Rightarrow> bool" where
  "imported_alone fs = (\<forall>i j. Grade_Dedupe.linked fs i j \<longrightarrow> isImportedFinding (fs ! i) \<longrightarrow> i = j)"

lemma imported_alone_connected:
  assumes "imported_alone fs" "Grade_Dedupe.connected fs i j" "isImportedFinding (fs ! i)"
  shows "i = j"
  using assms(2) unfolding Grade_Dedupe.connected_def
  by (induction rule: rtranclp_induct) (use assms(1,3) in \<open>auto simp: imported_alone_def\<close>)

text \<open>Then an imported finding is merged with nothing, before and after the called pass.\<close>

lemma merged_group:
  assumes a: "imported_alone fs" and l: "list_all2 called_finding fs gs"
    and r: "\<And>i j. i < length fs \<Longrightarrow> j < length fs \<Longrightarrow> r i = r j \<longleftrightarrow> Grade_Dedupe.connected fs i j" and k: "k < length fs"
  defines "idx \<equiv> filter (\<lambda>i. r i = r k) [0..<length fs]"
  shows "called_finding (mergeGroup fs idx) (mergeGroup gs idx)"
    "isImportedFinding (mergeGroup fs idx) \<Longrightarrow> mergeGroup fs idx \<in> set fs"
proof -
  have k': "k \<in> set idx" using k by (simp add: idx_def)
  then have ne: "idx \<noteq> []" by auto
  have mem: "i < length fs \<and> Grade_Dedupe.connected fs i k" if "i \<in> set idx" for i using that r k by (auto simp: idx_def)
  have "called_finding (mergeGroup fs idx) (mergeGroup gs idx) \<and>
      (isImportedFinding (mergeGroup fs idx) \<longrightarrow> mergeGroup fs idx \<in> set fs)"
  proof (cases "\<exists>i \<in> set idx. isImportedFinding (fs ! i)")
    case True
    then obtain i where i: "i \<in> set idx" "isImportedFinding (fs ! i)" by blast
    have "j = i" if "j \<in> set idx" for j
    proof -
      have "Grade_Dedupe.connected fs i j"
        using connected_trans [of fs i k j] connected_sym [of fs j k] mem [OF i(1)] mem [OF that] by blast
      then show ?thesis using imported_alone_connected [OF a _ i(2)] by blast
    qed
    then have "set idx = {i}" using i(1) by blast
    moreover have "distinct idx" by (simp add: idx_def)
    ultimately have "length idx = 1" using distinct_card [of idx] by simp
    then obtain j where "idx = [j]" by (auto simp: length_Suc_conv)
    then have idx: "idx = [i]" using i(1) by simp
    have "called_finding (fs ! i) (gs ! i)" using list_all2_nthD [OF l] mem [OF i(1)] by blast
    then show ?thesis using mem [OF i(1)] by (simp add: idx mergeGroup_def)
  next
    case False
    have "gs ! i = fs ! i" if "i \<in> set idx" for i
      using list_all2_nthD [OF l] mem [OF that] False that by (auto simp: called_finding_def)
    then have "mergeGroup gs idx = mergeGroup fs idx" by (rule mergeGroup_cong [OF ne])
    moreover have "\<not> isImportedFinding (mergeGroup fs idx)"
      using mergeGroup_Reachability [OF ne, of fs] False by (auto simp: isImportedFinding_def)
    ultimately show ?thesis by (simp add: called_finding_def)
  qed
  then show "called_finding (mergeGroup fs idx) (mergeGroup gs idx)"
    "isImportedFinding (mergeGroup fs idx) \<Longrightarrow> mergeGroup fs idx \<in> set fs" by blast+
qed

lemma merged_called_later:
  assumes "imported_alone fs" "list_all2 called_finding fs gs"
  shows "list_all2 called_finding (mergeAdvisories fs) (mergeAdvisories gs)"
    "f \<in> set (mergeAdvisories fs) \<Longrightarrow> isImportedFinding f \<Longrightarrow> f \<in> set fs"
proof -
  have len: "length gs = length fs" using assms(2) by (simp add: list_all2_lengthD)
  have ids: "ids_of (gs ! i) = ids_of (fs ! i)" if "i < length fs" for i
    using list_all2_nthD [OF assms(2) that] by (auto simp: called_finding_def ids_of_def)
  obtain r where r: "\<And>i j. i < length fs \<Longrightarrow> j < length fs \<Longrightarrow> r i = r j \<longleftrightarrow> Grade_Dedupe.connected fs i j"
    and m: "\<And>hs. length hs = length fs \<Longrightarrow> (\<And>i. i < length fs \<Longrightarrow> ids_of (hs ! i) = ids_of (fs ! i)) \<Longrightarrow>
      mergeAdvisories hs = map (\<lambda>x. mergeGroup hs (filter (\<lambda>i. r i = x) [0..<length fs])) (firsts r (length fs))"
    using mergeAdvisories_same_classes by blast
  have firsts: "\<exists>k < length fs. x = r k" if "x \<in> set (firsts r (length fs))" for x
    using that by (auto simp: set_firsts)
  note mf = m [OF refl refl] and mg = m [OF len ids, simplified]
  have "called_finding (mergeGroup fs (filter (\<lambda>i. r i = x) [0..<length fs])) (mergeGroup gs (filter (\<lambda>i. r i = x) [0..<length fs]))"
    if "x \<in> set (firsts r (length fs))" for x
    using firsts [OF that] merged_group(1) [OF assms r] by blast
  then show "list_all2 called_finding (mergeAdvisories fs) (mergeAdvisories gs)"
    by (simp add: mf mg list_all2_map1 list_all2_map2 list.rel_refl_strong)
  show "f \<in> set fs" if f: "f \<in> set (mergeAdvisories fs)" "isImportedFinding f"
  proof -
    obtain x where "x \<in> set (firsts r (length fs))" "f = mergeGroup fs (filter (\<lambda>i. r i = x) [0..<length fs])"
      using f(1) by (auto simp: mf)
    then show ?thesis using firsts [of x] merged_group(2) [OF assms r] f(2) by blast
  qed
qed

text \<open>Merging keeps what the decision on the called pass relies on.\<close>

lemma called_later_mergedInput:
  assumes "called_later a b" "\<And>r. r \<in> set (i_Deps a) \<Longrightarrow> imported_alone (r_Findings r)"
  shows "called_later (mergedInput a) (mergedInput b)"
proof -
  have "called_row (r\<lparr>r_Findings := mergeAdvisories (r_Findings r)\<rparr>) (q\<lparr>r_Findings := mergeAdvisories (r_Findings q)\<rparr>)"
    if r: "r \<in> set (i_Deps a)" and rq: "called_row r q" for r q
  proof -
    obtain gs where q: "q = r\<lparr>r_Findings := gs\<rparr>" "list_all2 called_finding (r_Findings r) gs"
      using rq unfolding called_row_def by metis
    show ?thesis
      using merged_called_later(1) [OF assms(2) [OF r] q(2)] by (simp add: q(1) called_row_def)
  qed
  then have "list_all2 called_row (i_Deps (mergedInput a)) (i_Deps (mergedInput b))"
    using assms(1) by (auto simp: called_later_def mergedInput_def map_findings_def list_all2_map1 list_all2_map2
        elim!: list.rel_mono_strong)
  moreover obtain ds where "b = a\<lparr>i_Deps := ds\<rparr>" using assms(1) unfolding called_later_def by metis
  then have "mergedInput b = (mergedInput a)\<lparr>i_Deps := i_Deps (mergedInput b)\<rparr>"
    by (simp add: mergedInput_def map_findings_def)
  ultimately show ?thesis by (simp add: called_later_def)
qed

lemma scanned_mergedInput:
  assumes "scanned imported a" "\<And>r. r \<in> set (i_Deps a) \<Longrightarrow> imported_alone (r_Findings r)"
  shows "scanned imported (mergedInput a)"
proof -
  have "list_all2 called_finding fs fs" for fs by (simp add: list_all2_same called_finding_def)
  then have "f \<in> set (r_Findings r)"
    if "r \<in> set (i_Deps a)" "f \<in> set (mergeAdvisories (r_Findings r))" "isImportedFinding f" for r f
    using merged_called_later(2) [OF assms(2)] that by blast
  then show ?thesis
    using assms(1) by (auto simp: scanned_def mergedInput_def map_findings_def)
qed

text \<open>C4: Skipping the called pass is sound for a whole run. The scan ran in auto mode and skipped the called
  pass, the run is given the reason \<open>staleCalledPass\<close> finds with the facts of the day, and the findings of
  the standard library take part as the options say. Then whichever of the imported findings of the
  dependencies a called pass would report as called, the letter is the same (no letter, when the reason is
  not empty). One condition: no imported advisory of a dependency shares an identifier with another advisory of the
  same row. Without it the claim is false, as \<open>called_pass_skip_misses_aliases\<close> shows.\<close>

theorem skipped_called_pass_is_sound:
  assumes "si_CalledPass info = ''skipped''" and "si_CalledPassMode info = ''auto''"
    and "ru_CalledPassStale r = staleCalledPass (Some info) (found_of vulns) gs"
    and "ru_Vulns r = filter (\<lambda>(m, l). m \<noteq> stdlibModule) vulns"
    and "set (ru_Stdlib r) = set (gradedStdlib gs (lookup_list vulns stdlibModule))"
    and "\<And>row. row \<in> set (i_Deps (buildGradeInput (grade_inputs_of lk r))) \<Longrightarrow> imported_alone (r_Findings row)"
    and "called_later (buildGradeInput (grade_inputs_of lk r)) x"
  shows "g_Letter (gradeOnce sv c x) = g_Letter (gradeOnce sv c' (buildGradeInput (grade_inputs_of lk r)))"
proof -
  let ?inp = "buildGradeInput (grade_inputs_of lk r)"
  have later: "called_later (mergedInput ?inp) (mergedInput x)"
    by (rule called_later_mergedInput [OF assms(7,6)])
  have "letter_of (mergedInput x) = letter_of (mergedInput ?inp)"
  proof (cases "ru_CalledPassStale r = []")
    case True
    then have "\<not> fst (CalledPassCanChangeLetter (tested gs (found_of vulns)))"
      using assms(3) staleCalledPass_none [OF assms(1,2)] by simp
    then show ?thesis
      by (rule called_later_letter [OF _ scanned_mergedInput [OF run_scanned [OF assms(4,5)] assms(6)] later])
  next
    case False
    have "i_Checks (mergedInput x) = i_Checks (mergedInput ?inp)" by (rule called_later_same(2) [OF later])
    then have "pending_cond (mergedInput x) s" "pending_cond (mergedInput ?inp) s" for s
      using False run_input_stale [of lk r] by (simp_all add: pending_cond_def mergedInput_def map_findings_def)
    then show ?thesis by (simp add: letter_of_def)
  qed
  then show ?thesis by (simp add: gradeOnce_Letter)
qed

text \<open>A run over one direct dependency with an imported advisory of low severity.\<close>

definition ex_advisory :: scanned_vulnerability where
  "ex_advisory =
     \<lparr>v_ID = ''GO-1'', v_Aliases = [], v_Severity = ''LOW'', v_Reachability = ''imported'', v_InKEV = False,
      v_Summary = [], v_FixedVersion = [], v_EnrichmentFailed = False, v_FixRequiresGo = [], v_FixReleasedAt = None,
      v_FixDateSource = [], v_AffectedPackages = [], v_Condition = [], v_KEVChecked = False\<rparr>"

definition ex_run :: grade_run where
  "ex_run =
     \<lparr>ru_Opts = \<lparr>op_SelfVersion = [], op_StrictArchivedStatus = False, op_GradeStdlib = False, op_ResponseHistory = False\<rparr>,
      ru_GoMod = ex_file, ru_Graph = Some (resolve_direct ex_file), ru_GoSumVerified = Some ''true'',
      ru_ScanStart = zero_time, ru_Toolchain = ''go1.26'', ru_Private = None, ru_Vulns = [(''a'', [ex_advisory])],
      ru_Stdlib = [], ru_Maintenance = [(''a'', ex_record)], ru_VulnScanned = True, ru_VulnScanReason = [],
      ru_VulnScanCode = [], ru_VulnScanKind = [], ru_Interrupted = False,
      ru_CalledPassStale = [],
      ru_CalledPassNever = False, ru_StdlibScanned = True, ru_TokenMissing = True, ru_KEVStaleSince = zero_time\<rparr>"

definition ex_lookups :: grade_lookups where
  "ex_lookups =
     \<lparr>lk_glob = (\<lambda>_ _. False), lk_offline = False,
      lk_self = \<lparr>sl_fact = None, sl_found = False, sl_archived_err = None, sl_info = ex_record, sl_own = Inr []\<rparr>,
      lk_release = None, lk_history = (\<lambda>_ _. None)\<rparr>"

definition ex_run_input :: grade_input where
  "ex_run_input = buildGradeInput (grade_inputs_of ex_lookups ex_run)"

text \<open>The same input with the advisory reported as called.\<close>

definition call_all :: "row \<Rightarrow> row" where
  "call_all r = r\<lparr>r_Findings := map (\<lambda>f. if isImportedFinding f then f\<lparr>f_Reachability := ''called''\<rparr> else f) (r_Findings r)\<rparr>"

definition ex_run_called :: grade_input where
  "ex_run_called = ex_run_input\<lparr>i_Deps := map call_all (i_Deps ex_run_input)\<rparr>"

lemma ex_run_called_later: "called_later ex_run_input ex_run_called"
proof -
  have "called_row r (call_all r)" for r
    by (auto simp: called_row_def call_all_def called_finding_def list_all2_conv_all_nth)
  then show ?thesis
    by (simp add: called_later_def ex_run_called_def list_all2_map2 list_all2_same)
qed

lemma imported_alone_short: "length fs \<le> 1 \<Longrightarrow> imported_alone fs"
  by (auto simp: imported_alone_def Grade_Dedupe.linked_def carries_def)

lemma ex_run_short: "list_all (\<lambda>r. length (r_Findings r) \<le> 1) (i_Deps ex_run_input)"
  by code_simp

lemma ex_run_alone: "r \<in> set (i_Deps ex_run_input) \<Longrightarrow> imported_alone (r_Findings r)"
  using ex_run_short by (auto simp: list_all_iff intro: imported_alone_short)

lemma ex_not_needed:
  "\<not> fst (CalledPassCanChangeLetter (tested False (found_of [(''a'', [ex_advisory]), (''stdlib'', [ex_advisory])])))"
proof -
  have "vulnerability.truncate ex_advisory = ex_vuln ''GO-1'' ''LOW'' ''imported''"
    by (simp add: ex_advisory_def ex_vuln_def vulnerability.defs)
  then show ?thesis
    using ex_low_answer by (simp add: tested_def found_of_def lookup_list_def stdlibModule_def)
qed

theorem skipped_called_pass_is_sound_witness:
  "map (map f_Reachability \<circ> r_Findings) (i_Deps ex_run_called) = [[''called''], []]
   \<and> g_Letter (gradeOnce ex_sv (ex_clock 0) ex_run_called) = g_Letter (gradeOnce ex_sv (ex_clock 0) ex_run_input)"
proof (intro conjI)
  show "map (map f_Reachability \<circ> r_Findings) (i_Deps ex_run_called) = [[''called''], []]"
    by code_simp
  let ?info = "\<lparr>si_CalledPassMode = ''auto'', si_CalledPass = ''skipped''\<rparr>"
  let ?vulns = "[(''a'', [ex_advisory]), (''stdlib'', [ex_advisory])]"
  show "g_Letter (gradeOnce ex_sv (ex_clock 0) ex_run_called) = g_Letter (gradeOnce ex_sv (ex_clock 0) ex_run_input)"
    unfolding ex_run_input_def
  proof (rule skipped_called_pass_is_sound [where info = ?info and vulns = ?vulns and gs = False])
    show "si_CalledPass ?info = ''skipped''" "si_CalledPassMode ?info = ''auto''" by simp_all
    have "staleCalledPass (Some ?info) (found_of ?vulns) False = []"
      using ex_not_needed by (simp add: staleCalledPass_none)
    then show "ru_CalledPassStale ex_run = staleCalledPass (Some ?info) (found_of ?vulns) False"
      by (simp add: ex_run_def)
    show "ru_Vulns ex_run = filter (\<lambda>(m, l). m \<noteq> stdlibModule) ?vulns"
      by (simp add: ex_run_def stdlibModule_def)
    show "set (ru_Stdlib ex_run) = set (gradedStdlib False (lookup_list ?vulns stdlibModule))"
      by (simp add: ex_run_def gradedStdlib_def)
    show "imported_alone (r_Findings row)" if "row \<in> set (i_Deps (buildGradeInput (grade_inputs_of ex_lookups ex_run)))" for row
      using ex_run_alone that by (simp only: ex_run_input_def)
    show "called_later (buildGradeInput (grade_inputs_of ex_lookups ex_run)) ex_run_called"
      using ex_run_called_later by (simp only: ex_run_input_def)
  qed
qed

end
