(* ===== verification/Risk_Tiers.thy ===== *)
theory Risk_Tiers
  imports Scanner_Data
begin

text \<open>
  \<open>pkg/scorer/risk.go\<close>, the parts on advisories: the severity weights and floors of one dependency, and the
  tiers of the project-wide step function with their downgrades and promotions. A tier is a string; the
  empty one stands for an advisory that was dropped.
\<close>

section \<open>Levels\<close>

datatype risk_level = RiskLow | RiskMedium | RiskHigh | RiskCritical | RiskUnknown

definition levelFromScore :: "int \<Rightarrow> risk_level" where
  "levelFromScore score =
     (if score \<ge> 76 then RiskCritical
      else if score \<ge> 51 then RiskHigh
      else if score \<ge> 26 then RiskMedium
      else RiskLow)"

fun riskLevelOrder :: "risk_level \<Rightarrow> int" where
  "riskLevelOrder RiskCritical = 3"
| "riskLevelOrder RiskHigh = 2"
| "riskLevelOrder RiskMedium = 1"
| "riskLevelOrder _ = 0"

section \<open>The score of a dependency's advisories\<close>

definition severityWeight :: "string \<Rightarrow> double" where
  "severityWeight severity =
     (let s = ToUpper severity
      in if s = ''CRITICAL'' then 100 else if s = ''HIGH'' then 80 else if s = ''MEDIUM'' then 50
         else if s = ''LOW'' then 25 else 40)"

definition reachabilityFactor :: "string \<Rightarrow> double" where
  "reachabilityFactor reachability =
     (if reachability = ''imported'' then rnd (7 / 10)
      else if reachability = ''required'' then rnd (3 / 10)
      else 1)"

definition highOrAboveWeightFloor :: double where
  "highOrAboveWeightFloor = dmul (severityWeight ''HIGH'') (reachabilityFactor ''imported'')"

definition epssVulnScoreWeight :: double where
  "epssVulnScoreWeight = 15"

definition vuln_weight :: "scored_vulnerability \<Rightarrow> double" where
  "vuln_weight v = dmul (severityWeight (v_Severity v)) (reachabilityFactor (v_Reachability v))"

text \<open>One round of the loop: the largest weight, the number of heavy advisories, the largest EPSS score.\<close>

definition weigh :: "scored_vulnerability \<Rightarrow> double \<times> int \<times> double \<Rightarrow> double \<times> int \<times> double" where
  "weigh v acc =
     (case acc of (maxWeight, highOrAboveCount, maxEPSS) \<Rightarrow>
       (let w = vuln_weight v
        in (if w > maxWeight then w else maxWeight,
            if w \<ge> highOrAboveWeightFloor then highOrAboveCount + 1 else highOrAboveCount,
            case v_EPSSScore v of
              Some e \<Rightarrow> (if e > maxEPSS then e else maxEPSS)
            | None \<Rightarrow> maxEPSS)))"

definition depVulnScore :: "scored_vulnerability list \<Rightarrow> double" where
  "depVulnScore vulns =
     (if vulns = [] then 0
      else (case fold weigh vulns (0, 0, 0) of (maxWeight, highOrAboveCount, maxEPSS) \<Rightarrow>
        (let bonus = (if highOrAboveCount > 1 then dmul (of_int (highOrAboveCount - 1)) 5 else 0);
             total = dadd (dadd maxWeight bonus) (dmul maxEPSS epssVulnScoreWeight)
         in if total > 100 then 100 else total)))"

section \<open>The floor of a dependency with advisories\<close>

definition isConfirmedReachable :: "scored_vulnerability \<Rightarrow> bool" where
  "isConfirmedReachable v = (v_Reachability v = ''called'')"

text \<open>
  \<open>int(now.Sub(t).Hours() / 24)\<close>, with \<open>now\<close> already resolved: the zero time stands for the clock, which
  is read by the caller.
\<close>

definition days_since :: "gotime \<Rightarrow> gotime \<Rightarrow> int" where
  "days_since now t = go_int (ddiv (Hours (Sub now t)) 24)"

definition low_fix_floor :: "gotime \<Rightarrow> scored_vulnerability \<Rightarrow> int \<Rightarrow> int" where
  "low_fix_floor now v fl =
     (if \<not> EqualFold (v_Severity v) ''LOW'' then fl
      else (case v_FixPublishedAt v of
          Some t \<Rightarrow>
            (if days_since now t \<ge> 365 then (if 26 > fl then 26 else fl)
             else if days_since now t \<ge> 180 then (if 20 > fl then 20 else fl)
             else fl)
        | None \<Rightarrow>
            (case v_PublishedAt v of
               Some t \<Rightarrow> (if days_since now t \<ge> 365 then (if 20 > fl then 20 else fl) else fl)
             | None \<Rightarrow> fl)))"

definition lowFixAgeFloor :: "gotime \<Rightarrow> gotime \<Rightarrow> scored_vulnerability list \<Rightarrow> int" where
  "lowFixAgeFloor clock now vulns = fold (low_fix_floor (if IsZero now then clock else now)) vulns 0"

text \<open>The flags the loop of \<open>severityFloor\<close> collects.\<close>

record floor_flags =
  fl_Critical :: bool
  fl_High :: bool
  fl_Medium :: bool
  fl_UnknownCalledFailed :: bool
  fl_UnknownFailed :: bool
  fl_KEV :: bool

definition no_flags :: floor_flags where
  "no_flags = \<lparr>fl_Critical = False, fl_High = False, fl_Medium = False, fl_UnknownCalledFailed = False,
     fl_UnknownFailed = False, fl_KEV = False\<rparr>"

definition floor_step :: "scored_vulnerability \<Rightarrow> floor_flags \<Rightarrow> floor_flags" where
  "floor_step v f =
     (let f = (if v_InKEV v then f\<lparr>fl_KEV := True\<rparr> else f); s = ToUpper (v_Severity v)
      in if v_Reachability v = ''required'' then f
         else if s = ''CRITICAL'' then f\<lparr>fl_Critical := True\<rparr>
         else if s = ''HIGH'' then f\<lparr>fl_High := True\<rparr>
         else if s = ''MEDIUM'' then f\<lparr>fl_Medium := True\<rparr>
         else if s = ''LOW'' then f
         else if v_EnrichmentFailed v \<or> v_SeveritySource v = ''unscored'' then
           (if isConfirmedReachable v then f\<lparr>fl_UnknownCalledFailed := True\<rparr> else f\<lparr>fl_UnknownFailed := True\<rparr>)
         else f)"

definition severityFloor :: "gotime \<Rightarrow> gotime \<Rightarrow> scored_vulnerability list \<Rightarrow> int \<times> risk_level" where
  "severityFloor clock now vulns =
     (let f = fold floor_step vulns no_flags
      in if fl_KEV f then (76, RiskCritical)
         else if fl_Critical f then (51, RiskCritical)
         else if fl_High f then (51, RiskHigh)
         else if fl_Medium f then (26, RiskMedium)
         else if fl_UnknownCalledFailed f then (51, RiskHigh)
         else if fl_UnknownFailed f then (26, RiskMedium)
         else (lowFixAgeFloor clock now vulns, RiskLow))"

section \<open>Tiers\<close>

definition effectiveTier :: "'a vulnerability_scheme \<Rightarrow> string" where
  "effectiveTier v =
     (let s = ToUpper (TrimSpace (v_Severity v))
      in if s = ''CRITICAL'' then ''CRITICAL'' else if s = ''HIGH'' then ''HIGH'' else if s = ''MEDIUM'' then ''MEDIUM''
         else if s = ''LOW'' then ''LOW'' else if s = '''' then ''MEDIUM'' else ''MEDIUM'')"

definition ScoredSeverity :: "scored_vulnerability \<Rightarrow> string" where
  "ScoredSeverity v =
     (if EqualFold (v_Severity v) ''UNKNOWN'' \<or> v_Severity v = '''' then
        (if isConfirmedReachable v then ''HIGH'' else ''MEDIUM'')
      else ToUpper (v_Severity v))"

definition epssPromoteThreshold :: double where "epssPromoteThreshold = rnd (5 / 10)"
definition epssManualReviewThreshold :: double where "epssManualReviewThreshold = rnd (9 / 10)"

definition promoteTier :: "string \<Rightarrow> string" where
  "promoteTier t =
     (if t = ''LOW'' then ''MEDIUM'' else if t = ''MEDIUM'' then ''HIGH''
      else if t = ''HIGH'' \<or> t = ''CRITICAL'' then ''CRITICAL'' else t)"

definition adjustTierForThreatIntel :: "string \<Rightarrow> scored_vulnerability \<Rightarrow> string" where
  "adjustTierForThreatIntel t v =
     (if t = '''' then ''''
      else
        (let t = (case v_EPSSScore v of
                    Some e \<Rightarrow> (if e \<ge> epssPromoteThreshold then promoteTier t else t)
                  | None \<Rightarrow> t)
         in if v_InKEV v then ''CRITICAL'' else t))"

definition downgradeTier :: "string \<Rightarrow> string" where
  "downgradeTier t =
     (if t = ''CRITICAL'' then ''HIGH'' else if t = ''HIGH'' then ''MEDIUM'' else if t = ''MEDIUM'' then ''LOW''
      else if t = ''LOW'' then '''' else '''')"

text \<open>The description of a downgrade: the arrow and the tier, or the word \<open>dropped\<close>.\<close>

definition describe_downgrade :: "string \<Rightarrow> string \<Rightarrow> string \<Rightarrow> string \<times> string" where
  "describe_downgrade t d context =
     (if d \<noteq> t then
        (if d = '''' then ('''', t @ arrow @ ''dropped ('' @ context @ '')'')
         else (d, t @ arrow @ d @ '' ('' @ context @ '')''))
      else (t, ''''))"

definition reachabilityDowngrade :: "string \<Rightarrow> string \<Rightarrow> string \<times> string" where
  "reachabilityDowngrade t reachability =
     (if reachability = ''imported'' then describe_downgrade t (downgradeTier t) ''imported''
      else if reachability = ''required'' then describe_downgrade t (downgradeTier (downgradeTier t)) ''required''
      else (t, ''''))"

definition tierRank :: "string \<Rightarrow> int" where
  "tierRank t =
     (if t = ''CRITICAL'' then 4 else if t = ''HIGH'' then 3 else if t = ''MEDIUM'' then 2
      else if t = ''LOW'' then 1 else - 1)"

section \<open>The step function\<close>

record step_inputs =
  si_Critical :: int
  si_High :: int
  si_Medium :: int
  si_Low :: int

definition stepFunction :: "step_inputs \<Rightarrow> int" where
  "stepFunction c =
     (if si_Critical c > 0 then 95
      else if si_High c \<ge> 3 then 85
      else if si_High c \<ge> 1 then 70
      else if si_Medium c > 0 then 40
      else if si_Low c > 0 then 10
      else 0)"

end
