(* ===== verification/Risk_Dependency.thy ===== *)
theory Risk_Dependency
  imports Risk_Tiers Resolver_Graph
begin

text \<open>
  \<open>pkg/scorer/risk.go\<close>: the score of one dependency. \<open>scoreDependency\<close> is composed of the five component
  scores, the bonuses, the weighted base over the measured axes and the floor, in the order of the source.
\<close>

section \<open>Component scores\<close>

definition maintenanceScore :: "maintenance_info option \<Rightarrow> double" where
  "maintenanceScore maint =
     (case maint of
        None \<Rightarrow> 30
      | Some m \<Rightarrow>
          if mi_Archived m \<or> mi_Deprecated m then 100
          else if MonthsInactive m < 6 then 0
          else if MonthsInactive m < 12 then 25
          else if MonthsInactive m < 24 then 60
          else 90)"

definition depthScore :: "int \<Rightarrow> double" where
  "depthScore depth = (if depth \<le> 0 then 0 else if depth = 1 then 20 else 40)"

definition trustedNamespaces :: "string list" where
  "trustedNamespaces =
     [''golang.org/x/'', ''google.golang.org/'', ''cloud.google.com/go'', ''k8s.io/'', ''sigs.k8s.io/'',
      ''go.opencensus.io'', ''go.opentelemetry.io/'', ''go.uber.org/'', ''github.com/golang/'',
      ''github.com/google/'', ''github.com/googleapis/'', ''github.com/grpc/'']"

definition isTrustedNamespace :: "string \<Rightarrow> bool" where
  "isTrustedNamespace modPath = list_ex (HasPrefix modPath) trustedNamespaces"

definition maintainerRiskScore :: "maintainer_record option \<Rightarrow> string \<Rightarrow> double" where
  "maintainerRiskScore info modPath =
     (if isTrustedNamespace modPath then 0
      else (case info of
          None \<Rightarrow> 30
        | Some m \<Rightarrow>
            if \<not> ma_DataAvailable m then 0
            else if ma_BusFactor m = 0 then 30
            else if ma_BusFactor m = 1 then (if ma_OwnerVerified m then 25 else 50)
            else 0))"

definition maturityScore :: "string \<Rightarrow> string \<Rightarrow> double" where
  "maturityScore version modPath =
     (if isTrustedNamespace modPath then 0
      else if version = '''' then 50
      else if HasPrefix version ''v0.'' then 30
      else 0)"

section \<open>The scored dependency\<close>

text \<open>\<open>scorer.DependencyScore\<close>; the trust index and the two rating fields the scorer only copies are left out.\<close>

record dep_score =
  sd_Module :: string
  sd_Version :: string
  sd_Direct :: bool
  sd_RiskScore :: int
  sd_RiskLevel :: risk_level
  sd_DependencyPath :: "string list"
  sd_Vulns :: "scored_vulnerability list"
  sd_Maintenance :: "maintenance_info option"
  sd_MaintainerInfo :: "maintainer_record option"
  sd_Typosquat :: "typosquat_result option"
  sd_Resilience :: "resilience_info option"
  sd_AIGenRisk :: "aigen_risk option"
  sd_RiskFactors :: "string list"
  sd_ReplaceClass :: string
  sd_PseudoVersion :: bool
  sd_IsTestOnly :: tri
  sd_InBuild :: tri
  sd_Platforms :: "string list"
  sd_VulnScore :: double
  sd_MaintenanceScore :: double
  sd_DepthScore :: double
  sd_MaintainerScore :: double
  sd_MaturityScore :: double
  sd_ResilienceBonus :: double
  sd_AIGenBonus :: double
  sd_TyposquatBonus :: double
  sd_IntegrityBonus :: double
  sd_PseudoVersionBonus :: double
  sd_FlooredTo :: int
  sd_MaintainerWeightExcluded :: bool
  sd_VulnWeightExcluded :: bool
  sd_MaintenanceWeightExcluded :: bool
  sd_MeasuredWeight :: double

text \<open>The arguments of \<open>scoreDependency\<close>: what the scanners found about one module.\<close>

record dep_facts =
  df_vulns :: "scored_vulnerability list"
  df_maint :: "maintenance_info option"
  df_maintainerInfo :: "maintainer_record option"
  df_typosquat :: "typosquat_result option"
  df_resilience :: "resilience_info option"
  df_aiGenRisk :: "aigen_risk option"
  df_integrityClass :: string
  df_pseudoVersionClass :: string

definition zero_maintenance :: maintenance_info where
  "zero_maintenance = \<lparr>mi_Archived = False, mi_Deprecated = False, mi_DeprecationMessage = '''',
     mi_MonthsSinceRelease = 0, mi_LastActivity = zero_time, mi_MonthsSinceActivity = 0\<rparr>"

definition backfill_archived :: "maintainer_record option \<Rightarrow> maintenance_info option \<Rightarrow> maintenance_info option" where
  "backfill_archived info maint =
     (case info of
        Some i \<Rightarrow>
          if ma_IsArchived i then
            (case maint of
               None \<Rightarrow> Some (zero_maintenance\<lparr>mi_Archived := True\<rparr>)
             | Some m \<Rightarrow> if \<not> mi_Archived m then Some (m\<lparr>mi_Archived := True\<rparr>) else Some m)
          else maint
      | None \<Rightarrow> maint)"

section \<open>Bonuses\<close>

text \<open>A confidence of the typosquat scan, counted in units of \<open>2 ^ -55\<close> there, as the number it is.\<close>

definition confidence :: "float64 \<Rightarrow> double" where
  "confidence c = of_int c / of_int units"

definition typosquat_bonus :: "typosquat_result option \<Rightarrow> double" where
  "typosquat_bonus t = (case t of None \<Rightarrow> 0 | Some r \<Rightarrow> dmul (confidence (ty_Confidence r)) 20)"

definition aigen_bonus :: "aigen_risk option \<Rightarrow> double" where
  "aigen_bonus a =
     (case a of None \<Rightarrow> 0 | Some r \<Rightarrow> if ag_Score r > 0 then dmul (of_int (ag_Score r)) (rnd (15 / 100)) else 0)"

definition low_resilience :: "resilience_info option \<Rightarrow> bool" where
  "low_resilience r = (case r of None \<Rightarrow> False | Some i \<Rightarrow> rs_DataAvailable i \<and> rs_Score i < 30)"

definition resilience_bonus :: "resilience_info option \<Rightarrow> double" where
  "resilience_bonus r =
     (case r of None \<Rightarrow> 0 | Some i \<Rightarrow> if low_resilience r then dmul (of_int (30 - rs_Score i)) (rnd (2 / 10)) else 0)"

definition integrity_bonus :: "bool \<Rightarrow> string \<Rightarrow> double" where
  "integrity_bonus replaced class =
     (if \<not> replaced then 0 else if class = IntegrityHigh then 20 else if class = IntegrityMedium then 8 else 0)"

definition pseudo_bonus :: "string \<Rightarrow> double" where
  "pseudo_bonus class = (if class = IntegrityMedium then 4 else if class = IntegrityLow then 2 else 0)"

section \<open>Risk factors\<close>

definition maintenance_factors :: "maintenance_info option \<Rightarrow> string list" where
  "maintenance_factors maint =
     (case maint of
        None \<Rightarrow> []
      | Some m \<Rightarrow> (if mi_Archived m then [''archived''] else []) @ (if mi_Deprecated m then [''deprecated''] else [])
                  @ (if MonthsInactive m \<ge> 24 then [''unmaintained''] else []))"

definition maintainer_factors :: "maintainer_record option \<Rightarrow> string list" where
  "maintainer_factors info =
     (case info of
        None \<Rightarrow> []
      | Some m \<Rightarrow>
          if \<not> ma_DataAvailable m then []
          else (if ma_BusFactor m \<le> 1 \<and> ma_ContributorCount m > 0 then [''single_maintainer''] else [])
            @ (if ma_ActivityPattern m = ''inactive'' then [''maintainer_inactive''] else [])
            @ (if ma_TakeoverCandidate m then [''takeover_candidate''] else []))"

definition aigen_factors :: "aigen_risk option \<Rightarrow> string list" where
  "aigen_factors a =
     (case a of
        None \<Rightarrow> []
      | Some r \<Rightarrow> if ag_Score r > 0 \<and> ag_MeetsPromotionGate r then [''ai_gen_risk:'' @ ag_RiskLevel r] else [])"

definition risk_factors :: "dependency \<Rightarrow> dep_facts \<Rightarrow> maintenance_info option \<Rightarrow> string list" where
  "risk_factors dep f maint =
     (if depVulnScore (df_vulns f) > 0 then [''known_vulnerabilities''] else [])
     @ maintenance_factors maint
     @ maintainer_factors (df_maintainerInfo f)
     @ (if df_typosquat f \<noteq> None then [''typosquatting_risk''] else [])
     @ aigen_factors (df_aiGenRisk f)
     @ (if low_resilience (df_resilience f) then [''low_resilience''] else [])
     @ (if dp_Replaced dep then [''replaced''] else [])
     @ (if df_pseudoVersionClass f \<noteq> '''' then [''pseudo_version_pin''] else [])"

section \<open>The weighted base\<close>

definition WeightVulnerabilities :: double where "WeightVulnerabilities = rnd (40 / 100)"
definition WeightMaintenance :: double where "WeightMaintenance = rnd (25 / 100)"
definition WeightDepthRisk :: double where "WeightDepthRisk = rnd (15 / 100)"
definition WeightMaintainerRisk :: double where "WeightMaintainerRisk = rnd (10 / 100)"
definition WeightMaturity :: double where "WeightMaturity = rnd (10 / 100)"

text \<open>The sum and the divisor; an axis that was not measured is in neither.\<close>

definition add_axis :: "bool \<Rightarrow> double \<Rightarrow> double \<Rightarrow> double \<times> double \<Rightarrow> double \<times> double" where
  "add_axis excluded score weight acc =
     (if excluded then acc else (dadd (fst acc) (dmul score weight), dadd (snd acc) weight))"

definition maintainer_excluded :: "maintainer_record option \<Rightarrow> bool" where
  "maintainer_excluded info = (case info of None \<Rightarrow> False | Some m \<Rightarrow> \<not> ma_DataAvailable m)"

text \<open>The divisor starts at the sum of two untyped constants, which Go adds exactly.\<close>

definition weighted_base ::
  "dependency \<Rightarrow> dep_facts \<Rightarrow> maintenance_info option \<Rightarrow> bool \<Rightarrow> double \<times> double" where
  "weighted_base dep f maint vulnScanUnavailable =
     (let acc = (dadd (dmul (depthScore (dp_Depth dep)) WeightDepthRisk)
                      (dmul (maturityScore (md_Version (dp_Module dep)) (md_Path (dp_Module dep))) WeightMaturity),
                 rnd (25 / 100));
          acc = add_axis vulnScanUnavailable (depVulnScore (df_vulns f)) WeightVulnerabilities acc;
          acc = add_axis (maint = None) (maintenanceScore maint) WeightMaintenance acc
      in add_axis (maintainer_excluded (df_maintainerInfo f))
           (maintainerRiskScore (df_maintainerInfo f) (md_Path (dp_Module dep))) WeightMaintainerRisk acc)"

definition weighted_total ::
  "dependency \<Rightarrow> dep_facts \<Rightarrow> maintenance_info option \<Rightarrow> bool \<Rightarrow> double" where
  "weighted_total dep f maint vulnScanUnavailable =
     (case weighted_base dep f maint vulnScanUnavailable of (base, denominator) \<Rightarrow>
        dadd (dadd (dadd (dadd (dadd (ddiv base denominator)
          (typosquat_bonus (df_typosquat f)))
          (aigen_bonus (df_aiGenRisk f)))
          (resilience_bonus (df_resilience f)))
          (integrity_bonus (dp_Replaced dep) (df_integrityClass f)))
          (pseudo_bonus (df_pseudoVersionClass f)))"

section \<open>The score\<close>

text \<open>The floor of the advisories, the cap, and the level: of the number, or promoted by an advisory.\<close>

definition floor_score :: "gotime \<Rightarrow> gotime \<Rightarrow> scored_vulnerability list \<Rightarrow> dep_score \<Rightarrow> dep_score" where
  "floor_score clock now vulns ds =
     (if vulns \<noteq> [] then
        (case severityFloor clock now vulns of (fl, promotedLevel) \<Rightarrow>
          (let ds = (if sd_RiskScore ds < fl then ds\<lparr>sd_FlooredTo := fl, sd_RiskScore := fl\<rparr> else ds);
               ds = (if sd_RiskScore ds > 100 then ds\<lparr>sd_RiskScore := 100\<rparr> else ds);
               numeric = levelFromScore (sd_RiskScore ds)
           in ds\<lparr>sd_RiskLevel := (if riskLevelOrder promotedLevel > riskLevelOrder numeric then promotedLevel else numeric)\<rparr>))
      else
        (let ds = (if sd_RiskScore ds > 100 then ds\<lparr>sd_RiskScore := 100\<rparr> else ds)
         in ds\<lparr>sd_RiskLevel := levelFromScore (sd_RiskScore ds)\<rparr>))"

definition scoreDependency :: "gotime \<Rightarrow> dependency \<Rightarrow> dep_facts \<Rightarrow> bool \<Rightarrow> gotime \<Rightarrow> dep_score" where
  "scoreDependency clock dep f vulnScanUnavailable now =
     (let maint = backfill_archived (df_maintainerInfo f) (df_maint f)
      in floor_score clock now (df_vulns f)
        \<lparr>sd_Module = md_Path (dp_Module dep), sd_Version = md_Version (dp_Module dep), sd_Direct = dp_Direct dep,
          sd_RiskScore = go_round (weighted_total dep f maint vulnScanUnavailable), sd_RiskLevel = RiskLow,
          sd_DependencyPath = dp_UsedBy dep, sd_Vulns = df_vulns f, sd_Maintenance = maint,
          sd_MaintainerInfo = df_maintainerInfo f, sd_Typosquat = df_typosquat f, sd_Resilience = df_resilience f,
          sd_AIGenRisk = df_aiGenRisk f, sd_RiskFactors = risk_factors dep f maint,
          sd_ReplaceClass = (if dp_Replaced dep then df_integrityClass f else ''''),
          sd_PseudoVersion = (df_pseudoVersionClass f \<noteq> ''''), sd_IsTestOnly = dp_IsTestOnly dep,
          sd_InBuild = dp_InBuild dep, sd_Platforms = dp_Platforms dep,
          sd_VulnScore = depVulnScore (df_vulns f), sd_MaintenanceScore = maintenanceScore maint,
          sd_DepthScore = depthScore (dp_Depth dep),
          sd_MaintainerScore = maintainerRiskScore (df_maintainerInfo f) (md_Path (dp_Module dep)),
          sd_MaturityScore = maturityScore (md_Version (dp_Module dep)) (md_Path (dp_Module dep)),
          sd_ResilienceBonus = resilience_bonus (df_resilience f), sd_AIGenBonus = aigen_bonus (df_aiGenRisk f),
          sd_TyposquatBonus = typosquat_bonus (df_typosquat f),
          sd_IntegrityBonus = integrity_bonus (dp_Replaced dep) (df_integrityClass f),
          sd_PseudoVersionBonus = pseudo_bonus (df_pseudoVersionClass f), sd_FlooredTo = 0,
          sd_MaintainerWeightExcluded = maintainer_excluded (df_maintainerInfo f),
          sd_VulnWeightExcluded = vulnScanUnavailable, sd_MaintenanceWeightExcluded = (maint = None),
          sd_MeasuredWeight = snd (weighted_base dep f maint vulnScanUnavailable)\<rparr>)"

end
