(* ===== verification/Risk_Headline.thy ===== *)
theory Risk_Headline
  imports Risk_Dependency
begin

text \<open>
  \<open>pkg/scorer/risk.go\<close>: the score of the project. The advisories of all dependencies go through the step
  function; five candidates compete for the headline; \<open>ScoreAll\<close> puts the result together. Floats that only
  hold integers (the candidates' scores) are integers here.
\<close>

section \<open>The step function over all advisories\<close>

record debug_cve =
  dc_ID :: string
  dc_Module :: string
  dc_OriginalTier :: string
  dc_DowngradedTier :: string
  dc_TestOnly :: tri
  dc_EnrichmentFailed :: bool
  dc_SeverityUnscored :: bool
  dc_Reachability :: string
  dc_ReachabilityDowngrade :: string
  dc_EPSSScore :: "double option"
  dc_InKEV :: bool

record debug_per_dep =
  dd_Module :: string
  dd_WorstSeverity :: string
  dd_HighOrAboveCount :: int
  dd_FloorApplied :: int
  dd_FixAgeAmplifier :: bool
  dd_FinalVulnScore :: int
  dd_FinalRiskScore :: int
  dd_FinalRiskLevel :: risk_level

record severity_adjusted =
  sa_score :: int
  sa_worstID :: string
  sa_worstSeverity :: string
  sa_worstSourceSeverity :: string
  sa_stepInputs :: step_inputs
  sa_enrichedCVEs :: "debug_cve list"
  sa_perDepInputs :: "debug_per_dep list"
  sa_warnings :: "string list"
  sa_worstRank :: int

definition isConfirmedTestOnly :: "dep_score \<Rightarrow> bool" where
  "isConfirmedTestOnly ds = (sd_IsTestOnly ds = Some True)"

definition scoredOutsideBuild :: "dep_score \<Rightarrow> bool" where
  "scoredOutsideBuild ds = (sd_InBuild ds = Some False)"

text \<open>The tier before any downgrade, and after the reachability downgrade, the test-only one and threat intelligence.\<close>

definition raw_tier :: "scored_vulnerability \<Rightarrow> string" where
  "raw_tier v =
     (if EqualFold (v_Severity v) ''UNKNOWN'' \<and> isConfirmedReachable v then ''HIGH'' else effectiveTier v)"

definition final_tier :: "bool \<Rightarrow> scored_vulnerability \<Rightarrow> string" where
  "final_tier testOnly v =
     (let reachabilityTier = fst (reachabilityDowngrade (raw_tier v) (v_Reachability v));
          t = (if testOnly \<and> reachabilityTier \<noteq> '''' then downgradeTier reachabilityTier else reachabilityTier)
      in adjustTierForThreatIntel t v)"

text \<open>The warning on an advisory the downgrades lowered but threat intelligence rates high.\<close>

definition hidden_risk :: "dep_score \<Rightarrow> scored_vulnerability \<Rightarrow> string list" where
  "hidden_risk ds v =
     (let testOnly = isConfirmedTestOnly ds;
          reachDesc = snd (reachabilityDowngrade (raw_tier v) (v_Reachability v));
          cxt = (if testOnly then ''test-only'' else v_Reachability v)
      in if reachDesc = '''' \<and> \<not> testOnly then []
         else if v_InKEV v then
           [''KEV CVE '' @ v_ID v @ '' on dep '' @ sd_Module ds @ '' ('' @ cxt @ '') '' @ em_dash
            @ '' confirmed exploited in the wild; verify reachability manually'']
         else (case v_EPSSScore v of
             None \<Rightarrow> []
           | Some e \<Rightarrow>
               if e \<ge> epssManualReviewThreshold then
                 [''high-EPSS CVE '' @ v_ID v @ '' ('' @ fmt_whole (dmul e 100) @ ''% exploitation probability) on dep ''
                  @ sd_Module ds @ '' ('' @ cxt @ '') '' @ em_dash @ '' verify reachability manually'']
               else []))"

definition debug_cve_of :: "dep_score \<Rightarrow> scored_vulnerability \<Rightarrow> debug_cve" where
  "debug_cve_of ds v =
     (let rawTier = raw_tier v; finalTier = final_tier (isConfirmedTestOnly ds) v
      in \<lparr>dc_ID = v_ID v, dc_Module = sd_Module ds, dc_OriginalTier = rawTier,
          dc_DowngradedTier = (if finalTier = '''' then ''dropped'' else if finalTier \<noteq> rawTier then finalTier else ''''),
          dc_TestOnly = sd_IsTestOnly ds, dc_EnrichmentFailed = v_EnrichmentFailed v,
          dc_SeverityUnscored = (v_SeveritySource v = ''unscored''), dc_Reachability = v_Reachability v,
          dc_ReachabilityDowngrade = snd (reachabilityDowngrade rawTier (v_Reachability v)),
          dc_EPSSScore = v_EPSSScore v, dc_InKEV = v_InKEV v\<rparr>)"

definition count_tier :: "string \<Rightarrow> step_inputs \<Rightarrow> step_inputs" where
  "count_tier t c =
     (if t = ''CRITICAL'' then c\<lparr>si_Critical := si_Critical c + 1\<rparr>
      else if t = ''HIGH'' then c\<lparr>si_High := si_High c + 1\<rparr>
      else if t = ''MEDIUM'' then c\<lparr>si_Medium := si_Medium c + 1\<rparr>
      else if t = ''LOW'' then c\<lparr>si_Low := si_Low c + 1\<rparr>
      else c)"

text \<open>One advisory. The empty tier ends the round before the counts; the debug entry is written either way.\<close>

definition cve_step :: "dep_score \<Rightarrow> scored_vulnerability \<Rightarrow> severity_adjusted \<Rightarrow> severity_adjusted" where
  "cve_step ds v res =
     (let finalTier = final_tier (isConfirmedTestOnly ds) v;
          res = res\<lparr>sa_warnings := sa_warnings res @ hidden_risk ds v,
                    sa_enrichedCVEs := sa_enrichedCVEs res @ [debug_cve_of ds v]\<rparr>
      in if finalTier = '''' then res
         else
           (let res = res\<lparr>sa_stepInputs := count_tier finalTier (sa_stepInputs res)\<rparr>
            in if tierRank finalTier > sa_worstRank res
               then res\<lparr>sa_worstRank := tierRank finalTier, sa_worstID := v_ID v, sa_worstSeverity := finalTier,
                        sa_worstSourceSeverity := v_Severity v\<rparr>
               else res))"

definition worst_raw :: "scored_vulnerability list \<Rightarrow> string" where
  "worst_raw vs = fold (\<lambda>v t. if tierRank (raw_tier v) > tierRank t then raw_tier v else t) vs ''''"

definition high_or_above :: "scored_vulnerability list \<Rightarrow> int" where
  "high_or_above vs = int (length (filter (\<lambda>v. raw_tier v = ''CRITICAL'' \<or> raw_tier v = ''HIGH'') vs))"

definition per_dep_input :: "gotime \<Rightarrow> gotime \<Rightarrow> dep_score \<Rightarrow> debug_per_dep" where
  "per_dep_input clock now ds =
     \<lparr>dd_Module = sd_Module ds, dd_WorstSeverity = worst_raw (sd_Vulns ds), dd_HighOrAboveCount = high_or_above (sd_Vulns ds),
      dd_FloorApplied = fst (severityFloor clock now (sd_Vulns ds)),
      dd_FixAgeAmplifier = (lowFixAgeFloor clock now (sd_Vulns ds) > 0), dd_FinalVulnScore = go_round (sd_VulnScore ds),
      dd_FinalRiskScore = sd_RiskScore ds, dd_FinalRiskLevel = sd_RiskLevel ds\<rparr>"

definition dep_step :: "gotime \<Rightarrow> gotime \<Rightarrow> dep_score \<Rightarrow> severity_adjusted \<Rightarrow> severity_adjusted" where
  "dep_step clock now ds res =
     (if sd_Vulns ds = [] then res
      else
        (let res = fold (cve_step ds) (sd_Vulns ds) res
         in if worst_raw (sd_Vulns ds) \<noteq> ''''
            then res\<lparr>sa_perDepInputs := sa_perDepInputs res @ [per_dep_input clock now ds]\<rparr>
            else res))"

definition zero_result :: severity_adjusted where
  "zero_result = \<lparr>sa_score = 0, sa_worstID = '''', sa_worstSeverity = '''', sa_worstSourceSeverity = '''',
     sa_stepInputs = \<lparr>si_Critical = 0, si_High = 0, si_Medium = 0, si_Low = 0\<rparr>, sa_enrichedCVEs = [],
     sa_perDepInputs = [], sa_warnings = [], sa_worstRank = - 1\<rparr>"

definition severityAdjustedVulnScore :: "gotime \<Rightarrow> gotime \<Rightarrow> dep_score list \<Rightarrow> severity_adjusted" where
  "severityAdjustedVulnScore clock now deps =
     (let res = fold (dep_step clock now) deps zero_result
      in res\<lparr>sa_score := stepFunction (sa_stepInputs res)\<rparr>)"

section \<open>The candidates\<close>

record candidate =
  hc_Name :: string
  hc_Score :: int
  hc_DrivingDep :: string
  hc_Reason :: string
  hc_TiedWith :: int

definition no_candidate :: "string \<Rightarrow> candidate" where
  "no_candidate name = \<lparr>hc_Name = name, hc_Score = 0, hc_DrivingDep = '''', hc_Reason = '''', hc_TiedWith = 0\<rparr>"

definition severity_candidate :: "severity_adjusted \<Rightarrow> candidate" where
  "severity_candidate sev =
     (let si = sa_stepInputs sev; total = si_Critical si + si_High si + si_Medium si + si_Low si
      in (no_candidate ''severity_adjusted'')\<lparr>hc_Score := sa_score sev,
           hc_Reason := itoa (si_High si) @ '' high-severity CVE across '' @ itoa total @ '' total (''
             @ itoa (si_Critical si) @ '' critical) '' @ arrow @ '' score '' @ itoa (sa_score sev)\<rparr>)"

definition p95_lt :: "dep_score \<Rightarrow> dep_score \<Rightarrow> bool" where
  "p95_lt a b = (if sd_RiskScore a \<noteq> sd_RiskScore b then sd_RiskScore a < sd_RiskScore b else sd_Module a < sd_Module b)"

definition built_deps :: "dep_score list \<Rightarrow> dep_score list" where
  "built_deps deps = filter (\<lambda>ds. \<not> (isConfirmedTestOnly ds \<or> scoredOutsideBuild ds)) deps"

text \<open>\<open>int(math.Ceil(0.95*float64(n))) - 1\<close>, kept in range.\<close>

definition p95_index :: "int \<Rightarrow> int" where
  "p95_index n =
     (let idx = \<lceil>dmul (rnd (95 / 100)) (of_int n)\<rceil> - 1;
          idx = (if idx < 0 then 0 else idx)
      in if idx \<ge> n then n - 1 else idx)"

definition p95DepRiskCandidate :: "dep_score list \<Rightarrow> candidate" where
  "p95DepRiskCandidate deps =
     (let built = sort_by p95_lt (built_deps deps)
      in if built = [] then no_candidate ''p95_dep_risk''
         else
           (let d = built ! nat (p95_index (int (length built)));
                tiedWith = int (length (filter (\<lambda>x. sd_RiskScore x = sd_RiskScore d) built)) - 1
            in \<lparr>hc_Name = ''p95_dep_risk'', hc_Score = sd_RiskScore d, hc_DrivingDep = sd_Module d,
                hc_Reason = (if tiedWith > 0 then ''p95 of dep risk scores (one of '' @ itoa (tiedWith + 1) @ '' modules at ''
                                 @ itoa (sd_RiskScore d) @ '')''
                             else ''p95 of dep risk scores''),
                hc_TiedWith = tiedWith\<rparr>))"

definition archived_reason :: "maintenance_info \<Rightarrow> string" where
  "archived_reason m =
     (if mi_MonthsSinceRelease m > 0 then ''archived '' @ itoa (mi_MonthsSinceRelease m) @ '' months'' else ''archived'')"

text \<open>One round of \<open>archivedFloor\<close>: the best candidate and the dependency behind it.\<close>

definition archived_step :: "dep_score \<Rightarrow> candidate \<times> dep_score option \<Rightarrow> candidate \<times> dep_score option" where
  "archived_step ds acc =
     (if isConfirmedTestOnly ds \<or> scoredOutsideBuild ds then acc
      else (case sd_Maintenance ds of
          None \<Rightarrow> acc
        | Some m \<Rightarrow>
            if \<not> mi_Archived m then acc
            else
              (let lead = fst acc; score = (if sd_Direct ds then 60 else 51);
                   better = (score > hc_Score lead
                     \<or> (score = hc_Score lead \<and>
                        (case snd acc of
                           None \<Rightarrow> False
                         | Some b \<Rightarrow> sd_RiskScore ds > sd_RiskScore b
                             \<or> (sd_RiskScore ds = sd_RiskScore b \<and>
                                mi_MonthsSinceRelease m >
                                  (case sd_Maintenance b of Some mb \<Rightarrow> mi_MonthsSinceRelease mb | None \<Rightarrow> 0)))))
               in if better
                  then (lead\<lparr>hc_Score := score, hc_DrivingDep := sd_Module ds, hc_Reason := archived_reason m\<rparr>, Some ds)
                  else acc)))"

definition archivedFloor :: "dep_score list \<Rightarrow> candidate" where
  "archivedFloor deps = fst (fold archived_step deps (no_candidate ''archived_floor'', None))"

definition cve_reach :: "scored_vulnerability \<Rightarrow> string" where
  "cve_reach v = (let reach = ToLower (TrimSpace (v_Reachability v)) in if reach = '''' then ''called'' else reach)"

definition cve_score :: "scored_vulnerability \<Rightarrow> int" where
  "cve_score v =
     (let reach = cve_reach v; t = effectiveTier v
      in if reach = ''called'' \<and> t = ''CRITICAL'' then 60
         else if reach = ''called'' \<and> t = ''HIGH'' then 55
         else if reach = ''imported'' \<and> t = ''CRITICAL'' then 40
         else if reach = ''imported'' \<and> t = ''HIGH'' then 40
         else if reach = ''required'' \<and> t = ''CRITICAL'' then 40
         else 0)"

definition cve_floor_vuln :: "string \<Rightarrow> scored_vulnerability \<Rightarrow> candidate \<Rightarrow> candidate" where
  "cve_floor_vuln m v lead =
     (if cve_score v > hc_Score lead
      then lead\<lparr>hc_Score := cve_score v, hc_DrivingDep := m,
                hc_Reason := cve_reach v @ '' '' @ effectiveTier v @ '' '' @ v_ID v\<rparr>
      else lead)"

definition cveFloor :: "dep_score list \<Rightarrow> candidate" where
  "cveFloor deps =
     fold (\<lambda>ds lead. if isConfirmedTestOnly ds then lead else fold (cve_floor_vuln (sd_Module ds)) (sd_Vulns ds) lead)
       deps (no_candidate ''cve_floor'')"

definition integrity_step :: "dep_score \<Rightarrow> candidate \<Rightarrow> candidate" where
  "integrity_step ds lead =
     (if isConfirmedTestOnly ds \<or> sd_ReplaceClass ds \<noteq> IntegrityHigh then lead
      else (let score = (if sd_Direct ds then 60 else 51)
            in if score > hc_Score lead
               then lead\<lparr>hc_Score := score, hc_DrivingDep := sd_Module ds,
                         hc_Reason := ''replace directive redirects to a different module path''\<rparr>
               else lead))"

definition integrityFloor :: "dep_score list \<Rightarrow> bool \<Rightarrow> candidate" where
  "integrityFloor deps gosumMismatch =
     (if gosumMismatch then
        \<lparr>hc_Name = ''integrity_floor'', hc_Score = 76, hc_DrivingDep = ''go.sum'',
         hc_Reason = ''go mod verify failed '' @ em_dash @ '' a module in the local cache does not match its go.sum checksum'',
         hc_TiedWith = 0\<rparr>
      else fold integrity_step deps (no_candidate ''integrity_floor''))"

definition selectHeadline :: "candidate list \<Rightarrow> candidate" where
  "selectHeadline cs =
     (case cs of
        [] \<Rightarrow> no_candidate ''''
      | c # cs \<Rightarrow> fold (\<lambda>c winner. if hc_Score c > hc_Score winner then c else winner) cs c)"

end
