(* ===== verification/Risk_Project.thy ===== *)
theory Risk_Project
  imports Risk_Headline
begin

text \<open>
  \<open>pkg/scorer/risk.go\<close>, \<open>pkg/scorer/timebombs.go\<close>: \<open>ScoreAll\<close>, from the graph and the scanners' maps to the
  project's score, and the list of time bombs. The clock and the offline switch are arguments.
\<close>

section \<open>Data\<close>

record score_input =
  sc_Graph :: depgraph
  sc_Vulns :: "string \<Rightarrow> scored_vulnerability list"
  sc_Maintenance :: "string \<Rightarrow> maintenance_info option"
  sc_Maintainers :: "string \<Rightarrow> maintainer_record option"
  sc_Typosquats :: "string \<Rightarrow> typosquat_result option"
  sc_Resilience :: "string \<Rightarrow> resilience_info option"
  sc_AIGenRisks :: "string \<Rightarrow> aigen_risk option"
  sc_Integrity :: "string \<Rightarrow> string"
  sc_PseudoVersion :: "string \<Rightarrow> string"
  sc_VulnScanUnavailable :: bool
  sc_GoSumMismatch :: bool
  sc_DebugMode :: bool
  sc_Now :: gotime

record diagnostics =
  dg_MaxDepRiskScore :: int
  dg_P95DepRiskScore :: int

record debug_scoring =
  db_MeanDepRiskScore :: int
  db_SeverityAdjustedVulnScore :: int
  db_HeadlineDriver :: string
  db_StepFunctionInputs :: step_inputs
  db_EnrichedCVEs :: "debug_cve list"
  db_PerDepInputs :: "debug_per_dep list"

record project_score =
  ps_OverallScore :: int
  ps_OverallLevel :: risk_level
  ps_HeadlineUnscoredReason :: string
  ps_Dependencies :: "dep_score list"
  ps_CriticalRiskCount :: int
  ps_HighRiskCount :: int
  ps_MediumRiskCount :: int
  ps_LowRiskCount :: int
  ps_TotalVulns :: int
  ps_Unmaintained2yr :: int
  ps_Unmaintained1yr :: int
  ps_MeanDepRiskScore :: int
  ps_SeverityAdjustedVulnScore :: int
  ps_HeadlineDriver :: string
  ps_HeadlineCandidate :: "candidate option"
  ps_WorstCVEID :: string
  ps_WorstCVESeverity :: string
  ps_WorstCVESourceSeverity :: string
  ps_Diagnostics :: "diagnostics option"
  ps_DebugScoring :: "debug_scoring option"
  ps_Warnings :: "string list"

section \<open>Aggregates\<close>

definition mean_weight :: "dep_score \<Rightarrow> double" where
  "mean_weight ds = dadd 1 (ddiv (of_int (sd_RiskScore ds)) 100)"

definition mean_step :: "dep_score \<Rightarrow> double \<times> double \<Rightarrow> double \<times> double" where
  "mean_step ds acc =
     (dadd (fst acc) (mean_weight ds), dadd (snd acc) (dmul (of_int (sd_RiskScore ds)) (mean_weight ds)))"

definition has_linked_vuln :: "dep_score \<Rightarrow> bool" where
  "has_linked_vuln ds = list_ex (\<lambda>v. v_Reachability v \<noteq> ''required'') (sd_Vulns ds)"

definition computeOverallScore :: "dep_score list \<Rightarrow> int" where
  "computeOverallScore deps =
     (if deps = [] then 0
      else (case fold mean_step deps (0, 0) of (totalWeight, weightedSum) \<Rightarrow>
        if totalWeight = 0 then 0
        else
          (let score = go_round (ddiv weightedSum totalWeight);
               score = (if list_ex has_linked_vuln deps \<and> score < 26 then 26 else score)
           in if score > 100 then 100 else score)))"

definition computeDiagnostics :: "dep_score list \<Rightarrow> diagnostics option" where
  "computeDiagnostics deps =
     (if deps = [] then None
      else Some \<lparr>dg_MaxDepRiskScore = fold (\<lambda>ds m. if sd_RiskScore ds > m then sd_RiskScore ds else m) deps 0,
                 dg_P95DepRiskScore = hc_Score (p95DepRiskCandidate deps)\<rparr>)"

definition buildClassified :: "dep_score list \<Rightarrow> bool" where
  "buildClassified deps = list_ex (\<lambda>ds. sd_InBuild ds \<noteq> None) deps"

definition maintainerUnavailableCause :: "int \<Rightarrow> int \<Rightarrow> string" where
  "maintainerUnavailableCause unavailable errored =
     (if errored = 0 then ''GitHub API unauthenticated''
      else if errored = unavailable then ''GitHub API error''
      else ''GitHub API rate-limited or errored'')"

definition buildDebugScoring :: "project_score \<Rightarrow> severity_adjusted \<Rightarrow> debug_scoring" where
  "buildDebugScoring ps sev =
     \<lparr>db_MeanDepRiskScore = ps_MeanDepRiskScore ps, db_SeverityAdjustedVulnScore = ps_SeverityAdjustedVulnScore ps,
      db_HeadlineDriver = ps_HeadlineDriver ps, db_StepFunctionInputs = sa_stepInputs sev,
      db_EnrichedCVEs = sa_enrichedCVEs sev, db_PerDepInputs = sa_perDepInputs sev\<rparr>"

section \<open>The dependencies\<close>

definition facts_of :: "score_input \<Rightarrow> string \<Rightarrow> dep_facts" where
  "facts_of inp m =
     \<lparr>df_vulns = sc_Vulns inp m, df_maint = sc_Maintenance inp m, df_maintainerInfo = sc_Maintainers inp m,
      df_typosquat = sc_Typosquats inp m, df_resilience = sc_Resilience inp m, df_aiGenRisk = sc_AIGenRisks inp m,
      df_integrityClass = sc_Integrity inp m, df_pseudoVersionClass = sc_PseudoVersion inp m\<rparr>"

definition graph_deps :: "depgraph \<Rightarrow> dependency list" where
  "graph_deps g = map (\<lambda>k. the (dep_of g k)) (SortedPaths g)"

definition scored_deps :: "gotime \<Rightarrow> score_input \<Rightarrow> dep_score list" where
  "scored_deps now inp =
     map (\<lambda>dep. scoreDependency now dep (facts_of inp (md_Path (dp_Module dep))) (sc_VulnScanUnavailable inp) now)
       (graph_deps (sc_Graph inp))"

text \<open>The counts over the scored dependencies, one definition per counter of the loop.\<close>

definition count_if :: "('a \<Rightarrow> bool) \<Rightarrow> 'a list \<Rightarrow> int" where
  "count_if P xs = int (length (filter P xs))"

definition months_inactive :: "dep_score \<Rightarrow> int option" where
  "months_inactive ds = map_option MonthsInactive (sd_Maintenance ds)"

definition maintainer_unavailable :: "dep_score \<Rightarrow> bool" where
  "maintainer_unavailable ds =
     (case sd_MaintainerInfo ds of
        None \<Rightarrow> False
      | Some m \<Rightarrow> \<not> ma_DataAvailable m \<and> ma_UnavailableReason m \<noteq> UnavailableNotFound)"

definition maintainer_errored :: "dep_score \<Rightarrow> bool" where
  "maintainer_errored ds =
     (maintainer_unavailable ds
      \<and> (case sd_MaintainerInfo ds of None \<Rightarrow> False | Some m \<Rightarrow> ma_UnavailableReason m = UnavailableAPIError))"

definition resilience_unavailable :: "dep_score \<Rightarrow> bool" where
  "resilience_unavailable ds = (case sd_Resilience ds of None \<Rightarrow> False | Some r \<Rightarrow> \<not> rs_DataAvailable r)"

definition axis_warnings :: "bool \<Rightarrow> bool \<Rightarrow> dep_score list \<Rightarrow> string list" where
  "axis_warnings offlineEnabled vulnScanUnavailable deps =
     (let n = count_if maintainer_unavailable deps; k = count_if sd_MaintenanceWeightExcluded deps;
          r = count_if resilience_unavailable deps;
          cause = (if offlineEnabled then ''offline'' else maintainerUnavailableCause n (count_if maintainer_errored deps));
          start = (if offlineEnabled then ''offline '' @ em_dash @ '' '' else '''')
      in (if n > 0 then [cause @ '' '' @ em_dash @ '' maintainer data unavailable for '' @ itoa n
              @ '' module(s); maintainer weight excluded from those scores''] else [])
       @ (if k > 0 then [start @ ''maintenance data unavailable for '' @ itoa k
              @ '' module(s); maintenance weight excluded from those scores rather than scored as unknown''] else [])
       @ (if r > 0 then [start @ ''resilience data unavailable for '' @ itoa r
              @ '' module(s); release-cadence and governance signals not measured''] else [])
       @ (if vulnScanUnavailable then [''vulnerability scan did not run; the 40% vulnerability weight is excluded from every dependency score ''
              @ em_dash @ '' these scores describe only the axes that were measured and are NOT comparable to a scan that checked for CVEs'']
          else []))"

section \<open>The headline\<close>

definition candidates :: "score_input \<Rightarrow> severity_adjusted \<Rightarrow> dep_score list \<Rightarrow> candidate list" where
  "candidates inp sev deps =
     [severity_candidate sev, p95DepRiskCandidate deps, archivedFloor deps, cveFloor deps,
      integrityFloor deps (sc_GoSumMismatch inp)]"

definition health_only :: "score_input \<Rightarrow> severity_adjusted \<Rightarrow> dep_score list \<Rightarrow> candidate \<Rightarrow> bool" where
  "health_only inp sev deps winner =
     (hc_Name winner = ''p95_dep_risk'' \<and> \<not> sc_VulnScanUnavailable inp \<and> deps \<noteq> []
      \<and> hc_Score (severity_candidate sev) = 0 \<and> hc_Score (cveFloor deps) = 0
      \<and> hc_Score (integrityFloor deps (sc_GoSumMismatch inp)) = 0)"

definition headline :: "score_input \<Rightarrow> severity_adjusted \<Rightarrow> dep_score list \<Rightarrow> candidate" where
  "headline inp sev deps =
     (let winner = selectHeadline (candidates inp sev deps);
          scope = (if buildClassified deps then ''of built modules''
                   else ''of all modules in the dependency graph (build classification unavailable)'')
      in if health_only inp sev deps winner
         then winner\<lparr>hc_Reason := ''no reachable vulnerabilities; grade reflects dependency health (maintenance, maturity) ''
                @ scope @ '' '' @ em_dash @ '' '' @ hc_Reason winner\<rparr>
         else winner)"

definition unscored_reason :: string where
  "unscored_reason = ''vulnerability scan did not run '' @ em_dash
     @ '' 3 of the 5 headline candidates are CVE-derived and scored 0, leaving the headline decided by ''
     @ ''dependency-graph position and version scheme alone; the numeric score is indicative only''"

definition resolve_now :: "gotime \<Rightarrow> gotime \<Rightarrow> gotime" where
  "resolve_now clock now = (if IsZero now then clock else now)"

definition ScoreAll :: "gotime \<Rightarrow> bool \<Rightarrow> score_input \<Rightarrow> project_score" where
  "ScoreAll clock offlineEnabled inp =
     (let now = resolve_now clock (sc_Now inp);
          deps = scored_deps now inp;
          sev = severityAdjustedVulnScore now now deps;
          winner = headline inp sev deps;
          unscored = (sc_VulnScanUnavailable inp \<and> deps \<noteq> []);
          ps = \<lparr>ps_OverallScore = hc_Score winner,
                ps_OverallLevel = (if unscored then RiskUnknown else levelFromScore (hc_Score winner)),
                ps_HeadlineUnscoredReason = (if unscored then unscored_reason else ''''),
                ps_Dependencies = deps,
                ps_CriticalRiskCount = count_if (\<lambda>ds. sd_RiskScore ds \<ge> 76) deps,
                ps_HighRiskCount = count_if (\<lambda>ds. 51 \<le> sd_RiskScore ds \<and> sd_RiskScore ds < 76) deps,
                ps_MediumRiskCount = count_if (\<lambda>ds. 26 \<le> sd_RiskScore ds \<and> sd_RiskScore ds < 51) deps,
                ps_LowRiskCount = count_if (\<lambda>ds. sd_RiskScore ds < 26) deps,
                ps_TotalVulns = sum_list (map (\<lambda>ds. int (length (sd_Vulns ds))) deps),
                ps_Unmaintained2yr = count_if (\<lambda>ds. case months_inactive ds of None \<Rightarrow> False | Some m \<Rightarrow> m \<ge> 24) deps,
                ps_Unmaintained1yr = count_if (\<lambda>ds. case months_inactive ds of None \<Rightarrow> False | Some m \<Rightarrow> 12 \<le> m \<and> m < 24) deps,
                ps_MeanDepRiskScore = computeOverallScore deps,
                ps_SeverityAdjustedVulnScore = sa_score sev,
                ps_HeadlineDriver = (if deps = [] then '''' else hc_Name winner),
                ps_HeadlineCandidate = (if deps = [] then None else Some winner),
                ps_WorstCVEID = sa_worstID sev, ps_WorstCVESeverity = sa_worstSeverity sev,
                ps_WorstCVESourceSeverity = sa_worstSourceSeverity sev,
                ps_Diagnostics = computeDiagnostics deps, ps_DebugScoring = None,
                ps_Warnings = axis_warnings offlineEnabled (sc_VulnScanUnavailable inp) deps @ sa_warnings sev\<rparr>
      in if sc_DebugMode inp then ps\<lparr>ps_DebugScoring := Some (buildDebugScoring ps sev)\<rparr> else ps)"

section \<open>Time bombs\<close>

record time_bomb =
  tb_Kind :: string
  tb_Module :: string
  tb_Detail :: string
  tb_Reachability :: string

definition reach_suffix :: "string \<Rightarrow> string" where
  "reach_suffix reachTag =
     (if reachTag = '''' then ''''
      else if reachTag = ''required'' then '', required '' @ em_dash @ '' not on call path''
      else if reachTag = ''imported'' then '', imported '' @ em_dash @ '' in package but not called''
      else '', '' @ reachTag)"

definition cve_bomb :: "string \<Rightarrow> scored_vulnerability \<Rightarrow> time_bomb" where
  "cve_bomb m v =
     (let suffix = reach_suffix (v_Reachability v)
      in \<lparr>tb_Kind = (if v_InKEV v then ''kev'' else ''critical_cve''), tb_Module = m,
          tb_Detail =
            (if v_InKEV v then
               v_ID v @ (if v_KEVRansomware v = ''Known'' then '' (KEV '' @ em_dash @ '' exploited in ransomware campaigns''
                         else '' (KEV '' @ em_dash @ '' exploited in the wild'') @ suffix @ '')''
             else v_ID v @ '' (CRITICAL'' @ suffix @ '')''),
          tb_Reachability = v_Reachability v\<rparr>)"

definition dedupe_key :: "scored_vulnerability \<Rightarrow> string" where
  "dedupe_key v = (if CVEAlias v = '''' then v_ID v else CVEAlias v)"

definition is_bomb :: "scored_vulnerability \<Rightarrow> bool" where
  "is_bomb v = (v_InKEV v \<or> effectiveTier v = ''CRITICAL'')"

definition bomb_vuln :: "string \<Rightarrow> scored_vulnerability \<Rightarrow> time_bomb list \<times> string set \<Rightarrow> time_bomb list \<times> string set" where
  "bomb_vuln m v acc =
     (if \<not> is_bomb v \<or> dedupe_key v \<in> snd acc then acc
      else (fst acc @ [cve_bomb m v], insert (dedupe_key v) (snd acc)))"

definition archived_bomb :: "dep_score \<Rightarrow> time_bomb list" where
  "archived_bomb ds =
     (case sd_Maintenance ds of
        None \<Rightarrow> []
      | Some m \<Rightarrow>
          if mi_Archived m
          then [\<lparr>tb_Kind = ''archived'', tb_Module = sd_Module ds, tb_Detail = archived_reason m, tb_Reachability = ''''\<rparr>]
          else [])"

definition bomb_dep :: "dep_score \<Rightarrow> time_bomb list \<times> string set \<Rightarrow> time_bomb list \<times> string set" where
  "bomb_dep ds acc =
     (if isConfirmedTestOnly ds \<or> scoredOutsideBuild ds then acc
      else fold (bomb_vuln (sd_Module ds)) (sd_Vulns ds) (fst acc @ archived_bomb ds, snd acc))"

definition CollectTimeBombs :: "project_score \<Rightarrow> time_bomb list" where
  "CollectTimeBombs ps = fst (fold bomb_dep (ps_Dependencies ps) ([], {}))"

end
