(* ===== verification/Risk_Facts.thy ===== *)
theory Risk_Facts
  imports Risk_Project
begin

text \<open>
  Lemmas on the scorer: what the loop over the advisories adds up to, how the tiers are ordered, and the
  ranges of every number the scorer computes.
\<close>

named_theorems risk_defs \<open>definitions that unfold to arithmetic on constants\<close>

section \<open>Tiers\<close>

lemma effectiveTier_cases: "effectiveTier v \<in> {''CRITICAL'', ''HIGH'', ''MEDIUM'', ''LOW''}"
  by (simp add: effectiveTier_def Let_def)

lemma raw_tier_cases: "raw_tier v \<in> {''CRITICAL'', ''HIGH'', ''MEDIUM'', ''LOW''}"
  using effectiveTier_cases [of v] by (auto simp: raw_tier_def)

lemma raw_tier_not_empty [simp]: "raw_tier v \<noteq> ''''"
  using raw_tier_cases [of v] by auto

text \<open>An unknown severity in any case is the tier \<open>MEDIUM\<close> until it is confirmed reachable.\<close>

lemma upper_lower: "upper_char (lower_char c) = upper_char c"
  by (auto simp: upper_char_def lower_char_def)

lemma ToUpper_ToLower: "ToUpper (ToLower s) = ToUpper s"
  by (simp add: ToUpper_def ToLower_def upper_lower)

lemma EqualFold_ToUpper: "EqualFold s t \<Longrightarrow> ToUpper s = ToUpper t"
  unfolding EqualFold_def by (metis ToUpper_ToLower)

lemma space_is_no_letter: "is_space c \<Longrightarrow> upper_char c = c"
  by (auto simp: is_space_def upper_char_def)

lemma TrimSpace_upper:
  assumes "ToUpper s = w" and "list_all (\<lambda>c. \<not> is_space c) w"
  shows "TrimSpace s = s"
proof -
  have "\<not> is_space c" if "c \<in> set s" for c
  proof
    assume "is_space c"
    then have "c \<in> set (ToUpper s)"
      using that space_is_no_letter [of c] by (force simp: ToUpper_def)
    then show False using assms \<open>is_space c\<close> by (auto simp: list_all_iff)
  qed
  then show ?thesis
    by (cases s) (auto intro!: TrimSpace_id)
qed

lemma effectiveTier_unknown: "EqualFold (v_Severity v) ''UNKNOWN'' \<Longrightarrow> effectiveTier v = ''MEDIUM''"
proof -
  assume "EqualFold (v_Severity v) ''UNKNOWN''"
  then have eq: "ToUpper (v_Severity v) = ''UNKNOWN''"
    by (auto dest!: EqualFold_ToUpper) (simp add: ToUpper_def upper_char_def)
  then have "TrimSpace (v_Severity v) = v_Severity v"
    by (rule TrimSpace_upper) (simp add: is_space_def)
  then show ?thesis by (simp add: effectiveTier_def eq)
qed

lemma tier_moves [simp]:
  "downgradeTier ''CRITICAL'' = ''HIGH''" "downgradeTier ''HIGH'' = ''MEDIUM''"
  "downgradeTier ''MEDIUM'' = ''LOW''" "downgradeTier ''LOW'' = ''''" "downgradeTier '''' = ''''"
  "promoteTier ''CRITICAL'' = ''CRITICAL''" "promoteTier ''HIGH'' = ''CRITICAL''"
  "promoteTier ''MEDIUM'' = ''HIGH''" "promoteTier ''LOW'' = ''MEDIUM''"
  by (simp_all add: downgradeTier_def promoteTier_def)

lemma tierRank_simps [simp]:
  "tierRank ''CRITICAL'' = 4" "tierRank ''HIGH'' = 3" "tierRank ''MEDIUM'' = 2" "tierRank ''LOW'' = 1" "tierRank '''' = - 1"
  by (simp_all add: tierRank_def)

definition all_tiers :: "string set" where
  "all_tiers = {''CRITICAL'', ''HIGH'', ''MEDIUM'', ''LOW'', ''''}"

lemma downgraded_tier: "fst (reachabilityDowngrade (raw_tier v) r) \<in> all_tiers"
  using raw_tier_cases [of v]
  by (auto simp: reachabilityDowngrade_def describe_downgrade_def all_tiers_def)

lemma threat_intel_tier: "t \<in> all_tiers \<Longrightarrow> adjustTierForThreatIntel t v \<in> all_tiers"
  by (auto simp: adjustTierForThreatIntel_def all_tiers_def Let_def split: option.splits)

lemma threat_intel_raises: "t \<in> all_tiers \<Longrightarrow> tierRank t \<le> tierRank (adjustTierForThreatIntel t v)"
  by (auto simp: adjustTierForThreatIntel_def all_tiers_def Let_def split: option.splits)

lemma final_tier_cases: "final_tier b v \<in> all_tiers"
proof -
  have "downgradeTier t \<in> all_tiers" if "t \<in> all_tiers" for t
    using that by (auto simp: all_tiers_def)
  then show ?thesis
    unfolding final_tier_def Let_def using downgraded_tier by (auto intro!: threat_intel_tier)
qed

section \<open>Counting\<close>

text \<open>The tiers that reach the step function, and the score they give.\<close>

definition tiers_of :: "dep_score list \<Rightarrow> string list" where
  "tiers_of deps = concat (map (\<lambda>ds. map (final_tier (isConfirmedTestOnly ds)) (sd_Vulns ds)) deps)"

definition step_score :: "string list \<Rightarrow> int" where
  "step_score ts = stepFunction (fold count_tier ts \<lparr>si_Critical = 0, si_High = 0, si_Medium = 0, si_Low = 0\<rparr>)"

lemma count_tier_empty [simp]: "count_tier '''' c = c"
  by (simp add: count_tier_def)

lemma cve_step_inputs: "sa_stepInputs (cve_step ds v res) = count_tier (final_tier (isConfirmedTestOnly ds) v) (sa_stepInputs res)"
  by (simp add: cve_step_def Let_def)

lemma fold_cve_inputs:
  "sa_stepInputs (fold (cve_step ds) vs res) = fold count_tier (map (final_tier (isConfirmedTestOnly ds)) vs) (sa_stepInputs res)"
  by (induction vs arbitrary: res) (simp_all add: cve_step_inputs)

lemma dep_step_inputs:
  "sa_stepInputs (dep_step clock now ds res)
   = fold count_tier (map (final_tier (isConfirmedTestOnly ds)) (sd_Vulns ds)) (sa_stepInputs res)"
  by (simp add: dep_step_def Let_def fold_cve_inputs)

lemma fold_dep_inputs:
  "sa_stepInputs (fold (dep_step clock now) deps res) = fold count_tier (tiers_of deps) (sa_stepInputs res)"
  by (induction deps arbitrary: res) (simp_all add: dep_step_inputs tiers_of_def)

lemma severity_score: "sa_score (severityAdjustedVulnScore clock now deps) = step_score (tiers_of deps)"
  by (simp add: severityAdjustedVulnScore_def Let_def fold_dep_inputs step_score_def zero_result_def)

lemma fold_count_tier:
  "fold count_tier ts c =
     \<lparr>si_Critical = si_Critical c + count_if (\<lambda>t. t = ''CRITICAL'') ts,
      si_High = si_High c + count_if (\<lambda>t. t = ''HIGH'') ts,
      si_Medium = si_Medium c + count_if (\<lambda>t. t = ''MEDIUM'') ts,
      si_Low = si_Low c + count_if (\<lambda>t. t = ''LOW'') ts\<rparr>"
  by (induction ts arbitrary: c) (auto simp: count_if_def count_tier_def)

lemma count_if_pos: "0 < count_if P xs \<longleftrightarrow> (\<exists>x\<in>set xs. P x)"
  by (simp add: count_if_def) (metis filter_False filter_empty_conv)

lemma count_if_nonneg [simp]: "0 \<le> count_if P xs"
  by (simp add: count_if_def)

lemma step_score_counts:
  "step_score ts =
     (if ''CRITICAL'' \<in> set ts then 95
      else if count_if (\<lambda>t. t = ''HIGH'') ts \<ge> 3 then 85
      else if ''HIGH'' \<in> set ts then 70
      else if ''MEDIUM'' \<in> set ts then 40
      else if ''LOW'' \<in> set ts then 10
      else 0)"
proof -
  have pos: "0 < count_if (\<lambda>t. t = w) ts \<longleftrightarrow> w \<in> set ts" for w
    by (auto simp: count_if_pos)
  have "1 \<le> count_if (\<lambda>t. t = ''HIGH'') ts \<longleftrightarrow> ''HIGH'' \<in> set ts"
    unfolding pos [symmetric] by linarith
  then show ?thesis
    by (simp add: step_score_def fold_count_tier stepFunction_def pos)
qed

lemma step_score_bounds: "0 \<le> step_score ts" "step_score ts \<le> 95"
  by (simp_all add: step_score_counts)

lemma in_tiers_of:
  "ds \<in> set deps \<Longrightarrow> v \<in> set (sd_Vulns ds) \<Longrightarrow> final_tier (isConfirmedTestOnly ds) v \<in> set (tiers_of deps)"
  by (auto simp: tiers_of_def)

section \<open>The CVE floor\<close>

lemma not_downgraded:
  "v_Reachability v \<noteq> ''imported'' \<Longrightarrow> v_Reachability v \<noteq> ''required'' \<Longrightarrow>
   reachabilityDowngrade t (v_Reachability v) = (t, '''')"
  by (simp add: reachabilityDowngrade_def)

lemma cve_reach_exact [simp]:
  "v_Reachability v = ''imported'' \<Longrightarrow> cve_reach v = ''imported''"
  "v_Reachability v = ''required'' \<Longrightarrow> cve_reach v = ''required''"
  by (simp_all add: cve_reach_def Let_def TrimSpace_def ToLower_def is_space_def lower_char_def)

lemma high_raw:
  "effectiveTier v \<in> {''CRITICAL'', ''HIGH''} \<Longrightarrow> raw_tier v = effectiveTier v"
  using effectiveTier_unknown [of v] by (auto simp: raw_tier_def)

text \<open>The step function gives at least the CVE floor of each advisory outside confirmed test-only modules.\<close>

lemma cve_score_below_step:
  assumes "final_tier False v \<in> set ts"
  shows "cve_score v \<le> step_score ts"
proof (cases "effectiveTier v \<in> {''CRITICAL'', ''HIGH''}")
  case False
  then show ?thesis by (simp add: cve_score_def Let_def step_score_bounds)
next
  case True
  define d where "d = fst (reachabilityDowngrade (raw_tier v) (v_Reachability v))"
  have raw: "raw_tier v = effectiveTier v" using True by (rule high_raw)
  have "d \<in> all_tiers" unfolding d_def by (rule downgraded_tier)
  then have le: "tierRank d \<le> tierRank (final_tier False v)"
    using threat_intel_raises [of d v] by (simp add: final_tier_def Let_def flip: d_def)
  have score: "(if tierRank t \<ge> 3 then 70 else if tierRank t = 2 then 40 else 0) \<le> step_score ts"
    if "t \<in> set ts" "t \<in> all_tiers" for t
    using that by (auto simp: step_score_counts all_tiers_def)
  have "cve_score v \<le> (if tierRank d \<ge> 3 then 70 else if tierRank d = 2 then 40 else 0)"
    using True raw
    by (cases "v_Reachability v = ''imported''"; cases "v_Reachability v = ''required''")
       (auto simp: d_def cve_score_def Let_def not_downgraded reachabilityDowngrade_def describe_downgrade_def)
  also have "\<dots> \<le> (if tierRank (final_tier False v) \<ge> 3 then 70 else if tierRank (final_tier False v) = 2 then 40 else 0)"
    using le by auto
  also have "\<dots> \<le> step_score ts" by (rule score [OF assms final_tier_cases])
  finally show ?thesis .
qed

lemma cve_floor_vuln_score: "hc_Score (cve_floor_vuln m v c) = max (cve_score v) (hc_Score c)"
  by (simp add: cve_floor_vuln_def)

lemma cveFloor_below:
  assumes "\<And>ds v. ds \<in> set deps \<Longrightarrow> \<not> isConfirmedTestOnly ds \<Longrightarrow> v \<in> set (sd_Vulns ds) \<Longrightarrow> cve_score v \<le> b" and "0 \<le> b"
  shows "hc_Score (cveFloor deps) \<le> b"
  unfolding cveFloor_def
proof (rule fold_inv [where P = "\<lambda>c :: candidate. hc_Score c \<le> b"])
  show "hc_Score (no_candidate ''cve_floor'') \<le> b" using assms(2) by (simp add: no_candidate_def)
next
  fix ds and c :: candidate
  assume ds: "ds \<in> set deps" and c: "hc_Score c \<le> b"
  show "hc_Score (if isConfirmedTestOnly ds then c else fold (cve_floor_vuln (sd_Module ds)) (sd_Vulns ds) c) \<le> b"
    using assms(1) [OF ds] c by (auto intro!: fold_inv [where P = "\<lambda>c :: candidate. hc_Score c \<le> b"] simp: cve_floor_vuln_score)
qed

lemma cve_floor_below_severity: "hc_Score (cveFloor deps) \<le> sa_score (severityAdjustedVulnScore clock now deps)"
  unfolding severity_score
proof (rule cveFloor_below)
  fix ds v
  assume "ds \<in> set deps" "\<not> isConfirmedTestOnly ds" "v \<in> set (sd_Vulns ds)"
  then show "cve_score v \<le> step_score (tiers_of deps)"
    using in_tiers_of [of ds deps v] by (intro cve_score_below_step) simp
qed (rule step_score_bounds)

section \<open>The headline\<close>

text \<open>A candidate that an earlier one matches never wins.\<close>

abbreviation better :: "candidate \<Rightarrow> candidate \<Rightarrow> candidate" where
  "better \<equiv> \<lambda>c winner. if hc_Score c > hc_Score winner then c else winner"

lemma better_ge: "hc_Score w \<le> hc_Score (fold better cs w)"
proof (induction cs arbitrary: w)
  case (Cons c cs)
  then show ?case using order_trans [OF _ Cons.IH [of c], of "hc_Score w"] by auto
qed simp

lemma better_ge_elem: "c \<in> set cs \<Longrightarrow> hc_Score c \<le> hc_Score (fold better cs w)"
proof (induction cs arbitrary: w)
  case (Cons x xs)
  then show ?case
    using better_ge [of "better x w" xs] by (auto split: if_splits)
qed simp

lemma selectHeadline_drop:
  assumes "w \<in> set cs" and "hc_Score c \<le> hc_Score w"
  shows "selectHeadline (cs @ c # ds) = selectHeadline (cs @ ds)"
proof -
  obtain x xs where cs: "cs = x # xs" using assms(1) by (cases cs) auto
  have "hc_Score c \<le> hc_Score (fold better xs x)"
    using assms better_ge [of x xs] better_ge_elem [of w xs x] by (auto simp: cs)
  then show ?thesis by (simp add: selectHeadline_def cs)
qed

lemma selectHeadline_in: "cs \<noteq> [] \<Longrightarrow> selectHeadline cs \<in> set cs"
proof (cases cs)
  case (Cons x xs)
  have "fold better xs w \<in> insert w (set xs)" for w
  proof (induction xs arbitrary: w)
    case (Cons a as)
    then show ?case using Cons.IH [of a] Cons.IH [of w] by auto
  qed simp
  then show ?thesis by (simp add: Cons selectHeadline_def)
qed simp

lemma selectHeadline_max:
  assumes "c \<in> set cs"
  shows "hc_Score c \<le> hc_Score (selectHeadline cs)"
proof (cases cs)
  case (Cons x xs)
  then show ?thesis
    using assms better_ge [of x xs] better_ge_elem [of c xs x] by (auto simp: selectHeadline_def)
qed (use assms in simp)

section \<open>Ranges of one dependency's score\<close>

lemma dmul_nonneg: "0 \<le> a \<Longrightarrow> 0 \<le> b \<Longrightarrow> 0 \<le> dmul a b"
  by (simp add: dmul_def rnd_nonneg)

lemma dadd_nonneg: "0 \<le> a \<Longrightarrow> 0 \<le> b \<Longrightarrow> 0 \<le> dadd a b"
  by (simp add: dadd_def rnd_nonneg)

lemma ddiv_nonneg: "0 \<le> a \<Longrightarrow> 0 \<le> b \<Longrightarrow> 0 \<le> ddiv a b"
  by (simp add: ddiv_def rnd_nonneg)

lemmas double_nonneg = dmul_nonneg dadd_nonneg ddiv_nonneg rnd_nonneg

lemma quarter [simp]: "rnd (1 / 4) = 1 / 4"
  by (simp add: double_eval)

lemma weigh_inv:
  "fst acc \<ge> 0 \<and> snd (snd acc) \<ge> 0 \<Longrightarrow> fst (weigh v acc) \<ge> 0 \<and> snd (snd (weigh v acc)) \<ge> 0"
  by (cases acc) (auto simp: weigh_def Let_def split: option.splits)

lemma depVulnScore_bounds: "0 \<le> depVulnScore vulns" "depVulnScore vulns \<le> 100"
proof -
  obtain w c e where acc: "fold weigh vulns (0, 0, 0) = (w, c, e)" by (metis prod_cases3)
  have inv: "fst acc \<ge> 0 \<and> snd (snd acc) \<ge> 0" if "acc = fold weigh vulns (0, 0, 0)" for acc
    unfolding that
    by (rule fold_inv [where P = "\<lambda>acc. fst acc \<ge> 0 \<and> snd (snd acc) \<ge> 0"]) (simp, rule weigh_inv)
  have "0 \<le> w" "0 \<le> e" using inv [OF refl] by (simp_all add: acc)
  then have "0 \<le> dadd (dadd w (if c > 1 then dmul (of_int (c - 1)) 5 else 0)) (dmul e epssVulnScoreWeight)"
    by (auto intro!: double_nonneg simp: epssVulnScoreWeight_def)
  then show "0 \<le> depVulnScore vulns" "depVulnScore vulns \<le> 100"
    by (simp_all add: depVulnScore_def acc Let_def)
qed

lemma component_nonneg:
  "0 \<le> maintenanceScore m" "0 \<le> depthScore d" "0 \<le> maintainerRiskScore i p" "0 \<le> maturityScore ver p"
  by (auto simp: maintenanceScore_def depthScore_def maintainerRiskScore_def maturityScore_def split: option.splits)

lemma weights_nonneg:
  "0 \<le> WeightVulnerabilities" "0 \<le> WeightMaintenance" "0 \<le> WeightDepthRisk" "0 \<le> WeightMaintainerRisk" "0 \<le> WeightMaturity"
  by (simp_all add: WeightVulnerabilities_def WeightMaintenance_def WeightDepthRisk_def WeightMaintainerRisk_def
        WeightMaturity_def rnd_nonneg)

lemma add_axis_inv:
  assumes "0 \<le> fst acc" "1 / 4 \<le> snd acc" "0 \<le> score" "0 \<le> weight"
  shows "0 \<le> fst (add_axis b score weight acc) \<and> 1 / 4 \<le> snd (add_axis b score weight acc)"
proof -
  have "rnd (1 / 4) \<le> rnd (snd acc + weight)" using assms by (intro rnd_mono) simp
  then show ?thesis
    using assms by (auto simp: add_axis_def dadd_def intro!: double_nonneg add_nonneg_nonneg)
qed

lemma weighted_base_bounds:
  "0 \<le> fst (weighted_base dep f m b)" "1 / 4 \<le> snd (weighted_base dep f m b)"
proof -
  have "0 \<le> fst (weighted_base dep f m b) \<and> 1 / 4 \<le> snd (weighted_base dep f m b)"
    unfolding weighted_base_def Let_def
    by (intro add_axis_inv [THEN conjunct1] add_axis_inv [THEN conjunct2] conjI)
       (auto intro!: double_nonneg simp: component_nonneg weights_nonneg depVulnScore_bounds)
  then show "0 \<le> fst (weighted_base dep f m b)" "1 / 4 \<le> snd (weighted_base dep f m b)" by auto
qed

definition confidence_ok :: "typosquat_result option \<Rightarrow> bool" where
  "confidence_ok t = (case t of None \<Rightarrow> True | Some r \<Rightarrow> 0 \<le> ty_Confidence r)"

lemma bonuses_nonneg:
  "confidence_ok t \<Longrightarrow> 0 \<le> typosquat_bonus t" "0 \<le> aigen_bonus a" "0 \<le> resilience_bonus r"
  "0 \<le> integrity_bonus b c" "0 \<le> pseudo_bonus c"
  by (auto simp: confidence_ok_def typosquat_bonus_def confidence_def units_def aigen_bonus_def resilience_bonus_def
        low_resilience_def integrity_bonus_def pseudo_bonus_def intro!: double_nonneg split: option.splits)

lemma weighted_total_nonneg: "confidence_ok (df_typosquat f) \<Longrightarrow> 0 \<le> weighted_total dep f m b"
proof -
  assume "confidence_ok (df_typosquat f)"
  moreover obtain x y where xy: "weighted_base dep f m b = (x, y)" by fastforce
  moreover have "0 \<le> x" "1 / 4 \<le> y" using weighted_base_bounds [of dep f m b] by (simp_all add: xy)
  ultimately show ?thesis
    by (auto simp: weighted_total_def intro!: double_nonneg bonuses_nonneg)
qed

lemma lowFixAgeFloor_bounds: "0 \<le> lowFixAgeFloor clock now vs \<and> lowFixAgeFloor clock now vs \<le> 26"
  unfolding lowFixAgeFloor_def
  by (rule fold_inv [where P = "\<lambda>n. 0 \<le> n \<and> n \<le> 26"]) (auto simp: low_fix_floor_def split: option.splits)

lemma severityFloor_bounds: "0 \<le> fst (severityFloor clock now vs)" "fst (severityFloor clock now vs) \<le> 76"
  "snd (severityFloor clock now vs) \<noteq> RiskUnknown"
  using lowFixAgeFloor_bounds [of clock now vs] by (auto simp: severityFloor_def Let_def)

lemma floor_score_score:
  "sd_RiskScore (floor_score clock now vs ds) =
     min 100 (if vs = [] then sd_RiskScore ds else max (sd_RiskScore ds) (fst (severityFloor clock now vs)))"
  by (auto simp: floor_score_def Let_def split: prod.splits)

lemma floor_score_level:
  "sd_RiskLevel (floor_score clock now vs ds) =
     (let numeric = levelFromScore (sd_RiskScore (floor_score clock now vs ds)); promoted = snd (severityFloor clock now vs)
      in if vs \<noteq> [] \<and> riskLevelOrder promoted > riskLevelOrder numeric then promoted else numeric)"
  by (auto simp: floor_score_def Let_def split: prod.splits)

lemma floor_score_same [simp]:
  "sd_Module (floor_score clock now vs ds) = sd_Module ds" "sd_Vulns (floor_score clock now vs ds) = sd_Vulns ds"
  "sd_Maintenance (floor_score clock now vs ds) = sd_Maintenance ds" "sd_Direct (floor_score clock now vs ds) = sd_Direct ds"
  "sd_IsTestOnly (floor_score clock now vs ds) = sd_IsTestOnly ds" "sd_InBuild (floor_score clock now vs ds) = sd_InBuild ds"
  "sd_ReplaceClass (floor_score clock now vs ds) = sd_ReplaceClass ds"
  by (auto simp: floor_score_def Let_def split: prod.splits)

lemma scored_fields [simp]:
  "sd_Module (scoreDependency c dep f b now) = md_Path (dp_Module dep)"
  "sd_Vulns (scoreDependency c dep f b now) = df_vulns f"
  "sd_Direct (scoreDependency c dep f b now) = dp_Direct dep"
  "sd_IsTestOnly (scoreDependency c dep f b now) = dp_IsTestOnly dep"
  "sd_InBuild (scoreDependency c dep f b now) = dp_InBuild dep"
  "sd_Maintenance (scoreDependency c dep f b now) = backfill_archived (df_maintainerInfo f) (df_maint f)"
  "sd_ReplaceClass (scoreDependency c dep f b now) = (if dp_Replaced dep then df_integrityClass f else '''')"
  by (simp_all add: scoreDependency_def Let_def)

lemma risk_score_eq:
  "sd_RiskScore (scoreDependency c dep f b now) =
     (let n = go_round (weighted_total dep f (backfill_archived (df_maintainerInfo f) (df_maint f)) b)
      in min 100 (if df_vulns f = [] then n else max n (fst (severityFloor c now (df_vulns f)))))"
  by (simp add: scoreDependency_def Let_def floor_score_score)

lemma risk_level_eq:
  "sd_RiskLevel (scoreDependency c dep f b now) =
     (let numeric = levelFromScore (sd_RiskScore (scoreDependency c dep f b now)); promoted = snd (severityFloor c now (df_vulns f))
      in if df_vulns f \<noteq> [] \<and> riskLevelOrder promoted > riskLevelOrder numeric then promoted else numeric)"
  by (simp add: scoreDependency_def Let_def floor_score_level floor_score_score)

lemma risk_score_bounds:
  assumes "confidence_ok (df_typosquat f)"
  shows "0 \<le> sd_RiskScore (scoreDependency c dep f b now)" "sd_RiskScore (scoreDependency c dep f b now) \<le> 100"
proof -
  have "go_round (of_int 0) \<le> go_round (weighted_total dep f m b)" for m
    using weighted_total_nonneg [OF assms] by (intro go_round_mono) simp
  then show "0 \<le> sd_RiskScore (scoreDependency c dep f b now)"
    unfolding go_round_of_int by (simp add: risk_score_eq Let_def le_max_iff_disj)
  show "sd_RiskScore (scoreDependency c dep f b now) \<le> 100"
    by (simp add: risk_score_eq Let_def)
qed

section \<open>The floor, by what the advisories are\<close>

definition linked :: "scored_vulnerability \<Rightarrow> bool" where
  "linked v = (v_Reachability v \<noteq> ''required'')"

definition no_severity :: "scored_vulnerability \<Rightarrow> bool" where
  "no_severity v =
     (ToUpper (v_Severity v) \<notin> {''CRITICAL'', ''HIGH'', ''MEDIUM'', ''LOW''}
      \<and> (v_EnrichmentFailed v \<or> v_SeveritySource v = ''unscored''))"

definition has_severity :: "string \<Rightarrow> scored_vulnerability \<Rightarrow> bool" where
  "has_severity s v = (linked v \<and> ToUpper (v_Severity v) = s)"

lemma floor_flags:
  "fold floor_step vs f =
     \<lparr>fl_Critical = (fl_Critical f \<or> list_ex (has_severity ''CRITICAL'') vs),
      fl_High = (fl_High f \<or> list_ex (has_severity ''HIGH'') vs),
      fl_Medium = (fl_Medium f \<or> list_ex (has_severity ''MEDIUM'') vs),
      fl_UnknownCalledFailed = (fl_UnknownCalledFailed f \<or> list_ex (\<lambda>v. no_severity v \<and> isConfirmedReachable v) vs),
      fl_UnknownFailed = (fl_UnknownFailed f \<or> list_ex (\<lambda>v. linked v \<and> no_severity v \<and> \<not> isConfirmedReachable v) vs),
      fl_KEV = (fl_KEV f \<or> list_ex v_InKEV vs)\<rparr>"
proof (induction vs arbitrary: f)
  case (Cons v vs)
  have "floor_step v f =
     \<lparr>fl_Critical = (fl_Critical f \<or> has_severity ''CRITICAL'' v), fl_High = (fl_High f \<or> has_severity ''HIGH'' v),
      fl_Medium = (fl_Medium f \<or> has_severity ''MEDIUM'' v),
      fl_UnknownCalledFailed = (fl_UnknownCalledFailed f \<or> no_severity v \<and> isConfirmedReachable v),
      fl_UnknownFailed = (fl_UnknownFailed f \<or> linked v \<and> no_severity v \<and> \<not> isConfirmedReachable v),
      fl_KEV = (fl_KEV f \<or> v_InKEV v)\<rparr>"
    by (auto simp: floor_step_def Let_def has_severity_def linked_def no_severity_def isConfirmedReachable_def)
  then show ?case by (simp add: Cons.IH disj_assoc)
qed simp

lemma severityFloor_eq:
  "severityFloor clock now vs =
     (if list_ex v_InKEV vs then (76, RiskCritical)
      else if list_ex (has_severity ''CRITICAL'') vs then (51, RiskCritical)
      else if list_ex (has_severity ''HIGH'') vs then (51, RiskHigh)
      else if list_ex (has_severity ''MEDIUM'') vs then (26, RiskMedium)
      else if list_ex (\<lambda>v. no_severity v \<and> isConfirmedReachable v) vs then (51, RiskHigh)
      else if list_ex (\<lambda>v. linked v \<and> no_severity v \<and> \<not> isConfirmedReachable v) vs then (26, RiskMedium)
      else (lowFixAgeFloor clock now vs, RiskLow))"
  by (simp add: severityFloor_def floor_flags no_flags_def Let_def)

section \<open>Warnings\<close>

lemma fold_cve_warnings:
  "sa_warnings (fold (cve_step ds) vs res) = sa_warnings res @ concat (map (hidden_risk ds) vs)"
  by (induction vs arbitrary: res) (simp_all add: cve_step_def Let_def)

lemma fold_dep_warnings:
  "sa_warnings (fold (dep_step clock now) deps res)
   = sa_warnings res @ concat (map (\<lambda>ds. concat (map (hidden_risk ds) (sd_Vulns ds))) deps)"
proof (induction deps arbitrary: res)
  case (Cons ds deps)
  have "sa_warnings (dep_step clock now ds res) = sa_warnings res @ concat (map (hidden_risk ds) (sd_Vulns ds))"
    by (simp add: dep_step_def Let_def fold_cve_warnings)
  then show ?case by (simp add: Cons.IH)
qed simp

lemma severity_warnings:
  "sa_warnings (severityAdjustedVulnScore clock now deps)
   = concat (map (\<lambda>ds. concat (map (hidden_risk ds) (sd_Vulns ds))) deps)"
  by (simp add: severityAdjustedVulnScore_def Let_def fold_dep_warnings zero_result_def)

text \<open>A KEV advisory that no downgrade touches is critical; any other one is warned about.\<close>

lemma kev_critical_or_warned:
  assumes "v_InKEV v"
  shows "final_tier (isConfirmedTestOnly ds) v = ''CRITICAL'' \<or>
    (\<exists>w \<in> set (hidden_risk ds v). HasPrefix w (''KEV CVE '' @ v_ID v @ '' on dep '' @ sd_Module ds))"
proof (cases "snd (reachabilityDowngrade (raw_tier v) (v_Reachability v)) = '''' \<and> \<not> isConfirmedTestOnly ds")
  case True
  then have "fst (reachabilityDowngrade (raw_tier v) (v_Reachability v)) = raw_tier v"
    by (auto simp: reachabilityDowngrade_def describe_downgrade_def arrow_def split: if_splits)
  then have "final_tier (isConfirmedTestOnly ds) v = ''CRITICAL''"
    using True assms by (simp add: final_tier_def Let_def adjustTierForThreatIntel_def)
  then show ?thesis ..
next
  case False
  then have "\<exists>t. hidden_risk ds v = [''KEV CVE '' @ v_ID v @ '' on dep '' @ sd_Module ds @ t]"
    using assms by (auto simp: hidden_risk_def Let_def)
  then show ?thesis
    by (force simp: HasPrefix_iff)
qed

section \<open>Time bombs\<close>

definition live_deps :: "project_score \<Rightarrow> dep_score list" where
  "live_deps ps = filter (\<lambda>ds. \<not> isConfirmedTestOnly ds \<and> \<not> scoredOutsideBuild ds) (ps_Dependencies ps)"

definition bomb_vulns :: "dep_score list \<Rightarrow> (string \<times> scored_vulnerability) list" where
  "bomb_vulns deps = concat (map (\<lambda>ds. map (Pair (sd_Module ds)) (filter is_bomb (sd_Vulns ds))) deps)"

text \<open>What has been reported after some rounds: the first advisory of each key.\<close>

definition reported :: "time_bomb list \<times> string set \<Rightarrow> (string \<times> scored_vulnerability) list \<Rightarrow> bool" where
  "reported acc seen =
     (\<exists>L. filter (\<lambda>b. tb_Kind b \<noteq> ''archived'') (fst acc) = map (\<lambda>(m, v). cve_bomb m v) L
        \<and> distinct (map (dedupe_key \<circ> snd) L) \<and> set L \<subseteq> set seen
        \<and> (dedupe_key \<circ> snd) ` set L = (dedupe_key \<circ> snd) ` set seen
        \<and> snd acc = (dedupe_key \<circ> snd) ` set seen)"

lemma cve_bomb_kind [simp]: "tb_Kind (cve_bomb m v) \<noteq> ''archived''"
  by (simp add: cve_bomb_def Let_def)

lemma bomb_vuln_reported:
  assumes "reported acc seen"
  shows "reported (bomb_vuln m v acc) (seen @ map (Pair m) (filter is_bomb [v]))"
proof -
  obtain L where L: "filter (\<lambda>b. tb_Kind b \<noteq> ''archived'') (fst acc) = map (\<lambda>(m, v). cve_bomb m v) L"
    "distinct (map (dedupe_key \<circ> snd) L)" "set L \<subseteq> set seen"
    "(dedupe_key \<circ> snd) ` set L = (dedupe_key \<circ> snd) ` set seen" "snd acc = (dedupe_key \<circ> snd) ` set seen"
    using assms unfolding reported_def by blast
  consider "\<not> is_bomb v" | "is_bomb v" "dedupe_key v \<in> snd acc" | "is_bomb v" "dedupe_key v \<notin> snd acc" by blast
  then show ?thesis
  proof cases
    case 1
    then show ?thesis using assms by (simp add: bomb_vuln_def)
  next
    case 2
    then have "insert (dedupe_key v) ((dedupe_key \<circ> snd) ` set seen) = (dedupe_key \<circ> snd) ` set seen"
      using L(5) by auto
    then show ?thesis
      using 2 L unfolding reported_def by (intro exI [of _ L]) (auto simp: bomb_vuln_def)
  next
    case 3
    then have "dedupe_key v \<notin> (dedupe_key \<circ> snd) ` set L" using L(4,5) by simp
    then show ?thesis
      using 3 L unfolding reported_def by (intro exI [of _ "L @ [(m, v)]"]) (auto simp: bomb_vuln_def)
  qed
qed

lemma fold_bomb_vuln:
  "reported acc seen \<Longrightarrow> reported (fold (bomb_vuln m) vs acc) (seen @ map (Pair m) (filter is_bomb vs))"
proof (induction vs arbitrary: acc seen)
  case (Cons v vs)
  then show ?case
    using Cons.IH [OF bomb_vuln_reported [OF Cons.prems, of m v]] by (simp split: if_splits)
qed simp

lemma fold_bomb_dep:
  "reported acc seen \<Longrightarrow> reported (fold bomb_dep deps acc)
     (seen @ bomb_vulns (filter (\<lambda>ds. \<not> isConfirmedTestOnly ds \<and> \<not> scoredOutsideBuild ds) deps))"
proof (induction deps arbitrary: acc seen)
  case (Cons ds deps)
  have "reported (fst acc @ archived_bomb ds, snd acc) seen"
    using Cons.prems by (auto simp: reported_def archived_bomb_def split: option.splits)
  then have "reported (fold (bomb_vuln (sd_Module ds)) (sd_Vulns ds) (fst acc @ archived_bomb ds, snd acc))
     (seen @ map (Pair (sd_Module ds)) (filter is_bomb (sd_Vulns ds)))"
    by (rule fold_bomb_vuln)
  from Cons.IH [OF this] Cons.IH [OF Cons.prems] show ?case
    by (auto simp: bomb_dep_def bomb_vulns_def)
qed (simp add: bomb_vulns_def)

lemma fst_bomb_vuln: "set (fst acc) \<subseteq> set (fst (bomb_vuln m v acc))"
  by (auto simp: bomb_vuln_def)

lemma fold_grows:
  assumes "\<And>x a. g a \<subseteq> g (f x a)"
  shows "g a \<subseteq> g (fold f xs a)"
proof (induction xs arbitrary: a)
  case (Cons x xs)
  show ?case using subset_trans [OF assms [of a x] Cons.IH [of "f x a"]] by simp
qed simp

lemma fold_bomb_vuln_fst: "set (fst acc) \<subseteq> set (fst (fold (bomb_vuln m) vs acc))"
  by (rule fold_grows [where g = "\<lambda>acc. set (fst acc)"]) (rule fst_bomb_vuln)

lemma bomb_dep_fst: "set (fst acc) \<subseteq> set (fst (bomb_dep ds acc))"
  using fold_bomb_vuln_fst [of "(fst acc @ archived_bomb ds, snd acc)"] by (auto simp: bomb_dep_def)

lemma fold_bomb_archived:
  "ds \<in> set deps \<Longrightarrow> \<not> isConfirmedTestOnly ds \<Longrightarrow> \<not> scoredOutsideBuild ds \<Longrightarrow>
   set (archived_bomb ds) \<subseteq> set (fst (fold bomb_dep deps acc))"
proof (induction deps arbitrary: acc)
  case (Cons d deps)
  have later: "set (fst a) \<subseteq> set (fst (fold bomb_dep deps a))" for a
    by (rule fold_grows [where g = "\<lambda>acc. set (fst acc)"]) (rule bomb_dep_fst)
  show ?case
  proof (cases "ds \<in> set deps")
    case True
    then show ?thesis using Cons by simp
  next
    case False
    then have "d = ds" using Cons.prems by simp
    then have "set (archived_bomb ds) \<subseteq> set (fst (bomb_dep d acc))"
      using Cons.prems(2,3) fold_bomb_vuln_fst [of "(fst acc @ archived_bomb ds, snd acc)"] by (auto simp: bomb_dep_def)
    then show ?thesis using later [of "bomb_dep d acc"] by auto
  qed
qed simp

end
