(* ===== verification/Risk_Props.thy ===== *)
theory Risk_Props
  imports Risk_Facts
begin

text \<open>
  Properties of the scorer on the whole of \<open>ScoreAll\<close>: the range of its numbers, what the headline is the
  maximum of, the 95th percentile, and which findings cannot stay silent.
\<close>

section \<open>The percentile\<close>

lemma point_95: "rnd (95 / 100) = 4278419646001971 / 4503599627370496"
  by (simp add: double_eval)

lemma ceiling_95:
  assumes "1 \<le> n" and "n < 2 ^ 40"
  shows "\<lceil>dmul (rnd (95 / 100)) (of_int n)\<rceil> = \<lceil>of_int (19 * n) / (20 :: rat)\<rceil>"
proof -
  define q :: rat where "q = rnd (95 / 100) * of_int n"
  define m where "m = \<lceil>of_int (19 * n) / (20 :: rat)\<rceil>"
  have c: "rnd (95 / 100) \<le> 19 / 20" "19 / 20 - 1 / 2 ^ 53 \<le> rnd (95 / 100)" "1 / 2 \<le> rnd (95 / 100)"
    unfolding point_95 by simp_all
  have n: "1 \<le> (of_int n :: rat)" "(of_int n :: rat) \<le> 2 ^ 40"
    using assms of_int_le_iff [of n "2 ^ 40", where 'a = rat] by simp_all
  have upper: "q \<le> 19 / 20 * of_int n" unfolding q_def using c(1) n by (intro mult_right_mono) auto
  have lower: "(19 / 20 - 1 / 2 ^ 53) * of_int n \<le> q" unfolding q_def using c(2) n by (intro mult_right_mono) auto
  have half: "1 / 2 \<le> q"
    using mult_mono [OF c(3) n(1)] by (simp add: q_def rnd_nonneg)
  have m: "of_int (19 * n) / (20 :: rat) \<le> of_int m" "of_int m - 1 < of_int (19 * n) / (20 :: rat)"
    unfolding m_def by linarith+
  then have "of_int (20 * (m - 1)) < (of_int (19 * n) :: rat)" by simp
  then have "20 * (m - 1) + 1 \<le> 19 * n" unfolding of_int_less_iff by simp
  then have "of_int (20 * (m - 1) + 1) \<le> (of_int (19 * n) :: rat)" unfolding of_int_le_iff .
  then have gap: "of_int m - 1 + 1 / 20 \<le> 19 / 20 * (of_int n :: rat)" by simp
  have "m \<le> 19 * n" "0 \<le> m" using assms m unfolding m_def by linarith+
  then have "rnd (of_int m) = of_int m" using assms by (intro rnd_of_int) simp
  moreover have "rnd q \<le> rnd (of_int m)" using upper m by (intro rnd_mono) simp
  ultimately have le: "rnd q \<le> of_int m" by simp
  have "q \<le> 2 ^ 40" using upper n by simp
  then have "q / 2 ^ 53 \<le> 1 / 2 ^ 13" by simp
  moreover have "- (rnd q - q) \<le> q / 2 ^ 53" using rnd_error [OF half] abs_le_D2 by blast
  moreover have "19 / 20 * of_int n - 1 / 2 ^ 13 \<le> (19 / 20 - 1 / 2 ^ 53) * (of_int n :: rat)"
    using n(2) by (simp add: left_diff_distrib)
  ultimately have "of_int m - 1 < rnd q"
    using gap lower by simp
  with le have "\<lceil>rnd q\<rceil> = m" by (simp add: ceiling_eq_iff)
  then show ?thesis by (simp only: dmul_def q_def m_def)
qed

lemma p95_index_exact: "1 \<le> n \<Longrightarrow> n < 2 ^ 40 \<Longrightarrow> p95_index n = n - 1 - n div 20"
proof -
  assume n: "1 \<le> n" "n < 2 ^ 40"
  have "of_int (19 * n) / (20 :: rat) = of_int n - of_int n / 20" by simp
  then have "\<lceil>of_int (19 * n) / (20 :: rat)\<rceil> = n - \<lfloor>of_int n / (20 :: rat)\<rfloor>"
    by (simp add: ceiling_def) linarith
  also have "\<lfloor>of_int n / (20 :: rat)\<rfloor> = n div 20"
    using floor_divide_of_int_eq [of n 20, where 'a = rat] by simp
  finally have "\<lceil>dmul (rnd (95 / 100)) (of_int n)\<rceil> = n - n div 20"
    by (simp only: ceiling_95 [OF n])
  moreover have "n div 20 < n" "0 \<le> n div 20" using n by auto
  ultimately show ?thesis by (simp only: p95_index_def Let_def) auto
qed

interpretation p95: weak_order p95_lt
proof
  show "p95_lt a b \<Longrightarrow> \<not> p95_lt b a" for a b
    by (auto simp: p95_lt_def split: if_splits)
  show "p95_lt a c \<Longrightarrow> p95_lt a b \<or> p95_lt b c" for a b c
    by (auto simp: p95_lt_def split: if_splits)
qed

lemma p95_sorted: "i \<le> j \<Longrightarrow> j < length xs \<Longrightarrow> sd_RiskScore (sort_by p95_lt xs ! i) \<le> sd_RiskScore (sort_by p95_lt xs ! j)"
  using sorted_wrt_nth_less [OF p95.sorted_sort_by [of xs], of i j]
  by (cases "i = j") (auto simp: p95_lt_def split: if_splits)

lemma filter_above:
  assumes "\<And>i j. i \<le> j \<Longrightarrow> j < length xs \<Longrightarrow> (f (xs ! i) :: int) \<le> f (xs ! j)" and "k < length xs"
  shows "length (filter (\<lambda>x. f x > f (xs ! k)) xs) \<le> length xs - Suc k"
    "length xs - k \<le> length (filter (\<lambda>x. f x \<ge> f (xs ! k)) xs)"
proof -
  have "f x \<le> f (xs ! k)" if "x \<in> set (take (Suc k) xs)" for x
  proof -
    obtain i where "i < length (take (Suc k) xs)" "x = take (Suc k) xs ! i"
      using \<open>x \<in> set (take (Suc k) xs)\<close> unfolding in_set_conv_nth by blast
    then have "x = xs ! i" "i \<le> k" by simp_all
    then show ?thesis using assms by simp
  qed
  then have "filter (\<lambda>x. f x > f (xs ! k)) (take (Suc k) xs) = []"
    by (simp add: filter_empty_conv not_less)
  then have "filter (\<lambda>x. f x > f (xs ! k)) xs = filter (\<lambda>x. f x > f (xs ! k)) (drop (Suc k) xs)"
    by (metis append_Nil append_take_drop_id filter_append)
  then show "length (filter (\<lambda>x. f x > f (xs ! k)) xs) \<le> length xs - Suc k"
    by (metis length_drop length_filter_le)
  have "f (xs ! k) \<le> f x" if "x \<in> set (drop k xs)" for x
  proof -
    obtain i where "i < length (drop k xs)" "x = drop k xs ! i"
      using \<open>x \<in> set (drop k xs)\<close> unfolding in_set_conv_nth by blast
    then have "x = xs ! (k + i)" "k + i < length xs" using assms(2) by simp_all
    then show ?thesis using assms(1) [of k "k + i"] by simp
  qed
  then have "filter (\<lambda>x. f x \<ge> f (xs ! k)) (drop k xs) = drop k xs"
    by (simp add: filter_id_conv)
  then have "length xs - k = length (filter (\<lambda>x. f x \<ge> f (xs ! k)) (drop k xs))" by simp
  also have "\<dots> \<le> length (filter (\<lambda>x. f x \<ge> f (xs ! k)) xs)"
    by (metis append_take_drop_id filter_append le_add2 length_append)
  finally show "length xs - k \<le> length (filter (\<lambda>x. f x \<ge> f (xs ! k)) xs)" .
qed

lemma count_if_sort [simp]: "count_if P (sort_by lt xs) = count_if P xs"
  unfolding count_if_def by (metis mset_filter mset_sort_by size_mset)

text \<open>The sorted population and the index into it.\<close>

lemma p95_rank:
  assumes "built_deps deps \<noteq> []" and "int (length deps) < 2 ^ 40"
  defines "n \<equiv> int (length (built_deps deps))"
  obtains d where "d \<in> set (built_deps deps)" "hc_Score (p95DepRiskCandidate deps) = sd_RiskScore d"
    "hc_DrivingDep (p95DepRiskCandidate deps) = sd_Module d"
    "count_if (\<lambda>x. sd_RiskScore x > sd_RiskScore d) (built_deps deps) \<le> n div 20"
    "n div 20 + 1 \<le> count_if (\<lambda>x. sd_RiskScore x \<ge> sd_RiskScore d) (built_deps deps)"
proof -
  define xs where "xs = sort_by p95_lt (built_deps deps)"
  define k where "k = nat (p95_index n)"
  have n: "n = int (length xs)" by (simp add: n_def xs_def)
  have "xs \<noteq> []" using assms(1) by (simp add: xs_def)
  moreover have "length (built_deps deps) \<le> length deps" by (simp add: built_deps_def)
  ultimately have range: "1 \<le> n" "n < 2 ^ 40"
    using assms(1,2) by (simp_all add: n_def Suc_le_eq)
  have k: "k < length xs" "int k = n - 1 - n div 20"
  proof -
    have "0 \<le> n - 1 - n div 20" "n - 1 - n div 20 < n" using range(1) by auto
    then show "k < length xs" "int k = n - 1 - n div 20"
      unfolding k_def p95_index_exact [OF range] by (simp_all add: n nat_less_iff)
  qed
  have count: "count_if P (built_deps deps) = int (length (filter P xs))" for P
    unfolding xs_def count_if_def [symmetric] by simp
  have sorted: "sd_RiskScore (xs ! i) \<le> sd_RiskScore (xs ! j)" if "i \<le> j" "j < length xs" for i j
    using that p95_sorted unfolding xs_def by simp
  show ?thesis
  proof (rule that [of "xs ! k"])
    show "xs ! k \<in> set (built_deps deps)"
      using nth_mem [OF k(1)] by (simp add: xs_def)
    show "hc_Score (p95DepRiskCandidate deps) = sd_RiskScore (xs ! k)"
      "hc_DrivingDep (p95DepRiskCandidate deps) = sd_Module (xs ! k)"
      using \<open>xs \<noteq> []\<close> by (simp_all add: p95DepRiskCandidate_def Let_def k_def n flip: xs_def)
    show "count_if (\<lambda>x. sd_RiskScore x > sd_RiskScore (xs ! k)) (built_deps deps) \<le> n div 20"
      "n div 20 + 1 \<le> count_if (\<lambda>x. sd_RiskScore x \<ge> sd_RiskScore (xs ! k)) (built_deps deps)"
      using filter_above [of xs sd_RiskScore k, OF sorted k(1)] k range unfolding count n by linarith+
  qed
qed

lemma p95_order_free:
  assumes "distinct (map sd_Module deps)" and "mset deps' = mset deps"
  shows "p95DepRiskCandidate deps' = p95DepRiskCandidate deps"
proof -
  have "mset (built_deps deps') = mset (built_deps deps)"
    using assms(2) by (simp add: built_deps_def)
  moreover have "p95_lt a b \<or> p95_lt b a" if "a \<in> set (built_deps deps')" "b \<in> set (built_deps deps')" "a \<noteq> b" for a b
  proof -
    have "a \<in> set deps" "b \<in> set deps"
      using that assms(2) by (auto simp: built_deps_def dest: mset_eq_setD)
    then have "sd_Module a \<noteq> sd_Module b"
      using that(3) assms(1) by (auto simp: distinct_map inj_on_def)
    then show ?thesis by (auto simp: p95_lt_def)
  qed
  ultimately have "sort_by p95_lt (built_deps deps') = sort_by p95_lt (built_deps deps)"
    by (rule p95.sort_by_perm)
  then show ?thesis by (simp add: p95DepRiskCandidate_def)
qed

section \<open>Candidates reach their floors\<close>

lemma fold_reaches:
  assumes "x \<in> set xs" and "\<And>y a. g a \<le> (g (f y a) :: int)" and "\<And>a. b \<le> g (f x a)"
  shows "b \<le> g (fold f xs a)"
proof -
  have mono: "g a \<le> g (fold f ys a)" for ys a
  proof (induction ys arbitrary: a)
    case (Cons y ys)
    then show ?case using order_trans [OF assms(2) [of a y] Cons.IH [of "f y a"]] by simp
  qed simp
  show ?thesis
    using assms(1)
  proof (induction xs arbitrary: a)
    case (Cons y ys)
    then show ?case
      using order_trans [OF assms(3) [of a] mono [of "f x a" ys]] by auto
  qed simp
qed

lemma archived_step_mono: "hc_Score (fst acc) \<le> hc_Score (fst (archived_step ds acc))"
  by (auto simp: archived_step_def Let_def split: option.splits)

lemma archivedFloor_reaches:
  assumes "ds \<in> set deps" "\<not> isConfirmedTestOnly ds" "\<not> scoredOutsideBuild ds" "sd_Maintenance ds = Some m" "mi_Archived m"
  shows "(if sd_Direct ds then 60 else 51) \<le> hc_Score (archivedFloor deps)"
  unfolding archivedFloor_def
proof (rule fold_reaches [where g = "\<lambda>acc. hc_Score (fst acc)", OF assms(1)])
  show "hc_Score (fst acc) \<le> hc_Score (fst (archived_step y acc))" for y acc
    by (rule archived_step_mono)
  show "(if sd_Direct ds then 60 else 51) \<le> hc_Score (fst (archived_step ds acc))" for acc
    using assms(2-) by (auto simp: archived_step_def Let_def)
qed


lemma integrityFloor_reaches:
  assumes "ds \<in> set deps" "\<not> isConfirmedTestOnly ds" "sd_ReplaceClass ds = IntegrityHigh"
  shows "(if sd_Direct ds then 60 else 51) \<le> hc_Score (integrityFloor deps b)"
proof (cases b)
  case False
  have "(if sd_Direct ds then 60 else 51) \<le> hc_Score (fold integrity_step deps (no_candidate ''integrity_floor''))"
    using assms by (intro fold_reaches [where g = hc_Score]) (auto simp: integrity_step_def Let_def)
  then show ?thesis using False by (simp add: integrityFloor_def)
qed (simp add: integrityFloor_def)


section \<open>The project's score\<close>

lemma ScoreAll_fields:
  fixes inp and clock
  defines "now \<equiv> resolve_now clock (sc_Now inp)"
  defines "deps \<equiv> scored_deps now inp"
  defines "sev \<equiv> severityAdjustedVulnScore now now deps"
  shows "ps_Dependencies (ScoreAll clock off inp) = deps"
    "ps_OverallScore (ScoreAll clock off inp) = hc_Score (selectHeadline (candidates inp sev deps))"
    "ps_SeverityAdjustedVulnScore (ScoreAll clock off inp) = sa_score sev"
    "ps_HeadlineDriver (ScoreAll clock off inp)
       = (if deps = [] then '''' else hc_Name (selectHeadline (candidates inp sev deps)))"
    "ps_OverallLevel (ScoreAll clock off inp)
       = (if sc_VulnScanUnavailable inp \<and> deps \<noteq> [] then RiskUnknown
          else levelFromScore (ps_OverallScore (ScoreAll clock off inp)))"
    "ps_Warnings (ScoreAll clock off inp) = axis_warnings off (sc_VulnScanUnavailable inp) deps @ sa_warnings sev"
  by (simp_all add: ScoreAll_def headline_def Let_def now_def deps_def sev_def)

lemma overall_ge: "c \<in> set (candidates inp sev deps) \<Longrightarrow> hc_Score c \<le> hc_Score (selectHeadline (candidates inp sev deps))"
  by (rule selectHeadline_max)

lemma candidate_names:
  "hc_Name (severity_candidate sev) = ''severity_adjusted''"
  "hc_Name (p95DepRiskCandidate deps) = ''p95_dep_risk''"
  "hc_Name (archivedFloor deps) = ''archived_floor''"
  "hc_Name (integrityFloor deps b) = ''integrity_floor''"
proof -
  have "hc_Name (fst (fold archived_step deps (no_candidate ''archived_floor'', None))) = ''archived_floor''"
    by (rule fold_inv [where P = "\<lambda>acc. hc_Name (fst acc) = ''archived_floor''"])
       (auto simp: no_candidate_def archived_step_def Let_def split: option.splits)
  then show "hc_Name (archivedFloor deps) = ''archived_floor''" by (simp add: archivedFloor_def)
  have "hc_Name (fold integrity_step deps (no_candidate ''integrity_floor'')) = ''integrity_floor''"
    by (rule fold_inv [where P = "\<lambda>c :: candidate. hc_Name c = ''integrity_floor''"])
       (auto simp: no_candidate_def integrity_step_def Let_def)
  then show "hc_Name (integrityFloor deps b) = ''integrity_floor''" by (simp add: integrityFloor_def)
qed (simp_all add: severity_candidate_def p95DepRiskCandidate_def Let_def no_candidate_def)

lemma severity_candidate_score [simp]: "hc_Score (severity_candidate sev) = sa_score sev"
  by (simp add: severity_candidate_def Let_def)

text \<open>The headline without the CVE floor.\<close>

lemma headline_of_four:
  assumes "sev = severityAdjustedVulnScore clock now deps"
  shows "selectHeadline (candidates inp sev deps) = selectHeadline
     [severity_candidate sev, p95DepRiskCandidate deps, archivedFloor deps, integrityFloor deps (sc_GoSumMismatch inp)]"
  using selectHeadline_drop [of "severity_candidate sev"
      "[severity_candidate sev, p95DepRiskCandidate deps, archivedFloor deps]" "cveFloor deps"
      "[integrityFloor deps (sc_GoSumMismatch inp)]"]
    cve_floor_below_severity [of deps clock now]
  by (simp add: candidates_def assms)

lemma selectHeadline_four: "hc_Score (selectHeadline [a, b, c, d]) = max (hc_Score a) (max (hc_Score b) (max (hc_Score c) (hc_Score d)))"
  by (simp add: selectHeadline_def)

text \<open>C13: The headline is the maximum of four candidates: the \<open>cve_floor\<close> candidate never exceeds the step function
  over the same advisories, so it changes neither the score nor the driver of any project.\<close>

theorem cve_floor_never_decides:
  "let ps = ScoreAll clock off inp; deps = ps_Dependencies ps
   in ps_OverallScore ps = max (ps_SeverityAdjustedVulnScore ps) (max (hc_Score (p95DepRiskCandidate deps))
        (max (hc_Score (archivedFloor deps)) (hc_Score (integrityFloor deps (sc_GoSumMismatch inp)))))
      \<and> ps_HeadlineDriver ps \<noteq> ''cve_floor''"
proof -
  define now where "now = resolve_now clock (sc_Now inp)"
  define deps where "deps = scored_deps now inp"
  define sev where "sev = severityAdjustedVulnScore now now deps"
  define four where "four = [severity_candidate sev, p95DepRiskCandidate deps, archivedFloor deps,
    integrityFloor deps (sc_GoSumMismatch inp)]"
  have eq: "selectHeadline (candidates inp sev deps) = selectHeadline four"
    unfolding four_def by (rule headline_of_four [OF sev_def])
  have "selectHeadline four \<in> set four"
    by (rule selectHeadline_in) (simp add: four_def)
  then have "hc_Name (selectHeadline four) \<noteq> ''cve_floor''"
    by (auto simp: four_def candidate_names)
  then show ?thesis
    unfolding Let_def ScoreAll_fields now_def [symmetric] deps_def [symmetric] sev_def [symmetric] eq
    by (simp add: four_def selectHeadline_four)
qed

section \<open>Ranges\<close>







lemma in_scored_deps:
  "ds \<in> set (scored_deps now inp) \<longleftrightarrow>
     (\<exists>dep \<in> set (graph_deps (sc_Graph inp)). ds =
        scoreDependency now dep (facts_of inp (md_Path (dp_Module dep))) (sc_VulnScanUnavailable inp) now)"
  by (auto simp: scored_deps_def)



section \<open>A small project\<close>

definition ex_risk_dep :: "string \<Rightarrow> dependency" where
  "ex_risk_dep m = \<lparr>dp_Module = \<lparr>md_Path = m, md_Version = ''v1.0.0'', md_Indirect = False\<rparr>, dp_Direct = True, dp_Depth = 1,
     dp_UsedBy = [''m''], dp_Replaced = False, dp_TransitiveDeps = 0, dp_IsTestOnly = Some False, dp_InBuild = Some True,
     dp_Platforms = []\<rparr>"

definition ex_risk_vuln :: "string \<Rightarrow> string \<Rightarrow> bool \<Rightarrow> scored_vulnerability" where
  "ex_risk_vuln severity reachability kev =
     \<lparr>v_ID = ''GO-2024-1'', v_Aliases = [''CVE-2024-1''], v_Severity = severity, v_Reachability = reachability, v_InKEV = kev,
      v_Summary = '''', v_FixedVersion = '''', v_EnrichmentFailed = True, v_FixRequiresGo = '''', v_FixReleasedAt = None,
      v_FixDateSource = '''', v_AffectedPackages = [], v_Condition = '''', v_KEVChecked = True,
      v_SeveritySource = '''', v_EPSSScore = None, v_KEVRansomware = '''', v_PublishedAt = None, v_FixPublishedAt = None\<rparr>"

definition ex_risk_input :: score_input where
  "ex_risk_input =
     \<lparr>sc_Graph = \<lparr>gr_Root = ''m'', gr_Dependencies = [(''b'', ex_risk_dep ''b''), (''a'', ex_risk_dep ''a'')], gr_EdgeCount = 2,
        gr_Source = SourceGoModGraph, gr_Notes = []\<rparr>,
      sc_Vulns = (\<lambda>m. if m = ''a'' then [ex_risk_vuln ''LOW'' ''required'' True] else []),
      sc_Maintenance = (\<lambda>m. Some (zero_maintenance\<lparr>mi_Archived := (m = ''b'')\<rparr>)), sc_Maintainers = (\<lambda>m. None),
      sc_Typosquats = (\<lambda>m. None), sc_Resilience = (\<lambda>m. None), sc_AIGenRisks = (\<lambda>m. None), sc_Integrity = (\<lambda>m. ''''),
      sc_PseudoVersion = (\<lambda>m. ''''), sc_VulnScanUnavailable = False, sc_GoSumMismatch = False, sc_DebugMode = False,
      sc_Now = date_utc 2026 1 1\<rparr>"

lemma ex_graph_deps: "graph_deps (sc_Graph ex_risk_input) = [ex_risk_dep ''a'', ex_risk_dep ''b'']"
  by (simp add: graph_deps_def ex_risk_input_def SortedPaths_def sort_strings_def dep_of_def)


text \<open>The 95th percentile: of the built modules at most one in twenty scores higher than the candidate, more
  than one in twenty scores as high, the named module is one of those, and the order of the input is irrelevant.\<close>

theorem p95_is_percentile:
  assumes "built_deps deps \<noteq> []" and "int (length deps) < 2 ^ 40"
    and "distinct (map sd_Module deps)" and "mset deps' = mset deps"
  shows "20 * count_if (\<lambda>d. sd_RiskScore d > hc_Score (p95DepRiskCandidate deps)) (built_deps deps)
        \<le> int (length (built_deps deps))
    \<and> int (length (built_deps deps))
        < 20 * count_if (\<lambda>d. sd_RiskScore d \<ge> hc_Score (p95DepRiskCandidate deps)) (built_deps deps)
    \<and> (hc_DrivingDep (p95DepRiskCandidate deps), hc_Score (p95DepRiskCandidate deps))
        \<in> (\<lambda>d. (sd_Module d, sd_RiskScore d)) ` set (built_deps deps)
    \<and> p95DepRiskCandidate deps' = p95DepRiskCandidate deps"
proof -
  obtain d where d: "d \<in> set (built_deps deps)" "hc_Score (p95DepRiskCandidate deps) = sd_RiskScore d"
    "hc_DrivingDep (p95DepRiskCandidate deps) = sd_Module d"
    "count_if (\<lambda>x. sd_RiskScore x > sd_RiskScore d) (built_deps deps) \<le> int (length (built_deps deps)) div 20"
    "int (length (built_deps deps)) div 20 + 1 \<le> count_if (\<lambda>x. sd_RiskScore x \<ge> sd_RiskScore d) (built_deps deps)"
    using p95_rank [OF assms(1,2)] by blast
  then show ?thesis
    using p95_order_free [OF assms(3,4)] by (auto simp: image_iff)
qed

theorem p95_is_percentile_witness:
  "let deps = scored_deps zero_time ex_risk_input
   in p95DepRiskCandidate (rev deps) = p95DepRiskCandidate deps \<and> 2 < 20 * count_if (\<lambda>d. sd_RiskScore d \<ge> hc_Score (p95DepRiskCandidate deps)) (built_deps deps)"
proof -
  have built: "built_deps (scored_deps zero_time ex_risk_input) = scored_deps zero_time ex_risk_input"
    by (simp add: scored_deps_def ex_graph_deps ex_risk_dep_def built_deps_def isConfirmedTestOnly_def scoredOutsideBuild_def)
  have two: "length (scored_deps zero_time ex_risk_input) = 2" "map sd_Module (scored_deps zero_time ex_risk_input) = [''a'', ''b'']"
    by (simp_all add: scored_deps_def ex_graph_deps ex_risk_dep_def)
  have ne: "built_deps (scored_deps zero_time ex_risk_input) \<noteq> []"
    unfolding built using two(1) by auto
  show ?thesis
    using p95_is_percentile [OF ne, of "rev (scored_deps zero_time ex_risk_input)"] two
    unfolding built Let_def by simp
qed

section \<open>What cannot stay silent\<close>

lemma backfill_archives:
  assumes "maint = Some mi \<and> mi_Archived mi \<or> info = Some ma \<and> ma_IsArchived ma"
  shows "\<exists>am. backfill_archived info maint = Some am \<and> mi_Archived am"
  using assms by (cases maint; cases info) (auto simp: backfill_archived_def)

lemma dep_scored:
  fixes inp and clock
  assumes "dep \<in> set (graph_deps (sc_Graph inp))"
  defines "now \<equiv> resolve_now clock (sc_Now inp)"
  shows "scoreDependency now dep (facts_of inp (md_Path (dp_Module dep))) (sc_VulnScanUnavailable inp) now
           \<in> set (ps_Dependencies (ScoreAll clock off inp))"
  using assms by (auto simp: ScoreAll_fields in_scored_deps)

text \<open>C9: An advisory in CISA's KEV catalog is never silent: its module scores at least 76 and is CRITICAL whatever its
  reachability, and the project's headline is at least 95 or the report warns about that advisory by name.\<close>

theorem kev_never_silent:
  assumes "dep \<in> set (graph_deps (sc_Graph inp))"
    and "v \<in> set (sc_Vulns inp (md_Path (dp_Module dep)))" and "v_InKEV v"
  shows "let ps = ScoreAll clock off inp; m = md_Path (dp_Module dep)
    in (ps_OverallScore ps \<ge> 95
        \<or> list_ex (\<lambda>w. HasPrefix w (''KEV CVE '' @ v_ID v @ '' on dep '' @ m)) (ps_Warnings ps))
     \<and> list_ex (\<lambda>d. sd_Module d = m \<and> sd_RiskScore d \<ge> 76 \<and> sd_RiskLevel d = RiskCritical) (ps_Dependencies ps)"
proof -
  define now where "now = resolve_now clock (sc_Now inp)"
  define deps where "deps = scored_deps now inp"
  define sev where "sev = severityAdjustedVulnScore now now deps"
  define ds where "ds = scoreDependency now dep (facts_of inp (md_Path (dp_Module dep))) (sc_VulnScanUnavailable inp) now"
  have ds: "ds \<in> set deps" "v \<in> set (sd_Vulns ds)" "sd_Module ds = md_Path (dp_Module dep)"
    using dep_scored [OF assms(1), of clock off] assms(2)
    by (simp_all add: ds_def deps_def now_def ScoreAll_fields facts_of_def)
  have kev: "list_ex v_InKEV (df_vulns (facts_of inp (md_Path (dp_Module dep))))"
    using assms(2,3) by (auto simp: facts_of_def list_ex_iff)
  then have "severityFloor now now (df_vulns (facts_of inp (md_Path (dp_Module dep)))) = (76, RiskCritical)"
    by (simp add: severityFloor_eq)
  moreover have "df_vulns (facts_of inp (md_Path (dp_Module dep))) \<noteq> []" using kev by auto
  ultimately have own: "sd_RiskScore ds \<ge> 76" "sd_RiskLevel ds = RiskCritical"
    unfolding ds_def by (simp_all add: risk_score_eq risk_level_eq Let_def levelFromScore_def le_max_iff_disj)
  have "ps_OverallScore (ScoreAll clock off inp) \<ge> 95
      \<or> list_ex (\<lambda>w. HasPrefix w (''KEV CVE '' @ v_ID v @ '' on dep '' @ sd_Module ds)) (ps_Warnings (ScoreAll clock off inp))"
    using kev_critical_or_warned [OF assms(3), of ds]
  proof
    assume "final_tier (isConfirmedTestOnly ds) v = ''CRITICAL''"
    then have "sa_score sev = 95"
      using in_tiers_of [OF ds(1,2)] by (simp add: sev_def severity_score step_score_counts)
    then show ?thesis
      using overall_ge [of "severity_candidate sev" inp sev deps]
      by (simp add: candidates_def ScoreAll_fields flip: now_def deps_def sev_def)
  next
    assume "\<exists>w \<in> set (hidden_risk ds v). HasPrefix w (''KEV CVE '' @ v_ID v @ '' on dep '' @ sd_Module ds)"
    then show ?thesis
      using ds(1,2) by (auto simp: ScoreAll_fields list_ex_iff severity_warnings simp flip: now_def deps_def)
  qed
  moreover have "ds \<in> set (ps_Dependencies (ScoreAll clock off inp))"
    using ds(1) by (simp add: ScoreAll_fields deps_def now_def)
  ultimately show ?thesis
    using own ds(3) unfolding Let_def by (auto simp: list_ex_iff)
qed

theorem kev_never_silent_witness:
  "list_ex (\<lambda>d. sd_Module d = ''a'' \<and> sd_RiskScore d \<ge> 76 \<and> sd_RiskLevel d = RiskCritical)
     (ps_Dependencies (ScoreAll zero_time False ex_risk_input))"
proof -
  have "ex_risk_dep ''a'' \<in> set (graph_deps (sc_Graph ex_risk_input))" by (simp add: ex_graph_deps)
  moreover have "ex_risk_vuln ''LOW'' ''required'' True \<in> set (sc_Vulns ex_risk_input (md_Path (dp_Module (ex_risk_dep ''a''))))"
    by (simp add: ex_risk_input_def ex_risk_dep_def)
  moreover have "v_InKEV (ex_risk_vuln ''LOW'' ''required'' True)" by (simp add: ex_risk_vuln_def)
  ultimately show ?thesis
    using kev_never_silent [of "ex_risk_dep ''a''" ex_risk_input "ex_risk_vuln ''LOW'' ''required'' True" zero_time False]
    by (simp add: Let_def ex_risk_dep_def)
qed

text \<open>A module that is archived by either scanner, and neither confirmed test-only nor confirmed outside the build,
  floors the headline at 51 (HIGH), at 60 when it is a direct dependency, and is listed as a time bomb.\<close>

theorem archived_reaches_headline:
  assumes "dep \<in> set (graph_deps (sc_Graph inp))" and "m = md_Path (dp_Module dep)"
    and "dp_IsTestOnly dep \<noteq> Some True" and "dp_InBuild dep \<noteq> Some False"
    and "sc_Maintenance inp m = Some mi \<and> mi_Archived mi \<or> sc_Maintainers inp m = Some ma \<and> ma_IsArchived ma"
  shows "let ps = ScoreAll clock off inp
    in (if dp_Direct dep then 60 else 51) \<le> ps_OverallScore ps
     \<and> ps_OverallLevel ps \<in> {RiskHigh, RiskCritical, RiskUnknown}
     \<and> list_ex (\<lambda>b. tb_Kind b = ''archived'' \<and> tb_Module b = m) (CollectTimeBombs ps)"
proof -
  define now where "now = resolve_now clock (sc_Now inp)"
  define deps where "deps = scored_deps now inp"
  define sev where "sev = severityAdjustedVulnScore now now deps"
  define ds where "ds = scoreDependency now dep (facts_of inp m) (sc_VulnScanUnavailable inp) now"
  have ds: "ds \<in> set deps"
    using dep_scored [OF assms(1), of clock off] by (simp add: ds_def deps_def now_def ScoreAll_fields assms(2))
  obtain am where am: "sd_Maintenance ds = Some am" "mi_Archived am"
    using backfill_archives [OF assms(5)] by (auto simp: ds_def facts_of_def)
  have live: "\<not> isConfirmedTestOnly ds" "\<not> scoredOutsideBuild ds"
    using assms(3,4) by (simp_all add: ds_def isConfirmedTestOnly_def scoredOutsideBuild_def)
  have "(if sd_Direct ds then 60 else 51) \<le> hc_Score (archivedFloor deps)"
    using ds live am by (rule archivedFloor_reaches)
  also have "\<dots> \<le> ps_OverallScore (ScoreAll clock off inp)"
    using overall_ge [of "archivedFloor deps" inp sev deps]
    by (simp add: candidates_def ScoreAll_fields flip: now_def deps_def sev_def)
  finally have score: "(if dp_Direct dep then 60 else 51) \<le> ps_OverallScore (ScoreAll clock off inp)"
    by (simp add: ds_def)
  then have "51 \<le> ps_OverallScore (ScoreAll clock off inp)" by (auto split: if_splits)
  then have level: "ps_OverallLevel (ScoreAll clock off inp) \<in> {RiskHigh, RiskCritical, RiskUnknown}"
    unfolding ScoreAll_fields(5) by (simp add: levelFromScore_def)
  have "\<exists>b \<in> set (archived_bomb ds). tb_Kind b = ''archived'' \<and> tb_Module b = m"
    using am by (simp add: archived_bomb_def) (simp add: ds_def assms(2))
  then have "list_ex (\<lambda>b. tb_Kind b = ''archived'' \<and> tb_Module b = m) (CollectTimeBombs (ScoreAll clock off inp))"
    using fold_bomb_archived [OF ds live, of "([], {})"]
    by (auto simp: CollectTimeBombs_def ScoreAll_fields list_ex_iff simp flip: now_def deps_def)
  with score level show ?thesis by (simp add: Let_def)
qed

theorem archived_reaches_headline_witness:
  "60 \<le> ps_OverallScore (ScoreAll zero_time False ex_risk_input)
   \<and> list_ex (\<lambda>b. tb_Kind b = ''archived'' \<and> tb_Module b = ''b'') (CollectTimeBombs (ScoreAll zero_time False ex_risk_input))"
proof -
  have dep: "ex_risk_dep ''b'' \<in> set (graph_deps (sc_Graph ex_risk_input))" by (simp add: ex_graph_deps)
  have path: "''b'' = md_Path (dp_Module (ex_risk_dep ''b''))" by (simp add: ex_risk_dep_def)
  have live: "dp_IsTestOnly (ex_risk_dep ''b'') \<noteq> Some True" "dp_InBuild (ex_risk_dep ''b'') \<noteq> Some False"
    by (simp_all add: ex_risk_dep_def)
  have archived: "sc_Maintenance ex_risk_input ''b'' = Some (zero_maintenance\<lparr>mi_Archived := True\<rparr>)
      \<and> mi_Archived (zero_maintenance\<lparr>mi_Archived := True\<rparr>) \<or> sc_Maintainers ex_risk_input ''b'' = Some ma \<and> ma_IsArchived ma" for ma
    by (simp add: ex_risk_input_def)
  have direct: "dp_Direct (ex_risk_dep ''b'')" by (simp add: ex_risk_dep_def)
  show ?thesis
    using archived_reaches_headline [OF dep path live archived, of zero_time False] direct by (simp add: Let_def)
qed

text \<open>The CVE time bombs of a report are exactly one per key: every KEV or CRITICAL advisory of a module that is
  neither confirmed test-only nor confirmed outside the build shares its CVE (or, without one, its own id)
  with exactly one entry, and every entry is such an advisory.\<close>

theorem time_bombs_exact:
  "let live = filter (\<lambda>ds. \<not> isConfirmedTestOnly ds \<and> \<not> scoredOutsideBuild ds) (ps_Dependencies ps);
       dangerous = concat (map (\<lambda>ds. map (Pair (sd_Module ds))
         (filter (\<lambda>v. v_InKEV v \<or> effectiveTier v = ''CRITICAL'') (sd_Vulns ds))) live)
   in \<exists>L. filter (\<lambda>b. tb_Kind b \<noteq> ''archived'') (CollectTimeBombs ps) = map (\<lambda>(m, v). cve_bomb m v) L
        \<and> distinct (map (dedupe_key \<circ> snd) L) \<and> set L \<subseteq> set dangerous
        \<and> (dedupe_key \<circ> snd) ` set L = (dedupe_key \<circ> snd) ` set dangerous"
proof -
  have "reported ([], {}) []" by (simp add: reported_def)
  from fold_bomb_dep [OF this, of "ps_Dependencies ps"] show ?thesis
    unfolding reported_def Let_def CollectTimeBombs_def bomb_vulns_def is_bomb_def append_Nil by blast
qed

section \<open>Gaps of the severity floor\<close>

text \<open>An advisory of unpublished severity that is confirmed called floors its module at 51 (HIGH), but one linked
  MEDIUM advisory more lowers the floor to 26 (MEDIUM): the floor is not monotone.\<close>

theorem medium_masks_unscored:
  assumes "list_ex (\<lambda>v. no_severity v \<and> isConfirmedReachable v) vs" and "\<not> list_ex v_InKEV (m # vs)"
    and "\<not> list_ex (has_severity ''CRITICAL'') vs" and "\<not> list_ex (has_severity ''HIGH'') vs"
    and "\<not> list_ex (has_severity ''MEDIUM'') vs" and "has_severity ''MEDIUM'' m"
  shows "severityFloor clock now vs = (51, RiskHigh) \<and> severityFloor clock now (m # vs) = (26, RiskMedium)"
proof -
  have "\<not> has_severity ''CRITICAL'' m" "\<not> has_severity ''HIGH'' m"
    using assms(6) by (simp_all add: has_severity_def)
  then show ?thesis using assms by (simp add: severityFloor_eq)
qed

theorem medium_masks_unscored_witness:
  "severityFloor zero_time zero_time [ex_risk_vuln ''UNKNOWN'' ''called'' False] = (51, RiskHigh)
   \<and> severityFloor zero_time zero_time [ex_risk_vuln ''MEDIUM'' ''called'' False, ex_risk_vuln ''UNKNOWN'' ''called'' False]
     = (26, RiskMedium)"
  by (rule medium_masks_unscored)
     (simp_all add: no_severity_def isConfirmedReachable_def has_severity_def linked_def ex_risk_vuln_def ToUpper_def upper_char_def)

definition stale_low :: "gotime \<Rightarrow> scored_vulnerability \<Rightarrow> bool" where
  "stale_low now v =
     (EqualFold (v_Severity v) ''LOW'' \<and> (case v_FixPublishedAt v of None \<Rightarrow> False | Some t \<Rightarrow> days_since now t \<ge> 365))"

lemma low_fix_floor_stale: "stale_low now v \<Longrightarrow> 26 \<le> low_fix_floor now v n"
  by (auto simp: stale_low_def low_fix_floor_def split: option.splits)

lemma lowFixAgeFloor_stale:
  assumes "list_ex (stale_low now) vs" and "\<not> IsZero now"
  shows "lowFixAgeFloor clock now vs = 26"
proof -
  obtain v where v: "v \<in> set vs" "stale_low now v" using assms(1) by (auto simp: list_ex_iff)
  have "26 \<le> fold (low_fix_floor now) vs 0"
    using v by (intro fold_reaches [where g = "\<lambda>n. n"])
       (auto simp: low_fix_floor_stale, auto simp: low_fix_floor_def split: option.splits)
  then show ?thesis using lowFixAgeFloor_bounds [of clock now vs] assms(2) by (simp add: lowFixAgeFloor_def)
qed

text \<open>The floor excludes advisories whose code is not linked (\<open>required\<close>), but its fix-age rule does not: such a
  LOW advisory with a year-old fix floors its module at 26, where a CRITICAL one sets no floor.\<close>

theorem unlinked_low_floors_module:
  assumes "list_all (\<lambda>v. v_Reachability v = ''required'' \<and> \<not> v_InKEV v) vs" and "\<not> IsZero now"
  shows "snd (severityFloor clock now vs) = RiskLow
    \<and> (if list_ex (stale_low now) vs then fst (severityFloor clock now vs) = 26
       else list_all (\<lambda>v. ToUpper (v_Severity v) = ''CRITICAL'') vs \<longrightarrow> fst (severityFloor clock now vs) = 0)"
proof -
  have none: "\<not> list_ex v_InKEV vs" "\<not> list_ex (has_severity s) vs" "\<not> list_ex (\<lambda>v. no_severity v \<and> isConfirmedReachable v) vs"
    "\<not> list_ex (\<lambda>v. linked v \<and> no_severity v \<and> \<not> isConfirmedReachable v) vs" for s
    using assms(1) by (auto simp: list_ex_iff list_all_iff has_severity_def linked_def isConfirmedReachable_def)
  then have eq: "severityFloor clock now vs = (lowFixAgeFloor clock now vs, RiskLow)"
    by (simp add: severityFloor_eq)
  have "lowFixAgeFloor clock now vs = 0" if critical: "list_all (\<lambda>v. ToUpper (v_Severity v) = ''CRITICAL'') vs"
  proof -
    have "\<not> EqualFold (v_Severity v) ''LOW''" if "v \<in> set vs" for v
      using EqualFold_ToUpper [of "v_Severity v" "''LOW''"] that critical
      by (auto simp: list_all_iff) (simp add: ToUpper_def upper_char_def)
    then show ?thesis
      unfolding lowFixAgeFloor_def
      by (intro fold_inv [where P = "\<lambda>n. n = 0"]) (simp_all add: low_fix_floor_def)
  qed
  then show ?thesis using lowFixAgeFloor_stale [OF _ assms(2)] by (simp add: eq)
qed

theorem unlinked_low_floors_module_witness:
  "fst (severityFloor zero_time (date_utc 2026 1 1)
      [(ex_risk_vuln ''LOW'' ''required'' False)\<lparr>v_FixPublishedAt := Some (date_utc 2024 1 1)\<rparr>]) = 26
   \<and> fst (severityFloor zero_time (date_utc 2026 1 1) [ex_risk_vuln ''CRITICAL'' ''required'' False]) = 0"
proof -
  have now: "\<not> IsZero (date_utc 2026 1 1)" by code_simp
  have "days_since (date_utc 2026 1 1) (date_utc 2024 1 1) = 731"
    by (simp add: days_since_def Sub_def date_utc_def day_ns_def min_dur_def max_dur_def Hours_def go_int_def Let_def
        dadd_def ddiv_def rnd_numeral)
  then have stale: "stale_low (date_utc 2026 1 1) ((ex_risk_vuln ''LOW'' ''required'' False)\<lparr>v_FixPublishedAt := Some (date_utc 2024 1 1)\<rparr>)"
    "\<not> stale_low (date_utc 2026 1 1) (ex_risk_vuln ''CRITICAL'' ''required'' False)"
    by (simp_all add: stale_low_def ex_risk_vuln_def EqualFold_def)
  show ?thesis
    using unlinked_low_floors_module [OF _ now, of "[(ex_risk_vuln ''LOW'' ''required'' False)\<lparr>v_FixPublishedAt := Some (date_utc 2024 1 1)\<rparr>]" zero_time]
      unlinked_low_floors_module [OF _ now, of "[ex_risk_vuln ''CRITICAL'' ''required'' False]" zero_time] stale
    by (simp add: ex_risk_vuln_def ToUpper_def upper_char_def)
qed

section \<open>The displayed severity\<close>

lemma ToLower_ToUpper: "ToLower (ToUpper s) = ToLower s"
proof -
  have "lower_char (upper_char c) = lower_char c" for c
    by (auto simp: upper_char_def lower_char_def)
  then show ?thesis by (simp add: ToLower_def ToUpper_def)
qed

text \<open>\<open>ScoredSeverity\<close> shows the tier the step function starts from when the advisory names one in the scorer's
  vocabulary; with an empty severity and a confirmed call it shows HIGH while MEDIUM is scored.\<close>

lemma scored_severity_agrees:
  assumes "ToUpper (v_Severity v) \<in> {''CRITICAL'', ''HIGH'', ''MEDIUM'', ''LOW'', ''UNKNOWN''}"
  shows "ScoredSeverity v = raw_tier v"
proof -
  have "list_all (\<lambda>c. \<not> is_space c) (ToUpper (v_Severity v))"
    using assms by (auto simp: is_space_def)
  then have "TrimSpace (v_Severity v) = v_Severity v" by (rule TrimSpace_upper [OF refl])
  moreover have fold: "EqualFold (v_Severity v) ''UNKNOWN'' \<Longrightarrow> ToUpper (v_Severity v) = ''UNKNOWN''"
    by (auto dest!: EqualFold_ToUpper) (simp add: ToUpper_def upper_char_def)
  moreover have "EqualFold (v_Severity v) ''UNKNOWN''" if "ToUpper (v_Severity v) = ''UNKNOWN''"
    using arg_cong [OF that, of ToLower] by (simp add: EqualFold_def ToLower_ToUpper)
  ultimately show ?thesis
    using assms by (auto simp: ScoredSeverity_def raw_tier_def effectiveTier_def Let_def ToUpper_def)
qed

lemma scored_severity_differs:
  "v_Severity v = '''' \<Longrightarrow> v_Reachability v = ''called'' \<Longrightarrow> ScoredSeverity v = ''HIGH'' \<and> raw_tier v = ''MEDIUM''"
  by (simp add: ScoredSeverity_def raw_tier_def effectiveTier_def isConfirmedReachable_def EqualFold_def ToLower_def ToUpper_def
      TrimSpace_def)

end
