(* ===== verification/Cvss.thy ===== *)
theory Cvss
  imports Go_Double Go_Text
begin

text \<open>
  \<open>pkg/scanner/cvss.go\<close>, and the tiers of \<open>pkg/scanner/vulnenrich.go\<close>: the base score of a CVSS v3 vector. The
  vector is split into metrics, the weights are floats, and the score is rounded up to one decimal. Parsing a
  plain number (\<open>strconv.ParseFloat\<close>) is left to the argument \<open>parse_float\<close>.
\<close>

section \<open>Weights\<close>

definition cvss3AV :: "string \<Rightarrow> double option" where
  "cvss3AV = [''N'' \<mapsto> rnd (85 / 100), ''A'' \<mapsto> rnd (62 / 100), ''L'' \<mapsto> rnd (55 / 100), ''P'' \<mapsto> rnd (2 / 10)]"

definition cvss3AC :: "string \<Rightarrow> double option" where
  "cvss3AC = [''L'' \<mapsto> rnd (77 / 100), ''H'' \<mapsto> rnd (44 / 100)]"

definition cvss3UI :: "string \<Rightarrow> double option" where
  "cvss3UI = [''N'' \<mapsto> rnd (85 / 100), ''R'' \<mapsto> rnd (62 / 100)]"

definition cvss3CIA :: "string \<Rightarrow> double option" where
  "cvss3CIA = [''H'' \<mapsto> rnd (56 / 100), ''L'' \<mapsto> rnd (22 / 100), ''N'' \<mapsto> 0]"

definition cvss3Base :: "string list" where
  "cvss3Base = [''AV'', ''AC'', ''PR'', ''UI'', ''S'', ''C'', ''I'', ''A'']"

definition pr_weight :: "bool \<Rightarrow> string \<Rightarrow> double option" where
  "pr_weight scopeChanged v =
     (if v = ''N'' then Some (rnd (85 / 100))
      else if v = ''L'' then Some (if scopeChanged then rnd (68 / 100) else rnd (62 / 100))
      else if v = ''H'' then Some (if scopeChanged then 1 / 2 else rnd (27 / 100))
      else None)"

section \<open>The formula\<close>

text \<open>
  \<open>math.Pow(x, 15)\<close> multiplies the powers with exponents 1, 2, 4 and 8, on mantissas: a power of two does
  not change the rounding.
\<close>

definition pow15 :: "double \<Rightarrow> double" where
  "pow15 x = (let x2 = dmul x x; x4 = dmul x2 x2; x8 = dmul x4 x4 in dmul (dmul (dmul x x2) x4) x8)"

definition dsub :: "double \<Rightarrow> double \<Rightarrow> double" where
  "dsub a b = rnd (a - b)"

definition cvss_iss :: "double \<Rightarrow> double \<Rightarrow> double \<Rightarrow> double" where
  "cvss_iss c i a = dsub 1 (dmul (dmul (dsub 1 c) (dsub 1 i)) (dsub 1 a))"

definition cvss_impact :: "bool \<Rightarrow> double \<Rightarrow> double" where
  "cvss_impact scopeChanged iss =
     (if scopeChanged
      then dsub (dmul (rnd (752 / 100)) (dsub iss (rnd (29 / 1000)))) (dmul (rnd (325 / 100)) (pow15 (dsub iss (rnd (2 / 100)))))
      else dmul (rnd (642 / 100)) iss)"

definition exploitability :: "double \<Rightarrow> double \<Rightarrow> double \<Rightarrow> double \<Rightarrow> double" where
  "exploitability av ac pr ui = dmul (dmul (dmul (dmul (rnd (822 / 100)) av) ac) pr) ui"

definition cvss3Roundup :: "double \<Rightarrow> double" where
  "cvss3Roundup x =
     (let i = go_round (dmul x 100000)
      in if i mod 10000 = 0 then ddiv (of_int i) 100000
         else ddiv (dadd (of_int \<lfloor>ddiv (of_int i) 10000\<rfloor>) 1) 10)"

definition base_score :: "bool \<Rightarrow> double \<Rightarrow> double \<Rightarrow> double \<Rightarrow> double \<Rightarrow> double \<Rightarrow> double" where
  "base_score scopeChanged impact av ac pr ui =
     (if impact \<le> 0 then 0
      else if scopeChanged then cvss3Roundup (min (dmul (rnd (108 / 100)) (dadd impact (exploitability av ac pr ui))) 10)
      else cvss3Roundup (min (dadd impact (exploitability av ac pr ui)) 10))"

section \<open>The vector\<close>

fun read_metrics :: "string list \<Rightarrow> (string \<rightharpoonup> string) \<Rightarrow> (string \<rightharpoonup> string) option" where
  "read_metrics [] metrics = Some metrics"
| "read_metrics (part # parts) metrics =
     (case Cut part '':'' of
        None \<Rightarrow> None
      | Some (k, v) \<Rightarrow>
          if k = '''' \<or> v = '''' \<or> metrics k \<noteq> None then None
          else read_metrics parts (metrics(k \<mapsto> v)))"

definition vector_rest :: "string \<Rightarrow> string option" where
  "vector_rest vector =
     (if HasPrefix vector ''CVSS:3.1/'' then Some (TrimPrefix vector ''CVSS:3.1/'')
      else if HasPrefix vector ''CVSS:3.0/'' then Some (TrimPrefix vector ''CVSS:3.0/'')
      else None)"

definition metrics_of :: "string \<Rightarrow> (string \<rightharpoonup> string) option" where
  "metrics_of vector =
     (case vector_rest vector of
        None \<Rightarrow> None
      | Some rest \<Rightarrow>
          (case read_metrics (Split rest CHR ''/'') Map.empty of
             None \<Rightarrow> None
           | Some metrics \<Rightarrow> if list_all (\<lambda>k. metrics k \<noteq> None) cvss3Base then Some metrics else None))"

definition scope_of :: "string \<Rightarrow> bool option" where
  "scope_of s = (if s = ''U'' then Some False else if s = ''C'' then Some True else None)"

text \<open>The score of a complete set of metrics; each lookup that fails ends the function.\<close>

definition metrics_score :: "(string \<rightharpoonup> string) \<Rightarrow> double option" where
  "metrics_score metrics =
     (let get = (\<lambda>k. the (metrics k))
      in case scope_of (get ''S'') of None \<Rightarrow> None | Some scopeChanged \<Rightarrow>
        (case cvss3AV (get ''AV'') of None \<Rightarrow> None | Some av \<Rightarrow>
        (case cvss3AC (get ''AC'') of None \<Rightarrow> None | Some ac \<Rightarrow>
        (case cvss3UI (get ''UI'') of None \<Rightarrow> None | Some ui \<Rightarrow>
        (case pr_weight scopeChanged (get ''PR'') of None \<Rightarrow> None | Some pr \<Rightarrow>
        (case cvss3CIA (get ''C'') of None \<Rightarrow> None | Some c \<Rightarrow>
        (case cvss3CIA (get ''I'') of None \<Rightarrow> None | Some i \<Rightarrow>
        (case cvss3CIA (get ''A'') of None \<Rightarrow> None | Some a \<Rightarrow>
          Some (base_score scopeChanged (cvss_impact scopeChanged (cvss_iss c i a)) av ac pr ui)))))))))"

definition cvss3BaseScore :: "string \<Rightarrow> double \<times> bool" where
  "cvss3BaseScore vector =
     (case metrics_of vector of
        None \<Rightarrow> (0, False)
      | Some metrics \<Rightarrow> (case metrics_score metrics of None \<Rightarrow> (0, False) | Some s \<Rightarrow> (s, True)))"

section \<open>Tiers\<close>

definition cvssStringToTier :: "string \<Rightarrow> string" where
  "cvssStringToTier s =
     (let u = ToUpper s
      in if u = ''CRITICAL'' then ''CRITICAL'' else if u = ''HIGH'' then ''HIGH''
         else if u = ''MEDIUM'' \<or> u = ''MODERATE'' then ''MEDIUM'' else if u = ''LOW'' then ''LOW'' else '''')"

definition cvssScoreToTier :: "double \<Rightarrow> string" where
  "cvssScoreToTier score =
     (if score \<le> 0 then '''' else if score \<ge> 9 then ''CRITICAL'' else if score \<ge> 7 then ''HIGH''
      else if score \<ge> 4 then ''MEDIUM'' else ''LOW'')"

definition parseCVSSScore :: "(string \<Rightarrow> double option) \<Rightarrow> string \<Rightarrow> double \<times> bool" where
  "parseCVSSScore parse_float s =
     (let s = TrimSpace s
      in case parse_float s of Some score \<Rightarrow> (score, True) | None \<Rightarrow> cvss3BaseScore s)"

end
