(* ===== verification/Cvss_Impact.thy ===== *)
theory Cvss_Impact
  imports Cvss
begin

text \<open>
  With a changed scope the impact of a CVSS vector is a difference of two rising terms; that it grows with
  each of the three metrics is read off its 27 values, evaluated in the arithmetic of the code.
\<close>

section \<open>The impact with a changed scope\<close>

lemma rnd_one [simp]: "rnd 1 = 1"
  using rnd_of_int [of 1] by simp

text \<open>The roundings that occur, then the values.\<close>

lemma cvss_roundings:
  "rnd (11 / 50) = 7926335344172073 / 36028797018963968"
  "rnd (14 / 25) = 1261007895663739 / 2251799813685248"
  "rnd (188 / 25) = 2116691824864133 / 281474976710656"
  "rnd (29 / 1000) = 8358680908399641 / 288230376151711744"
  "rnd (13 / 4) = 13 / 4"
  "rnd (1 / 50) = 5764607523034235 / 288230376151711744"
  "rnd (33230699894622898206100982035225 / 83076749736557242056487941267521536) = 7378697629483821 / 18446744073709551616"
  "rnd (54445178707350159372354900760041 / 340282366920938463463374607431768211456) = 3022314549036573 / 18889465931478580854784"
  "rnd (9134385233318143621002491584329 / 356811923176489970264571492362373784095686656) = 8112963841460669 / 316912650057057350374175801344"
  "rnd (28102461674791895 / 36028797018963968) = 3512807709348987 / 4503599627370496"
  "rnd (3512807709348987 / 4503599627370496) = 3512807709348987 / 4503599627370496"
  "rnd (990791918021509 / 4503599627370496) = 990791918021509 / 4503599627370496"
  "rnd (57646075230342341 / 288230376151711744) = 7205759403792793 / 36028797018963968"
  "rnd (51922968585348267638393678740849 / 1298074214633706907132624082305024) = 2882303761517117 / 72057594037927936"
  "rnd (8307674973655721669221483991689 / 5192296858534827628530496329220096) = 3689348814741909 / 2305843009213693952"
  "rnd (13611294676837528775042280964281 / 5316911983139663491615228241121378304) = 3022314549036571 / 1180591620717411303424"
  "rnd (20769187434139305614205590737781 / 2596148429267413814265248164610048) = 4611686018427387 / 576460752303423488"
  "rnd (17014118346046913735814462261783 / 1329227995784915872903807060280344576) = 1888946593147857 / 147573952589676412928"
  "rnd (5708990770823832585129503278347 / 174224571863520493293247799005065324265472) = 5070602400912911 / 154742504910672534362390528"
  "rnd (55052001844976935 / 288230376151711744) = 6881500230622117 / 36028797018963968"
  "rnd (14566015280958480926259589829561 / 10141204801825835211973625643008) = 3234305108392395 / 2251799813685248"
  "rnd (65917831211867843 / 618970019642690137449562112) = 1029966112685435 / 9671406556917033397649408"
  "rnd (13891234664801105547428485 / 9671406556917033397649408) = 6468610216305175 / 4503599627370496"
  "rnd (990791918021509 / 2251799813685248) = 990791918021509 / 2251799813685248"
  "rnd (1261007895663739 / 2251799813685248) = 1261007895663739 / 2251799813685248"
  "rnd (155644403121924357 / 288230376151711744) = 607985949695017 / 1125899906842624"
  "rnd (369646915026551742115314630289 / 1267650600228229401496703205376) = 5252998605364947 / 18014398509481984"
  "rnd (27593994347966078188931056312809 / 324518553658426726783156020576256) = 6127097573297675 / 72057594037927936"
  "rnd (37541324672710257869174160405625 / 5192296858534827628530496329220096) = 8335848605314279 / 1152921504606846976"
  "rnd (3193749345829407124834632369099 / 20282409603651670423947251286016) = 5673238493794143 / 36028797018963968"
  "rnd (34760485808065050405555110517525 / 2596148429267413814265248164610048) = 3859189169126981 / 288230376151711744"
  "rnd (32169616653111115749595563461699 / 332306998946228968225951765070086144) = 3571544910164883 / 36893488147419103232"
  "rnd (153050329736558951 / 288230376151711744) = 4782822804267467 / 9007199254740992"
  "rnd (10123761929566694726409867061111 / 2535301200456458802993406410752) = 8991706872022837 / 2251799813685248"
  "rnd (46430083832143479 / 147573952589676412928) = 5803760479017935 / 18446744073709551616"
  "rnd (73654258935132062769 / 18446744073709551616) = 70242175040371 / 17592186044416"
  "rnd (12339818002861677129003357926169 / 20282409603651670423947251286016) = 1369995006646105 / 2251799813685248"
  "rnd (881804807039143 / 2251799813685248) = 881804807039143 / 2251799813685248"
  "rnd (107106407777976069 / 288230376151711744) = 418384405382719 / 1125899906842624"
  "rnd (175045510667451347340863832961 / 1267650600228229401496703205376) = 4975092641286987 / 36028797018963968"
  "rnd (24751546789387928704607695538169 / 1298074214633706907132624082305024) = 2747973714066535 / 144115188075855872"
  "rnd (7551359533200626658126406906225 / 20769187434139310514121985316880384) = 838369322098201 / 2305843009213693952"
  "rnd (2081501176448796970818449377653 / 40564819207303340847894502572032) = 462186106375561 / 9007199254740992"
  "rnd (1270075271326800992591251951135 / 1298074214633706907132624082305024) = 564026723693623 / 576460752303423488"
  "rnd (472862701988292038527043472223 / 1329227995784915872903807060280344576) = 839972894774185 / 2361183241434822606848"
  "rnd (104512334392610663 / 288230376151711744) = 3266010449769083 / 9007199254740992"
  "rnd (6913137618947048082067699000039 / 2535301200456458802993406410752) = 1535024911391469 / 562949953421312"
  "rnd (10919647632064405 / 9444732965739290427392) = 2729911908016101 / 2361183241434822606848"
  "rnd (6438358396036975976475 / 2361183241434822606848) = 6140097042119003 / 2251799813685248"
  "rnd (3480461487986626342107453361383 / 10141204801825835211973625643008) = 772817696056777 / 2251799813685248"
  "rnd (1478982117628471 / 2251799813685248) = 1478982117628471 / 2251799813685248"
  "rnd (183545103533410053 / 288230376151711744) = 716973060677383 / 1125899906842624"
  "rnd (514050369737094325062807728689 / 1267650600228229401496703205376) = 913136890078715 / 2251799813685248"
  "rnd (833818980022627240598896051225 / 5070602400912917605986812821504) = 5924640191939739 / 36028797018963968"
  "rnd (35101361403947747378783407388121 / 1298074214633706907132624082305024) = 487129245329395 / 18014398509481984"
  "rnd (654694550897163340430090202845 / 2535301200456458802993406410752) = 2325942286408503 / 9007199254740992"
  "rnd (13780371154188028596231313200717 / 324518553658426726783156020576256) = 6119714137303957 / 144115188075855872"
  "rnd (2981091729336506147179701916015 / 2596148429267413814265248164610048) = 5295482682286423 / 4611686018427387904"
  "rnd (180951030148044647 / 288230376151711744) = 5654719692126395 / 9007199254740992"
  "rnd (11969298944222167362810738090535 / 2535301200456458802993406410752) = 5315436510598811 / 1125899906842624"
  "rnd (68841274869723499 / 18446744073709551616) = 8605159358715437 / 2305843009213693952"
  "rnd (10877408814347649491 / 2305843009213693952) = 165976086644709 / 35184372088832"
  "rnd (981668624816740610728986637081 / 5070602400912917605986812821504) = 6975175102871423 / 36028797018963968"
  "rnd (29053621916092545 / 36028797018963968) = 226981421219473 / 281474976710656"
  "rnd (226664367805706117 / 288230376151711744) = 1770815373482079 / 2251799813685248"
  "rnd (3135787086960474937633334162241 / 5070602400912917605986812821504) = 1392569209706307 / 2251799813685248"
  "rnd (1939249003822048442101195578249 / 5070602400912917605986812821504) = 1722399115619709 / 4503599627370496"
  "rnd (2966658713487555691699109244681 / 20282409603651670423947251286016) = 329365280991873 / 2251799813685248"
  "rnd (2465982965185717622703517772253 / 5070602400912917605986812821504) = 4380465706052159 / 9007199254740992"
  "rnd (7544910258106702827671162401731 / 40564819207303340847894502572032) = 6701226469824475 / 36028797018963968"
  "rnd (2207151339223915361532211491675 / 81129638414606681695789005144064) = 7841376754043649 / 288230376151711744"
  "rnd (224070294420340711 / 288230376151711744) = 7002196700635647 / 9007199254740992"
  "rnd (14821492512326078849360511549051 / 2535301200456458802993406410752) = 1645516224649377 / 281474976710656"
  "rnd (101937897802567437 / 1152921504606846976) = 6371118612660465 / 72057594037927936"
  "rnd (414881034897580047 / 72057594037927936) = 50644657580271 / 8796093022208"
  "rnd (1369995006646105 / 2251799813685248) = 1369995006646105 / 2251799813685248"
  "rnd (4812529021116054326207849245635 / 10141204801825835211973625643008) = 8548768841471695 / 18014398509481984"
  "rnd (9465629668010289 / 18014398509481984) = 591601854250643 / 1125899906842624"
  "rnd (145685467165130373 / 288230376151711744) = 1138167712227581 / 2251799813685248"
  "rnd (1295425741157365636181137111561 / 5070602400912917605986812821504) = 2301138375240025 / 9007199254740992"
  "rnd (5295237822002302101976362000625 / 81129638414606681695789005144064) = 2351557980341169 / 36028797018963968"
  "rnd (5529824934906237769073636286561 / 1298074214633706907132624082305024) = 2455735585951685 / 576460752303423488"
  "rnd (2619081400066032077648300129525 / 20282409603651670423947251286016) = 18173527960755 / 140737488355328"
  "rnd (42736104707066791435742822595 / 5070602400912917605986812821504) = 4858532600686293 / 576460752303423488"
  "rnd (11931271403011717739920539753705 / 332306998946228968225951765070086144) = 2649274444935061 / 73786976294838206464"
  "rnd (143091393779764967 / 288230376151711744) = 4471606055617655 / 9007199254740992"
  "rnd (9465011981938841964211771068115 / 2535301200456458802993406410752) = 8406619384561191 / 2251799813685248"
  "rnd (34440567784155793 / 295147905179352825856) = 2152535486509737 / 18446744073709551616"
  "rnd (68864873462838766935 / 18446744073709551616) = 8406356623881685 / 2251799813685248"
  "rnd (1357379980314784342777341072445 / 5070602400912917605986812821504) = 4822382423394289 / 18014398509481984"
  "rnd (13192016086087695 / 18014398509481984) = 824501005380481 / 1125899906842624"
  "rnd (205307649854368901 / 288230376151711744) = 1603966014487257 / 2251799813685248"
  "rnd (2572706975630135532404615384049 / 5070602400912917605986812821504) = 4570045631933325 / 9007199254740992"
  "rnd (20885317077952863838977245555625 / 81129638414606681695789005144064) = 4637471979308053 / 18014398509481984"
  "rnd (21506146358867350752188670650809 / 324518553658426726783156020576256) = 4775323771714601 / 72057594037927936"
  "rnd (7330197878276993138495486139525 / 20282409603651670423947251286016) = 6510523567617271 / 18014398509481984"
  "rnd (30192370615449792375524512183363 / 324518553658426726783156020576256) = 3352026502528837 / 36028797018963968"
  "rnd (16007011840943308429817936449037 / 2596148429267413814265248164610048) = 3554270620252555 / 576460752303423488"
  "rnd (202713576469003495 / 288230376151711744) = 6334799264656359 / 9007199254740992"
  "rnd (13408817815653436357874109471747 / 2535301200456458802993406410752) = 5954711308776977 / 1125899906842624"
  "rnd (46205518063283215 / 2305843009213693952) = 2887844878955201 / 144115188075855872"
  "rnd (759315202644497855 / 144115188075855872) = 5932150020660139 / 1125899906842624"
  "rnd (772817696056777 / 2251799813685248) = 772817696056777 / 2251799813685248"
  "rnd (2714759960629568476587659434899 / 10141204801825835211973625643008) = 4822382423394289 / 18014398509481984"
  "rnd (765701527357057656552771216493 / 5070602400912917605986812821504) = 5440636580239709 / 36028797018963968"
  "rnd (30588160438724259 / 36028797018963968) = 7647040109681065 / 9007199254740992"
  "rnd (238940675986759845 / 288230376151711744) = 7466896124586245 / 9007199254740992"
  "rnd (55754537735361084412772443200025 / 81129638414606681695789005144064) = 6189997152113001 / 9007199254740992"
  "rnd (38316064743167062840359073226001 / 81129638414606681695789005144064) = 2126968864544613 / 4503599627370496"
  "rnd (4523996550742200284155867319769 / 20282409603651670423947251286016) = 4018116107167025 / 18014398509481984"
  "rnd (46220065746312460457348610271245 / 81129638414606681695789005144064) = 5131458119124461 / 9007199254740992"
  "rnd (10914451649092390288413034078593 / 40564819207303340847894502572032) = 605873776099019 / 2251799813685248"
  "rnd (2434471178653575938251971648475 / 40564819207303340847894502572032) = 8648979057048137 / 144115188075855872"
  "rnd (236346602601394439 / 288230376151711744) = 923228916411697 / 1125899906842624"
  "rnd (1954191099846811031090916963701 / 316912650057057350374175801344) = 6942681451415961 / 1125899906842624"
  "rnd (112436727741625781 / 576460752303423488) = 7027295483851611 / 36028797018963968"
  "rnd (215138510961459141 / 36028797018963968) = 3361539233772799 / 562949953421312"
  "rnd (6975175102871423 / 36028797018963968) = 6975175102871423 / 36028797018963968"
  "rnd (24502448875425848183825696298501 / 162259276829213363391578010288128) = 2720318290119855 / 18014398509481984"
  "rnd (15294080219362129 / 18014398509481984) = 955880013710133 / 1125899906842624"
  "rnd (238940675986759813 / 288230376151711744) = 1866724031146561 / 2251799813685248"
  "rnd (3484658608460066842436262126721 / 5070602400912917605986812821504) = 6189997152112999 / 9007199254740992"
  "rnd (38316064743167038080370464774001 / 81129638414606681695789005144064) = 4253937729089223 / 9007199254740992"
  "rnd (18095986202968775612997094743729 / 81129638414606681695789005144064) = 4018116107167019 / 18014398509481984"
  "rnd (11555016436578109833389802246439 / 20282409603651670423947251286016) = 5131458119124459 / 9007199254740992"
  "rnd (21828903298184756674576252605357 / 81129638414606681695789005144064) = 4846990208792147 / 18014398509481984"
  "rnd (19475769429228558333493984599793 / 324518553658426726783156020576256) = 8648979057048115 / 144115188075855872"
  "rnd (236346602601394407 / 288230376151711744) = 7385831331293575 / 9007199254740992"
  "rnd (15633528798774486132035510845475 / 2535301200456458802993406410752) = 867835181426995 / 140737488355328"
  "rnd (112436727741625495 / 576460752303423488) = 7027295483851593 / 36028797018963968"
  "rnd (215138510961459127 / 36028797018963968) = 3361539233772799 / 562949953421312"
  "rnd (6910947118709853542846975437307 / 81129638414606681695789005144064) = 6138154090526851 / 72057594037927936"
  "rnd (65919439947401085 / 72057594037927936) = 514995624589071 / 562949953421312"
  "rnd (257913152266570117 / 288230376151711744) = 2014946502082579 / 2251799813685248"
  "rnd (4060009406254820538384135291241 / 5070602400912917605986812821504) = 1803006369207525 / 2251799813685248"
  "rnd (3250831967402901954496516625625 / 5070602400912917605986812821504) = 5774637599037117 / 9007199254740992"
  "rnd (33346439400213159248525543671689 / 81129638414606681695789005144064) = 7404396962276829 / 18014398509481984"
  "rnd (3632961376867313473790338206975 / 5070602400912917605986812821504) = 6453435789075203 / 9007199254740992"
  "rnd (37266252950565432858540701309751 / 81129638414606681695789005144064) = 1034346301680573 / 2251799813685248"
  "rnd (7658710614105907267967157343017 / 40564819207303340847894502572032) = 850287686272145 / 4503599627370496"
  "rnd (255319078881204711 / 288230376151711744) = 7978721215037647 / 9007199254740992"
  "rnd (16888493968740209556812255015051 / 2535301200456458802993406410752) = 1874999485533847 / 281474976710656"
  "rnd (11053739921537885 / 18014398509481984) = 2763434980384471 / 4503599627370496"
  "rnd (27236556788157081 / 4503599627370496) = 3404569598519635 / 562949953421312"
  "rnd (5764607523034235 / 288230376151711744) = 5764607523034235 / 288230376151711744"
  "rnd (42535295865117310856730761611935 / 5316911983139663491615228241121378304) = 2361183241434823 / 295147905179352825856"
  "rnd (7136238463529800742828822781579 / 5575186299632655785383929568162090376495104) = 1584563250285287 / 1237940039285380274899124224"
  "rnd (12855504354071925533253039877003 / 392318858461667547739736838950479151006397215279002157056) = 5708990770823841 / 174224571863520493293247799005065324265472"
  "rnd (8358680908399641 / 288230376151711744) = 8358680908399641 / 288230376151711744"
  "rnd (17692751545457425038653290976253 / 81129638414606681695789005144064) = 3928580026947831 / 18014398509481984"
  "rnd (74216880020709933 / 696898287454081973172991196020261297061888) = 4638555001294371 / 43556142965880123323311949751266331066368"
  "rnd (9498723657999137123357397436908009714141 / 43556142965880123323311949751266331066368) = 3928580026947831 / 18014398509481984"
  by (simp_all add: double_eval)
lemma changed_impacts:
  "cvss_impact True (cvss_iss 0 0 0) = - (3928580026947831 / 18014398509481984)"
  "cvss_impact True (cvss_iss 0 0 (rnd (22 / 100))) = 6468610216305175 / 4503599627370496"
  "cvss_impact True (cvss_iss 0 0 (rnd (56 / 100))) = 70242175040371 / 17592186044416"
  "cvss_impact True (cvss_iss 0 (rnd (22 / 100)) 0) = 6468610216305175 / 4503599627370496"
  "cvss_impact True (cvss_iss 0 (rnd (22 / 100)) (rnd (22 / 100))) = 6140097042119003 / 2251799813685248"
  "cvss_impact True (cvss_iss 0 (rnd (22 / 100)) (rnd (56 / 100))) = 165976086644709 / 35184372088832"
  "cvss_impact True (cvss_iss 0 (rnd (56 / 100)) 0) = 70242175040371 / 17592186044416"
  "cvss_impact True (cvss_iss 0 (rnd (56 / 100)) (rnd (22 / 100))) = 165976086644709 / 35184372088832"
  "cvss_impact True (cvss_iss 0 (rnd (56 / 100)) (rnd (56 / 100))) = 50644657580271 / 8796093022208"
  "cvss_impact True (cvss_iss (rnd (22 / 100)) 0 0) = 6468610216305175 / 4503599627370496"
  "cvss_impact True (cvss_iss (rnd (22 / 100)) 0 (rnd (22 / 100))) = 6140097042119003 / 2251799813685248"
  "cvss_impact True (cvss_iss (rnd (22 / 100)) 0 (rnd (56 / 100))) = 165976086644709 / 35184372088832"
  "cvss_impact True (cvss_iss (rnd (22 / 100)) (rnd (22 / 100)) 0) = 6140097042119003 / 2251799813685248"
  "cvss_impact True (cvss_iss (rnd (22 / 100)) (rnd (22 / 100)) (rnd (22 / 100))) = 8406356623881685 / 2251799813685248"
  "cvss_impact True (cvss_iss (rnd (22 / 100)) (rnd (22 / 100)) (rnd (56 / 100))) = 5932150020660139 / 1125899906842624"
  "cvss_impact True (cvss_iss (rnd (22 / 100)) (rnd (56 / 100)) 0) = 165976086644709 / 35184372088832"
  "cvss_impact True (cvss_iss (rnd (22 / 100)) (rnd (56 / 100)) (rnd (22 / 100))) = 5932150020660139 / 1125899906842624"
  "cvss_impact True (cvss_iss (rnd (22 / 100)) (rnd (56 / 100)) (rnd (56 / 100))) = 3361539233772799 / 562949953421312"
  "cvss_impact True (cvss_iss (rnd (56 / 100)) 0 0) = 70242175040371 / 17592186044416"
  "cvss_impact True (cvss_iss (rnd (56 / 100)) 0 (rnd (22 / 100))) = 165976086644709 / 35184372088832"
  "cvss_impact True (cvss_iss (rnd (56 / 100)) 0 (rnd (56 / 100))) = 50644657580271 / 8796093022208"
  "cvss_impact True (cvss_iss (rnd (56 / 100)) (rnd (22 / 100)) 0) = 165976086644709 / 35184372088832"
  "cvss_impact True (cvss_iss (rnd (56 / 100)) (rnd (22 / 100)) (rnd (22 / 100))) = 5932150020660139 / 1125899906842624"
  "cvss_impact True (cvss_iss (rnd (56 / 100)) (rnd (22 / 100)) (rnd (56 / 100))) = 3361539233772799 / 562949953421312"
  "cvss_impact True (cvss_iss (rnd (56 / 100)) (rnd (56 / 100)) 0) = 50644657580271 / 8796093022208"
  "cvss_impact True (cvss_iss (rnd (56 / 100)) (rnd (56 / 100)) (rnd (22 / 100))) = 3361539233772799 / 562949953421312"
  "cvss_impact True (cvss_iss (rnd (56 / 100)) (rnd (56 / 100)) (rnd (56 / 100))) = 3404569598519635 / 562949953421312"
  by (simp_all add: cvss_impact_def cvss_iss_def pow15_def dsub_def dmul_def Let_def rnd_minus rnd_one cvss_roundings)

end
