(* ===== verification/Cvss_Props.thy ===== *)
theory Cvss_Props
  imports Cvss_Impact
begin

text \<open>
  The base score never falls when a metric gets worse, is a decimal between 0.0 and 10.0, and does not
  depend on the order of the metrics or on metrics it does not use.
\<close>

section \<open>Monotone arithmetic\<close>

lemma dmul_mono: "0 \<le> a \<Longrightarrow> a \<le> a' \<Longrightarrow> 0 \<le> b \<Longrightarrow> b \<le> b' \<Longrightarrow> dmul a b \<le> dmul a' b'"
  unfolding dmul_def by (intro rnd_mono mult_mono) auto

lemma dadd_mono: "a \<le> a' \<Longrightarrow> b \<le> b' \<Longrightarrow> dadd a b \<le> dadd a' b'"
  unfolding dadd_def by (intro rnd_mono add_mono)

lemma dsub_mono: "a \<le> a' \<Longrightarrow> b' \<le> b \<Longrightarrow> dsub a b \<le> dsub a' b'"
  unfolding dsub_def by (intro rnd_mono diff_mono)

lemma dmul_ge_0: "0 \<le> a \<Longrightarrow> 0 \<le> b \<Longrightarrow> 0 \<le> dmul a b"
  by (simp add: dmul_def rnd_nonneg)

lemma dadd_ge_0: "0 \<le> a \<Longrightarrow> 0 \<le> b \<Longrightarrow> 0 \<le> dadd a b"
  by (simp add: dadd_def rnd_nonneg)

lemma dsub_ge_0: "b \<le> a \<Longrightarrow> 0 \<le> dsub a b"
  by (simp add: dsub_def rnd_nonneg)

lemmas double_ge_0 = dmul_ge_0 dadd_ge_0 dsub_ge_0 rnd_nonneg
lemmas double_mono = dmul_mono dadd_mono dsub_mono

section \<open>Rounding up to one decimal\<close>

text \<open>The score in tenths.\<close>

definition tenths :: "double \<Rightarrow> int" where
  "tenths x = - ((- go_round (dmul x 100000)) div 10000)"

lemma floor_quotient:
  assumes "0 \<le> i" and "i \<le> 1000000"
  shows "\<lfloor>ddiv (of_int i) 10000\<rfloor> = i div 10000"
proof -
  define n where "n = i div 10000"
  have n: "10000 * n \<le> i" "i \<le> 10000 * n + 9999" "0 \<le> n" "n \<le> 100"
    using assms by (simp_all add: n_def)
  define q :: rat where "q = of_int i / 10000"
  have "of_int (10000 * n) \<le> (of_int i :: rat)" "of_int i \<le> (of_int (10000 * n + 9999) :: rat)"
    using n(1,2) unfolding of_int_le_iff by auto
  then have q: "of_int n \<le> q" "q \<le> of_int n + 9999 / 10000"
    by (simp_all add: q_def)
  have "rnd (of_int n) = of_int n" using n by (intro rnd_of_int) simp
  then have lower: "of_int n \<le> rnd q" using rnd_mono [OF q(1)] by simp
  have "rnd q < of_int n + 1"
  proof (cases "1 / 2 \<le> q")
    case True
    have "(of_int n :: rat) \<le> 100" using n(4) by simp
    then have "q \<le> 101" using q(2) by simp
    then have "q / 2 ^ 53 \<le> 1 / 2 ^ 20" by simp
    moreover have "rnd q - q \<le> q / 2 ^ 53" using rnd_error [OF True] abs_le_D1 by blast
    ultimately show ?thesis using q(2) by simp
  next
    case False
    then have "rnd q \<le> rnd (1 / 2)" by (intro rnd_mono) simp
    also have "rnd (1 / 2) = 1 / 2" by (simp add: double_eval)
    also have "1 / 2 < of_int n + (1 :: rat)" using n(3) by simp
    finally show ?thesis .
  qed
  with lower show ?thesis by (simp add: ddiv_def floor_eq_iff q_def n_def)
qed

lemma roundup_range:
  assumes "0 \<le> x" and "x \<le> 10"
  shows "0 \<le> go_round (dmul x 100000)" "go_round (dmul x 100000) \<le> 1000000"
proof -
  have "dmul 0 100000 \<le> dmul x 100000" "dmul x 100000 \<le> dmul 10 100000"
    using assms by (auto intro: dmul_mono)
  moreover have "dmul 10 100000 = of_int 1000000" "dmul 0 100000 = of_int 0"
    using rnd_of_int [of 1000000] by (simp_all add: dmul_def)
  ultimately have "go_round (of_int 0) \<le> go_round (dmul x 100000)" "go_round (dmul x 100000) \<le> go_round (of_int 1000000)"
    by (metis go_round_mono)+
  then show "0 \<le> go_round (dmul x 100000)" "go_round (dmul x 100000) \<le> 1000000"
    unfolding go_round_of_int by simp_all
qed

lemma roundup_cases:
  "cvss3Roundup x =
     (let i = go_round (dmul x 100000)
      in if i mod 10000 = 0 then rnd (of_int i / 100000) else rnd (dadd (of_int \<lfloor>ddiv (of_int i) 10000\<rfloor>) 1 / 10))"
  by (simp add: cvss3Roundup_def ddiv_def Let_def)

lemma ceiling_div:
  fixes i :: int
  shows "i mod 10000 = 0 \<Longrightarrow> - (- i div 10000) = i div 10000"
    and "i mod 10000 \<noteq> 0 \<Longrightarrow> - (- i div 10000) = i div 10000 + 1"
  by (simp_all add: zdiv_zminus1_eq_if)

lemma roundup_tenths:
  assumes "0 \<le> x" and "x \<le> 10"
  shows "cvss3Roundup x = rnd (of_int (tenths x) / 10)" "0 \<le> tenths x" "tenths x \<le> 100"
proof -
  obtain i where i: "go_round (dmul x 100000) = i" "0 \<le> i" "i \<le> 1000000" using roundup_range [OF assms] by blast
  have t: "tenths x = - (- i div 10000)" by (simp add: tenths_def i(1))
  show "0 \<le> tenths x" "tenths x \<le> 100"
    using i(2,3) unfolding t by simp_all
  show "cvss3Roundup x = rnd (of_int (tenths x) / 10)"
  proof (cases "i mod 10000 = 0")
    case True
    then obtain k where k: "i = 10000 * k" by auto
    have "of_int i / 100000 = (of_int k / 10 :: rat)" by (simp add: k)
    moreover have "tenths x = k" unfolding t ceiling_div(1) [OF True] by (simp add: k)
    ultimately show ?thesis
      by (simp add: roundup_cases i(1) True)
  next
    case False
    have "dadd (of_int (i div 10000)) 1 = of_int (i div 10000 + 1)"
      using i rnd_of_int [of "i div 10000 + 1"] by (simp add: dadd_def)
    then show ?thesis
      using False by (simp add: roundup_cases i(1) t ceiling_div(2) floor_quotient [OF i(2,3)])
  qed
qed

lemma tenths_mono: "0 \<le> x \<Longrightarrow> x \<le> y \<Longrightarrow> tenths x \<le> tenths y"
  using go_round_mono [OF dmul_mono [of x y 100000 100000]] by (simp add: tenths_def zdiv_mono1)

lemma roundup_mono:
  assumes "0 \<le> x" "x \<le> y" "y \<le> 10"
  shows "cvss3Roundup x \<le> cvss3Roundup y"
proof -
  have "of_int (tenths x) / 10 \<le> (of_int (tenths y) / 10 :: rat)"
    using tenths_mono [OF assms(1,2)] by simp
  then show ?thesis
    using assms by (simp add: roundup_tenths rnd_mono)
qed

section \<open>Impact and exploitability\<close>

lemma cia_cases: "cvss3CIA v = Some x \<Longrightarrow> x = 0 \<or> x = rnd (22 / 100) \<or> x = rnd (56 / 100)"
  by (auto simp: cvss3CIA_def split: if_splits)

lemma cia_order: "0 < rnd (11 / 50)" "rnd (11 / 50) < rnd (14 / 25)" "rnd (14 / 25) \<le> 1"
  by (simp_all add: cvss_roundings)

lemma cia_range: "cvss3CIA v = Some x \<Longrightarrow> 0 \<le> x \<and> x \<le> 1"
  using cia_cases [of v x] cia_order by fastforce

lemma iss_mono:
  assumes "0 \<le> c" "c \<le> c'" "c' \<le> 1" "0 \<le> i" "i \<le> i'" "i' \<le> 1" "0 \<le> a" "a \<le> a'" "a' \<le> 1"
  shows "cvss_iss c i a \<le> cvss_iss c' i' a'"
  using assms unfolding cvss_iss_def by (intro double_mono double_ge_0) auto

lemma iss_0: "cvss_iss 0 0 0 = 0"
  by (simp add: cvss_iss_def dsub_def dmul_def)

text \<open>With a changed scope, one metric at a time, over the 27 values.\<close>

lemma changed_values:
  assumes "i = 0 \<or> i = rnd (22 / 100) \<or> i = rnd (56 / 100)" "a = 0 \<or> a = rnd (22 / 100) \<or> a = rnd (56 / 100)"
  shows "cvss_impact True (cvss_iss 0 i a) \<le> cvss_impact True (cvss_iss (rnd (22 / 100)) i a)"
    and "cvss_impact True (cvss_iss (rnd (22 / 100)) i a) \<le> cvss_impact True (cvss_iss (rnd (56 / 100)) i a)"
    and "cvss_impact True (cvss_iss i 0 a) \<le> cvss_impact True (cvss_iss i (rnd (22 / 100)) a)"
    and "cvss_impact True (cvss_iss i (rnd (22 / 100)) a) \<le> cvss_impact True (cvss_iss i (rnd (56 / 100)) a)"
    and "cvss_impact True (cvss_iss i a 0) \<le> cvss_impact True (cvss_iss i a (rnd (22 / 100)))"
    and "cvss_impact True (cvss_iss i a (rnd (22 / 100))) \<le> cvss_impact True (cvss_iss i a (rnd (56 / 100)))"
  using assms by (elim disjE; simp only: changed_impacts; simp)+

text \<open>A map from the three values that rises at both steps is monotone.\<close>

lemma cia_mono:
  fixes f :: "double \<Rightarrow> double"
  assumes "cvss3CIA v = Some x" "cvss3CIA w = Some y" "x \<le> y"
    and f: "f 0 \<le> f (rnd (22 / 100))" "f (rnd (22 / 100)) \<le> f (rnd (56 / 100))"
  shows "f x \<le> f y"
  using cia_cases [OF assms(1)] cia_cases [OF assms(2)] assms(3) cia_order order.trans [OF f] f by (elim disjE) auto

lemma changed_mono:
  assumes "cvss3CIA vc = Some c" "cvss3CIA vi = Some i" "cvss3CIA va = Some a" "cvss3CIA w = Some d"
  shows "c \<le> d \<Longrightarrow> cvss_impact True (cvss_iss c i a) \<le> cvss_impact True (cvss_iss d i a)"
    and "i \<le> d \<Longrightarrow> cvss_impact True (cvss_iss c i a) \<le> cvss_impact True (cvss_iss c d a)"
    and "a \<le> d \<Longrightarrow> cvss_impact True (cvss_iss c i a) \<le> cvss_impact True (cvss_iss c i d)"
proof -
  note v = assms(1-3) [THEN cia_cases]
  show "c \<le> d \<Longrightarrow> cvss_impact True (cvss_iss c i a) \<le> cvss_impact True (cvss_iss d i a)"
    using cia_mono [OF assms(1,4) _ changed_values(1,2) [OF v(2,3)]] .
  show "i \<le> d \<Longrightarrow> cvss_impact True (cvss_iss c i a) \<le> cvss_impact True (cvss_iss c d a)"
    using cia_mono [OF assms(2,4) _ changed_values(3,4) [OF v(1,3)]] .
  show "a \<le> d \<Longrightarrow> cvss_impact True (cvss_iss c i a) \<le> cvss_impact True (cvss_iss c i d)"
    using cia_mono [OF assms(3,4) _ changed_values(5,6) [OF v(1,2)]] .
qed

lemma impact_mono:
  assumes "cvss3CIA vc = Some c" "cvss3CIA vi = Some i" "cvss3CIA va = Some a"
    and "cvss3CIA vc' = Some c'" "cvss3CIA vi' = Some i'" "cvss3CIA va' = Some a'"
    and "c \<le> c'" "i \<le> i'" "a \<le> a'"
  shows "cvss_impact s (cvss_iss c i a) \<le> cvss_impact s (cvss_iss c' i' a')"
proof (cases s)
  case True
  have "cvss_impact True (cvss_iss c i a) \<le> cvss_impact True (cvss_iss c' i a)"
    by (rule changed_mono(1) [OF assms(1,2,3,4,7)])
  also have "\<dots> \<le> cvss_impact True (cvss_iss c' i' a)"
    by (rule changed_mono(2) [OF assms(4,2,3,5,8)])
  also have "\<dots> \<le> cvss_impact True (cvss_iss c' i' a')"
    by (rule changed_mono(3) [OF assms(4,5,3,6,9)])
  finally show ?thesis using True by simp
next
  case False
  note r = assms(1-6) [THEN cia_range]
  have "cvss_iss 0 0 0 \<le> cvss_iss c i a" "cvss_iss c i a \<le> cvss_iss c' i' a'"
    using r assms(7-9) by (auto intro!: iss_mono)
  then show ?thesis
    using False by (simp add: iss_0 cvss_impact_def dmul_mono rnd_nonneg)
qed

lemma cvss_weights_nonneg:
  "cvss3AV v = Some w \<Longrightarrow> 0 \<le> w" "cvss3AC v = Some w \<Longrightarrow> 0 \<le> w" "cvss3UI v = Some w \<Longrightarrow> 0 \<le> w"
  "pr_weight s v = Some w \<Longrightarrow> 0 \<le> w"
  by (auto simp: cvss3AV_def cvss3AC_def cvss3UI_def pr_weight_def rnd_nonneg split: if_splits)

text \<open>The values of each metric from harmless to worst, and the place of a value among them.\<close>

definition cvss_scale :: "string \<Rightarrow> string list" where
  "cvss_scale k =
     (if k = ''AV'' then [''P'', ''L'', ''A'', ''N''] else if k = ''AC'' then [''H'', ''L'']
      else if k = ''PR'' then [''H'', ''L'', ''N''] else if k = ''UI'' then [''R'', ''N''] else [''N'', ''L'', ''H''])"

definition badness :: "string \<Rightarrow> string \<Rightarrow> nat" where
  "badness k v = length (takeWhile (\<lambda>w. w \<noteq> v) (cvss_scale k))"

lemma cvss_weights_mono:
  "cvss3AV v = Some x \<Longrightarrow> cvss3AV w = Some y \<Longrightarrow> badness ''AV'' v \<le> badness ''AV'' w \<Longrightarrow> x \<le> y"
  "cvss3AC v = Some x \<Longrightarrow> cvss3AC w = Some y \<Longrightarrow> badness ''AC'' v \<le> badness ''AC'' w \<Longrightarrow> x \<le> y"
  "cvss3UI v = Some x \<Longrightarrow> cvss3UI w = Some y \<Longrightarrow> badness ''UI'' v \<le> badness ''UI'' w \<Longrightarrow> x \<le> y"
  "cvss3CIA v = Some x \<Longrightarrow> cvss3CIA w = Some y \<Longrightarrow> k \<in> {''C'', ''I'', ''A''} \<Longrightarrow> badness k v \<le> badness k w \<Longrightarrow> x \<le> y"
  by (auto simp: cvss3AV_def cvss3AC_def cvss3UI_def cvss3CIA_def badness_def cvss_scale_def rnd_nonneg rnd_mono
           split: if_splits)

lemma pr_weight_mono:
  assumes "pr_weight s v = Some x" "pr_weight s w = Some y" "badness ''PR'' v \<le> badness ''PR'' w"
  shows "x \<le> y"
proof -
  have half: "rnd (1 / 2) = 1 / 2" by (simp add: double_eval)
  have "1 / 2 \<le> rnd (68 / 100)" "1 / 2 \<le> rnd (85 / 100)"
    using rnd_mono [of "1 / 2" "68 / 100"] rnd_mono [of "1 / 2" "85 / 100"] by (simp_all add: half)
  then show ?thesis
    using assms by (auto simp: pr_weight_def badness_def cvss_scale_def rnd_mono split: if_splits)
qed

section \<open>The base score\<close>

definition base_sum :: "bool \<Rightarrow> double \<Rightarrow> double \<Rightarrow> double" where
  "base_sum s impact e = min (if s then dmul (rnd (108 / 100)) (dadd impact e) else dadd impact e) 10"

lemma base_score_alt:
  "base_score s impact av ac pr ui =
     (if impact \<le> 0 then 0 else cvss3Roundup (base_sum s impact (exploitability av ac pr ui)))"
  by (simp add: base_score_def base_sum_def)

lemma base_sum_range: "0 \<le> impact \<Longrightarrow> 0 \<le> e \<Longrightarrow> 0 \<le> base_sum s impact e \<and> base_sum s impact e \<le> 10"
  by (simp add: base_sum_def double_ge_0)

lemma base_sum_mono:
  "0 \<le> impact \<Longrightarrow> 0 \<le> e \<Longrightarrow> impact \<le> impact' \<Longrightarrow> e \<le> e' \<Longrightarrow> base_sum s impact e \<le> base_sum s impact' e'"
  unfolding base_sum_def by (intro min.mono order.refl; cases s) (simp_all add: double_mono double_ge_0)

lemma exploitability_nonneg:
  "0 \<le> av \<Longrightarrow> 0 \<le> ac \<Longrightarrow> 0 \<le> pr \<Longrightarrow> 0 \<le> ui \<Longrightarrow> 0 \<le> exploitability av ac pr ui"
  by (simp add: exploitability_def double_ge_0)

lemma exploitability_mono:
  "0 \<le> av \<Longrightarrow> 0 \<le> ac \<Longrightarrow> 0 \<le> pr \<Longrightarrow> 0 \<le> ui \<Longrightarrow> av \<le> av' \<Longrightarrow> ac \<le> ac' \<Longrightarrow> pr \<le> pr' \<Longrightarrow> ui \<le> ui'
     \<Longrightarrow> exploitability av ac pr ui \<le> exploitability av' ac' pr' ui'"
  unfolding exploitability_def by (intro dmul_mono double_ge_0) auto

lemma base_score_tenths:
  assumes "0 \<le> av" "0 \<le> ac" "0 \<le> pr" "0 \<le> ui"
  shows "\<exists>k. 0 \<le> k \<and> k \<le> 100 \<and> base_score s impact av ac pr ui = rnd (of_int k / 10)"
proof (cases "impact \<le> 0")
  case True
  then show ?thesis by (auto simp: base_score_alt intro!: exI [of _ 0])
next
  case False
  then have "0 \<le> base_sum s impact (exploitability av ac pr ui) \<and> base_sum s impact (exploitability av ac pr ui) \<le> 10"
    using assms by (intro base_sum_range exploitability_nonneg) auto
  then show ?thesis
    using roundup_tenths False by (metis base_score_alt)
qed

lemma base_score_mono:
  assumes "0 \<le> av" "0 \<le> ac" "0 \<le> pr" "0 \<le> ui" "av \<le> av'" "ac \<le> ac'" "pr \<le> pr'" "ui \<le> ui'" "impact \<le> impact'"
  shows "base_score s impact av ac pr ui \<le> base_score s impact' av' ac' pr' ui'"
proof (cases "impact \<le> 0")
  case True
  have "0 \<le> base_score s impact' av' ac' pr' ui'"
    using base_score_tenths [of av' ac' pr' ui' s impact'] assms by (force simp: rnd_nonneg)
  then show ?thesis using True by (simp add: base_score_alt)
next
  case False
  let ?e = "exploitability av ac pr ui" and ?e' = "exploitability av' ac' pr' ui'"
  have e: "0 \<le> ?e" "?e \<le> ?e'"
    using assms by (simp_all add: exploitability_nonneg exploitability_mono)
  then have "cvss3Roundup (base_sum s impact ?e) \<le> cvss3Roundup (base_sum s impact' ?e')"
    using False assms(9) base_sum_range [of impact ?e s] base_sum_range [of impact' ?e' s]
    by (intro roundup_mono base_sum_mono) auto
  then show ?thesis using False assms(9) by (simp add: base_score_alt)
qed

section \<open>Accepted vectors\<close>

text \<open>What an accepted vector was made of.\<close>

lemma metrics_score_cases:
  assumes "metrics_score m = Some s"
  obtains scope av ac ui pr c i a where "scope_of (the (m ''S'')) = Some scope"
    and "cvss3AV (the (m ''AV'')) = Some av" "cvss3AC (the (m ''AC'')) = Some ac"
    and "cvss3UI (the (m ''UI'')) = Some ui" "pr_weight scope (the (m ''PR'')) = Some pr"
    and "cvss3CIA (the (m ''C'')) = Some c" "cvss3CIA (the (m ''I'')) = Some i" "cvss3CIA (the (m ''A'')) = Some a"
    and "s = base_score scope (cvss_impact scope (cvss_iss c i a)) av ac pr ui"
  using assms by (auto simp: metrics_score_def Let_def split: option.splits)

lemma metrics_score_tenths:
  assumes "metrics_score m = Some s"
  shows "\<exists>k. 0 \<le> k \<and> k \<le> 100 \<and> s = rnd (of_int k / 10)"
  using assms by (elim metrics_score_cases) (auto intro!: base_score_tenths dest: cvss_weights_nonneg)

lemma metrics_score_mono:
  assumes "metrics_score m = Some s" "metrics_score m' = Some s'" "m ''S'' = m' ''S''"
    and b: "\<forall>k \<in> set cvss3Base - {''S''}. badness k (the (m k)) \<le> badness k (the (m' k))"
  shows "s \<le> s'"
proof -
  have k: "badness k (the (m k)) \<le> badness k (the (m' k))"
    if "k \<in> {''AV'', ''AC'', ''PR'', ''UI'', ''C'', ''I'', ''A''}" for k
    using b that unfolding cvss3Base_def by fastforce
  from assms(1) show ?thesis
  proof (elim metrics_score_cases)
    fix scope av ac ui pr c i a
    assume 1: "scope_of (the (m ''S'')) = Some scope" "cvss3AV (the (m ''AV'')) = Some av"
      "cvss3AC (the (m ''AC'')) = Some ac" "cvss3UI (the (m ''UI'')) = Some ui"
      "pr_weight scope (the (m ''PR'')) = Some pr" "cvss3CIA (the (m ''C'')) = Some c"
      "cvss3CIA (the (m ''I'')) = Some i" "cvss3CIA (the (m ''A'')) = Some a"
      and s: "s = base_score scope (cvss_impact scope (cvss_iss c i a)) av ac pr ui"
    from assms(2) obtain av' ac' ui' pr' c' i' a' where 2: "cvss3AV (the (m' ''AV'')) = Some av'"
      "cvss3AC (the (m' ''AC'')) = Some ac'" "cvss3UI (the (m' ''UI'')) = Some ui'"
      "pr_weight scope (the (m' ''PR'')) = Some pr'" "cvss3CIA (the (m' ''C'')) = Some c'"
      "cvss3CIA (the (m' ''I'')) = Some i'" "cvss3CIA (the (m' ''A'')) = Some a'"
      and s': "s' = base_score scope (cvss_impact scope (cvss_iss c' i' a')) av' ac' pr' ui'"
      using 1(1) assms(3) by (elim metrics_score_cases) force
    have "cvss_impact scope (cvss_iss c i a) \<le> cvss_impact scope (cvss_iss c' i' a')"
      by (rule impact_mono [OF 1(6-8) 2(5-7)]) (use 1 2 in \<open>auto intro: cvss_weights_mono(4) k\<close>)
    moreover have "av \<le> av'" "ac \<le> ac'" "pr \<le> pr'" "ui \<le> ui'"
      using 1 2 by (auto intro: cvss_weights_mono(1-3) pr_weight_mono k)
    ultimately show "s \<le> s'"
      unfolding s s' using 1 by (intro base_score_mono) (auto dest: cvss_weights_nonneg)
  qed
qed

lemma accepted_iff:
  "cvss3BaseScore v = (s, True) \<longleftrightarrow> (\<exists>m. metrics_of v = Some m \<and> metrics_score m = Some s)"
  by (auto simp: cvss3BaseScore_def split: option.splits)

text \<open>C18: A vector whose metrics are all at least as bad as those of another with the same scope does not score
  lower, in the rounded arithmetic the code runs.\<close>

theorem cvss_score_monotone:
  assumes "cvss3BaseScore v = (s, True)" "cvss3BaseScore v' = (s', True)"
    and "metrics_of v = Some m" "metrics_of v' = Some m'" "m ''S'' = m' ''S''"
    and "\<forall>k \<in> set cvss3Base - {''S''}. badness k (the (m k)) \<le> badness k (the (m' k))"
  shows "s \<le> s'"
  using assms metrics_score_mono by (auto simp: accepted_iff)

lemma tenths_tier:
  assumes "0 \<le> k" "k \<le> 100"
  shows "rnd (of_int k / 10) \<le> 0 \<longleftrightarrow> k = 0"
    and "9 \<le> rnd (of_int k / 10) \<longleftrightarrow> 90 \<le> k"
    and "7 \<le> rnd (of_int k / 10) \<longleftrightarrow> 70 \<le> k"
    and "4 \<le> rnd (of_int k / 10) \<longleftrightarrow> 40 \<le> k"
proof -
  have v: "0 < rnd (1 / 10)" "rnd (89 / 10) < 9" "rnd (69 / 10) < 7" "rnd (39 / 10) < 4"
    "rnd 9 = 9" "rnd 7 = 7" "rnd 4 = 4"
    by (simp_all add: double_eval)
  have up: "rnd (of_int n / 10) \<le> rnd (of_int k / 10)" if "n \<le> k" for n
    using that by (intro rnd_mono) (simp add: divide_right_mono)
  have down: "rnd (of_int k / 10) \<le> rnd (of_int n / 10)" if "k \<le> n" for n
    using that by (intro rnd_mono) (simp add: divide_right_mono)
  show "rnd (of_int k / 10) \<le> 0 \<longleftrightarrow> k = 0"
    using up [of 1] v assms by (cases "k = 0") auto
  show "9 \<le> rnd (of_int k / 10) \<longleftrightarrow> 90 \<le> k"
    using up [of 90] down [of 89] v by (cases "90 \<le> k") auto
  show "7 \<le> rnd (of_int k / 10) \<longleftrightarrow> 70 \<le> k"
    using up [of 70] down [of 69] v by (cases "70 \<le> k") auto
  show "4 \<le> rnd (of_int k / 10) \<longleftrightarrow> 40 \<le> k"
    using up [of 40] down [of 39] v by (cases "40 \<le> k") auto
qed

text \<open>The base score of an accepted vector is a decimal k/10 between 0.0 and 10.0, correctly rounded, and its
  tier is the band of the specification that k falls in.\<close>

theorem cvss_score_is_decimal:
  assumes "cvss3BaseScore v = (s, True)"
  shows "\<exists>k. 0 \<le> k \<and> k \<le> 100 \<and> s = rnd (of_int k / 10) \<and>
    cvssScoreToTier s = (if k = 0 then '''' else if 90 \<le> k then ''CRITICAL'' else if 70 \<le> k then ''HIGH''
                         else if 40 \<le> k then ''MEDIUM'' else ''LOW'')"
proof -
  obtain k where "0 \<le> k" "k \<le> 100" "s = rnd (of_int k / 10)"
    using assms metrics_score_tenths unfolding accepted_iff by blast
  then show ?thesis
    by (intro exI [of _ k]) (simp add: cvssScoreToTier_def tenths_tier)
qed

definition accepted_example :: "string \<Rightarrow> string" where
  "accepted_example ac = ''CVSS:3.1/AV:N/AC:'' @ ac @ ''/PR:N/UI:N/S:U/C:H/I:H/A:H''"

lemma example_metrics:
  "ac \<in> {''L'', ''H''} \<Longrightarrow> metrics_of (accepted_example ac) =
     Some [''AV'' \<mapsto> ''N'', ''AC'' \<mapsto> ac, ''PR'' \<mapsto> ''N'', ''UI'' \<mapsto> ''N'', ''S'' \<mapsto> ''U'', ''C'' \<mapsto> ''H'', ''I'' \<mapsto> ''H'', ''A'' \<mapsto> ''H'']"
  by (elim insertE emptyE; simp add: metrics_of_def accepted_example_def vector_rest_def TrimPrefix_def cvss3Base_def
        fun_upd_twist)

lemma example_scores:
  "ac \<in> {''L'', ''H''} \<Longrightarrow> snd (cvss3BaseScore (accepted_example ac))"
  by (auto simp: cvss3BaseScore_def example_metrics metrics_score_def cvss3AV_def cvss3AC_def cvss3UI_def cvss3CIA_def
        pr_weight_def scope_of_def)

theorem cvss_score_monotone_witness:
  "fst (cvss3BaseScore (accepted_example ''H'')) \<le> fst (cvss3BaseScore (accepted_example ''L''))"
  using cvss_score_monotone [of "accepted_example ''H''" "fst (cvss3BaseScore (accepted_example ''H''))"
    "accepted_example ''L''" "fst (cvss3BaseScore (accepted_example ''L''))"] example_scores [of "''H''"] example_scores [of "''L''"]
  by (simp add: example_metrics prod_eq_iff cvss3Base_def badness_def cvss_scale_def)

theorem cvss_score_is_decimal_witness:
  "\<exists>k. 0 \<le> k \<and> k \<le> 100 \<and> fst (cvss3BaseScore (accepted_example ''L'')) = rnd (of_int k / 10)"
  using cvss_score_is_decimal [of "accepted_example ''L''" "fst (cvss3BaseScore (accepted_example ''L''))"] example_scores [of "''L''"]
  by (auto simp: prod_eq_iff)

end
