(* ===== verification/Go_Number.thy ===== *)
theory Go_Number
  imports Prelude
begin

text \<open>
  Numbers of Go's standard library: 64-bit integers that wrap around, and \<open>strconv.Atoi\<close>.
\<close>

definition wrap64 :: "int \<Rightarrow> int" where
  "wrap64 n = (n + 2 ^ 63) mod 2 ^ 64 - 2 ^ 63"

lemma wrap64_id: "- (2 ^ 63) \<le> n \<Longrightarrow> n < 2 ^ 63 \<Longrightarrow> wrap64 n = n"
  by (simp add: wrap64_def)

lemma wrap64_range: "- (2 ^ 63) \<le> wrap64 n" "wrap64 n < 2 ^ 63"
  by (simp_all add: wrap64_def)

definition digit_of :: "char \<Rightarrow> int option" where
  "digit_of c = (let n = (of_char c :: int) in if 48 \<le> n \<and> n \<le> 57 then Some (n - 48) else None)"

fun read_digits :: "int \<Rightarrow> string \<Rightarrow> int option" where
  "read_digits acc [] = Some acc"
| "read_digits acc (c # s) = (case digit_of c of None \<Rightarrow> None | Some d \<Rightarrow> read_digits (10 * acc + d) s)"

text \<open>A number is an optional sign and at least one digit; it fails outside 64 bits.\<close>

definition Atoi :: "string \<Rightarrow> int option" where
  "Atoi s =
     (let neg = HasPrefix s ''-'';
          ds = (if neg \<or> HasPrefix s ''+'' then tl s else s)
      in if ds = [] then None
         else case read_digits 0 ds of
             None \<Rightarrow> None
           | Some n \<Rightarrow> (let m = (if neg then - n else n) in if - (2 ^ 63) \<le> m \<and> m < 2 ^ 63 then Some m else None))"

lemma read_digits_append: "read_digits acc (s @ t) = (case read_digits acc s of None \<Rightarrow> None | Some n \<Rightarrow> read_digits n t)"
  by (induction acc s rule: read_digits.induct) (auto split: option.splits)

end
