(* ===== verification/Nvd.thy ===== *)
theory Nvd
  imports Scanner_Data Cvss Go_Number
begin

text \<open>
  \<open>pkg/scanner/nvdfetch.go\<close>: the lookup of a CVE at NVD, paced over the whole process, with retries. The
  outside world (servers, clock, sleeping, cancellation) is a record of functions on a state \<open>'w\<close> of its
  own; reading the clock does not move it. JSON decoding is part of the answer: a body is a decoded record
  or the text of the decoding error.
\<close>

section \<open>The outside world\<close>

datatype 'a reply =
  Fails string
| Answers int "string \<Rightarrow> string" "string + 'a"

record nvd_metric =
  nm_Type :: string
  nm_BaseScore :: double
  nm_BaseSeverity :: string

record nvd_metrics =
  CVSSV31 :: "nvd_metric list"
  CVSSV30 :: "nvd_metric list"
  CVSSV40 :: "nvd_metric list"

record nvd_cve =
  nc_Published :: string
  nc_Metrics :: nvd_metrics

record nvd_response =
  nr_TotalResults :: int
  nr_Vulnerabilities :: "nvd_cve list"

record osv_response =
  o_Published :: string
  o_Modified :: string
  o_Severity :: "(string \<times> string) list"
  o_DatabaseSeverity :: "string option"

record ghsa_response =
  gh_CVSSScore :: "double option"
  gh_Severity :: string
  gh_PublishedAt :: string

text \<open>The key of \<open>get_nvd\<close> is the one sent with the request. A sleep answers whether it was not cut short.\<close>

record 'w env =
  now :: "'w \<Rightarrow> gotime"
  sleep :: "int \<Rightarrow> 'w \<Rightarrow> bool \<times> 'w"
  ctx_err :: "'w \<Rightarrow> string option"
  get_osv :: "string \<Rightarrow> 'w \<Rightarrow> osv_response reply \<times> 'w"
  get_nvd :: "string option \<Rightarrow> string \<Rightarrow> 'w \<Rightarrow> nvd_response reply \<times> 'w"
  get_ghsa :: "string \<Rightarrow> 'w \<Rightarrow> ghsa_response list reply \<times> 'w"
  parse_number :: "string \<Rightarrow> double option"
  parse_rfc3339 :: "string \<Rightarrow> gotime option"
  parse_nvd_date :: "string \<Rightarrow> gotime option"
  parse_http_date :: "string \<Rightarrow> gotime option"
  duration_text :: "int \<Rightarrow> string"

section \<open>The enricher\<close>

text \<open>What a lookup yields, and what the cache keeps.\<close>

record enrich_result =
  er_Severity :: string
  er_Source :: string
  er_RateLimited :: bool
  er_FailReason :: string
  er_SeverityAlias :: string
  er_PublishedAt :: "gotime option"
  er_ModifiedAt :: "gotime option"

definition no_result :: enrich_result where
  "no_result = \<lparr>er_Severity = '''', er_Source = '''', er_RateLimited = False, er_FailReason = '''',
     er_SeverityAlias = '''', er_PublishedAt = None, er_ModifiedAt = None\<rparr>"

record cache_entry =
  ce_Version :: int
  ce_FetchedAt :: gotime
  ce_Result :: "enrich_result option"

record alias_entry =
  ae_Version :: int
  ae_FetchedAt :: gotime
  ae_Severity :: string

record enrich_options =
  eo_NVDAPIKey :: string
  eo_budget :: int
  eo_fallback :: "string option"
  eo_writable :: bool

text \<open>
  The state: the world, the cache files that can be read and decoded (by ID), whether NVD rejected the key,
  the pacer's earliest next start, the deadline of the budget (zero: not set) and the requests sent, as the
  network log keeps them.
\<close>

record 'w enricher =
  en_world :: 'w
  en_cache :: "string \<rightharpoonup> cache_entry"
  en_aliases :: "string \<rightharpoonup> alias_entry"
  en_keyRejected :: bool
  en_next :: gotime
  en_deadline :: gotime
  en_sent :: "(string \<times> string) list"

definition second :: int where "second = 1000000000"
definition nvdSpacingKeyless :: int where "nvdSpacingKeyless = 6200000000"
definition nvdSpacingKeyed :: int where "nvdSpacingKeyed = 700000000"
definition nvdMaxRetries :: nat where "nvdMaxRetries = 3"
definition nvdBackoffBase :: int where "nvdBackoffBase = 5 * second"
definition nvdRetryAfterCap :: int where "nvdRetryAfterCap = 60 * second"

definition Add :: "gotime \<Rightarrow> int \<Rightarrow> gotime" where
  "Add t d = t\<lparr>t_ns := t_ns t + d\<rparr>"

section \<open>The pacer\<close>

text \<open>What happens under the lock: the earliest start, refused when it lies after the deadline, else reserved.\<close>

definition pacer_start :: "gotime \<Rightarrow> gotime \<Rightarrow> gotime" where
  "pacer_start t next = (if After next t then next else t)"

definition pacer_reserve :: "gotime \<Rightarrow> int \<Rightarrow> gotime \<Rightarrow> gotime \<Rightarrow> gotime option \<times> gotime" where
  "pacer_reserve t spacing deadline next =
     (let start = pacer_start t next
      in if \<not> IsZero deadline \<and> After start deadline then (None, next) else (Some start, Add start spacing))"

definition pacer_wait :: "'w env \<Rightarrow> int \<Rightarrow> gotime \<Rightarrow> 'w enricher \<Rightarrow> bool \<times> 'w enricher" where
  "pacer_wait E spacing deadline st =
     (let t = now E (en_world st)
      in case pacer_reserve t spacing deadline (en_next st) of
           (None, nxt) \<Rightarrow> (False, st\<lparr>en_next := nxt\<rparr>)
         | (Some start, nxt) \<Rightarrow>
             (let (ok, w) = sleep E (Sub start t) (en_world st) in (ok, st\<lparr>en_next := nxt, en_world := w\<rparr>)))"

definition delayUntil :: "gotime \<Rightarrow> gotime \<Rightarrow> gotime" where
  "delayUntil t next = (if After t next then t else next)"

definition enrichDeadline :: "'w env \<Rightarrow> enrich_options \<Rightarrow> 'w enricher \<Rightarrow> gotime \<times> 'w enricher" where
  "enrichDeadline E opts st =
     (let d = (if IsZero (en_deadline st) then Add (now E (en_world st)) (eo_budget opts) else en_deadline st)
      in (d, st\<lparr>en_deadline := d\<rparr>))"

text \<open>A delay in seconds is multiplied in 64 bits.\<close>

definition parseRetryAfter :: "'w env \<Rightarrow> string \<Rightarrow> gotime \<Rightarrow> int option" where
  "parseRetryAfter E h t =
     (let h = TrimSpace h
      in if h = '''' then None
         else case (case Atoi h of
                      Some secs \<Rightarrow> Some (wrap64 (secs * second))
                    | None \<Rightarrow> map_option (\<lambda>u. Sub u t) (parse_http_date E h)) of
             None \<Rightarrow> None
           | Some d \<Rightarrow> Some (min (if d < 0 then 0 else d) nvdRetryAfterCap))"

section \<open>The record\<close>

definition tier :: "nvd_metric \<Rightarrow> string" where
  "tier m = (if nm_BaseScore m > 0 then cvssScoreToTier (nm_BaseScore m) else cvssStringToTier (nm_BaseSeverity m))"

definition first_tier :: "bool \<Rightarrow> nvd_metric list \<Rightarrow> string option" where
  "first_tier wantPrimary ms =
     map_option tier (find (\<lambda>c. EqualFold (nm_Type c) ''Primary'' = wantPrimary \<and> tier c \<noteq> '''') ms)"

definition pick :: "nvd_metrics \<Rightarrow> string" where
  "pick m =
     (let ts = List.map_filter (\<lambda>(p, ms). first_tier p ms)
                 [(p, ms). p \<leftarrow> [True, False], ms \<leftarrow> [CVSSV31 m, CVSSV30 m, CVSSV40 m]]
      in case ts of [] \<Rightarrow> '''' | t # _ \<Rightarrow> t)"

record nvd_failure =
  nf_rateLimited :: bool
  nf_reason :: string

type_synonym nvd_outcome = "enrich_result option \<times> nvd_failure option \<times> string list"

definition nvd_failed :: "bool \<Rightarrow> string \<Rightarrow> string list \<Rightarrow> nvd_outcome" where
  "nvd_failed limited reason warnings = (None, Some \<lparr>nf_rateLimited = limited, nf_reason = reason\<rparr>, warnings)"

definition parseNVD :: "'w env \<Rightarrow> string \<Rightarrow> string + nvd_response \<Rightarrow> string list \<Rightarrow> nvd_outcome" where
  "parseNVD E cveID body warnings =
     (case body of
        Inl err \<Rightarrow> nvd_failed False ''NVD response unparsable''
          (warnings @ [''vuln enrichment: NVD JSON parse error for '' @ cveID @ '': '' @ err])
      | Inr nvd \<Rightarrow>
          if nr_TotalResults nvd = 0 \<or> nr_Vulnerabilities nvd = [] then (Some no_result, None, warnings)
          else let cve = hd (nr_Vulnerabilities nvd)
            in (Some (no_result\<lparr>er_Severity := pick (nc_Metrics cve), er_Source := ''nvd'',
                  er_PublishedAt := (if nc_Published cve = '''' then None else parse_nvd_date E (nc_Published cve))\<rparr>),
                None, warnings))"

section \<open>The lookup\<close>

definition NVDRejectsKey :: "int \<Rightarrow> (string \<Rightarrow> string) \<Rightarrow> bool" where
  "NVDRejectsKey code hdr = (code = 401 \<or> Contains (ToLower (hdr ''message'')) ''invalid apikey'')"

definition validHeaderValue :: "string \<Rightarrow> bool" where
  "validHeaderValue s =
     list_all (\<lambda>c. let n = (of_char c :: int) in \<not> ((n < 32 \<and> n \<noteq> 9) \<or> n = 127)) s"

text \<open>One turn of the retry loop ends the lookup, or asks for another attempt.\<close>

datatype nvd_turn = Done nvd_outcome | Again nat "string list"

definition nvd_retry ::
  "'w env \<Rightarrow> nat \<Rightarrow> string list \<Rightarrow> nvd_failure \<Rightarrow> string \<Rightarrow> int option \<Rightarrow> 'w enricher \<Rightarrow> nvd_turn \<times> 'w enricher" where
  "nvd_retry E attempt warnings fail finalWarn retryAfter st =
     (if attempt \<ge> nvdMaxRetries then (Done (None, Some fail, warnings @ [finalWarn]), st)
      else let wait = (case retryAfter of Some d \<Rightarrow> d | None \<Rightarrow> nvdBackoffBase * 2 ^ attempt);
               wait = min wait nvdRetryAfterCap
        in (Again (attempt + 1) warnings, st\<lparr>en_next := delayUntil (Add (now E (en_world st)) wait) (en_next st)\<rparr>))"

definition nvd_answer ::
  "'w env \<Rightarrow> string \<Rightarrow> bool \<Rightarrow> nat \<Rightarrow> string list \<Rightarrow> nvd_response reply \<Rightarrow> 'w enricher \<Rightarrow> nvd_turn \<times> 'w enricher" where
  "nvd_answer E cveID useKey attempt warnings r st =
     (case r of
        Fails err \<Rightarrow>
          (let msg = ''vuln enrichment: NVD fetch error for '' @ cveID @ '': '' @ err
           in if ctx_err E (en_world st) \<noteq> None then (Done (nvd_failed False ''NVD lookup cancelled'' (warnings @ [msg])), st)
              else nvd_retry E attempt warnings \<lparr>nf_rateLimited = False, nf_reason = ''NVD network error''\<rparr> msg None st)
      | Answers code hdr body \<Rightarrow>
          (let msg = ''vuln enrichment: NVD returned HTTP '' @ itoa code @ '' for '' @ cveID;
               retryAfter = parseRetryAfter E (hdr ''Retry-After'') (now E (en_world st))
           in if useKey \<and> NVDRejectsKey code hdr then
                (Again attempt (if en_keyRejected st then warnings
                   else warnings @ [''vuln enrichment: NVD rejected the API key (HTTP '' @ itoa code @ ''); continuing unauthenticated'']),
                 st\<lparr>en_keyRejected := True\<rparr>)
              else if code = 429 \<or> code = 403 then
                nvd_retry E attempt warnings
                  \<lparr>nf_rateLimited = True, nf_reason = ''NVD rate limited (HTTP '' @ itoa code @ '')''\<rparr> msg retryAfter st
              else if code \<ge> 500 then
                nvd_retry E attempt warnings \<lparr>nf_rateLimited = False, nf_reason = ''NVD HTTP '' @ itoa code\<rparr> msg retryAfter st
              else if code \<noteq> 200 then (Done (nvd_failed False (''NVD HTTP '' @ itoa code) (warnings @ [msg])), st)
              else (Done (parseNVD E cveID body warnings), st)))"

definition choose_key :: "enrich_options \<Rightarrow> string list \<Rightarrow> 'w enricher \<Rightarrow> bool \<times> string list \<times> 'w enricher" where
  "choose_key opts warnings st =
     (if eo_NVDAPIKey opts = '''' \<or> en_keyRejected st then (False, warnings, st)
      else if validHeaderValue (eo_NVDAPIKey opts) then (True, warnings, st)
      else (False,
        warnings @ [''vuln enrichment: NVD API key contains characters not allowed in an HTTP header; continuing unauthenticated''],
        st\<lparr>en_keyRejected := True\<rparr>))"

lemma choose_key_cases:
  assumes "choose_key opts ws st = (useKey, ws', st')"
  shows "useKey \<Longrightarrow> eo_NVDAPIKey opts \<noteq> '''' \<and> \<not> en_keyRejected st'"
    and "en_keyRejected st \<Longrightarrow> en_keyRejected st'"
    and "st' = st\<lparr>en_keyRejected := en_keyRejected st'\<rparr>"
  using assms by (auto simp: choose_key_def split: if_splits)

definition nvd_attempt ::
  "'w env \<Rightarrow> enrich_options \<Rightarrow> string \<Rightarrow> gotime \<Rightarrow> nat \<Rightarrow> string list \<Rightarrow> 'w enricher \<Rightarrow> nvd_turn \<times> 'w enricher" where
  "nvd_attempt E opts cveID deadline attempt warnings st =
     (let (useKey, warnings, st) = choose_key opts warnings st;
          (ok, st) = pacer_wait E (if useKey then nvdSpacingKeyed else nvdSpacingKeyless) deadline st
      in if \<not> ok then
           (case ctx_err E (en_world st) of
              Some err \<Rightarrow>
                (Done (nvd_failed False ''NVD lookup cancelled''
                   (warnings @ [''vuln enrichment: NVD fetch error for '' @ cveID @ '': '' @ err])), st)
            | None \<Rightarrow>
                (let reason = ''NVD rate limit: lookup budget of '' @ duration_text E (eo_budget opts) @ '' used up''
                 in (Done (nvd_failed True reason
                       (warnings @ [''vuln enrichment: NVD lookup for '' @ cveID @ '' skipped: '' @ reason])), st)))
         else let (r, w) = get_nvd E (if useKey then Some (eo_NVDAPIKey opts) else None) cveID (en_world st);
                  st = st\<lparr>en_world := w, en_sent := en_sent st @ [(''services.nvd.nist.gov'', cveID)]\<rparr>
           in nvd_answer E cveID useKey attempt warnings r st)"

text \<open>Every turn that asks for another has used up an attempt, or the key.\<close>

definition turns_left :: "nat \<Rightarrow> 'w enricher \<Rightarrow> nat" where
  "turns_left attempt st = (nvdMaxRetries - attempt) + (if en_keyRejected st then 0 else 1)"

lemma nvd_retry_measure:
  "nvd_retry E a ws f m ra st = (Again a' ws', st') \<Longrightarrow> turns_left a' st' < turns_left a st \<and> en_keyRejected st' = en_keyRejected st"
  by (auto simp: nvd_retry_def turns_left_def Let_def split: if_splits)

lemma nvd_answer_measure:
  "nvd_answer E c k a ws r st = (Again a' ws', st') \<Longrightarrow> (k \<longrightarrow> \<not> en_keyRejected st) \<Longrightarrow> turns_left a' st' < turns_left a st"
  by (auto simp: nvd_answer_def Let_def turns_left_def split: reply.splits if_splits dest: nvd_retry_measure)

lemma pacer_wait_keyRejected [simp]: "pacer_wait E s d st = (ok, st') \<Longrightarrow> en_keyRejected st' = en_keyRejected st"
  by (auto simp: pacer_wait_def Let_def split: prod.splits option.splits)

lemma nvd_attempt_measure:
  assumes "nvd_attempt E opts c d a ws st = (Again a' ws', st')"
  shows "turns_left a' st' < turns_left a st"
proof -
  obtain k ws1 s0 where k: "choose_key opts ws st = (k, ws1, s0)" by (metis prod_cases3)
  obtain ok s1 where w: "pacer_wait E (if k then nvdSpacingKeyed else nvdSpacingKeyless) d s0 = (ok, s1)" by fastforce
  have "turns_left a s1 \<le> turns_left a st"
    using choose_key_cases(2) [OF k] pacer_wait_keyRejected [OF w] by (simp add: turns_left_def)
  moreover have "turns_left a' st' < turns_left a s1"
  proof -
    obtain r wd where "nvd_answer E c k a ws1 r (s1\<lparr>en_world := wd, en_sent := en_sent s1 @ [(''services.nvd.nist.gov'', c)]\<rparr>)
        = (Again a' ws', st')"
      using assms k w by (auto simp: nvd_attempt_def Let_def split: if_splits prod.splits option.splits)
    then show ?thesis
      using nvd_answer_measure choose_key_cases(1) [OF k] pacer_wait_keyRejected [OF w] by (fastforce simp: turns_left_def)
  qed
  ultimately show ?thesis by simp
qed

function nvd_loop ::
  "'w env \<Rightarrow> enrich_options \<Rightarrow> string \<Rightarrow> gotime \<Rightarrow> nat \<Rightarrow> string list \<Rightarrow> 'w enricher \<Rightarrow> nvd_outcome \<times> 'w enricher" where
  "nvd_loop E opts cveID deadline attempt warnings st =
     (case nvd_attempt E opts cveID deadline attempt warnings st of
        (Done out, st) \<Rightarrow> (out, st)
      | (Again attempt warnings, st) \<Rightarrow> nvd_loop E opts cveID deadline attempt warnings st)"
  by pat_completeness auto
termination
  by (relation "measure (\<lambda>(E, opts, c, d, a, ws, st). turns_left a st)") (auto dest: nvd_attempt_measure [OF sym])

declare nvd_loop.simps [simp del]

definition fetchNVD :: "'w env \<Rightarrow> enrich_options \<Rightarrow> string \<Rightarrow> 'w enricher \<Rightarrow> nvd_outcome \<times> 'w enricher" where
  "fetchNVD E opts cveID st =
     (let (deadline, st) = enrichDeadline E opts st in nvd_loop E opts cveID deadline 0 [] st)"

end
