(* ===== verification/Enrich.thy ===== *)
theory Enrich
  imports Nvd
begin

text \<open>
  \<open>pkg/scanner/vulnenrich.go\<close>: the severity of an advisory whose severity is unknown, from the cache, OSV, the
  OSV records of its aliases, NVD and GitHub, in this order; what was learned is cached by outcome.
\<close>

section \<open>The advisory\<close>

record enriched_vulnerability = scored_vulnerability +
  v_EnrichmentAttempted :: bool
  v_SeverityAlias :: string
  v_EnrichmentErrors :: "string list"
  v_DaysUnpatched :: int

definition severityLookupFailedPrefix :: string where
  "severityLookupFailedPrefix = ''severity lookup failed (OSV/NVD/GitHub) for ''"

definition severityRateLimitedPrefix :: string where
  "severityRateLimitedPrefix = ''severity could not be looked up (NVD rate limit: set NVD_API_KEY) for ''"

definition severityUnscoredPrefix :: string where
  "severityUnscoredPrefix = ''severity not yet published (OSV/NVD/GitHub) for ''"

definition failureMessage :: "string \<Rightarrow> bool \<Rightarrow> string \<Rightarrow> string" where
  "failureMessage i rateLimited reason =
     (let msg = (if rateLimited then severityRateLimitedPrefix else severityLookupFailedPrefix) @ i @ ''; severity remains UNKNOWN''
      in if reason \<noteq> '''' then msg @ '' ('' @ reason @ '')'' else msg)"

definition unscoredMessage :: "string \<Rightarrow> string" where
  "unscoredMessage i = severityUnscoredPrefix @ i @ ''; severity not yet published''"

definition markUnscored :: "enriched_vulnerability \<Rightarrow> enriched_vulnerability" where
  "markUnscored v = v\<lparr>v_EnrichmentFailed := False, v_SeveritySource := ''unscored''\<rparr>"

definition markEnrichmentFailed :: "enriched_vulnerability \<Rightarrow> enriched_vulnerability" where
  "markEnrichmentFailed v = v\<lparr>v_EnrichmentFailed := True, v_SeveritySource := ''none''\<rparr>"

definition apply_published :: "gotime \<Rightarrow> gotime option \<Rightarrow> enriched_vulnerability \<Rightarrow> enriched_vulnerability" where
  "apply_published t published v =
     (case published of
        None \<Rightarrow> v
      | Some p \<Rightarrow>
          (let v = (if v_PublishedAt v = None then v\<lparr>v_PublishedAt := Some p\<rparr> else v);
               days = go_int (ddiv (Hours (Sub t p)) 24)
           in if v_FixedVersion v \<noteq> '''' \<and> v_FixPublishedAt v = None
              then v\<lparr>v_FixPublishedAt := Some p, v_DaysUnpatched := (if days < 0 then 0 else days)\<rparr> else v))"

definition applyEnrichResult :: "gotime \<Rightarrow> enrich_result \<Rightarrow> enriched_vulnerability \<Rightarrow> enriched_vulnerability" where
  "applyEnrichResult t r v =
     (let v = (if er_Severity r \<noteq> '''' then v\<lparr>v_Severity := er_Severity r\<rparr> else v);
          v = (if er_Source r \<noteq> '''' then v\<lparr>v_SeveritySource := er_Source r\<rparr> else v);
          v = (if er_SeverityAlias r \<noteq> '''' then v\<lparr>v_SeverityAlias := er_SeverityAlias r\<rparr> else v)
      in apply_published t (er_PublishedAt r) v)"

section \<open>The cache\<close>

definition hour :: int where "hour = 3600 * second"
definition cacheTTL :: int where "cacheTTL = 24 * hour"
definition cacheFailTTL :: int where "cacheFailTTL = hour"
definition cacheRateLimitFailTTL :: int where "cacheRateLimitFailTTL = 2 * 60 * second"
definition currentCacheVersion :: int where "currentCacheVersion = 1"

definition cache_ttl :: "enrich_result option \<Rightarrow> int" where
  "cache_ttl r =
     (case r of
        None \<Rightarrow> cacheFailTTL
      | Some r \<Rightarrow>
          if er_Source r = ''none'' \<or> er_Source r = ''unscored'' \<or> er_Severity r = ''''
          then (if er_Source r = ''none'' \<and> er_RateLimited r then cacheRateLimitFailTTL else cacheFailTTL)
          else cacheTTL)"

text \<open>\<open>None\<close> is a miss; a hit holds the stored result, which may be null in the file.\<close>

definition loadCache :: "'w env \<Rightarrow> string \<Rightarrow> 'w enricher \<Rightarrow> enrich_result option option" where
  "loadCache E i st =
     (case en_cache st i of
        None \<Rightarrow> None
      | Some e \<Rightarrow>
          if ce_Version e \<noteq> currentCacheVersion then None
          else if Sub (now E (en_world st)) (ce_FetchedAt e) > cache_ttl (ce_Result e) then None
          else Some (ce_Result e))"

definition saveCache :: "'w env \<Rightarrow> enrich_options \<Rightarrow> string \<Rightarrow> enrich_result \<Rightarrow> 'w enricher \<Rightarrow> 'w enricher" where
  "saveCache E opts i r st =
     (if eo_writable opts
      then st\<lparr>en_cache := (en_cache st)(i \<mapsto>
             \<lparr>ce_Version = currentCacheVersion, ce_FetchedAt = now E (en_world st), ce_Result = Some r\<rparr>)\<rparr>
      else st)"

definition loadAliasCache :: "'w env \<Rightarrow> string \<Rightarrow> 'w enricher \<Rightarrow> string option" where
  "loadAliasCache E alias st =
     (case en_aliases st alias of
        None \<Rightarrow> None
      | Some e \<Rightarrow>
          if ae_Version e \<noteq> currentCacheVersion \<or> Sub (now E (en_world st)) (ae_FetchedAt e) > cacheTTL then None
          else Some (ae_Severity e))"

definition saveAliasCache :: "'w env \<Rightarrow> enrich_options \<Rightarrow> string \<Rightarrow> string \<Rightarrow> 'w enricher \<Rightarrow> 'w enricher" where
  "saveAliasCache E opts alias sev st =
     (if eo_writable opts
      then st\<lparr>en_aliases := (en_aliases st)(alias \<mapsto>
             \<lparr>ae_Version = currentCacheVersion, ae_FetchedAt = now E (en_world st), ae_Severity = sev\<rparr>)\<rparr>
      else st)"

section \<open>OSV and GitHub\<close>

definition scorable :: "string \<times> string \<Rightarrow> bool" where
  "scorable s = (fst s = ''CVSS_V3'' \<and> \<not> HasPrefix (snd s) ''CVSS:4'' \<and> \<not> HasPrefix (snd s) ''AV:'')"

fun first_score :: "(string \<Rightarrow> double option) \<Rightarrow> (string \<times> string) list \<Rightarrow> string" where
  "first_score parse_float [] = ''''"
| "first_score parse_float (s # ss) =
     (if \<not> scorable s then first_score parse_float ss
      else let (score, parsed) = parseCVSSScore parse_float (snd s)
        in if parsed \<and> score > 0 then cvssScoreToTier score else first_score parse_float ss)"

definition severityTier :: "(string \<Rightarrow> double option) \<Rightarrow> osv_response \<Rightarrow> string" where
  "severityTier parse_float osv =
     (let t = (case o_DatabaseSeverity osv of Some s \<Rightarrow> if s \<noteq> '''' then cvssStringToTier s else '''' | None \<Rightarrow> '''')
      in if t \<noteq> '''' then t else first_score parse_float (o_Severity osv))"

definition parsed_date :: "'w env \<Rightarrow> string \<Rightarrow> gotime option" where
  "parsed_date E s = (if s \<noteq> '''' then parse_rfc3339 E s else None)"

definition osv_result :: "'w env \<Rightarrow> osv_response \<Rightarrow> enrich_result" where
  "osv_result E osv = no_result\<lparr>er_Severity := severityTier (parse_number E) osv, er_Source := ''osv'',
     er_PublishedAt := parsed_date E (o_Published osv), er_ModifiedAt := parsed_date E (o_Modified osv)\<rparr>"

definition fetchOSV :: "'w env \<Rightarrow> string \<Rightarrow> 'w enricher \<Rightarrow> (enrich_result option \<times> bool \<times> string list) \<times> 'w enricher" where
  "fetchOSV E i st =
     (let (r, w) = get_osv E i (en_world st);
          st = st\<lparr>en_world := w, en_sent := en_sent st @ [(''api.osv.dev'', i)]\<rparr>
      in (case r of
            Fails err \<Rightarrow> (None, False, [''vuln enrichment: OSV fetch error for '' @ i @ '': '' @ err])
          | Answers code hdr body \<Rightarrow>
              if code \<noteq> 200 then (None, code = 404, [''vuln enrichment: OSV returned HTTP '' @ itoa code @ '' for '' @ i])
              else (case body of
                  Inl err \<Rightarrow> (None, False, [''vuln enrichment: OSV JSON parse error for '' @ i @ '': '' @ err])
                | Inr osv \<Rightarrow> (Some (osv_result E osv), True, [])), st))"

definition ghsa_result :: "'w env \<Rightarrow> ghsa_response list \<Rightarrow> enrich_result" where
  "ghsa_result E advisories =
     (case advisories of
        [] \<Rightarrow> no_result
      | ghsa # _ \<Rightarrow>
          (let sev = (case gh_CVSSScore ghsa of
                 Some score \<Rightarrow> if score > 0 then Some (cvssScoreToTier score) else None
               | None \<Rightarrow> None)
           in no_result\<lparr>er_Severity := (case sev of Some t \<Rightarrow> t | None \<Rightarrow> ToUpper (gh_Severity ghsa)), er_Source := ''ghsa'',
                er_PublishedAt := parsed_date E (gh_PublishedAt ghsa)\<rparr>))"

definition fetchGHSAByCVE :: "'w env \<Rightarrow> string \<Rightarrow> 'w enricher \<Rightarrow> (enrich_result option \<times> string list) \<times> 'w enricher" where
  "fetchGHSAByCVE E cveID st =
     (let (r, w) = get_ghsa E cveID (en_world st);
          st = st\<lparr>en_world := w, en_sent := en_sent st @ [(''api.github.com'', cveID)]\<rparr>
      in (case r of
            Fails err \<Rightarrow> (None, [''vuln enrichment: GitHub Advisory fetch error for '' @ cveID @ '': '' @ err])
          | Answers code hdr body \<Rightarrow>
              if code \<noteq> 200 then (None, [''vuln enrichment: GitHub Advisory returned HTTP '' @ itoa code @ '' for '' @ cveID])
              else (case body of
                  Inl err \<Rightarrow> (None, [''vuln enrichment: GitHub Advisory JSON parse error for '' @ cveID @ '': '' @ err])
                | Inr advisories \<Rightarrow> (Some (ghsa_result E advisories), []))), st)"

section \<open>Aliases\<close>

definition maxAliasLookups :: nat where "maxAliasLookups = 4"

fun alias_group :: "enriched_vulnerability \<Rightarrow> string \<Rightarrow> string list \<Rightarrow> string list \<Rightarrow> string list" where
  "alias_group v start [] g = g"
| "alias_group v start (a # as) g =
     (if \<not> HasPrefix a start \<or> a = v_ID v \<or> \<not> validateVulnID a \<or> a \<in> set g then alias_group v start as g
      else alias_group v start as (g @ [a]))"

definition aliasCandidates :: "enriched_vulnerability \<Rightarrow> string list" where
  "aliasCandidates v =
     (let ghsas = sort_strings (alias_group v ''GHSA-'' (v_Aliases v) []);
          cves = sort_strings (alias_group v ''CVE-'' (v_Aliases v) []);
          ghsas = (if cves \<noteq> [] \<and> length ghsas > maxAliasLookups - 1 then take (maxAliasLookups - 1) ghsas else ghsas)
      in take maxAliasLookups (ghsas @ cves))"

definition alias_hit :: "string \<Rightarrow> string \<Rightarrow> enrich_result" where
  "alias_hit sev alias = no_result\<lparr>er_Severity := sev, er_Source := ''osv'', er_SeverityAlias := alias\<rparr>"

fun alias_loop ::
  "'w env \<Rightarrow> enrich_options \<Rightarrow> string list \<Rightarrow> bool \<Rightarrow> string list \<Rightarrow> 'w enricher \<Rightarrow>
     (enrich_result option \<times> bool \<times> string list) \<times> 'w enricher" where
  "alias_loop E opts [] allOK warnings st = ((None, allOK, warnings), st)"
| "alias_loop E opts (alias # rest) allOK warnings st =
     (case loadAliasCache E alias st of
        Some sev \<Rightarrow>
          if sev \<noteq> '''' then ((Some (alias_hit sev alias), allOK, warnings), st)
          else alias_loop E opts rest allOK warnings st
      | None \<Rightarrow>
          (let ((r, ok, w), st) = fetchOSV E alias st
           in if \<not> ok then alias_loop E opts rest False (warnings @ w) st
              else let sev = (case r of Some r \<Rightarrow> er_Severity r | None \<Rightarrow> '''');
                       st = saveAliasCache E opts alias sev st
                in if sev \<noteq> '''' then ((Some (alias_hit sev alias), allOK, warnings), st)
                   else alias_loop E opts rest allOK warnings st))"

definition lookupAliases ::
  "'w env \<Rightarrow> enrich_options \<Rightarrow> enriched_vulnerability \<Rightarrow> 'w enricher \<Rightarrow>
     (enrich_result option \<times> bool \<times> string list) \<times> 'w enricher" where
  "lookupAliases E opts v st = alias_loop E opts (aliasCandidates v) True [] st"

section \<open>The lookup\<close>

text \<open>A stored outcome is applied as the live lookup applied it.\<close>

definition apply_cached ::
  "gotime \<Rightarrow> enrich_result option \<Rightarrow> enriched_vulnerability \<Rightarrow> enriched_vulnerability \<times> string list" where
  "apply_cached t cached v =
     (case cached of
        None \<Rightarrow>
          (let msg = failureMessage (v_ID v) False ''''; v = markEnrichmentFailed v
           in (if v_EnrichmentErrors v = [] then v\<lparr>v_EnrichmentErrors := [msg]\<rparr> else v, [msg]))
      | Some r \<Rightarrow>
          if er_Source r = ''unscored'' then (markUnscored v, [unscoredMessage (v_ID v)])
          else if er_Source r = ''none'' \<or> er_Severity r = '''' then
            (let msg = failureMessage (v_ID v) (er_RateLimited r) (er_FailReason r); v = markEnrichmentFailed v
             in (if v_EnrichmentErrors v = [] then v\<lparr>v_EnrichmentErrors := [msg]\<rparr> else v, [msg]))
          else (applyEnrichResult t r v, []))"

definition cve_of :: "enriched_vulnerability \<Rightarrow> string" where
  "cve_of v =
     (if HasPrefix (v_ID v) ''CVE-'' then v_ID v
      else case find (\<lambda>a. HasPrefix a ''CVE-'' \<and> validateVulnID a) (v_Aliases v) of Some a \<Rightarrow> a | None \<Rightarrow> '''')"

text \<open>The end of a lookup without a severity: unscored when every source consulted answered, else failed.\<close>

definition no_severity ::
  "'w env \<Rightarrow> enrich_options \<Rightarrow> bool \<Rightarrow> nvd_failure option \<Rightarrow> enriched_vulnerability \<Rightarrow> 'w enricher \<Rightarrow>
     enriched_vulnerability \<times> string list \<times> 'w enricher" where
  "no_severity E opts allAnswered nvdFail v st =
     (if allAnswered then
        (markUnscored v, [unscoredMessage (v_ID v)], saveCache E opts (v_ID v) (no_result\<lparr>er_Source := ''unscored''\<rparr>) st)
      else let (limited, reason) = (case nvdFail of Some f \<Rightarrow> (nf_rateLimited f, nf_reason f) | None \<Rightarrow> (False, ''''));
               r = no_result\<lparr>er_Source := ''none'', er_RateLimited := limited, er_FailReason := reason\<rparr>;
               msg = failureMessage (v_ID v) limited reason
        in ((markEnrichmentFailed v)\<lparr>v_EnrichmentErrors := [msg]\<rparr>, [msg], saveCache E opts (v_ID v) r st))"

text \<open>A severity that was found is cached and applied.\<close>

definition found ::
  "'w env \<Rightarrow> enrich_options \<Rightarrow> enrich_result \<Rightarrow> enriched_vulnerability \<Rightarrow> 'w enricher \<Rightarrow>
     enriched_vulnerability \<times> 'w enricher" where
  "found E opts r v st = (let st = saveCache E opts (v_ID v) r st in (applyEnrichResult (now E (en_world st)) r v, st))"

definition has_severity :: "enrich_result option \<Rightarrow> bool" where
  "has_severity r = (case r of Some r \<Rightarrow> er_Severity r \<noteq> '''' | None \<Rightarrow> False)"

text \<open>NVD and GitHub, when a CVE is known.\<close>

definition enrich_by_cve ::
  "'w env \<Rightarrow> enrich_options \<Rightarrow> bool \<Rightarrow> enriched_vulnerability \<Rightarrow> 'w enricher \<Rightarrow>
     enriched_vulnerability \<times> string list \<times> 'w enricher" where
  "enrich_by_cve E opts allAnswered v st =
     (let cve = cve_of v
      in if cve = '''' then no_severity E opts allAnswered None v st
         else let ((nvd, fail, w1), st) = fetchNVD E opts cve st
           in if has_severity nvd then (let (v, st) = found E opts (the nvd) v st in (v, w1, st))
              else let ((ghsa, w2), st) = fetchGHSAByCVE E cve st
                in if has_severity ghsa then (let (v, st) = found E opts (the ghsa) v st in (v, w1 @ w2, st))
                   else let (v, w3, st) = no_severity E opts (allAnswered \<and> nvd \<noteq> None \<and> ghsa \<noteq> None) fail v st
                     in (v, w1 @ w2 @ w3, st))"

text \<open>An alias hit keeps the dates of the primary record.\<close>

definition with_dates :: "enrich_result option \<Rightarrow> enrich_result \<Rightarrow> enrich_result" where
  "with_dates osv r =
     (case osv of
        Some primary \<Rightarrow> r\<lparr>er_PublishedAt := er_PublishedAt primary, er_ModifiedAt := er_ModifiedAt primary\<rparr>
      | None \<Rightarrow> r)"

definition enrich_live ::
  "'w env \<Rightarrow> enrich_options \<Rightarrow> enriched_vulnerability \<Rightarrow> 'w enricher \<Rightarrow> enriched_vulnerability \<times> string list \<times> 'w enricher" where
  "enrich_live E opts v st =
     (let ((osv, ok, w1), st) = fetchOSV E (v_ID v) st
      in if has_severity osv then (let (v, st) = found E opts (the osv) v st in (v, w1, st))
         else let ((ali, aliasOK, w2), st) = lookupAliases E opts v st
           in (case ali of
                 Some r \<Rightarrow>
                   (let (v, st) = found E opts (with_dates osv r) v st in (v, w1 @ w2, st))
               | None \<Rightarrow>
                   (let (v, w3, st) = enrich_by_cve E opts (ok \<and> aliasOK) v st in (v, w1 @ w2 @ w3, st))))"

definition Enrich ::
  "'w env \<Rightarrow> enrich_options \<Rightarrow> enriched_vulnerability \<Rightarrow> 'w enricher \<Rightarrow> enriched_vulnerability \<times> string list \<times> 'w enricher" where
  "Enrich E opts v st =
     (let warnings = (case eo_fallback opts of
            Some dir \<Rightarrow> [''vuln enrichment: os.UserCacheDir() unavailable; using TempDir fallback cache at '' @ dir]
          | None \<Rightarrow> [])
      in if v_Severity v \<noteq> '''' \<and> v_Severity v \<noteq> ''UNKNOWN'' then (v, warnings, st)
         else if \<not> validateVulnID (v_ID v) then
           (v, warnings @ [''vuln enrichment: rejected malformed ID '' @ quote (v_ID v) @ ''; severity remains UNKNOWN''], st)
         else let v = v\<lparr>v_EnrichmentAttempted := True\<rparr>
           in (case loadCache E (v_ID v) st of
                 Some cached \<Rightarrow>
                   (let (v, w) = apply_cached (now E (en_world st)) cached v in (v, warnings @ w, st))
               | None \<Rightarrow> (let (v, w, st) = enrich_live E opts v st in (v, warnings @ w, st))))"

end
