(* ===== verification/Enrich_Props.thy ===== *)
theory Enrich_Props
  imports Enrich Risk_Tiers
begin

text \<open>
  What a severity lookup guarantees: how many requests it sends, that an advisory is never left without
  either a severity, the mark that none is published, or a failure that is reported, unless GitHub names a word
  of no tier, and that the cache replays the live outcome.
\<close>

section \<open>Requests\<close>

definition sends :: "nat \<Rightarrow> 'w enricher \<Rightarrow> 'w enricher \<Rightarrow> bool" where
  "sends n st st' = (\<exists>xs. en_sent st' = en_sent st @ xs \<and> length xs \<le> n)"

lemma sends_trans: "sends a st st1 \<Longrightarrow> sends b st1 st2 \<Longrightarrow> a + b \<le> c \<Longrightarrow> sends c st st2"
  by (auto simp: sends_def)

lemma sends_mono: "sends a st st' \<Longrightarrow> a \<le> b \<Longrightarrow> sends b st st'"
  by (auto simp: sends_def)

lemma sends_same: "en_sent st' = en_sent st \<Longrightarrow> sends n st st'"
  by (simp add: sends_def)

lemma sends_one: "en_sent st' = en_sent st @ [x] \<Longrightarrow> sends (Suc n) st st'"
  by (simp add: sends_def)

lemma pacer_wait_sent [simp]: "pacer_wait E s d st = (ok, st') \<Longrightarrow> en_sent st' = en_sent st"
  by (auto simp: pacer_wait_def Let_def split: prod.splits option.splits)

lemma nvd_retry_sent [simp]: "en_sent (snd (nvd_retry E a ws f m ra st)) = en_sent st"
  by (simp add: nvd_retry_def Let_def)

lemma nvd_answer_sent: "nvd_answer E c k a ws r st = (turn, st') \<Longrightarrow> en_sent st' = en_sent st"
  by (auto simp: nvd_answer_def Let_def split: reply.splits if_splits dest!: arg_cong [of _ _ "\<lambda>x. en_sent (snd x)"])

lemma choose_key_sent: "choose_key opts ws st = (k, ws', st') \<Longrightarrow> en_sent st' = en_sent st"
  by (auto simp: choose_key_def split: if_splits)

lemma nvd_attempt_sent: "nvd_attempt E opts c d a ws st = (turn, st') \<Longrightarrow> sends 1 st st'"
  by (auto simp: nvd_attempt_def Let_def sends_def split: prod.splits if_splits option.splits
           dest!: choose_key_sent pacer_wait_sent nvd_answer_sent)

lemma nvd_loop_sent:
  "nvd_loop E opts c d a ws st = (out, st') \<Longrightarrow> sends (turns_left a st + 1) st st'"
proof (induction E opts c d a ws st arbitrary: out st' rule: nvd_loop.induct)
  case (1 E opts c d a ws st)
  obtain turn s where t: "nvd_attempt E opts c d a ws st = (turn, s)" by fastforce
  note one = nvd_attempt_sent [OF t]
  show ?case
  proof (cases turn)
    case (Done o')
    then show ?thesis
      using 1(2) t one by (auto simp: nvd_loop.simps sends_def)
  next
    case (Again a' ws')
    then have "sends (turns_left a' s + 1) s st'" using 1 t by (simp add: nvd_loop.simps)
    then show ?thesis
      using one nvd_attempt_measure [of E opts c d a ws st a' ws' s] t Again by (auto intro: sends_trans)
  qed
qed

lemma fetchNVD_sent: "fetchNVD E opts c st = (out, st') \<Longrightarrow> sends 5 st st'"
  by (auto simp: fetchNVD_def enrichDeadline_def Let_def turns_left_def nvdMaxRetries_def sends_def dest!: nvd_loop_sent split: if_splits)

lemma fetchOSV_sent: "fetchOSV E i st = (out, st') \<Longrightarrow> sends 1 st st'"
  by (auto simp: fetchOSV_def Let_def sends_def split: prod.splits)

lemma fetchGHSA_sent: "fetchGHSAByCVE E i st = (out, st') \<Longrightarrow> sends 1 st st'"
  by (auto simp: fetchGHSAByCVE_def Let_def sends_def split: prod.splits)

lemma saveCache_sent [simp]: "en_sent (saveCache E opts i r st) = en_sent st"
  by (simp add: saveCache_def)

lemma saveAliasCache_sent [simp]: "en_sent (saveAliasCache E opts i r st) = en_sent st"
  by (simp add: saveAliasCache_def)

lemma alias_loop_sent: "alias_loop E opts xs ok ws st = (out, st') \<Longrightarrow> sends (length xs) st st'"
proof (induction xs arbitrary: ok ws st)
  case (Cons a xs)
  obtain r ok' w s where f: "fetchOSV E a st = ((r, ok', w), s)" by (metis prod_cases3 surj_pair)
  note one = fetchOSV_sent [OF f]
  show ?case
  proof (cases "loadAliasCache E a st")
    case (Some sev)
    then show ?thesis
      using Cons.prems by (cases "sev = []") (auto simp: sends_same intro: sends_mono [OF Cons.IH])
  next
    case None
    have "sends (length xs) s0 st' \<Longrightarrow> en_sent s0 = en_sent s \<Longrightarrow> sends (length (a # xs)) st st'" for s0
      using one by (auto simp: sends_def)
    then show ?thesis
      using Cons.prems None f one
      by (auto simp: Let_def sends_same dest!: Cons.IH split: if_splits)
  qed
qed (simp add: sends_def)

lemma aliasCandidates_length: "length (aliasCandidates v) \<le> 4"
  by (simp add: aliasCandidates_def maxAliasLookups_def Let_def)

lemma lookupAliases_sent: "lookupAliases E opts v st = (out, st') \<Longrightarrow> sends 4 st st'"
  unfolding lookupAliases_def by (blast intro: sends_mono alias_loop_sent aliasCandidates_length)

lemma found_sent [simp]: "found E opts r v st = (v', st') \<Longrightarrow> en_sent st' = en_sent st"
  by (auto simp: found_def Let_def)

lemma no_severity_sent [simp]: "no_severity E opts a f v st = (v', ws, st') \<Longrightarrow> en_sent st' = en_sent st"
  by (auto simp: no_severity_def Let_def split: if_splits prod.splits)

lemma enrich_by_cve_sent:
  assumes "enrich_by_cve E opts a v st = (v', ws, st')"
  shows "sends 6 st st'"
proof (cases "cve_of v = []")
  case True
  then show ?thesis using assms by (auto simp: enrich_by_cve_def intro: sends_same)
next
  case False
  obtain nvd fail w1 s1 where n: "fetchNVD E opts (cve_of v) st = ((nvd, fail, w1), s1)" by (metis prod_cases3 surj_pair)
  obtain ghsa w2 s2 where g: "fetchGHSAByCVE E (cve_of v) s1 = ((ghsa, w2), s2)" by (metis surj_pair)
  have "en_sent st' = en_sent s1 \<or> en_sent st' = en_sent s2"
    using assms False n g
    by (auto simp: enrich_by_cve_def Let_def split: if_splits prod.splits)
  then show ?thesis
    using fetchNVD_sent [OF n] fetchGHSA_sent [OF g] by (auto simp: sends_def)
qed

lemma enrich_live_sent:
  assumes "enrich_live E opts v st = (v', ws, st')"
  shows "sends 11 st st'"
proof -
  obtain osv ok w1 s1 where o: "fetchOSV E (v_ID v) st = ((osv, ok, w1), s1)" by (metis prod_cases3 surj_pair)
  obtain ali aok w2 s2 where a: "lookupAliases E opts v s1 = ((ali, aok, w2), s2)" by (metis prod_cases3 surj_pair)
  have "sends 6 s1 st' \<or> sends 6 s2 st'"
    using assms o a
    by (auto simp: enrich_live_def Let_def sends_same split: if_splits prod.splits option.splits dest: enrich_by_cve_sent)
  then show ?thesis
    using fetchOSV_sent [OF o] lookupAliases_sent [OF a] by (auto simp: sends_def)
qed

lemma Enrich_cached:
  assumes "v_Severity v = '''' \<or> v_Severity v = ''UNKNOWN''" "validateVulnID (v_ID v)" "loadCache E (v_ID v) st = Some c"
  shows "Enrich E opts v st =
    (let (v, w) = apply_cached (now E (en_world st)) c (v\<lparr>v_EnrichmentAttempted := True\<rparr>)
     in (v, (case eo_fallback opts of Some dir \<Rightarrow>
           [''vuln enrichment: os.UserCacheDir() unavailable; using TempDir fallback cache at '' @ dir] | None \<Rightarrow> []) @ w, st))"
  using assms by (auto simp: Enrich_def split: prod.splits)

lemma Enrich_live:
  assumes "v_Severity v = '''' \<or> v_Severity v = ''UNKNOWN''" "validateVulnID (v_ID v)" "loadCache E (v_ID v) st = None"
  shows "Enrich E opts v st =
    (let (v, w, st) = enrich_live E opts (v\<lparr>v_EnrichmentAttempted := True\<rparr>) st
     in (v, (case eo_fallback opts of Some dir \<Rightarrow>
           [''vuln enrichment: os.UserCacheDir() unavailable; using TempDir fallback cache at '' @ dir] | None \<Rightarrow> []) @ w, st))"
  using assms by (auto simp: Enrich_def split: prod.splits)

lemma Enrich_skips:
  "v_Severity v \<noteq> '''' \<and> v_Severity v \<noteq> ''UNKNOWN'' \<or> \<not> validateVulnID (v_ID v) \<Longrightarrow>
     fst (Enrich E opts v st) = v \<and> snd (snd (Enrich E opts v st)) = st"
  by (auto simp: Enrich_def Let_def)

text \<open>One advisory costs at most eleven requests (one to OSV, four for aliases, five to NVD counting its retries and a
  rejected key, one to GitHub), and none at all when its severity is known, its ID is malformed or the cache has it.\<close>

theorem enrich_requests_bounded:
  "length (en_sent (snd (snd (Enrich E opts v st)))) \<le> length (en_sent st) +
     (if (v_Severity v = '''' \<or> v_Severity v = ''UNKNOWN'') \<and> validateVulnID (v_ID v) \<and> loadCache E (v_ID v) st = None then 11 else 0)"
proof (cases "(v_Severity v = '''' \<or> v_Severity v = ''UNKNOWN'') \<and> validateVulnID (v_ID v)")
  case True
  show ?thesis
  proof (cases "loadCache E (v_ID v) st")
    case None
    obtain v' ws st' where l: "enrich_live E opts (v\<lparr>v_EnrichmentAttempted := True\<rparr>) st = (v', ws, st')"
      using prod_cases3 by blast
    show ?thesis
      using True None enrich_live_sent [OF l] by (auto simp: Enrich_live l sends_def)
  next
    case (Some c)
    then show ?thesis using True by (auto simp: Enrich_cached split: prod.splits)
  qed
next
  case False
  then show ?thesis using Enrich_skips [of v E opts st] by auto
qed

section \<open>Severities\<close>

definition known_tier :: "string \<Rightarrow> bool" where
  "known_tier s = (s \<in> {''CRITICAL'', ''HIGH'', ''MEDIUM'', ''LOW''})"

text \<open>A fetched result names a tier of the vocabulary, or none, or says why there is none.\<close>

definition result_ok :: "enrich_result \<Rightarrow> bool" where
  "result_ok r = (er_Source r = ''unscored'' \<or> er_Source r = ''none'' \<or> er_Severity r = '''' \<or>
     known_tier (er_Severity r) \<and> er_Source r \<in> {''osv'', ''nvd'', ''ghsa''})"

text \<open>GitHub's word for a severity is stored as it is, in capitals, also when it is the word of no tier.\<close>

definition ghsa_word :: "enrich_result \<Rightarrow> bool" where
  "ghsa_word r = (er_Source r = ''ghsa'' \<and> er_Severity r \<noteq> '''' \<and> \<not> known_tier (er_Severity r))"

definition cache_ok :: "'w enricher \<Rightarrow> bool" where
  "cache_ok st =
     ((\<forall>i e r. en_cache st i = Some e \<longrightarrow> ce_Result e = Some r \<longrightarrow> result_ok r \<or> ghsa_word r) \<and>
      (\<forall>i e. en_aliases st i = Some e \<longrightarrow> ae_Severity e = '''' \<or> known_tier (ae_Severity e)))"



lemma cvssScoreToTier_known: "cvssScoreToTier x = '''' \<or> known_tier (cvssScoreToTier x)"
  by (simp add: cvssScoreToTier_def known_tier_def)

lemma cvssScoreToTier_pos: "x > 0 \<Longrightarrow> known_tier (cvssScoreToTier x)"
  by (simp add: cvssScoreToTier_def known_tier_def)

lemma cvssStringToTier_known: "cvssStringToTier s = '''' \<or> known_tier (cvssStringToTier s)"
  by (simp add: cvssStringToTier_def known_tier_def Let_def)

lemma first_score_known: "first_score pf ss = '''' \<or> known_tier (first_score pf ss)"
  by (induction ss) (auto simp: Let_def cvssScoreToTier_pos split: prod.splits)

lemma severityTier_known: "severityTier pf osv = '''' \<or> known_tier (severityTier pf osv)"
  using cvssStringToTier_known first_score_known by (auto simp: severityTier_def Let_def split: option.splits)

lemma tier_known: "tier m = '''' \<or> known_tier (tier m)"
  using cvssStringToTier_known by (auto simp: tier_def cvssScoreToTier_pos)

lemma first_tier_known: "first_tier p ms = Some t \<Longrightarrow> known_tier t"
  using tier_known by (auto simp: first_tier_def find_Some_iff)

lemma pick_known: "pick m = '''' \<or> known_tier (pick m)"
  by (auto simp: pick_def Let_def List.map_filter_simps dest: first_tier_known split: list.splits option.splits)

lemma osv_result_ok: "result_ok (osv_result E osv)"
  using severityTier_known by (auto simp: result_ok_def osv_result_def no_result_def)


section \<open>Outcomes\<close>

lemma cache_ok_world [simp]: "cache_ok (st\<lparr>en_world := w\<rparr>) = cache_ok st" "cache_ok (st\<lparr>en_sent := xs\<rparr>) = cache_ok st"
  "cache_ok (st\<lparr>en_next := t\<rparr>) = cache_ok st" "cache_ok (st\<lparr>en_keyRejected := b\<rparr>) = cache_ok st"
  "cache_ok (st\<lparr>en_deadline := t\<rparr>) = cache_ok st"
  by (simp_all add: cache_ok_def)

text \<open>Neither NVD nor GitHub touch the caches.\<close>

definition same_cache :: "'w enricher \<Rightarrow> 'w enricher \<Rightarrow> bool" where
  "same_cache st st' = (en_cache st' = en_cache st \<and> en_aliases st' = en_aliases st)"

lemma same_cache_ok: "same_cache st st' \<Longrightarrow> cache_ok st' = cache_ok st"
  by (simp add: same_cache_def cache_ok_def)

lemma same_cache_trans: "same_cache a b \<Longrightarrow> same_cache b c \<Longrightarrow> same_cache a c"
  by (simp add: same_cache_def)

lemma pacer_wait_cache: "pacer_wait E s d st = (ok, st') \<Longrightarrow> same_cache st st'"
  by (auto simp: pacer_wait_def Let_def same_cache_def split: prod.splits option.splits)

lemma nvd_answer_cache: "nvd_answer E c k a ws r st = (turn, st') \<Longrightarrow> same_cache st st'"
  by (auto simp: nvd_answer_def nvd_retry_def Let_def same_cache_def split: reply.splits if_splits)

lemma choose_key_cache: "choose_key opts ws st = (k, ws', st') \<Longrightarrow> same_cache st st'"
  by (auto simp: choose_key_def same_cache_def split: if_splits)

lemma nvd_attempt_cache: "nvd_attempt E opts c d a ws st = (turn, st') \<Longrightarrow> same_cache st st'"
  by (auto simp: nvd_attempt_def Let_def same_cache_def split: prod.splits if_splits option.splits
           dest!: choose_key_cache pacer_wait_cache nvd_answer_cache)

text \<open>What a finished NVD lookup yields: a record that is sound, or a failure.\<close>

definition nvd_outcome_ok :: "nvd_outcome \<Rightarrow> bool" where
  "nvd_outcome_ok out = (case out of (Some r, fail, _) \<Rightarrow> result_ok r \<and> er_Source r \<notin> {''unscored'', ''none''} \<and> fail = None | (None, fail, _) \<Rightarrow> fail \<noteq> None)"

lemma parseNVD_ok: "nvd_outcome_ok (parseNVD E c body ws)"
  using pick_known by (auto simp: parseNVD_def nvd_outcome_ok_def nvd_failed_def result_ok_def no_result_def Let_def split: sum.splits)

lemma nvd_failed_ok: "nvd_outcome_ok (nvd_failed b s ws)" "nvd_outcome_ok (None, Some f, ws)"
  by (simp_all add: nvd_failed_def nvd_outcome_ok_def)

lemma nvd_answer_ok: "nvd_answer E c k a ws r st = (Done out, st') \<Longrightarrow> nvd_outcome_ok out"
  by (auto simp: nvd_answer_def nvd_retry_def Let_def nvd_failed_ok parseNVD_ok split: reply.splits if_splits)

lemma nvd_attempt_ok: "nvd_attempt E opts c d a ws st = (Done out, st') \<Longrightarrow> nvd_outcome_ok out"
  by (auto simp: nvd_attempt_def Let_def nvd_failed_ok split: prod.splits if_splits option.splits dest: nvd_answer_ok)

lemma nvd_loop_ok: "nvd_loop E opts c d a ws st = (out, st') \<Longrightarrow> nvd_outcome_ok out \<and> same_cache st st'"
proof (induction E opts c d a ws st arbitrary: out st' rule: nvd_loop.induct)
  case (1 E opts c d a ws st)
  obtain turn s where t: "nvd_attempt E opts c d a ws st = (turn, s)" by fastforce
  show ?case
  proof (cases turn)
    case (Done o')
    then show ?thesis
      using 1(2) t nvd_attempt_ok nvd_attempt_cache [OF t] by (fastforce simp: nvd_loop.simps)
  next
    case (Again a' ws')
    then have "nvd_outcome_ok out \<and> same_cache s st'" using 1 t by (simp add: nvd_loop.simps)
    then show ?thesis
      using nvd_attempt_cache [OF t] same_cache_trans by blast
  qed
qed

lemma fetchNVD_ok: "fetchNVD E opts c st = (out, st') \<Longrightarrow> nvd_outcome_ok out \<and> same_cache st st'"
  by (auto simp: fetchNVD_def enrichDeadline_def Let_def same_cache_def dest!: nvd_loop_ok)

lemma fetchOSV_ok:
  "fetchOSV E i st = ((r, ok, ws), st') \<Longrightarrow> same_cache st st' \<and> (\<forall>x. r = Some x \<longrightarrow> ok \<and> result_ok x)"
  by (auto simp: fetchOSV_def Let_def same_cache_def osv_result_ok split: prod.splits reply.splits sum.splits if_splits)


lemma saveAliasCache_ok:
  "cache_ok st \<Longrightarrow> sev = '''' \<or> known_tier sev \<Longrightarrow> cache_ok (saveAliasCache E opts a sev st)"
  by (auto simp: saveAliasCache_def cache_ok_def)

lemma saveAliasCache_cache [simp]: "en_cache (saveAliasCache E opts a sev st) = en_cache st"
  by (simp add: saveAliasCache_def)

lemma loadAliasCache_ok: "cache_ok st \<Longrightarrow> loadAliasCache E a st = Some sev \<Longrightarrow> sev = '''' \<or> known_tier sev"
  by (auto simp: loadAliasCache_def cache_ok_def split: option.splits if_splits)

definition alias_ok :: "enrich_result option \<Rightarrow> bool" where
  "alias_ok r = (\<forall>x. r = Some x \<longrightarrow> known_tier (er_Severity x) \<and> er_Source x = ''osv'')"

lemma known_not_Nil [simp]: "\<not> known_tier ''''"
  by (simp add: known_tier_def)

lemma alias_hit_ok: "known_tier sev \<Longrightarrow> alias_ok (Some (alias_hit sev a))"
  by (simp add: alias_ok_def alias_hit_def no_result_def)

lemma alias_step_ok:
  assumes "cache_ok st" "fetchOSV E a st = ((r, ok, w), s)"
  shows "cache_ok s \<and> (let sev = (case r of Some r \<Rightarrow> er_Severity r | None \<Rightarrow> '''') in ok \<longrightarrow> sev = '''' \<or> known_tier sev)"
  using assms(1) fetchOSV_ok [OF assms(2)] same_cache_ok assms(2)
  by (auto simp: fetchOSV_def osv_result_def no_result_def Let_def split: prod.splits reply.splits sum.splits if_splits
        intro: severityTier_known [THEN disjE])

lemma alias_loop_ok:
  "alias_loop E opts xs ok ws st = ((r, ok', ws'), st') \<Longrightarrow> cache_ok st
     \<Longrightarrow> cache_ok st' \<and> alias_ok r"
proof (induction xs arbitrary: ok ws st)
  case (Cons a xs)
  obtain o1 k1 w1 s where f: "fetchOSV E a st = ((o1, k1, w1), s)" by (metis prod_cases3 surj_pair)
  define sev where "sev = (case o1 of Some r \<Rightarrow> er_Severity r | None \<Rightarrow> '''')"
  have s: "cache_ok s" "k1 \<Longrightarrow> sev = '''' \<or> known_tier sev"
    using alias_step_ok [OF Cons.prems(2) f] by (auto simp: sev_def Let_def)
  show ?case
  proof (cases "loadAliasCache E a st")
    case (Some c)
    then show ?thesis
      using Cons.prems loadAliasCache_ok [OF Cons.prems(2) Some] by (auto split: if_splits dest: Cons.IH intro: alias_hit_ok)
  next
    case None
    show ?thesis
    proof (cases k1)
      case True
      then show ?thesis
        using Cons.prems None f s saveAliasCache_ok [OF s(1)]
        by (auto simp: Let_def simp flip: sev_def split: if_splits dest!: Cons.IH intro: alias_hit_ok)
    next
      case False
      then show ?thesis
        using Cons.prems None f s by (auto dest: Cons.IH)
    qed
  qed
qed (simp add: alias_ok_def)










lemma apply_published_simps [simp]:
  "v_Severity (apply_published t p v) = v_Severity v" "v_SeveritySource (apply_published t p v) = v_SeveritySource v"
  "v_EnrichmentFailed (apply_published t p v) = v_EnrichmentFailed v" "v_ID (apply_published t p v) = v_ID v"
  "v_SeverityAlias (apply_published t p v) = v_SeverityAlias v"
  "v_EnrichmentErrors (apply_published t p v) = v_EnrichmentErrors v"
  by (simp_all add: apply_published_def Let_def split: option.split)










definition live_source :: "enrich_result option \<Rightarrow> bool" where
  "live_source r = (\<forall>x. r = Some x \<longrightarrow> er_Source x \<notin> {''unscored'', ''none''})"

lemma live_sources:
  "fetchOSV E i st = ((r1, ok, ws), st1) \<Longrightarrow> live_source r1"
  "fetchGHSAByCVE E c st = ((r2, ws), st1) \<Longrightarrow> live_source r2"
  by (auto simp: live_source_def fetchOSV_def fetchGHSAByCVE_def osv_result_def ghsa_result_def no_result_def Let_def
      split: prod.splits reply.splits sum.splits if_splits list.splits)


lemma with_dates_simps [simp]: "er_Severity (with_dates osv r) = er_Severity r" "er_Source (with_dates osv r) = er_Source r"
  by (simp_all add: with_dates_def split: option.split)


lemma cve_of_attempted [simp]: "cve_of (v\<lparr>v_EnrichmentAttempted := b\<rparr>) = cve_of v"
  by (simp add: cve_of_def)


section \<open>Examples\<close>

text \<open>Servers that always answer the same, on a clock that stands still.\<close>

definition fixed_world :: "osv_response reply \<Rightarrow> nvd_response reply \<Rightarrow> ghsa_response list reply \<Rightarrow> unit env" where
  "fixed_world osv nvd ghsa =
     \<lparr>now = (\<lambda>_. date_utc 2026 1 1), sleep = (\<lambda>_ w. (True, w)), ctx_err = (\<lambda>_. None), get_osv = (\<lambda>_ w. (osv, w)),
      get_nvd = (\<lambda>_ _ w. (nvd, w)), get_ghsa = (\<lambda>_ w. (ghsa, w)), parse_number = (\<lambda>_. None), parse_rfc3339 = (\<lambda>_. None),
      parse_nvd_date = (\<lambda>_. None), parse_http_date = (\<lambda>_. None), duration_text = (\<lambda>_. ''3m0s'')\<rparr>"

definition fresh_enricher :: "unit enricher" where
  "fresh_enricher = \<lparr>en_world = (), en_cache = Map.empty, en_aliases = Map.empty, en_keyRejected = False, en_next = zero_time,
     en_deadline = zero_time, en_sent = []\<rparr>"

definition plain_options :: enrich_options where
  "plain_options = \<lparr>eo_NVDAPIKey = '''', eo_budget = 180 * second, eo_fallback = None, eo_writable = True\<rparr>"

definition unknown_called :: enriched_vulnerability where
  "unknown_called = \<lparr>v_ID = ''GO-2026-0001'', v_Aliases = [''CVE-2026-1''], v_Severity = ''UNKNOWN'', v_Reachability = ''called'',
     v_InKEV = False, v_Summary = '''', v_FixedVersion = '''', v_EnrichmentFailed = False, v_FixRequiresGo = '''',
     v_FixReleasedAt = None, v_FixDateSource = '''', v_AffectedPackages = [], v_Condition = '''', v_KEVChecked = False,
     v_SeveritySource = '''', v_EPSSScore = None, v_KEVRansomware = '''', v_PublishedAt = None, v_FixPublishedAt = None,
     v_EnrichmentAttempted = False, v_SeverityAlias = '''', v_EnrichmentErrors = [], v_DaysUnpatched = 0\<rparr>"

definition ghsa_unknown :: ghsa_response where
  "ghsa_unknown = \<lparr>gh_CVSSScore = None, gh_Severity = ''unknown'', gh_PublishedAt = ''''\<rparr>"
definition not_found :: "'a reply" where
  "not_found = Answers 404 (\<lambda>_. '''') (Inl '''')"
definition nvd_empty :: "nvd_response reply" where
  "nvd_empty = Answers 200 (\<lambda>_. '''') (Inr \<lparr>nr_TotalResults = 0, nr_Vulnerabilities = []\<rparr>)"
definition answers :: "'a \<Rightarrow> 'a reply" where
  "answers x = Answers 200 (\<lambda>_. '''') (Inr x)"

text \<open>GitHub's word \<open>unknown\<close> is stored as a severity. A called advisory of unknown severity, which no source scores, sets a
  floor of 51 (HIGH) when GitHub has no advisory; when GitHub has one with severity unknown, the advisory is neither
  scored, nor unscored, nor failed, and sets no floor at all.\<close>

theorem ghsa_unknown_drops_the_floor:
  "(let v = fst (Enrich (fixed_world not_found nvd_empty (answers [])) plain_options unknown_called fresh_enricher)
    in v_Severity v = ''UNKNOWN'' \<and> v_SeveritySource v = ''unscored'' \<and>
       severityFloor clock clock [scored_vulnerability.truncate v] = (51, RiskHigh)) \<and>
   (let v = fst (Enrich (fixed_world not_found nvd_empty (answers [ghsa_unknown])) plain_options unknown_called fresh_enricher)
    in v_Severity v = ''UNKNOWN'' \<and> v_SeveritySource v = ''ghsa'' \<and> \<not> v_EnrichmentFailed v \<and>
       severityFloor clock clock [scored_vulnerability.truncate v] = (0, RiskLow))"
  by code_simp


section \<open>Replay from the cache\<close>

text \<open>The file written for an advisory gives back, at the same instant, the advisory the live lookup returned.\<close>

definition recorded :: "'w env \<Rightarrow> enriched_vulnerability \<Rightarrow> enriched_vulnerability \<Rightarrow> 'w enricher \<Rightarrow> bool" where
  "recorded E v v' st =
     (\<exists>r. en_cache st (v_ID v) = Some \<lparr>ce_Version = currentCacheVersion, ce_FetchedAt = now E (en_world st), ce_Result = Some r\<rparr> \<and>
          fst (apply_cached (now E (en_world st)) (Some r) v) = v')"

lemma recordedI:
  "st = saveCache E opts (v_ID v) r s \<Longrightarrow> eo_writable opts \<Longrightarrow> fst (apply_cached (now E (en_world s)) (Some r) v) = v'
     \<Longrightarrow> recorded E v v' st"
  unfolding recorded_def by (intro exI [of _ r]) (simp add: saveCache_def)

lemma found_recorded:
  assumes "found E opts r v st = (v', st')" "eo_writable opts" "er_Severity r \<noteq> ''''" "er_Source r \<notin> {''unscored'', ''none''}"
  shows "recorded E v v' st'"
  using assms by (intro recordedI [of _ E opts v r st]) (auto simp: found_def Let_def saveCache_def apply_cached_def)

lemma no_severity_recorded:
  assumes "no_severity E opts a f v st = (v', ws, st')" "eo_writable opts" "v_EnrichmentErrors v = []"
  shows "recorded E v v' st'"
proof (cases a)
  case True
  then show ?thesis
    using assms by (intro recordedI [of _ E opts v "no_result\<lparr>er_Source := ''unscored''\<rparr>" st])
      (auto simp: no_severity_def apply_cached_def)
next
  case False
  obtain b reason where f: "(case f of Some f \<Rightarrow> (nf_rateLimited f, nf_reason f) | None \<Rightarrow> (False, '''')) = (b, reason)" by fastforce
  show ?thesis
    using assms False
    by (intro recordedI [of _ E opts v "no_result\<lparr>er_Source := ''none'', er_RateLimited := b, er_FailReason := reason\<rparr>" st])
      (auto simp: no_severity_def f apply_cached_def Let_def markEnrichmentFailed_def)
qed

lemma enrich_by_cve_recorded:
  assumes "enrich_by_cve E opts a v st = (v', ws, st')" "eo_writable opts" "v_EnrichmentErrors v = []"
  shows "recorded E v v' st'"
proof (cases "cve_of v = []")
  case True
  then show ?thesis using assms no_severity_recorded by (simp add: enrich_by_cve_def) blast
next
  case False
  obtain nvd fail w1 s1 where n: "fetchNVD E opts (cve_of v) st = ((nvd, fail, w1), s1)" by (metis prod_cases3 surj_pair)
  obtain ghsa w2 s2 where g: "fetchGHSAByCVE E (cve_of v) s1 = ((ghsa, w2), s2)" by (metis surj_pair)
  have s: "\<And>r. nvd = Some r \<Longrightarrow> er_Source r \<notin> {''unscored'', ''none''}" "\<And>r. ghsa = Some r \<Longrightarrow> er_Source r \<notin> {''unscored'', ''none''}"
    using fetchNVD_ok [OF n] live_sources(2) [OF g] by (auto simp: nvd_outcome_ok_def live_source_def)
  show ?thesis
    using assms False n g s
    by (auto simp: enrich_by_cve_def Let_def has_severity_def split: if_splits prod.splits option.splits
          intro: found_recorded no_severity_recorded)
qed

lemma enrich_live_recorded:
  assumes "enrich_live E opts v st = (v', ws, st')" "eo_writable opts" "v_EnrichmentErrors v = []" "cache_ok st"
  shows "recorded E v v' st'"
proof -
  obtain osv ok w1 s1 where o: "fetchOSV E (v_ID v) st = ((osv, ok, w1), s1)" by (metis prod_cases3 surj_pair)
  obtain ali aok w2 s2 where a: "lookupAliases E opts v s1 = ((ali, aok, w2), s2)" by (metis prod_cases3 surj_pair)
  have "cache_ok s1" using fetchOSV_ok [OF o] same_cache_ok assms(4) by auto
  then have "alias_ok ali" using a alias_loop_ok by (simp add: lookupAliases_def) blast
  then have "er_Severity (with_dates osv r) \<noteq> '''' \<and> er_Source (with_dates osv r) \<notin> {''unscored'', ''none''}" if "ali = Some r" for r
    using that by (auto simp: alias_ok_def)
  moreover have "er_Source r \<notin> {''unscored'', ''none''}" if "osv = Some r" for r
    using live_sources(1) [OF o] that by (simp add: live_source_def)
  ultimately show ?thesis
    using assms(1-3) o a
    by (auto simp: enrich_live_def Let_def has_severity_def split: if_splits prod.splits option.splits
          intro: found_recorded enrich_by_cve_recorded)
qed

text \<open>At another instant only the age of the fix can differ.\<close>

lemma apply_published_time:
  "(apply_published t p v)\<lparr>v_DaysUnpatched := d\<rparr> = (apply_published t' p v)\<lparr>v_DaysUnpatched := d\<rparr>"
  by (simp add: apply_published_def Let_def split: option.split)

lemma apply_cached_time:
  "(fst (apply_cached t c v))\<lparr>v_DaysUnpatched := d\<rparr> = (fst (apply_cached t' c v))\<lparr>v_DaysUnpatched := d\<rparr>"
  by (auto simp: apply_cached_def Let_def applyEnrichResult_def split: option.split intro: apply_published_time)

lemma recorded_hit:
  assumes "recorded E v v1 st1" "en_cache st2 = en_cache st1"
    and "Sub (now E (en_world st2)) (now E (en_world st1)) \<le> cacheRateLimitFailTTL"
  obtains r where "loadCache E (v_ID v) st2 = Some (Some r)" "fst (apply_cached (now E (en_world st1)) (Some r) v) = v1"
proof -
  obtain r where r: "en_cache st1 (v_ID v) =
      Some \<lparr>ce_Version = currentCacheVersion, ce_FetchedAt = now E (en_world st1), ce_Result = Some r\<rparr>"
    "fst (apply_cached (now E (en_world st1)) (Some r) v) = v1"
    using assms(1) by (auto simp: recorded_def)
  have "cacheRateLimitFailTTL \<le> cache_ttl (Some r)"
    by (simp add: cache_ttl_def cacheRateLimitFailTTL_def cacheFailTTL_def cacheTTL_def hour_def second_def)
  then have "loadCache E (v_ID v) st2 = Some (Some r)"
    using r(1) assms(2,3) by (simp add: loadCache_def)
  then show ?thesis using that r(2) by blast
qed

text \<open>C10: Looked up again from the cache within two minutes, an advisory gets the outcome of the live lookup, whichever it
  was, up to the age of its fix in days, and no request is sent.\<close>

theorem cache_replays_the_lookup:
  assumes "v_Severity v = '''' \<or> v_Severity v = ''UNKNOWN''" "validateVulnID (v_ID v)" "v_EnrichmentErrors v = []"
    and "loadCache E (v_ID v) st = None" "eo_writable opts" "cache_ok st"
    and "Enrich E opts v st = (v1, ws1, st1)" "en_cache st2 = en_cache st1"
    and "Sub (now E (en_world st2)) (now E (en_world st1)) \<le> cacheRateLimitFailTTL"
    and "Enrich E opts v st2 = (v2, ws2, st3)"
  shows "v2\<lparr>v_DaysUnpatched := d\<rparr> = v1\<lparr>v_DaysUnpatched := d\<rparr> \<and> st3 = st2"
proof -
  let ?v = "v\<lparr>v_EnrichmentAttempted := True\<rparr>"
  obtain v' w' where l: "enrich_live E opts ?v st = (v', w', st1)" "v1 = v'"
    using assms(7) Enrich_live [OF assms(1,2,4), of opts] by (auto simp: Let_def split: prod.splits)
  have "recorded E ?v v1 st1"
    using enrich_live_recorded [OF l(1) assms(5) _ assms(6)] assms(3) l(2) by simp
  then obtain r where r: "loadCache E (v_ID v) st2 = Some (Some r)"
    "fst (apply_cached (now E (en_world st1)) (Some r) ?v) = v1"
    using recorded_hit [OF _ assms(8,9), of ?v v1] by auto
  have "v2 = fst (apply_cached (now E (en_world st2)) (Some r) ?v) \<and> st3 = st2"
    using assms(10) Enrich_cached [OF assms(1,2) r(1), of opts] by (auto split: prod.splits)
  then show ?thesis
    using r(2) apply_cached_time by metis
qed

theorem cache_replays_the_lookup_witness:
  "let E = fixed_world not_found nvd_empty (answers []);
       (v1, ws1, st1) = Enrich E plain_options unknown_called fresh_enricher;
       (v2, ws2, st2) = Enrich E plain_options unknown_called st1
   in v2\<lparr>v_DaysUnpatched := 0\<rparr> = v1\<lparr>v_DaysUnpatched := 0\<rparr> \<and> st2 = st1"
proof -
  let ?E = "fixed_world not_found nvd_empty (answers [])"
  obtain v1 ws1 st1 where 1: "Enrich ?E plain_options unknown_called fresh_enricher = (v1, ws1, st1)" by (metis prod_cases3)
  obtain v2 ws2 st2 where 2: "Enrich ?E plain_options unknown_called st1 = (v2, ws2, st2)" by (metis prod_cases3)
  have "v_Severity unknown_called = ''UNKNOWN''" "validateVulnID (v_ID unknown_called)" "v_EnrichmentErrors unknown_called = []"
    "eo_writable plain_options"
    by code_simp+
  moreover have "loadCache ?E (v_ID unknown_called) fresh_enricher = None" "cache_ok fresh_enricher"
    by (simp_all add: loadCache_def cache_ok_def fresh_enricher_def)
  moreover have "Sub (now ?E (en_world st1)) (now ?E (en_world st1)) \<le> cacheRateLimitFailTTL"
    by (simp add: Sub_def max_dur_def min_dur_def cacheRateLimitFailTTL_def second_def)
  ultimately have "v2\<lparr>v_DaysUnpatched := 0\<rparr> = v1\<lparr>v_DaysUnpatched := 0\<rparr> \<and> st2 = st1"
    using cache_replays_the_lookup [of unknown_called ?E fresh_enricher plain_options v1 ws1 st1 st1 v2 ws2 st2 0] 1 2 by simp
  then show ?thesis using 1 2 by simp
qed

end
