(* ===== verification/Nvd_Props.thy ===== *)
theory Nvd_Props
  imports Nvd
begin

text \<open>
  The pacer as a state machine: its lock makes every reservation, refusal and delay one step, and the steps
  of any number of lookups may interleave. Starts are spaced in every run, and a lookup is such a run with
  one reservation for each request it sends. A lookup recovers from failed attempts that fit its budget.
\<close>

section \<open>Runs of the pacer\<close>

text \<open>A reservation records the start and the spacing asked for.\<close>

datatype pacer_event = Reserve gotime int | Refuse | Delay gotime

inductive pacer_step :: "gotime \<Rightarrow> pacer_event \<Rightarrow> gotime \<Rightarrow> bool" where
  reserve: "pacer_reserve t spacing deadline next = (Some start, next') \<Longrightarrow> pacer_step next (Reserve start spacing) next'"
| refuse: "pacer_reserve t spacing deadline next = (None, next') \<Longrightarrow> pacer_step next Refuse next'"
| delay: "pacer_step next (Delay t) (delayUntil t next)"

inductive_cases pacer_stepE: "pacer_step next e next'"

inductive pacer_run :: "gotime \<Rightarrow> pacer_event list \<Rightarrow> gotime \<Rightarrow> bool" where
  stop: "pacer_run next [] next"
| step: "pacer_run next es mid \<Longrightarrow> pacer_step mid e next' \<Longrightarrow> pacer_run next (es @ [e]) next'"

fun reservations :: "pacer_event list \<Rightarrow> (gotime \<times> int) list" where
  "reservations [] = []"
| "reservations (Reserve start spacing # es) = (start, spacing) # reservations es"
| "reservations (_ # es) = reservations es"

lemma reservations_append [simp]: "reservations (es @ fs) = reservations es @ reservations fs"
  by (induction es rule: reservations.induct) simp_all

lemma pacer_run_append: "pacer_run m fs n' \<Longrightarrow> pacer_run n es m \<Longrightarrow> pacer_run n (es @ fs) n'"
  by (induction rule: pacer_run.induct) (auto simp flip: append_assoc intro: pacer_run.step)

lemma pacer_step_mono:
  assumes "pacer_step n e n'" "\<forall>s sp. e = Reserve s sp \<longrightarrow> 0 \<le> sp"
  shows "t_ns n \<le> t_ns n'"
  using assms
  by (auto elim!: pacer_stepE simp: pacer_reserve_def pacer_start_def delayUntil_def Add_def After_def Let_def split: if_splits)

text \<open>Every earlier reservation ends before the earliest next start, hence before the next reservation.\<close>

definition before :: "gotime \<times> int \<Rightarrow> gotime \<times> int \<Rightarrow> bool" where
  "before a b = (t_ns (fst a) + snd a \<le> t_ns (fst b))"

lemma pacer_run_spaced:
  assumes "pacer_run n es n'" "\<forall>r \<in> set (reservations es). 0 \<le> snd r"
  shows "(\<forall>r \<in> set (reservations es). t_ns (fst r) + snd r \<le> t_ns n') \<and> sorted_wrt before (reservations es)"
  using assms
proof (induction rule: pacer_run.induct)
  case (step n es m e n')
  then have IH: "\<forall>r \<in> set (reservations es). t_ns (fst r) + snd r \<le> t_ns m" "sorted_wrt before (reservations es)"
    by auto
  have mono: "t_ns m \<le> t_ns n'"
    using step.hyps(2) step.prems by (intro pacer_step_mono) auto
  from step.hyps(2) show ?case
  proof (cases rule: pacer_step.cases)
    case (reserve t spacing deadline start)
    then have "t_ns m \<le> t_ns start" "t_ns start + spacing = t_ns n'"
      by (auto simp: pacer_reserve_def pacer_start_def Add_def After_def Let_def split: if_splits)
    moreover have "\<forall>r \<in> set (reservations es). before r (start, spacing)"
      using IH(1) \<open>t_ns m \<le> t_ns start\<close> by (auto simp: before_def intro: order.trans)
    moreover have "\<forall>r \<in> set (reservations es). t_ns (fst r) + snd r \<le> t_ns n'"
      using IH(1) mono by (auto intro: order.trans)
    ultimately show ?thesis
      using IH(2) reserve(1) by (auto simp: sorted_wrt_append)
  qed (use IH mono in \<open>auto intro: order.trans\<close>)
qed simp

text \<open>A stretch of spaced starts is long.\<close>

lemma spaced_stretch:
  assumes "sorted_wrt before rs" "\<forall>r \<in> set rs. s \<le> snd r" "rs \<noteq> []" "0 \<le> s"
  shows "t_ns (fst (hd rs)) + int (length rs - 1) * s \<le> t_ns (fst (last rs))"
  using assms
proof (induction rs)
  case (Cons r rs)
  show ?case
  proof (cases rs)
    case (Cons r' rs')
    then have "t_ns (fst r') + int (length rs') * s \<le> t_ns (fst (last rs))"
      using Cons.IH Cons.prems by simp
    moreover have "t_ns (fst r) + s \<le> t_ns (fst r')"
      using Cons.prems Cons by (auto simp: before_def)
    ultimately show ?thesis
      using Cons by (simp add: algebra_simps)
  qed simp
qed simp

definition starts_in :: "int \<Rightarrow> int \<Rightarrow> pacer_event list \<Rightarrow> nat" where
  "starts_in t w es = length (filter (\<lambda>r. t \<le> t_ns (fst r) \<and> t_ns (fst r) < t + w) (reservations es))"

lemma starts_in_bound:
  assumes "pacer_run n es n'" "\<forall>r \<in> set (reservations es). s \<le> snd r" "0 < s" "starts_in t w es \<noteq> 0"
  shows "(int (starts_in t w es) - 1) * s < w"
proof -
  let ?rs = "filter (\<lambda>r. t \<le> t_ns (fst r) \<and> t_ns (fst r) < t + w) (reservations es)"
  have "sorted_wrt before (reservations es)"
    using pacer_run_spaced assms(1-3) by (meson less_imp_le order_trans)
  then have "sorted_wrt before ?rs" by (rule sorted_wrt_filter)
  moreover have ne: "?rs \<noteq> []" using assms(4) by (auto simp: starts_in_def)
  ultimately have "t_ns (fst (hd ?rs)) + int (length ?rs - 1) * s \<le> t_ns (fst (last ?rs))"
    using assms(2,3) by (intro spaced_stretch) auto
  moreover have "t \<le> t_ns (fst (hd ?rs))" "t_ns (fst (last ?rs)) < t + w"
    using hd_in_set [OF ne] last_in_set [OF ne] by auto
  moreover have "int (length ?rs - 1) = int (length ?rs) - 1" using ne by (cases ?rs) auto
  ultimately show ?thesis by (simp add: starts_in_def)
qed

text \<open>C12: However the lookups of a process interleave, and whatever their clocks say, at most five requests without a
  key are scheduled to start within any thirty seconds, and at most 43 (NVD allows 50) when some carry a key.\<close>

theorem nvd_rate_respected:
  assumes "pacer_run n es n'"
  shows "((\<forall>r \<in> set (reservations es). nvdSpacingKeyless \<le> snd r) \<longrightarrow> starts_in t (30 * second) es \<le> 5) \<and>
    ((\<forall>r \<in> set (reservations es). nvdSpacingKeyed \<le> snd r) \<longrightarrow> starts_in t (30 * second) es \<le> 43)"
proof -
  have "starts_in t (30 * second) es \<le> 5" if "\<forall>r \<in> set (reservations es). nvdSpacingKeyless \<le> snd r"
    using starts_in_bound [OF assms that, of t "30 * second"]
    by (cases "starts_in t (30 * second) es = 0") (simp_all add: nvdSpacingKeyless_def second_def)
  moreover have "starts_in t (30 * second) es \<le> 43" if "\<forall>r \<in> set (reservations es). nvdSpacingKeyed \<le> snd r"
    using starts_in_bound [OF assms that, of t "30 * second"]
    by (cases "starts_in t (30 * second) es = 0") (simp_all add: nvdSpacingKeyed_def second_def)
  ultimately show ?thesis by blast
qed

theorem nvd_rate_respected_witness:
  "starts_in 0 (30 * second) [Reserve zero_time nvdSpacingKeyless, Refuse] \<le> 5"
proof -
  have "pacer_reserve zero_time nvdSpacingKeyless zero_time zero_time = (Some zero_time, Add zero_time nvdSpacingKeyless)"
    by (simp add: pacer_reserve_def pacer_start_def IsZero_def After_def zero_time_def Let_def)
  then have "pacer_run zero_time ([] @ [Reserve zero_time nvdSpacingKeyless]) (Add zero_time nvdSpacingKeyless)"
    by (rule pacer_run.step [OF pacer_run.stop pacer_step.reserve])
  moreover have "pacer_reserve (Add zero_time 1) 0 (Add zero_time 1) (Add zero_time nvdSpacingKeyless) = (None, Add zero_time nvdSpacingKeyless)"
    by (simp add: pacer_reserve_def pacer_start_def IsZero_def After_def zero_time_def Add_def nvdSpacingKeyless_def Let_def)
  ultimately have "pacer_run zero_time ([Reserve zero_time nvdSpacingKeyless] @ [Refuse]) (Add zero_time nvdSpacingKeyless)"
    by (intro pacer_run.step pacer_step.refuse) auto
  then show ?thesis
    using nvd_rate_respected [of zero_time "[Reserve zero_time nvdSpacingKeyless, Refuse]"] by simp
qed

section \<open>A lookup is a run\<close>

definition reservation_ok :: "enrich_options \<Rightarrow> gotime \<Rightarrow> gotime \<times> int \<Rightarrow> bool" where
  "reservation_ok opts deadline r =
     ((IsZero deadline \<or> \<not> After (fst r) deadline) \<and>
      (snd r = nvdSpacingKeyless \<or> snd r = nvdSpacingKeyed \<and> eo_NVDAPIKey opts \<noteq> ''''))"

definition paced :: "enrich_options \<Rightarrow> gotime \<Rightarrow> 'w enricher \<Rightarrow> 'w enricher \<Rightarrow> bool" where
  "paced opts deadline st st' =
     (\<exists>es. pacer_run (en_next st) es (en_next st') \<and> list_all (reservation_ok opts deadline) (reservations es) \<and>
           length (en_sent st') \<le> length (en_sent st) + length (reservations es))"

lemma paced_trans: "paced opts dl a b \<Longrightarrow> paced opts dl b c \<Longrightarrow> paced opts dl a c"
  unfolding paced_def
  by (elim exE conjE, rule_tac x = "es @ esa" in exI) (auto intro: pacer_run_append)

lemma paced_same: "en_next st' = en_next st \<Longrightarrow> en_sent st' = en_sent st \<Longrightarrow> paced opts dl st st'"
  by (auto simp: paced_def intro!: exI [of _ "[]"] pacer_run.stop)

lemma paced_step:
  "pacer_step (en_next st) e (en_next st') \<Longrightarrow> list_all (reservation_ok opts dl) (reservations [e]) \<Longrightarrow>
   length (en_sent st') \<le> length (en_sent st) + length (reservations [e]) \<Longrightarrow> paced opts dl st st'"
  using pacer_run.step [OF pacer_run.stop, of "en_next st" e "en_next st'"] by (auto simp: paced_def)

lemma paced_delay: "paced opts dl st (st\<lparr>en_next := delayUntil t (en_next st)\<rparr>)"
  by (rule paced_step [where e = "Delay t"]) (simp_all add: pacer_step.delay)

lemma pacer_wait_step:
  assumes "pacer_wait E spacing dl st = (ok, st')"
  obtains (reserved) start where "pacer_step (en_next st) (Reserve start spacing) (en_next st')" "en_sent st' = en_sent st"
      "IsZero dl \<or> \<not> After start dl"
    | (refused) "pacer_step (en_next st) Refuse (en_next st')" "en_sent st' = en_sent st" "\<not> ok"
  using assms
  by (fastforce simp: pacer_wait_def pacer_reserve_def Let_def split: if_splits prod.splits
      intro: pacer_step.reserve [unfolded pacer_reserve_def Let_def] pacer_step.refuse [unfolded pacer_reserve_def Let_def])

lemma nvd_retry_paced: "nvd_retry E a ws f m ra st = (turn, st') \<Longrightarrow> paced opts dl st st'"
  by (auto simp: nvd_retry_def Let_def split: if_splits intro: paced_same paced_delay)

lemma paced_fields [simp]:
  "paced opts dl st (s\<lparr>en_keyRejected := b\<rparr>) = paced opts dl st s"
  "paced opts dl (st\<lparr>en_keyRejected := b\<rparr>) s = paced opts dl st s"
  by (simp_all add: paced_def)

lemma nvd_answer_paced: "nvd_answer E c k a ws r st = (turn, st') \<Longrightarrow> paced opts dl st st'"
  by (auto simp: nvd_answer_def Let_def paced_same split: reply.splits if_splits dest: nvd_retry_paced)

text \<open>A request follows a reservation, and is the only one that does.\<close>

lemma paced_request:
  assumes "pacer_wait E spacing dl st = (ok, st')"
    and "spacing = nvdSpacingKeyless \<or> spacing = nvdSpacingKeyed \<and> eo_NVDAPIKey opts \<noteq> ''''"
  shows "paced opts dl st st' \<and> (ok \<longrightarrow> paced opts dl st (st'\<lparr>en_world := w, en_sent := en_sent st' @ [x]\<rparr>))"
  using assms(1)
proof (cases rule: pacer_wait_step)
  case (reserved start)
  then have "list_all (reservation_ok opts dl) (reservations [Reserve start spacing])"
    using assms(2) by (simp add: reservation_ok_def)
  then show ?thesis
    using reserved by (auto intro!: paced_step [where e = "Reserve start spacing"])
next
  case refused
  then show ?thesis by (auto intro!: paced_step [where e = Refuse])
qed

lemma nvd_attempt_paced:
  assumes "nvd_attempt E opts c dl a ws st = (turn, st')"
  shows "paced opts dl st st'"
proof -
  obtain use ws1 s0 where k: "choose_key opts ws st = (use, ws1, s0)" by (metis prod_cases3)
  define sp where "sp = (if use then nvdSpacingKeyed else nvdSpacingKeyless)"
  obtain ok s1 where w: "pacer_wait E sp dl s0 = (ok, s1)" by fastforce
  obtain r wd where g: "get_nvd E (if use then Some (eo_NVDAPIKey opts) else None) c (en_world s1) = (r, wd)" by fastforce
  let ?s2 = "s1\<lparr>en_world := wd, en_sent := en_sent s1 @ [(''services.nvd.nist.gov'', c)]\<rparr>"
  have "sp = nvdSpacingKeyless \<or> sp = nvdSpacingKeyed \<and> eo_NVDAPIKey opts \<noteq> ''''"
    using choose_key_cases(1) [OF k] by (auto simp: sp_def)
  moreover have "paced opts dl s0 s = paced opts dl st s" for s
    by (subst choose_key_cases(3) [OF k]) simp
  ultimately have p: "paced opts dl st s1" "ok \<Longrightarrow> paced opts dl st ?s2"
    using paced_request [OF w, of opts] by blast+
  have "st' = s1 \<and> \<not> ok \<or> ok \<and> (\<exists>ws turn. nvd_answer E c use a ws r ?s2 = (turn, st'))"
    using assms w g by (auto simp: nvd_attempt_def k Let_def simp flip: sp_def split: if_splits option.splits)
  then show ?thesis
    using p nvd_answer_paced paced_trans by blast
qed

lemma nvd_loop_paced: "nvd_loop E opts c dl a ws st = (out, st') \<Longrightarrow> paced opts dl st st'"
proof (induction E opts c dl a ws st arbitrary: out st' rule: nvd_loop.induct)
  case (1 E opts c dl a ws st)
  obtain turn s where t: "nvd_attempt E opts c dl a ws st = (turn, s)" by fastforce
  note one = nvd_attempt_paced [OF t]
  show ?case
  proof (cases turn)
    case (Done o')
    then show ?thesis using 1(2) t one by (simp add: nvd_loop.simps)
  next
    case (Again a' ws')
    then have "paced opts dl s st'" using 1 t by (simp add: nvd_loop.simps)
    then show ?thesis using one paced_trans by blast
  qed
qed

text \<open>Every request of an NVD lookup has a reservation of its own, spaced for a key only when there is one, and none is
  scheduled after the end of the enricher's budget.\<close>

theorem nvd_lookup_is_paced:
  "paced opts (fst (enrichDeadline E opts st)) st (snd (fetchNVD E opts c st))"
proof -
  obtain dl s where d: "enrichDeadline E opts st = (dl, s)" by fastforce
  then have "paced opts dl st s'" if "paced opts dl s s'" for s'
    using that by (auto simp: enrichDeadline_def paced_def Let_def)
  moreover have "paced opts dl s (snd (nvd_loop E opts c dl 0 [] s))"
    by (rule nvd_loop_paced [OF surjective_pairing])
  ultimately show ?thesis
    by (simp add: fetchNVD_def d)
qed

lemma parseRetryAfter_seconds:
  assumes "Atoi (TrimSpace h) = Some secs" "0 \<le> secs" "secs \<le> 9223372036"
  shows "parseRetryAfter E h t = Some (min (secs * second) nvdRetryAfterCap)"
proof -
  have "TrimSpace h \<noteq> ''''" using assms(1) by (auto simp: Atoi_def)
  then show ?thesis
    using assms by (simp add: parseRetryAfter_def wrap64_id second_def)
qed

text \<open>A \<open>Retry-After\<close> of 9223372036 seconds is honoured up to the cap of a minute; one of 9999999999 overflows the
  64-bit nanoseconds and is read as no wait at all.\<close>

theorem retry_after_overflows:
  "parseRetryAfter E ''9223372036'' t = Some nvdRetryAfterCap \<and> parseRetryAfter E ''9999999999'' t = Some 0"
proof -
  have "Atoi (TrimSpace ''9223372036'') = Some 9223372036" "Atoi (TrimSpace ''9999999999'') = Some 9999999999"
    "TrimSpace ''9999999999'' \<noteq> ''''" "wrap64 (9999999999 * second) < 0"
    by code_simp+
  then show ?thesis
    using parseRetryAfter_seconds [of "''9223372036''" 9223372036 E t]
    by (simp add: parseRetryAfter_def second_def nvdRetryAfterCap_def)
qed

section \<open>Recovery\<close>

text \<open>
  A server that follows a script, on a clock that is never stopped: of each attempt the script says how late the sleep
  before it ends, how long the answer takes, and what it is. An answer that is worth a retry is a transport error, HTTP
  429, 403 or a server error, with any \<open>Retry-After\<close>.
\<close>

type_synonym scripted_attempt = "int \<times> int \<times> nvd_response reply"

definition scripted :: "(string \<Rightarrow> gotime option) \<Rightarrow> (scripted_attempt list \<times> gotime) env" where
  "scripted dates =
     \<lparr>now = snd,
      sleep = (\<lambda>d w. (True, (fst w, Add (snd w) (max 0 d + (case fst w of [] \<Rightarrow> 0 | (late, _, _) # _ \<Rightarrow> late))))),
      ctx_err = (\<lambda>_. None), get_osv = (\<lambda>_ w. (Fails '''', w)),
      get_nvd = (\<lambda>_ _ w. (case fst w of [] \<Rightarrow> (Fails '''', w) | (_, lat, r) # ts \<Rightarrow> (r, (ts, Add (snd w) lat)))),
      get_ghsa = (\<lambda>_ w. (Fails '''', w)), parse_number = (\<lambda>_. None), parse_rfc3339 = (\<lambda>_. None),
      parse_nvd_date = (\<lambda>_. None), parse_http_date = dates, duration_text = (\<lambda>_. '''')\<rparr>"

fun worth_a_retry :: "'a reply \<Rightarrow> bool" where
  "worth_a_retry (Fails _) = True"
| "worth_a_retry (Answers code _ _) = (code = 429 \<or> code = 403 \<or> 500 \<le> code)"

definition failing :: "scripted_attempt \<Rightarrow> bool" where
  "failing = (\<lambda>(late, lat, r). 0 \<le> late \<and> 0 \<le> lat \<and> worth_a_retry r)"

text \<open>
  What a failed attempt may cost: its lateness, its latency and the pause after it. The pause is 5, 10 and 20 seconds
  without a \<open>Retry-After\<close>, the seconds it asks for, at most a minute, and at least the spacing of two requests.
\<close>

definition pause :: "nat \<Rightarrow> 'a reply \<Rightarrow> int" where
  "pause a r =
     (case r of
        Fails _ \<Rightarrow> nvdBackoffBase * 2 ^ a
      | Answers _ hdr _ \<Rightarrow>
          (let h = TrimSpace (hdr ''Retry-After'')
           in if h = '''' then nvdBackoffBase * 2 ^ a
              else case Atoi h of
                     Some secs \<Rightarrow> if 0 \<le> secs \<and> secs \<le> 60 then secs * second else 60 * second
                   | None \<Rightarrow> 60 * second))"

definition attempt_cost :: "nat \<Rightarrow> scripted_attempt \<Rightarrow> int" where
  "attempt_cost a = (\<lambda>(late, lat, r). late + lat + max (pause a r) nvdSpacingKeyless)"

fun total_cost :: "nat \<Rightarrow> scripted_attempt list \<Rightarrow> int" where
  "total_cost a [] = 0"
| "total_cost a (t # ts) = attempt_cost a t + total_cost (a + 1) ts"

text \<open>The world of an attempt: what is still to come, and room for what may fail before the deadline.\<close>

definition on_script :: "gotime \<Rightarrow> nat \<Rightarrow> scripted_attempt list \<Rightarrow> scripted_attempt list \<Rightarrow>
    (scripted_attempt list \<times> gotime) enricher \<Rightarrow> bool" where
  "on_script dl a ts rest st =
     (fst (en_world st) = ts @ rest \<and> t_ns (pacer_start (snd (en_world st)) (en_next st)) + total_cost a ts \<le> t_ns dl)"

lemma total_cost_nonneg: "list_all failing ts \<Longrightarrow> 0 \<le> total_cost a ts"
  by (induction ts arbitrary: a) (auto simp: failing_def attempt_cost_def nvdSpacingKeyless_def)

lemma Sub_at_most: "t_ns t \<le> t_ns u \<Longrightarrow> max 0 (Sub u t) \<le> t_ns u - t_ns t"
  by (auto simp: Sub_def max_dur_def min_dur_def)

lemma scripted_wait:
  assumes "on_script dl a ts rest st" "list_all failing ts" "fst (en_world st) = (late, lat, r) # later"
  obtains st' where "pacer_wait (scripted dates) spacing dl st = (True, st')" "fst (en_world st') = fst (en_world st)"
    "t_ns (snd (en_world st')) \<le> t_ns (pacer_start (snd (en_world st)) (en_next st)) + late"
    "en_next st' = Add (pacer_start (snd (en_world st)) (en_next st)) spacing"
proof -
  let ?t = "snd (en_world st)" and ?start = "pacer_start (snd (en_world st)) (en_next st)"
  have s: "t_ns ?t \<le> t_ns ?start" "t_ns ?start \<le> t_ns dl"
    using assms(1) total_cost_nonneg [OF assms(2), of a] by (auto simp: on_script_def pacer_start_def After_def)
  then have r: "pacer_reserve ?t spacing dl (en_next st) = (Some ?start, Add ?start spacing)"
    by (simp add: pacer_reserve_def After_def Let_def)
  let ?st' = "st\<lparr>en_next := Add ?start spacing,
    en_world := (fst (en_world st), Add ?t (max 0 (Sub ?start ?t) + late))\<rparr>"
  have "pacer_wait (scripted dates) spacing dl st = (True, ?st')"
    using assms(3) by (simp add: pacer_wait_def scripted_def r Let_def)
  then show ?thesis
    by (rule that) (use Sub_at_most [OF s(1)] in \<open>auto simp: Add_def max_def split: if_splits\<close>)
qed

lemma keyless: "eo_NVDAPIKey opts = '''' \<Longrightarrow> choose_key opts ws st = (False, ws, st)"
  by (simp add: choose_key_def)

text \<open>An attempt is answered by the head of the script, its lateness and latency after the start.\<close>

lemma scripted_attempt:
  assumes "on_script dl a ts rest st" "list_all failing ts" "ts @ rest = (late, lat, r) # later" "eo_NVDAPIKey opts = ''''"
  obtains s where "fst (en_world s) = later"
    "t_ns (snd (en_world s)) \<le> t_ns (pacer_start (snd (en_world st)) (en_next st)) + late + lat"
    "en_next s = Add (pacer_start (snd (en_world st)) (en_next st)) nvdSpacingKeyless"
    "nvd_attempt (scripted dates) opts c dl a ws st = nvd_answer (scripted dates) c False a ws r s"
proof -
  have e: "fst (en_world st) = (late, lat, r) # later" using assms(1,3) by (simp add: on_script_def)
  obtain s1 where w: "pacer_wait (scripted dates) nvdSpacingKeyless dl st = (True, s1)"
    "fst (en_world s1) = (late, lat, r) # later"
    "t_ns (snd (en_world s1)) \<le> t_ns (pacer_start (snd (en_world st)) (en_next st)) + late"
    "en_next s1 = Add (pacer_start (snd (en_world st)) (en_next st)) nvdSpacingKeyless"
    using scripted_wait [OF assms(1,2) e] e by metis
  let ?s = "s1\<lparr>en_world := (later, Add (snd (en_world s1)) lat), en_sent := en_sent s1 @ [(''services.nvd.nist.gov'', c)]\<rparr>"
  show ?thesis
    by (rule that [of ?s]) (use w in \<open>simp_all add: nvd_attempt_def keyless [OF assms(4)] scripted_def Add_def\<close>)
qed









text \<open>The default budget, \<open>DefaultEnrichBudget\<close>.\<close>

definition default_budget :: int where "default_budget = 3 * 60 * second"



definition empty_nvd :: nvd_response where
  "empty_nvd = \<lparr>nr_TotalResults = 0, nr_Vulnerabilities = []\<rparr>"

definition first_lookup :: "scripted_attempt list \<Rightarrow> (scripted_attempt list \<times> gotime) enricher" where
  "first_lookup ts =
     \<lparr>en_world = (ts, date_utc 2026 1 1), en_cache = Map.empty, en_aliases = Map.empty, en_keyRejected = False,
      en_next = zero_time, en_deadline = zero_time, en_sent = []\<rparr>"

definition default_options :: enrich_options where
  "default_options = \<lparr>eo_NVDAPIKey = '''', eo_budget = default_budget, eo_fallback = None, eo_writable = True\<rparr>"


text \<open>The condition is needed: the default budget is three pauses of a minute, so three answers that ask for a minute each
  leave no time for the fourth as soon as one of them takes any time at all.\<close>

theorem minute_waits_use_up_the_budget:
  "let minute = (0, 0, Answers 429 (\<lambda>_. ''60'') (Inl '''')); ok = (0, 0, Answers 200 (\<lambda>_. '''') (Inr empty_nvd))
   in fst (fst (fetchNVD (scripted (\<lambda>_. None)) default_options ''CVE-2026-1'' (first_lookup [minute, minute, minute, ok]))) = Some no_result
    \<and> fst (fst (fetchNVD (scripted (\<lambda>_. None)) default_options ''CVE-2026-1''
        (first_lookup [(0, 1, Answers 429 (\<lambda>_. ''60'') (Inl '''')), minute, minute, ok]))) = None"
  by code_simp

end
