(* ===== verification/Warnings.thy ===== *)
theory Warnings
  imports Enrich Go_Text
begin

text \<open>
  \<open>collapseSeverityLookupWarnings\<close> of \<open>pkg/scanner/vuln.go\<close>: the warnings of many lookups become one summary
  per kind, where the first of them stood.
\<close>

definition maxListedFailedIDs :: nat where "maxListedFailedIDs = 5"

record collapsed =
  cl_out :: "string list"
  cl_ids :: "string list"
  cl_first :: "(nat \<times> string) option"

definition warned_id :: "string \<Rightarrow> string \<Rightarrow> string" where
  "warned_id p w = takeWhile (\<lambda>c. c \<noteq> CHR '';'') (TrimPrefix w p)"

definition collapse_step :: "string \<Rightarrow> string \<Rightarrow> collapsed \<Rightarrow> collapsed" where
  "collapse_step p w c =
     (if \<not> HasPrefix w p then c\<lparr>cl_out := cl_out c @ [w]\<rparr>
      else let c = (if cl_first c = None then c\<lparr>cl_first := Some (length (cl_out c), w)\<rparr> else c)
        in if warned_id p w \<in> set (cl_ids c) then c else c\<lparr>cl_ids := cl_ids c @ [warned_id p w]\<rparr>)"

definition insert_at :: "nat \<Rightarrow> 'a \<Rightarrow> 'a list \<Rightarrow> 'a list" where
  "insert_at n x xs = take n xs @ x # drop n xs"

text \<open>The ellipsis is U+2026 in UTF-8.\<close>

definition group_summary :: "string \<Rightarrow> string \<Rightarrow> string list \<Rightarrow> string" where
  "group_summary p t ids =
     (let sorted = sort_strings ids;
          listed = take maxListedFailedIDs sorted;
          ellipsis = (if length sorted > maxListedFailedIDs then '', '' @ [CHR 0xE2, CHR 0x80, CHR 0xA6] else '''')
      in p @ itoa (int (length ids)) @ '' '' @ t @ '' ('' @ Join listed '', '' @ ellipsis @ '')'')"

definition collapse_scan :: "string list \<Rightarrow> string \<Rightarrow> collapsed" where
  "collapse_scan ws p = fold (collapse_step p) ws \<lparr>cl_out = [], cl_ids = [], cl_first = None\<rparr>"

definition collapseWarningGroup :: "string list \<Rightarrow> string \<Rightarrow> string \<Rightarrow> string list" where
  "collapseWarningGroup ws p t =
     (let c = collapse_scan ws p
      in case cl_first c of
           None \<Rightarrow> cl_out c
         | Some (n, first) \<Rightarrow>
             insert_at n (if length (cl_ids c) = 1 then first else group_summary p t (cl_ids c)) (cl_out c))"

definition collapseSeverityLookupWarnings :: "string list \<Rightarrow> string list" where
  "collapseSeverityLookupWarnings ws =
     (let out = collapseWarningGroup ws severityRateLimitedPrefix ''advisories; severities remain UNKNOWN'';
          out = collapseWarningGroup out severityLookupFailedPrefix ''advisories; severities remain UNKNOWN''
      in collapseWarningGroup out severityUnscoredPrefix ''advisories; not lookup failures, scored conservatively'')"

section \<open>What is kept\<close>

lemma collapse_out: "cl_out (fold (collapse_step p) ws c) = cl_out c @ filter (\<lambda>w. \<not> HasPrefix w p) ws"
  by (induction ws arbitrary: c) (auto simp: collapse_step_def Let_def)

lemma collapse_ids:
  "set (cl_ids (fold (collapse_step p) ws c)) = set (cl_ids c) \<union> warned_id p ` {w \<in> set ws. HasPrefix w p}"
  by (induction ws arbitrary: c) (auto simp: collapse_step_def Let_def)

lemma collapse_ids_distinct: "distinct (cl_ids c) \<Longrightarrow> distinct (cl_ids (fold (collapse_step p) ws c))"
  by (induction ws arbitrary: c) (auto simp: collapse_step_def Let_def)

lemma collapse_first:
  "cl_first (fold (collapse_step p) ws c) =
     (case cl_first c of Some x \<Rightarrow> Some x
      | None \<Rightarrow> (case find (\<lambda>w. HasPrefix w p) ws of None \<Rightarrow> None
         | Some w \<Rightarrow> Some (length (cl_out c) + length (takeWhile (\<lambda>w. \<not> HasPrefix w p) ws), w)))"
  by (induction ws arbitrary: c) (auto simp: collapse_step_def Let_def split: option.splits)

lemma summary_prefix: "HasPrefix (group_summary p t ids) p"
  by (auto simp: group_summary_def Let_def HasPrefix_iff)

lemma filter_insert_at: "filter P (insert_at n x xs) = (if P x then insert_at (length (filter P (take n xs))) x (filter P xs) else filter P xs)"
proof -
  have "filter P xs = filter P (take n xs) @ filter P (drop n xs)" by (simp flip: filter_append)
  then show ?thesis by (simp add: insert_at_def)
qed

lemma collapseWarningGroup_cases:
  obtains (none) "collapseWarningGroup ws p t = ws" "\<forall>w \<in> set ws. \<not> HasPrefix w p"
  | (some) n x where "collapseWarningGroup ws p t = insert_at n x (filter (\<lambda>w. \<not> HasPrefix w p) ws)" "HasPrefix x p"
      "\<exists>w \<in> set ws. HasPrefix w p"
proof (cases "find (\<lambda>w. HasPrefix w p) ws")
  case None
  then have "\<forall>w \<in> set ws. \<not> HasPrefix w p" by (simp add: find_None_iff)
  then show ?thesis
    using None none by (simp add: collapseWarningGroup_def collapse_scan_def collapse_first collapse_out Let_def)
next
  case (Some w)
  then have w: "HasPrefix w p" "w \<in> set ws" by (auto simp: find_Some_iff)
  define x where "x = (if length (cl_ids (collapse_scan ws p)) = 1 then w else group_summary p t (cl_ids (collapse_scan ws p)))"
  have "collapseWarningGroup ws p t =
      insert_at (length (takeWhile (\<lambda>w. \<not> HasPrefix w p) ws)) x (filter (\<lambda>w. \<not> HasPrefix w p) ws)"
    using Some by (simp add: collapseWarningGroup_def x_def collapse_scan_def collapse_first collapse_out Let_def)
  then show ?thesis
    by (rule some) (use w in \<open>auto simp: x_def summary_prefix\<close>)
qed

text \<open>The other warnings are kept, in order, and one warning of the group when there was any.\<close>

lemma collapse_keeps: "filter (\<lambda>w. \<not> HasPrefix w p) (collapseWarningGroup ws p t) = filter (\<lambda>w. \<not> HasPrefix w p) ws"
  by (rule collapseWarningGroup_cases [of ws p t]) (simp_all add: filter_insert_at)

lemma collapse_counts:
  "length (filter (\<lambda>w. HasPrefix w p) (collapseWarningGroup ws p t)) = (if list_ex (\<lambda>w. HasPrefix w p) ws then 1 else 0)"
proof -
  have none: "filter (\<lambda>w. HasPrefix w p) (take n (filter (\<lambda>w. \<not> HasPrefix w p) ws)) = []"
    "filter (\<lambda>w. HasPrefix w p) (drop n (filter (\<lambda>w. \<not> HasPrefix w p) ws)) = []" for n
    by (auto simp: filter_empty_conv dest: in_set_takeD in_set_dropD)
  then show ?thesis
    by (rule_tac collapseWarningGroup_cases [of ws p t]) (auto simp: insert_at_def none list_ex_iff filter_empty_conv)
qed

lemma collapse_other:
  assumes "\<And>s. HasPrefix s p \<Longrightarrow> \<not> P s"
  shows "filter P (collapseWarningGroup ws p t) = filter P ws"
proof -
  have "filter P xs = filter P (filter (\<lambda>w. \<not> HasPrefix w p) xs)" for xs
    using assms by (auto intro: filter_cong)
  then show ?thesis using collapse_keeps by metis
qed

definition group_prefixes :: "string list" where
  "group_prefixes = [severityRateLimitedPrefix, severityLookupFailedPrefix, severityUnscoredPrefix]"

lemma prefixes_differ:
  "HasPrefix s severityRateLimitedPrefix \<Longrightarrow> \<not> HasPrefix s severityLookupFailedPrefix \<and> \<not> HasPrefix s severityUnscoredPrefix"
  "HasPrefix s severityLookupFailedPrefix \<Longrightarrow> \<not> HasPrefix s severityUnscoredPrefix"
  by (auto simp: HasPrefix_iff severityRateLimitedPrefix_def severityLookupFailedPrefix_def severityUnscoredPrefix_def)

lemma other_kinds:
  "filter (\<lambda>w. HasPrefix w severityLookupFailedPrefix) (collapseWarningGroup ws severityRateLimitedPrefix t) =
     filter (\<lambda>w. HasPrefix w severityLookupFailedPrefix) ws"
  "filter (\<lambda>w. HasPrefix w severityUnscoredPrefix) (collapseWarningGroup ws severityRateLimitedPrefix t) =
     filter (\<lambda>w. HasPrefix w severityUnscoredPrefix) ws"
  "filter (\<lambda>w. HasPrefix w severityRateLimitedPrefix) (collapseWarningGroup ws severityLookupFailedPrefix t) =
     filter (\<lambda>w. HasPrefix w severityRateLimitedPrefix) ws"
  "filter (\<lambda>w. HasPrefix w severityUnscoredPrefix) (collapseWarningGroup ws severityLookupFailedPrefix t) =
     filter (\<lambda>w. HasPrefix w severityUnscoredPrefix) ws"
  "filter (\<lambda>w. HasPrefix w severityRateLimitedPrefix) (collapseWarningGroup ws severityUnscoredPrefix t) =
     filter (\<lambda>w. HasPrefix w severityRateLimitedPrefix) ws"
  "filter (\<lambda>w. HasPrefix w severityLookupFailedPrefix) (collapseWarningGroup ws severityUnscoredPrefix t) =
     filter (\<lambda>w. HasPrefix w severityLookupFailedPrefix) ws"
  by (rule collapse_other; use prefixes_differ in blast)+

text \<open>Collapsing the severity warnings keeps every other warning, in order, and leaves exactly one warning of each of
  the three kinds that occurred.\<close>

theorem collapsed_warnings:
  "filter (\<lambda>w. \<not> list_ex (HasPrefix w) group_prefixes) (collapseSeverityLookupWarnings ws) =
     filter (\<lambda>w. \<not> list_ex (HasPrefix w) group_prefixes) ws \<and>
   list_all (\<lambda>p. length (filter (\<lambda>w. HasPrefix w p) (collapseSeverityLookupWarnings ws)) =
     (if list_ex (\<lambda>w. HasPrefix w p) ws then 1 else 0)) group_prefixes"
proof -
  define a where "a = collapseWarningGroup ws severityRateLimitedPrefix ''advisories; severities remain UNKNOWN''"
  define b where "b = collapseWarningGroup a severityLookupFailedPrefix ''advisories; severities remain UNKNOWN''"
  let ?c = "collapseSeverityLookupWarnings ws"
  have c: "?c = collapseWarningGroup b severityUnscoredPrefix ''advisories; not lookup failures, scored conservatively''"
    by (simp add: collapseSeverityLookupWarnings_def a_def b_def)
  have other: "filter P ?c = filter P ws" if "\<And>s. list_ex (HasPrefix s) group_prefixes \<Longrightarrow> \<not> P s" for P
    unfolding c b_def a_def using that by (simp add: collapse_other group_prefixes_def)
  have ex: "list_ex P xs = (filter P xs \<noteq> [])" for P and xs :: "string list"
    by (induction xs) auto
  have "filter (\<lambda>w. HasPrefix w severityLookupFailedPrefix) a = filter (\<lambda>w. HasPrefix w severityLookupFailedPrefix) ws"
    "filter (\<lambda>w. HasPrefix w severityUnscoredPrefix) b = filter (\<lambda>w. HasPrefix w severityUnscoredPrefix) ws"
    "filter (\<lambda>w. HasPrefix w severityRateLimitedPrefix) ?c = filter (\<lambda>w. HasPrefix w severityRateLimitedPrefix) a"
    "filter (\<lambda>w. HasPrefix w severityLookupFailedPrefix) ?c = filter (\<lambda>w. HasPrefix w severityLookupFailedPrefix) b"
    by (simp_all only: c b_def a_def other_kinds)
  moreover have
    "length (filter (\<lambda>w. HasPrefix w severityRateLimitedPrefix) a) = (if filter (\<lambda>w. HasPrefix w severityRateLimitedPrefix) ws \<noteq> [] then 1 else 0)"
    "length (filter (\<lambda>w. HasPrefix w severityLookupFailedPrefix) b) = (if filter (\<lambda>w. HasPrefix w severityLookupFailedPrefix) a \<noteq> [] then 1 else 0)"
    "length (filter (\<lambda>w. HasPrefix w severityUnscoredPrefix) ?c) = (if filter (\<lambda>w. HasPrefix w severityUnscoredPrefix) b \<noteq> [] then 1 else 0)"
    unfolding c b_def a_def collapse_counts ex by (rule refl)+
  moreover have "filter (\<lambda>w. \<not> list_ex (HasPrefix w) group_prefixes) ?c = filter (\<lambda>w. \<not> list_ex (HasPrefix w) group_prefixes) ws"
    by (rule other) simp
  ultimately show ?thesis
    by (simp add: group_prefixes_def ex)
qed

end
