(* ===== verification/Call_Path.thy ===== *)
theory Call_Path
  imports Go_Text
begin

text \<open>
  The call paths of \<open>pkg/scanner/vuln.go\<close>: how close a govulncheck trace comes to the vulnerable code, the
  condensed path a report shows, and which of several paths is kept.
\<close>

section \<open>Traces\<close>

record position =
  ps_Filename :: string
  ps_Line :: int
  ps_Column :: int

text \<open>A frame; traces have the innermost frame first.\<close>

record trace_entry =
  te_Module :: string
  te_Version :: string
  te_Package :: string
  te_Function :: string
  te_Receiver :: string
  te_Position :: "position option"

record call_frame =
  cf_Name :: string
  cf_Module :: string
  cf_Version :: string
  cf_File :: string
  cf_Line :: int
  cf_Column :: int
  cf_Project :: bool
  cf_Elided :: bool

definition elided_frame :: call_frame where
  "elided_frame = \<lparr>cf_Name = '''', cf_Module = '''', cf_Version = '''', cf_File = '''', cf_Line = 0, cf_Column = 0,
     cf_Project = False, cf_Elided = True\<rparr>"

definition maxCallPathFrames :: nat where "maxCallPathFrames = 8"
definition maxCalledSymbols :: nat where "maxCalledSymbols = 20"
definition callPathElision :: string where "callPathElision = ''...''"

definition classifyReachability :: "trace_entry list \<Rightarrow> string" where
  "classifyReachability trace =
     (if trace = [] then ''required''
      else if list_ex (\<lambda>t. te_Position t \<noteq> None) trace then ''called''
      else if te_Function (hd trace) \<noteq> '''' then ''called''
      else if te_Package (hd trace) \<noteq> '''' then ''imported''
      else ''required'')"

definition reachabilityRank :: "string \<Rightarrow> nat" where
  "reachabilityRank s = (if s = ''required'' then 1 else if s = ''imported'' then 2 else if s = ''called'' then 3 else 0)"

section \<open>Frames\<close>

text \<open>\<open>strings.Cut(s, "$")\<close>: the part before the first dollar sign, or all of it.\<close>

definition before_dollar :: "string \<Rightarrow> string" where
  "before_dollar s = takeWhile (\<lambda>c. c \<noteq> CHR ''$'') s"

definition isStdlibFrame :: "trace_entry \<Rightarrow> bool" where
  "isStdlibFrame t = (te_Module t = ''stdlib'')"

definition frameName :: "trace_entry \<Rightarrow> string" where
  "frameName t =
     (let name = before_dollar (te_Function t);
          name = (if te_Receiver t \<noteq> '''' then TrimPrefix (te_Receiver t) ''*'' @ ''.'' @ name else name)
      in if te_Package t \<noteq> '''' then te_Package t @ ''.'' @ name else name)"

text \<open>\<open>filepath.IsAbs\<close> and \<open>path.IsAbs\<close> on Unix: a leading slash.\<close>

definition moduleRelativeFile :: "string \<Rightarrow> string" where
  "moduleRelativeFile filename =
     (if filename = '''' \<or> filename = ''..'' then ''''
      else if HasPrefix filename ''/'' then ''''
      else if HasPrefix filename ''../'' \<or> HasPrefix filename [CHR ''.'', CHR ''.'', CHR 0x5C] then ''''
      else filename)"

text \<open>The roots are \<open>None\<close> when govulncheck named none.\<close>

definition is_root :: "string set option \<Rightarrow> string \<Rightarrow> bool" where
  "is_root roots p = (case roots of Some rs \<Rightarrow> p \<in> rs | None \<Rightarrow> False)"

definition newCallFrame :: "trace_entry \<Rightarrow> string set option \<Rightarrow> call_frame" where
  "newCallFrame t roots =
     \<lparr>cf_Name = frameName t, cf_Module = te_Module t, cf_Version = te_Version t,
      cf_File = (case te_Position t of Some p \<Rightarrow> moduleRelativeFile (ps_Filename p) | None \<Rightarrow> ''''),
      cf_Line = (case te_Position t of Some p \<Rightarrow> ps_Line p | None \<Rightarrow> 0),
      cf_Column = (case te_Position t of Some p \<Rightarrow> ps_Column p | None \<Rightarrow> 0),
      cf_Project = is_root roots (te_Package t), cf_Elided = False\<rparr>"

section \<open>Condensing\<close>

text \<open>The function frames, outermost first; the last of each run of one package is kept, and the entry frame.\<close>

definition function_frames :: "trace_entry list \<Rightarrow> trace_entry list" where
  "function_frames trace = rev (filter (\<lambda>t. te_Function t \<noteq> '''') trace)"

fun kept_frames :: "bool \<Rightarrow> trace_entry list \<Rightarrow> trace_entry list" where
  "kept_frames first [] = []"
| "kept_frames first [t] = [t]"
| "kept_frames first (t # u # fr) =
     (if first \<or> te_Package u \<noteq> te_Package t then t # kept_frames False (u # fr) else kept_frames False (u # fr))"

definition last_n :: "nat \<Rightarrow> 'a list \<Rightarrow> 'a list" where
  "last_n n xs = drop (length xs - n) xs"

definition condense :: "trace_entry list \<Rightarrow> string set option \<Rightarrow> string list \<times> call_frame list" where
  "condense trace roots =
     (let frames = map (\<lambda>t. newCallFrame t roots) (kept_frames True (function_frames trace));
          path = map cf_Name frames;
          keep = maxCallPathFrames - 2
      in if length path > maxCallPathFrames
         then (hd path # callPathElision # last_n keep path, hd frames # elided_frame # last_n keep frames)
         else (path, frames))"

definition callPath :: "trace_entry list \<Rightarrow> string list" where
  "callPath trace = fst (condense trace None)"

section \<open>Choosing a path\<close>

definition preferPath :: "string list \<Rightarrow> string list \<Rightarrow> bool" where
  "preferPath candidate current =
     (if candidate = [] then False
      else if current = [] then True
      else if length candidate \<noteq> length current then length candidate < length current
      else Join candidate [CHR 0x00] < Join current [CHR 0x00])"

definition cmp_Compare :: "'a::linorder \<Rightarrow> 'a \<Rightarrow> int" where
  "cmp_Compare a b = (if a < b then - 1 else if a > b then 1 else 0)"

fun compareFramePositions :: "call_frame list \<Rightarrow> call_frame list \<Rightarrow> int" where
  "compareFramePositions (a # as) (b # bs) =
     (if cmp_Compare (cf_File a) (cf_File b) \<noteq> 0 then cmp_Compare (cf_File a) (cf_File b)
      else if cmp_Compare (cf_Line a) (cf_Line b) \<noteq> 0 then cmp_Compare (cf_Line a) (cf_Line b)
      else if cmp_Compare (cf_Column a) (cf_Column b) \<noteq> 0 then cmp_Compare (cf_Column a) (cf_Column b)
      else compareFramePositions as bs)"
| "compareFramePositions as bs = cmp_Compare (length as) (length bs)"

definition preferCandidate :: "string list \<Rightarrow> call_frame list \<Rightarrow> string list \<Rightarrow> call_frame list \<Rightarrow> bool" where
  "preferCandidate candPath candFrames curPath curFrames =
     (if preferPath candPath curPath then True
      else if preferPath curPath candPath then False
      else compareFramePositions candFrames curFrames < 0)"

definition formatsMessage :: "trace_entry list \<Rightarrow> bool" where
  "formatsMessage trace =
     list_ex (\<lambda>t. te_Package t = ''fmt'' \<or> te_Package t = ''log'' \<or>
        te_Receiver t \<noteq> '''' \<and> (before_dollar (te_Function t) = ''Error'' \<or> before_dollar (te_Function t) = ''String'')) trace"

definition preferCalled ::
  "trace_entry list \<Rightarrow> string list \<Rightarrow> call_frame list \<Rightarrow> bool \<Rightarrow> string list \<Rightarrow> call_frame list \<Rightarrow> bool" where
  "preferCalled candTrace candPath candFrames curFormats curPath curFrames =
     (if candPath = [] then False
      else if curPath = [] then True
      else if formatsMessage candTrace \<noteq> curFormats then \<not> formatsMessage candTrace
      else preferCandidate candPath candFrames curPath curFrames)"

section \<open>The condition\<close>

fun condition_loop :: "string set option \<Rightarrow> bool \<Rightarrow> trace_entry option \<Rightarrow> trace_entry list \<Rightarrow> string" where
  "condition_loop roots sawProject firstStd [] =
     (case firstStd of Some t \<Rightarrow> ''reached through '' @ frameName t | None \<Rightarrow> '''')"
| "condition_loop roots sawProject firstStd (t # ts) =
     (if is_root roots (te_Package t) then condition_loop roots True firstStd ts
      else if \<not> sawProject then ''''
      else if isStdlibFrame t
      then condition_loop roots sawProject (case firstStd of None \<Rightarrow> Some t | Some u \<Rightarrow> Some u) ts
      else ''reached through '' @ frameName t)"

definition callCondition :: "trace_entry list \<Rightarrow> string set option \<Rightarrow> string" where
  "callCondition trace roots = condition_loop roots False None (function_frames trace)"

section \<open>Called symbols\<close>

definition appendCalledSink :: "string list \<Rightarrow> trace_entry list \<Rightarrow> string list" where
  "appendCalledSink sinks trace =
     (if trace = [] \<or> te_Function (hd trace) = '''' then sinks else sinks @ [frameName (hd trace)])"

definition capCalledSymbols :: "string list \<Rightarrow> string list" where
  "capCalledSymbols sinks = take maxCalledSymbols (remdups_adj (sort_strings sinks))"

end
