(* ===== verification/Govulncheck.thy ===== *)
theory Govulncheck
  imports Call_Path Enrich
begin

text \<open>
  \<open>parseGovulncheckJSONWithOptions\<close> of \<open>pkg/scanner/vuln.go\<close>: the stream of govulncheck is read into advisories
  and findings, and the findings are merged into one record per module and advisory. The options are the zero
  ones of \<open>parseGovulncheckJSON\<close>: no file name is rebased and the configuration message is not kept.
\<close>

section \<open>The stream\<close>

record gvc_affected =
  ga_Name :: string
  ga_Fixed :: "string list list"
  ga_Severity :: "string option"

record gvc_osv =
  go_ID :: string
  go_Aliases :: "string list"
  go_Summary :: string
  go_Published :: string
  go_Affected :: "gvc_affected list"

record gvc_finding =
  gf_OSV :: string
  gf_Trace :: "trace_entry list"
  gf_FixedVersion :: string

record gvc_message =
  ms_osv :: "gvc_osv option"
  ms_SBOM :: "string list option"
  ms_finding :: "gvc_finding option"

text \<open>
  What the JSON decoder meets at the top level: an object, another complete value (an error, after which it
  goes on behind the value), a closing bracket (\<open>More\<close> answers no), or text that is malformed or cut off:
  \<open>Decode\<close> returns the error without moving, and from then on returns it again, while \<open>More\<close> sees the text.
\<close>

datatype piece = Message gvc_message | Other | Closing | Malformed

record gvc_stream =
  gs_osvs :: "string \<rightharpoonup> gvc_osv"
  gs_findings :: "gvc_finding list"
  gs_roots :: "string set option"

definition add_roots :: "string list \<Rightarrow> string set option \<Rightarrow> string set option" where
  "add_roots rs roots =
     (if rs = [] then roots else Some (set rs \<union> (case roots of Some s \<Rightarrow> s | None \<Rightarrow> {})))"

definition take_message :: "gvc_message \<Rightarrow> gvc_stream \<Rightarrow> gvc_stream" where
  "take_message m s =
     (let s = (case ms_osv m of
            Some osv \<Rightarrow> if go_ID osv \<noteq> '''' then s\<lparr>gs_osvs := (gs_osvs s)(go_ID osv \<mapsto> osv)\<rparr> else s
          | None \<Rightarrow> s);
          s = (case ms_SBOM m of Some rs \<Rightarrow> s\<lparr>gs_roots := add_roots rs (gs_roots s)\<rparr> | None \<Rightarrow> s)
      in (case ms_finding m of
            Some f \<Rightarrow> if gf_OSV f \<noteq> '''' then s\<lparr>gs_findings := gs_findings s @ [f]\<rparr> else s
          | None \<Rightarrow> s))"

partial_function (option) read_stream :: "piece list \<Rightarrow> gvc_stream \<Rightarrow> gvc_stream option" where
  "read_stream ps s =
     (case ps of
        [] \<Rightarrow> Some s
      | Closing # _ \<Rightarrow> Some s
      | Message m # rest \<Rightarrow> read_stream rest (take_message m s)
      | Other # rest \<Rightarrow> read_stream rest s
      | Malformed # rest \<Rightarrow> read_stream (Malformed # rest) s)"

definition empty_stream :: gvc_stream where
  "empty_stream = \<lparr>gs_osvs = Map.empty, gs_findings = [], gs_roots = None\<rparr>"

section \<open>Advisories\<close>

definition affects :: "string \<Rightarrow> gvc_affected \<Rightarrow> bool" where
  "affects modPath aff = (ga_Name aff = modPath \<or> ga_Name aff = ''stdlib'')"

definition severityFromOSV :: "gvc_osv \<Rightarrow> string \<Rightarrow> string" where
  "severityFromOSV osv modPath =
     (case find (\<lambda>s. s \<noteq> '''') (List.map_filter ga_Severity (filter (affects modPath) (go_Affected osv))) of
        Some s \<Rightarrow> ToUpper s
      | None \<Rightarrow> ''UNKNOWN'')"

definition fixedVersionFromOSV :: "gvc_osv \<Rightarrow> string \<Rightarrow> string" where
  "fixedVersionFromOSV osv modPath =
     (case find (\<lambda>s. s \<noteq> '''') (concat (concat (map ga_Fixed (filter (affects modPath) (go_Affected osv))))) of
        Some s \<Rightarrow> s
      | None \<Rightarrow> '''')"

section \<open>Findings\<close>

record gvc_vulnerability = enriched_vulnerability +
  v_CallPath :: "string list"
  v_CallTrace :: "call_frame list"
  v_CalledSymbols :: "string list"

text \<open>The tables of the merge; the keys are module and advisory, joined by an at sign.\<close>

record gvc_state =
  st_osvs :: "string \<rightharpoonup> gvc_osv"
  st_results :: "string \<rightharpoonup> gvc_vulnerability list"
  st_seenIdx :: "string \<rightharpoonup> nat"
  st_calledSinks :: "string \<rightharpoonup> string list"
  st_chosenTrace :: "string \<rightharpoonup> trace_entry list"
  st_chosenFormats :: "string \<rightharpoonup> bool"

definition affected_module :: "gvc_finding \<Rightarrow> string" where
  "affected_module f = (case find (\<lambda>t. te_Module t \<noteq> '''') (gf_Trace f) of Some t \<Rightarrow> te_Module t | None \<Rightarrow> '''')"

definition finding_key :: "string \<Rightarrow> string \<Rightarrow> string" where
  "finding_key modPath i = modPath @ ''@'' @ i"

text \<open>A standard-library advisory gets the package in its summary, in the shared record.\<close>

definition note_package :: "gvc_finding \<Rightarrow> string \<Rightarrow> gvc_osv \<Rightarrow> gvc_osv" where
  "note_package f modPath osv =
     (if modPath = ''stdlib''
      then case find (\<lambda>t. te_Package t \<noteq> '''') (gf_Trace f) of
          Some t \<Rightarrow> if Contains (go_Summary osv) (te_Package t) then osv
                    else osv\<lparr>go_Summary := ''['' @ te_Package t @ ''] '' @ go_Summary osv\<rparr>
        | None \<Rightarrow> osv
      else osv)"

definition new_vulnerability :: "'w env \<Rightarrow> gvc_finding \<Rightarrow> gvc_osv \<Rightarrow> string \<Rightarrow> string \<Rightarrow> gvc_vulnerability" where
  "new_vulnerability E f osv modPath reach =
     (let fixedVersion = (if gf_FixedVersion f = '''' then fixedVersionFromOSV osv modPath else gf_FixedVersion f);
          published = parsed_date E (go_Published osv)
      in \<lparr>v_ID = go_ID osv, v_Aliases = go_Aliases osv, v_Severity = severityFromOSV osv modPath, v_Reachability = reach,
          v_InKEV = False, v_Summary = go_Summary osv, v_FixedVersion = fixedVersion, v_EnrichmentFailed = False,
          v_FixRequiresGo = '''', v_FixReleasedAt = None, v_FixDateSource = '''', v_AffectedPackages = [], v_Condition = '''',
          v_KEVChecked = False, v_SeveritySource = '''', v_EPSSScore = None, v_KEVRansomware = '''',
          v_PublishedAt = published, v_FixPublishedAt = (if fixedVersion \<noteq> '''' then published else None),
          v_EnrichmentAttempted = False, v_SeverityAlias = '''', v_EnrichmentErrors = [], v_DaysUnpatched = 0,
          v_CallPath = [], v_CallTrace = [], v_CalledSymbols = []\<rparr>)"

section \<open>The merge\<close>

definition the_or :: "'b \<Rightarrow> 'b option \<Rightarrow> 'b" where
  "the_or d x = (case x of Some y \<Rightarrow> y | None \<Rightarrow> d)"

text \<open>A further called finding may bring a better path; its symbol is collected either way.\<close>

definition take_path ::
  "string set option \<Rightarrow> gvc_finding \<Rightarrow> string \<Rightarrow> gvc_vulnerability \<Rightarrow> gvc_state \<Rightarrow> gvc_vulnerability \<times> gvc_state" where
  "take_path roots f key v s =
     (let trace = gf_Trace f;
          (p, frames) = condense trace roots;
          better = preferCalled trace p frames (the_or False (st_chosenFormats s key)) (v_CallPath v) (v_CallTrace v);
          v = (if better then v\<lparr>v_CallPath := p, v_CallTrace := frames\<rparr> else v);
          s = (if better then s\<lparr>st_chosenTrace := (st_chosenTrace s)(key \<mapsto> trace),
                 st_chosenFormats := (st_chosenFormats s)(key \<mapsto> formatsMessage trace)\<rparr> else s)
      in (v, s\<lparr>st_calledSinks := (st_calledSinks s)(key \<mapsto> appendCalledSink (the_or [] (st_calledSinks s key)) trace)\<rparr>))"

definition upgrade :: "string \<Rightarrow> gvc_vulnerability \<Rightarrow> gvc_vulnerability" where
  "upgrade reach v = (if reachabilityRank reach > reachabilityRank (v_Reachability v) then v\<lparr>v_Reachability := reach\<rparr> else v)"

definition merge_duplicate :: "string set option \<Rightarrow> gvc_finding \<Rightarrow> string \<Rightarrow> string \<Rightarrow> nat \<Rightarrow> gvc_state \<Rightarrow> gvc_state" where
  "merge_duplicate roots f modPath key idx s =
     (let vs = the_or [] (st_results s modPath);
          reach = classifyReachability (gf_Trace f);
          v = upgrade reach (vs ! idx);
          (v, s) = (if reach = ''called'' then take_path roots f key v s else (v, s))
      in s\<lparr>st_results := (st_results s)(modPath \<mapsto> vs[idx := v])\<rparr>)"

definition add_first :: "'w env \<Rightarrow> string set option \<Rightarrow> gvc_finding \<Rightarrow> gvc_osv \<Rightarrow> string \<Rightarrow> string \<Rightarrow> gvc_state \<Rightarrow> gvc_state" where
  "add_first E roots f osv modPath key s =
     (let vs = the_or [] (st_results s modPath);
          reach = classifyReachability (gf_Trace f);
          trace = gf_Trace f;
          v = new_vulnerability E f osv modPath reach;
          (v, s) = (if reach = ''called''
             then (let (p, frames) = condense trace roots
                   in (v\<lparr>v_CallPath := p, v_CallTrace := frames\<rparr>,
                       s\<lparr>st_chosenTrace := (st_chosenTrace s)(key \<mapsto> trace),
                         st_chosenFormats := (st_chosenFormats s)(key \<mapsto> formatsMessage trace),
                         st_calledSinks := (st_calledSinks s)(key \<mapsto> appendCalledSink (the_or [] (st_calledSinks s key)) trace)\<rparr>))
             else (v, s))
      in s\<lparr>st_seenIdx := (st_seenIdx s)(key \<mapsto> length vs), st_results := (st_results s)(modPath \<mapsto> vs @ [v])\<rparr>)"

definition merge_finding :: "'w env \<Rightarrow> string set option \<Rightarrow> gvc_finding \<Rightarrow> gvc_state \<Rightarrow> gvc_state" where
  "merge_finding E roots f s =
     (case st_osvs s (gf_OSV f) of
        None \<Rightarrow> s
      | Some osv \<Rightarrow>
          (let modPath = affected_module f
           in if modPath = '''' then s
              else let osv = note_package f modPath osv;
                       s = s\<lparr>st_osvs := (st_osvs s)(gf_OSV f \<mapsto> osv)\<rparr>;
                       key = finding_key modPath (go_ID osv)
                in (case st_seenIdx s key of
                      Some idx \<Rightarrow> merge_duplicate roots f modPath key idx s
                    | None \<Rightarrow> add_first E roots f osv modPath key s)))"

definition finish_vulnerability :: "string set option \<Rightarrow> gvc_state \<Rightarrow> string \<Rightarrow> gvc_vulnerability \<Rightarrow> gvc_vulnerability" where
  "finish_vulnerability roots s modPath v =
     (let key = finding_key modPath (v_ID v);
          v = v\<lparr>v_CalledSymbols := capCalledSymbols (the_or [] (st_calledSinks s key))\<rparr>
      in if v_CallPath v \<noteq> [] then v\<lparr>v_Condition := callCondition (the_or [] (st_chosenTrace s key)) roots\<rparr> else v)"

definition no_findings :: "(string \<rightharpoonup> gvc_osv) \<Rightarrow> gvc_state" where
  "no_findings osvs = \<lparr>st_osvs = osvs, st_results = Map.empty, st_seenIdx = Map.empty, st_calledSinks = Map.empty,
     st_chosenTrace = Map.empty, st_chosenFormats = Map.empty\<rparr>"

definition merge_all :: "'w env \<Rightarrow> gvc_stream \<Rightarrow> gvc_state" where
  "merge_all E g = fold (merge_finding E (gs_roots g)) (gs_findings g) (no_findings (gs_osvs g))"

definition finish_results :: "string set option \<Rightarrow> gvc_state \<Rightarrow> string \<rightharpoonup> gvc_vulnerability list" where
  "finish_results roots s = (\<lambda>m. map_option (map (finish_vulnerability roots s m)) (st_results s m))"

text \<open>\<open>None\<close>: the function does not return.\<close>

definition parseGovulncheckJSON :: "'w env \<Rightarrow> piece list \<Rightarrow> (string \<rightharpoonup> gvc_vulnerability list) option" where
  "parseGovulncheckJSON E pieces =
     map_option (\<lambda>g. finish_results (gs_roots g) (merge_all E g)) (read_stream pieces empty_stream)"

end
