(* ===== verification/Call_Choice.thy ===== *)
theory Call_Choice
  imports Call_Path "HOL-Library.Product_Lexorder"
begin

text \<open>
  Which call path is kept does not depend on the order of the findings: the code's comparison is a linear
  order on what is compared, and the kept path is a least one.
\<close>

section \<open>The comparison\<close>

type_synonym path_key = "bool \<times> nat \<times> string \<times> (string \<times> int \<times> int) list"

definition frame_position :: "call_frame \<Rightarrow> string \<times> int \<times> int" where
  "frame_position f = (cf_File f, cf_Line f, cf_Column f)"

definition path_key :: "bool \<Rightarrow> string list \<Rightarrow> call_frame list \<Rightarrow> path_key" where
  "path_key formats p frames = (formats, length p, Join p [CHR 0x00], map frame_position frames)"

lemma cmp_Compare_simps:
  "cmp_Compare a b < 0 \<longleftrightarrow> a < b" "cmp_Compare a b = 0 \<longleftrightarrow> a = b"
  by (auto simp: cmp_Compare_def)

lemma compareFramePositions_less:
  "compareFramePositions as bs < 0 \<longleftrightarrow> map frame_position as < map frame_position bs"
proof (induction as arbitrary: bs)
  case Nil
  then show ?case by (cases bs) (auto simp: cmp_Compare_def)
next
  case IH: (Cons a as)
  then show ?case
  proof (cases bs)
    case Nil
    then show ?thesis by (simp add: cmp_Compare_def)
  next
    case (Cons b bs')
    then show ?thesis
      by (cases "cf_File a = cf_File b"; cases "cf_Line a = cf_Line b"; cases "cf_Column a = cf_Column b")
         (simp_all add: frame_position_def cmp_Compare_simps IH.IH order.order_iff_strict, blast+)
  qed
qed

lemma preferCalled_key:
  assumes "p \<noteq> []" "q \<noteq> []"
  shows "preferCalled trace p frames formats q frames' \<longleftrightarrow>
    path_key (formatsMessage trace) p frames < path_key formats q frames'"
  using assms
  by (auto simp: preferCalled_def preferCandidate_def preferPath_def path_key_def compareFramePositions_less)

section \<open>One advisory in one module\<close>

text \<open>What the findings of one advisory in one module have come to: a reachability, the kept path, the symbols.\<close>

record choice =
  ch_reach :: string
  ch_path :: "string list"
  ch_frames :: "call_frame list"
  ch_formats :: bool
  ch_sinks :: "string list"

definition called :: "trace_entry list \<Rightarrow> bool" where
  "called trace = (classifyReachability trace = ''called'')"

definition start_choice :: "string set option \<Rightarrow> trace_entry list \<Rightarrow> choice" where
  "start_choice roots trace =
     (if called trace
      then \<lparr>ch_reach = classifyReachability trace, ch_path = fst (condense trace roots), ch_frames = snd (condense trace roots),
            ch_formats = formatsMessage trace, ch_sinks = appendCalledSink [] trace\<rparr>
      else \<lparr>ch_reach = classifyReachability trace, ch_path = [], ch_frames = [], ch_formats = False, ch_sinks = []\<rparr>)"

definition absorb :: "string set option \<Rightarrow> trace_entry list \<Rightarrow> choice \<Rightarrow> choice" where
  "absorb roots trace c =
     (let reach = classifyReachability trace;
          c = (if reachabilityRank reach > reachabilityRank (ch_reach c) then c\<lparr>ch_reach := reach\<rparr> else c);
          (p, frames) = condense trace roots
      in if \<not> called trace then c
         else (if preferCalled trace p frames (ch_formats c) (ch_path c) (ch_frames c)
               then c\<lparr>ch_path := p, ch_frames := frames, ch_formats := formatsMessage trace,
                      ch_sinks := appendCalledSink (ch_sinks c) trace\<rparr>
               else c\<lparr>ch_sinks := appendCalledSink (ch_sinks c) trace\<rparr>))"

fun choice_of :: "string set option \<Rightarrow> trace_entry list list \<Rightarrow> choice option" where
  "choice_of roots [] = None"
| "choice_of roots (t # ts) = Some (fold (absorb roots) ts (start_choice roots t))"

lemma choice_of_snoc:
  "choice_of roots (ts @ [t]) = Some (case choice_of roots ts of None \<Rightarrow> start_choice roots t | Some c \<Rightarrow> absorb roots t c)"
  by (cases ts) simp_all

text \<open>The candidates for the path, and the collected symbols.\<close>

definition candidates :: "string set option \<Rightarrow> trace_entry list list \<Rightarrow> path_key set" where
  "candidates roots ts =
     (\<lambda>t. path_key (formatsMessage t) (fst (condense t roots)) (snd (condense t roots))) `
       {t \<in> set ts. called t \<and> fst (condense t roots) \<noteq> []}"

definition symbols :: "trace_entry list list \<Rightarrow> string list" where
  "symbols ts = concat (map (\<lambda>t. appendCalledSink [] t) (filter called ts))"

lemma appendCalledSink_append: "appendCalledSink xs t = xs @ appendCalledSink [] t"
  by (simp add: appendCalledSink_def)

definition choice_inv :: "string set option \<Rightarrow> trace_entry list list \<Rightarrow> choice \<Rightarrow> bool" where
  "choice_inv roots ts c =
     ((\<exists>t \<in> set ts. ch_reach c = classifyReachability t) \<and>
      (\<forall>t \<in> set ts. reachabilityRank (classifyReachability t) \<le> reachabilityRank (ch_reach c)) \<and>
      ch_sinks c = symbols ts \<and>
      (if ch_path c = [] then candidates roots ts = {} \<and> ch_frames c = []
       else path_key (ch_formats c) (ch_path c) (ch_frames c) \<in> candidates roots ts \<and>
            (\<forall>k \<in> candidates roots ts. path_key (ch_formats c) (ch_path c) (ch_frames c) \<le> k)))"

lemma condense_path: "fst (condense t roots) = [] \<longleftrightarrow> snd (condense t roots) = []"
  by (auto simp: condense_def Let_def)

lemma candidates_snoc:
  "candidates roots (ts @ [t]) = candidates roots ts \<union>
     (if called t \<and> fst (condense t roots) \<noteq> []
      then {path_key (formatsMessage t) (fst (condense t roots)) (snd (condense t roots))} else {})"
  by (auto simp: candidates_def)

lemma symbols_snoc: "symbols (ts @ [t]) = symbols ts @ (if called t then appendCalledSink [] t else [])"
  by (simp add: symbols_def)

lemma start_inv: "choice_inv roots [t] (start_choice roots t)"
  using condense_path [of t roots] by (auto simp: choice_inv_def start_choice_def candidates_def symbols_def)

lemma absorb_reach:
  "ch_reach (absorb roots t c) =
     (if reachabilityRank (classifyReachability t) > reachabilityRank (ch_reach c) then classifyReachability t else ch_reach c)"
  "ch_sinks (absorb roots t c) = ch_sinks c @ (if called t then appendCalledSink [] t else [])"
  by (simp_all add: absorb_def Let_def appendCalledSink_append [of "ch_sinks c"] split: prod.split)

lemma absorb_path:
  "(ch_path (absorb roots t c), ch_frames (absorb roots t c), ch_formats (absorb roots t c)) =
     (if called t \<and> preferCalled t (fst (condense t roots)) (snd (condense t roots)) (ch_formats c) (ch_path c) (ch_frames c)
      then (fst (condense t roots), snd (condense t roots), formatsMessage t)
      else (ch_path c, ch_frames c, ch_formats c))"
  by (simp add: absorb_def Let_def split: prod.split)

lemma preferCalled_empty: "\<not> preferCalled t [] fr b q fr'" "p \<noteq> [] \<Longrightarrow> preferCalled t p fr b [] fr'"
  by (simp_all add: preferCalled_def)

lemma absorb_inv:
  assumes "choice_inv roots ts c" "ts \<noteq> []"
  shows "choice_inv roots (ts @ [t]) (absorb roots t c)"
proof -
  let ?p = "fst (condense t roots)" and ?fr = "snd (condense t roots)" and ?c = "absorb roots t c"
  let ?k = "path_key (formatsMessage t) ?p ?fr" and ?cur = "path_key (ch_formats c) (ch_path c) (ch_frames c)"
  have reach: "\<exists>u \<in> set (ts @ [t]). ch_reach ?c = classifyReachability u"
    "\<forall>u \<in> set (ts @ [t]). reachabilityRank (classifyReachability u) \<le> reachabilityRank (ch_reach ?c)"
    using assms(1) by (auto simp: choice_inv_def absorb_reach intro: order.trans)
  have sinks: "ch_sinks ?c = symbols (ts @ [t])"
    using assms(1) by (simp add: choice_inv_def absorb_reach symbols_snoc)
  have "if ch_path ?c = [] then candidates roots (ts @ [t]) = {} \<and> ch_frames ?c = []
       else path_key (ch_formats ?c) (ch_path ?c) (ch_frames ?c) \<in> candidates roots (ts @ [t]) \<and>
            (\<forall>k \<in> candidates roots (ts @ [t]). path_key (ch_formats ?c) (ch_path ?c) (ch_frames ?c) \<le> k)"
  proof (cases "called t \<and> ?p \<noteq> []")
    case False
    then have "ch_path ?c = ch_path c" "ch_frames ?c = ch_frames c" "ch_formats ?c = ch_formats c"
      using absorb_path [of roots t c] preferCalled_empty(1) by (auto split: if_splits)
    then show ?thesis
      using assms(1) False by (auto simp: choice_inv_def candidates_snoc)
  next
    case True
    show ?thesis
    proof (cases "ch_path c = [] \<or> ?k < ?cur")
      case taken: True
      then have "preferCalled t ?p ?fr (ch_formats c) (ch_path c) (ch_frames c)"
        using True preferCalled_key [of ?p "ch_path c"] preferCalled_empty(2) by (cases "ch_path c = []") auto
      then have "ch_path ?c = ?p" "ch_frames ?c = ?fr" "ch_formats ?c = formatsMessage t"
        using absorb_path [of roots t c] True by auto
      then show ?thesis
        using assms(1) True taken by (auto simp: choice_inv_def candidates_snoc split: if_splits)
    next
      case kept: False
      then have "\<not> preferCalled t ?p ?fr (ch_formats c) (ch_path c) (ch_frames c)"
        using True preferCalled_key [of ?p "ch_path c"] by auto
      then have "ch_path ?c = ch_path c" "ch_frames ?c = ch_frames c" "ch_formats ?c = ch_formats c"
        using absorb_path [of roots t c] by auto
      then show ?thesis
        using assms(1) True kept by (auto simp: choice_inv_def candidates_snoc)
    qed
  qed
  then show ?thesis
    using reach sinks by (simp add: choice_inv_def)
qed

lemma choice_of_None [simp]: "choice_of roots ts = None \<longleftrightarrow> ts = []"
  by (cases ts) simp_all

lemma choice_of_inv: "choice_of roots ts = Some c \<Longrightarrow> choice_inv roots ts c"
proof (induction ts arbitrary: c rule: rev_induct)
  case (snoc t ts)
  then show ?case
    using start_inv absorb_inv by (cases "ts = []") (auto simp: choice_of_snoc split: option.splits)
qed simp

section \<open>Order\<close>

text \<open>Two choices that a reader of the report cannot tell apart.\<close>

definition same_report :: "choice \<Rightarrow> choice \<Rightarrow> bool" where
  "same_report c d =
     (ch_reach c = ch_reach d \<and> capCalledSymbols (ch_sinks c) = capCalledSymbols (ch_sinks d) \<and>
      Join (ch_path c) [CHR 0x00] = Join (ch_path d) [CHR 0x00] \<and> length (ch_path c) = length (ch_path d) \<and>
      map frame_position (ch_frames c) = map frame_position (ch_frames d))"

lemma classify_range: "classifyReachability t \<in> {''required'', ''imported'', ''called''}"
  by (simp add: classifyReachability_def)

lemma rank_inject:
  "a \<in> {''required'', ''imported'', ''called''} \<Longrightarrow> b \<in> {''required'', ''imported'', ''called''} \<Longrightarrow>
     reachabilityRank a = reachabilityRank b \<Longrightarrow> a = b"
  by (auto simp: reachabilityRank_def)

lemma symbols_mset: "mset ts = mset us \<Longrightarrow> mset (symbols ts) = mset (symbols us)"
proof -
  have "mset (symbols xs) = (\<Sum>t \<in># filter_mset called (mset xs). mset (appendCalledSink [] t))" for xs
    by (induction xs) (auto simp: symbols_def)
  then show "mset ts = mset us \<Longrightarrow> mset (symbols ts) = mset (symbols us)" by simp
qed

lemma choice_order:
  assumes "choice_of roots ts = Some c" "choice_of roots us = Some d" "mset ts = mset us"
  shows "same_report c d"
proof -
  have c: "choice_inv roots ts c" and d: "choice_inv roots us d" using assms choice_of_inv by auto
  have s: "set ts = set us" using assms(3) by (rule mset_eq_setD)
  have le: "reachabilityRank (ch_reach a) \<le> reachabilityRank (ch_reach b)"
    if "choice_inv roots xs a" "choice_inv roots ys b" "set xs = set ys" for xs ys a b
    using that unfolding choice_inv_def by metis
  have "reachabilityRank (ch_reach c) = reachabilityRank (ch_reach d)"
    using le [OF c d s] le [OF d c s [symmetric]] by simp
  moreover have "ch_reach a \<in> {''required'', ''imported'', ''called''}" if "choice_inv roots xs a" for xs a
    using that classify_range unfolding choice_inv_def by metis
  ultimately have r: "ch_reach c = ch_reach d"
    using c d rank_inject by blast
  have "ch_sinks c = symbols ts" "ch_sinks d = symbols us"
    using c d by (simp_all add: choice_inv_def)
  then have sy: "capCalledSymbols (ch_sinks c) = capCalledSymbols (ch_sinks d)"
    using sort_strings_mset [OF symbols_mset [OF assms(3)]] by (simp add: capCalledSymbols_def)
  have k: "candidates roots ts = candidates roots us" using s by (simp add: candidates_def)
  show ?thesis
  proof (cases "candidates roots ts = {}")
    case True
    then have "ch_path c = []" "ch_path d = []" "ch_frames c = []" "ch_frames d = []"
      using c d k by (auto simp: choice_inv_def split: if_splits)
    then show ?thesis using r sy by (simp add: same_report_def)
  next
    case False
    then have "path_key (ch_formats c) (ch_path c) (ch_frames c) = path_key (ch_formats d) (ch_path d) (ch_frames d)"
      using c d k by (auto simp: choice_inv_def split: if_splits intro: antisym)
    then show ?thesis using r sy by (simp add: same_report_def path_key_def)
  qed
qed

end
