(* ===== verification/Govulncheck_Props.thy ===== *)
theory Govulncheck_Props
  imports Govulncheck Call_Choice Enrich_Props
begin

text \<open>
  The tables of the merge hold, for each module and advisory, what the findings of that pair alone come to;
  from this follows that the report does not depend on the order of the findings. The reader of the stream
  returns exactly on well-formed output.
\<close>

section \<open>The stream\<close>

lemma read_stream_simps [simp]:
  "read_stream [] s = Some s"
  "read_stream (Closing # ps) s = Some s"
  "read_stream (Message m # ps) s = read_stream ps (take_message m s)"
  "read_stream (Other # ps) s = read_stream ps s"
  by (simp_all add: read_stream.simps)

definition well_formed :: "piece list \<Rightarrow> bool" where
  "well_formed ps = (Malformed \<notin> set (takeWhile (\<lambda>p. p \<noteq> Closing) ps))"

lemma well_formed_simps [simp]:
  "well_formed []" "well_formed (Closing # ps)" "well_formed (Message m # ps) = well_formed ps"
  "well_formed (Other # ps) = well_formed ps" "\<not> well_formed (Malformed # ps)"
  by (simp_all add: well_formed_def)

lemma read_stream_well_formed: "read_stream ps s = Some r \<Longrightarrow> well_formed ps"
proof (rule read_stream.raw_induct [where P = "\<lambda>ps s r. well_formed ps"])
  fix rec ps s r
  assume IH: "\<And>ps s r. rec ps s = Some r \<Longrightarrow> well_formed ps"
    and "(case ps of [] \<Rightarrow> Some s | Message m # rest \<Rightarrow> rec rest (take_message m s) | Other # rest \<Rightarrow> rec rest s
          | Closing # rest \<Rightarrow> Some s | Malformed # rest \<Rightarrow> rec (Malformed # rest) s) = Some r"
  then show "well_formed ps"
    by (auto split: list.splits piece.splits dest!: IH)
qed

lemma read_stream_returns: "well_formed ps \<Longrightarrow> \<exists>r. read_stream ps s = Some r"
proof (induction ps arbitrary: s)
  case (Cons p ps)
  then show ?case by (cases p) auto
qed simp

text \<open>C25: Reading govulncheck's output returns exactly when the stream has no malformed or cut-off text before its end (or
  before a stray closing bracket): on output that breaks off in the middle of a value the loop never ends.\<close>

theorem malformed_output_hangs:
  "parseGovulncheckJSON E ps = None \<longleftrightarrow> Malformed \<in> set (takeWhile (\<lambda>p. p \<noteq> Closing) ps)"
proof -
  have "parseGovulncheckJSON E ps = None \<longleftrightarrow> read_stream ps empty_stream = None"
    by (simp add: parseGovulncheckJSON_def)
  also have "\<dots> \<longleftrightarrow> \<not> well_formed ps"
    using read_stream_well_formed [of ps empty_stream] read_stream_returns [of ps empty_stream] by fastforce
  finally show ?thesis by (simp add: well_formed_def)
qed

section \<open>The tables\<close>

lemma finding_key_inject:
  assumes "finding_key m i = finding_key m' i'" "CHR ''@'' \<notin> set i" "CHR ''@'' \<notin> set i'"
  shows "m = m' \<and> i = i'"
proof -
  have "rev i @ CHR ''@'' # rev m = rev i' @ CHR ''@'' # rev m'"
    using arg_cong [OF assms(1), of rev] by (simp add: finding_key_def)
  moreover have "takeWhile (\<lambda>c. c \<noteq> CHR ''@'') (rev j @ CHR ''@'' # rev n) = rev j" if "CHR ''@'' \<notin> set j" for j n
    using that by (subst takeWhile_append2) auto
  ultimately have "rev i = rev i'" using assms(2,3) by metis
  then show ?thesis using assms(1) by (simp add: finding_key_def)
qed

definition entries :: "gvc_state \<Rightarrow> string \<Rightarrow> gvc_vulnerability list" where
  "entries s m = the_or [] (st_results s m)"

text \<open>The index finds every record under its own key, and nothing is stored for a key that was not seen.\<close>

definition consistent :: "gvc_state \<Rightarrow> bool" where
  "consistent s =
     ((\<forall>i osv. st_osvs s i = Some osv \<longrightarrow> go_ID osv = i \<and> CHR ''@'' \<notin> set i) \<and>
      (\<forall>k n. st_seenIdx s k = Some n \<longrightarrow>
         (\<exists>m i. k = finding_key m i \<and> CHR ''@'' \<notin> set i \<and> n < length (entries s m) \<and> v_ID (entries s m ! n) = i)) \<and>
      (\<forall>m n. n < length (entries s m) \<longrightarrow>
         CHR ''@'' \<notin> set (v_ID (entries s m ! n)) \<and> st_seenIdx s (finding_key m (v_ID (entries s m ! n))) = Some n) \<and>
      (\<forall>k. st_seenIdx s k = None \<longrightarrow> st_chosenFormats s k = None \<and> st_calledSinks s k = None))"

definition choice_at :: "gvc_state \<Rightarrow> string \<Rightarrow> gvc_vulnerability \<Rightarrow> choice" where
  "choice_at s k v =
     \<lparr>ch_reach = v_Reachability v, ch_path = v_CallPath v, ch_frames = v_CallTrace v,
      ch_formats = the_or False (st_chosenFormats s k), ch_sinks = the_or [] (st_calledSinks s k)\<rparr>"

definition entry :: "gvc_state \<Rightarrow> string \<Rightarrow> string \<Rightarrow> choice option" where
  "entry s m i =
     map_option (\<lambda>n. choice_at s (finding_key m i) (entries s m ! n)) (st_seenIdx s (finding_key m i))"

text \<open>What one further finding does to a record.\<close>

lemma the_or_simps [simp]: "the_or d None = d" "the_or d (Some x) = x"
  by (simp_all add: the_or_def)

lemma take_path_facts:
  assumes "take_path roots f k v s = (v', s')"
  shows "v_ID v' = v_ID v" "st_osvs s' = st_osvs s" "st_results s' = st_results s" "st_seenIdx s' = st_seenIdx s"
    "\<And>k'. k' \<noteq> k \<Longrightarrow> st_chosenFormats s' k' = st_chosenFormats s k' \<and> st_calledSinks s' k' = st_calledSinks s k'"
  using assms by (auto simp: take_path_def Let_def split: prod.splits if_splits)

lemma upgrade_ID [simp]: "v_ID (upgrade r v) = v_ID v"
  by (simp add: upgrade_def)

lemma upgrade_choice:
  "\<not> called (gf_Trace f) \<Longrightarrow>
     choice_at s k (upgrade (classifyReachability (gf_Trace f)) v) = absorb roots (gf_Trace f) (choice_at s k v)"
  by (simp add: choice_at_def upgrade_def absorb_def Let_def split: prod.split)

lemma take_path_choice:
  assumes "take_path roots f k (upgrade (classifyReachability (gf_Trace f)) v) s = (v', s')" "called (gf_Trace f)"
  shows "choice_at s' k v' = absorb roots (gf_Trace f) (choice_at s k v)"
  using assms
  by (auto simp: take_path_def Let_def choice_at_def absorb_def called_def upgrade_def split: prod.splits if_splits)

text \<open>A duplicate changes the record at its index, and that only as its own trace does.\<close>

lemma consistentD:
  assumes "consistent s"
  shows "st_osvs s i = Some osv \<Longrightarrow> go_ID osv = i \<and> CHR ''@'' \<notin> set i"
    and "st_seenIdx s k = Some n \<Longrightarrow>
         \<exists>m i. k = finding_key m i \<and> CHR ''@'' \<notin> set i \<and> n < length (entries s m) \<and> v_ID (entries s m ! n) = i"
    and "n < length (entries s m) \<Longrightarrow>
         CHR ''@'' \<notin> set (v_ID (entries s m ! n)) \<and> st_seenIdx s (finding_key m (v_ID (entries s m ! n))) = Some n"
    and "st_seenIdx s k = None \<Longrightarrow> st_chosenFormats s k = None \<and> st_calledSinks s k = None"
  using assms unfolding consistent_def by blast+

lemma seen_at:
  assumes "consistent s" "st_seenIdx s (finding_key m i) = Some n" "CHR ''@'' \<notin> set i"
  shows "n < length (entries s m)" "v_ID (entries s m ! n) = i"
  using consistentD(2) [OF assms(1,2)] finding_key_inject assms(3) by blast+

lemma update_entry:
  assumes s: "consistent s" "st_seenIdx s (finding_key m i) = Some n" "CHR ''@'' \<notin> set i"
    and s': "st_osvs s' = st_osvs s" "st_seenIdx s' = st_seenIdx s" "v_ID v' = i"
      "st_results s' = (st_results s)(m \<mapsto> (entries s m)[n := v'])"
      "\<And>k. k \<noteq> finding_key m i \<Longrightarrow> st_chosenFormats s' k = st_chosenFormats s k \<and> st_calledSinks s' k = st_calledSinks s k"
  shows "consistent s'" "CHR ''@'' \<notin> set j \<Longrightarrow>
    entry s' l j = (if (l, j) = (m, i) then Some (choice_at s' (finding_key m i) v') else entry s l j)"
proof -
  note n = seen_at [OF s]
  have e: "entries s' l = (if l = m then (entries s m)[n := v'] else entries s l)" for l
    by (simp add: entries_def s'(4))
  have same: "v_ID (entries s' l ! x) = v_ID (entries s l ! x)" "length (entries s' l) = length (entries s l)" for l x
    using n s'(3) by (auto simp: e nth_list_update)
  have "st_chosenFormats s' k = None \<and> st_calledSinks s' k = None" if "st_seenIdx s k = None" for k
    using that s(2) s'(5) consistentD(4) [OF s(1) that] by (cases "k = finding_key m i") auto
  then show "consistent s'"
    using s(1) unfolding consistent_def s'(1,2) same by blast
  assume j: "CHR ''@'' \<notin> set j"
  show "entry s' l j = (if (l, j) = (m, i) then Some (choice_at s' (finding_key m i) v') else entry s l j)"
  proof (cases "(l, j) = (m, i)")
    case True
    then show ?thesis using n s(2) by (simp add: entry_def s'(2) e)
  next
    case False
    then have k: "finding_key l j \<noteq> finding_key m i" using finding_key_inject j s(3) by blast
    have "x \<noteq> n" if "l = m" "st_seenIdx s (finding_key l j) = Some x" for x
      using seen_at [OF s(1) that(2) j] n that(1) False by auto
    then show ?thesis
      using False k s'(5) by (cases "st_seenIdx s (finding_key l j)") (auto simp: entry_def s'(2) e choice_at_def)
  qed
qed

lemma append_entry:
  assumes s: "consistent s" "st_seenIdx s (finding_key m i) = None" "CHR ''@'' \<notin> set i"
    and s': "st_osvs s' = st_osvs s" "st_seenIdx s' = (st_seenIdx s)(finding_key m i \<mapsto> length (entries s m))"
      "v_ID v' = i" "st_results s' = (st_results s)(m \<mapsto> entries s m @ [v'])"
      "\<And>k. k \<noteq> finding_key m i \<Longrightarrow> st_chosenFormats s' k = st_chosenFormats s k \<and> st_calledSinks s' k = st_calledSinks s k"
  shows "consistent s'" "CHR ''@'' \<notin> set j \<Longrightarrow>
    entry s' l j = (if (l, j) = (m, i) then Some (choice_at s' (finding_key m i) v') else entry s l j)"
proof -
  have e: "entries s' l = (if l = m then entries s m @ [v'] else entries s l)" for l
    by (simp add: entries_def s'(4))
  have old: "finding_key l (v_ID (entries s l ! x)) \<noteq> finding_key m i" if "x < length (entries s l)" for l x
    using consistentD(3) [OF s(1) that] s(2) by auto
  have seen: "\<exists>m' i'. k = finding_key m' i' \<and> CHR ''@'' \<notin> set i' \<and> n < length (entries s' m') \<and> v_ID (entries s' m' ! n) = i'"
    if k: "st_seenIdx s' k = Some n" for k n
  proof (cases "k = finding_key m i")
    case True
    then have "n = length (entries s m)" using k s'(2) by simp
    then show ?thesis using True s(3) s'(3) by (intro exI [of _ m] exI [of _ i]) (simp add: e)
  next
    case False
    then have "st_seenIdx s k = Some n" using k s'(2) by simp
    then obtain m' i' where "k = finding_key m' i'" "CHR ''@'' \<notin> set i'" "n < length (entries s m')" "v_ID (entries s m' ! n) = i'"
      using consistentD(2) [OF s(1)] by blast
    then show ?thesis by (intro exI [of _ m'] exI [of _ i']) (auto simp: e nth_append)
  qed
  have stored: "CHR ''@'' \<notin> set (v_ID (entries s' l ! n)) \<and> st_seenIdx s' (finding_key l (v_ID (entries s' l ! n))) = Some n"
    if n: "n < length (entries s' l)" for l n
  proof (cases "n < length (entries s l)")
    case True
    then have "entries s' l ! n = entries s l ! n" by (cases "l = m") (simp_all add: e nth_append)
    then show ?thesis using consistentD(3) [OF s(1) True] old [OF True] by (simp add: s'(2))
  next
    case False
    then have "l = m" "n = length (entries s m)" using n by (auto simp: e split: if_splits)
    then show ?thesis using s(3) s'(2,3) by (simp add: e)
  qed
  have "st_chosenFormats s' k = None \<and> st_calledSinks s' k = None" if "st_seenIdx s' k = None" for k
    using that s'(2,5) consistentD(4) [OF s(1)] by (auto split: if_splits)
  then show "consistent s'"
    using consistentD(1) [OF s(1)] s'(1) seen stored unfolding consistent_def by auto
  assume j: "CHR ''@'' \<notin> set j"
  show "entry s' l j = (if (l, j) = (m, i) then Some (choice_at s' (finding_key m i) v') else entry s l j)"
  proof (cases "(l, j) = (m, i)")
    case True
    then show ?thesis by (simp add: entry_def s'(2) e)
  next
    case False
    then have k: "finding_key l j \<noteq> finding_key m i" using finding_key_inject j s(3) by blast
    have "entries s' l ! x = entries s l ! x" if "st_seenIdx s (finding_key l j) = Some x" for x
      using seen_at(1) [OF s(1) that j] by (cases "l = m") (simp_all add: e nth_append)
    then show ?thesis
      using False k s'(2,5) by (cases "st_seenIdx s (finding_key l j)") (auto simp: entry_def choice_at_def)
  qed
qed

section \<open>One finding\<close>

lemma note_package_ID [simp]: "go_ID (note_package f m osv) = go_ID osv"
  by (simp add: note_package_def split: option.split)

text \<open>The finding counts for a module and an advisory when the stream has the advisory and the trace a module.\<close>

definition concerns :: "(string \<rightharpoonup> gvc_osv) \<Rightarrow> string \<Rightarrow> string \<Rightarrow> gvc_finding \<Rightarrow> bool" where
  "concerns osvs m i f = (gf_OSV f = i \<and> affected_module f = m \<and> m \<noteq> '''' \<and> osvs i \<noteq> None)"

lemma noted_consistent:
  assumes "consistent s" "st_osvs s i = Some osv"
  shows "consistent (s\<lparr>st_osvs := (st_osvs s)(i \<mapsto> note_package f m osv)\<rparr>)"
    "entry (s\<lparr>st_osvs := (st_osvs s)(i \<mapsto> note_package f m osv)\<rparr>) = entry s"
  using assms unfolding consistent_def entries_def by (auto simp: entry_def choice_at_def entries_def fun_eq_iff)

lemma merge_duplicate_entry:
  fixes roots :: "string set option" and f :: gvc_finding
  assumes s: "consistent s" "st_seenIdx s (finding_key m i) = Some n" "CHR ''@'' \<notin> set i"
  defines "s' \<equiv> merge_duplicate roots f m (finding_key m i) n s"
  shows "consistent s'" "st_osvs s' = st_osvs s" "CHR ''@'' \<notin> set j \<Longrightarrow>
    entry s' l j = (if (l, j) = (m, i) then map_option (absorb roots (gf_Trace f)) (entry s m i) else entry s l j)"
proof -
  let ?k = "finding_key m i" and ?r = "classifyReachability (gf_Trace f)"
  obtain v1 s1 where p: "take_path roots f ?k (upgrade ?r (entries s m ! n)) s = (v1, s1)" by fastforce
  define v' where "v' = (if called (gf_Trace f) then v1 else upgrade ?r (entries s m ! n))"
  define s0 where "s0 = (if called (gf_Trace f) then s1 else s)"
  have s': "s' = s0\<lparr>st_results := (st_results s0)(m \<mapsto> (entries s m)[n := v'])\<rparr>"
    using p by (auto simp: s'_def merge_duplicate_def Let_def entries_def called_def v'_def s0_def)
  note n = seen_at [OF s]
  have f: "st_osvs s' = st_osvs s" "st_seenIdx s' = st_seenIdx s" "v_ID v' = i"
      "st_results s' = (st_results s)(m \<mapsto> (entries s m)[n := v'])"
      "\<And>k. k \<noteq> ?k \<Longrightarrow> st_chosenFormats s' k = st_chosenFormats s k \<and> st_calledSinks s' k = st_calledSinks s k"
    using take_path_facts [OF p] n by (simp_all add: s' s0_def v'_def)
  have c: "choice_at s' ?k v' = absorb roots (gf_Trace f) (choice_at s ?k (entries s m ! n))"
    using take_path_choice [OF p] upgrade_choice [of f] by (auto simp: s' s0_def v'_def choice_at_def)
  show "consistent s'" "st_osvs s' = st_osvs s"
    using update_entry(1) [OF s f] f(1) by auto
  assume "CHR ''@'' \<notin> set j"
  then show "entry s' l j = (if (l, j) = (m, i) then map_option (absorb roots (gf_Trace f)) (entry s m i) else entry s l j)"
    using update_entry(2) [OF s f, of j l] c s(2) by (simp add: entry_def)
qed

lemma add_first_entry:
  fixes E :: "'w env" and roots :: "string set option" and f :: gvc_finding
  assumes s: "consistent s" "st_seenIdx s (finding_key m i) = None" "CHR ''@'' \<notin> set i" and osv: "go_ID osv = i"
  defines "s' \<equiv> add_first E roots f osv m (finding_key m i) s"
  shows "consistent s'" "st_osvs s' = st_osvs s" "CHR ''@'' \<notin> set j \<Longrightarrow>
    entry s' l j = (if (l, j) = (m, i) then Some (start_choice roots (gf_Trace f)) else entry s l j)"
proof -
  let ?k = "finding_key m i" and ?t = "gf_Trace f" and ?r = "classifyReachability (gf_Trace f)"
  define v' where "v' = (if called ?t then (new_vulnerability E f osv m ?r)\<lparr>v_CallPath := fst (condense ?t roots), v_CallTrace := snd (condense ?t roots)\<rparr>
    else new_vulnerability E f osv m ?r)"
  define s0 where "s0 = (if called ?t then s\<lparr>st_chosenTrace := (st_chosenTrace s)(?k \<mapsto> ?t),
      st_chosenFormats := (st_chosenFormats s)(?k \<mapsto> formatsMessage ?t),
      st_calledSinks := (st_calledSinks s)(?k \<mapsto> appendCalledSink (the_or [] (st_calledSinks s ?k)) ?t)\<rparr> else s)"
  have s': "s' = s0\<lparr>st_seenIdx := (st_seenIdx s0)(?k \<mapsto> length (entries s m)), st_results := (st_results s0)(m \<mapsto> entries s m @ [v'])\<rparr>"
    by (auto simp: s'_def add_first_def Let_def entries_def called_def v'_def s0_def split: prod.splits)
  have f: "st_osvs s' = st_osvs s" "st_seenIdx s' = (st_seenIdx s)(?k \<mapsto> length (entries s m))" "v_ID v' = i"
      "st_results s' = (st_results s)(m \<mapsto> entries s m @ [v'])"
      "\<And>k. k \<noteq> ?k \<Longrightarrow> st_chosenFormats s' k = st_chosenFormats s k \<and> st_calledSinks s' k = st_calledSinks s k"
    using osv by (auto simp: s' s0_def v'_def new_vulnerability_def Let_def)
  have c: "choice_at s' ?k v' = start_choice roots ?t"
    using consistentD(4) [OF s(1,2)]
    by (auto simp: s' s0_def v'_def choice_at_def start_choice_def new_vulnerability_def Let_def called_def)
  show "consistent s'" "st_osvs s' = st_osvs s"
    using append_entry(1) [OF s f] f(1) by auto
  assume "CHR ''@'' \<notin> set j"
  then show "entry s' l j = (if (l, j) = (m, i) then Some (start_choice roots (gf_Trace f)) else entry s l j)"
    using append_entry(2) [OF s f, of j l] c by simp
qed


lemma merge_finding_entry:
  assumes s: "consistent s"
  shows "consistent (merge_finding E roots f s)" "dom (st_osvs (merge_finding E roots f s)) = dom (st_osvs s)"
    "CHR ''@'' \<notin> set j \<Longrightarrow> entry (merge_finding E roots f s) l j =
      (if concerns (st_osvs s) l j f
       then Some (case entry s l j of None \<Rightarrow> start_choice roots (gf_Trace f) | Some c \<Rightarrow> absorb roots (gf_Trace f) c)
       else entry s l j)"
proof -
  let ?s' = "merge_finding E roots f s" and ?m = "affected_module f"
  have "consistent ?s' \<and> dom (st_osvs ?s') = dom (st_osvs s) \<and> (CHR ''@'' \<notin> set j \<longrightarrow> entry ?s' l j =
      (if concerns (st_osvs s) l j f
       then Some (case entry s l j of None \<Rightarrow> start_choice roots (gf_Trace f) | Some c \<Rightarrow> absorb roots (gf_Trace f) c)
       else entry s l j))"
  proof (cases "st_osvs s (gf_OSV f) = None \<or> ?m = ''''")
    case True
    then show ?thesis using s by (auto simp: merge_finding_def concerns_def Let_def split: option.split)
  next
    case False
    then obtain osv where osv: "st_osvs s (gf_OSV f) = Some osv" and m: "?m \<noteq> ''''" by auto
    let ?i = "gf_OSV f" and ?osv = "note_package f ?m osv"
    let ?s0 = "s\<lparr>st_osvs := (st_osvs s)(?i \<mapsto> ?osv)\<rparr>" and ?k = "finding_key ?m ?i"
    have i: "go_ID osv = ?i" "CHR ''@'' \<notin> set ?i" using consistentD(1) [OF s osv] by auto
    note s0 = noted_consistent [OF s osv, of f ?m]
    have seen: "st_seenIdx ?s0 = st_seenIdx s" "dom (st_osvs ?s0) = dom (st_osvs s)" using osv by auto
    have c: "concerns (st_osvs s) l j f \<longleftrightarrow> (l, j) = (?m, ?i)" using osv m by (auto simp: concerns_def)
    show ?thesis
    proof (cases "st_seenIdx s ?k")
      case None
      then have e: "?s' = add_first E roots f ?osv ?m ?k ?s0" "entry s ?m ?i = None"
        using osv m i by (simp_all add: merge_finding_def Let_def entry_def)
      have n: "st_seenIdx ?s0 ?k = None" using None by simp
      note a = add_first_entry [OF s0(1) n i(2), where E = E and roots = roots and f = f and osv = ?osv]
      show ?thesis using a i s0(2) seen(2) e(2) unfolding e(1) c by simp
    next
      case (Some n)
      then have e: "?s' = merge_duplicate roots f ?m ?k n ?s0" "entry s ?m ?i \<noteq> None"
        using osv m i by (simp_all add: merge_finding_def Let_def entry_def)
      have n: "st_seenIdx ?s0 ?k = Some n" using Some by simp
      note a = merge_duplicate_entry [OF s0(1) n i(2), where roots = roots and f = f]
      show ?thesis using a s0(2) seen(2) e(2) unfolding e(1) c by auto
    qed
  qed
  then show "consistent ?s'" "dom (st_osvs ?s') = dom (st_osvs s)" "CHR ''@'' \<notin> set j \<Longrightarrow> entry ?s' l j =
      (if concerns (st_osvs s) l j f
       then Some (case entry s l j of None \<Rightarrow> start_choice roots (gf_Trace f) | Some c \<Rightarrow> absorb roots (gf_Trace f) c)
       else entry s l j)" by blast+
qed

section \<open>All findings\<close>

text \<open>Advisories are stored under their own names, and no name has the sign that joins the keys.\<close>

definition named_osvs :: "(string \<rightharpoonup> gvc_osv) \<Rightarrow> bool" where
  "named_osvs osvs = (\<forall>i osv. osvs i = Some osv \<longrightarrow> go_ID osv = i \<and> CHR ''@'' \<notin> set i)"

lemma no_findings_consistent: "named_osvs osvs \<Longrightarrow> consistent (no_findings osvs)"
  by (simp add: named_osvs_def consistent_def no_findings_def entries_def the_or_def)

lemma concerns_dom: "dom a = dom b \<Longrightarrow> concerns a = concerns b"
  unfolding concerns_def fun_eq_iff by (metis domIff)

lemma fold_findings:
  fixes E :: "'w env" and roots :: "string set option"
  assumes "named_osvs osvs"
  defines "M fs \<equiv> fold (merge_finding E roots) fs (no_findings osvs)"
  shows "consistent (M fs) \<and> dom (st_osvs (M fs)) = dom osvs \<and> (CHR ''@'' \<notin> set i \<longrightarrow>
    entry (M fs) m i = choice_of roots (map gf_Trace (filter (concerns osvs m i) fs)))"
proof (induction fs rule: rev_induct)
  case Nil
  show ?case using no_findings_consistent [OF assms(1)] by (simp add: M_def no_findings_def entry_def)
next
  case (snoc f fs)
  have "M (fs @ [f]) = merge_finding E roots f (M fs)" by (simp add: M_def)
  moreover have "concerns (st_osvs (M fs)) = concerns osvs" using snoc concerns_dom by blast
  ultimately show ?case
    using snoc merge_finding_entry [where s = "M fs" and E = E and roots = roots and f = f] by (auto simp: choice_of_snoc)
qed

lemma merged:
  assumes "named_osvs (gs_osvs g)"
  shows "consistent (merge_all E g)"
    "CHR ''@'' \<notin> set i \<Longrightarrow> entry (merge_all E g) m i =
       choice_of (gs_roots g) (map gf_Trace (filter (concerns (gs_osvs g) m i) (gs_findings g)))"
  using fold_findings [OF assms] unfolding merge_all_def by blast+

text \<open>The reported records of a module, and what each comes from.\<close>

definition reported :: "'w env \<Rightarrow> gvc_stream \<Rightarrow> string \<Rightarrow> gvc_vulnerability list" where
  "reported E g m = the_or [] (finish_results (gs_roots g) (merge_all E g) m)"

lemma reported_entries: "reported E g m = map (finish_vulnerability (gs_roots g) (merge_all E g) m) (entries (merge_all E g) m)"
  by (cases "st_results (merge_all E g) m") (simp_all add: reported_def finish_results_def entries_def)

lemma finish_facts [simp]:
  "v_ID (finish_vulnerability roots s m v) = v_ID v"
  "v_Reachability (finish_vulnerability roots s m v) = v_Reachability v"
  "v_CallPath (finish_vulnerability roots s m v) = v_CallPath v"
  "v_CallTrace (finish_vulnerability roots s m v) = v_CallTrace v"
  "v_CalledSymbols (finish_vulnerability roots s m v) = capCalledSymbols (the_or [] (st_calledSinks s (finding_key m (v_ID v))))"
  by (simp_all add: finish_vulnerability_def Let_def)

definition matches_choice :: "gvc_vulnerability \<Rightarrow> choice \<Rightarrow> bool" where
  "matches_choice v c =
     (v_Reachability v = ch_reach c \<and> v_CallPath v = ch_path c \<and> v_CallTrace v = ch_frames c \<and>
      v_CalledSymbols v = capCalledSymbols (ch_sinks c))"

definition traces_of :: "gvc_stream \<Rightarrow> string \<Rightarrow> string \<Rightarrow> trace_entry list list" where
  "traces_of g m i = map gf_Trace (filter (concerns (gs_osvs g) m i) (gs_findings g))"

lemma reported_choice:
  assumes "named_osvs (gs_osvs g)" "v \<in> set (reported E g m)"
  shows "CHR ''@'' \<notin> set (v_ID v)" "\<exists>c. choice_of (gs_roots g) (traces_of g m (v_ID v)) = Some c \<and> matches_choice v c"
proof -
  let ?s = "merge_all E g"
  note s = merged [OF assms(1), where E = E]
  obtain n where n: "n < length (entries ?s m)" "v = finish_vulnerability (gs_roots g) ?s m (entries ?s m ! n)"
    using assms(2) by (auto simp: reported_entries in_set_conv_nth)
  then have i: "CHR ''@'' \<notin> set (v_ID v)" "st_seenIdx ?s (finding_key m (v_ID v)) = Some n"
    using consistentD(3) [OF s(1) n(1)] by simp_all
  then show "CHR ''@'' \<notin> set (v_ID v)" by simp
  have "choice_of (gs_roots g) (traces_of g m (v_ID v)) = Some (choice_at ?s (finding_key m (v_ID v)) (entries ?s m ! n))"
    using s(2) [OF i(1), of m] i(2) by (simp add: entry_def traces_of_def)
  moreover have "matches_choice v (choice_at ?s (finding_key m (v_ID v)) (entries ?s m ! n))"
    using n(2) by (simp add: matches_choice_def choice_at_def)
  ultimately show "\<exists>c. choice_of (gs_roots g) (traces_of g m (v_ID v)) = Some c \<and> matches_choice v c" by blast
qed

lemma reported_exists:
  assumes "named_osvs (gs_osvs g)" "CHR ''@'' \<notin> set i" "traces_of g m i \<noteq> []"
  shows "\<exists>v \<in> set (reported E g m). v_ID v = i"
proof -
  let ?s = "merge_all E g"
  note s = merged [OF assms(1), where E = E]
  obtain n where n: "st_seenIdx ?s (finding_key m i) = Some n"
    using s(2) [OF assms(2), of m] assms(3) choice_of_None [of "gs_roots g" "traces_of g m i"]
    by (cases "st_seenIdx ?s (finding_key m i)") (simp_all add: entry_def traces_of_def)
  show ?thesis using seen_at [OF s(1) n assms(2)] by (force simp: reported_entries)
qed

lemma reported_distinct:
  assumes "named_osvs (gs_osvs g)"
  shows "distinct (map v_ID (reported E g m))"
proof -
  note c = consistentD(3) [OF merged(1) [OF assms, where E = E]]
  show ?thesis
    by (auto simp: reported_entries o_def distinct_conv_nth) (metis c option.inject)
qed

lemma choice_called:
  assumes "choice_of roots ts = Some c"
  shows "ch_reach c = ''called'' \<longleftrightarrow> (\<exists>t \<in> set ts. called t)"
proof -
  have inv: "choice_inv roots ts c" using assms by (rule choice_of_inv)
  have "reachabilityRank (ch_reach c) < reachabilityRank ''called''" if "ch_reach c \<noteq> ''called''"
    using that inv classify_range unfolding choice_inv_def by (auto simp: reachabilityRank_def)
  then show ?thesis using inv unfolding choice_inv_def called_def by (metis leD)
qed

lemma filter_unique:
  assumes "distinct (map g xs)" "x \<in> set xs"
  shows "filter (\<lambda>y. g y = g x) xs = [x]"
  using assms by (induction xs) (auto simp: filter_empty_conv dest: sym intro: image_eqI)

text \<open>C26: Every finding with an advisory and a module is in the report, in one record of that advisory under that module;
  the record is marked called exactly when some finding of the advisory in the module reaches it by a call.\<close>

theorem every_call_is_reported:
  assumes "named_osvs (gs_osvs g)" "f \<in> set (gs_findings g)" "gs_osvs g (gf_OSV f) \<noteq> None" "affected_module f \<noteq> ''''"
  shows "\<exists>v. filter (\<lambda>v. v_ID v = gf_OSV f) (reported E g (affected_module f)) = [v] \<and>
       (v_Reachability v = ''called'' \<longleftrightarrow>
       (\<exists>h \<in> set (gs_findings g). gf_OSV h = gf_OSV f \<and> affected_module h = affected_module f \<and>
          classifyReachability (gf_Trace h) = ''called''))"
proof -
  let ?m = "affected_module f" and ?i = "gf_OSV f"
  have i: "CHR ''@'' \<notin> set ?i" using assms(1,3) by (auto simp: named_osvs_def)
  have "traces_of g ?m ?i \<noteq> []" using assms(2-4) by (auto simp: traces_of_def concerns_def filter_empty_conv)
  then obtain v where v: "v \<in> set (reported E g ?m)" "v_ID v = ?i"
    using reported_exists [OF assms(1) i, where m = ?m and E = E] by blast
  then obtain c where c: "choice_of (gs_roots g) (traces_of g ?m ?i) = Some c" "matches_choice v c"
    using reported_choice [OF assms(1) v(1)] by auto
  have "v_Reachability v = ''called'' \<longleftrightarrow> (\<exists>h \<in> set (gs_findings g). gf_OSV h = ?i \<and> affected_module h = ?m \<and>
          classifyReachability (gf_Trace h) = ''called'')"
    using c(2) choice_called [OF c(1)] assms(3,4)
    by (auto simp: matches_choice_def traces_of_def concerns_def called_def)
  then show ?thesis
    using filter_unique [OF reported_distinct [OF assms(1), where E = E and m = ?m] v(1)] v(2) by auto
qed

definition same_record :: "gvc_vulnerability \<Rightarrow> gvc_vulnerability \<Rightarrow> bool" where
  "same_record v w =
     (v_ID v = v_ID w \<and> v_Reachability v = v_Reachability w \<and> v_CalledSymbols v = v_CalledSymbols w \<and>
      Join (v_CallPath v) [CHR 0x00] = Join (v_CallPath w) [CHR 0x00] \<and> length (v_CallPath v) = length (v_CallPath w) \<and>
      map frame_position (v_CallTrace v) = map frame_position (v_CallTrace w))"

lemma mset_filter_eq: "mset xs = mset ys \<Longrightarrow> mset (map h (filter P xs)) = mset (map h (filter P ys))"
  by simp

text \<open>C27: The report does not depend on the order of the findings: a permuted stream reports the same advisories of
  every module, each with the same reachability, the same symbols, and a call path of the same text, length and positions.\<close>

theorem finding_order_is_irrelevant:
  assumes "named_osvs (gs_osvs g)" "gs_osvs h = gs_osvs g" "gs_roots h = gs_roots g"
    "mset (gs_findings h) = mset (gs_findings g)" "v \<in> set (reported E g m)"
  shows "\<exists>w. filter (\<lambda>w. v_ID w = v_ID v) (reported E h m) = [w] \<and> same_record v w"
proof -
  note v = reported_choice [OF assms(1,5)]
  obtain c where c: "choice_of (gs_roots g) (traces_of g m (v_ID v)) = Some c" "matches_choice v c" using v(2) by blast
  have h: "named_osvs (gs_osvs h)" using assms(1,2) by simp
  have t: "mset (traces_of h m (v_ID v)) = mset (traces_of g m (v_ID v))"
    unfolding traces_of_def assms(2) using assms(4) by (rule mset_filter_eq)
  have "traces_of g m (v_ID v) \<noteq> []" using c(1) by auto
  then have "traces_of h m (v_ID v) \<noteq> []" using t by auto
  then obtain w where w: "w \<in> set (reported E h m)" "v_ID w = v_ID v"
    using reported_exists [OF h v(1)] by blast
  obtain d where d: "choice_of (gs_roots g) (traces_of h m (v_ID v)) = Some d" "matches_choice w d"
    using reported_choice(2) [OF h w(1)] w(2) assms(3) by auto
  have "same_report c d" using choice_order [OF c(1) d(1) t [symmetric]] .
  then have "same_record v w"
    using c(2) d(2) w(2) by (simp add: same_record_def same_report_def matches_choice_def)
  then show ?thesis using filter_unique [OF reported_distinct [OF h] w(1)] w(2) by auto
qed

section \<open>Witnesses\<close>

definition example_frame :: "string \<Rightarrow> string \<Rightarrow> string \<Rightarrow> trace_entry" where
  "example_frame m p f = \<lparr>te_Module = m, te_Version = ''v1.0.0'', te_Package = p, te_Function = f, te_Receiver = '''', te_Position = None\<rparr>"

definition example_call :: gvc_finding where
  "example_call = \<lparr>gf_OSV = ''GO-1'', gf_Trace = [example_frame ''b'' ''b'' ''Sink'', example_frame ''a'' ''a'' ''main''], gf_FixedVersion = ''v1.1.0''\<rparr>"

definition example_import :: gvc_finding where
  "example_import = \<lparr>gf_OSV = ''GO-1'', gf_Trace = [example_frame ''b'' ''b'' ''''], gf_FixedVersion = ''v1.1.0''\<rparr>"

definition example_stream :: "gvc_finding list \<Rightarrow> gvc_stream" where
  "example_stream fs = \<lparr>gs_osvs = [''GO-1'' \<mapsto> \<lparr>go_ID = ''GO-1'', go_Aliases = [], go_Summary = '''', go_Published = '''', go_Affected = []\<rparr>],
     gs_findings = fs, gs_roots = None\<rparr>"

lemma example_named: "named_osvs (gs_osvs (example_stream fs))"
  by (simp add: named_osvs_def example_stream_def)

lemma example_facts:
  "gs_osvs (example_stream fs) (gf_OSV example_call) \<noteq> None" "affected_module example_call = ''b''" "gf_OSV example_call = ''GO-1''"
  by (simp_all add: example_stream_def example_call_def affected_module_def example_frame_def)

theorem every_call_is_reported_witness:
  "\<exists>v. filter (\<lambda>v. v_ID v = ''GO-1'') (reported (fixed_world not_found nvd_empty (answers [])) (example_stream [example_import, example_call]) ''b'') = [v] \<and>
     v_Reachability v = ''called''"
proof -
  have "classifyReachability (gf_Trace example_call) = ''called''" by code_simp
  then show ?thesis
    using every_call_is_reported [OF example_named [of "[example_import, example_call]"], of example_call
        "fixed_world not_found nvd_empty (answers [])"] example_facts
    by (auto simp: example_stream_def)
qed

theorem finding_order_is_irrelevant_witness:
  "\<exists>v w. v_ID v = ''GO-1'' \<and>
     filter (\<lambda>v. v_ID v = ''GO-1'') (reported (fixed_world not_found nvd_empty (answers [])) (example_stream [example_call, example_import]) ''b'') = [w] \<and>
     same_record v w"
proof -
  let ?E = "fixed_world not_found nvd_empty (answers [])" and ?g = "example_stream [example_import, example_call]"
    and ?h = "example_stream [example_call, example_import]"
  have "traces_of ?g ''b'' ''GO-1'' \<noteq> []" by code_simp
  then obtain v where v: "v \<in> set (reported ?E ?g ''b'')" "v_ID v = ''GO-1''"
    using reported_exists [OF example_named, of "''GO-1''" _ "''b''" ?E] by auto
  have "gs_osvs ?h = gs_osvs ?g" "gs_roots ?h = gs_roots ?g" "mset (gs_findings ?h) = mset (gs_findings ?g)"
    by (simp_all add: example_stream_def)
  then show ?thesis
    using finding_order_is_irrelevant [OF example_named _ _ _ v(1)] v(2) by metis
qed

end
