(* ===== verification/Integrity.thy ===== *)
theory Integrity
  imports Resolver_Graph Scanner_Data Go_Number
begin

text \<open>
  \<open>pkg/scanner/integrity.go\<close>: the audit of the directives of \<open>go.mod\<close>, of pseudo-versions, and of \<open>go.sum\<close>. What
  is on disk and what \<open>go mod verify\<close> did are arguments; so are \<open>module.IsPseudoVersion\<close> (third-party) and
  the order in which a map is walked.
\<close>

section \<open>The report\<close>

record audit_finding = integrity_finding +
  if_Severity :: string
  if_Remediation :: string

record audit_report =
  ar_Findings :: "audit_finding list"
  ar_ReplaceCount :: int
  ar_ExcludeCount :: int
  ar_RedirectCount :: int
  ar_GoSumVerified :: string
  ar_PseudoVersionCount :: int

definition empty_report :: audit_report where
  "empty_report = \<lparr>ar_Findings = [], ar_ReplaceCount = 0, ar_ExcludeCount = 0, ar_RedirectCount = 0,
     ar_GoSumVerified = '''', ar_PseudoVersionCount = 0\<rparr>"

text \<open>What the gate reads of it.\<close>

definition gate_report :: "audit_report \<Rightarrow> integrity_report" where
  "gate_report r =
     \<lparr>ir_Findings = map integrity_finding.truncate (ar_Findings r), ir_GoSumVerified = ar_GoSumVerified r\<rparr>"

definition IntegrityInfo :: string where "IntegrityInfo = ''INFO''"
definition IntegrityCritical :: string where "IntegrityCritical = ''CRITICAL''"

definition GoSumVerifiedTrue :: string where "GoSumVerifiedTrue = ''true''"
definition GoSumVerifiedFalse :: string where "GoSumVerifiedFalse = ''false''"
definition GoSumVerifiedOffline :: string where "GoSumVerifiedOffline = ''offline''"
definition GoSumVerifiedSkipped :: string where "GoSumVerifiedSkipped = ''skipped''"

definition add_finding :: "audit_finding \<Rightarrow> audit_report \<Rightarrow> audit_report" where
  "add_finding f r = r\<lparr>ar_Findings := ar_Findings r @ [f]\<rparr>"

section \<open>Replace directives\<close>

definition is_letter :: "char \<Rightarrow> bool" where
  "is_letter c = (let n = (of_char c :: nat) in (65 \<le> n \<and> n \<le> 90) \<or> (97 \<le> n \<and> n \<le> 122))"

definition backslash :: char where "backslash = CHR 0x5C"

definition scanner_isLocalPath :: "string \<Rightarrow> bool" where
  "scanner_isLocalPath path =
     (path = ''.'' \<or> HasPrefix path ''./'' \<or> HasPrefix path ''/'' \<or>
      path = ''..'' \<or> HasPrefix path ''../'' \<or>
      HasPrefix path [CHR ''.'', backslash] \<or> HasPrefix path [backslash] \<or>
      HasPrefix path [CHR ''.'', CHR ''.'', backslash] \<or>
      (length path \<ge> 2 \<and> is_letter (path ! 0) \<and> path ! 1 = CHR '':''))"

text \<open>
  The regular expression \<open>^(.+)/v(\d+)$\<close> with its two groups: the digits at the end hold no slash, so the
  match is unique. The dot does not match a newline.
\<close>

definition ascii_digit :: "char \<Rightarrow> bool" where
  "ascii_digit c = (digit_of c \<noteq> None)"

definition majorVersionSuffixRe :: "string \<Rightarrow> (string \<times> string) option" where
  "majorVersionSuffixRe path =
     (let ds = rev (takeWhile ascii_digit (rev path));
          front = take (length path - length ds) path;
          base = TrimSuffix front ''/v''
      in if ds = [] \<or> \<not> HasSuffix front ''/v'' \<or> base = [] \<or> CHR 0x0A \<in> set base then None else Some (base, ds))"

definition splitMajorVersionSuffix :: "string \<Rightarrow> (string \<times> int) option" where
  "splitMajorVersionSuffix path =
     (case majorVersionSuffixRe path of
        None \<Rightarrow> None
      | Some (base, ds) \<Rightarrow>
          (case Atoi ds of
             None \<Rightarrow> None
           | Some v \<Rightarrow> if v < 2 then None else Some (base, v)))"

definition isMajorVersionRedirect :: "string \<Rightarrow> string \<Rightarrow> bool" where
  "isMajorVersionRedirect origPath replPath =
     (case splitMajorVersionSuffix replPath of
        None \<Rightarrow> False
      | Some (replBase, _) \<Rightarrow>
          replBase = (case splitMajorVersionSuffix origPath of None \<Rightarrow> origPath | Some (origBase, _) \<Rightarrow> origBase))"

definition classifyReplace :: "string \<Rightarrow> gomodule \<Rightarrow> audit_finding" where
  "classifyReplace origPath replacement =
     (if md_Path replacement = origPath then
        \<lparr>if_Category = ''replace_version_pin'', if_Module = origPath,
         if_Detail = origPath @ '' is version-pinned to '' @ md_Version replacement,
         if_Severity = IntegrityLow,
         if_Remediation = ''Version-pin replaces are expected; confirm the pinned version is intentional and current.''\<rparr>
      else if scanner_isLocalPath (md_Path replacement) then
        \<lparr>if_Category = ''replace_local_path'', if_Module = origPath,
         if_Detail = origPath @ '' is replaced with local path '' @ md_Path replacement,
         if_Severity = IntegrityMedium,
         if_Remediation = ''Local-path replaces are expected in development; ensure this is removed before release.''\<rparr>
      else if isMajorVersionRedirect origPath (md_Path replacement) then
        \<lparr>if_Category = ''replace_major_version'', if_Module = origPath,
         if_Detail = origPath @ '' is redirected to a major-version path of the same module: '' @ md_Path replacement,
         if_Severity = IntegrityMedium,
         if_Remediation = ''Major-version redirect within the same module; confirm intentional.''\<rparr>
      else
        \<lparr>if_Category = ''replace_redirect'', if_Module = origPath,
         if_Detail = origPath @ '' is redirected to a different module: '' @ md_Path replacement,
         if_Severity = IntegrityHigh,
         if_Remediation = ''Verify the redirect target is trusted '' @ em_dash
           @ '' a replace to an unexpected module path can indicate a fork hijack or private-mirror compromise.''\<rparr>)"

definition replace_finding :: "string \<Rightarrow> replace \<Rightarrow> audit_finding" where
  "replace_finding origPath rep =
     (let f = classifyReplace origPath (rp_New rep)
      in if rp_OldVersion rep \<noteq> ''''
         then f\<lparr>if_Detail := if_Detail f @ '' (applies only when version '' @ rp_OldVersion rep @ '' is selected)''\<rparr>
         else f)"

text \<open>The classes are a map from the original path to the severity.\<close>

type_synonym classes = "string \<rightharpoonup> string"

definition scan_replace :: "gomod \<Rightarrow> string \<Rightarrow> audit_report \<times> classes \<Rightarrow> audit_report \<times> classes" where
  "scan_replace gm origPath = (\<lambda>(report, classes).
     case gm_Replaces gm origPath of
       None \<Rightarrow> (report, classes)
     | Some rep \<Rightarrow>
         (let f = replace_finding origPath rep;
              report = (add_finding f report)\<lparr>ar_ReplaceCount := ar_ReplaceCount report + 1\<rparr>
          in (if if_Severity f = IntegrityHigh then report\<lparr>ar_RedirectCount := ar_RedirectCount report + 1\<rparr> else report,
              classes(origPath \<mapsto> if_Severity f))))"

definition exclude_finding :: "gomodule \<Rightarrow> audit_finding" where
  "exclude_finding ex =
     \<lparr>if_Category = ''exclude'', if_Module = md_Path ex,
      if_Detail = ''version '' @ md_Version ex @ '' is excluded from selection'',
      if_Severity = IntegrityInfo,
      if_Remediation = ''Confirm the excluded version and the reason for exclusion are documented (e.g. a known-bad release).''\<rparr>"

definition scan_exclude :: "gomodule \<Rightarrow> audit_report \<Rightarrow> audit_report" where
  "scan_exclude ex report = (add_finding (exclude_finding ex) report)\<lparr>ar_ExcludeCount := ar_ExcludeCount report + 1\<rparr>"

text \<open>\<open>keys\<close>: the keys of the map of replacements, in the order in which it is walked.\<close>

definition ScanDirectives :: "string list \<Rightarrow> gomod \<Rightarrow> audit_report \<times> classes" where
  "ScanDirectives keys gm =
     (let (report, classes) = fold (scan_replace gm) (sort_strings keys) (empty_report, Map.empty)
      in (fold scan_exclude (gm_Excludes gm) report, classes))"

section \<open>Pseudo-versions\<close>

definition pseudo_kind :: "dependency \<Rightarrow> string \<times> string" where
  "pseudo_kind dep =
     (if dp_IsTestOnly dep = Some True then (IntegrityInfo, ''test-only; no score impact'')
      else if dp_InBuild dep = Some False then (IntegrityInfo, ''outside the build; no score impact'')
      else if dp_Direct dep then (IntegrityMedium, ''direct dependency'')
      else (IntegrityLow, ''transitive dependency''))"

definition pseudo_finding :: "string \<Rightarrow> dependency \<Rightarrow> audit_finding" where
  "pseudo_finding path dep =
     \<lparr>if_Category = ''pseudo_version'', if_Module = path,
      if_Detail = path @ '' is pinned to pseudo-version '' @ md_Version (dp_Module dep) @ '' ('' @ snd (pseudo_kind dep) @ '')'',
      if_Severity = fst (pseudo_kind dep),
      if_Remediation = ''Pin to a tagged release if one exists, or confirm the commit-pinned version is intentional (e.g. no tags have been published yet).''\<rparr>"

definition scan_pseudo :: "(string \<Rightarrow> bool) \<Rightarrow> depgraph \<Rightarrow> string \<Rightarrow> audit_report \<times> classes \<Rightarrow> audit_report \<times> classes" where
  "scan_pseudo IsPseudoVersion graph path = (\<lambda>(report, classes).
     case dep_of graph path of
       None \<Rightarrow> (report, classes)
     | Some dep \<Rightarrow>
         if \<not> IsPseudoVersion (md_Version (dp_Module dep)) then (report, classes)
         else ((add_finding (pseudo_finding path dep) report)\<lparr>ar_PseudoVersionCount := ar_PseudoVersionCount report + 1\<rparr>,
               classes(path \<mapsto> fst (pseudo_kind dep))))"

definition ScanPseudoVersions :: "(string \<Rightarrow> bool) \<Rightarrow> depgraph \<Rightarrow> audit_report \<Rightarrow> audit_report \<times> classes" where
  "ScanPseudoVersions IsPseudoVersion graph report =
     fold (scan_pseudo IsPseudoVersion graph) (SortedPaths graph) (report, Map.empty)"

section \<open>The checksum file\<close>

definition gosumIncompleteListCap :: nat where "gosumIncompleteListCap = 10"

definition backquote :: string where "backquote = [CHR 0x60]"

definition gosum_missing :: "gomod \<Rightarrow> audit_finding" where
  "gosum_missing gm =
     \<lparr>if_Category = ''gosum_missing'', if_Module = gm_ModulePath gm,
      if_Detail = ''go.mod declares requirements but no go.sum is present '' @ em_dash @ '' dependency checksums are not pinned'',
      if_Severity = IntegrityHigh,
      if_Remediation = ''Run '' @ backquote @ ''go mod tidy'' @ backquote
        @ '' and commit go.sum so every dependency download is verified against a pinned checksum.''\<rparr>"

definition gosum_incomplete :: "gomod \<Rightarrow> string list \<Rightarrow> audit_finding" where
  "gosum_incomplete gm missing =
     (let listed = take gosumIncompleteListCap missing;
          elided = (if length missing > gosumIncompleteListCap
                    then '' (and '' @ itoa (int (length missing) - int gosumIncompleteListCap) @ '' more)'' else '''')
      in \<lparr>if_Category = ''gosum_incomplete'', if_Module = gm_ModulePath gm,
          if_Detail = itoa (int (length missing)) @ '' direct dependency module(s) have no go.sum entry: ''
            @ Join listed '', '' @ elided,
          if_Severity = IntegrityMedium,
          if_Remediation = ''Run '' @ backquote @ ''go mod tidy'' @ backquote
            @ '' to record checksums for every module in the build graph, then commit the updated go.sum.''\<rparr>)"

definition version_key :: "string \<Rightarrow> string \<Rightarrow> string" where
  "version_key path version = path @ ''@'' @ version"

definition missing_entries :: "gosum_entry list \<Rightarrow> depgraph \<Rightarrow> string list" where
  "missing_entries entries graph =
     (let have = set (map (\<lambda>e. version_key (se_Path e) (se_Version e)) entries)
      in map (\<lambda>(path, dep). version_key path (md_Version (dp_Module dep)))
           (filter (\<lambda>(path, dep). dp_Direct dep \<and> \<not> dp_Replaced dep \<and> version_key path (md_Version (dp_Module dep)) \<notin> have)
             (gr_Dependencies graph)))"

text \<open>What is found beside \<open>go.mod\<close>: whether the two files are there, and what reading the first gives.\<close>

record module_dir =
  dir_gosum :: bool
  dir_vendor :: bool
  dir_gosum_text :: "string + string"

definition ScanGoSum :: "module_dir \<Rightarrow> gomod \<Rightarrow> depgraph \<Rightarrow> audit_report \<Rightarrow> audit_report" where
  "ScanGoSum dir gm graph report =
     (if \<not> dir_gosum dir then
        (if gm_Requirements gm = [] then report else add_finding (gosum_missing gm) report)
      else if dir_vendor dir then report
      else case ParseGoSum (dir_gosum_text dir) of
          (entries, Some err) \<Rightarrow> report
        | (entries, None) \<Rightarrow>
            (let missing = sort_strings (missing_entries entries graph)
             in if missing = [] then report else add_finding (gosum_incomplete gm missing) report))"

definition gosumDetailCap :: nat where "gosumDetailCap = 500"

definition gosumMismatchMarkers :: "string list" where
  "gosumMismatchMarkers = [''has been modified'', ''checksum mismatch'', ''SECURITY ERROR'']"

text \<open>How \<open>go mod verify\<close> ended: it succeeded; it failed, with the state of the context, whether the failure is an exit status, and its output.\<close>

datatype verify_run = Verified | VerifyFailed bool bool string

definition cap_detail :: "string \<Rightarrow> string" where
  "cap_detail detail =
     (if length detail > gosumDetailCap then take gosumDetailCap detail @ [CHR 0xE2, CHR 0x80, CHR 0xA6] else detail)"

definition gosum_mismatch :: "string \<Rightarrow> audit_finding" where
  "gosum_mismatch detail =
     \<lparr>if_Category = ''gosum_mismatch'', if_Module = ''go.sum'',
      if_Detail = ''go mod verify failed: '' @ cap_detail detail,
      if_Severity = IntegrityCritical,
      if_Remediation = ''A module in the local cache does not match its go.sum checksum '' @ em_dash
        @ '' possible tampering. Clear the module cache ('' @ backquote @ ''go clean -modcache'' @ backquote
        @ ''), re-download, and investigate how the mismatch was introduced before trusting this build.''\<rparr>"

definition VerifyGoSum :: "bool \<Rightarrow> module_dir \<Rightarrow> verify_run \<Rightarrow> audit_report \<Rightarrow> audit_report" where
  "VerifyGoSum offline dir run report =
     (if offline then report\<lparr>ar_GoSumVerified := GoSumVerifiedOffline\<rparr>
      else if \<not> dir_gosum dir then report\<lparr>ar_GoSumVerified := GoSumVerifiedSkipped\<rparr>
      else case run of
          Verified \<Rightarrow> report\<lparr>ar_GoSumVerified := GoSumVerifiedTrue\<rparr>
        | VerifyFailed ctx_done exit_error output \<Rightarrow>
            if ctx_done then report\<lparr>ar_GoSumVerified := GoSumVerifiedSkipped\<rparr>
            else if \<not> exit_error then report\<lparr>ar_GoSumVerified := GoSumVerifiedSkipped\<rparr>
            else (let detail = TrimSpace output
              in if \<not> list_ex (Contains detail) gosumMismatchMarkers
                 then report\<lparr>ar_GoSumVerified := GoSumVerifiedSkipped\<rparr>
                 else add_finding (gosum_mismatch detail) (report\<lparr>ar_GoSumVerified := GoSumVerifiedFalse\<rparr>)))"

section \<open>The whole audit\<close>

text \<open>In the order of \<open>pkg/runner/analysis.go\<close>.\<close>

definition audit ::
  "(string \<Rightarrow> bool) \<Rightarrow> string list \<Rightarrow> bool \<Rightarrow> module_dir \<Rightarrow> verify_run \<Rightarrow> gomod \<Rightarrow> depgraph \<Rightarrow> audit_report \<times> classes \<times> classes" where
  "audit IsPseudoVersion keys offline dir run gm graph =
     (let (report, replaced) = ScanDirectives keys gm;
          (report, pseudo) = ScanPseudoVersions IsPseudoVersion graph report
      in (VerifyGoSum offline dir run (ScanGoSum dir gm graph report), replaced, pseudo))"

end
