(* ===== verification/Integrity_Props.thy ===== *)
theory Integrity_Props
  imports Integrity Policy Risk_Props
begin

text \<open>
  The audit reports every replacement that the parser kept, the gate fails on what it reports, and a
  mismatch of \<open>go.sum\<close> cannot stay silent. A replacement that the parser dropped is not audited.
\<close>

section \<open>The findings\<close>

definition replace_findings :: "gomod \<Rightarrow> string list \<Rightarrow> audit_finding list" where
  "replace_findings gm ks = List.map_filter (\<lambda>k. map_option (replace_finding k) (gm_Replaces gm k)) ks"

lemma add_finding_Findings [simp]: "ar_Findings (add_finding f r) = ar_Findings r @ [f]"
  by (simp add: add_finding_def)

lemma scan_replace_step:
  "ar_Findings (fst (scan_replace gm k x)) =
     ar_Findings (fst x) @ (case gm_Replaces gm k of None \<Rightarrow> [] | Some rep \<Rightarrow> [replace_finding k rep])"
  by (cases x; cases "gm_Replaces gm k") (simp_all add: scan_replace_def Let_def)

lemma scan_replace_Findings:
  "ar_Findings (fst (fold (scan_replace gm) ks x)) = ar_Findings (fst x) @ replace_findings gm ks"
proof (induction ks arbitrary: x)
  case (Cons k ks)
  show ?case
    by (cases "gm_Replaces gm k") (simp_all add: Cons.IH scan_replace_step replace_findings_def map_filter_simps)
qed (simp add: replace_findings_def map_filter_simps)

lemma scan_exclude_Findings: "ar_Findings (fold scan_exclude es r) = ar_Findings r @ map exclude_finding es"
  by (induction es arbitrary: r) (simp_all add: scan_exclude_def)

lemma ScanDirectives_Findings:
  "ar_Findings (fst (ScanDirectives ks gm)) =
     replace_findings gm (sort_strings ks) @ map exclude_finding (gm_Excludes gm)"
  using scan_replace_Findings [of gm "sort_strings ks" "(empty_report, Map.empty)"]
  by (auto simp: ScanDirectives_def scan_exclude_Findings empty_report_def split: prod.split)

text \<open>A later step only adds findings, none of them about replacements.\<close>

definition adds_other :: "audit_report \<Rightarrow> audit_report \<Rightarrow> bool" where
  "adds_other r r' =
     (\<exists>fs. ar_Findings r' = ar_Findings r @ fs \<and> (\<forall>f \<in> set fs. if_Category f \<noteq> ''replace_redirect''))"

lemma adds_other_refl: "adds_other r r"
  by (simp add: adds_other_def)

lemma adds_other_trans: "adds_other a b \<Longrightarrow> adds_other b c \<Longrightarrow> adds_other a c"
  unfolding adds_other_def by force

lemma adds_other_add: "if_Category f \<noteq> ''replace_redirect'' \<Longrightarrow> adds_other r (add_finding f (r\<lparr>ar_GoSumVerified := v\<rparr>))"
  "if_Category f \<noteq> ''replace_redirect'' \<Longrightarrow> adds_other r (add_finding f r)"
  "adds_other r (r\<lparr>ar_GoSumVerified := v\<rparr>)"
  by (simp_all add: adds_other_def)

lemma ScanPseudoVersions_adds: "adds_other r (fst (ScanPseudoVersions ps g r))"
proof -
  have "adds_other r (fst (fold (scan_pseudo ps g) xs (r, c)))" for xs c
  proof (induction xs arbitrary: r c)
    case (Cons x xs)
    obtain r' c' where s: "scan_pseudo ps g x (r, c) = (r', c')" by fastforce
    then have 1: "adds_other r r'"
      by (auto simp: scan_pseudo_def pseudo_finding_def adds_other_def split: option.splits if_splits)
    show ?case using adds_other_trans [OF 1 Cons.IH [of r' c']] s by simp
  qed (simp add: adds_other_refl)
  then show ?thesis by (simp add: ScanPseudoVersions_def)
qed

lemma ScanGoSum_adds: "adds_other r (ScanGoSum dir gm g r)"
  by (auto simp: ScanGoSum_def Let_def gosum_missing_def gosum_incomplete_def
      intro: adds_other_refl adds_other_add split: prod.split option.split)

lemma VerifyGoSum_adds: "adds_other r (VerifyGoSum off dir run r)"
  by (auto simp: VerifyGoSum_def Let_def gosum_mismatch_def intro: adds_other_refl adds_other_add split: verify_run.split)

lemma audit_adds: "adds_other (fst (ScanDirectives ks gm)) (fst (audit ps ks off dir run gm g))"
proof -
  obtain r c where 1: "ScanDirectives ks gm = (r, c)" by fastforce
  obtain r' c' where 2: "ScanPseudoVersions ps g r = (r', c')" by fastforce
  have "adds_other r (VerifyGoSum off dir run (ScanGoSum dir gm g r'))"
    using ScanPseudoVersions_adds [of r ps g] 2 adds_other_trans [OF _ adds_other_trans [OF ScanGoSum_adds VerifyGoSum_adds]] by simp
  then show ?thesis by (simp add: audit_def 1 2)
qed

section \<open>Redirects\<close>

text \<open>What the code calls a redirect, and the finding it makes of it.\<close>

definition redirected :: "string \<Rightarrow> string \<Rightarrow> bool" where
  "redirected p q = (q \<noteq> p \<and> \<not> scanner_isLocalPath q \<and> \<not> isMajorVersionRedirect p q)"

lemma replace_finding_facts [simp]:
  "if_Module (replace_finding p rep) = p"
  "if_Category (replace_finding p rep) = ''replace_redirect'' \<longleftrightarrow> redirected p (md_Path (rp_New rep))"
  "if_Severity (replace_finding p rep) = IntegrityHigh \<longleftrightarrow> redirected p (md_Path (rp_New rep))"
  by (simp_all add: replace_finding_def Let_def classifyReplace_def redirected_def IntegrityHigh_def IntegrityLow_def IntegrityMedium_def)

lemma redirect_findings:
  assumes "set ks = dom (gm_Replaces gm)"
  shows "(\<exists>f \<in> set (ar_Findings (fst (audit ps ks off dir run gm g))). if_Category f = ''replace_redirect'' \<and> if_Module f = p) \<longleftrightarrow>
    (\<exists>rep. gm_Replaces gm p = Some rep \<and> redirected p (md_Path (rp_New rep)))"
proof -
  obtain fs where fs: "ar_Findings (fst (audit ps ks off dir run gm g)) = ar_Findings (fst (ScanDirectives ks gm)) @ fs"
    "\<forall>f \<in> set fs. if_Category f \<noteq> ''replace_redirect''"
    using audit_adds [of ks gm ps off dir run g] unfolding adds_other_def by blast
  let ?P = "\<lambda>f. if_Category f = ''replace_redirect'' \<and> if_Module f = p"
  have "\<not> ?P (exclude_finding e)" for e by (simp add: exclude_finding_def)
  moreover have "\<not> ?P f" if "f \<in> set fs" for f using fs(2) that by blast
  ultimately have "(\<exists>f \<in> set (ar_Findings (fst (audit ps ks off dir run gm g))). ?P f) \<longleftrightarrow>
      (\<exists>f \<in> set (replace_findings gm (sort_strings ks)). ?P f)"
    unfolding fs(1) ScanDirectives_Findings set_append set_map by blast
  also have "set (replace_findings gm (sort_strings ks)) = {replace_finding k rep | k rep. gm_Replaces gm k = Some rep}"
    using assms by (force simp: replace_findings_def List.map_filter_def)
  also have "(\<exists>f \<in> {replace_finding k rep | k rep. gm_Replaces gm k = Some rep}. ?P f) \<longleftrightarrow>
      (\<exists>rep. gm_Replaces gm p = Some rep \<and> redirected p (md_Path (rp_New rep)))"
    by force
  finally show ?thesis .
qed

text \<open>
  What a redirect is, without the code's predicates. A path is local when its first component is empty or made of dots,
  or when it names a drive. A path is a major version of a base when it is the base, \<open>/v\<close> and a number of at least 2. Two
  paths are siblings when they are major versions of one base, or the first is the base and is no major version itself.
  A replacement is foreign when it is none of the path itself, a local path and a sibling.
\<close>

definition local_path :: "string \<Rightarrow> bool" where
  "local_path q =
     (q \<noteq> [] \<and> takeWhile (\<lambda>c. c \<noteq> CHR ''/'' \<and> c \<noteq> backslash) q \<in> {[], ''.'', ''..''} \<or>
      2 \<le> length q \<and> is_letter (q ! 0) \<and> q ! 1 = CHR '':'')"

definition major_version :: "string \<Rightarrow> string \<Rightarrow> bool" where
  "major_version base path =
     (let ds = drop (length base + 2) path
      in path = base @ ''/v'' @ ds \<and> list_all ascii_digit ds \<and> (case Atoi ds of None \<Rightarrow> False | Some v \<Rightarrow> 2 \<le> v))"

definition sibling :: "string \<Rightarrow> string \<Rightarrow> bool" where
  "sibling p q =
     list_ex (\<lambda>n. major_version (take n q) q \<and>
        (major_version (take n q) p \<or> take n q = p \<and> \<not> list_ex (\<lambda>k. major_version (take k p) p) [1..<length p]))
       [0..<length q]"

definition foreign :: "string \<Rightarrow> string \<Rightarrow> bool" where
  "foreign p q = (q \<noteq> p \<and> \<not> local_path q \<and> \<not> sibling p q)"

lemma scanner_isLocalPath_iff: "scanner_isLocalPath q = local_path q"
proof (cases q)
  case (Cons a q')
  then show ?thesis
    by (cases q'; cases "tl q'") (auto simp: scanner_isLocalPath_def local_path_def backslash_def)
qed (simp add: scanner_isLocalPath_def local_path_def)

lemma split_major_version:
  assumes "splitMajorVersionSuffix q = Some (b, v)"
  shows "major_version b q" "CHR 0x0A \<notin> set b" "b \<noteq> []"
proof -
  let ?ds = "rev (takeWhile ascii_digit (rev q))"
  let ?front = "take (length q - length ?ds) q"
  obtain m where m: "majorVersionSuffixRe q = Some (b, ?ds)" "Atoi ?ds = Some v" "2 \<le> v" "HasSuffix ?front ''/v''"
      "b = TrimSuffix ?front ''/v''" "CHR 0x0A \<notin> set b" "b \<noteq> []"
    using assms by (auto simp: splitMajorVersionSuffix_def majorVersionSuffixRe_def Let_def split: option.splits if_splits)
  have q: "q = ?front @ ?ds"
    by (metis append_take_drop_id length_rev rev_rev_ident takeWhile_eq_take rev_take drop_rev)
  obtain t where t: "?front = t @ ''/v''" using m(4) by (auto simp: HasSuffix_iff)
  then have f: "?front = b @ ''/v''" using m(4,5) by (simp add: TrimSuffix_def)
  have "q = b @ ''/v'' @ ?ds" using q f by simp
  moreover have "list_all ascii_digit ?ds" by (auto simp: list_all_iff dest: set_takeWhileD)
  moreover have "drop (length b + 2) q = ?ds" by (subst \<open>q = b @ ''/v'' @ ?ds\<close>) simp
  ultimately show "major_version b q" "CHR 0x0A \<notin> set b" "b \<noteq> []" using m by (simp_all add: major_version_def)
qed

lemma major_version_split:
  assumes "major_version b p" "CHR 0x0A \<notin> set p" "b \<noteq> []"
  shows "\<exists>v. splitMajorVersionSuffix p = Some (b, v)"
proof -
  obtain ds v where p: "p = b @ ''/v'' @ ds" "list_all ascii_digit ds" "Atoi ds = Some v" "2 \<le> v"
    using assms(1) by (auto simp: major_version_def Let_def split: option.splits)
  have "\<not> ascii_digit (CHR ''v'')" by code_simp
  then have "takeWhile ascii_digit (rev p) = rev ds"
    using p(1,2) takeWhile_append2 [of "rev ds" ascii_digit] by (simp add: list_all_iff)
  then have "majorVersionSuffixRe p = Some (b, ds)"
    using assms(2,3) p by (auto simp: majorVersionSuffixRe_def Let_def HasSuffix_iff TrimSuffix_def Atoi_def)
  then show ?thesis using p(3,4) by (simp add: splitMajorVersionSuffix_def)
qed

lemma major_redirect_sibling:
  assumes "isMajorVersionRedirect p q"
  shows "sibling p q"
proof -
  obtain b v where q: "splitMajorVersionSuffix q = Some (b, v)"
      "b = (case splitMajorVersionSuffix p of None \<Rightarrow> p | Some (b', _) \<Rightarrow> b')"
    using assms by (auto simp: isMajorVersionRedirect_def split: option.splits)
  note b = split_major_version [OF q(1)]
  have "major_version b p \<or> b = p \<and> \<not> list_ex (\<lambda>k. major_version (take k p) p) [1..<length p]"
  proof (cases "splitMajorVersionSuffix p")
    case None
    then have "b = p" using q(2) by simp
    moreover have "\<not> major_version (take k p) p" if "k \<in> {1..<length p}" for k
      using major_version_split [of "take k p" p] None that b(2) \<open>b = p\<close> by (cases "take k p = []") auto
    ultimately show ?thesis by (auto simp: list_ex_iff)
  next
    case (Some x)
    then show ?thesis using q(2) split_major_version(1) by (cases x) auto
  qed
  moreover have "take (length b) q = b" "length b < length q"
    using b(1) by (auto simp: major_version_def Let_def) (metis append_eq_conv_conj, metis length_append less_add_Suc1 add_Suc_right list.size(4))
  ultimately show ?thesis
    using b(1) by (auto simp: sibling_def list_ex_iff intro!: bexI [of _ "length b"])
qed

lemma foreign_redirected: "foreign p q \<Longrightarrow> redirected p q"
  using major_redirect_sibling by (auto simp: foreign_def redirected_def scanner_isLocalPath_iff)

lemma policy_truncate [simp]:
  "if_Category (integrity_finding.truncate f) = if_Category f" "if_Module (integrity_finding.truncate f) = if_Module f"
  by (simp_all add: integrity_finding.defs)

lemma appends_failure: "appends f \<Longrightarrow> \<not> pr_Pass r \<Longrightarrow> \<not> pr_Pass (f r)"
  unfolding appends_def Policy.extend_def by fastforce

lemma fold_fails:
  assumes "\<And>f. f \<in> set fs \<Longrightarrow> appends (h f)" "f \<in> set fs" "\<And>r. \<not> pr_Pass (h f r)"
  shows "\<not> pr_Pass (fold h fs r)"
  using assms
proof (induction fs arbitrary: r)
  case (Cons x fs)
  have step: "appends (\<lambda>r. fold h fs r)" using Cons.prems(1) by (intro appends_fold) simp
  show ?case
  proof (cases "f = x")
    case True
    then have "\<not> pr_Pass (h x r)" using Cons.prems(3) by simp
    then show ?thesis using appends_failure [OF step] by auto
  next
    case False
    then show ?thesis using Cons by simp
  qed
qed simp

text \<open>C28: With \<open>forbid_replace_redirect\<close> the gate fails on every replacement kept by the parser that leads to a
  different module: one that is neither the same path, nor a local path, nor the same module with another \<open>/vN\<close>
  suffix.\<close>

theorem redirect_fails_the_gate:
  assumes "set ks = dom (gm_Replaces gm)" "gm_Replaces gm p = Some rep" "foreign p (md_Path (rp_New rep))"
    "pl_ForbidReplaceRedirect pol" "ei_ProjectScore inp = Some deps"
    "ei_IntegrityReport inp = Some (gate_report (fst (audit ps ks off dir run gm g)))"
  shows "\<not> pr_Pass (Evaluate pol inp)"
proof -
  let ?r = "rule_ci_score pol inp (fold (check_dependency pol inp) deps (evalGrade pol (ei_Grade inp) start_result))"
  let ?ir = "gate_report (fst (audit ps ks off dir run gm g))"
  obtain f where f: "f \<in> set (ir_Findings ?ir)" "if_Category f = ''replace_redirect''"
    using redirect_findings [OF assms(1), of ps off dir run g p] assms(2) foreign_redirected [OF assms(3)]
    by (force simp: gate_report_def)
  let ?h = "\<lambda>f :: integrity_finding. if if_Category f = ''replace_redirect''
    then addError ''forbid_replace_redirect'' (if_Module f) (if_Detail f) else (\<lambda>r. r)"
  have "appends (?h f')" for f' by (cases "if_Category f' = ''replace_redirect''") (auto intro: policy_rules appends_skip)
  moreover have "\<not> pr_Pass (?h f r)" for r by (simp add: f(2) addError_def)
  ultimately have "\<not> pr_Pass (fold ?h (ir_Findings ?ir) ?r)" by (rule fold_fails [OF _ f(1)])
  then have "\<not> pr_Pass (rule_replace_redirect pol inp ?r)"
    unfolding rule_replace_redirect_def assms(6) option.case using assms(4) by simp
  moreover have "appends (rule_gosum pol inp)" by (rule policy_rules)
  ultimately show ?thesis
    unfolding Evaluate_steps assms(5) option.case using appends_failure by blast
qed

text \<open>The parser keeps one replacement per path, the last. A further replacement of the same path by itself, for
  a version that is not even selected, makes the audit of the file silent about a redirect of that path.\<close>

theorem second_replace_hides_redirect:
  assumes "lax (gomod_text path version reqs (reps @ [(p, pin)]) excls) = None" "value_ok path" "value_ok version"
    "list_all require_ok reqs" "list_all replace_ok reps" "list_all require_ok excls"
    "replace_ok (p, pin)" "md_Path (rp_New pin) = p"
    "ParseGoMod lax (Inr (gomod_text path version reqs (reps @ [(p, pin)]) excls)) = Inr gm" "set ks = dom (gm_Replaces gm)"
  shows "filter (\<lambda>f. if_Category f = ''replace_redirect'' \<and> if_Module f = p) (ar_Findings (fst (audit ps ks off dir run gm g))) = []"
proof -
  let ?reps = "reps @ [(p, pin)]"
  have "list_all replace_ok ?reps" using assms(5,7) by simp
  then have "gm_Replaces gm p = Some pin"
    using ParseGoMod_text [where lax = lax and path = path and version = version and reqs = reqs and reps = ?reps and excls = excls,
        OF assms(1-4) _ assms(6)] assms(9) by auto
  then show ?thesis
    using redirect_findings [OF assms(10), of ps off dir run g p] assms(8) by (auto simp: redirected_def filter_empty_conv)
qed

section \<open>Checksum mismatches\<close>

lemma audit_GoSumVerified:
  "ar_GoSumVerified (fst (audit ps ks off dir run gm g)) = ar_GoSumVerified (VerifyGoSum off dir run empty_report)"
  by (auto simp: audit_def VerifyGoSum_def Let_def add_finding_def split: prod.split verify_run.split)

lemma audit_last:
  "\<exists>r. fst (audit ps ks off dir run gm g) = VerifyGoSum off dir run r"
  by (auto simp: audit_def split: prod.split)

definition is_mismatch :: "string \<Rightarrow> bool" where
  "is_mismatch out = list_ex (Contains (TrimSpace out)) gosumMismatchMarkers"

lemma VerifyGoSum_mismatch:
  assumes "\<not> off" "dir_gosum dir" "is_mismatch out"
  shows "VerifyGoSum off dir (VerifyFailed False True out) r =
    add_finding (gosum_mismatch (TrimSpace out)) (r\<lparr>ar_GoSumVerified := ''false''\<rparr>)"
  using assms by (simp add: VerifyGoSum_def is_mismatch_def GoSumVerifiedFalse_def)

text \<open>The candidate of a mismatch is among those the headline is the greatest of.\<close>

lemma mismatch_reaches_headline:
  assumes "sc_GoSumMismatch inp"
  shows "76 \<le> ps_OverallScore (ScoreAll clock off inp)"
    "ps_OverallLevel (ScoreAll clock off inp) \<in> {RiskCritical, RiskUnknown}"
proof -
  define deps sev where "deps = scored_deps (resolve_now clock (sc_Now inp)) inp"
    and "sev = severityAdjustedVulnScore (resolve_now clock (sc_Now inp)) (resolve_now clock (sc_Now inp)) deps"
  have "hc_Score (integrityFloor deps True) = 76" by (simp add: integrityFloor_def)
  then show "76 \<le> ps_OverallScore (ScoreAll clock off inp)"
    using overall_ge [of "integrityFloor deps True" inp sev deps] assms
    by (simp add: candidates_def ScoreAll_fields flip: deps_def sev_def)
  then show "ps_OverallLevel (ScoreAll clock off inp) \<in> {RiskCritical, RiskUnknown}"
    unfolding ScoreAll_fields(5) by (simp add: levelFromScore_def)
qed

text \<open>C29: When \<open>go mod verify\<close> reports a mismatch, the audit has a CRITICAL finding, the gate with
  \<open>require_gosum_verified\<close> fails, and the headline of the project, scored with the outcome of this audit, is at least 76:
  its level is critical, or unknown when the vulnerability scan did not run.\<close>

theorem gosum_mismatch_is_said:
  assumes "\<not> off" "dir_gosum dir" "run = VerifyFailed False True out" "is_mismatch out"
    "report = fst (audit ps ks off dir run gm g)"
    "pl_RequireGoSumVerified pol" "ei_ProjectScore inp = Some deps" "ei_IntegrityReport inp = Some (gate_report report)"
    "sc_GoSumMismatch sinp = (ar_GoSumVerified report = GoSumVerifiedFalse)"
  shows "(\<exists>f \<in> set (ar_Findings report). if_Severity f = IntegrityCritical) \<and>
    \<not> pr_Pass (Evaluate pol inp) \<and>
    76 \<le> ps_OverallScore (ScoreAll clock offline sinp) \<and>
    ps_OverallLevel (ScoreAll clock offline sinp) \<in> {RiskCritical, RiskUnknown}"
proof -
  obtain r where r: "report = VerifyGoSum off dir run r" using audit_last assms(5) by blast
  then have e: "report = add_finding (gosum_mismatch (TrimSpace out)) (r\<lparr>ar_GoSumVerified := ''false''\<rparr>)"
    using VerifyGoSum_mismatch [OF assms(1,2,4)] assms(3) by simp
  then have "ir_GoSumVerified (gate_report report) = ''false''"
    by (simp add: gate_report_def add_finding_def)
  then have "\<not> pr_Pass (rule_gosum pol inp x)" for x
    unfolding rule_gosum_def assms(8) option.case using assms(6) by (simp add: addError_def)
  then have "\<not> pr_Pass (Evaluate pol inp)"
    unfolding Evaluate_steps assms(7) option.case by blast
  moreover have "if_Severity (gosum_mismatch d) = IntegrityCritical" for d by (simp add: gosum_mismatch_def)
  moreover have "sc_GoSumMismatch sinp" unfolding assms(9) e by (simp add: add_finding_def GoSumVerifiedFalse_def)
  ultimately show ?thesis
    using mismatch_reaches_headline [of sinp clock offline] unfolding e by (auto simp: add_finding_def)
qed

text \<open>No other outcome counts as a mismatch: not a missing file, a stopped scan, or a command that could not finish.\<close>

theorem gosum_false_only_on_mismatch:
  "ar_GoSumVerified (fst (audit ps ks off dir run gm g)) = GoSumVerifiedFalse \<longleftrightarrow>
     \<not> off \<and> dir_gosum dir \<and> (\<exists>out. run = VerifyFailed False True out \<and> is_mismatch out)"
  unfolding audit_GoSumVerified
  by (auto simp: VerifyGoSum_def Let_def is_mismatch_def add_finding_def empty_report_def GoSumVerifiedFalse_def
      GoSumVerifiedTrue_def GoSumVerifiedOffline_def GoSumVerifiedSkipped_def split: verify_run.splits if_splits)

section \<open>Witnesses\<close>

definition audited_target :: "string \<Rightarrow> string \<Rightarrow> replace" where
  "audited_target old new = \<lparr>rp_OldVersion = old, rp_New = \<lparr>md_Path = new, md_Version = ''v1.0.0'', md_Indirect = False\<rparr>\<rparr>"

definition audited_gomod :: gomod where
  "audited_gomod = \<lparr>gm_ModulePath = ''a.b/app'', gm_GoVersion = ''1.22'', gm_Requirements = [],
     gm_Replaces = [''a.b/c'' \<mapsto> audited_target '''' ''evil.dev/c/v2''], gm_Excludes = []\<rparr>"

definition audited_dir :: module_dir where
  "audited_dir = \<lparr>dir_gosum = True, dir_vendor = True, dir_gosum_text = Inr ''''\<rparr>"

definition audited_graph :: depgraph where
  "audited_graph = \<lparr>gr_Root = ''a.b/app'', gr_Dependencies = [], gr_EdgeCount = 0, gr_Source = '''', gr_Notes = []\<rparr>"

definition audited_gate :: "audit_report \<Rightarrow> eval_input" where
  "audited_gate r = ex_eval\<lparr>ei_ProjectScore := Some [], ei_IntegrityReport := Some (gate_report r)\<rparr>"

theorem redirect_fails_the_gate_witness:
  "\<not> pr_Pass (Evaluate (zero_policy\<lparr>pl_ForbidReplaceRedirect := True\<rparr>)
     (audited_gate (fst (audit (\<lambda>_. False) [''a.b/c''] True audited_dir Verified audited_gomod audited_graph))))"
proof -
  have "foreign ''a.b/c'' (md_Path (rp_New (audited_target '''' ''evil.dev/c/v2'')))" by code_simp
  then show ?thesis
    by (intro redirect_fails_the_gate [where ks = "[''a.b/c'']" and gm = audited_gomod and p = "''a.b/c''"
          and rep = "audited_target '''' ''evil.dev/c/v2''" and deps = "[]" and ps = "\<lambda>_. False" and off = True
          and dir = audited_dir and run = Verified and g = audited_graph])
       (simp_all add: audited_gomod_def audited_gate_def)
qed

theorem second_replace_hides_redirect_witness:
  "let reps = [(''a.b/c'', audited_target ''v1.4.0'' ''evil.dev/c''), (''a.b/c'', audited_target ''v9.9.9'' ''a.b/c'')];
       gm = \<lparr>gm_ModulePath = ''a.b/app'', gm_GoVersion = ''1.22'', gm_Requirements = [], gm_Replaces = map_of (rev reps), gm_Excludes = []\<rparr>
   in ParseGoMod (\<lambda>_. None) (Inr (gomod_text ''a.b/app'' ''1.22'' [] reps [])) = Inr gm \<and>
      foreign ''a.b/c'' ''evil.dev/c'' \<and>
      filter (\<lambda>f. if_Category f = ''replace_redirect'' \<and> if_Module f = ''a.b/c'')
        (ar_Findings (fst (audit (\<lambda>_. False) [''a.b/c''] True audited_dir Verified gm audited_graph))) = []"
proof -
  let ?r1 = "[(''a.b/c'', audited_target ''v1.4.0'' ''evil.dev/c'')]" and ?pin = "audited_target ''v9.9.9'' ''a.b/c''"
  let ?gm = "\<lparr>gm_ModulePath = ''a.b/app'', gm_GoVersion = ''1.22'', gm_Requirements = [],
    gm_Replaces = map_of (rev (?r1 @ [(''a.b/c'', ?pin)])), gm_Excludes = []\<rparr>"
  have ok: "value_ok ''a.b/app''" "value_ok ''1.22''" "list_all require_ok []" "list_all replace_ok ?r1" "replace_ok (''a.b/c'', ?pin)"
    "md_Path (rp_New ?pin) = ''a.b/c''"
    by code_simp+
  then have all: "list_all replace_ok (?r1 @ [(''a.b/c'', ?pin)])" by simp
  have p: "ParseGoMod (\<lambda>_. None) (Inr (gomod_text ''a.b/app'' ''1.22'' [] (?r1 @ [(''a.b/c'', ?pin)]) [])) = Inr ?gm"
    by (rule ParseGoMod_text [OF _ ok(1-3) all ok(3)]) simp
  have d: "set [''a.b/c''] = dom (gm_Replaces ?gm)" by auto
  have "filter (\<lambda>f. if_Category f = ''replace_redirect'' \<and> if_Module f = ''a.b/c'')
        (ar_Findings (fst (audit (\<lambda>_. False) [''a.b/c''] True audited_dir Verified ?gm audited_graph))) = []"
    by (rule second_replace_hides_redirect [OF _ ok(1-4) ok(3,5,6) p d]) simp
  moreover have "foreign ''a.b/c'' ''evil.dev/c''" by code_simp
  ultimately show ?thesis using p by (simp add: Let_def)
qed

definition audited_mismatch :: audit_report where
  "audited_mismatch = fst (audit (\<lambda>_. False) [''a.b/c''] False audited_dir
     (VerifyFailed False True ''a.b/c v1.0.0: checksum mismatch'') audited_gomod audited_graph)"

theorem gosum_mismatch_is_said_witness:
  "\<not> pr_Pass (Evaluate (zero_policy\<lparr>pl_RequireGoSumVerified := True\<rparr>) (audited_gate audited_mismatch)) \<and>
   76 \<le> ps_OverallScore (ScoreAll zero_time False (ex_risk_input\<lparr>sc_GoSumMismatch := (ar_GoSumVerified audited_mismatch = GoSumVerifiedFalse)\<rparr>))"
proof -
  have m: "is_mismatch ''a.b/c v1.0.0: checksum mismatch''" by code_simp
  have "pl_RequireGoSumVerified (zero_policy\<lparr>pl_RequireGoSumVerified := True\<rparr>)" "ei_ProjectScore (audited_gate audited_mismatch) = Some []"
    "ei_IntegrityReport (audited_gate audited_mismatch) = Some (gate_report audited_mismatch)" "dir_gosum audited_dir"
    by (simp_all add: audited_gate_def audited_dir_def)
  then show ?thesis
    using gosum_mismatch_is_said [OF _ _ refl m audited_mismatch_def, of "zero_policy\<lparr>pl_RequireGoSumVerified := True\<rparr>"
        "audited_gate audited_mismatch" "[]"
        "ex_risk_input\<lparr>sc_GoSumMismatch := (ar_GoSumVerified audited_mismatch = GoSumVerifiedFalse)\<rparr>" zero_time False] by simp
qed

end
