(* ===== verification/Go_Regexp.thy ===== *)
theory Go_Regexp
  imports Go_Text
begin

text \<open>
  What the sources use of Go's package \<open>regexp\<close>: whether and where a pattern matches. A position in a text is
  the byte before it and the rest of the text, so that a word boundary can be read off. Patterns are over bytes;
  those of the sources name ASCII characters only.
\<close>

section \<open>Patterns\<close>

datatype regex = Bytes string | Class "char \<Rightarrow> bool" | Then regex regex | Either regex regex | Many regex | WordBoundary

type_synonym pos = "char option \<times> string"

definition word_char :: "char \<Rightarrow> bool" where
  "word_char c = (let n = (of_char c :: nat) in (48 \<le> n \<and> n \<le> 57) \<or> (65 \<le> n \<and> n \<le> 90) \<or> (97 \<le> n \<and> n \<le> 122) \<or> n = 95)"

definition word_before :: "pos \<Rightarrow> bool" where
  "word_before q = (case fst q of None \<Rightarrow> False | Some c \<Rightarrow> word_char c)"

definition word_after :: "pos \<Rightarrow> bool" where
  "word_after q = (case snd q of [] \<Rightarrow> False | c # s \<Rightarrow> word_char c)"

text \<open>The positions behind a match that starts at a position; a repetition ends when it makes no progress.\<close>

function ends_of :: "regex \<Rightarrow> pos \<Rightarrow> pos list" where
  "ends_of (Bytes b) q =
     (if HasPrefix (snd q) b then [(if b = [] then fst q else Some (last b), drop (length b) (snd q))] else [])"
| "ends_of (Class f) q = (case snd q of [] \<Rightarrow> [] | c # s \<Rightarrow> if f c then [(Some c, s)] else [])"
| "ends_of (Then r s) q = concat (map (ends_of s) (ends_of r q))"
| "ends_of (Either r s) q = ends_of r q @ ends_of s q"
| "ends_of (Many r) q =
     q # concat (map (\<lambda>p. if length (snd p) < length (snd q) then ends_of (Many r) p else []) (ends_of r q))"
| "ends_of WordBoundary q = (if word_before q \<noteq> word_after q then [q] else [])"
  by pat_completeness auto
termination
  by (relation "measures [\<lambda>(r, q). size r, \<lambda>(r, q). length (snd q)]") auto

fun find_from :: "regex \<Rightarrow> nat \<Rightarrow> char option \<Rightarrow> string \<Rightarrow> nat option" where
  "find_from r i p [] = (if ends_of r (p, []) \<noteq> [] then Some i else None)"
| "find_from r i p (c # s) = (if ends_of r (p, c # s) \<noteq> [] then Some i else find_from r (i + 1) (Some c) s)"

text \<open>\<open>FindStringIndex\<close>, its first component.\<close>

definition FindStringIndex :: "regex \<Rightarrow> string \<Rightarrow> nat option" where
  "FindStringIndex r s = find_from r 0 None s"

definition MatchString :: "regex \<Rightarrow> string \<Rightarrow> bool" where
  "MatchString r s = (FindStringIndex r s \<noteq> None)"

section \<open>Notations of patterns\<close>

definition digit :: regex where "digit = Class (\<lambda>c. of_char c \<in> {48 .. 57 :: nat})"

definition regexp_space :: "char \<Rightarrow> bool" where
  "regexp_space c = (c \<in> {CHR 0x09, CHR 0x0A, CHR 0x0C, CHR 0x0D, CHR '' ''})"

definition space :: regex where "space = Class regexp_space"
definition no_space :: regex where "no_space = Class (\<lambda>c. \<not> regexp_space c)"

definition at_least_one :: "regex \<Rightarrow> regex" where "at_least_one r = Then r (Many r)"
definition optional :: "regex \<Rightarrow> regex" where "optional r = Either r (Bytes [])"

definition any_case :: "string \<Rightarrow> regex" where
  "any_case s = foldr (\<lambda>c r. Then (Class (\<lambda>d. lower_char d = lower_char c)) r) s (Bytes [])"

text \<open>A sequence and a choice of several patterns.\<close>

fun in_order :: "regex list \<Rightarrow> regex" where
  "in_order [] = Bytes []"
| "in_order [r] = r"
| "in_order (r # rs) = Then r (in_order rs)"

fun one_of :: "regex \<Rightarrow> regex list \<Rightarrow> regex" where
  "one_of r [] = r"
| "one_of r (s # rs) = Either r (one_of s rs)"

section \<open>Meaning\<close>

text \<open>What a pattern means, apart from how a match is found.\<close>

inductive spans :: "regex \<Rightarrow> pos \<Rightarrow> pos \<Rightarrow> bool" where
  nothing: "spans (Bytes []) q q"
| bytes: "b \<noteq> [] \<Longrightarrow> spans (Bytes b) (p, b @ t) (Some (last b), t)"
| one: "f c \<Longrightarrow> spans (Class f) (p, c # t) (Some c, t)"
| seq: "spans r q x \<Longrightarrow> spans s x y \<Longrightarrow> spans (Then r s) q y"
| left: "spans r q x \<Longrightarrow> spans (Either r s) q x"
| right: "spans s q x \<Longrightarrow> spans (Either r s) q x"
| stop: "spans (Many r) q q"
| more: "spans r q x \<Longrightarrow> length (snd x) < length (snd q) \<Longrightarrow> spans (Many r) x y \<Longrightarrow> spans (Many r) q y"
| word: "word_before q \<noteq> word_after q \<Longrightarrow> spans WordBoundary q q"

declare ends_of.simps(5) [simp del]

lemma ends_of_Many:
  "x \<in> set (ends_of (Many r) q) \<longleftrightarrow>
     x = q \<or> (\<exists>p \<in> set (ends_of r q). length (snd p) < length (snd q) \<and> x \<in> set (ends_of (Many r) p))"
  by (subst ends_of.simps) (auto split: if_splits)

lemma ends_of_Many_intros:
  "q \<in> set (ends_of (Many r) q)"
  "p \<in> set (ends_of r q) \<Longrightarrow> length (snd p) < length (snd q) \<Longrightarrow> x \<in> set (ends_of (Many r) p) \<Longrightarrow> x \<in> set (ends_of (Many r) q)"
  by (subst ends_of_Many, blast)+

lemma spans_found: "spans r q x \<Longrightarrow> x \<in> set (ends_of r q)"
proof (induction rule: spans.induct)
  case (more r q x y)
  show ?case by (rule ends_of_Many_intros(2) [OF more.IH(1) more.hyps(2) more.IH(2)])
qed (auto intro: ends_of_Many_intros(1))

lemma found_spans: "x \<in> set (ends_of r q) \<Longrightarrow> spans r q x"
proof (induction r q arbitrary: x rule: ends_of.induct)
  case (1 b q)
  then show ?case by (cases q; cases "b = []") (auto simp: HasPrefix_iff intro: spans.nothing spans.bytes)
next
  case (2 f q)
  then show ?case by (cases q) (auto intro: spans.one split: list.splits if_splits)
next
  case (3 r s q)
  then obtain p where "p \<in> set (ends_of r q)" "x \<in> set (ends_of s p)" by fastforce
  then show ?case using 3 by (blast intro: spans.seq)
next
  case (4 r s q)
  from "4.prems" have "x \<in> set (ends_of r q) \<or> x \<in> set (ends_of s q)" by simp
  then show ?case using "4.IH" by (blast intro: spans.left spans.right)
next
  case (5 r q)
  from "5.prems" consider "x = q" | p where "p \<in> set (ends_of r q)" "length (snd p) < length (snd q)" "x \<in> set (ends_of (Many r) p)"
    by (subst (asm) ends_of_Many) blast
  then show ?case
  proof cases
    case 1
    then show ?thesis by (simp add: spans.stop)
  next
    case 2
    then show ?thesis using "5.IH" by (blast intro: spans.more)
  qed
next
  case (6 q)
  then show ?case by (auto intro: spans.word split: if_splits)
qed

lemma ends_of_spans: "x \<in> set (ends_of r q) \<longleftrightarrow> spans r q x"
  using spans_found found_spans by blast

text \<open>The position of a suffix of a text, and what a match in the text is.\<close>

definition before :: "string \<Rightarrow> char option" where
  "before s = (if s = [] then None else Some (last s))"

lemma all_splits_Cons:
  "(\<forall>a b. c # s = a @ b \<longrightarrow> P a b) \<longleftrightarrow> P [] (c # s) \<and> (\<forall>a b. s = a @ b \<longrightarrow> P (c # a) b)"
  by (auto simp: Cons_eq_append_conv)

lemma find_from_None:
  "find_from r i p s = None \<longleftrightarrow>
     (\<forall>a b. s = a @ b \<longrightarrow> ends_of r (if a = [] then p else Some (last a), b) = [])"
proof (induction s arbitrary: i p)
  case (Cons c s)
  have "(\<forall>a b. c # s = a @ b \<longrightarrow> ends_of r (if a = [] then p else Some (last a), b) = []) \<longleftrightarrow>
      ends_of r (p, c # s) = [] \<and> find_from r (i + 1) (Some c) s = None"
    unfolding all_splits_Cons Cons.IH by (simp add: if_distrib [of Some])
  then show ?case by simp
qed simp

lemma MatchString_spans: "MatchString r s \<longleftrightarrow> (\<exists>a b x. s = a @ b \<and> spans r (before a, b) x)"
proof -
  have "MatchString r s \<longleftrightarrow> (\<exists>a b. s = a @ b \<and> ends_of r (before a, b) \<noteq> [])"
    by (auto simp: MatchString_def FindStringIndex_def find_from_None before_def)
  moreover have "ends_of r q \<noteq> [] \<longleftrightarrow> (\<exists>x. spans r q x)" for q
    by (metis ends_of_spans empty_iff list.set(1) last_in_set)
  ultimately show ?thesis by blast
qed

section \<open>Facts\<close>

lemma find_from_range: "find_from r i p s = Some n \<Longrightarrow> i \<le> n \<and> n \<le> i + length s"
proof (induction s arbitrary: i p)
  case (Cons c s)
  show ?case
  proof (cases "ends_of r (p, c # s) = []")
    case True
    then show ?thesis using Cons.IH [of "Suc i" "Some c"] Cons.prems by simp
  next
    case False
    then show ?thesis using Cons.prems by simp
  qed
qed (simp split: if_splits)

lemma FindStringIndex_range: "FindStringIndex r s = Some n \<Longrightarrow> n \<le> length s"
  using find_from_range [of r 0 None s n] by (simp add: FindStringIndex_def)

lemma HasPrefix_Nil_iff [simp]: "HasPrefix [] b \<longleftrightarrow> b = []"
  by (cases b) simp_all

lemma find_from_Bytes: "find_from (Bytes b) i p s \<noteq> None \<longleftrightarrow> Contains s b"
  by (induction s arbitrary: i p) (auto simp: Contains_def split: if_splits)

lemma MatchString_Bytes: "MatchString (Bytes b) s \<longleftrightarrow> Contains s b"
  by (simp only: MatchString_def FindStringIndex_def find_from_Bytes)

end
