(* ===== verification/Scan_Failure.thy ===== *)
theory Scan_Failure
  imports Go_Regexp Grade_Types
begin

text \<open>
  \<open>pkg/scanner/scanerror.go\<close> and \<open>pkg/scanner/status.go\<close>: a failed scan is given a reason and a kind by the text of
  its error, which is cut before it is published, and the whole scan gets a status. \<open>None\<close> is a panic of the
  source. An error is its text; the chain of errors behind it is left out.
\<close>

section \<open>Kinds and reasons\<close>

datatype fail_kind = FailPermanent | FailTransient | FailTooLarge

fun kind_string :: "fail_kind \<Rightarrow> string" where
  "kind_string FailTransient = ''transient''"
| "kind_string FailPermanent = ''permanent''"
| "kind_string FailTooLarge = ''too_large''"

text \<open>An error without a text is the absence of one.\<close>

record scan_error =
  se_Kind :: fail_kind
  se_Reason :: string
  se_Err :: "string option"
  se_decidingLine :: string

definition Error :: "scan_error \<Rightarrow> string" where
  "Error e = (case se_Err e of None \<Rightarrow> se_Reason e | Some t \<Rightarrow> se_Reason e @ '': '' @ t)"

section \<open>The summary\<close>

definition scanErrorNoise :: "string list" where
  "scanErrorNoise = [''govulncheck:'', ''govulncheck: loading packages:'', ''There are errors with the provided package patterns:'']"

text \<open>The pattern of the wrapper: each part is optional, in this order, so none is ever given back.\<close>

definition trim_exit_status :: "string \<Rightarrow> string" where
  "trim_exit_status s =
     (if HasPrefix s ''exit status ''
      then let rest = TrimPrefix s ''exit status '';
               ds = takeWhile (\<lambda>c. of_char c \<in> {48 .. 57 :: nat}) rest;
               behind = drop (length ds) rest
           in if ds \<noteq> [] \<and> HasPrefix behind '': '' then TrimPrefix behind '': '' else s
      else s)"

definition trim_wrapper :: "string \<Rightarrow> string" where
  "trim_wrapper s =
     TrimPrefix (TrimPrefix (trim_exit_status (TrimPrefix (TrimPrefix (TrimPrefix s ''govulncheck: '')
       ''loading packages: '') ''err: '')) ''stderr: '') ''go: ''"

definition summaryLine :: "string \<Rightarrow> string" where
  "summaryLine line0 =
     (let line = TrimPrefix (TrimSpace line0) ''-: ''
      in if line = '''' \<or> line = ''...'' \<or> line \<in> set scanErrorNoise then '''' else trim_wrapper line)"

definition newline_char :: char where "newline_char = CHR 0x0A"

definition Summary :: "scan_error \<Rightarrow> string" where
  "Summary e =
     (case se_Err e of
        None \<Rightarrow> se_Reason e
      | Some t \<Rightarrow>
          if summaryLine (se_decidingLine e) \<noteq> '''' then se_Reason e @ '': '' @ summaryLine (se_decidingLine e)
          else (case find (\<lambda>l. l \<noteq> '''') (map summaryLine (Split t newline_char)) of
                  Some l \<Rightarrow> se_Reason e @ '': '' @ l
                | None \<Rightarrow> se_Reason e))"

section \<open>Cutting\<close>

definition tailMaxBytes :: nat where "tailMaxBytes = 4096"
definition tailMaxLines :: nat where "tailMaxLines = 40"

definition RuneStart :: "char \<Rightarrow> bool" where
  "RuneStart c = (let n = (of_char c :: nat) in \<not> (128 \<le> n \<and> n < 192))"

text \<open>Lines are dropped from the front while there is more than one and they are too long together.\<close>

fun drop_lines :: "string list \<Rightarrow> string list" where
  "drop_lines (l # m # ls) =
     (if length (Join (l # m # ls) [newline_char]) > tailMaxBytes then drop_lines (m # ls) else l # m # ls)"
| "drop_lines ls = ls"

definition stderrTail :: "string \<Rightarrow> string option" where
  "stderrTail msg =
     (let lines = Split (TrimSpace msg) newline_char;
          kept = (if length lines > tailMaxLines then drop (length lines - tailMaxLines) lines else lines);
          kept' = drop_lines kept;
          out = Join kept' [newline_char];
          long = length out > tailMaxBytes;
          tail = dropWhile (\<lambda>c. \<not> RuneStart c) (drop (length out - tailMaxBytes) out);
          was_cut = (length lines > tailMaxLines \<or> kept' \<noteq> kept \<or> long)
      in if long \<and> tail = [] then None
         else Some ((if was_cut then ''...'' @ [newline_char] else '''') @ (if long then tail else out)))"

text \<open>The last start of a character at or before an index.\<close>

fun cut_back :: "string \<Rightarrow> nat \<Rightarrow> nat option" where
  "cut_back line 0 = (if RuneStart (line ! 0) then Some 0 else None)"
| "cut_back line (Suc n) = (if RuneStart (line ! Suc n) then Some (Suc n) else cut_back line n)"

definition line_around :: "string \<Rightarrow> nat \<Rightarrow> string" where
  "line_around msg i =
     rev (takeWhile (\<lambda>c. c \<noteq> newline_char) (rev (take i msg))) @ takeWhile (\<lambda>c. c \<noteq> newline_char) (drop i msg)"

definition lineAt :: "string \<Rightarrow> nat \<Rightarrow> string option" where
  "lineAt msg i =
     (let line = line_around msg i
      in if length line \<le> tailMaxBytes then Some line
         else map_option (\<lambda>n. take n line @ ''...'') (cut_back line tailMaxBytes))"

text \<open>The text of the error that is kept: the error itself when cutting changes nothing.\<close>

definition tailOf :: "string \<Rightarrow> string \<Rightarrow> string option" where
  "tailOf err msg0 =
     (let msg = TrimSpace msg0
      in if msg = '''' then Some ''no error text''
         else map_option (\<lambda>tail. if tail \<noteq> TrimSpace err then tail else err) (stderrTail msg))"

section \<open>Paths of the scanning machine\<close>

function remove_all :: "string \<Rightarrow> string \<Rightarrow> string" where
  "remove_all old [] = []"
| "remove_all old (c # s) =
     (if old \<noteq> [] \<and> HasPrefix (c # s) old then remove_all old (drop (length old) (c # s)) else c # remove_all old s)"
  by pat_completeness auto
termination
  by (relation "measure (\<lambda>(old, s). length s)") (auto simp: neq_Nil_conv)

definition path_end :: "char \<Rightarrow> bool" where
  "path_end c = (regexp_space c \<or> c \<in> {CHR 0x22, CHR 0x27, CHR '')'', CHR '':'', CHR '','', CHR '';''})"

function replace_bare :: "string \<Rightarrow> string \<Rightarrow> string" where
  "replace_bare d [] = []"
| "replace_bare d (c # s) =
     (if HasPrefix (c # s) d
      then (case drop (length d) (c # s) of
              [] \<Rightarrow> ''.''
            | e # rest \<Rightarrow> if path_end e then ''.'' @ e # replace_bare d rest else c # replace_bare d s)
      else c # replace_bare d s)"
  by pat_completeness auto
termination
proof (relation "measure (\<lambda>(d, s). length s)")
  fix d c s e rest
  assume "drop (length d) (c # s) = e # rest"
  then have "length (e # rest) \<le> length (c # s)" by (metis diff_le_self length_drop)
  then show "((d, rest), d, c # s) \<in> measure (\<lambda>(d, s). length s)" by simp
qed auto

text \<open>
  The forms of a directory are its absolute path and, when it differs, the one with links resolved; there are
  none when the directory is empty or has no absolute path.
\<close>

definition trim_form :: "bool \<Rightarrow> string \<Rightarrow> string \<Rightarrow> string" where
  "trim_form bare d msg =
     (if d = ''/'' then msg
      else let msg = remove_all (d @ ''/'') msg in if bare then replace_bare d msg else msg)"

definition trimDir :: "string \<Rightarrow> string list \<Rightarrow> bool \<Rightarrow> string" where
  "trimDir msg forms bare = fold (trim_form bare) (sort_by (\<lambda>a b. length a > length b) forms) msg"

definition trimPaths :: "string \<Rightarrow> string list \<Rightarrow> string list \<Rightarrow> string" where
  "trimPaths msg projectDir modCache = trimDir (trimDir msg projectDir True) modCache False"

section \<open>The rules\<close>

record failure_rule =
  fr_reason :: string
  fr_kind :: fail_kind
  fr_match :: regex

abbreviation rule :: "string \<Rightarrow> fail_kind \<Rightarrow> regex \<Rightarrow> failure_rule" where
  "rule r k m \<equiv> \<lparr>fr_reason = r, fr_kind = k, fr_match = m\<rparr>"

definition permanent_rules :: "failure_rule list" where
  "permanent_rules =
    [rule ''needs_newer_go'' FailPermanent
       (one_of (in_order [Bytes ''requires go >='', optional (Bytes '' ''), digit])
          [Bytes ''requires newer Go version'', in_order [Bytes ''cannot scan code that needs go'', digit],
           in_order [Bytes ''mismatch between the Go version'', at_least_one space, Bytes ''used to build govulncheck'']]),
     rule ''no_go_mod'' FailPermanent
       (one_of (Bytes ''no go.mod file'') [Bytes ''go.mod file not found'', Bytes ''no go.mod found in'', Bytes ''cannot find main module'']),
     rule ''multiple_mains'' FailPermanent (Bytes ''main redeclared in this block''),
     rule ''mixed_packages'' FailPermanent
       (in_order [Bytes ''found packages '', at_least_one no_space, Bytes '' ('', Many (Class (\<lambda>c. c \<noteq> CHR '')'')),
          Bytes '') and '', at_least_one no_space, Bytes '' ('']),
     rule ''no_packages'' FailPermanent (Bytes ''no packages matched the provided patterns''),
     rule ''missing_gosum'' FailPermanent (Bytes ''missing go.sum entry''),
     rule ''build_constraints'' FailPermanent (Bytes ''build constraints exclude all Go files in'')]"

definition transient_rules :: "failure_rule list" where
  "transient_rules =
    [rule ''rate_limited'' FailTransient
       (one_of (any_case ''too many requests'')
          [in_order [WordBoundary, any_case ''rate limit'', optional (Either (any_case ''ed'') (any_case ''ing'')), WordBoundary],
           in_order [one_of (any_case ''status'') [any_case ''code'', any_case ''http'', any_case ''returned''],
             at_least_one (Class (\<lambda>c. c = CHR '':'' \<or> c = CHR '' '')), Bytes ''429'', WordBoundary]]),
     rule ''vulndb_unreachable'' FailTransient
       (one_of (Bytes ''vuln.go.dev'') [Bytes ''GOVULNDB'',
          in_order [Bytes ''HTTP '', Either (Bytes ''GET'') (Bytes ''POST''), Bytes '' '', at_least_one no_space,
            Bytes '' returned unexpected status'']]),
     rule ''module_fetch'' FailTransient
       (one_of (any_case ''dial tcp'') [any_case ''i/o timeout'', any_case ''TLS handshake'', any_case ''connection reset'',
          any_case ''connection refused'', any_case ''connection timed out'', any_case ''no such host'',
          any_case ''network is unreachable'', any_case ''unexpected EOF'',
          in_order [any_case ''stream error: stream ID '', at_least_one digit],
          in_order [WordBoundary, Bytes ''50'', Class (\<lambda>c. of_char c \<in> {48 .. 52 :: nat}), Bytes '' '',
            one_of (any_case ''bad gateway'') [any_case ''service unavailable'', any_case ''gateway timeout'',
              any_case ''internal server error'']]])]"

definition scanFailureRules :: "failure_rule list" where
  "scanFailureRules = permanent_rules @ transient_rules"

datatype ctx_state = Running | Canceled | DeadlineExceeded

definition WrapScanFailure :: "string \<Rightarrow> ctx_state \<Rightarrow> string list \<Rightarrow> string list \<Rightarrow> scan_error option" where
  "WrapScanFailure err ctxErr projectDir modCache =
     (let msg = trimPaths err projectDir modCache
      in (case find (\<lambda>r. \<not> (ctxErr \<noteq> Running \<and> fr_kind r = FailTransient) \<and> FindStringIndex (fr_match r) msg \<noteq> None)
              scanFailureRules of
            Some r \<Rightarrow>
              (case (tailOf err msg, lineAt msg (the (FindStringIndex (fr_match r) msg))) of
                 (Some t, Some l) \<Rightarrow>
                   Some \<lparr>se_Kind = fr_kind r, se_Reason = fr_reason r, se_Err = Some t, se_decidingLine = l\<rparr>
               | _ \<Rightarrow> None)
          | None \<Rightarrow>
              map_option (\<lambda>t.
                if ctxErr = DeadlineExceeded
                then \<lparr>se_Kind = FailTooLarge, se_Reason = ''scan_deadline'', se_Err = Some t, se_decidingLine = ''''\<rparr>
                else \<lparr>se_Kind = FailPermanent, se_Reason = ''unknown'', se_Err = Some t, se_decidingLine = ''''\<rparr>)
              (tailOf err msg)))"

definition classifyScanFailure :: "string \<Rightarrow> ctx_state \<Rightarrow> string list \<Rightarrow> scan_error option" where
  "classifyScanFailure msg ctxErr modCache = WrapScanFailure msg ctxErr [] modCache"

section \<open>The status\<close>

text \<open>A failure of the vulnerability scan: its text, and the \<open>ScanError\<close> in its chain.\<close>

record scan_failure =
  sf_text :: string
  sf_cause :: "scan_error option"

record scan_status =
  ss_Status :: string
  ss_Reason :: string
  ss_Kind :: string
  ss_Detail :: string

record status_input =
  si_VulnErr :: "scan_failure option"
  si_Interrupted :: bool
  si_Graded :: bool
  si_PendingCheck :: string
  si_PendingReason :: string

definition status_firstLine :: "string \<Rightarrow> string" where
  "status_firstLine s = takeWhile (\<lambda>c. c \<noteq> newline_char) (TrimSpace s)"

definition ScanStatusOf :: "status_input \<Rightarrow> scan_status" where
  "ScanStatusOf inp =
     (let se = (case si_VulnErr inp of None \<Rightarrow> None | Some f \<Rightarrow> sf_cause f)
      in if si_Interrupted inp \<or> (case se of Some e \<Rightarrow> se_Reason e = ''scan_deadline'' | None \<Rightarrow> False)
            \<or> si_PendingCheck inp = ''scan_incomplete''
         then (case se of
             None \<Rightarrow> \<lparr>ss_Status = ''interrupted'', ss_Reason = ''interrupted'', ss_Kind = '''',
               ss_Detail = ''the scan did not finish: its time ran out or it was cancelled''\<rparr>
           | Some e \<Rightarrow> \<lparr>ss_Status = ''interrupted'', ss_Reason = se_Reason e, ss_Kind = kind_string (se_Kind e),
               ss_Detail = ''the scan did not finish: its time ran out or it was cancelled''\<rparr>)
         else (case si_VulnErr inp of
             Some f \<Rightarrow>
               (case se of
                  None \<Rightarrow> \<lparr>ss_Status = ''failed'', ss_Reason = ''unknown'', ss_Kind = '''', ss_Detail = status_firstLine (sf_text f)\<rparr>
                | Some e \<Rightarrow> \<lparr>ss_Status = ''failed'', ss_Reason = se_Reason e, ss_Kind = kind_string (se_Kind e),
                    ss_Detail = status_firstLine (Summary e)\<rparr>)
           | None \<Rightarrow>
               if \<not> si_Graded inp
               then \<lparr>ss_Status = ''pending'', ss_Reason = ''not_graded'', ss_Kind = '''', ss_Detail = ''no grade was computed''\<rparr>
               else if si_PendingCheck inp \<noteq> ''''
               then \<lparr>ss_Status = ''pending'', ss_Reason = si_PendingCheck inp, ss_Kind = '''',
                 ss_Detail = status_firstLine (si_PendingReason inp)\<rparr>
               else \<lparr>ss_Status = ''complete'', ss_Reason = '''', ss_Kind = '''', ss_Detail = ''''\<rparr>))"

text \<open>
  \<open>scanStatusOf\<close> of \<open>pkg/runner/runner.go\<close>: offline mode skips the vulnerability scan on purpose, which is then a
  failure without a cause.
\<close>

definition scanStatusOf :: "bool \<Rightarrow> grade_result option \<Rightarrow> scan_failure option \<Rightarrow> bool \<Rightarrow> scan_status" where
  "scanStatusOf offline g vulnErr interrupted =
     (let vulnErr = (case vulnErr of
            Some f \<Rightarrow> if offline \<and> sf_cause f = None then None else Some f
          | None \<Rightarrow> None);
          p = (case g of None \<Rightarrow> None | Some r \<Rightarrow> g_Pending r)
      in ScanStatusOf \<lparr>si_VulnErr = vulnErr, si_Interrupted = interrupted, si_Graded = (g \<noteq> None),
           si_PendingCheck = (case p of None \<Rightarrow> '''' | Some q \<Rightarrow> p_Check q),
           si_PendingReason = (case p of None \<Rightarrow> '''' | Some q \<Rightarrow> p_Reason q)\<rparr>)"

end
