(* ===== verification/Scan_Failure_Props.thy ===== *)
theory Scan_Failure_Props
  imports Scan_Failure Grade_Engine
begin

text \<open>
  A complete scan has a letter; only a failure that a retry can help is called transient; what is published of
  a failure is one line, and bounded. On output that is no text the cutting panics.
\<close>

section \<open>The status\<close>

lemma pendingFor_check: "pendingFor inp rows score = Some p \<Longrightarrow> p_Check p \<noteq> ''''"
  by (auto simp: pendingFor_def Let_def pending_for_def split: if_splits)

lemma severityLookupPending_check: "severityLookupPending sv clock m res = Some p \<Longrightarrow> p_Check p \<noteq> ''''"
  by (auto simp: severityLookupPending_def Let_def pending_for_def split: if_splits)

lemma gradeOnce_pending:
  "g_Pending (gradeOnce sv t inp) = Some p \<Longrightarrow> p_Check p \<noteq> ''''"
  "g_Letter (gradeOnce sv t inp) = LetterNone \<longleftrightarrow> g_Pending (gradeOnce sv t inp) \<noteq> None"
  by (auto simp: gradeOnce_def Let_def pendingFor_check split: prod.splits)

lemma Grade_pending:
  "g_Pending (Grade sv clock inp) = Some p \<Longrightarrow> p_Check p \<noteq> ''''"
  "g_Letter (Grade sv clock inp) = LetterNone \<longleftrightarrow> g_Pending (Grade sv clock inp) \<noteq> None"
  by (auto simp: Grade_def Let_def gradeOnce_pending dest: severityLookupPending_check gradeOnce_pending(1)
      split: option.splits if_splits)

lemma ScanStatusOf_complete:
  "ss_Status (ScanStatusOf inp) = ''complete'' \<longleftrightarrow>
     \<not> si_Interrupted inp \<and> si_VulnErr inp = None \<and> si_Graded inp \<and> si_PendingCheck inp = ''''"
  by (auto simp: ScanStatusOf_def Let_def split: option.splits)

text \<open>C30: The status of a run is complete exactly when its grade has a letter, nothing interrupted it, and the
  vulnerability scan did not fail (offline, when it did not fail for a cause).\<close>

theorem complete_status_has_letter:
  "ss_Status (scanStatusOf offline (Some (Grade sv clock inp)) vulnErr interrupted) = ''complete'' \<longleftrightarrow>
     g_Letter (Grade sv clock inp) \<noteq> LetterNone \<and> \<not> interrupted \<and>
     (vulnErr = None \<or> offline \<and> (\<exists>t. vulnErr = Some \<lparr>sf_text = t, sf_cause = None\<rparr>))"
proof -
  have "(vulnErr = None \<or> offline \<and> (\<exists>t. vulnErr = Some \<lparr>sf_text = t, sf_cause = None\<rparr>)) \<longleftrightarrow>
      (case vulnErr of Some f \<Rightarrow> if offline \<and> sf_cause f = None then None else Some f | None \<Rightarrow> None) = None"
    by (auto split: option.split) (metis scan_failure.surjective old.unit.exhaust)
  moreover have "(case g_Pending (Grade sv clock inp) of None \<Rightarrow> '''' | Some q \<Rightarrow> p_Check q) = '''' \<longleftrightarrow>
      g_Letter (Grade sv clock inp) \<noteq> LetterNone"
    using Grade_pending [of sv clock inp] by (cases "g_Pending (Grade sv clock inp)") auto
  ultimately show ?thesis
    unfolding scanStatusOf_def Let_def ScanStatusOf_complete by auto
qed

section \<open>The kind\<close>

definition any_matches :: "failure_rule list \<Rightarrow> string \<Rightarrow> bool" where
  "any_matches rules msg = list_ex (\<lambda>r. FindStringIndex (fr_match r) msg \<noteq> None) rules"

lemma rules_kinds:
  "r \<in> set permanent_rules \<Longrightarrow> fr_kind r = FailPermanent" "r \<in> set transient_rules \<Longrightarrow> fr_kind r = FailTransient"
  by (auto simp: permanent_rules_def transient_rules_def)

lemma find_append: "find P (xs @ ys) = (case find P xs of None \<Rightarrow> find P ys | Some x \<Rightarrow> Some x)"
  by (induction xs) auto

lemma find_kind:
  assumes "\<And>r. r \<in> set rules \<Longrightarrow> fr_kind r = k"
  shows "find (\<lambda>r. \<not> (c \<and> fr_kind r = FailTransient) \<and> FindStringIndex (fr_match r) msg \<noteq> None) rules =
    (if c \<and> k = FailTransient then None else find (\<lambda>r. FindStringIndex (fr_match r) msg \<noteq> None) rules)"
  using assms by (induction rules) auto

lemma find_any: "find (\<lambda>r. FindStringIndex (fr_match r) msg \<noteq> None) rules = None \<longleftrightarrow> \<not> any_matches rules msg"
  by (auto simp: any_matches_def find_None_iff list_ex_iff)

lemma chosen_rule:
  "find (\<lambda>r. \<not> (ctx \<noteq> Running \<and> fr_kind r = FailTransient) \<and> FindStringIndex (fr_match r) msg \<noteq> None) scanFailureRules =
     (if any_matches permanent_rules msg then find (\<lambda>r. FindStringIndex (fr_match r) msg \<noteq> None) permanent_rules
      else if ctx = Running then find (\<lambda>r. FindStringIndex (fr_match r) msg \<noteq> None) transient_rules else None)"
proof -
  have p: "find (\<lambda>r. \<not> (c \<and> fr_kind r = FailTransient) \<and> FindStringIndex (fr_match r) msg \<noteq> None) permanent_rules =
      find (\<lambda>r. FindStringIndex (fr_match r) msg \<noteq> None) permanent_rules" for c
    using find_kind [of permanent_rules FailPermanent c msg] rules_kinds(1) by simp
  have t: "find (\<lambda>r. \<not> (c \<and> fr_kind r = FailTransient) \<and> FindStringIndex (fr_match r) msg \<noteq> None) transient_rules =
      (if c then None else find (\<lambda>r. FindStringIndex (fr_match r) msg \<noteq> None) transient_rules)" for c
    using find_kind [of transient_rules FailTransient c msg] rules_kinds(2) by simp
  show ?thesis
    unfolding scanFailureRules_def find_append p t
    using find_any [of msg permanent_rules]
    by (cases "find (\<lambda>r. FindStringIndex (fr_match r) msg \<noteq> None) permanent_rules") (simp_all del: find.simps)
qed

text \<open>C31: A failure is called transient only while the context still runs, when a network pattern matches its text
  and no permanent one does; past the deadline it is too large, unless it has a permanent cause.\<close>

theorem failure_kind:
  assumes "WrapScanFailure err ctx dir cache = Some e"
  shows "se_Kind e =
    (if any_matches permanent_rules (trimPaths err dir cache) then FailPermanent
     else if ctx = Running \<and> any_matches transient_rules (trimPaths err dir cache) then FailTransient
     else if ctx = DeadlineExceeded then FailTooLarge else FailPermanent)"
proof -
  let ?msg = "trimPaths err dir cache"
  have kind: "fr_kind r = k" if "find P rules = Some r" "\<And>r. r \<in> set rules \<Longrightarrow> fr_kind r = k" for P rules r k
    using that by (auto simp: find_Some_iff)
  note e = assms [unfolded WrapScanFailure_def Let_def chosen_rule]
  consider (permanent) "any_matches permanent_rules ?msg"
    | (transient) "\<not> any_matches permanent_rules ?msg" "ctx = Running" "any_matches transient_rules ?msg"
    | (other) "\<not> any_matches permanent_rules ?msg" "\<not> (ctx = Running \<and> any_matches transient_rules ?msg)" by blast
  then show ?thesis
  proof cases
    case permanent
    then obtain r where r: "find (\<lambda>r. FindStringIndex (fr_match r) ?msg \<noteq> None) permanent_rules = Some r"
      using find_any by fastforce
    have "fr_kind r = FailPermanent" by (rule kind [OF r rules_kinds(1)])
    then show ?thesis using e permanent r by (auto split: option.splits)
  next
    case transient
    then obtain r where r: "find (\<lambda>r. FindStringIndex (fr_match r) ?msg \<noteq> None) transient_rules = Some r"
      using find_any by fastforce
    have "fr_kind r = FailTransient" by (rule kind [OF r rules_kinds(2)])
    then show ?thesis using e transient r by (auto split: option.splits)
  next
    case other
    then have "(if ctx = Running then find (\<lambda>r. FindStringIndex (fr_match r) ?msg \<noteq> None) transient_rules else None) = None"
      using find_any [of ?msg transient_rules] by auto
    then show ?thesis using e other(1,2) by auto
  qed
qed

section \<open>One line\<close>

definition one_line :: "string \<Rightarrow> bool" where
  "one_line s = (newline_char \<notin> set s)"

lemma TrimPrefix_set: "set (TrimPrefix s p) \<subseteq> set s"
  by (auto simp: TrimPrefix_def dest: in_set_dropD)

lemma TrimSpace_set: "set (TrimSpace s) \<subseteq> set s"
  unfolding TrimSpace_def by (metis set_dropWhileD set_rev subsetI)

lemma summaryLine_set: "set (summaryLine s) \<subseteq> set s"
proof -
  have "set (trim_exit_status t) \<subseteq> set t" for t
    using TrimPrefix_set [of t "''exit status ''"] TrimPrefix_set
    by (auto simp: trim_exit_status_def Let_def dest!: in_set_dropD dest: TrimPrefix_set [THEN subsetD])
  then have "set (trim_wrapper t) \<subseteq> set t" for t
    unfolding trim_wrapper_def by (meson TrimPrefix_set order_trans)
  then show ?thesis
    unfolding summaryLine_def Let_def using TrimPrefix_set TrimSpace_set by (auto, blast)
qed

lemma one_line_append [simp]: "one_line (a @ b) \<longleftrightarrow> one_line a \<and> one_line b"
  by (simp add: one_line_def)

lemma line_around_one_line: "one_line (line_around msg i)"
  by (auto simp: line_around_def one_line_def dest: set_takeWhileD)

lemma lineAt_one_line: "lineAt msg i = Some l \<Longrightarrow> one_line l"
  using line_around_one_line [of msg i]
  by (auto simp: lineAt_def Let_def one_line_def newline_char_def split: if_splits dest: in_set_takeD)

definition known_reasons :: "string list" where
  "known_reasons = ''scan_deadline'' # ''unknown'' # map fr_reason scanFailureRules"

lemma WrapScanFailure_parts:
  assumes "WrapScanFailure err ctx dir cache = Some e"
  shows "se_Reason e \<in> set known_reasons" "one_line (se_decidingLine e)" "\<exists>t. se_Err e = Some t"
  using assms lineAt_one_line
  by (auto simp: WrapScanFailure_def Let_def known_reasons_def find_Some_iff one_line_def split: option.splits if_splits)

lemma known_reasons_one_line: "r \<in> set known_reasons \<Longrightarrow> one_line r"
  by (auto simp: known_reasons_def scanFailureRules_def permanent_rules_def transient_rules_def one_line_def newline_char_def)

text \<open>The summary of a failure, which the grade's pending reason and the progress output show, is a single line.\<close>

theorem summary_is_one_line:
  assumes "WrapScanFailure err ctx dir cache = Some e"
  shows "newline_char \<notin> set (Summary e)"
proof -
  note p = WrapScanFailure_parts [OF assms]
  have r: "one_line (se_Reason e)" using p(1) known_reasons_one_line by blast
  have l: "one_line (summaryLine s)" if "one_line s" for s
    using that summaryLine_set by (auto simp: one_line_def)
  have "one_line x" if "find P (map summaryLine (Split t newline_char)) = Some x" for P t x
    using that l Split_no_sep [of _ t newline_char] by (auto simp: find_Some_iff one_line_def)
  then have "one_line (Summary e)"
    using p(3) r l [OF p(2)] by (auto simp: Summary_def one_line_def newline_char_def split: option.split)
  then show ?thesis by (simp add: one_line_def)
qed

section \<open>Bounds\<close>

lemma drop_lines_suffix: "\<exists>k. drop_lines ls = drop k ls"
proof (induction ls rule: drop_lines.induct)
  case (1 l m ls)
  then show ?case
    by (auto intro: exI [of _ 0]) (metis drop_Suc_Cons)
qed (auto intro: exI [of _ 0])

lemma Split_Join_lines:
  "xs \<noteq> [] \<Longrightarrow> (\<And>x. x \<in> set xs \<Longrightarrow> c \<notin> set x) \<Longrightarrow> Split (Join xs [c]) c = xs"
  by (rule Split_Join) (auto simp: list_all_iff)

lemma stderrTail_length:
  assumes "stderrTail msg = Some t"
  shows "length t \<le> tailMaxBytes + 4"
proof -
  have "length (dropWhile P (drop (length out - n) out)) \<le> n" for P n and out :: string
    using length_dropWhile_le [of P "drop (length out - n) out"] by simp
  then show ?thesis
    using assms by (auto simp: stderrTail_def Let_def split: if_splits)
qed

lemma count_Join: "(\<And>x. x \<in> set xs \<Longrightarrow> c \<notin> set x) \<Longrightarrow> count_list (Join xs [c]) c \<le> length xs - 1"
  by (induction xs "[c]" rule: Join.induct) (auto simp: count_notin)

lemma count_suffix: "count_list (dropWhile P (drop n xs)) c \<le> count_list xs c"
proof -
  have "count_list (dropWhile P ys) c \<le> count_list ys c" for ys
    by (metis count_list_append le_add2 takeWhile_dropWhile_id)
  moreover have "count_list (drop n xs) c \<le> count_list xs c"
    by (metis append_take_drop_id count_list_append le_add2)
  ultimately show ?thesis using order.trans by blast
qed

lemma drop_lines_members: "set (drop_lines ls) \<subseteq> set ls" "length (drop_lines ls) \<le> length ls"
  using drop_lines_suffix [of ls] by (auto dest: in_set_dropD)

text \<open>What is kept of a failure's text is at most 4 KB and 40 lines, and the mark of the cut.\<close>

theorem published_tail_is_bounded:
  assumes "stderrTail msg = Some t"
  shows "length t \<le> tailMaxBytes + 4 \<and> count_list t newline_char \<le> tailMaxLines"
proof -
  let ?lines = "Split (TrimSpace msg) newline_char"
  let ?kept = "if length ?lines > tailMaxLines then drop (length ?lines - tailMaxLines) ?lines else ?lines"
  let ?out = "Join (drop_lines ?kept) [newline_char]"
  have "newline_char \<notin> set x" if "x \<in> set (drop_lines ?kept)" for x
    using that drop_lines_members(1) [of ?kept] Split_no_sep [of x "TrimSpace msg" newline_char]
    by (auto split: if_splits dest!: in_set_dropD)
  then have "count_list ?out newline_char \<le> length (drop_lines ?kept) - 1" by (rule count_Join)
  moreover have "length (drop_lines ?kept) \<le> tailMaxLines"
    using drop_lines_members(2) [of ?kept] by (auto split: if_splits)
  ultimately have "count_list ?out newline_char < tailMaxLines"
    by (auto simp: tailMaxLines_def)
  moreover have "count_list t newline_char \<le> count_list ?out newline_char + 1"
    using assms count_suffix [of _ _ ?out newline_char]
    by (auto simp: stderrTail_def Let_def newline_char_def [symmetric] split: if_splits) (auto simp: newline_char_def)
  ultimately show ?thesis using stderrTail_length [OF assms] by simp
qed

section \<open>Output that is no text\<close>

lemma continuation_bytes:
  assumes "\<not> RuneStart c"
  shows "\<not> is_space c" "c \<noteq> newline_char"
  using assms by (auto simp: RuneStart_def is_space_def newline_char_def Let_def)

lemma tail_of_continuation_bytes:
  assumes "\<not> RuneStart c" "n > tailMaxBytes"
  shows "stderrTail (replicate n c) = None"
proof -
  note c = continuation_bytes [OF assms(1)]
  have t: "TrimSpace (replicate n c) = replicate n c"
    using assms(2) c(1) by (intro TrimSpace_id) (simp add: hd_replicate last_replicate)
  have s: "Split (replicate n c) newline_char = [replicate n c]"
    using c(2) by (intro Split_none) auto
  have "dropWhile (\<lambda>c. \<not> RuneStart c) (drop k (replicate n c)) = []" for k
    using assms(1) by simp
  then show ?thesis
    using assms by (simp add: stderrTail_def t s Let_def tailMaxLines_def)
qed

lemma trimPaths_none [simp]: "trimPaths msg [] [] = msg"
  by (simp add: trimPaths_def trimDir_def)

lemma wrap_continuation_bytes:
  assumes "\<not> RuneStart c" "n > tailMaxBytes"
  shows "WrapScanFailure (replicate n c) ctx [] [] = None"
proof -
  have t: "TrimSpace (replicate n c) = replicate n c"
    using continuation_bytes(1) [OF assms(1)] assms(2) by (intro TrimSpace_id) (simp add: hd_replicate last_replicate)
  have "tailOf (replicate n c) (replicate n c) = None"
    using tail_of_continuation_bytes [OF assms] assms(2) by (simp add: tailOf_def t)
  then show ?thesis
    unfolding WrapScanFailure_def Let_def trimPaths_none by (simp split: option.split)
qed

text \<open>Cutting the text of a failure panics on more than 4 KB of bytes none of which starts a character.\<close>

theorem cutting_panics: "WrapScanFailure (replicate 5000 (CHR 0x80)) ctx [] [] = None"
  by (rule wrap_continuation_bytes) (code_simp, simp add: tailMaxBytes_def)

section \<open>Witnesses\<close>

definition failed_scan :: string where
  "failed_scan = ''govulncheck: loading packages: err: exit status 1: stderr: go: go.mod requires go >= 1.99''"

definition failed_error :: scan_error where
  "failed_error = \<lparr>se_Kind = FailPermanent, se_Reason = ''needs_newer_go'', se_Err = Some failed_scan, se_decidingLine = failed_scan\<rparr>"

lemma failed_scan_error: "WrapScanFailure failed_scan Running [] [] = Some failed_error"
  by code_simp

theorem failure_kind_witness:
  "any_matches permanent_rules failed_scan \<and>
   se_Kind failed_error = (if any_matches permanent_rules (trimPaths failed_scan [] []) then FailPermanent
     else if Running = Running \<and> any_matches transient_rules (trimPaths failed_scan [] []) then FailTransient
     else if Running = DeadlineExceeded then FailTooLarge else FailPermanent)"
proof -
  have "any_matches permanent_rules failed_scan" by code_simp
  then show ?thesis using failure_kind [OF failed_scan_error] by blast
qed

theorem summary_is_one_line_witness:
  "newline_char \<notin> set (Summary failed_error) \<and> Summary failed_error = ''needs_newer_go: go.mod requires go >= 1.99''"
proof -
  have "Summary failed_error = ''needs_newer_go: go.mod requires go >= 1.99''" by code_simp
  then show ?thesis using summary_is_one_line [OF failed_scan_error] by blast
qed

end
