(* ===== verification/Ci.thy ===== *)
theory Ci
  imports Workflow_File Go_Regexp
begin

text \<open>
  \<open>pkg/scanner/ci.go\<close>: the audit of workflow and build files, and the part of \<open>pkg/runner/analysis.go\<close> that
  runs it. The maps of a workflow are functions, so walking one in key order takes its sorted keys from the
  argument \<open>keys\<close>. Files come with their bytes; one that cannot be opened has none.
\<close>

section \<open>Data\<close>

record ci_finding =
  fc_Category :: string
  fc_Severity :: string
  fc_Description :: string
  fc_File :: string
  fc_Line :: int
  fc_Remediation :: string

record workflow_risk =
  wr_Name :: string
  wr_FilePath :: string
  wr_Score :: int
  wr_Level :: string
  wr_Findings :: "ci_finding list"

record ci_report =
  ci_Workflows :: "workflow_risk list"
  ci_BuildFindings :: "ci_finding list"
  ci_OverallScore :: int
  ci_OverallLevel :: string
  ci_UnpinnedActions :: int
  ci_ThirdPartyActions :: int
  ci_TotalFindings :: int

definition CIRiskLow :: string where "CIRiskLow = ''LOW''"
definition CIRiskMedium :: string where "CIRiskMedium = ''MEDIUM''"
definition CIRiskHigh :: string where "CIRiskHigh = ''HIGH''"
definition CIRiskCritical :: string where "CIRiskCritical = ''CRITICAL''"

definition ci_entry :: "string \<Rightarrow> string \<Rightarrow> string \<Rightarrow> string \<Rightarrow> int \<Rightarrow> string \<Rightarrow> ci_finding" where
  "ci_entry cat sev desc f line rem =
     \<lparr>fc_Category = cat, fc_Severity = sev, fc_Description = desc, fc_File = f, fc_Line = line, fc_Remediation = rem\<rparr>"

section \<open>Scores\<close>

definition severity_points :: "ci_finding \<Rightarrow> int" where
  "severity_points f =
     (if fc_Severity f = CIRiskCritical then 30
      else if fc_Severity f = CIRiskHigh then 20
      else if fc_Severity f = CIRiskMedium then 10
      else if fc_Severity f = CIRiskLow then 5 else 0)"

definition points :: "ci_finding list \<Rightarrow> int" where
  "points fs = fold (\<lambda>f score. score + severity_points f) fs 0"

definition computeWorkflowScore :: "ci_finding list \<Rightarrow> int" where
  "computeWorkflowScore fs = (if fs = [] then 0 else if points fs > 100 then 100 else points fs)"

definition computeOverallCIScore :: "ci_report \<Rightarrow> int" where
  "computeOverallCIScore r =
     (if ci_Workflows r = [] \<and> ci_BuildFindings r = [] then 0
      else let maxScore = fold (\<lambda>w m. if wr_Score w > m then wr_Score w else m) (ci_Workflows r) 0;
               buildScore = (if points (ci_BuildFindings r) > 100 then 100 else points (ci_BuildFindings r))
           in if buildScore > maxScore then buildScore else maxScore)"

definition ciLevelFromScore :: "int \<Rightarrow> string" where
  "ciLevelFromScore score =
     (if score \<ge> 76 then CIRiskCritical else if score \<ge> 51 then CIRiskHigh
      else if score \<ge> 26 then CIRiskMedium else CIRiskLow)"

section \<open>Patterns\<close>

definition any_char :: regex where "any_char = Class (\<lambda>c. c \<noteq> CHR 0x0A)"

definition pipe_shell :: "string \<Rightarrow> regex" where
  "pipe_shell cmd =
     in_order [Bytes cmd, at_least_one space, Many any_char, Bytes ''|'', Many space, optional (Bytes ''ba''), Bytes ''sh'']"

definition secretPattern :: regex where
  "secretPattern = in_order [Bytes ''${{'', Many space, Bytes ''secrets.'']"

definition curlPipeShell :: regex where "curlPipeShell = pipe_shell ''curl''"
definition wgetPipeShell :: regex where "wgetPipeShell = pipe_shell ''wget''"

definition downloadToFile :: regex where
  "downloadToFile =
     in_order [Either (Bytes ''curl'') (Bytes ''wget''), at_least_one space, Many any_char, Bytes ''-'',
       Class (\<lambda>c. c = CHR ''o'' \<or> c = CHR ''O''), at_least_one space, at_least_one no_space]"

definition checksumVerify :: regex where
  "checksumVerify =
     one_of (Bytes ''sha256sum'') [Bytes ''shasum'', Bytes ''md5sum'', in_order [Bytes ''gpg'', at_least_one space, Bytes ''--verify'']]"

definition eventExprInjection :: regex where
  "eventExprInjection =
     in_order [Bytes ''${{'', Many space, Bytes ''github.event.'',
       one_of (Bytes ''issue'') [Bytes ''pull_request'', Bytes ''comment'']]"

section \<open>One step\<close>

text \<open>The em dash of the source's text, in UTF-8.\<close>

definition dash :: string where "dash = [CHR 0xE2, CHR 0x80, CHR 0x94]"
definition apostrophe :: string where "apostrophe = [CHR 0x27]"

definition in_quotes :: "string \<Rightarrow> string" where "in_quotes s = apostrophe @ s @ apostrophe"

definition analyzeAction :: "workflow_step \<Rightarrow> string \<Rightarrow> ci_finding list" where
  "analyzeAction step file =
     (case ParseActionRef (ws_Uses step) of
        None \<Rightarrow> []
      | Some ref \<Rightarrow>
          if ar_IsLocal ref then []
          else (let official = IsOfficialAction (Some ref)
            in (if ar_IsPinned ref then []
                else [ci_entry ''unpinned_action'' (if official then CIRiskMedium else CIRiskHigh)
                  (if official
                   then ''Action '' @ in_quotes (ws_Uses step) @ '' uses floating tag '' @ in_quotes (ar_Version ref)
                     @ '' instead of pinned SHA''
                   else ''Third-party action '' @ in_quotes (ws_Uses step) @ '' uses floating tag ''
                     @ in_quotes (ar_Version ref) @ '' '' @ dash @ '' vulnerable to tag hijacking'')
                  file 0 (''Pin to a full SHA: '' @ ar_Owner ref @ ''/'' @ ar_Repo ref @ ''@<commit-sha>'')])
             @ (if official then []
                else [ci_entry ''third_party_action'' CIRiskLow
                  (''Third-party action: '' @ ar_Owner ref @ ''/'' @ ar_Repo ref @ '' (verify author trustworthiness)'')
                  file 0 (''Audit the action source code and verify the author'' @ apostrophe @ ''s identity'')])))"

type_synonym key_walk = "(string \<Rightarrow> bool) \<Rightarrow> string list"

definition secrets_in :: "key_walk \<Rightarrow> (string \<Rightarrow> string option) \<Rightarrow> string list" where
  "secrets_in keys m =
     filter (\<lambda>k. case m k of Some v \<Rightarrow> MatchString secretPattern v | None \<Rightarrow> False) (keys (\<lambda>k. m k \<noteq> None))"

definition checkSecretsExposure :: "key_walk \<Rightarrow> workflow_step \<Rightarrow> string \<Rightarrow> ci_finding list" where
  "checkSecretsExposure keys step file =
     (let ref = ParseActionRef (ws_Uses step)
      in if ref = None \<or> IsOfficialAction ref then []
         else map (\<lambda>k. ci_entry ''secrets_exposure'' CIRiskCritical
                (''Secret passed via env '' @ in_quotes k @ '' to third-party action '' @ in_quotes (ws_Uses step))
                file 0 ''Avoid passing secrets to third-party actions. Use OIDC tokens or scoped tokens instead.'')
                (secrets_in keys (ws_Env step))
            @ map (\<lambda>k. ci_entry ''secrets_exposure'' CIRiskHigh
                (''Secret passed via input '' @ in_quotes k @ '' to third-party action '' @ in_quotes (ws_Uses step))
                file 0 ''Audit the action to ensure secrets are handled securely'')
                (secrets_in keys (ws_With step)))"

definition checkDangerousRun :: "workflow_step \<Rightarrow> string \<Rightarrow> ci_finding list" where
  "checkDangerousRun step file =
     (let run = ws_Run step
      in (if MatchString curlPipeShell run
          then [ci_entry ''dangerous_command'' CIRiskHigh ''Step pipes curl output to shell (curl | bash pattern)'' file 0
            ''Download scripts first, verify checksums, then execute''] else [])
       @ (if MatchString wgetPipeShell run
          then [ci_entry ''dangerous_command'' CIRiskHigh ''Step pipes wget output to shell'' file 0
            ''Download scripts first, verify checksums, then execute''] else [])
       @ (if MatchString downloadToFile run \<and> \<not> MatchString checksumVerify run
          then [ci_entry ''unverified_download'' CIRiskMedium ''Step downloads a file without checksum verification'' file 0
            ''Add checksum verification after downloading binaries''] else [])
       @ (if MatchString eventExprInjection run
          then [ci_entry ''expression_injection'' CIRiskCritical
            ''Step uses untrusted GitHub event data in a run command (expression injection risk)'' file 0
            ''Use an intermediate environment variable instead of inline expressions with untrusted data''] else []))"

section \<open>One workflow\<close>

definition step_findings :: "key_walk \<Rightarrow> string \<Rightarrow> workflow_step \<Rightarrow> ci_finding list" where
  "step_findings keys file step =
     (if ws_Uses step \<noteq> '''' then analyzeAction step file else [])
     @ checkSecretsExposure keys step file
     @ (if ws_Run step \<noteq> '''' then checkDangerousRun step file else [])"

definition job_findings :: "key_walk \<Rightarrow> string \<Rightarrow> string \<Rightarrow> workflow_job \<Rightarrow> ci_finding list" where
  "job_findings keys file jobID job =
     (if wj_IsSelfHosted job
      then [ci_entry ''self_hosted_runner'' CIRiskMedium (''Job uses self-hosted runner: '' @ wj_RunsOn job) file 0
        ''Ensure self-hosted runners are hardened and isolated. Consider using GitHub-hosted runners for public repos.'']
      else [])
     @ (if wp_IsWriteAll (wj_Permissions job)
        then [ci_entry ''excessive_permissions'' CIRiskHigh
          (''Job '' @ in_quotes (if wj_Name job = '''' then jobID else wj_Name job) @ '' has write-all permissions'') file 0
          ''Restrict job permissions to minimum required'']
        else [])
     @ concat (map (step_findings keys file) (wj_Steps job))"

definition workflow_findings :: "key_walk \<Rightarrow> workflow \<Rightarrow> ci_finding list" where
  "workflow_findings keys flow =
     (if wp_IsWriteAll (wf_Permissions flow)
      then [ci_entry ''excessive_permissions'' CIRiskHigh ''Workflow has write-all permissions'' (wf_FilePath flow) 0
        ''Use granular permissions (e.g., contents: read) instead of write-all'']
      else [])
     @ concat (map (\<lambda>jobID. case wf_Jobs flow jobID of
           None \<Rightarrow> []
         | Some job \<Rightarrow> job_findings keys (wf_FilePath flow) jobID job) (keys (\<lambda>j. wf_Jobs flow j \<noteq> None)))"

definition analyzeWorkflow :: "key_walk \<Rightarrow> workflow \<Rightarrow> workflow_risk" where
  "analyzeWorkflow keys flow =
     (let fs = workflow_findings keys flow; score = computeWorkflowScore fs
      in \<lparr>wr_Name = wf_Name flow, wr_FilePath = wf_FilePath flow, wr_Score = score, wr_Level = ciLevelFromScore score,
          wr_Findings = fs\<rparr>)"

section \<open>All workflows\<close>

definition empty_ci :: ci_report where
  "empty_ci = \<lparr>ci_Workflows = [], ci_BuildFindings = [], ci_OverallScore = 0, ci_OverallLevel = '''',
     ci_UnpinnedActions = 0, ci_ThirdPartyActions = 0, ci_TotalFindings = 0\<rparr>"

definition count_category :: "string \<Rightarrow> workflow_risk list \<Rightarrow> int" where
  "count_category cat wrs = int (length (filter (\<lambda>f. fc_Category f = cat) (concat (map wr_Findings wrs))))"

definition ScanWorkflows :: "key_walk \<Rightarrow> string + workflow list \<times> string list \<Rightarrow> string + ci_report" where
  "ScanWorkflows keys parsed =
     (case parsed of
        Inl err \<Rightarrow> Inl (''parsing workflows: '' @ err)
      | Inr (wfs, warnings) \<Rightarrow>
          if wfs = [] then Inr empty_ci
          else (let wrs = map (analyzeWorkflow keys) wfs;
                    r = empty_ci\<lparr>ci_Workflows := wrs,
                          ci_TotalFindings := fold (\<lambda>w n. n + int (length (wr_Findings w))) wrs 0,
                          ci_UnpinnedActions := count_category ''unpinned_action'' wrs,
                          ci_ThirdPartyActions := count_category ''third_party_action'' wrs\<rparr>;
                    score = computeOverallCIScore r
                in Inr (r\<lparr>ci_OverallScore := score, ci_OverallLevel := ciLevelFromScore score\<rparr>)))"

section \<open>Build files\<close>

text \<open>The lines of a file with their numbers, as the scanner returns them.\<close>

definition numbered_lines :: "string \<Rightarrow> (int \<times> string) list" where
  "numbered_lines s = (let ls = fst (scan_lines s) in zip (map int [1 ..< length ls + 1]) ls)"

text \<open>A trimmed line that starts with \<open>FROM\<close> and a space has a second word.\<close>

definition dockerfile_line :: "string \<Rightarrow> int \<times> string \<Rightarrow> ci_finding list" where
  "dockerfile_line path = (\<lambda>(n, line0).
     let line = TrimSpace line0; words = Fields line; upper = ToUpper line
     in (if HasPrefix upper ''FROM ''
         then (let image = words ! 1
           in if Contains image ''@sha256:'' then []
              else if Contains image '':latest'' \<or> \<not> Contains image '':''
              then [ci_entry ''unpinned_base_image'' CIRiskMedium
                (''Base image '' @ in_quotes image @ '' is not pinned to a digest'') path n
                ''Pin the base image to a SHA256 digest: image@sha256:<digest>'']
              else [])
         else [])
      @ (if HasPrefix upper ''RUN '' \<and> MatchString curlPipeShell line
         then [ci_entry ''dangerous_command'' CIRiskHigh ''Dockerfile pipes curl output to shell'' path n
           ''Download scripts, verify checksums, then execute in separate steps'']
         else [])
      @ (if HasPrefix upper ''ADD '' \<and> length words \<ge> 2 \<and> (HasPrefix (words ! 1) ''http://'' \<or> HasPrefix (words ! 1) ''https://'')
         then [ci_entry ''remote_add'' CIRiskMedium (''ADD fetches remote URL: '' @ words ! 1) path n
           ''Use RUN curl/wget with checksum verification instead of ADD for remote resources'']
         else []))"

definition makefile_line :: "string \<Rightarrow> int \<times> string \<Rightarrow> ci_finding list" where
  "makefile_line path = (\<lambda>(n, line).
     (if MatchString curlPipeShell line
      then [ci_entry ''dangerous_command'' CIRiskHigh ''Makefile pipes curl output to shell'' path n
        ''Download scripts, verify checksums, then execute'']
      else [])
     @ (if MatchString wgetPipeShell line
        then [ci_entry ''dangerous_command'' CIRiskHigh ''Makefile pipes wget output to shell'' path n
          ''Download scripts, verify checksums, then execute'']
        else []))"

definition shell_line :: "string \<Rightarrow> int \<times> string \<Rightarrow> ci_finding list" where
  "shell_line path = (\<lambda>(n, line).
     if MatchString curlPipeShell line
     then [ci_entry ''dangerous_command'' CIRiskHigh ''Script pipes curl output to shell'' path n
       ''Download scripts, verify checksums, then execute'']
     else [])"

definition scan_file :: "(string \<Rightarrow> int \<times> string \<Rightarrow> ci_finding list) \<Rightarrow> string \<times> string option \<Rightarrow> ci_finding list" where
  "scan_file line_findings = (\<lambda>(path, data).
     case data of None \<Rightarrow> [] | Some s \<Rightarrow> concat (map (line_findings path) (numbered_lines s)))"

definition scanDockerfile :: "string \<times> string option \<Rightarrow> ci_finding list" where
  "scanDockerfile = scan_file dockerfile_line"

definition scanMakefile :: "string \<times> string option \<Rightarrow> ci_finding list" where
  "scanMakefile = scan_file makefile_line"

definition scanShellScript :: "string \<times> string option \<Rightarrow> ci_finding list" where
  "scanShellScript = scan_file shell_line"

text \<open>The files that the three patterns find in the project directory, links left out.\<close>

record build_files =
  bf_docker :: "(string \<times> string option) list"
  bf_make :: "(string \<times> string option) list"
  bf_shell :: "(string \<times> string option) list"

definition ScanBuildFiles :: "build_files \<Rightarrow> ci_finding list" where
  "ScanBuildFiles fs =
     concat (map scanDockerfile (bf_docker fs)) @ concat (map scanMakefile (bf_make fs))
     @ concat (map scanShellScript (bf_shell fs))"

section \<open>The stage of the runner\<close>

text \<open>\<open>scan_ci\<close> is the option \<open>ScanCI\<close>; without it only the workflows are read. An error leaves no report.\<close>

definition audit_ci :: "key_walk \<Rightarrow> bool \<Rightarrow> string + workflow list \<times> string list \<Rightarrow> build_files \<Rightarrow> ci_report option" where
  "audit_ci keys scan_ci parsed fs =
     (case ScanWorkflows keys parsed of
        Inl err \<Rightarrow> None
      | Inr r \<Rightarrow>
          if scan_ci
          then (let found = ScanBuildFiles fs
                in Some (r\<lparr>ci_BuildFindings := found, ci_TotalFindings := ci_TotalFindings r + int (length found)\<rparr>))
          else Some r)"

end
