(* ===== verification/Ci_Props.thy ===== *)
theory Ci_Props
  imports Ci Integrity_Props
begin

text \<open>
  The scores of the CI audit, what a leaked secret does to the gate, and the findings that never count.
\<close>

section \<open>Scores\<close>

lemma severity_points_range: "0 \<le> severity_points f" "severity_points f \<le> 30"
  by (simp_all add: severity_points_def)

lemma points_append: "fold (\<lambda>f n. n + severity_points f) (fs :: ci_finding list) a = a + (\<Sum>f \<leftarrow> fs. severity_points f)"
  by (induction fs arbitrary: a) simp_all

lemma points_sum: "points fs = (\<Sum>f \<leftarrow> fs. severity_points f)"
  by (simp add: points_def points_append)

lemma points_nonneg: "0 \<le> points fs"
  unfolding points_sum by (intro sum_list_nonneg) (auto simp: severity_points_range)

lemma points_member: "f \<in> set fs \<Longrightarrow> severity_points f \<le> points fs"
  unfolding points_sum by (intro member_le_sum_list) (auto simp: severity_points_range)

lemma workflow_score_range: "0 \<le> computeWorkflowScore fs" "computeWorkflowScore fs \<le> 100"
  using points_nonneg [of fs] by (auto simp: computeWorkflowScore_def)

lemma workflow_score_member: "f \<in> set fs \<Longrightarrow> severity_points f \<le> computeWorkflowScore fs"
  using points_member [of f fs] severity_points_range [of f] by (auto simp: computeWorkflowScore_def)

lemma analyzeWorkflow_facts [simp]:
  "wr_Score (analyzeWorkflow keys w) = computeWorkflowScore (workflow_findings keys w)"
  "wr_Level (analyzeWorkflow keys w) = ciLevelFromScore (wr_Score (analyzeWorkflow keys w))"
  "wr_Findings (analyzeWorkflow keys w) = workflow_findings keys w"
  by (simp_all add: analyzeWorkflow_def Let_def)

definition highest :: "workflow_risk list \<Rightarrow> int" where
  "highest ws = fold (\<lambda>w m. if wr_Score w > m then wr_Score w else m) ws 0"

lemma overall_range:
  assumes "\<And>w. w \<in> set (ci_Workflows r) \<Longrightarrow> wr_Score w \<le> 100"
  shows "0 \<le> computeOverallCIScore r" "computeOverallCIScore r \<le> 100"
proof -
  let ?m = "fold (\<lambda>w m. if wr_Score w > m then wr_Score w else m) (ci_Workflows r) 0"
  have "?m \<le> 100"
    by (rule fold_inv [where P = "\<lambda>m. m \<le> 100"]) (auto simp: assms)
  moreover have "0 \<le> ?m" by (rule fold_max_ge)
  ultimately show "0 \<le> computeOverallCIScore r" "computeOverallCIScore r \<le> 100"
    using points_nonneg [of "ci_BuildFindings r"] by (auto simp: computeOverallCIScore_def Let_def)
qed

lemma overall_member: "w \<in> set (ci_Workflows r) \<Longrightarrow> wr_Score w \<le> computeOverallCIScore r"
  using fold_max_ge_elem [of w "ci_Workflows r" wr_Score 0] by (auto simp: computeOverallCIScore_def Let_def)

lemma ScanWorkflows_cases:
  assumes "ScanWorkflows keys parsed = Inr r"
  obtains ws where "parsed = Inr ([], ws)" "r = empty_ci"
  | wfs ws where "parsed = Inr (wfs, ws)" "ci_Workflows r = map (analyzeWorkflow keys) wfs" "ci_BuildFindings r = []"
      "ci_OverallScore r = computeOverallCIScore r" "ci_OverallLevel r = ciLevelFromScore (ci_OverallScore r)"
  using assms
  by (fastforce simp: ScanWorkflows_def Let_def empty_ci_def computeOverallCIScore_def split: sum.splits prod.splits if_splits)

lemma audit_ci_parts:
  assumes "audit_ci keys b parsed fs = Some r"
  obtains r0 where "ScanWorkflows keys parsed = Inr r0" "ci_OverallScore r = ci_OverallScore r0"
    "ci_OverallLevel r = ci_OverallLevel r0" "ci_Workflows r = ci_Workflows r0"
    "ci_BuildFindings r = (if b then ScanBuildFiles fs else ci_BuildFindings r0)"
  using assms by (auto simp: audit_ci_def Let_def split: sum.splits if_splits)

text \<open>The score of the CI audit and that of every workflow lie between 0 and 100, and levels agree with scores
  (a report without workflows has no level).\<close>

theorem ci_scores_in_range:
  assumes "audit_ci keys b parsed fs = Some r"
  shows "0 \<le> ci_OverallScore r \<and> ci_OverallScore r \<le> 100 \<and>
    (ci_OverallLevel r = ciLevelFromScore (ci_OverallScore r) \<or> ci_Workflows r = [] \<and> ci_OverallLevel r = '''') \<and>
    list_all (\<lambda>w. 0 \<le> wr_Score w \<and> wr_Score w \<le> ci_OverallScore r \<and> wr_Level w = ciLevelFromScore (wr_Score w)) (ci_Workflows r)"
proof -
  obtain r0 where r0: "ScanWorkflows keys parsed = Inr r0" "ci_OverallScore r = ci_OverallScore r0"
    "ci_OverallLevel r = ci_OverallLevel r0" "ci_Workflows r = ci_Workflows r0"
    using audit_ci_parts [OF assms] by metis
  from r0(1) show ?thesis
  proof (cases rule: ScanWorkflows_cases)
    case 1
    then show ?thesis using r0 by (simp add: empty_ci_def)
  next
    case (2 wfs ws)
    have "wr_Score w \<le> 100 \<and> 0 \<le> wr_Score w \<and> wr_Level w = ciLevelFromScore (wr_Score w)" if "w \<in> set (ci_Workflows r0)" for w
      using that workflow_score_range unfolding 2(2) by auto
    then show ?thesis
      unfolding r0 2(4,5) using overall_range [of r0] overall_member [of _ r0] 2(4) by (auto simp: list_all_iff)
  qed
qed

section \<open>Build files\<close>

text \<open>The findings in build files never reach the score that the gate reads, although the score is defined to count
  them: it is computed before they are there. Five piped downloads in a Dockerfile leave it at 0.\<close>

theorem build_findings_never_count:
  "map_option ci_OverallScore (audit_ci keys b parsed fs) = map_option ci_OverallScore (audit_ci keys b parsed fs') \<and>
   (\<exists>r. audit_ci keys True (Inr ([], [])) \<lparr>bf_docker = [(''Dockerfile'', Some (Join (replicate 5 ''RUN curl x | sh'') [CHR 0x0A]))],
      bf_make = [], bf_shell = []\<rparr> = Some r \<and> computeOverallCIScore r = 100 \<and> ci_OverallScore r = 0)"
proof -
  let ?fs = "\<lparr>bf_docker = [(''Dockerfile'', Some (Join (replicate 5 ''RUN curl x | sh'') [CHR 0x0A]))], bf_make = [], bf_shell = []\<rparr>"
  have "points (ScanBuildFiles ?fs) = 100" by code_simp
  then have "computeOverallCIScore (empty_ci\<lparr>ci_BuildFindings := ScanBuildFiles ?fs, ci_TotalFindings := n\<rparr>) = 100" for n
    by (auto simp: computeOverallCIScore_def empty_ci_def points_def)
  then show ?thesis
    by (auto simp: audit_ci_def ScanWorkflows_def Let_def empty_ci_def split: sum.splits)
qed

section \<open>Secrets\<close>

definition lists_keys :: "key_walk \<Rightarrow> (string \<Rightarrow> 'b option) \<Rightarrow> bool" where
  "lists_keys keys m = (set (keys (\<lambda>k. m k \<noteq> None)) = dom m)"

lemma ci_entry_severity: "fc_Severity (ci_entry a b c d e g) = b"
  by (simp add: ci_entry_def)

lemma secret_finding:
  assumes "ws_Env step k = Some v" "MatchString secretPattern v" "lists_keys keys (ws_Env step)"
    "ParseActionRef (ws_Uses step) = Some ref" "\<not> IsOfficialAction (Some ref)"
  shows "\<exists>f \<in> set (step_findings keys file step). severity_points f = 30"
proof -
  have "k \<in> set (secrets_in keys (ws_Env step))"
    using assms(1-3) by (auto simp: secrets_in_def lists_keys_def)
  then have "\<exists>f \<in> set (checkSecretsExposure keys step file). fc_Severity f = CIRiskCritical"
    using assms(4,5) by (auto simp: checkSecretsExposure_def bex_Un ci_entry_severity)
  then obtain f where f: "f \<in> set (checkSecretsExposure keys step file)" "fc_Severity f = CIRiskCritical" by blast
  then have "severity_points f = 30" by (simp add: severity_points_def)
  then show ?thesis using f(1) by (intro bexI [of _ f]) (simp_all add: step_findings_def)
qed

lemma step_in_workflow:
  assumes "wf_Jobs w j = Some job" "lists_keys keys (wf_Jobs w)" "step \<in> set (wj_Steps job)"
    "f \<in> set (step_findings keys (wf_FilePath w) step)"
  shows "f \<in> set (workflow_findings keys w)"
proof -
  have "j \<in> set (keys (\<lambda>j. wf_Jobs w j \<noteq> None))" using assms(1,2) by (auto simp: lists_keys_def)
  then show ?thesis using assms(1,3,4) by (force simp: workflow_findings_def job_findings_def)
qed

text \<open>C32: A workflow step that hands a secret to a third-party action through its environment fails every gate
  with \<open>max_ci_score\<close> below 30.\<close>

theorem leaked_secret_fails_the_gate:
  assumes "audit_ci keys b (Inr (wfs, ws)) fs = Some r"
    "w \<in> set wfs" "wf_Jobs w j = Some job" "step \<in> set (wj_Steps job)" "ws_Env step k = Some v" "MatchString secretPattern v"
    "ParseActionRef (ws_Uses step) = Some ref" "\<not> IsOfficialAction (Some ref)"
    "lists_keys keys (wf_Jobs w)" "lists_keys keys (ws_Env step)"
    "pl_MaxCIScore pol = Some limit" "limit < 30" "ei_ProjectScore inp = Some deps" "ei_CIReport inp = Some (ci_OverallScore r)"
  shows "\<not> pr_Pass (Evaluate pol inp)"
proof -
  obtain f where "f \<in> set (workflow_findings keys w)" "severity_points f = 30"
    using secret_finding [OF assms(5,6,10,7,8)] step_in_workflow [OF assms(3,9,4)] by metis
  then have "30 \<le> wr_Score (analyzeWorkflow keys w)"
    using workflow_score_member by fastforce
  moreover obtain r0 where r0: "ScanWorkflows keys (Inr (wfs, ws)) = Inr r0" "ci_OverallScore r = ci_OverallScore r0"
    using audit_ci_parts [OF assms(1)] by metis
  moreover have "analyzeWorkflow keys w \<in> set (ci_Workflows r0) \<and> ci_OverallScore r0 = computeOverallCIScore r0"
    using r0(1) by (cases rule: ScanWorkflows_cases) (use assms(2) in auto)
  ultimately have "limit < ci_OverallScore r"
    using overall_member [of "analyzeWorkflow keys w" r0] assms(12) by linarith
  then have "\<not> pr_Pass (rule_ci_score pol inp x)" for x
    unfolding rule_ci_score_def assms(11,14) option.case prod.case by (simp add: addError_def)
  moreover have "appends (rule_gosum pol inp)" "appends (rule_replace_redirect pol inp)" by (rule policy_rules)+
  ultimately show ?thesis
    unfolding Evaluate_steps assms(13) option.case using appends_failure by blast
qed

text \<open>An image from any publisher passes for an official action, so its secrets are never reported; and a port
  in the name of a registry passes for a tag.\<close>

theorem docker_images_are_trusted: "ws_Uses step = ''docker://'' @ img \<Longrightarrow> checkSecretsExposure keys step file = []"
proof -
  assume u: "ws_Uses step = ''docker://'' @ img"
  have "ParseActionRef (''docker://'' @ img) = Some \<lparr>ar_Owner = ''docker'', ar_Repo = ''docker://'' @ img,
      ar_Version = ''latest'', ar_IsPinned = False, ar_IsLocal = False\<rparr>"
    by (simp add: ParseActionRef_def)
  then show ?thesis
    unfolding checkSecretsExposure_def u Let_def by (simp add: IsOfficialAction_def trustedOrgs_def)
qed

theorem registry_port_hides_missing_tag: "dockerfile_line ''Dockerfile'' (1, ''FROM localhost:5000/app'') = []"
  by code_simp

section \<open>Witnesses\<close>

definition leaking_step :: workflow_step where
  "leaking_step = \<lparr>ws_Name = '''', ws_Uses = ''evil/deploy@v1'', ws_Run = '''', ws_With = Map.empty,
     ws_Env = [''TOKEN'' \<mapsto> ''${{ secrets.TOKEN }}'']\<rparr>"

definition leaking_job :: workflow_job where
  "leaking_job = \<lparr>wj_Name = '''', wj_RunsOn = ''ubuntu-latest'', wj_Permissions = no_permissions, wj_Steps = [leaking_step],
     wj_IsSelfHosted = False\<rparr>"

definition leaking_flow :: workflow where
  "leaking_flow = \<lparr>wf_Name = ''ci'', wf_FilePath = ''ci.yml'', wf_Permissions = no_permissions, wf_Jobs = [''build'' \<mapsto> leaking_job]\<rparr>"

definition two_keys :: key_walk where
  "two_keys P = filter P [''TOKEN'', ''build'']"

definition no_build_files :: build_files where
  "no_build_files = \<lparr>bf_docker = [], bf_make = [], bf_shell = []\<rparr>"

lemma leaking_report: "\<exists>r. audit_ci two_keys False (Inr ([leaking_flow], [])) no_build_files = Some r"
  by (simp add: audit_ci_def ScanWorkflows_def Let_def)

theorem ci_scores_in_range_witness:
  "\<exists>r. audit_ci two_keys False (Inr ([leaking_flow], [])) no_build_files = Some r \<and> ci_OverallScore r \<le> 100"
  using leaking_report ci_scores_in_range [of two_keys False "Inr ([leaking_flow], [])" no_build_files] by blast

theorem leaked_secret_fails_the_gate_witness:
  "\<exists>r. audit_ci two_keys False (Inr ([leaking_flow], [])) no_build_files = Some r \<and>
     \<not> pr_Pass (Evaluate (zero_policy\<lparr>pl_MaxCIScore := Some 20\<rparr>) (ex_eval\<lparr>ei_ProjectScore := Some [], ei_CIReport := Some (ci_OverallScore r)\<rparr>))"
proof -
  obtain r where r: "audit_ci two_keys False (Inr ([leaking_flow], [])) no_build_files = Some r" using leaking_report by blast
  have k: "lists_keys two_keys (wf_Jobs leaking_flow)" "lists_keys two_keys (ws_Env leaking_step)"
    by (auto simp: lists_keys_def two_keys_def leaking_flow_def leaking_step_def)
  have m: "MatchString secretPattern ''${{ secrets.TOKEN }}''" by code_simp
  have a: "ParseActionRef (ws_Uses leaking_step) = Some \<lparr>ar_Owner = ''evil'', ar_Repo = ''deploy'', ar_Version = ''v1'',
      ar_IsPinned = False, ar_IsLocal = False\<rparr>" by code_simp
  have o: "\<not> IsOfficialAction (Some \<lparr>ar_Owner = ''evil'', ar_Repo = ''deploy'', ar_Version = ''v1'',
      ar_IsPinned = False, ar_IsLocal = False\<rparr>)" by code_simp
  have "\<not> pr_Pass (Evaluate (zero_policy\<lparr>pl_MaxCIScore := Some 20\<rparr>) (ex_eval\<lparr>ei_ProjectScore := Some [], ei_CIReport := Some (ci_OverallScore r)\<rparr>))"
    by (rule leaked_secret_fails_the_gate [OF r, where w = leaking_flow and j = "''build''" and job = leaking_job
          and step = leaking_step and k = "''TOKEN''" and v = "''${{ secrets.TOKEN }}''" and limit = 20 and deps = "[]", OF _ _ _ _ m a o k])
       (simp_all add: leaking_flow_def leaking_job_def leaking_step_def)
  then show ?thesis using r by blast
qed

end
