(* ===== verification/Module_Path.thy ===== *)
theory Module_Path
  imports Go_Text Go_Time
begin

text \<open>
  What the scanners share on module paths and dates: the path as the module proxy wants it, the GitHub repository a
  path names (\<open>pkg/scanner/maintenance.go\<close>, \<open>pkg/scanner/maintainer.go\<close>), and calendar months.
\<close>

definition encode_char :: "char \<Rightarrow> string" where
  "encode_char c = (if lower_char c \<noteq> c then [CHR ''!'', lower_char c] else [c])"

definition encodeModulePath :: "string \<Rightarrow> string" where
  "encodeModulePath p = concat (map encode_char p)"

definition parseGitHubPath :: "string \<Rightarrow> string \<times> string" where
  "parseGitHubPath p =
     (if \<not> HasPrefix p ''github.com/'' then ('''', '''')
      else let parts = Split (TrimPrefix p ''github.com/'') (CHR ''/'')
           in if length parts < 2 then ('''', '''') else (parts ! 0, parts ! 1))"

definition scanner_monthsSince :: "gotime \<Rightarrow> gotime \<Rightarrow> int" where
  "scanner_monthsSince now t =
     (if IsZero t then 0
      else let total = (Year now - Year t) * 12 + (Month now - Month t) in if total < 0 then 0 else total)"

end
