(* ===== verification/Worker_Pool.thy ===== *)
theory Worker_Pool
  imports Prelude "HOL-Library.Multiset"
begin

text \<open>
  \<open>runBounded\<close> of \<open>pkg/scanner/resilience.go\<close> calls a function once per index, a bounded number at a time, and waits
  for all. A call whose effects on the shared state are disjoint from those of the others is one step, so a run is
  some order of the steps; how many are in flight does not matter.
\<close>

definition runBounded :: "('i \<Rightarrow> 's \<Rightarrow> 's) \<Rightarrow> 'i list \<Rightarrow> 's \<Rightarrow> 's" where
  "runBounded fn order s = fold fn order s"

text \<open>The contract of such a function: calls for different indices commute.\<close>

locale worker_pool =
  fixes fn :: "'i \<Rightarrow> 's \<Rightarrow> 's"
  assumes independent: "i \<noteq> j \<Longrightarrow> fn i (fn j s) = fn j (fn i s)"
begin

lemma commute: "fn i \<circ> fn j = fn j \<circ> fn i"
  using independent by (cases "i = j") auto

lemma schedule_irrelevant: "mset order = mset order' \<Longrightarrow> runBounded fn order s = runBounded fn order' s"
  unfolding runBounded_def by (rule fun_cong [OF fold_multiset_equiv]) (use commute in auto)

end

end
