(* ===== verification/Resilience.thy ===== *)
theory Resilience
  imports Scanner_Data Module_Path Worker_Pool
begin

text \<open>
  \<open>pkg/scanner/resilience.go\<close>: release history from the module proxy, in the three phases of \<open>ScanAll\<close>. The
  workers of a phase run in an order that is an argument; each touches the cache and the requests of its own path
  only, so a worker is one step. What a server answers is a function of the request (\<open>None\<close>: no answer), and
  every request is logged with its purpose. \<open>semver.Compare\<close> and the decoding of a date are arguments.
\<close>

section \<open>Data\<close>

record resilience_report = resilience_info +
  rr_TotalReleases :: int
  rr_AvgDaysBetween :: double
  rr_ReleaseCadence :: string
  rr_LastReleaseDate :: gotime
  rr_FirstReleaseDate :: gotime
  rr_ProjectAgeDays :: int
  rr_HasStableRelease :: bool
  rr_MajorVersions :: int
  rr_PreReleaseOnly :: bool
  rr_VersionScheme :: string
  rr_HasSecurityPolicy :: bool
  rr_HasContribGuide :: bool
  rr_HasCodeOfConduct :: bool
  rr_HasMultipleMaintainers :: bool
  rr_Limited :: bool
  rr_SampledVersions :: int

definition no_report :: resilience_report where
  "no_report = \<lparr>rs_DataAvailable = False, rs_Score = 0, rr_TotalReleases = 0, rr_AvgDaysBetween = 0,
     rr_ReleaseCadence = '''', rr_LastReleaseDate = zero_time, rr_FirstReleaseDate = zero_time, rr_ProjectAgeDays = 0,
     rr_HasStableRelease = False, rr_MajorVersions = 0, rr_PreReleaseOnly = False, rr_VersionScheme = '''',
     rr_HasSecurityPolicy = False, rr_HasContribGuide = False, rr_HasCodeOfConduct = False,
     rr_HasMultipleMaintainers = False, rr_Limited = False, rr_SampledVersions = 0\<rparr>"

definition maxResilienceVersionSamples :: nat where "maxResilienceVersionSamples = 24"
definition maxResilienceScanInfoRequests :: int where "maxResilienceScanInfoRequests = 3000"

record resilience_world =
  re_get :: "string \<Rightarrow> (int \<times> string) option"
  re_head :: "string \<Rightarrow> int option"
  re_time :: "string \<Rightarrow> gotime option"
  re_compare :: "string \<Rightarrow> string \<Rightarrow> int"
  re_proxyURL :: string
  re_ScanStart :: gotime

record resilience_scanner =
  rc_cache :: "string \<Rightarrow> resilience_report option"
  rc_infoBudget :: int
  rc_scanBudget :: int
  rc_sent :: "(string \<times> string) multiset"

definition NewResilienceScanner :: resilience_scanner where
  "NewResilienceScanner = \<lparr>rc_cache = Map.empty, rc_infoBudget = maxResilienceScanInfoRequests,
     rc_scanBudget = maxResilienceScanInfoRequests, rc_sent = {#}\<rparr>"

definition resilience_send :: "string \<Rightarrow> string \<Rightarrow> resilience_scanner \<Rightarrow> resilience_scanner" where
  "resilience_send purpose url s = s\<lparr>rc_sent := add_mset (purpose, url) (rc_sent s)\<rparr>"

definition resilience_put :: "string \<Rightarrow> resilience_report \<Rightarrow> resilience_scanner \<Rightarrow> resilience_scanner" where
  "resilience_put p info s = s\<lparr>rc_cache := (rc_cache s)(p \<mapsto> info)\<rparr>"

section \<open>Requests\<close>

definition version_list_url :: "resilience_world \<Rightarrow> string \<Rightarrow> string" where
  "version_list_url w p = re_proxyURL w @ ''/'' @ encodeModulePath p @ ''/@v/list''"

definition version_info_url :: "resilience_world \<Rightarrow> string \<Rightarrow> string \<Rightarrow> string" where
  "version_info_url w p v = re_proxyURL w @ ''/'' @ encodeModulePath p @ ''/@v/'' @ v @ ''.info''"

definition fetchVersionList :: "resilience_world \<Rightarrow> string \<Rightarrow> string list" where
  "fetchVersionList w p =
     (case re_get w (version_list_url w p) of
        None \<Rightarrow> []
      | Some (status, body) \<Rightarrow>
          if status \<noteq> 200 then []
          else filter (\<lambda>l. l \<noteq> '''') (map TrimSpace (Split (TrimSpace body) (CHR 0x0A))))"

definition fetchVersionTime :: "resilience_world \<Rightarrow> string \<Rightarrow> string \<Rightarrow> gotime" where
  "fetchVersionTime w p v =
     (case re_get w (version_info_url w p v) of
        None \<Rightarrow> zero_time
      | Some (status, body) \<Rightarrow>
          if status \<noteq> 200 then zero_time
          else case re_time w body of None \<Rightarrow> zero_time | Some t \<Rightarrow> t)"

text \<open>The dates that were obtained, and whether that of the oldest version is among them.\<close>

definition fetchVersionTimes :: "resilience_world \<Rightarrow> string \<Rightarrow> string list \<Rightarrow> string \<Rightarrow> gotime list \<times> bool" where
  "fetchVersionTimes w p sample oldest =
     (let got = filter (\<lambda>(v, t). \<not> IsZero t) (map (\<lambda>v. (v, fetchVersionTime w p v)) sample)
      in (map snd got, oldest \<noteq> '''' \<and> list_ex (\<lambda>(v, t). v = oldest) got))"

definition contents_url :: "string \<Rightarrow> string \<Rightarrow> string \<Rightarrow> string" where
  "contents_url owner repo file = ''https://api.github.com/repos/'' @ owner @ ''/'' @ repo @ ''/contents/'' @ file"

definition governance_files :: "string list" where
  "governance_files = [''SECURITY.md'', ''CONTRIBUTING.md'', ''CODE_OF_CONDUCT.md'']"

definition checkGovernanceFiles :: "resilience_world \<Rightarrow> string \<Rightarrow> string \<Rightarrow> resilience_report \<Rightarrow> resilience_report" where
  "checkGovernanceFiles w owner repo info =
     (let there = (\<lambda>file. re_head w (contents_url owner repo file) = Some 200)
      in info\<lparr>rr_HasSecurityPolicy := (there ''SECURITY.md'' \<or> rr_HasSecurityPolicy info),
           rr_HasContribGuide := (there ''CONTRIBUTING.md'' \<or> rr_HasContribGuide info),
           rr_HasCodeOfConduct := (there ''CODE_OF_CONDUCT.md'' \<or> rr_HasCodeOfConduct info)\<rparr>)"

section \<open>Classification and score\<close>

definition classifyCadence :: "gotime \<Rightarrow> resilience_report \<Rightarrow> string" where
  "classifyCadence now info =
     (if rr_TotalReleases info \<le> 1 then ''stale''
      else if scanner_monthsSince now (rr_LastReleaseDate info) > 24 then ''stale''
      else if rr_AvgDaysBetween info < 30 then ''frequent''
      else if rr_AvgDaysBetween info < 90 then ''regular''
      else if rr_AvgDaysBetween info < 180 then ''slow''
      else ''stale'')"

definition is_pseudo :: "string \<Rightarrow> bool" where
  "is_pseudo v = (Contains v ''-0.'' \<and> length v > 30)"

definition classifyVersionScheme :: "string list \<Rightarrow> string" where
  "classifyVersionScheme vs =
     (let hasPseudo = list_ex is_pseudo vs; hasSemver = list_ex (\<lambda>v. \<not> is_pseudo v \<and> HasPrefix v ''v'') vs
      in if hasSemver \<and> hasPseudo then ''mixed'' else if hasPseudo then ''pseudo'' else ''semver'')"

text \<open>The sum is a float of small integers, which is exact.\<close>

definition cadence_points :: "string \<Rightarrow> int" where
  "cadence_points c = (if c = ''frequent'' then 30 else if c = ''regular'' then 25 else if c = ''slow'' then 10 else 0)"

definition age_points :: "int \<Rightarrow> int" where
  "age_points d = (if d > 365 * 5 then 20 else if d > 365 * 2 then 15 else if d > 365 then 10 else 5)"

definition release_points :: "int \<Rightarrow> int" where
  "release_points n = (if n \<ge> 20 then 15 else if n \<ge> 10 then 10 else if n \<ge> 5 then 7 else 2)"

definition scheme_points :: "string \<Rightarrow> int" where
  "scheme_points s = (if s = ''semver'' then 10 else if s = ''mixed'' then 5 else if s = ''pseudo'' then 2 else 0)"

definition computeResilienceScore :: "resilience_report \<Rightarrow> int" where
  "computeResilienceScore info =
     (let score = cadence_points (rr_ReleaseCadence info) + age_points (rr_ProjectAgeDays info)
            + release_points (rr_TotalReleases info) + (if rr_HasStableRelease info then 10 else 0)
            + (if rr_HasSecurityPolicy info then 5 else 0) + (if rr_HasContribGuide info then 5 else 0)
            + (if rr_HasCodeOfConduct info then 2 else 0) + (if rr_HasMultipleMaintainers info then 3 else 0)
            + scheme_points (rr_VersionScheme info)
      in if score > 100 then 100 else score)"

section \<open>Planning one module\<close>

text \<open>Invalid versions compare below valid ones; equal ones are ordered as strings.\<close>

definition older :: "resilience_world \<Rightarrow> string \<Rightarrow> string \<Rightarrow> bool" where
  "older w a b = (re_compare w a b < 0 \<or> re_compare w a b = 0 \<and> a < b)"

definition sampleVersions :: "resilience_world \<Rightarrow> string list \<Rightarrow> nat \<Rightarrow> string list \<times> string" where
  "sampleVersions w versions limit =
     (let ordered = rev (sort_by (older w) versions)
      in if length ordered \<le> limit then (ordered, '''')
         else let oldest = ordered ! (length ordered - 1)
              in ([ordered ! 0, oldest] @ drop 1 (take (limit - 1) ordered), oldest))"

record resilience_work =
  rw_modPath :: string
  rw_info :: resilience_report
  rw_done :: bool
  rw_versions :: "string list"
  rw_sample :: "string list"
  rw_oldest :: string
  rw_flags :: resilience_report
  rw_majorVersions :: int

definition finished_work :: "string \<Rightarrow> resilience_report \<Rightarrow> resilience_work" where
  "finished_work p info = \<lparr>rw_modPath = p, rw_info = info, rw_done = True, rw_versions = [], rw_sample = [], rw_oldest = '''',
     rw_flags = no_report, rw_majorVersions = 0\<rparr>"

definition major_of :: "string \<Rightarrow> string" where
  "major_of v = takeWhile (\<lambda>c. c \<noteq> CHR ''.'') (TrimPrefix v ''v'')"

definition is_stable :: "string \<Rightarrow> bool" where
  "is_stable v = (\<not> HasPrefix v ''v0.'' \<and> HasPrefix v ''v'' \<and> \<not> Contains v ''-'')"

definition is_prerelease :: "string \<Rightarrow> bool" where
  "is_prerelease v = (Contains v ''-rc'' \<or> Contains v ''-beta'' \<or> Contains v ''-alpha'')"

definition version_flags :: "string list \<Rightarrow> resilience_report" where
  "version_flags versions =
     no_report\<lparr>rs_DataAvailable := True, rr_TotalReleases := int (length versions),
       rr_HasStableRelease := list_ex is_stable versions,
       rr_PreReleaseOnly := (list_ex is_prerelease versions \<and> \<not> list_ex is_stable versions)\<rparr>"

definition plan_of :: "resilience_world \<Rightarrow> string \<Rightarrow> string list \<Rightarrow> resilience_work" where
  "plan_of w p versions =
     (let (sample, oldest) = sampleVersions w versions maxResilienceVersionSamples
      in \<lparr>rw_modPath = p, rw_info = no_report, rw_done = False, rw_versions = versions, rw_sample = sample, rw_oldest = oldest,
          rw_flags = version_flags versions,
          rw_majorVersions = int (card (set (map major_of (filter (\<lambda>v. HasPrefix v ''v'') versions))))\<rparr>)"

definition planModule :: "resilience_world \<Rightarrow> string \<Rightarrow> resilience_scanner \<Rightarrow> resilience_work \<times> resilience_scanner" where
  "planModule w p s =
     (case rc_cache s p of
        Some cached \<Rightarrow> (finished_work p cached, s)
      | None \<Rightarrow>
          (let versions = fetchVersionList w p; s = resilience_send ''resilience:version-list'' (version_list_url w p) s
           in if versions = [] then (finished_work p no_report, resilience_put p no_report s)
              else (plan_of w p versions, s)))"

section \<open>The budget\<close>

definition reserveInfoRequests :: "int \<Rightarrow> resilience_scanner \<Rightarrow> int \<times> resilience_scanner" where
  "reserveInfoRequests n s =
     (let n = max 0 (min n (rc_infoBudget s)) in (n, s\<lparr>rc_infoBudget := rc_infoBudget s - n\<rparr>))"

section \<open>Finishing one module\<close>

definition release_dates :: "resilience_world \<Rightarrow> gotime list \<Rightarrow> bool \<Rightarrow> resilience_report \<Rightarrow> resilience_report" where
  "release_dates w dates oldestFound info =
     (let dates = sort_by Before dates; first = hd dates; latest = last dates;
          info = info\<lparr>rr_FirstReleaseDate := first, rr_LastReleaseDate := latest,
            rr_ProjectAgeDays := go_int (ddiv (Hours (Sub (re_ScanStart w) first)) 24)\<rparr>
      in if length dates > 1
         then info\<lparr>rr_AvgDaysBetween := ddiv (ddiv (Hours (Sub latest first)) 24)
           (of_int (if rr_Limited info \<and> oldestFound then rr_TotalReleases info - 1 else int (length dates) - 1))\<rparr>
         else info)"

definition measured :: "resilience_world \<Rightarrow> resilience_work \<Rightarrow> gotime list \<Rightarrow> bool \<Rightarrow> resilience_report" where
  "measured w work dates oldestFound =
     (let info = rw_flags work;
          info = (if length dates < length (rw_versions work)
                  then info\<lparr>rr_Limited := True, rr_SampledVersions := int (length dates)\<rparr> else info);
          info = release_dates w dates oldestFound (info\<lparr>rr_MajorVersions := rw_majorVersions work\<rparr>);
          info = info\<lparr>rr_ReleaseCadence := classifyCadence (re_ScanStart w) info\<rparr>;
          info = info\<lparr>rr_VersionScheme := classifyVersionScheme (rw_versions work)\<rparr>;
          (owner, repo) = parseGitHubPath (rw_modPath work)
      in if owner \<noteq> '''' \<and> repo \<noteq> '''' then checkGovernanceFiles w owner repo info else info)"

definition governance_urls :: "string \<Rightarrow> string list" where
  "governance_urls p =
     (let (owner, repo) = parseGitHubPath p
      in if owner \<noteq> '''' \<and> repo \<noteq> '''' then map (contents_url owner repo) governance_files else [])"

definition finishModule ::
  "resilience_world \<Rightarrow> resilience_work \<Rightarrow> int \<Rightarrow> resilience_scanner \<Rightarrow> resilience_report \<times> resilience_scanner" where
  "finishModule w work granted s =
     (if rw_done work then (rw_info work, s)
      else let p = rw_modPath work;
               sample = take (nat granted) (rw_sample work);
               (dates, oldestFound) = fetchVersionTimes w p sample (rw_oldest work);
               s = fold (\<lambda>v. resilience_send ''resilience:version-info'' (version_info_url w p v)) sample s
           in if dates = [] then (let info = no_report\<lparr>rr_Limited := True\<rparr> in (info, resilience_put p info s))
              else let info = measured w work dates oldestFound
                   in (info, resilience_put p info (fold (resilience_send ''resilience:governance'') (governance_urls p) s)))"

definition analyzeModule :: "resilience_world \<Rightarrow> string \<Rightarrow> resilience_scanner \<Rightarrow> resilience_report \<times> resilience_scanner" where
  "analyzeModule w p s =
     (let (work, s) = planModule w p s;
          (granted, s) = (if \<not> rw_done work then reserveInfoRequests (int (length (rw_sample work))) s else (0, s))
      in finishModule w work granted s)"

section \<open>The scan\<close>

text \<open>
  The works and the grants are arrays indexed by the sorted paths, here maps from the path. The result of a
  module is the object in the cache, so that changing it changes the cache.
\<close>

type_synonym works = "string \<Rightarrow> resilience_work option"

definition plan_step :: "resilience_world \<Rightarrow> string \<Rightarrow> works \<times> resilience_scanner \<Rightarrow> works \<times> resilience_scanner" where
  "plan_step w p = (\<lambda>(work, s). let (x, s) = planModule w p s in (work(p \<mapsto> x), s))"

definition reserve_step :: "works \<Rightarrow> string \<Rightarrow> (string \<Rightarrow> int) \<times> resilience_scanner \<Rightarrow> (string \<Rightarrow> int) \<times> resilience_scanner" where
  "reserve_step work p = (\<lambda>(granted, s).
     case work p of
       None \<Rightarrow> (granted, s)
     | Some x \<Rightarrow>
         if rw_done x then (granted, s)
         else let (n, s) = reserveInfoRequests (int (length (rw_sample x))) s in (granted(p := n), s))"

type_synonym owners = "string \<Rightarrow> maintainer_info option"

definition scored_with :: "owners \<Rightarrow> string \<Rightarrow> resilience_report \<Rightarrow> resilience_report" where
  "scored_with maintainers p info =
     (let info = (case maintainers p of
            None \<Rightarrow> info
          | Some mi \<Rightarrow> info\<lparr>rr_HasMultipleMaintainers := (ma_BusFactor mi > 1)\<rparr>)
      in info\<lparr>rs_Score := computeResilienceScore info\<rparr>)"

definition finish_step ::
  "resilience_world \<Rightarrow> owners \<Rightarrow> works \<Rightarrow> (string \<Rightarrow> int) \<Rightarrow> string \<Rightarrow>
    (string \<Rightarrow> resilience_report option) \<times> resilience_scanner \<Rightarrow> (string \<Rightarrow> resilience_report option) \<times> resilience_scanner" where
  "finish_step w maintainers work granted p = (\<lambda>(results, s).
     case work p of
       None \<Rightarrow> (results, s)
     | Some x \<Rightarrow>
         (let (info, s) = finishModule w x (granted p) s;
              info = scored_with maintainers p info
          in (results(p \<mapsto> info), resilience_put p info s)))"

text \<open>\<open>order1\<close> and \<open>order3\<close>: the orders in which the workers of the first and the third phase get their turn.\<close>

definition resilience_ScanAll ::
  "resilience_world \<Rightarrow> string list \<Rightarrow> string list \<Rightarrow> string list \<Rightarrow> owners \<Rightarrow> resilience_scanner \<Rightarrow>
    (string \<Rightarrow> resilience_report option) \<times> resilience_scanner" where
  "resilience_ScanAll w order1 order3 deps maintainers s =
     (let s = s\<lparr>rc_infoBudget := rc_scanBudget s\<rparr>;
          (work, s) = runBounded (plan_step w) order1 (Map.empty, s);
          (granted, s) = fold (reserve_step work) (sort_strings deps) (\<lambda>p. 0, s)
      in runBounded (finish_step w maintainers work granted) order3 (Map.empty, s))"

end
