(* ===== verification/Resilience_Props.thy ===== *)
theory Resilience_Props
  imports Resilience Risk_Dependency
begin

text \<open>
  What a scan of \<open>Resilience\<close> promises: its results depend neither on the schedule of its workers nor on the order of
  the map of dependencies, the date requests stay within the budget of the scan, and every score is in range.
\<close>

section \<open>Schedules\<close>

lemma resilience_send_fields [simp]:
  "rc_cache (resilience_send a u s) = rc_cache s" "rc_infoBudget (resilience_send a u s) = rc_infoBudget s"
  "rc_scanBudget (resilience_send a u s) = rc_scanBudget s"
  "rc_sent (resilience_send a u s) = add_mset (a, u) (rc_sent s)"
  by (simp_all add: resilience_send_def)

lemma resilience_put_fields [simp]:
  "rc_cache (resilience_put p i s) = (rc_cache s)(p \<mapsto> i)" "rc_infoBudget (resilience_put p i s) = rc_infoBudget s"
  "rc_scanBudget (resilience_put p i s) = rc_scanBudget s" "rc_sent (resilience_put p i s) = rc_sent s"
  by (simp_all add: resilience_put_def)

text \<open>What a step does to the scanner: entries of the cache are written and requests are logged.\<close>

definition effect :: "(string \<Rightarrow> resilience_report option) \<Rightarrow> (string \<times> string) multiset \<Rightarrow> resilience_scanner \<Rightarrow> resilience_scanner" where
  "effect c ms s = s\<lparr>rc_cache := rc_cache s ++ c, rc_sent := rc_sent s + ms\<rparr>"

lemma effect_fields [simp]:
  "rc_cache (effect c ms s) = rc_cache s ++ c" "rc_infoBudget (effect c ms s) = rc_infoBudget s"
  "rc_scanBudget (effect c ms s) = rc_scanBudget s" "rc_sent (effect c ms s) = rc_sent s + ms"
  by (simp_all add: effect_def)

lemma effect_effect [simp]: "effect c ms (effect c' ms' s) = effect (c' ++ c) (ms' + ms) s"
  by (simp add: effect_def add.assoc)

lemma effect_none: "effect Map.empty {#} s = s"
  by (simp add: effect_def)

lemma put_effect: "resilience_put p i s = effect [p \<mapsto> i] {#} s"
  by (simp add: resilience_put_def effect_def)

lemma send_effect: "resilience_send a u s = effect Map.empty {#(a, u)#} s"
  by (simp add: resilience_send_def effect_def)

lemma sends_effect: "fold (\<lambda>x. resilience_send a (f x)) xs s = effect Map.empty (image_mset (\<lambda>x. (a, f x)) (mset xs)) s"
  by (induction xs arbitrary: s) (simp_all add: send_effect effect_none)

definition planned :: "resilience_world \<Rightarrow> string \<Rightarrow> resilience_report option \<Rightarrow> resilience_work" where
  "planned w p c =
     (case c of
        Some cached \<Rightarrow> finished_work p cached
      | None \<Rightarrow> if fetchVersionList w p = [] then finished_work p no_report else plan_of w p (fetchVersionList w p))"

definition plan_writes :: "resilience_world \<Rightarrow> string \<Rightarrow> resilience_report option \<Rightarrow> string \<Rightarrow> resilience_report option" where
  "plan_writes w p c = (if c = None \<and> fetchVersionList w p = [] then [p \<mapsto> no_report] else Map.empty)"

definition plan_requests :: "resilience_world \<Rightarrow> string \<Rightarrow> resilience_report option \<Rightarrow> (string \<times> string) multiset" where
  "plan_requests w p c = (if c = None then {#(''resilience:version-list'', version_list_url w p)#} else {#})"

lemma planModule_effect:
  "planModule w p s =
     (planned w p (rc_cache s p), effect (plan_writes w p (rc_cache s p)) (plan_requests w p (rc_cache s p)) s)"
  by (simp add: planModule_def planned_def plan_writes_def plan_requests_def Let_def put_effect send_effect effect_none
      split: option.split)

lemma plan_writes_other [simp]: "q \<noteq> p \<Longrightarrow> plan_writes w p c q = None"
  by (simp add: plan_writes_def)

lemma map_add_swap: "dom c \<subseteq> {p} \<Longrightarrow> dom d \<subseteq> {q} \<Longrightarrow> p \<noteq> q \<Longrightarrow> c ++ d = d ++ c"
  by (rule map_add_comm) auto

lemma plan_writes_dom: "dom (plan_writes w p c) \<subseteq> {p}"
  by (simp add: plan_writes_def)

lemma plan_step_alt:
  "plan_step w p (work, s) =
     (work(p \<mapsto> planned w p (rc_cache s p)), effect (plan_writes w p (rc_cache s p)) (plan_requests w p (rc_cache s p)) s)"
  by (simp add: plan_step_def planModule_effect)

interpretation planners: worker_pool "plan_step w" for w
proof
  fix p q :: string and x :: "works \<times> resilience_scanner"
  assume pq: "p \<noteq> q"
  obtain work s where x: "x = (work, s)" by (cases x)
  let ?cp = "rc_cache s p" and ?cq = "rc_cache s q"
  have "plan_writes w p ?cp ++ plan_writes w q ?cq = plan_writes w q ?cq ++ plan_writes w p ?cp"
    by (rule map_add_swap [OF plan_writes_dom plan_writes_dom pq])
  then show "plan_step w p (plan_step w q x) = plan_step w q (plan_step w p x)"
    using pq by (simp add: x plan_step_alt fun_upd_twist map_add_def [of "rc_cache s"] add.commute)
qed

text \<open>A finished module depends on its work and its grant only.\<close>

definition sampled :: "resilience_work \<Rightarrow> int \<Rightarrow> string list" where
  "sampled x granted = take (nat granted) (rw_sample x)"

definition finished :: "resilience_world \<Rightarrow> resilience_work \<Rightarrow> int \<Rightarrow> resilience_report" where
  "finished w x granted =
     (if rw_done x then rw_info x
      else let (dates, found) = fetchVersionTimes w (rw_modPath x) (sampled x granted) (rw_oldest x)
           in if dates = [] then no_report\<lparr>rr_Limited := True\<rparr> else measured w x dates found)"

definition date_log :: "resilience_world \<Rightarrow> resilience_work \<Rightarrow> int \<Rightarrow> (string \<times> string) multiset" where
  "date_log w x granted =
     (if rw_done x then {#}
      else image_mset (\<lambda>v. (''resilience:version-info'', version_info_url w (rw_modPath x) v)) (mset (sampled x granted)))"

definition governance_log :: "resilience_world \<Rightarrow> resilience_work \<Rightarrow> int \<Rightarrow> (string \<times> string) multiset" where
  "governance_log w x granted =
     (if rw_done x \<or> fst (fetchVersionTimes w (rw_modPath x) (sampled x granted) (rw_oldest x)) = [] then {#}
      else image_mset (\<lambda>u. (''resilience:governance'', u)) (mset (governance_urls (rw_modPath x))))"

definition finish_writes :: "resilience_world \<Rightarrow> resilience_work \<Rightarrow> int \<Rightarrow> string \<Rightarrow> resilience_report option" where
  "finish_writes w x granted = (if rw_done x then Map.empty else [rw_modPath x \<mapsto> finished w x granted])"

lemma sends_log: "fold (resilience_send a) xs s = effect Map.empty (image_mset (\<lambda>x. (a, x)) (mset xs)) s"
  using sends_effect [where f = "\<lambda>x. x"] by simp

lemma finishModule_effect:
  "finishModule w x granted s =
     (finished w x granted, effect (finish_writes w x granted) (date_log w x granted + governance_log w x granted) s)"
  by (simp add: finishModule_def finished_def date_log_def governance_log_def finish_writes_def sampled_def Let_def put_effect
      sends_effect sends_log effect_none split: prod.split)

lemma finish_step_alt:
  "finish_step w m work granted p (results, s) =
     (case work p of
        None \<Rightarrow> (results, s)
      | Some x \<Rightarrow>
          (results(p \<mapsto> scored_with m p (finished w x (granted p))),
           effect (finish_writes w x (granted p) ++ [p \<mapsto> scored_with m p (finished w x (granted p))])
             (date_log w x (granted p) + governance_log w x (granted p)) s))"
  by (simp add: finish_step_def finishModule_effect put_effect Let_def split: option.split)

text \<open>A work is kept under the path it is for.\<close>

definition filed :: "works \<Rightarrow> works" where
  "filed work = (\<lambda>p. map_option (\<lambda>x. x\<lparr>rw_modPath := p\<rparr>) (work p))"

lemma finish_writes_dom: "rw_modPath x = p \<Longrightarrow> dom (finish_writes w x g ++ [p \<mapsto> i]) \<subseteq> {p}"
  by (auto simp: finish_writes_def split: if_splits)

interpretation finishers: worker_pool "finish_step w m (filed work) granted" for w m work granted
proof
  fix p q :: string and x :: "(string \<Rightarrow> resilience_report option) \<times> resilience_scanner"
  assume pq: "p \<noteq> q"
  obtain results s where x: "x = (results, s)" by (cases x)
  let ?c = "\<lambda>p y. finish_writes w (y\<lparr>rw_modPath := p\<rparr>) (granted p) ++
    [p \<mapsto> scored_with m p (finished w (y\<lparr>rw_modPath := p\<rparr>) (granted p))]"
  have "?c p y ++ ?c q z = ?c q z ++ ?c p y" for y z
    by (rule map_add_swap [OF _ _ pq]) (rule finish_writes_dom, simp)+
  then show "finish_step w m (filed work) granted p (finish_step w m (filed work) granted q x) =
      finish_step w m (filed work) granted q (finish_step w m (filed work) granted p x)"
    using pq by (simp add: x finish_step_alt filed_def fun_upd_twist add.commute add.left_commute del: map_add_upd
        split: option.split)
qed

lemma planned_path [simp]: "rw_modPath (planned w p c) = p"
  by (simp add: planned_def finished_work_def plan_of_def split: option.split prod.split)

lemma planned_filed: "(planned w p c)\<lparr>rw_modPath := p\<rparr> = planned w p c"
  using planned_path [of w p c] by (cases "planned w p c") simp

lemma plan_filed: "fold (plan_step w) order (work, s) = (work', s') \<Longrightarrow> filed work = work \<Longrightarrow> filed work' = work'"
proof (induction order arbitrary: work s)
  case (Cons p order)
  have "filed (work(p \<mapsto> planned w p c)) = work(p \<mapsto> planned w p c)" for c
    using Cons.prems(2) by (rule_tac ext) (auto simp: filed_def planned_filed dest: fun_cong)
  note F = this
  have e: "fold (plan_step w) order (work(p \<mapsto> planned w p (rc_cache s p)),
      effect (plan_writes w p (rc_cache s p)) (plan_requests w p (rc_cache s p)) s) = (work', s')"
    using Cons.prems(1) by (simp add: plan_step_alt)
  show ?case by (rule Cons.IH [OF e F])
qed simp

text \<open>C33: The results of a scan, the cache it leaves, the budget that is left and the requests that were sent depend
  neither on the order in which the workers of a phase get their turn nor on the order of the map of dependencies.\<close>

theorem resilience_schedule_irrelevant:
  assumes "mset order1 = mset order1'" "mset order3 = mset order3'" "mset deps = mset deps'"
  shows "resilience_ScanAll w order1 order3 deps m s = resilience_ScanAll w order1' order3' deps' m s"
proof -
  let ?s = "s\<lparr>rc_infoBudget := rc_scanBudget s\<rparr>"
  have 1: "runBounded (plan_step w) order1 (Map.empty, ?s) = runBounded (plan_step w) order1' (Map.empty, ?s)"
    by (rule planners.schedule_irrelevant [OF assms(1)])
  obtain work s1 where 2: "runBounded (plan_step w) order1' (Map.empty, ?s) = (work, s1)" by fastforce
  then have "filed work = work"
    using plan_filed [of w order1' Map.empty ?s work s1] by (simp add: runBounded_def filed_def)
  then have "runBounded (finish_step w m work g) order3 x = runBounded (finish_step w m work g) order3' x" for g x
    using finishers.schedule_irrelevant [OF assms(2), of w m work] by simp
  then show ?thesis
    unfolding resilience_ScanAll_def Let_def 1 2 prod.case sort_strings_mset [OF assms(3)] by simp
qed

section \<open>The three phases\<close>

lemma plan_all:
  assumes "distinct order" "fold (plan_step w) order (Map.empty, s) = (work, s')"
  shows "work = (\<lambda>p. if p \<in> set order then Some (planned w p (rc_cache s p)) else None) \<and>
    rc_infoBudget s' = rc_infoBudget s \<and> rc_scanBudget s' = rc_scanBudget s \<and>
    (\<forall>p. p \<notin> set order \<longrightarrow> rc_cache s' p = rc_cache s p) \<and>
    rc_sent s' = rc_sent s + (\<Sum>p \<in># mset order. plan_requests w p (rc_cache s p))"
  using assms
proof (induction order arbitrary: work s' rule: rev_induct)
  case (snoc p order)
  obtain work0 s0 where 0: "fold (plan_step w) order (Map.empty, s) = (work0, s0)" by fastforce
  note IH = snoc.IH [OF _ 0]
  have c: "rc_cache s0 p = rc_cache s p" using IH snoc.prems(1) by simp
  have "work = work0(p \<mapsto> planned w p (rc_cache s p))"
    "s' = effect (plan_writes w p (rc_cache s p)) (plan_requests w p (rc_cache s p)) s0"
    using snoc.prems(2) by (simp_all add: 0 plan_step_alt c)
  then show ?case using IH snoc.prems(1) by (auto simp: map_add_def fun_eq_iff split: option.split)
qed (simp add: fun_eq_iff)

definition demand :: "works \<Rightarrow> string \<Rightarrow> nat" where
  "demand work p = (case work p of None \<Rightarrow> 0 | Some x \<Rightarrow> if rw_done x then 0 else length (rw_sample x))"

text \<open>Reserving touches the budget only.\<close>

definition grant_step :: "works \<Rightarrow> string \<Rightarrow> (string \<Rightarrow> int) \<times> int \<Rightarrow> (string \<Rightarrow> int) \<times> int" where
  "grant_step work p = (\<lambda>(g, b).
     case work p of
       None \<Rightarrow> (g, b)
     | Some x \<Rightarrow> if rw_done x then (g, b) else let n = max 0 (min (int (length (rw_sample x))) b) in (g(p := n), b - n))"

lemma reserve_step_grant:
  "reserve_step work p (g, s) =
     (fst (grant_step work p (g, rc_infoBudget s)), s\<lparr>rc_infoBudget := snd (grant_step work p (g, rc_infoBudget s))\<rparr>)"
  by (simp add: reserve_step_def grant_step_def reserveInfoRequests_def Let_def split: option.split)

lemma reserve_grants:
  "fold (reserve_step work) ps (g, s) =
     (fst (fold (grant_step work) ps (g, rc_infoBudget s)),
      s\<lparr>rc_infoBudget := snd (fold (grant_step work) ps (g, rc_infoBudget s))\<rparr>)"
  by (induction ps arbitrary: g s) (simp_all add: reserve_step_grant)

lemma grant_step_alt:
  "0 \<le> b \<Longrightarrow> g p = 0 \<Longrightarrow>
     grant_step work p (g, b) = (g(p := min (int (demand work p)) b), b - min (int (demand work p)) b)"
  by (auto simp: grant_step_def demand_def Let_def split: option.split)

lemma grant_all:
  assumes "distinct ps" "\<forall>p \<in> set ps. g p = 0" "0 \<le> b" "fold (grant_step work) ps (g, b) = (g', b')"
  shows "0 \<le> b' \<and> (\<Sum>p \<leftarrow> ps. g' p) = b - b' \<and> (\<forall>p. p \<notin> set ps \<longrightarrow> g' p = g p) \<and>
    (\<forall>p \<in> set ps. 0 \<le> g' p \<and> g' p \<le> int (demand work p))"
  using assms
proof (induction ps arbitrary: g b)
  case (Cons p ps)
  let ?n = "min (int (demand work p)) b"
  have e: "fold (grant_step work) ps (g(p := ?n), b - ?n) = (g', b')"
    using Cons.prems by (simp add: grant_step_alt)
  have IH: "0 \<le> b' \<and> (\<Sum>p \<leftarrow> ps. g' p) = b - ?n - b' \<and> (\<forall>q. q \<notin> set ps \<longrightarrow> g' q = (g(p := ?n)) q) \<and>
    (\<forall>p \<in> set ps. 0 \<le> g' p \<and> g' p \<le> int (demand work p))"
    using Cons.prems by (intro Cons.IH [OF _ _ _ e]) auto
  then have p: "g' p = ?n" using Cons.prems(1) by simp
  from IH p show ?case using Cons.prems(1,3) by auto
qed simp

lemma finish_all:
  assumes "distinct order" "\<forall>p \<in> set order. work p \<noteq> None" "fold (finish_step w m work g) order (results, s) = (results', s')"
  shows "results' = (\<lambda>p. if p \<in> set order then Some (scored_with m p (finished w (the (work p)) (g p))) else results p) \<and>
    rc_infoBudget s' = rc_infoBudget s \<and> rc_scanBudget s' = rc_scanBudget s \<and>
    rc_sent s' = rc_sent s + (\<Sum>p \<in># mset order. date_log w (the (work p)) (g p) + governance_log w (the (work p)) (g p))"
  using assms
proof (induction order arbitrary: results s)
  case (Cons p order)
  obtain x where x: "work p = Some x" using Cons.prems(2) by auto
  have e: "fold (finish_step w m work g) order (results(p \<mapsto> scored_with m p (finished w x (g p))),
      effect (finish_writes w x (g p) ++ [p \<mapsto> scored_with m p (finished w x (g p))])
        (date_log w x (g p) + governance_log w x (g p)) s) = (results', s')"
    using Cons.prems(3) by (simp add: finish_step_alt x del: map_add_upd)
  have new: "p \<notin> set order" "distinct order" "\<forall>p \<in> set order. work p \<noteq> None" using Cons.prems(1,2) by simp_all
  note IH = Cons.IH [OF new(2,3) e]
  have "results' = (\<lambda>q. if q \<in> set (p # order) then Some (scored_with m q (finished w (the (work q)) (g q))) else results q)"
    unfolding IH [THEN conjunct1] using new(1) by (intro ext) (simp add: x)
  moreover have "rc_sent s' = rc_sent s + (\<Sum>p \<in># mset (p # order). date_log w (the (work p)) (g p) + governance_log w (the (work p)) (g p))"
    unfolding IH [THEN conjunct2, THEN conjunct2, THEN conjunct2] by (simp add: x add.assoc)
  ultimately show ?case using IH by simp
qed simp

text \<open>A scan, read off its parts.\<close>

definition scan_work :: "resilience_world \<Rightarrow> string list \<Rightarrow> resilience_scanner \<Rightarrow> works" where
  "scan_work w deps s = (\<lambda>p. if p \<in> set deps then Some (planned w p (rc_cache s p)) else None)"

definition scan_grants :: "resilience_world \<Rightarrow> string list \<Rightarrow> resilience_scanner \<Rightarrow> (string \<Rightarrow> int) \<times> int" where
  "scan_grants w deps s = fold (grant_step (scan_work w deps s)) (sort_strings deps) (\<lambda>p. 0, rc_scanBudget s)"

definition scan_result :: "resilience_world \<Rightarrow> string list \<Rightarrow> owners \<Rightarrow> resilience_scanner \<Rightarrow> string \<Rightarrow> resilience_report" where
  "scan_result w deps m s p =
     scored_with m p (finished w (planned w p (rc_cache s p)) (fst (scan_grants w deps s) p))"

lemma scan_parts:
  assumes "distinct deps" "mset order1 = mset deps" "mset order3 = mset deps"
    "resilience_ScanAll w order1 order3 deps m s = (results, s')"
  shows "results = (\<lambda>p. if p \<in> set deps then Some (scan_result w deps m s p) else None) \<and>
    rc_infoBudget s' = snd (scan_grants w deps s) \<and>
    rc_sent s' = rc_sent s + (\<Sum>p \<in># mset deps. plan_requests w p (rc_cache s p)) +
      (\<Sum>p \<in># mset deps. date_log w (planned w p (rc_cache s p)) (fst (scan_grants w deps s) p) +
         governance_log w (planned w p (rc_cache s p)) (fst (scan_grants w deps s) p))"
proof -
  let ?s = "s\<lparr>rc_infoBudget := rc_scanBudget s\<rparr>"
  have e: "resilience_ScanAll w deps deps deps m s = (results, s')"
    using resilience_schedule_irrelevant [OF assms(2,3) refl] assms(4) by simp
  obtain work s1 where 1: "fold (plan_step w) deps (Map.empty, ?s) = (work, s1)" by fastforce
  note plan = plan_all [OF assms(1) 1]
  have work: "work = scan_work w deps s" using plan by (simp add: scan_work_def cong: if_cong)
  let ?g = "fst (scan_grants w deps s)" and ?s2 = "s1\<lparr>rc_infoBudget := snd (scan_grants w deps s)\<rparr>"
  have 2: "fold (reserve_step work) (sort_strings deps) (\<lambda>p. 0, s1) = (?g, ?s2)"
    using plan by (simp add: reserve_grants scan_grants_def work)
  have "\<forall>p \<in> set deps. work p \<noteq> None" by (simp add: work scan_work_def)
  moreover have "fold (finish_step w m work ?g) deps (Map.empty, ?s2) = (results, s')"
    using e by (simp add: resilience_ScanAll_def runBounded_def Let_def 1 2)
  ultimately have fin: "results = (\<lambda>p. if p \<in> set deps then Some (scored_with m p (finished w (the (work p)) (?g p))) else None) \<and>
      rc_infoBudget s' = rc_infoBudget ?s2 \<and> rc_scanBudget s' = rc_scanBudget ?s2 \<and>
      rc_sent s' = rc_sent ?s2 + (\<Sum>p \<in># mset deps. date_log w (the (work p)) (?g p) + governance_log w (the (work p)) (?g p))"
    by (rule finish_all [OF assms(1)])
  moreover have "(\<Sum>p \<in># mset deps. date_log w (the (work p)) (?g p) + governance_log w (the (work p)) (?g p)) =
      (\<Sum>p \<in># mset deps. date_log w (planned w p (rc_cache s p)) (?g p) + governance_log w (planned w p (rc_cache s p)) (?g p))"
    by (rule arg_cong [where f = sum_mset], rule image_mset_cong) (simp add: work scan_work_def)
  ultimately show ?thesis
    using plan by (simp add: scan_result_def work scan_work_def fun_eq_iff)
qed

section \<open>The budget\<close>

definition date_requests :: "(string \<times> string) multiset \<Rightarrow> nat" where
  "date_requests ms = size {#r \<in># ms. fst r = ''resilience:version-info''#}"

lemma date_requests_union [simp]: "date_requests (a + b) = date_requests a + date_requests b"
  by (simp add: date_requests_def)

lemma date_requests_sum: "date_requests (\<Sum>p \<in># mset ps. f p) = (\<Sum>p \<leftarrow> ps. date_requests (f p))"
  by (induction ps) (simp_all add: date_requests_def)

lemma filter_none: "(\<And>x. x \<in># ms \<Longrightarrow> \<not> P x) \<Longrightarrow> filter_mset P ms = {#}"
  by (rule filter_mset_eq_conv [THEN iffD2]) auto

lemma date_requests_other [simp]: "date_requests (plan_requests w p c) = 0" "date_requests (governance_log w x g) = 0"
  by (auto simp: date_requests_def plan_requests_def governance_log_def filter_none)

lemma date_requests_dates: "date_requests (date_log w x g) = (if rw_done x then 0 else min (nat g) (length (rw_sample x)))"
  by (simp add: date_log_def date_requests_def sampled_def filter_mset_image_mset min.commute)

lemma sampleVersions_length: "length (fst (sampleVersions w vs limit)) \<le> max 2 limit"
  by (auto simp: sampleVersions_def Let_def)

lemma planned_demand: "length (rw_sample (planned w p c)) \<le> 24"
  using sampleVersions_length [of w "fetchVersionList w p" maxResilienceVersionSamples]
  by (auto simp: planned_def finished_work_def plan_of_def maxResilienceVersionSamples_def split: option.split prod.split)

text \<open>C34: A scan sends exactly as many date requests as it takes from its budget, which never becomes negative: at most
  the budget of a scan, and at most 24 for a module.\<close>

theorem resilience_requests_bounded:
  assumes "distinct deps" "mset order1 = mset deps" "mset order3 = mset deps" "0 \<le> rc_scanBudget s"
    "resilience_ScanAll w order1 order3 deps m s = (results, s')"
  shows "0 \<le> rc_infoBudget s' \<and>
    int (date_requests (rc_sent s')) - int (date_requests (rc_sent s)) = rc_scanBudget s - rc_infoBudget s' \<and>
    date_requests (rc_sent s') \<le> date_requests (rc_sent s) + 24 * length deps"
proof -
  obtain g b where gb: "scan_grants w deps s = (g, b)" by fastforce
  note parts = scan_parts [OF assms(1-3,5), unfolded gb fst_conv snd_conv]
  have "distinct (sort_strings deps)" using assms(1) by (simp add: sort_strings_def)
  from grant_all [OF this _ assms(4) gb [unfolded scan_grants_def]]
  have g: "0 \<le> b" "(\<Sum>p \<leftarrow> sort_strings deps. g p) = rc_scanBudget s - b"
    "\<And>p. p \<in> set deps \<Longrightarrow> 0 \<le> g p \<and> g p \<le> int (demand (scan_work w deps s) p)"
    by auto
  let ?d = "\<lambda>p. date_requests (date_log w (planned w p (rc_cache s p)) (g p))"
  have d: "int (?d p) = g p" if "p \<in> set deps" for p
    using g(3) [OF that] that by (auto simp: date_requests_dates demand_def scan_work_def)
  have d24: "?d p \<le> 24" for p
    using planned_demand [of w p "rc_cache s p"] by (simp add: date_requests_dates min_le_iff_disj)
  have sent: "date_requests (rc_sent s') = date_requests (rc_sent s) + (\<Sum>p \<leftarrow> deps. ?d p)"
    using parts by (simp add: date_requests_sum)
  have "mset (sort_strings deps) = mset deps" by (simp add: sort_strings_def)
  then have "(\<Sum>p \<leftarrow> deps. g p) = rc_scanBudget s - b"
    using g(2) by (metis mset_map sum_mset_sum_list)
  moreover have "int (\<Sum>p \<leftarrow> deps. ?d p) = (\<Sum>p \<leftarrow> deps. g p)"
    using d by (induction deps) auto
  moreover have "(\<Sum>p \<leftarrow> deps. ?d p) \<le> 24 * length deps"
    using d24 by (induction deps) (auto intro: add_le_mono)
  ultimately show ?thesis using sent parts g(1) by auto
qed

section \<open>Who is served\<close>

lemma sorted_prefix:
  assumes "distinct deps" "p \<in> set deps"
  obtains a b where "sort_strings deps = a @ p # b" "set a = {q \<in> set deps. q < p}" "sorted a" "distinct a" "p \<notin> set b"
proof -
  have "p \<in> set (sort_strings deps)" using assms(2) by simp
  then obtain a b where ab: "sort_strings deps = a @ p # b" by (meson split_list)
  have s: "sorted (a @ p # b)" using sorted_sort_strings [of deps] ab by simp
  have d: "distinct (a @ p # b)" using assms(1) ab by (metis distinct_sort_by sort_strings_def)
  have all: "set deps = set a \<union> {p} \<union> set b" using ab by (metis Un_insert_right list.simps(15) set_append set_sort_strings sup_bot_right sup_commute sup_left_commute insert_is_Un)
  have below: "q < p" if "q \<in> set a" for q using s d that by (auto simp: sorted_append order.strict_iff_order)
  have above: "\<not> q < p" if "q \<in> set b" for q using s that by (auto simp: sorted_append)
  have "set a = {q \<in> set deps. q < p}" unfolding all using below above by auto
  then show ?thesis using that ab s d by (auto simp: sorted_append)
qed

lemma grant_untouched: "p \<notin> set ps \<Longrightarrow> fst (fold (grant_step work) ps x) p = fst x p"
proof (induction ps arbitrary: x)
  case (Cons q ps)
  have "fst (grant_step work q x) p = fst x p"
    using Cons.prems by (auto simp: grant_step_def Let_def split: option.splits prod.split)
  then show ?case using Cons by simp
qed simp

lemma grant_same_works:
  "(\<And>q. q \<in> set ps \<Longrightarrow> work q = work' q) \<Longrightarrow> fold (grant_step work) ps x = fold (grant_step work') ps x"
  by (rule List.fold_cong) (auto simp: grant_step_def split: option.split)

text \<open>When the budget is short, modules are served in the order of their paths: what a module gets depends on the
  modules with smaller paths only.\<close>

theorem resilience_earlier_paths_first:
  assumes "distinct deps" "mset order1 = mset deps" "mset order3 = mset deps"
    "distinct deps'" "mset order1' = mset deps'" "mset order3' = mset deps'"
    "p \<in> set deps" "p \<in> set deps'" "{q \<in> set deps. q < p} = {q \<in> set deps'. q < p}"
  shows "fst (resilience_ScanAll w order1 order3 deps m s) p = fst (resilience_ScanAll w order1' order3' deps' m s) p"
proof -
  obtain a b where ab: "sort_strings deps = a @ p # b" "set a = {q \<in> set deps. q < p}" "sorted a" "distinct a" "p \<notin> set b"
    using sorted_prefix [OF assms(1,7)] .
  obtain a' b' where ab': "sort_strings deps' = a' @ p # b'" "set a' = {q \<in> set deps'. q < p}" "sorted a'" "distinct a'" "p \<notin> set b'"
    using sorted_prefix [OF assms(4,8)] .
  have a: "a' = a" using ab(2-4) ab'(2-4) assms(9) by (metis sorted_distinct_set_unique)
  have cut: "fst (scan_grants w ds s) p = fst (fold (grant_step (scan_work w ds s)) (a @ [p]) (\<lambda>p. 0, rc_scanBudget s)) p"
    if "sort_strings ds = a @ p # c" "p \<notin> set c" for ds c
    using that by (simp add: scan_grants_def grant_untouched)
  have "scan_work w deps s q = scan_work w deps' s q" if "q \<in> set (a @ [p])" for q
    using that ab(2) ab'(2) a assms(7,8) by (auto simp: scan_work_def)
  then have "fst (scan_grants w deps s) p = fst (scan_grants w deps' s) p"
    using cut [OF ab(1,5)] cut [OF ab'(1) [unfolded a] ab'(5)] grant_same_works by metis
  then have "scan_result w deps m s p = scan_result w deps' m s p" by (simp add: scan_result_def)
  moreover obtain r t where r: "resilience_ScanAll w order1 order3 deps m s = (r, t)" by fastforce
  moreover obtain r' t' where r': "resilience_ScanAll w order1' order3' deps' m s = (r', t')" by fastforce
  ultimately show ?thesis
    using scan_parts [OF assms(1-3) r] scan_parts [OF assms(4-6) r'] assms(7,8) by simp
qed

section \<open>Dates\<close>

interpretation date_order: weak_order Before
  by unfold_locales (auto simp: Before_def)

lemma sort_by_last: "ds \<noteq> [] \<Longrightarrow> t \<in> set ds \<Longrightarrow> \<not> Before (last (sort_by Before ds)) t"
proof -
  assume "ds \<noteq> []" "t \<in> set ds"
  then have "sort_by Before ds \<noteq> []" "t \<in> set (sort_by Before ds)" by simp_all
  then obtain front z where z: "sort_by Before ds = front @ [z]" "t \<in> set front \<or> t = z"
    by (metis append_butlast_last_id in_set_conv_decomp rotate1.simps(2) set_ConsD set_rotate1)
  then show ?thesis
    using date_order.sorted_sort_by [of ds] date_order.irrefl by (auto simp: sorted_wrt_append)
qed

lemma fetched: "fst (fetchVersionTimes w p vs oldest) = filter (\<lambda>t. \<not> IsZero t) (map (fetchVersionTime w p) vs)"
  by (simp add: fetchVersionTimes_def Let_def filter_map o_def)

lemma fetched_dates: "t \<in> set (fst (fetchVersionTimes w p vs oldest)) \<longleftrightarrow> \<not> IsZero t \<and> (\<exists>v \<in> set vs. t = fetchVersionTime w p v)"
  by (auto simp: fetched)

lemma fetched_length: "length (fst (fetchVersionTimes w p vs oldest)) = length (filter (\<lambda>v. \<not> IsZero (fetchVersionTime w p v)) vs)"
  by (simp add: fetched filter_map o_def)

lemma sampleVersions_mset: "mset (fst (sampleVersions w vs limit)) = mset vs" if "length vs \<le> limit"
  using that by (simp add: sampleVersions_def Let_def)

lemma sampleVersions_set: "set (fst (sampleVersions w vs limit)) \<subseteq> set vs"
proof -
  define os where "os = rev (sort_by (older w) vs)"
  have o: "set os = set vs" by (simp add: os_def)
  show ?thesis
  proof (cases "length os \<le> limit")
    case True
    then show ?thesis by (simp add: sampleVersions_def Let_def flip: os_def) (simp add: o)
  next
    case False
    then have "os ! 0 \<in> set os" "os ! (length os - 1) \<in> set os" by (auto intro!: nth_mem)
    moreover have "set (drop 1 (take (limit - 1) os)) \<subseteq> set os" by (auto dest: in_set_dropD in_set_takeD)
    ultimately show ?thesis
      using False by (simp add: sampleVersions_def Let_def o flip: os_def)
  qed
qed

lemma measured_fields:
  assumes "rw_flags x = version_flags vs" "dates \<noteq> []"
  shows "rs_DataAvailable (measured w x dates found)"
    "rr_FirstReleaseDate (measured w x dates found) = hd (sort_by Before dates)"
    "rr_LastReleaseDate (measured w x dates found) = last (sort_by Before dates)"
    "rr_Limited (measured w x dates found) \<longleftrightarrow> length dates < length (rw_versions x)"
  using assms by (simp_all add: measured_def release_dates_def checkGovernanceFiles_def version_flags_def no_report_def Let_def
      split: prod.split)

lemma scored_with_fields [simp]:
  "rs_DataAvailable (scored_with m p i) = rs_DataAvailable i" "rr_Limited (scored_with m p i) = rr_Limited i"
  "rr_FirstReleaseDate (scored_with m p i) = rr_FirstReleaseDate i" "rr_LastReleaseDate (scored_with m p i) = rr_LastReleaseDate i"
  by (simp_all add: scored_with_def Let_def split: option.split)

lemma scored_with_Score: "\<exists>j. rs_Score (scored_with m p i) = computeResilienceScore j"
  by (simp add: scored_with_def Let_def) blast

lemma computeResilienceScore_range: "0 \<le> computeResilienceScore i \<and> computeResilienceScore i \<le> 100"
  by (simp add: computeResilienceScore_def cadence_points_def age_points_def release_points_def scheme_points_def Let_def)

text \<open>What a report says of the dates of a module, against what the proxy said.\<close>

definition backed_by :: "resilience_world \<Rightarrow> string \<Rightarrow> resilience_report \<Rightarrow> bool" where
  "backed_by w p i =
     (let said = (\<lambda>t. list_ex (\<lambda>v. t = fetchVersionTime w p v) (fetchVersionList w p) \<and> \<not> IsZero t);
          first = rr_FirstReleaseDate i; latest = rr_LastReleaseDate i
      in said first \<and> said latest \<and> \<not> Before latest first \<and>
         (rr_Limited i \<or> list_all (\<lambda>v. let t = fetchVersionTime w p v in \<not> IsZero t \<and> \<not> Before t first \<and> \<not> Before latest t)
            (fetchVersionList w p)))"

lemma finished_backed:
  assumes "rs_DataAvailable (finished w (planned w p None) g)"
  shows "backed_by w p (finished w (planned w p None) g)"
proof -
  let ?vs = "fetchVersionList w p"
  have vs: "?vs \<noteq> []"
    using assms by (auto simp: planned_def finished_def finished_work_def no_report_def)
  let ?x = "plan_of w p ?vs"
  let ?sample = "sampled ?x g"
  let ?got = "fetchVersionTimes w p ?sample (rw_oldest ?x)"
  have x: "rw_flags ?x = version_flags ?vs" "rw_versions ?x = ?vs" "rw_modPath ?x = p" "\<not> rw_done ?x"
    "rw_sample ?x = fst (sampleVersions w ?vs maxResilienceVersionSamples)"
    by (simp_all add: plan_of_def split: prod.split)
  have fin: "finished w (planned w p None) g = (if fst ?got = [] then no_report\<lparr>rr_Limited := True\<rparr> else measured w ?x (fst ?got) (snd ?got))"
    using vs x(3,4) by (simp add: planned_def finished_def split: prod.split)
  then have got: "fst ?got \<noteq> []" using assms by (auto simp: no_report_def)
  note f = measured_fields [OF x(1) got, of w "snd ?got"]
  have sub: "set ?sample \<subseteq> set ?vs"
    using sampleVersions_set [of w ?vs] by (auto simp: sampled_def x(5) dest: in_set_takeD)
  have said: "list_ex (\<lambda>v. t = fetchVersionTime w p v) ?vs \<and> \<not> IsZero t" if "t \<in> set (fst ?got)" for t
    using that sub by (auto simp: fetched_dates list_ex_iff)
  have ends: "hd (sort_by Before (fst ?got)) \<in> set (fst ?got)" "last (sort_by Before (fst ?got)) \<in> set (fst ?got)"
    using got by (metis hd_in_set set_sort_by sort_by_Nil_iff) (metis got last_in_set set_sort_by sort_by_Nil_iff)
  have "t \<in> set (fst ?got)" if full: "\<not> length (fst ?got) < length ?vs" and v: "v \<in> set ?vs" "t = fetchVersionTime w p v" for v t
  proof -
    have "length (fst ?got) \<le> length ?sample" by (simp add: fetched_length)
    then have s: "length ?vs \<le> length ?sample" using full by simp
    then have "length ?vs \<le> 24"
      using sampleVersions_length [of w ?vs maxResilienceVersionSamples] by (simp add: sampled_def x(5) maxResilienceVersionSamples_def)
    then have m: "mset (rw_sample ?x) = mset ?vs" using sampleVersions_mset x(5) by (simp add: maxResilienceVersionSamples_def)
    then have "length (rw_sample ?x) = length ?vs" by (metis size_mset)
    then have same: "?sample = rw_sample ?x" using s by (simp add: sampled_def)
    have "set (rw_sample ?x) = set ?vs" using m by (rule mset_eq_setD)
    then have v': "v \<in> set ?sample" using v(1) same by simp
    have "length ?sample \<le> length (filter (\<lambda>v. \<not> IsZero (fetchVersionTime w p v)) ?sample)"
      using full m same by (metis fetched_length not_less size_mset)
    then have "\<not> IsZero (fetchVersionTime w p v)"
      using v' length_filter_less [of v ?sample "\<lambda>v. \<not> IsZero (fetchVersionTime w p v)"] by linarith
    then show ?thesis using v(2) v' by (auto simp: fetched_dates)
  qed
  note all = this
  define t1 where "t1 = hd (sort_by Before (fst ?got))"
  define t2 where "t2 = last (sort_by Before (fst ?got))"
  let ?i = "measured w ?x (fst ?got) (snd ?got)"
  have i: "finished w (planned w p None) g = ?i" "rr_FirstReleaseDate ?i = t1" "rr_LastReleaseDate ?i = t2"
    "rr_Limited ?i \<longleftrightarrow> length (fst ?got) < length ?vs"
    using fin got f(2-4) x(2) by (simp_all add: t1_def t2_def)
  have "\<not> IsZero t \<and> \<not> Before t t1 \<and> \<not> Before t2 t" if "t \<in> set (fst ?got)" for t
    using that date_order.sort_by_hd [OF got that] sort_by_last [OF got that] unfolding t1_def t2_def fetched_dates by blast
  then have "rr_Limited ?i \<or> list_all (\<lambda>v. let t = fetchVersionTime w p v in \<not> IsZero t \<and> \<not> Before t t1 \<and> \<not> Before t2 t) ?vs"
    using all i(4) by (auto simp: list_all_iff Let_def)
  moreover have "\<not> Before t2 t1" using sort_by_last [OF got ends(1)] unfolding t1_def t2_def .
  ultimately show ?thesis
    using said [OF ends(1)] said [OF ends(2)] unfolding backed_by_def i Let_def t1_def t2_def by blast
qed

lemma backed_by_scored [simp]: "backed_by w p (scored_with m p i) = backed_by w p i"
  by (simp add: backed_by_def)

text \<open>C35: A scan with an empty cache scores every module between 0 and 100. A report that claims data has dates that the
  proxy gave, in order, and covers all releases unless it says that it is limited; one without data costs the
  module no points.\<close>

theorem resilience_dates_are_read:
  assumes "distinct deps" "mset order1 = mset deps" "mset order3 = mset deps" "rc_cache s = Map.empty"
    "fst (resilience_ScanAll w order1 order3 deps m s) p = Some i"
  shows "0 \<le> rs_Score i \<and> rs_Score i \<le> 100 \<and>
    (if rs_DataAvailable i then backed_by w p i else resilience_bonus (Some (resilience_info.truncate i)) = 0)"
proof -
  obtain r t where r: "resilience_ScanAll w order1 order3 deps m s = (r, t)" by fastforce
  have "i = scan_result w deps m s p"
    using scan_parts [OF assms(1-3) r] assms(5) r by (simp split: if_splits)
  then have i: "i = scored_with m p (finished w (planned w p None) (fst (scan_grants w deps s) p))"
    by (simp add: scan_result_def assms(4))
  have "backed_by w p i" if "rs_DataAvailable i"
    using finished_backed that unfolding i by simp
  moreover have "0 \<le> rs_Score i \<and> rs_Score i \<le> 100"
    using scored_with_Score computeResilienceScore_range unfolding i by metis
  moreover have "resilience_bonus (Some (resilience_info.truncate i)) = 0" if "\<not> rs_DataAvailable i"
    using that by (simp add: resilience_bonus_def low_resilience_def resilience_info.defs)
  ultimately show ?thesis by simp
qed

text \<open>The field comments say that without data every number is zero; the score is not.\<close>

theorem unavailable_is_scored:
  "map_option (\<lambda>i. (rs_DataAvailable i, rs_Score i))
     (fst (resilience_ScanAll (w\<lparr>re_get := (\<lambda>url. None)\<rparr>) [p] [p] [p] Map.empty NewResilienceScanner) p) = Some (False, 7)"
proof -
  let ?w = "w\<lparr>re_get := (\<lambda>url. None)\<rparr>" and ?s = NewResilienceScanner
  obtain r t where r: "resilience_ScanAll ?w [p] [p] [p] Map.empty ?s = (r, t)" by fastforce
  have "planned ?w p None = finished_work p no_report" by (simp add: planned_def fetchVersionList_def)
  then have "scan_result ?w [p] Map.empty ?s p = scored_with Map.empty p no_report"
    by (simp add: scan_result_def NewResilienceScanner_def finished_def finished_work_def)
  then show ?thesis
    using scan_parts [OF _ _ _ r]
    by (simp add: r scored_with_def computeResilienceScore_def no_report_def cadence_points_def age_points_def
        release_points_def scheme_points_def)
qed

section \<open>Witnesses\<close>

definition ex_proxy :: resilience_world where
  "ex_proxy = \<lparr>
     re_get = map_of
       [(''p/a/@v/list'', (200, ''v1.0.0'' @ [CHR 0x0A] @ ''v1.1.0'')),
        (''p/a/@v/v1.0.0.info'', (200, ''old'')), (''p/a/@v/v1.1.0.info'', (200, ''new'')),
        (''p/b/@v/list'', (200, ''v0.1.0'')), (''p/b/@v/v0.1.0.info'', (200, ''new''))],
     re_head = (\<lambda>_. None),
     re_time = map_of [(''old'', date_utc 2020 1 1), (''new'', date_utc 2024 1 1)],
     re_compare = (\<lambda>a b. 0), re_proxyURL = ''p'', re_ScanStart = date_utc 2024 6 1\<rparr>"

definition ex_short :: resilience_scanner where
  "ex_short = NewResilienceScanner\<lparr>rc_scanBudget := 2\<rparr>"

theorem resilience_schedule_irrelevant_witness:
  "resilience_ScanAll ex_proxy [''a'', ''b''] [''a'', ''b''] [''a'', ''b''] Map.empty ex_short =
   resilience_ScanAll ex_proxy [''b'', ''a''] [''b'', ''a''] [''b'', ''a''] Map.empty ex_short"
  by (rule resilience_schedule_irrelevant) simp_all

theorem resilience_requests_bounded_witness:
  "let s' = snd (resilience_ScanAll ex_proxy [''b'', ''a''] [''b'', ''a''] [''a'', ''b''] Map.empty ex_short)
   in 0 \<le> rc_infoBudget s' \<and> int (date_requests (rc_sent s')) - int (date_requests (rc_sent ex_short)) = 2 - rc_infoBudget s' \<and>
      date_requests (rc_sent s') \<le> date_requests (rc_sent ex_short) + 24 * length [''a'', ''b'']"
proof -
  have b: "rc_scanBudget ex_short = 2" by (simp add: ex_short_def)
  show ?thesis
    unfolding Let_def b [symmetric]
    by (rule resilience_requests_bounded [OF _ _ _ _ prod.collapse [symmetric]]) (simp_all add: b)
qed

theorem resilience_earlier_paths_first_witness:
  "fst (resilience_ScanAll ex_proxy [''a''] [''a''] [''a''] Map.empty ex_short) ''a'' =
   fst (resilience_ScanAll ex_proxy [''b'', ''a''] [''b'', ''a''] [''a'', ''b''] Map.empty ex_short) ''a''"
  by (rule resilience_earlier_paths_first) auto

theorem resilience_dates_are_read_witness:
  "let i = the (fst (resilience_ScanAll ex_proxy [''a''] [''a''] [''a''] Map.empty NewResilienceScanner) ''a'')
   in rs_DataAvailable i \<and> 0 \<le> rs_Score i \<and> rs_Score i \<le> 100 \<and> backed_by ex_proxy ''a'' i"
proof -
  let ?r = "fst (resilience_ScanAll ex_proxy [''a''] [''a''] [''a''] Map.empty NewResilienceScanner) ''a''"
  have "?r \<noteq> None \<and> rs_DataAvailable (the ?r)" by code_simp
  then have r: "?r = Some (the ?r)" "rs_DataAvailable (the ?r)" by auto
  show ?thesis
    using resilience_dates_are_read [OF _ _ _ _ r(1)] r(2) by (simp add: NewResilienceScanner_def Let_def)
qed

end
