(* ===== verification/Http_Client.thy ===== *)
theory Http_Client
  imports Scanner_Data Go_Text
begin

text \<open>
  \<open>pkg/scanner/httpclient.go\<close> and \<open>pkg/offline/offline.go\<close>: the client every scanner sends its requests with, and the
  switch that refuses them. What leaves the process is collected in a multiset. The network is an argument: how a
  URL is parsed and what answers a request; a failure is the kind of it, without the text.
\<close>

section \<open>The network\<close>

record parsed_url =
  pu_Scheme :: string
  pu_HasUser :: bool
  pu_Host :: string
  pu_Path :: string
  pu_String :: string

record wire_request =
  wq_Method :: string
  wq_URL :: string
  wq_Host :: string
  wq_Headers :: "(string \<times> string) list"
  wq_Body :: string

record http_answer =
  ha_Status :: int
  ha_Header :: "string \<Rightarrow> string"
  ha_Body :: string

datatype http_error = HostRequired | BadURL | PinMismatch | ErrOffline | TransportFailed

record network =
  nt_parse :: "string \<Rightarrow> parsed_url option"
  nt_offline :: bool
  nt_answer :: "wire_request \<Rightarrow> http_answer option"

section \<open>Hosts\<close>

text \<open>\<open>net.SplitHostPort\<close>: the host in front of the last colon, out of its brackets.\<close>

definition after_last :: "char \<Rightarrow> string \<Rightarrow> string" where
  "after_last c s = rev (takeWhile (\<lambda>x. x \<noteq> c) (rev s))"

definition before_last :: "char \<Rightarrow> string \<Rightarrow> string" where
  "before_last c s = take (length s - length (after_last c s) - 1) s"

definition SplitHostPort :: "string \<Rightarrow> (string \<times> string) option" where
  "SplitHostPort hp =
     (if CHR '':'' \<notin> set hp then None
      else let i = length (before_last (CHR '':'') hp); port = after_last (CHR '':'') hp
      in if hp ! 0 = CHR ''['' then
           (if CHR '']'' \<notin> set hp then None
            else let e = length (takeWhile (\<lambda>c. c \<noteq> CHR '']'') hp)
              in if e + 1 \<noteq> i then None
                 else if CHR ''['' \<in> set (drop 1 hp) \<or> CHR '']'' \<in> set (drop (e + 1) hp) then None
                 else Some (drop 1 (take e hp), port))
         else let host = take i hp
              in if CHR '':'' \<in> set host \<or> CHR ''['' \<in> set hp \<or> CHR '']'' \<in> set hp then None else Some (host, port))"

definition stripPort :: "string \<Rightarrow> string" where
  "stripPort host =
     (if host = '''' then host
      else case SplitHostPort host of
          Some (h, p) \<Rightarrow> h
        | None \<Rightarrow>
            if length host \<ge> 2 \<and> host ! 0 = CHR ''['' \<and> last host = CHR '']'' then drop 1 (butlast host) else host)"

definition hostMatches :: "string \<Rightarrow> string \<Rightarrow> bool" where
  "hostMatches actual expected = EqualFold (stripPort actual) (stripPort expected)"

section \<open>The client\<close>

definition DefaultMaxBytes :: int where "DefaultMaxBytes = 512 * 1024"

record get_options =
  op_Host :: string
  op_MaxBytes :: int
  op_AuthHeader :: string
  op_APIKeyHeader :: string
  op_APIKey :: string
  op_Accept :: string
  op_Purpose :: string

definition no_options :: get_options where
  "no_options = \<lparr>op_Host = '''', op_MaxBytes = 0, op_AuthHeader = '''', op_APIKeyHeader = '''', op_APIKey = '''', op_Accept = '''',
     op_Purpose = ''''\<rparr>"

type_synonym sent = "wire_request multiset"

text \<open>The gate in front of the transport: the host first, then the credentials.\<close>

definition RoundTrip :: "network \<Rightarrow> get_options \<Rightarrow> wire_request \<Rightarrow> (http_error + http_answer) \<times> sent" where
  "RoundTrip nt opts req =
     (if op_Host opts = '''' then (Inl HostRequired, {#})
      else if \<not> hostMatches (wq_Host req) (op_Host opts) then (Inl PinMismatch, {#})
      else let auth = (if op_AuthHeader opts \<noteq> '''' then [(''Authorization'', op_AuthHeader opts)] else []);
               key = (if op_APIKeyHeader opts \<noteq> '''' \<and> op_APIKey opts \<noteq> '''' then [(op_APIKeyHeader opts, op_APIKey opts)] else []);
               req = req\<lparr>wq_Headers := wq_Headers req @ auth @ key\<rparr>
           in if nt_offline nt then (Inl ErrOffline, {#})
              else (case nt_answer nt req of None \<Rightarrow> Inl TransportFailed | Some a \<Rightarrow> Inr a, {#req#}))"

text \<open>A request with its redirects refused: the answer to it is the answer.\<close>

definition client_do ::
  "network \<Rightarrow> get_options \<Rightarrow> string \<Rightarrow> string \<Rightarrow> (string \<times> string) list \<Rightarrow> string \<Rightarrow> (http_error + http_answer) \<times> sent" where
  "client_do nt opts verb url headers body =
     (if op_Host opts = '''' then (Inl HostRequired, {#})
      else case nt_parse nt url of
          None \<Rightarrow> (Inl BadURL, {#})
        | Some u \<Rightarrow>
            RoundTrip nt opts \<lparr>wq_Method = verb, wq_URL = url, wq_Host = pu_Host u,
              wq_Headers = headers @ (if op_Accept opts \<noteq> '''' then [(''Accept'', op_Accept opts)] else []), wq_Body = body\<rparr>)"

definition cap_body :: "get_options \<Rightarrow> http_error + http_answer \<Rightarrow> http_error + http_answer" where
  "cap_body opts r =
     (let n = nat (if op_MaxBytes opts \<le> 0 then DefaultMaxBytes else op_MaxBytes opts)
      in case r of Inl e \<Rightarrow> Inl e | Inr a \<Rightarrow> Inr (a\<lparr>ha_Body := take n (ha_Body a)\<rparr>))"

text \<open>An answer below the limit is not cut.\<close>

lemma cap_body_code [code]:
  "cap_body opts r =
     (let n = (if op_MaxBytes opts \<le> 0 then DefaultMaxBytes else op_MaxBytes opts)
      in case r of
           Inl e \<Rightarrow> Inl e
         | Inr a \<Rightarrow> Inr (if int (length (ha_Body a)) \<le> n then a else a\<lparr>ha_Body := take (nat n) (ha_Body a)\<rparr>))"
  by (auto simp: cap_body_def Let_def split: sum.split)

definition client_Get :: "network \<Rightarrow> string \<Rightarrow> get_options \<Rightarrow> (http_error + http_answer) \<times> sent" where
  "client_Get nt url opts = (let (r, sent) = client_do nt opts ''GET'' url [] '''' in (cap_body opts r, sent))"

definition client_Post :: "network \<Rightarrow> string \<Rightarrow> string \<Rightarrow> string \<Rightarrow> get_options \<Rightarrow> (http_error + http_answer) \<times> sent" where
  "client_Post nt url contentType body opts =
     (let headers = (if contentType \<noteq> '''' then [(''Content-Type'', contentType)] else []);
          (r, sent) = client_do nt opts ''POST'' url headers body
      in (cap_body opts r, sent))"

definition client_Head :: "network \<Rightarrow> string \<Rightarrow> get_options \<Rightarrow> (http_error + int) \<times> sent" where
  "client_Head nt url opts =
     (let (r, sent) = client_do nt opts ''HEAD'' url [] ''''
      in (case r of Inl e \<Rightarrow> Inl e | Inr a \<Rightarrow> Inr (ha_Status a), sent))"

definition proxyHost :: "network \<Rightarrow> string \<Rightarrow> string" where
  "proxyHost nt proxyURL = (case nt_parse nt proxyURL of Some u \<Rightarrow> pu_Host u | None \<Rightarrow> '''')"

section \<open>The environment of a subprocess\<close>

text \<open>An environment is a list of \<open>NAME=value\<close> entries, the last one of a name counts.\<close>

definition goEnv :: "string list" where
  "goEnv = [''GOPROXY=off'', ''GOFLAGS=-mod=mod'', ''GOPRIVATE='', ''GONOPROXY='', ''GONOSUMDB='', ''GOSUMDB=off'']"

definition offline_Env :: "bool \<Rightarrow> string list \<Rightarrow> string list option" where
  "offline_Env enabled base = (if \<not> enabled then None else Some (base @ goEnv))"

definition getenv :: "string \<Rightarrow> string list \<Rightarrow> string option" where
  "getenv name entries =
     (case filter (\<lambda>e. HasPrefix e (name @ ''='')) entries of
        [] \<Rightarrow> None
      | es \<Rightarrow> Some (TrimPrefix (last es) (name @ ''='')))"

section \<open>What leaves the process\<close>

text \<open>A request carries a credential only to the host it is meant for.\<close>

definition pinned_to :: "string \<Rightarrow> wire_request \<Rightarrow> bool" where
  "pinned_to host req = hostMatches (wq_Host req) host"

lemma RoundTrip_pinned: "RoundTrip nt opts req = (r, sent) \<Longrightarrow> \<forall>q \<in># sent. pinned_to (op_Host opts) q"
  by (auto simp: RoundTrip_def Let_def pinned_to_def split: if_splits)

lemma client_do_pinned: "client_do nt opts v url hs b = (r, sent) \<Longrightarrow> \<forall>q \<in># sent. pinned_to (op_Host opts) q"
  by (auto simp: client_do_def split: if_splits option.splits dest: RoundTrip_pinned)

lemma client_Get_pinned: "client_Get nt url opts = (r, sent) \<Longrightarrow> \<forall>q \<in># sent. pinned_to (op_Host opts) q"
  by (auto simp: client_Get_def split: prod.splits dest: client_do_pinned)

lemma client_do_offline: "nt_offline nt \<Longrightarrow> snd (client_do nt opts v url hs b) = {#}"
  by (simp add: client_do_def RoundTrip_def Let_def split: option.split)

lemma client_Get_offline: "nt_offline nt \<Longrightarrow> snd (client_Get nt url opts) = {#}"
  using client_do_offline by (simp add: client_Get_def split: prod.split) (metis snd_conv)

lemma client_Get_body: "client_Get nt url opts = (Inr a, sent) \<Longrightarrow> op_MaxBytes opts > 0 \<Longrightarrow> length (ha_Body a) \<le> nat (op_MaxBytes opts)"
  by (auto simp: client_Get_def cap_body_def Let_def split: prod.splits sum.splits)

end
