(* ===== verification/Disk_Cache.thy ===== *)
theory Disk_Cache
  imports Go_Time
begin

text \<open>
  \<open>pkg/scanner/maintainer_cache.go\<close>: answers kept on disk for a day. A file is its name and what reading it gives;
  the hash that makes the name of a URL, the clock and what the file system does are arguments.
\<close>

text \<open>A file that cannot be read, one that is no entry, and an entry with its time and its body (\<open>None\<close>: not gzip).\<close>

datatype cache_file = Unreadable | NoEntry | Stored gotime "string option"

record disk_cache =
  dc_files :: "string \<Rightarrow> cache_file option"
  dc_disabled :: bool

record file_system =
  fs_cacheKey :: "string \<Rightarrow> string"
  fs_now :: gotime
  fs_mkdir :: bool
  fs_write :: bool
  fs_rename :: bool

definition defaultCacheTTL :: int where "defaultCacheTTL = 24 * 3600000000000"

definition cacheFilePath :: "file_system \<Rightarrow> string \<Rightarrow> string" where
  "cacheFilePath fs url = fs_cacheKey fs url @ ''.json.gz''"

text \<open>A hit is a body; a miss and a read error look the same to every caller.\<close>

definition disk_Get :: "file_system \<Rightarrow> string \<Rightarrow> disk_cache \<Rightarrow> string option" where
  "disk_Get fs url c =
     (if dc_disabled c then None
      else case dc_files c (cacheFilePath fs url) of
          None \<Rightarrow> None
        | Some Unreadable \<Rightarrow> None
        | Some NoEntry \<Rightarrow> None
        | Some (Stored cachedAt body) \<Rightarrow> if Sub (fs_now fs) cachedAt > defaultCacheTTL then None else body)"

text \<open>Writing a new file fails before the old one is removed, renaming it after.\<close>

definition disk_Put :: "file_system \<Rightarrow> string \<Rightarrow> string \<Rightarrow> disk_cache \<Rightarrow> disk_cache" where
  "disk_Put fs url body c =
     (if dc_disabled c then c
      else if \<not> fs_mkdir fs then c\<lparr>dc_disabled := True\<rparr>
      else if \<not> fs_write fs then c
      else let final = cacheFilePath fs url
        in c\<lparr>dc_files := (dc_files c)(final := if fs_rename fs then Some (Stored (fs_now fs) (Some body)) else None)\<rparr>)"

definition later :: "int \<Rightarrow> file_system \<Rightarrow> file_system" where
  "later d fs = fs\<lparr>fs_now := (fs_now fs)\<lparr>t_ns := t_ns (fs_now fs) + d\<rparr>\<rparr>"

lemma disk_Get_Put:
  "fs_mkdir fs \<Longrightarrow> fs_write fs \<Longrightarrow> fs_rename fs \<Longrightarrow> \<not> dc_disabled c \<Longrightarrow> 0 \<le> d \<Longrightarrow> d \<le> defaultCacheTTL \<Longrightarrow>
     disk_Get (later d fs) url (disk_Put fs url body c) = Some body"
  by (simp add: disk_Get_def disk_Put_def Let_def later_def cacheFilePath_def Sub_def max_dur_def min_dur_def defaultCacheTTL_def)

lemma disk_Get_expired:
  "defaultCacheTTL < d \<Longrightarrow> fs_mkdir fs \<Longrightarrow> fs_write fs \<Longrightarrow>
     disk_Get (later d fs) url (disk_Put fs url body c) = None"
  by (simp add: disk_Get_def disk_Put_def Let_def later_def cacheFilePath_def Sub_def max_dur_def min_dur_def defaultCacheTTL_def)

text \<open>An entry holds its URL, but \<open>Get\<close> does not compare it: URLs with one file name share their answers.\<close>

lemma disk_Get_collision:
  "fs_cacheKey fs url = fs_cacheKey fs url' \<Longrightarrow> disk_Get fs url c = disk_Get fs url' c"
  by (simp add: disk_Get_def cacheFilePath_def)

end
