(* ===== verification/Github.thy ===== *)
theory Github
  imports Http_Client Disk_Cache Module_Path
begin

text \<open>
  The GitHub lookups of \<open>pkg/scanner/maintainer.go\<close>: requests with one redirect and a disk cache, and the caches that
  ask for every repository, owner and commit once. A lookup under \<open>onceCache.do\<close> is one step. The decoding of JSON
  and of times is an argument, and so is, per key, whether the context had ended when a lookup returned.
\<close>

section \<open>Answers\<close>

record github_repo =
  gr_FullName :: string
  gr_Description :: string
  gr_Archived :: bool
  gr_Fork :: bool
  gr_Stars :: int
  gr_Forks :: int
  gr_OpenIssues :: int
  gr_PushedAt :: string
  gr_CreatedAt :: string
  gr_DefaultBranch :: string
  gr_License :: "string option"
  gr_OwnerType :: string

record github_user =
  gu_Login :: string
  gu_Name :: string
  gu_Company :: string
  gu_Location :: string
  gu_Bio :: string
  gu_Blog :: string

record github_contributor =
  gc_Login :: string
  gc_Contributions :: int

datatype github_error = ErrRateLimited | ErrRepositoryNotFound | LookupFailed

record github_world =
  gw_net :: network
  gw_fs :: file_system
  gw_repo :: "string \<Rightarrow> github_repo option"
  gw_user :: "string \<Rightarrow> github_user option"
  gw_contributors :: "string \<Rightarrow> github_contributor list option"
  gw_commits :: "string \<Rightarrow> gotime list option"
  gw_RFC3339 :: "string \<Rightarrow> gotime option"
  gw_cancelled :: "string \<Rightarrow> bool"
  gw_ScanStart :: gotime

section \<open>The state of the scanner\<close>

type_synonym 'a once = "string \<Rightarrow> (github_error + 'a) option"

record github_state =
  gs_token :: string
  gs_userCache :: "string \<Rightarrow> github_user option"
  gs_disk :: disk_cache
  gs_repos :: "github_repo once"
  gs_users :: "github_user once"
  gs_commits :: "gotime once"
  gs_sent :: sent

section \<open>Requests\<close>

definition githubAPIHost :: string where "githubAPIHost = ''api.github.com''"

definition isRedirectStatus :: "int \<Rightarrow> bool" where
  "isRedirectStatus code = (code \<in> {301, 302, 307, 308})"

definition githubAPIRedirectTarget :: "network \<Rightarrow> string \<Rightarrow> string option" where
  "githubAPIRedirectTarget nt location =
     (case nt_parse nt location of
        None \<Rightarrow> None
      | Some u \<Rightarrow>
          if pu_Scheme u \<noteq> ''https'' \<or> pu_HasUser u \<or> \<not> EqualFold (pu_Host u) githubAPIHost then None
          else if \<not> HasPrefix (pu_Path u) ''/'' then None else Some (pu_String u))"

definition github_options :: "string \<Rightarrow> string \<Rightarrow> get_options" where
  "github_options token purpose =
     no_options\<lparr>op_Host := githubAPIHost, op_MaxBytes := 1 * 1024 * 1024,
       op_AuthHeader := (if token \<noteq> '''' then ''Bearer '' @ token else ''''),
       op_Accept := ''application/vnd.github.v3+json'', op_Purpose := purpose\<rparr>"

definition github_status :: "http_answer \<Rightarrow> github_error + string" where
  "github_status a =
     (if ha_Status a \<noteq> 200 then
        (if ha_Status a = 429 \<or> (ha_Status a = 403 \<and> ha_Header a ''X-RateLimit-Remaining'' = ''0'') then Inl ErrRateLimited
         else if ha_Status a = 404 then Inl ErrRepositoryNotFound
         else Inl LookupFailed)
      else Inr (ha_Body a))"

definition github_fetch :: "network \<Rightarrow> string \<Rightarrow> get_options \<Rightarrow> (github_error + string) \<times> sent" where
  "github_fetch nt url opts =
     (case client_Get nt url opts of
        (Inl e, sent) \<Rightarrow> (Inl LookupFailed, sent)
      | (Inr a, sent) \<Rightarrow>
          if isRedirectStatus (ha_Status a) then
            (case githubAPIRedirectTarget nt (ha_Header a ''Location'') of
               None \<Rightarrow> (Inl LookupFailed, sent)
             | Some target \<Rightarrow>
                 (case client_Get nt target opts of
                    (Inl e, sent2) \<Rightarrow> (Inl LookupFailed, sent + sent2)
                  | (Inr b, sent2) \<Rightarrow> (github_status b, sent + sent2)))
          else (github_status a, sent))"

definition githubGet :: "github_world \<Rightarrow> string \<Rightarrow> string \<Rightarrow> github_state \<Rightarrow> (github_error + string) \<times> github_state" where
  "githubGet w url purpose s =
     (case disk_Get (gw_fs w) url (gs_disk s) of
        Some body \<Rightarrow> (Inr body, s)
      | None \<Rightarrow>
          (let (r, sent) = github_fetch (gw_net w) url (github_options (gs_token s) purpose);
               s = s\<lparr>gs_sent := gs_sent s + sent\<rparr>
           in case r of
                Inl e \<Rightarrow> (Inl e, s)
              | Inr body \<Rightarrow> (Inr body, s\<lparr>gs_disk := disk_Put (gw_fs w) url body (gs_disk s)\<rparr>)))"

definition decoded :: "(string \<Rightarrow> 'a option) \<Rightarrow> github_error + string \<Rightarrow> github_error + 'a" where
  "decoded f r =
     (case r of Inl e \<Rightarrow> Inl e | Inr body \<Rightarrow> (case f body of None \<Rightarrow> Inl LookupFailed | Some x \<Rightarrow> Inr x))"

definition repo_url :: "string \<Rightarrow> string \<Rightarrow> string" where
  "repo_url owner repo = ''https://api.github.com/repos/'' @ owner @ ''/'' @ repo"

definition fetchRepo :: "github_world \<Rightarrow> string \<Rightarrow> string \<Rightarrow> github_state \<Rightarrow> (github_error + github_repo) \<times> github_state" where
  "fetchRepo w owner repo s =
     (let (r, s) = githubGet w (repo_url owner repo) ''maintainer:repo'' s in (decoded (gw_repo w) r, s))"

definition fetchContributors :: "github_world \<Rightarrow> string \<Rightarrow> string \<Rightarrow> github_state \<Rightarrow> github_contributor list \<times> github_state" where
  "fetchContributors w owner repo s =
     (let (r, s) = githubGet w (repo_url owner repo @ ''/contributors?per_page=100'') ''maintainer:contributors'' s
      in (case decoded (gw_contributors w) r of Inl e \<Rightarrow> [] | Inr cs \<Rightarrow> cs, s))"

section \<open>One lookup per key\<close>

text \<open>What \<open>onceCache.do\<close> makes of the result of a lookup that ran: a failure under an ended context is not kept.\<close>

definition once_keep :: "bool \<Rightarrow> string \<Rightarrow> github_error + 'a \<Rightarrow> 'a once \<Rightarrow> 'a once" where
  "once_keep cancelled key r m = (if isl r \<and> cancelled then m else m(key \<mapsto> r))"

definition once_set :: "string \<Rightarrow> 'a \<Rightarrow> 'a once \<Rightarrow> 'a once" where
  "once_set key v m = (if m key = None then m(key \<mapsto> Inr v) else m)"

text \<open>The expressions \<open>^[A-Za-z0-9][A-Za-z0-9-]*$\<close> and \<open>^[A-Za-z0-9_][A-Za-z0-9_.-]*$\<close>.\<close>

definition alphanumeric :: "char \<Rightarrow> bool" where
  "alphanumeric c = (let n = (of_char c :: nat) in (65 \<le> n \<and> n \<le> 90) \<or> (97 \<le> n \<and> n \<le> 122) \<or> (48 \<le> n \<and> n \<le> 57))"

definition ownerNamePattern :: "string \<Rightarrow> bool" where
  "ownerNamePattern s = (s \<noteq> [] \<and> alphanumeric (hd s) \<and> list_all (\<lambda>c. alphanumeric c \<or> c = CHR ''-'') (tl s))"

definition repoNamePattern :: "string \<Rightarrow> bool" where
  "repoNamePattern s =
     (s \<noteq> [] \<and> (alphanumeric (hd s) \<or> hd s = CHR ''_'') \<and>
      list_all (\<lambda>c. alphanumeric c \<or> c = CHR ''_'' \<or> c = CHR ''.'' \<or> c = CHR ''-'') (tl s))"

definition canonicalRepoName :: "string \<Rightarrow> string \<times> string" where
  "canonicalRepoName fullName =
     (case Cut fullName ''/'' of
        None \<Rightarrow> ('''', '''')
      | Some (owner, repo) \<Rightarrow> if \<not> ownerNamePattern owner \<or> \<not> repoNamePattern repo then ('''', '''') else (owner, repo))"

definition repo_key :: "string \<Rightarrow> string \<Rightarrow> string" where
  "repo_key owner repo = ToLower (owner @ ''/'' @ repo)"

definition repoMeta :: "github_world \<Rightarrow> string \<Rightarrow> string \<Rightarrow> github_state \<Rightarrow> (github_error + github_repo) \<times> github_state" where
  "repoMeta w owner repo s =
     (let key = repo_key owner repo;
          (r, s) = (case gs_repos s key of
              Some r \<Rightarrow> (r, s)
            | None \<Rightarrow>
                let (r, s) = fetchRepo w owner repo s
                in (r, s\<lparr>gs_repos := once_keep (gw_cancelled w key) key r (gs_repos s)\<rparr>))
      in case r of
           Inl e \<Rightarrow> (r, s)
         | Inr rec \<Rightarrow>
             let (o', n) = canonicalRepoName (gr_FullName rec)
             in if o' \<noteq> '''' then (r, s\<lparr>gs_repos := once_set (repo_key o' n) rec (gs_repos s)\<rparr>) else (r, s))"

definition RepositoryArchived :: "github_world \<Rightarrow> string \<Rightarrow> string \<Rightarrow> github_state \<Rightarrow> (github_error + bool) \<times> github_state" where
  "RepositoryArchived w owner repo s =
     (let (r, s) = repoMeta w owner repo s in (case r of Inl e \<Rightarrow> Inl e | Inr rec \<Rightarrow> Inr (gr_Archived rec), s))"

definition fetchUser :: "github_world \<Rightarrow> string \<Rightarrow> github_state \<Rightarrow> github_user option \<times> github_state" where
  "fetchUser w login s =
     (case gs_userCache s login of
        Some u \<Rightarrow> (Some u, s)
      | None \<Rightarrow>
          (let key = ToLower login;
               (r, s) = (case gs_users s key of
                   Some r \<Rightarrow> (r, s)
                 | None \<Rightarrow>
                     let (r, s) = githubGet w (''https://api.github.com/users/'' @ login) ''maintainer:user'' s;
                         r = decoded (gw_user w) r
                     in (r, s\<lparr>gs_users := once_keep (gw_cancelled w key) key r (gs_users s)\<rparr>))
           in case r of
                Inl e \<Rightarrow> (None, s)
              | Inr u \<Rightarrow> (Some u, s\<lparr>gs_userCache := (gs_userCache s)(login \<mapsto> u)\<rparr>)))"

definition latest_commit :: "github_world \<Rightarrow> string \<Rightarrow> github_error + gotime" where
  "latest_commit w body =
     (case gw_commits w body of
        None \<Rightarrow> Inl LookupFailed
      | Some [] \<Rightarrow> Inl LookupFailed
      | Some (t # ts) \<Rightarrow> if IsZero t then Inl LookupFailed else Inr t)"

definition LatestCommit :: "github_world \<Rightarrow> string \<Rightarrow> github_state \<Rightarrow> (github_error + gotime) \<times> github_state" where
  "LatestCommit w modPath s =
     (if gs_token s = '''' then (Inl LookupFailed, s)
      else let (owner, repo) = parseGitHubPath modPath
        in if owner = '''' \<or> repo = '''' then (Inl LookupFailed, s)
           else if gs_repos s (repo_key owner repo) = Some (Inl ErrRepositoryNotFound) then (Inl ErrRepositoryNotFound, s)
           else let key = repo_key owner repo
             in case gs_commits s key of
                  Some r \<Rightarrow> (r, s)
                | None \<Rightarrow>
                    let (r, s) = githubGet w (repo_url owner repo @ ''/commits?per_page=1'') ''maintenance:github-commits'' s;
                        r = (case r of Inl e \<Rightarrow> Inl e | Inr body \<Rightarrow> latest_commit w body)
                    in (r, s\<lparr>gs_commits := once_keep (gw_cancelled w key) key r (gs_commits s)\<rparr>))"

end
