(* ===== verification/Maintainer.thy ===== *)
theory Maintainer
  imports Github Worker_Pool
begin

text \<open>
  The analysis of \<open>pkg/scanner/maintainer.go\<close>: who owns a repository, how many people carry it, and whether it could
  be taken over. Analysing one repository is one step, as its lock makes it. The warning on a rate limit is left out.
\<close>

section \<open>Reports\<close>

record maintainer_report = maintainer_record +
  mp_Owner :: string
  mp_Repo :: string
  mp_OwnerName :: string
  mp_OwnerLocation :: string
  mp_OwnerCompany :: string
  mp_OwnerBio :: string
  mp_OwnerURL :: string
  mp_IsOrg :: bool
  mp_BusinessModel :: string
  mp_License :: string
  mp_Description :: string
  mp_TopContributors :: "string list"
  mp_IsFork :: bool
  mp_LastCommitDate :: gotime
  mp_DefaultBranch :: string
  mp_CreatedAt :: gotime
  mp_Stars :: int
  mp_Forks :: int
  mp_OpenIssues :: int
  mp_SubDependencies :: int
  mp_TakeoverReason :: string

definition unread_report :: "string \<Rightarrow> string \<Rightarrow> maintainer_report" where
  "unread_report owner repo =
     \<lparr>ma_BusFactor = 0, ma_ContributorCount = 0, ma_DataAvailable = False, ma_UnavailableReason = '''', ma_OwnerVerified = False,
      ma_IsArchived = False, ma_ActivityPattern = '''', ma_TakeoverCandidate = False, mp_Owner = owner, mp_Repo = repo,
      mp_OwnerName = '''', mp_OwnerLocation = '''', mp_OwnerCompany = '''', mp_OwnerBio = '''', mp_OwnerURL = '''',
      mp_IsOrg = False, mp_BusinessModel = '''', mp_License = '''', mp_Description = '''', mp_TopContributors = [],
      mp_IsFork = False, mp_LastCommitDate = zero_time, mp_DefaultBranch = '''', mp_CreatedAt = zero_time, mp_Stars = 0,
      mp_Forks = 0, mp_OpenIssues = 0, mp_SubDependencies = 0, mp_TakeoverReason = ''''\<rparr>"

record maintainer_state = github_state +
  gs_cache :: "string \<Rightarrow> maintainer_report option"

definition UnavailableRateLimited :: string where "UnavailableRateLimited = ''rate_limited''"

section \<open>Classification\<close>

definition classifyActivity :: "gotime \<Rightarrow> gotime \<Rightarrow> string" where
  "classifyActivity now lastCommit =
     (if IsZero lastCommit then ''unknown''
      else let months = scanner_monthsSince now lastCommit
        in if months < 3 then ''active'' else if months < 12 then ''sporadic'' else ''inactive'')"

definition foundations :: "string list" where
  "foundations = [''golang'', ''kubernetes'', ''cncf'', ''apache'', ''linux'', ''mozilla'']"

definition companies :: "string list" where
  "companies = [''google'', ''microsoft'', ''amazon'', ''aws'', ''meta'', ''facebook'',
     ''hashicorp'', ''docker'', ''elastic'', ''datadog'', ''grafana'', ''unidoc'', ''stripe'',
     ''cloudflare'', ''uber'', ''github'', ''gitlab'', ''jetbrains'', ''redhat'', ''ibm'', ''oracle'']"

definition classifyBusinessModel :: "maintainer_report \<Rightarrow> string" where
  "classifyBusinessModel info =
     (let ownerLower = ToLower (mp_Owner info); companyLower = ToLower (mp_OwnerCompany info);
          known = list_ex (\<lambda>n. Contains ownerLower n \<or> Contains companyLower n)
      in if known foundations then ''foundation''
         else if known companies then ''company_backed''
         else if mp_IsOrg info \<and> mp_OwnerCompany info \<noteq> '''' then ''company_backed''
         else if HasPrefix (mp_Owner info) ''golang'' then ''foundation''
         else if mp_IsOrg info then ''organization''
         else ''individual'')"

text \<open>The threshold is a float: five percent of all contributions, rounded.\<close>

definition bus_threshold :: "int \<Rightarrow> double" where
  "bus_threshold n = dmul (rnd (of_int n)) (rnd (5 / 100))"

definition computeBusFactor :: "github_contributor list \<Rightarrow> int" where
  "computeBusFactor contributors =
     (if contributors = [] then 0
      else let totalContribs = sum_list (map gc_Contributions contributors)
        in if totalContribs = 0 then 0
           else int (length (filter (\<lambda>c. rnd (of_int (gc_Contributions c)) \<ge> bus_threshold totalContribs) contributors)))"

definition assessTakeover :: "maintainer_report \<Rightarrow> maintainer_report" where
  "assessTakeover info =
     (if mp_Stars info \<ge> 100 \<and> ma_ActivityPattern info = ''inactive''
      then info\<lparr>ma_TakeoverCandidate := True, mp_TakeoverReason := ''widely used but inactive''\<rparr>
      else if ma_BusFactor info \<le> 1 \<and> ma_ActivityPattern info = ''inactive''
      then info\<lparr>ma_TakeoverCandidate := True, mp_TakeoverReason := ''single maintainer, inactive''\<rparr>
      else if ma_IsArchived info
      then info\<lparr>ma_TakeoverCandidate := True, mp_TakeoverReason := ''repository archived''\<rparr>
      else info)"

section \<open>One repository\<close>

definition parsed_time :: "github_world \<Rightarrow> string \<Rightarrow> gotime" where
  "parsed_time w s = (if s \<noteq> '''' then (case gw_RFC3339 w s of Some t \<Rightarrow> t | None \<Rightarrow> zero_time) else zero_time)"

definition described :: "github_world \<Rightarrow> github_repo \<Rightarrow> maintainer_report \<Rightarrow> maintainer_report" where
  "described w rec info =
     (let lastCommit = parsed_time w (gr_PushedAt rec)
      in info\<lparr>mp_Description := gr_Description rec, ma_IsArchived := gr_Archived rec, mp_IsFork := gr_Fork rec,
           mp_Stars := gr_Stars rec, mp_Forks := gr_Forks rec, mp_OpenIssues := gr_OpenIssues rec,
           mp_IsOrg := (gr_OwnerType rec = ''Organization''), ma_OwnerVerified := (gr_OwnerType rec = ''Organization''),
           mp_License := (case gr_License rec of Some l \<Rightarrow> l | None \<Rightarrow> ''''),
           mp_LastCommitDate := lastCommit, mp_DefaultBranch := gr_DefaultBranch rec,
           mp_CreatedAt := parsed_time w (gr_CreatedAt rec),
           ma_ActivityPattern := classifyActivity (gw_ScanStart w) lastCommit\<rparr>)"

definition owned_by :: "github_user option \<Rightarrow> maintainer_report \<Rightarrow> maintainer_report" where
  "owned_by user info =
     (case user of
        None \<Rightarrow> info
      | Some u \<Rightarrow>
          info\<lparr>mp_OwnerName := (if gu_Name u = '''' then gu_Login u else gu_Name u), mp_OwnerLocation := gu_Location u,
            mp_OwnerCompany := gu_Company u, mp_OwnerBio := gu_Bio u, mp_OwnerURL := gu_Blog u\<rparr>)"

definition carried_by :: "github_contributor list \<Rightarrow> maintainer_report \<Rightarrow> maintainer_report" where
  "carried_by contributors info =
     info\<lparr>ma_ContributorCount := int (length contributors), ma_BusFactor := computeBusFactor contributors,
       mp_TopContributors := map gc_Login (take 5 contributors)\<rparr>"

definition unavailable_reason :: "github_error \<Rightarrow> string" where
  "unavailable_reason e =
     (case e of
        ErrRepositoryNotFound \<Rightarrow> UnavailableNotFound
      | ErrRateLimited \<Rightarrow> UnavailableRateLimited
      | LookupFailed \<Rightarrow> UnavailableAPIError)"

definition analyzed :: "github_world \<Rightarrow> string \<Rightarrow> string \<Rightarrow> github_repo \<Rightarrow> maintainer_state \<Rightarrow> maintainer_report \<times> maintainer_state" where
  "analyzed w owner0 repo0 rec s =
     (let (o', n) = canonicalRepoName (gr_FullName rec);
          (owner, repo) = (if o' \<noteq> '''' then (o', n) else (owner0, repo0));
          info = described w rec ((unread_report owner repo)\<lparr>ma_DataAvailable := True\<rparr>);
          (user, g) = fetchUser w owner (github_state.truncate s);
          info = owned_by user info;
          info = info\<lparr>mp_BusinessModel := classifyBusinessModel info\<rparr>;
          (contributors, g) = fetchContributors w owner repo g
      in (assessTakeover (carried_by contributors info), github_state.extend g \<lparr>gs_cache = gs_cache s\<rparr>))"

definition analyzeRepo :: "github_world \<Rightarrow> string \<Rightarrow> string \<Rightarrow> maintainer_state \<Rightarrow> maintainer_report \<times> maintainer_state" where
  "analyzeRepo w owner repo s =
     (let cacheKey = owner @ ''/'' @ repo
      in case gs_cache s cacheKey of
           Some cached \<Rightarrow> (cached, s)
         | None \<Rightarrow>
             (let (r, g) = repoMeta w owner repo (github_state.truncate s);
                  s = github_state.extend g \<lparr>gs_cache = gs_cache s\<rparr>;
                  (info, s) = (case r of
                      Inl e \<Rightarrow> ((unread_report owner repo)\<lparr>ma_UnavailableReason := unavailable_reason e\<rparr>, s)
                    | Inr rec \<Rightarrow> analyzed w owner repo rec s)
              in (info, s\<lparr>gs_cache := (gs_cache s)(cacheKey \<mapsto> info)\<rparr>)))"

section \<open>All dependencies\<close>

text \<open>\<open>order\<close>: the dependencies with their number of dependencies, in the order their workers get their turn.\<close>

definition maintainer_step ::
  "github_world \<Rightarrow> string \<times> int \<Rightarrow> (string \<Rightarrow> maintainer_report option) \<times> maintainer_state \<Rightarrow>
    (string \<Rightarrow> maintainer_report option) \<times> maintainer_state" where
  "maintainer_step w = (\<lambda>(path, sub) (results, s).
     let (owner, repo) = parseGitHubPath path
     in if owner = '''' \<or> repo = '''' then (results, s)
        else let (info, s) = analyzeRepo w owner repo s
          in (results(path \<mapsto> info\<lparr>mp_SubDependencies := sub\<rparr>), s))"

definition maintainer_ScanAll ::
  "github_world \<Rightarrow> (string \<times> int) list \<Rightarrow> maintainer_state \<Rightarrow> (string \<Rightarrow> maintainer_report option) \<times> maintainer_state" where
  "maintainer_ScanAll w order s = runBounded (maintainer_step w) order (Map.empty, s)"

definition CountGitHubDeps :: "string list \<Rightarrow> int" where
  "CountGitHubDeps paths = int (length (filter (\<lambda>p. let (owner, repo) = parseGitHubPath p in owner \<noteq> '''' \<and> repo \<noteq> '''') paths))"

text \<open>Modules as a list in the order of their sorted paths; the first of a repository stands for it.\<close>

definition takeover_key :: "maintainer_report \<Rightarrow> string" where
  "takeover_key mi = mp_Owner mi @ ''/'' @ mp_Repo mi"

definition takeover_step :: "maintainer_report \<Rightarrow> (string \<Rightarrow> maintainer_report option) \<Rightarrow> string \<Rightarrow> maintainer_report option" where
  "takeover_step mi m =
     (if \<not> ma_TakeoverCandidate mi then m
      else if m (takeover_key mi) \<noteq> None then m else m(takeover_key mi \<mapsto> mi))"

definition TakeoverCandidates :: "(string \<times> maintainer_report) list \<Rightarrow> maintainer_report list" where
  "TakeoverCandidates maintainers =
     (let sorted = map (\<lambda>p. the (map_of maintainers p)) (sort_strings (map fst maintainers));
          byRepo = fold takeover_step sorted Map.empty;
          keys = sort_strings (remdups (map takeover_key (filter ma_TakeoverCandidate sorted)))
      in map (\<lambda>k. the (byRepo k)) keys)"

text \<open>An entry of the trust index decides who is verified.\<close>

definition EnrichMaintainersFromTrustIndex ::
  "(string \<Rightarrow> bool option) \<Rightarrow> (string \<Rightarrow> maintainer_report option) \<Rightarrow> string \<Rightarrow> maintainer_report option" where
  "EnrichMaintainersFromTrustIndex verified maintainers =
     (\<lambda>p. case (maintainers p, verified p) of
        (Some mi, Some v) \<Rightarrow> Some (mi\<lparr>ma_OwnerVerified := v\<rparr>)
      | (r, _) \<Rightarrow> r)"

end
