(* ===== verification/Github_Props.thy ===== *)
theory Github_Props
  imports Maintainer
begin

text \<open>
  What the GitHub lookups promise. A state of the scanner is only changed by \<open>githubGet\<close> and by entries in the caches,
  so what holds of every request holds of a scan: the token goes to GitHub's API only, and nothing is sent offline.
  An archived flag is GitHub's, whichever cache it comes from.
\<close>

section \<open>What is sent\<close>

definition sent_ok :: "(wire_request \<Rightarrow> bool) \<Rightarrow> sent \<Rightarrow> bool" where
  "sent_ok P ms = (\<forall>q \<in># ms. P q)"

lemma sent_ok_simps [simp]: "sent_ok P {#}" "sent_ok P (a + b) \<longleftrightarrow> sent_ok P a \<and> sent_ok P b"
  by (auto simp: sent_ok_def)

lemma github_fetch_sent:
  assumes "\<And>url. sent_ok P (snd (client_Get nt url opts))"
  shows "sent_ok P (snd (github_fetch nt url opts))"
  using assms by (auto simp: github_fetch_def split: prod.split sum.split option.split) (metis snd_conv)+

text \<open>A property of the requests of every lookup of a scanner with one token.\<close>

definition gets_ok :: "(wire_request \<Rightarrow> bool) \<Rightarrow> github_world \<Rightarrow> string \<Rightarrow> bool" where
  "gets_ok P w token = (\<forall>url purpose. sent_ok P (snd (client_Get (gw_net w) url (github_options token purpose))))"

text \<open>Two states with the same token, the later with more requests, all of them good.\<close>

definition grows :: "(wire_request \<Rightarrow> bool) \<Rightarrow> 'a github_state_scheme \<Rightarrow> 'b github_state_scheme \<Rightarrow> bool" where
  "grows P s t = (gs_token t = gs_token s \<and> (\<exists>ms. gs_sent t = gs_sent s + ms \<and> sent_ok P ms))"

lemma grows_refl: "gs_token t = gs_token s \<Longrightarrow> gs_sent t = gs_sent s \<Longrightarrow> grows P s t"
  by (auto simp: grows_def intro: exI [of _ "{#}"])

lemma grows_trans: "grows P s t \<Longrightarrow> grows P t u \<Longrightarrow> grows P s u"
  unfolding grows_def by (metis add.assoc sent_ok_simps(2))

lemma grows_update: "grows P s t \<Longrightarrow> gs_token u = gs_token t \<Longrightarrow> gs_sent u = gs_sent t \<Longrightarrow> grows P s u"
  by (simp add: grows_def)

lemma githubGet_grows:
  assumes "gets_ok P w (gs_token s)" "githubGet w url purpose s = (r, t)"
  shows "grows P s t"
proof -
  obtain x ms where f: "github_fetch (gw_net w) url (github_options (gs_token s) purpose) = (x, ms)" by fastforce
  have "sent_ok P ms" using github_fetch_sent [of P "gw_net w" "github_options (gs_token s) purpose" url] assms(1) f
    by (simp add: gets_ok_def)
  then show ?thesis
    using assms(2) f by (auto simp: githubGet_def grows_def Let_def split: option.splits sum.splits)
qed

lemma repoMeta_grows:
  assumes "gets_ok P w (gs_token s)" "repoMeta w owner repo s = (r, t)"
  shows "grows P s t"
proof (cases "gs_repos s (repo_key owner repo)")
  case None
  obtain x s1 where g: "githubGet w (repo_url owner repo) ''maintainer:repo'' s = (x, s1)" by fastforce
  have "grows P s s1" by (rule githubGet_grows [OF assms(1) g])
  moreover have "gs_token t = gs_token s1" "gs_sent t = gs_sent s1"
    using assms(2) None g by (auto simp: repoMeta_def fetchRepo_def Let_def split: sum.splits prod.splits if_splits)
  ultimately show ?thesis by (rule grows_update)
next
  case (Some x)
  then show ?thesis
    using assms(2) by (intro grows_refl) (auto simp: repoMeta_def Let_def split: sum.splits prod.splits if_splits)
qed

lemma fetchUser_grows:
  assumes "gets_ok P w (gs_token s)" "fetchUser w login s = (r, t)"
  shows "grows P s t"
proof -
  obtain x s1 where g: "githubGet w (''https://api.github.com/users/'' @ login) ''maintainer:user'' s = (x, s1)" by fastforce
  have 1: "grows P s s1" by (rule githubGet_grows [OF assms(1) g])
  have "(gs_token t = gs_token s \<and> gs_sent t = gs_sent s) \<or> (gs_token t = gs_token s1 \<and> gs_sent t = gs_sent s1)"
    using assms(2) g by (auto simp: fetchUser_def Let_def split: option.splits sum.splits)
  then show ?thesis using 1 grows_refl grows_update by metis
qed

lemma fetchContributors_grows:
  assumes "gets_ok P w (gs_token s)" "fetchContributors w owner repo s = (r, t)"
  shows "grows P s t"
  using assms(2) githubGet_grows [OF assms(1)] by (auto simp: fetchContributors_def split: prod.splits)

lemma LatestCommit_grows:
  assumes "gets_ok P w (gs_token s)" "LatestCommit w p s = (r, t)"
  shows "grows P s t"
proof -
  obtain owner repo where o: "parseGitHubPath p = (owner, repo)" by fastforce
  obtain x s1 where g: "githubGet w (repo_url owner repo @ ''/commits?per_page=1'') ''maintenance:github-commits'' s = (x, s1)" by fastforce
  have 1: "grows P s s1" by (rule githubGet_grows [OF assms(1) g])
  have "(gs_token t = gs_token s \<and> gs_sent t = gs_sent s) \<or> (gs_token t = gs_token s1 \<and> gs_sent t = gs_sent s1)"
    using assms(2) o g by (auto simp: LatestCommit_def Let_def split: option.splits if_splits)
  then show ?thesis using 1 grows_refl grows_update by metis
qed

lemma RepositoryArchived_grows:
  "gets_ok P w (gs_token s) \<Longrightarrow> RepositoryArchived w owner repo s = (r, t) \<Longrightarrow> grows P s t"
  using repoMeta_grows by (auto simp: RepositoryArchived_def split: prod.splits)

lemma extended_fields [simp]:
  "gs_token (github_state.extend g e) = gs_token g" "gs_sent (github_state.extend g e) = gs_sent g"
  "gs_token (github_state.truncate s) = gs_token s" "gs_sent (github_state.truncate s) = gs_sent s"
  by (simp_all add: github_state.defs)

lemma analyzeRepo_grows:
  assumes "gets_ok P w (gs_token s)" "analyzeRepo w owner repo s = (info, t)"
  shows "grows P s t"
proof (cases "gs_cache s (owner @ ''/'' @ repo)")
  case None
  obtain r g where m: "repoMeta w owner repo (github_state.truncate s) = (r, g)" by fastforce
  have 1: "grows P s g"
    using repoMeta_grows [of P w "github_state.truncate s"] assms(1) m by (simp add: grows_def)
  show ?thesis
  proof (cases r)
    case (Inl e)
    then show ?thesis
      using assms(2) None m by (intro grows_update [OF 1]) (auto simp: analyzeRepo_def Let_def)
  next
    case (Inr rec)
    let ?s = "github_state.extend g \<lparr>gs_cache = gs_cache s\<rparr>"
    obtain i u where a: "analyzed w owner repo rec ?s = (i, u)" by fastforce
    obtain user g1 where f: "fetchUser w (fst (if fst (canonicalRepoName (gr_FullName rec)) \<noteq> ''''
        then canonicalRepoName (gr_FullName rec) else (owner, repo))) (github_state.truncate ?s) = (user, g1)" by fastforce
    obtain cs g2 where c: "fetchContributors w (fst (if fst (canonicalRepoName (gr_FullName rec)) \<noteq> ''''
        then canonicalRepoName (gr_FullName rec) else (owner, repo)))
        (snd (if fst (canonicalRepoName (gr_FullName rec)) \<noteq> '''' then canonicalRepoName (gr_FullName rec) else (owner, repo))) g1 = (cs, g2)"
      by fastforce
    have tok: "gets_ok P w (gs_token (github_state.truncate ?s))" using 1 assms(1) by (simp add: grows_def)
    have 2: "grows P g g1" using fetchUser_grows [OF tok f] by (simp add: grows_def)
    then have 3: "grows P g1 g2" using fetchContributors_grows [OF _ c] tok by (simp add: grows_def)
    have "gs_token u = gs_token g2 \<and> gs_sent u = gs_sent g2"
      using a f c by (auto simp: analyzed_def Let_def split: prod.splits if_splits)
    then have "grows P s u" using grows_update grows_trans 1 2 3 by metis
    then show ?thesis
      using assms(2) None m Inr a by (elim grows_update) (auto simp: analyzeRepo_def Let_def)
  qed
next
  case (Some i)
  then show ?thesis using assms(2) by (intro grows_refl) (auto simp: analyzeRepo_def)
qed

lemma maintainer_ScanAll_grows:
  assumes "gets_ok P w (gs_token s)" "maintainer_ScanAll w order s = (results, t)"
  shows "grows P s t"
proof -
  have "grows P (snd x) (snd (fold (maintainer_step w) order x))" if "gets_ok P w (gs_token (snd x))" for x
    using that
  proof (induction order arbitrary: x)
    case Nil
    then show ?case by (simp add: grows_refl)
  next
    case (Cons d order)
    have "grows P (snd x) (snd (maintainer_step w d x))"
      using analyzeRepo_grows [OF Cons.prems]
      by (auto simp: maintainer_step_def Let_def grows_refl split: prod.splits if_splits)
    moreover have "gets_ok P w (gs_token (snd (maintainer_step w d x)))"
      using calculation Cons.prems by (simp add: grows_def)
    ultimately show ?case using Cons.IH [of "maintainer_step w d x"] by (auto intro: grows_trans)
  qed
  from this [of "(Map.empty, s)"] show ?thesis using assms by (simp add: maintainer_ScanAll_def runBounded_def)
qed

lemma gets_pinned: "gets_ok (pinned_to githubAPIHost) w token"
proof -
  have "sent_ok (pinned_to githubAPIHost) (snd (client_Get (gw_net w) url (github_options token purpose)))" for url purpose
    using client_Get_pinned [of "gw_net w" url "github_options token purpose"]
    by (cases "client_Get (gw_net w) url (github_options token purpose)") (auto simp: sent_ok_def github_options_def)
  then show ?thesis by (simp add: gets_ok_def)
qed

lemma gets_offline: "nt_offline (gw_net w) \<Longrightarrow> gets_ok (\<lambda>q. False) w token"
  by (simp add: gets_ok_def client_Get_offline)

text \<open>C40: Whatever the servers answer and wherever they redirect to, a scan for maintainers, the archived lookup and the
  commit lookup send their requests, and with them the token, to \<open>api.github.com\<close> only.\<close>

theorem token_stays_on_github:
  assumes "maintainer_ScanAll w order s = (results, t)" "RepositoryArchived w owner repo (github_state.truncate t) = (a, g)"
    "LatestCommit w modPath g = (c, u)" "gs_sent s = {#}"
  shows "\<forall>q \<in># gs_sent u. hostMatches (wq_Host q) ''api.github.com''"
proof -
  have 1: "grows (pinned_to githubAPIHost) s t" by (rule maintainer_ScanAll_grows [OF gets_pinned assms(1)])
  have 2: "grows (pinned_to githubAPIHost) t g"
    using RepositoryArchived_grows [OF gets_pinned assms(2)] by (simp add: grows_def)
  have 3: "grows (pinned_to githubAPIHost) g u" by (rule LatestCommit_grows [OF gets_pinned assms(3)])
  then obtain ms where "gs_sent u = gs_sent s + ms" "sent_ok (pinned_to githubAPIHost) ms"
    using grows_trans [OF grows_trans [OF 1 2] 3] by (auto simp: grows_def)
  then show ?thesis using assms(4) by (simp add: sent_ok_def pinned_to_def githubAPIHost_def)
qed

text \<open>A network whose GitHub answers every request with a redirect to another host.\<close>

definition redirecting_net :: network where
  "redirecting_net = \<lparr>nt_parse = (\<lambda>u. Some \<lparr>pu_Scheme = ''https'', pu_HasUser = False,
       pu_Host = (if HasPrefix u ''https://api.github.com/'' then ''api.github.com'' else ''evil.example''), pu_Path = ''/x'', pu_String = u\<rparr>),
     nt_offline = False,
     nt_answer = (\<lambda>q. Some \<lparr>ha_Status = 302, ha_Header = (\<lambda>h. ''https://evil.example/x''), ha_Body = ''''\<rparr>)\<rparr>"

definition quiet_disk :: file_system where
  "quiet_disk = \<lparr>fs_cacheKey = (\<lambda>u. u), fs_now = zero_time, fs_mkdir = True, fs_write = True, fs_rename = True\<rparr>"

definition redirecting_world :: github_world where
  "redirecting_world = \<lparr>gw_net = redirecting_net, gw_fs = quiet_disk, gw_repo = (\<lambda>b. None), gw_user = (\<lambda>b. None),
     gw_contributors = (\<lambda>b. None), gw_commits = (\<lambda>b. None), gw_RFC3339 = (\<lambda>b. None), gw_cancelled = (\<lambda>k. False), gw_ScanStart = zero_time\<rparr>"

definition fresh_scanner :: maintainer_state where
  "fresh_scanner = \<lparr>gs_token = ''secret'', gs_userCache = Map.empty, gs_disk = \<lparr>dc_files = Map.empty, dc_disabled = False\<rparr>,
     gs_repos = Map.empty, gs_users = Map.empty, gs_commits = Map.empty, gs_sent = {#}, gs_cache = Map.empty\<rparr>"

theorem token_stays_on_github_witness:
  "let t = snd (maintainer_ScanAll redirecting_world [(''github.com/a/b'', 0)] fresh_scanner);
       g = snd (RepositoryArchived redirecting_world ''a'' ''c'' (github_state.truncate t));
       u = snd (LatestCommit redirecting_world ''github.com/a/b'' g)
   in \<forall>q \<in># gs_sent u. hostMatches (wq_Host q) ''api.github.com''"
proof -
  define t where "t = snd (maintainer_ScanAll redirecting_world [(''github.com/a/b'', 0)] fresh_scanner)"
  define g where "g = snd (RepositoryArchived redirecting_world ''a'' ''c'' (github_state.truncate t))"
  define u where "u = snd (LatestCommit redirecting_world ''github.com/a/b'' g)"
  have 1: "maintainer_ScanAll redirecting_world [(''github.com/a/b'', 0)] fresh_scanner
      = (fst (maintainer_ScanAll redirecting_world [(''github.com/a/b'', 0)] fresh_scanner), t)"
    unfolding t_def by (rule prod.collapse [symmetric])
  have 2: "RepositoryArchived redirecting_world ''a'' ''c'' (github_state.truncate t)
      = (fst (RepositoryArchived redirecting_world ''a'' ''c'' (github_state.truncate t)), g)"
    unfolding g_def by (rule prod.collapse [symmetric])
  have 3: "LatestCommit redirecting_world ''github.com/a/b'' g = (fst (LatestCommit redirecting_world ''github.com/a/b'' g), u)"
    unfolding u_def by (rule prod.collapse [symmetric])
  have 4: "gs_sent fresh_scanner = {#}" unfolding fresh_scanner_def by (rule github_state.select_convs)
  show ?thesis
    using token_stays_on_github [OF 1 2 3 4] unfolding Let_def t_def g_def u_def .
qed

lemma redirecting_requests:
  "size (gs_sent (snd (RepositoryArchived redirecting_world ''a'' ''c'' (github_state.truncate fresh_scanner)))) = 1"
proof -
  have host: "hostMatches ''api.github.com'' ''api.github.com''" "\<not> EqualFold ''evil.example'' ''api.github.com''"
    by code_simp+
  then show ?thesis
    by (simp add: RepositoryArchived_def repoMeta_def fetchRepo_def githubGet_def github_fetch_def client_Get_def client_do_def
        RoundTrip_def cap_body_def github_options_def no_options_def githubAPIHost_def githubAPIRedirectTarget_def
        isRedirectStatus_def redirecting_world_def redirecting_net_def fresh_scanner_def github_state.defs quiet_disk_def
        disk_Get_def cacheFilePath_def repo_url_def decoded_def Let_def)
qed

section \<open>Who carries a repository\<close>

text \<open>A report without data says nothing of its repository.\<close>

lemma unavailable_says_nothing:
  "repoMeta w owner repo (github_state.truncate s) = (Inl e, g) \<Longrightarrow> gs_cache s (owner @ ''/'' @ repo) = None \<Longrightarrow>
     fst (analyzeRepo w owner repo s) = (unread_report owner repo)\<lparr>ma_UnavailableReason := unavailable_reason e\<rparr>"
  by (simp add: analyzeRepo_def Let_def)

text \<open>More than twenty people with the same share stay below five percent each, and the bus factor is 0.\<close>

definition equal_shares :: "nat \<Rightarrow> github_contributor list" where
  "equal_shares n = replicate n \<lparr>gc_Login = ''dev'', gc_Contributions = 4\<rparr>"

lemma bus_factor_of_a_crowd: "computeBusFactor (equal_shares 25) = 0" "computeBusFactor (equal_shares 20) = 20"
  by code_simp+

text \<open>The contributors that could not be read are none, and none is a single maintainer.\<close>

lemma unread_contributors_are_single:
  "ma_ActivityPattern info = ''inactive'' \<Longrightarrow> mp_Stars info < 100 \<Longrightarrow>
     mp_TakeoverReason (assessTakeover (carried_by [] info)) = ''single maintainer, inactive''"
  by (simp add: assessTakeover_def carried_by_def computeBusFactor_def)

end
