(* ===== verification/Maintenance.thy ===== *)
theory Maintenance
  imports Github Worker_Pool Go_Number Runner_Grade
begin

text \<open>
  \<open>pkg/scanner/maintenance.go\<close> and \<open>pkg/scanner/activity.go\<close>: is a module still maintained? Its releases and the
  notices of its \<open>go.mod\<close> come from the module proxy, its archived flag and the fallback for its activity from
  GitHub. The workers of a scan get their turn in an order that is an argument. \<open>modfile.ParseLax\<close>, \<open>semver\<close> and the
  decoding of JSON are arguments.
\<close>

section \<open>Data\<close>

record maintenance_report = maintenance_record +
  mt_ActivitySource :: string
  mt_ActivityBranch :: string
  mt_LatestVersion :: string

definition new_report :: maintenance_report where
  "new_report = \<lparr>mi_Archived = False, mi_Deprecated = False, mi_DeprecationMessage = '''', mi_MonthsSinceRelease = 0,
     mi_LastActivity = zero_time, mi_MonthsSinceActivity = 0, mr_LastRelease = zero_time, mr_Retracted = False,
     mr_RetractionMessage = '''', mr_ModCheckFailed = False, mr_RepositoryURL = '''', mr_ArchivedCheck = '''',
     mr_RepositoryNotFound = False, mt_ActivitySource = '''', mt_ActivityBranch = '''', mt_LatestVersion = ''''\<rparr>"

definition ActivityViaProxy :: string where "ActivityViaProxy = ''proxy_branch''"
definition ActivityViaGitHub :: string where "ActivityViaGitHub = ''github_commits''"

definition RetractionNotice :: "maintenance_report \<Rightarrow> string" where
  "RetractionNotice m = Join (Fields (mr_RetractionMessage m)) '' ''"

definition AgeAt :: "gotime \<Rightarrow> maintenance_report \<Rightarrow> maintenance_report" where
  "AgeAt now m =
     (let m = m\<lparr>mi_MonthsSinceRelease := scanner_monthsSince now (mr_LastRelease m)\<rparr>
      in if \<not> IsZero (mi_LastActivity m)
         then m\<lparr>mi_MonthsSinceActivity := scanner_monthsSince now (mi_LastActivity m)\<rparr> else m)"

record proxy_version_info =
  pv_Version :: string
  pv_Time :: gotime
  pv_Origin :: "string option"

text \<open>What is read of a \<open>go.mod\<close>: the notice of its module directive, and its retractions.\<close>

record mod_notices =
  mn_Deprecated :: "string option"
  mn_Retract :: "(string \<times> string \<times> string) list"

record maintenance_world =
  mw_net :: network
  mw_fs :: file_system
  mw_info :: "string \<Rightarrow> proxy_version_info option"
  mw_modfile :: "string \<Rightarrow> mod_notices option"
  mw_IsValid :: "string \<Rightarrow> bool"
  mw_Canonical :: "string \<Rightarrow> string"
  mw_Compare :: "string \<Rightarrow> string \<Rightarrow> int"
  mw_proxyURL :: string
  mw_ScanStart :: gotime

record maintenance_state =
  ms_cache :: "string \<Rightarrow> maintenance_report option"
  ms_disk :: disk_cache
  ms_sent :: sent

datatype lookup_error = InvalidVersion string | RequestFailed http_error | ProxyReturned int | InvalidJSON

section \<open>Requests to the proxy\<close>

definition proxy_get :: "maintenance_world \<Rightarrow> string \<Rightarrow> string \<Rightarrow> maintenance_state \<Rightarrow> (http_error + http_answer) \<times> maintenance_state" where
  "proxy_get w url purpose s =
     (let (r, sent) = client_Get (mw_net w) url (no_options\<lparr>op_Host := proxyHost (mw_net w) (mw_proxyURL w), op_Purpose := purpose\<rparr>)
      in (r, s\<lparr>ms_sent := ms_sent s + sent\<rparr>))"

definition proxy_url :: "maintenance_world \<Rightarrow> string \<Rightarrow> string \<Rightarrow> string" where
  "proxy_url w modPath rest = mw_proxyURL w @ ''/'' @ encodeModulePath modPath @ rest"

definition incompatibleSuffix :: string where "incompatibleSuffix = ''+incompatible''"

definition CheckModuleVersion :: "(string \<Rightarrow> bool) \<Rightarrow> (string \<Rightarrow> string) \<Rightarrow> string \<Rightarrow> lookup_error option" where
  "CheckModuleVersion isValid canonical version =
     (let bare = TrimSuffix version incompatibleSuffix
      in if \<not> isValid bare \<or> canonical bare \<noteq> bare then Some (InvalidVersion version) else None)"

definition fetchVersionInfo ::
  "maintenance_world \<Rightarrow> string \<Rightarrow> string \<Rightarrow> maintenance_state \<Rightarrow> (lookup_error + proxy_version_info) \<times> maintenance_state" where
  "fetchVersionInfo w modPath version s =
     (case CheckModuleVersion (mw_IsValid w) (mw_Canonical w) version of
        Some err \<Rightarrow> (Inl err, s)
      | None \<Rightarrow>
          (let (r, s) = proxy_get w (proxy_url w modPath (''/@v/'' @ encodeModulePath version @ ''.info'')) ''maintenance:version-info'' s
           in (case r of
                 Inl e \<Rightarrow> Inl (RequestFailed e)
               | Inr a \<Rightarrow>
                   if ha_Status a \<noteq> 200 then Inl (ProxyReturned (ha_Status a))
                   else (case mw_info w (ha_Body a) of None \<Rightarrow> Inl InvalidJSON | Some info \<Rightarrow> Inr info), s)))"

text \<open>The record of the latest version, and whether the proxy said that there is none.\<close>

definition fetchLatestInfoStatus ::
  "maintenance_world \<Rightarrow> string \<Rightarrow> maintenance_state \<Rightarrow> (proxy_version_info option \<times> bool) \<times> maintenance_state" where
  "fetchLatestInfoStatus w modPath s =
     (let (r, s) = proxy_get w (proxy_url w modPath ''/@latest'') ''maintenance:latest'' s
      in (case r of
            Inl e \<Rightarrow> (None, False)
          | Inr a \<Rightarrow>
              if ha_Status a = 404 \<or> ha_Status a = 410 then (None, True)
              else if ha_Status a \<noteq> 200 then (None, False)
              else (mw_info w (ha_Body a), False), s))"

definition checkDeprecation :: "maintenance_world \<Rightarrow> string \<Rightarrow> maintenance_report \<Rightarrow> maintenance_state \<Rightarrow> maintenance_report \<times> maintenance_state" where
  "checkDeprecation w modPath info s =
     (let (r, s) = proxy_get w (proxy_url w modPath ''/@v/list'') ''maintenance:version-list'' s
      in (case r of
            Inl e \<Rightarrow> info
          | Inr a \<Rightarrow> if ha_Status a = 410 then info\<lparr>mi_Deprecated := True\<rparr> else info, s))"

definition goModDeprecation :: "mod_notices \<Rightarrow> string" where
  "goModDeprecation f = (case mn_Deprecated f of None \<Rightarrow> '''' | Some d \<Rightarrow> TrimSpace d)"

definition retracts :: "maintenance_world \<Rightarrow> string \<Rightarrow> string \<times> string \<times> string \<Rightarrow> bool" where
  "retracts w version = (\<lambda>(low, high, rationale). mw_Compare w version low \<ge> 0 \<and> mw_Compare w version high \<le> 0)"

definition goModRetraction :: "maintenance_world \<Rightarrow> mod_notices \<Rightarrow> string \<Rightarrow> string option" where
  "goModRetraction w f version =
     (if \<not> mw_IsValid w version then None
      else map_option (\<lambda>(low, high, rationale). TrimSpace rationale) (find (retracts w version) (mn_Retract f)))"

definition read_notices :: "maintenance_world \<Rightarrow> mod_notices \<Rightarrow> string \<Rightarrow> maintenance_report \<Rightarrow> maintenance_report" where
  "read_notices w f pinned info =
     (let msg = goModDeprecation f;
          info = (if msg \<noteq> '''' then info\<lparr>mi_Deprecated := True, mi_DeprecationMessage := msg\<rparr> else info)
      in case goModRetraction w f pinned of
           None \<Rightarrow> info
         | Some msg \<Rightarrow> info\<lparr>mr_Retracted := True, mr_RetractionMessage := msg\<rparr>)"

definition checkGoModDeprecation ::
  "maintenance_world \<Rightarrow> string \<Rightarrow> string \<Rightarrow> string \<Rightarrow> maintenance_report \<Rightarrow> maintenance_state \<Rightarrow> maintenance_report \<times> maintenance_state" where
  "checkGoModDeprecation w modPath latest pinned info s =
     (let url = proxy_url w modPath (''/@v/'' @ encodeModulePath latest @ ''.mod'')
      in case disk_Get (mw_fs w) url (ms_disk s) of
           Some body \<Rightarrow>
             (case mw_modfile w body of
                None \<Rightarrow> (info\<lparr>mr_ModCheckFailed := True\<rparr>, s)
              | Some f \<Rightarrow> (read_notices w f pinned info, s))
         | None \<Rightarrow>
             (case proxy_get w url ''maintenance:go-mod'' s of
                (Inl e, s) \<Rightarrow> (info\<lparr>mr_ModCheckFailed := True\<rparr>, s)
              | (Inr a, s) \<Rightarrow>
                  if ha_Status a \<noteq> 200 then (info\<lparr>mr_ModCheckFailed := True\<rparr>, s)
                  else (case mw_modfile w (ha_Body a) of
                      None \<Rightarrow> (info\<lparr>mr_ModCheckFailed := True\<rparr>, s)
                    | Some f \<Rightarrow>
                        (read_notices w f pinned info, s\<lparr>ms_disk := disk_Put (mw_fs w) url (ha_Body a) (ms_disk s)\<rparr>))))"

section \<open>The repository\<close>

definition digit_char :: "char \<Rightarrow> bool" where
  "digit_char c = (digit_of c \<noteq> None)"

text \<open>\<open>URL.Port\<close> and \<open>URL.Hostname\<close>.\<close>

definition url_host_port :: "string \<Rightarrow> string \<times> string" where
  "url_host_port hp =
     (let port = after_last (CHR '':'') hp; has = (CHR '':'' \<in> set hp \<and> list_all (\<lambda>c. digit_char c) port);
          host = (if has then before_last (CHR '':'') hp else hp)
      in (if HasPrefix host ''['' \<and> HasSuffix host '']'' then drop 1 (butlast host) else host, if has then port else ''''))"

definition control_char :: "char \<Rightarrow> bool" where
  "control_char c = (let n = (of_char c :: nat) in n < 32 \<or> n = 127)"

definition normalizeRepositoryURL :: "network \<Rightarrow> string \<Rightarrow> string" where
  "normalizeRepositoryURL nt raw =
     (case nt_parse nt (TrimSpace raw) of
        None \<Rightarrow> ''''
      | Some u \<Rightarrow>
          if pu_Scheme u \<noteq> ''https'' \<or> pu_HasUser u \<or> pu_Host u = '''' then ''''
          else let (name, port) = url_host_port (pu_Host u);
                   name = ToLower name;
                   host = (if port = ''443'' then (if CHR '':'' \<in> set name then ''['' @ name @ '']'' else name)
                           else ToLower (pu_Host u));
                   path = TrimSuffix (Trim (pu_Path u) [CHR ''/'']) ''.git''
               in if path = '''' \<or> list_ex (\<lambda>c. control_char c \<or> is_space c) path then ''''
                  else if host = ''github.com'' then
                    (let parts = Split path (CHR ''/'')
                     in if length parts < 2 \<or> \<not> ownerNamePattern (parts ! 0) \<or> \<not> repoNamePattern (parts ! 1) then ''''
                        else ''https://'' @ host @ ''/'' @ parts ! 0 @ ''/'' @ parts ! 1)
                  else ''https://'' @ host @ ''/'' @ path)"

definition githubRepoFromURL :: "string \<Rightarrow> (string \<times> string) option" where
  "githubRepoFromURL repoURL =
     (if \<not> HasPrefix repoURL ''https://github.com/'' then None
      else case Cut (TrimPrefix repoURL ''https://github.com/'') ''/'' of
          None \<Rightarrow> None
        | Some (owner, repo) \<Rightarrow> if owner \<noteq> '''' \<and> repo \<noteq> '''' \<and> CHR ''/'' \<notin> set repo then Some (owner, repo) else None)"

text \<open>The name and whether the last element of the path ends in \<open>.v\<close> and digits.\<close>

fun last_dot_v :: "string \<Rightarrow> (string \<times> string) option" where
  "last_dot_v [] = None"
| "last_dot_v (c # s) =
     (case last_dot_v s of
        Some (a, b) \<Rightarrow> Some (c # a, b)
      | None \<Rightarrow> if HasPrefix (c # s) ''.v'' then Some ([], drop 2 (c # s)) else None)"

definition gopkgInRepository :: "network \<Rightarrow> string \<Rightarrow> string" where
  "gopkgInRepository nt modPath =
     (if \<not> HasPrefix modPath ''gopkg.in/'' then ''''
      else let parts = Split (TrimPrefix modPath ''gopkg.in/'') (CHR ''/'')
        in case last_dot_v (last parts) of
             None \<Rightarrow> ''''
           | Some (name, version) \<Rightarrow>
               if name = '''' \<or> version = '''' \<or> \<not> list_all digit_char version then ''''
               else if length parts = 1 then normalizeRepositoryURL nt (''https://github.com/go-'' @ name @ ''/'' @ name)
               else if length parts = 2 then normalizeRepositoryURL nt (''https://github.com/'' @ parts ! 0 @ ''/'' @ name)
               else '''')"

definition origin_url :: "network \<Rightarrow> proxy_version_info option \<Rightarrow> string" where
  "origin_url nt v =
     (case v of None \<Rightarrow> '''' | Some i \<Rightarrow> (case pv_Origin i of None \<Rightarrow> '''' | Some u \<Rightarrow> normalizeRepositoryURL nt u))"

definition repository_of :: "network \<Rightarrow> string \<Rightarrow> proxy_version_info option list \<Rightarrow> string" where
  "repository_of nt modPath origins =
     (case find (\<lambda>u. u \<noteq> '''') (map (origin_url nt) origins) of
        Some u \<Rightarrow> u
      | None \<Rightarrow>
          (let (owner, repo) = parseGitHubPath modPath;
               u = (if owner \<noteq> '''' \<and> repo \<noteq> ''''
                    then normalizeRepositoryURL nt (''https://github.com/'' @ owner @ ''/'' @ repo) else '''')
           in if u = '''' then gopkgInRepository nt modPath else u))"

definition resolveRepository ::
  "network \<Rightarrow> string \<Rightarrow> proxy_version_info option list \<Rightarrow> maintenance_report \<Rightarrow> maintenance_report" where
  "resolveRepository nt modPath origins info =
     (let u = repository_of nt modPath origins; info = info\<lparr>mr_RepositoryURL := u\<rparr>
      in if u \<noteq> '''' \<and> githubRepoFromURL u = None then info\<lparr>mr_ArchivedCheck := ArchivedUnsupported\<rparr> else info)"

section \<open>One module\<close>

text \<open>The releases: the pinned version's date, then the latest one's.\<close>

definition released :: "gotime \<Rightarrow> gotime \<Rightarrow> maintenance_report \<Rightarrow> maintenance_report" where
  "released now t info = info\<lparr>mr_LastRelease := t, mi_MonthsSinceRelease := scanner_monthsSince now t\<rparr>"

definition latest_record :: "lookup_error + proxy_version_info \<Rightarrow> proxy_version_info option \<times> bool \<Rightarrow> proxy_version_info option" where
  "latest_record versionInfo latest =
     (case latest of
        (None, True) \<Rightarrow> (case versionInfo of Inl e \<Rightarrow> None | Inr v \<Rightarrow> Some v)
      | (r, noTags) \<Rightarrow> r)"

definition release_data ::
  "gotime \<Rightarrow> lookup_error + proxy_version_info \<Rightarrow> proxy_version_info option \<Rightarrow> maintenance_report" where
  "release_data now versionInfo latestInfo =
     (let info = (case versionInfo of Inl e \<Rightarrow> new_report | Inr v \<Rightarrow> released now (pv_Time v) new_report)
      in case latestInfo of
           None \<Rightarrow> info
         | Some l \<Rightarrow>
             if pv_Version l = '''' then info
             else let info = info\<lparr>mt_LatestVersion := pv_Version l\<rparr>
               in if IsZero (pv_Time l) then info else released now (pv_Time l) info)"

definition maintenance_checkModule ::
  "maintenance_world \<Rightarrow> string \<Rightarrow> string \<Rightarrow> maintenance_state \<Rightarrow> (lookup_error + maintenance_report) \<times> maintenance_state" where
  "maintenance_checkModule w modPath version s =
     (case ms_cache s modPath of
        Some cached \<Rightarrow> (Inr cached, s)
      | None \<Rightarrow>
          (let (versionInfo, s) = fetchVersionInfo w modPath version s;
               (latest, s) = fetchLatestInfoStatus w modPath s;
               latestInfo = latest_record versionInfo latest;
               latestVersion = (case latestInfo of None \<Rightarrow> '''' | Some l \<Rightarrow> pv_Version l);
               info = release_data (mw_ScanStart w) versionInfo latestInfo
           in case (versionInfo, latestVersion) of
                (Inl err, []) \<Rightarrow> (Inl err, s)
              | _ \<Rightarrow>
                  (let origins = latestInfo # (case versionInfo of Inl e \<Rightarrow> [] | Inr v \<Rightarrow> [Some v]);
                       info = resolveRepository (mw_net w) modPath origins info;
                       (info, s) = checkDeprecation w modPath info s;
                       (info, s) = (if latestVersion \<noteq> '''' then checkGoModDeprecation w modPath latestVersion version info s
                                    else (info\<lparr>mr_ModCheckFailed := True\<rparr>, s))
                   in (Inr info, s\<lparr>ms_cache := (ms_cache s)(modPath \<mapsto> info)\<rparr>))))"

section \<open>All modules\<close>

text \<open>What a scan has gathered: the reports, how many modules failed, and the first failure to arrive.\<close>

record maintenance_scan =
  sc_results :: "string \<Rightarrow> maintenance_report option"
  sc_failed :: nat
  sc_firstErr :: "lookup_error option"
  sc_state :: maintenance_state

definition maintenance_step :: "maintenance_world \<Rightarrow> string \<times> string \<Rightarrow> maintenance_scan \<Rightarrow> maintenance_scan" where
  "maintenance_step w = (\<lambda>(path, version) c.
     case maintenance_checkModule w path version (sc_state c) of
       (Inl err, s) \<Rightarrow>
         c\<lparr>sc_failed := sc_failed c + 1, sc_firstErr := (if sc_firstErr c = None then Some err else sc_firstErr c), sc_state := s\<rparr>
     | (Inr info, s) \<Rightarrow> c\<lparr>sc_results := (sc_results c)(path \<mapsto> info), sc_state := s\<rparr>)"

text \<open>The error of a scan: offline or not, how many of how many failed, and the first failure.\<close>

datatype scan_warning = OfflineUnavailable nat nat | LookupsFailed nat nat lookup_error

definition maintenance_ScanAll ::
  "maintenance_world \<Rightarrow> (string \<times> string) list \<Rightarrow> maintenance_state \<Rightarrow> maintenance_scan \<times> scan_warning option" where
  "maintenance_ScanAll w order s =
     (let c = runBounded (maintenance_step w) order \<lparr>sc_results = Map.empty, sc_failed = 0, sc_firstErr = None, sc_state = s\<rparr>
      in (c, case sc_firstErr c of
             None \<Rightarrow> None
           | Some err \<Rightarrow>
               if err = RequestFailed ErrOffline then Some (OfflineUnavailable (sc_failed c) (length order))
               else Some (LookupsFailed (sc_failed c) (length order) err)))"

section \<open>Archived repositories\<close>

text \<open>\<open>ArchiveLookup\<close>: an operation on the state of its provider.\<close>

type_synonym 'l archive_lookup = "string \<Rightarrow> string \<Rightarrow> 'l \<Rightarrow> (github_error + bool) \<times> 'l"
type_synonym reports = "string \<Rightarrow> maintenance_report option"

definition archive_answer :: "github_error + bool \<Rightarrow> maintenance_report \<Rightarrow> maintenance_report" where
  "archive_answer r info =
     (case r of
        Inr archived \<Rightarrow>
          (let info = info\<lparr>mr_ArchivedCheck := ArchivedChecked\<rparr> in if archived then info\<lparr>mi_Archived := True\<rparr> else info)
      | Inl ErrRepositoryNotFound \<Rightarrow> info\<lparr>mr_ArchivedCheck := ArchivedCheckFailed, mr_RepositoryNotFound := True\<rparr>
      | Inl e \<Rightarrow> info\<lparr>mr_ArchivedCheck := ArchivedCheckFailed\<rparr>)"

definition archive_failed :: "github_error + bool \<Rightarrow> bool" where
  "archive_failed r = (case r of Inr a \<Rightarrow> False | Inl e \<Rightarrow> e \<noteq> ErrRepositoryNotFound)"

definition archive_todo :: "reports \<Rightarrow> string \<Rightarrow> (string \<times> string) option" where
  "archive_todo m path = (case m path of None \<Rightarrow> None | Some info \<Rightarrow> githubRepoFromURL (mr_RepositoryURL info))"

definition archive_step :: "'l archive_lookup \<Rightarrow> string \<Rightarrow> reports \<times> nat \<times> 'l \<Rightarrow> reports \<times> nat \<times> 'l" where
  "archive_step lookup path = (\<lambda>(m, failed, l).
     case archive_todo m path of
       None \<Rightarrow> (m, failed, l)
     | Some (owner, repo) \<Rightarrow>
         (let (r, l) = lookup owner repo l
          in (m(path := map_option (archive_answer r) (m path)), if archive_failed r then failed + 1 else failed, l)))"

text \<open>\<open>order\<close> holds the paths of \<open>maintenance\<close>; the paths that are not on GitHub are passed over.\<close>

definition ScanArchived ::
  "bool \<Rightarrow> 'l archive_lookup option \<Rightarrow> string list \<Rightarrow> reports \<Rightarrow> 'l \<Rightarrow> reports \<times> nat \<times> 'l" where
  "ScanArchived offline lookup order m l =
     (case lookup of
        None \<Rightarrow> (m, 0, l)
      | Some f \<Rightarrow> if offline then (m, 0, l) else runBounded (archive_step f) order (m, 0, l))"

section \<open>Activity\<close>

definition fallbackBranches :: "string list" where "fallbackBranches = [''main'', ''master'']"

text \<open>The expression \<open>^[A-Za-z0-9._-]+$\<close>.\<close>

definition branchQueryName :: "string \<Rightarrow> bool" where
  "branchQueryName s = (s \<noteq> [] \<and> list_all (\<lambda>c. alphanumeric c \<or> c = CHR ''.'' \<or> c = CHR ''_'' \<or> c = CHR ''-'') s)"

definition usableBranchQuery :: "maintenance_world \<Rightarrow> string \<Rightarrow> bool" where
  "usableBranchQuery w branch = (branchQueryName branch \<and> \<not> mw_IsValid w branch)"

datatype branch_outcome = BranchFound gotime | BranchNotFound | BranchTransient

definition proxyNotFoundMarkers :: "string list" where
  "proxyNotFoundMarkers = [''unknown revision'', ''invalid version:'']"

definition isDefinitiveNotFound :: "string \<Rightarrow> bool" where
  "isDefinitiveNotFound body = list_ex (Contains body) proxyNotFoundMarkers"

definition parseBranchTime :: "maintenance_world \<Rightarrow> string \<Rightarrow> gotime option" where
  "parseBranchTime w body =
     (case mw_info w body of None \<Rightarrow> None | Some v \<Rightarrow> if IsZero (pv_Time v) then None else Some (pv_Time v))"

definition branch_answer :: "maintenance_world \<Rightarrow> http_error + http_answer \<Rightarrow> branch_outcome" where
  "branch_answer w r =
     (case r of
        Inl e \<Rightarrow> if e = ErrOffline then BranchNotFound else BranchTransient
      | Inr a \<Rightarrow>
          if ha_Status a = 200 then
            (case parseBranchTime w (ha_Body a) of None \<Rightarrow> BranchTransient | Some t \<Rightarrow> BranchFound t)
          else if ha_Status a = 404 \<or> ha_Status a = 410 then
            (if isDefinitiveNotFound (ha_Body a) then BranchNotFound else BranchTransient)
          else BranchTransient)"

definition fetchBranchTime :: "maintenance_world \<Rightarrow> string \<Rightarrow> string \<Rightarrow> maintenance_state \<Rightarrow> branch_outcome \<times> maintenance_state" where
  "fetchBranchTime w modPath branch s =
     (let url = proxy_url w modPath (''/@v/'' @ encodeModulePath branch @ ''.info'')
      in case (case disk_Get (mw_fs w) url (ms_disk s) of None \<Rightarrow> None | Some body \<Rightarrow> parseBranchTime w body) of
           Some t \<Rightarrow> (BranchFound t, s)
         | None \<Rightarrow>
             (let (r, s) = proxy_get w url ''maintenance:branch-info'' s;
                  out = branch_answer w r
              in (out, case (r, out) of
                    (Inr a, BranchFound t) \<Rightarrow> s\<lparr>ms_disk := disk_Put (mw_fs w) url (ha_Body a) (ms_disk s)\<rparr>
                  | _ \<Rightarrow> s)))"

definition setActivity :: "maintenance_world \<Rightarrow> gotime \<Rightarrow> string \<Rightarrow> string \<Rightarrow> maintenance_report \<Rightarrow> maintenance_report" where
  "setActivity w t source branch info =
     info\<lparr>mi_LastActivity := t, mi_MonthsSinceActivity := scanner_monthsSince (mw_ScanStart w) t,
       mt_ActivitySource := source, mt_ActivityBranch := branch\<rparr>"

text \<open>The branches are tried in order until one is found or the proxy fails; the result says which, and whether it failed.\<close>

fun try_branches ::
  "maintenance_world \<Rightarrow> string \<Rightarrow> string list \<Rightarrow> maintenance_state \<Rightarrow> ((gotime \<times> string) option \<times> bool) \<times> maintenance_state" where
  "try_branches w modPath [] s = ((None, False), s)"
| "try_branches w modPath (b # bs) s =
     (case fetchBranchTime w modPath b s of
        (BranchFound t, s) \<Rightarrow> ((Some (t, b), False), s)
      | (BranchTransient, s) \<Rightarrow> ((None, True), s)
      | (BranchNotFound, s) \<Rightarrow> try_branches w modPath bs s)"

text \<open>\<open>CommitLookup\<close>, and what the maintainer scan knows: whether its data is available, and the default branch.\<close>

type_synonym 'l commit_lookup = "string \<Rightarrow> 'l \<Rightarrow> (github_error + gotime) \<times> 'l"

definition branches_for :: "maintenance_world \<Rightarrow> (bool \<times> string) option \<Rightarrow> string list" where
  "branches_for w mi =
     (case mi of
        None \<Rightarrow> fallbackBranches
      | Some (available, branch) \<Rightarrow>
          if available \<and> branch \<noteq> '''' then (if usableBranchQuery w branch then [branch] else []) else fallbackBranches)"

definition lookupActivity ::
  "maintenance_world \<Rightarrow> (bool \<times> string) option \<Rightarrow> 'l commit_lookup option \<Rightarrow> string \<Rightarrow> maintenance_report \<Rightarrow>
    maintenance_state \<times> 'l \<Rightarrow> (bool \<times> maintenance_report) \<times> maintenance_state \<times> 'l" where
  "lookupActivity w mi fallback modPath info = (\<lambda>(s, l).
     let branches = branches_for w mi; ((found, transient), s) = try_branches w modPath branches s
     in case found of
          Some (t, branch) \<Rightarrow> ((True, setActivity w t ActivityViaProxy branch info), s, l)
        | None \<Rightarrow>
            if \<not> transient \<and> branches \<noteq> [] then ((True, info), s, l)
            else case fallback of
                Some f \<Rightarrow>
                  (case f modPath l of
                     (Inl e, l) \<Rightarrow> ((False, info), s, l)
                   | (Inr t, l) \<Rightarrow>
                       if IsZero t then ((False, info), s, l)
                       else ((True, setActivity w t ActivityViaGitHub (case mi of None \<Rightarrow> '''' | Some (a, b) \<Rightarrow> b) info), s, l))
              | None \<Rightarrow> ((\<not> transient, info), s, l))"

definition activity_step ::
  "maintenance_world \<Rightarrow> (string \<Rightarrow> (bool \<times> string) option) \<Rightarrow> 'l commit_lookup option \<Rightarrow> string \<Rightarrow>
    reports \<times> nat \<times> maintenance_state \<times> 'l \<Rightarrow> reports \<times> nat \<times> maintenance_state \<times> 'l" where
  "activity_step w maintainers fallback path = (\<lambda>(m, failed, sl).
     case m path of
       None \<Rightarrow> (m, failed, sl)
     | Some info \<Rightarrow>
         if mi_Archived info then (m, failed, sl)
         else let ((ok, info), sl) = lookupActivity w (maintainers path) fallback path info sl
           in (m(path \<mapsto> info), if ok then failed else failed + 1, sl))"

definition ScanActivity ::
  "maintenance_world \<Rightarrow> (string \<Rightarrow> (bool \<times> string) option) \<Rightarrow> 'l commit_lookup option \<Rightarrow> string list \<Rightarrow>
    reports \<Rightarrow> maintenance_state \<times> 'l \<Rightarrow> reports \<times> nat \<times> maintenance_state \<times> 'l" where
  "ScanActivity w maintainers fallback order m sl =
     (if nt_offline (mw_net w) then (m, 0, sl) else runBounded (activity_step w maintainers fallback) order (m, 0, sl))"

definition activityFallback :: "string \<Rightarrow> bool \<Rightarrow> 'l commit_lookup \<Rightarrow> 'l commit_lookup option" where
  "activityFallback githubToken offlineMode lookup = (if githubToken = '''' \<or> offlineMode then None else Some lookup)"

end
