(* ===== verification/Maintenance_Props.thy ===== *)
theory Maintenance_Props
  imports Maintenance Github_Props
begin

text \<open>
  What the maintenance record promises: an archived flag is the answer GitHub gave or the check says that it failed, the
  notices of a \<open>go.mod\<close> are those of the latest release or their check says that it failed, and a date of activity was
  answered by the proxy or by GitHub.
\<close>

section \<open>The archived lookup\<close>

text \<open>What \<open>ScanArchived\<close> needs of its lookup: an answer is one that was said of the repository, whatever was asked before.\<close>

locale archive_lookup =
  fixes lookup :: "'l archive_lookup" and ok :: "'l \<Rightarrow> bool" and says :: "string \<Rightarrow> bool \<Rightarrow> bool"
  assumes answers: "ok l \<Longrightarrow> lookup owner repo l = (Inr a, l') \<Longrightarrow> says (repo_key owner repo) a"
    and keeps: "ok l \<Longrightarrow> lookup owner repo l = (r, l') \<Longrightarrow> ok l'"
begin

lemma step:
  assumes "ok l" "archive_step lookup p (m, n, l) = (m', n', l')"
  shows "ok l'" "q \<noteq> p \<Longrightarrow> m' q = m q"
    "m p = Some info \<Longrightarrow> githubRepoFromURL (mr_RepositoryURL info) = None \<Longrightarrow> m' p = Some info"
    "m p = Some info \<Longrightarrow> githubRepoFromURL (mr_RepositoryURL info) = Some (owner, repo) \<Longrightarrow>
       \<exists>r. m' p = Some (archive_answer r info) \<and> (\<forall>a. r = Inr a \<longrightarrow> says (repo_key owner repo) a)"
  using assms answers keeps by (auto simp: archive_step_def archive_todo_def split: option.splits prod.splits if_splits)

lemma scan:
  assumes "ok l" "distinct order" "fold (archive_step lookup) order (m, n, l) = (m', n', l')"
  shows "(p \<notin> set order \<longrightarrow> m' p = m p) \<and>
    (\<forall>info. p \<in> set order \<longrightarrow> m p = Some info \<longrightarrow>
       (case githubRepoFromURL (mr_RepositoryURL info) of
          None \<Rightarrow> m' p = Some info
        | Some (owner, repo) \<Rightarrow>
            \<exists>r. m' p = Some (archive_answer r info) \<and> (\<forall>a. r = Inr a \<longrightarrow> says (repo_key owner repo) a)))"
  using assms
proof (induction order arbitrary: m n l)
  case Nil
  then show ?case by simp
next
  case (Cons q order)
  obtain m1 n1 l1 where s: "archive_step lookup q (m, n, l) = (m1, n1, l1)" by (metis prod_cases3)
  have "ok l1" by (rule step(1) [OF Cons.prems(1) s])
  moreover have "distinct order" "q \<notin> set order" using Cons.prems(2) by auto
  moreover have "fold (archive_step lookup) order (m1, n1, l1) = (m', n', l')" using Cons.prems(3) s by simp
  ultimately have rest: "(p \<notin> set order \<longrightarrow> m' p = m1 p) \<and>
    (\<forall>info. p \<in> set order \<longrightarrow> m1 p = Some info \<longrightarrow>
       (case githubRepoFromURL (mr_RepositoryURL info) of
          None \<Rightarrow> m' p = Some info
        | Some (owner, repo) \<Rightarrow>
            \<exists>r. m' p = Some (archive_answer r info) \<and> (\<forall>a. r = Inr a \<longrightarrow> says (repo_key owner repo) a)))"
    using Cons.IH by blast
  show ?case
  proof (cases "p = q")
    case True
    then have "m' p = m1 p" using rest \<open>q \<notin> set order\<close> by blast
    then show ?thesis
      using True step(3,4) [OF Cons.prems(1) s] by (auto split: option.split)
  next
    case False
    then have "m1 p = m p" by (rule step(2) [OF Cons.prems(1) s])
    then show ?thesis using rest False by simp
  qed
qed

end

text \<open>
  Where the body of a URL comes from: GitHub answered it in this scan, or the disk cache of the start of the scan holds
  it, at most 24 hours old. The disk cache knows a URL by the name of its file only, so both may be of another URL
  whose file has that name.
\<close>

definition body_heard :: "github_world \<Rightarrow> string \<Rightarrow> disk_cache \<Rightarrow> string \<Rightarrow> string \<Rightarrow> bool" where
  "body_heard w token d url body =
     ((\<exists>asked sent. cacheFilePath (gw_fs w) asked = cacheFilePath (gw_fs w) url \<and>
         github_fetch (gw_net w) asked (github_options token ''maintainer:repo'') = (Inr body, sent)) \<or>
      (\<exists>t. dc_files d (cacheFilePath (gw_fs w) url) = Some (Stored t (Some body)) \<and>
         Sub (fs_now (gw_fs w)) t \<le> 24 * 60 * 60 * 10 ^ 9))"

text \<open>A record of a repository: decoded from the body of its URL, or from that of a repository it names as its new name.\<close>

definition record_heard :: "github_world \<Rightarrow> string \<Rightarrow> disk_cache \<Rightarrow> string \<Rightarrow> github_repo \<Rightarrow> bool" where
  "record_heard w token d key rec =
     (\<exists>owner repo body. body_heard w token d (repo_url owner repo) body \<and> gw_repo w body = Some rec \<and>
        (repo_key owner repo = key \<or>
         (\<exists>o' n. canonicalRepoName (gr_FullName rec) = (o', n) \<and> o' \<noteq> '''' \<and> repo_key o' n = key)))"

definition flag_heard :: "github_world \<Rightarrow> string \<Rightarrow> disk_cache \<Rightarrow> string \<Rightarrow> bool \<Rightarrow> bool" where
  "flag_heard w token d key a = (\<exists>rec. record_heard w token d key rec \<and> gr_Archived rec = a)"

text \<open>What the lookups keep: every body the disk cache answers and every record in memory was heard.\<close>

definition heard_only :: "github_world \<Rightarrow> string \<Rightarrow> disk_cache \<Rightarrow> github_state \<Rightarrow> bool" where
  "heard_only w token d s =
     (gs_token s = token \<and>
      (\<forall>url body. disk_Get (gw_fs w) url (gs_disk s) = Some body \<longrightarrow> body_heard w token d url body) \<and>
      (\<forall>key rec. gs_repos s key = Some (Inr rec) \<longrightarrow> record_heard w token d key rec))"

lemma heard_only_start: "gs_repos s = Map.empty \<Longrightarrow> heard_only w (gs_token s) (gs_disk s) s"
  by (auto simp: heard_only_def body_heard_def disk_Get_def defaultCacheTTL_def split: if_splits option.splits cache_file.splits)

lemma disk_Get_Put_other:
  "disk_Get fs url (disk_Put fs url' body c) = Some b \<Longrightarrow>
     (cacheFilePath fs url' = cacheFilePath fs url \<and> b = body) \<or> disk_Get fs url c = Some b"
  by (auto simp: disk_Get_def disk_Put_def Let_def split: if_splits option.splits cache_file.splits)

lemma once_set_other: "once_set k v m key = Some r \<Longrightarrow> m key = Some r \<or> (key = k \<and> r = Inr v)"
  by (auto simp: once_set_def split: if_splits)

lemma githubGet_heard:
  assumes "heard_only w token d s" "githubGet w url ''maintainer:repo'' s = (x, t)"
  shows "heard_only w token d t" "x = Inr body \<Longrightarrow> body_heard w token d url body"
proof -
  have "heard_only w token d t \<and> (x = Inr body \<longrightarrow> body_heard w token d url body)"
  proof (cases "disk_Get (gw_fs w) url (gs_disk s)")
    case (Some b)
    then show ?thesis using assms by (auto simp: githubGet_def heard_only_def)
  next
    case None
    obtain r sent where f: "github_fetch (gw_net w) url (github_options token ''maintainer:repo'') = (r, sent)" by fastforce
    show ?thesis
    proof (cases r)
      case (Inl e)
      then show ?thesis using None f assms by (auto simp: githubGet_def heard_only_def)
    next
      case (Inr b)
      then have xt: "x = Inr b" "gs_token t = gs_token s" "gs_repos t = gs_repos s" "gs_disk t = disk_Put (gw_fs w) url b (gs_disk s)"
        using None f assms by (auto simp: githubGet_def heard_only_def)
      have "body_heard w token d u b" if "cacheFilePath (gw_fs w) url = cacheFilePath (gw_fs w) u" for u
        using that f Inr unfolding body_heard_def by blast
      then show ?thesis
        using xt assms(1) unfolding heard_only_def by (auto dest!: disk_Get_Put_other)
    qed
  qed
  then show "heard_only w token d t" "x = Inr body \<Longrightarrow> body_heard w token d url body" by auto
qed

lemma fetchRepo_heard:
  assumes "heard_only w token d s" "fetchRepo w owner repo s = (r, t)"
  shows "heard_only w token d t" "r = Inr rec \<Longrightarrow> record_heard w token d (repo_key owner repo) rec"
proof -
  obtain x where g: "githubGet w (repo_url owner repo) ''maintainer:repo'' s = (x, t)" and r: "r = decoded (gw_repo w) x"
    using assms(2) by (auto simp: fetchRepo_def split: prod.splits)
  show "heard_only w token d t" by (rule githubGet_heard(1) [OF assms(1) g])
  show "record_heard w token d (repo_key owner repo) rec" if "r = Inr rec"
    using that r githubGet_heard(2) [OF assms(1) g] unfolding record_heard_def
    by (fastforce simp: decoded_def split: sum.splits option.splits)
qed

text \<open>A record that is also filed under the name it gives itself was heard of that name.\<close>

lemma record_heard_canonical:
  "record_heard w token d key rec \<Longrightarrow> canonicalRepoName (gr_FullName rec) = (o', n) \<Longrightarrow> o' \<noteq> '''' \<Longrightarrow>
     record_heard w token d (repo_key o' n) rec"
  unfolding record_heard_def by blast

lemma repoMeta_heard:
  assumes "heard_only w token d s" "repoMeta w owner repo s = (r, t)"
  shows "heard_only w token d t" "r = Inr rec \<Longrightarrow> record_heard w token d (repo_key owner repo) rec"
proof -
  let ?key = "repo_key owner repo"
  obtain x u where x: "(case gs_repos s ?key of Some r \<Rightarrow> (r, s)
      | None \<Rightarrow> let (r, s) = fetchRepo w owner repo s
          in (r, s\<lparr>gs_repos := once_keep (gw_cancelled w ?key) ?key r (gs_repos s)\<rparr>)) = (x, u)" by fastforce
  have good: "record_heard w token d ?key rec" if "x = Inr rec" for rec
    using x that assms(1) fetchRepo_heard(2) [OF assms(1), of owner repo]
    by (auto simp: heard_only_def Let_def split: option.splits prod.splits)
  have u: "heard_only w token d u"
  proof (cases "gs_repos s ?key")
    case (Some r)
    then show ?thesis using x assms(1) by simp
  next
    case None
    then obtain v where f: "fetchRepo w owner repo s = (x, v)"
        and uv: "u = v\<lparr>gs_repos := once_keep (gw_cancelled w ?key) ?key x (gs_repos v)\<rparr>"
      using x by (auto simp: Let_def split: prod.splits)
    have "heard_only w token d v" by (rule fetchRepo_heard(1) [OF assms(1) f])
    then show ?thesis using good unfolding uv by (auto simp: heard_only_def once_keep_def)
  qed
  have m: "repoMeta w owner repo s = (case x of
      Inl e \<Rightarrow> (x, u)
    | Inr rec \<Rightarrow> let (o', n) = canonicalRepoName (gr_FullName rec)
        in if o' \<noteq> '''' then (x, u\<lparr>gs_repos := once_set (repo_key o' n) rec (gs_repos u)\<rparr>) else (x, u))"
    using x by (simp add: repoMeta_def Let_def)
  then have "r = x" using assms(2) by (auto simp: Let_def split: sum.splits prod.splits if_splits)
  then show "r = Inr rec \<Longrightarrow> record_heard w token d ?key rec" using good by simp
  show "heard_only w token d t"
  proof (cases "t = u")
    case True
    then show ?thesis using u by simp
  next
    case False
    then obtain rec o' n where c: "x = Inr rec" "canonicalRepoName (gr_FullName rec) = (o', n)" "o' \<noteq> ''''"
        "t = u\<lparr>gs_repos := once_set (repo_key o' n) rec (gs_repos u)\<rparr>"
      using m assms(2) by (auto simp: Let_def split: sum.splits prod.splits if_splits)
    have "record_heard w token d (repo_key o' n) rec" by (rule record_heard_canonical [OF good [OF c(1)] c(2,3)])
    then show ?thesis using u unfolding c(4) by (auto simp: heard_only_def dest!: once_set_other)
  qed
qed

interpretation github_archive: archive_lookup "RepositoryArchived w" "heard_only w token d" "flag_heard w token d" for w token d
proof
  show "flag_heard w token d (repo_key owner repo) a"
    if "heard_only w token d l" "RepositoryArchived w owner repo l = (Inr a, l')" for l owner repo a l'
    using that(2) repoMeta_heard(2) [OF that(1), of owner repo]
    by (auto simp: RepositoryArchived_def flag_heard_def split: prod.splits sum.splits)
  show "heard_only w token d l'" if "heard_only w token d l" "RepositoryArchived w owner repo l = (r, l')" for l owner repo r l'
    using that(2) repoMeta_heard(1) [OF that(1), of owner repo] by (auto simp: RepositoryArchived_def split: prod.splits)
qed

section \<open>A scan for maintenance data\<close>

text \<open>A report of such a scan has no archived flag yet, and its check is open or not supported.\<close>

definition archive_open :: "maintenance_report \<Rightarrow> bool" where
  "archive_open info =
     (\<not> mi_Archived info \<and> mr_ArchivedCheck info =
        (if mr_RepositoryURL info \<noteq> '''' \<and> githubRepoFromURL (mr_RepositoryURL info) = None then ArchivedUnsupported else ''''))"

lemma new_report_archived [simp]: "\<not> mi_Archived new_report" "mr_ArchivedCheck new_report = ''''"
  by (simp_all add: new_report_def)

lemma release_data_archived [simp]:
  "\<not> mi_Archived (release_data now v l)" "mr_ArchivedCheck (release_data now v l) = ''''"
  by (simp_all add: release_data_def released_def Let_def split: sum.split option.split)

lemma resolveRepository_archive_open: "archive_open (resolveRepository nt p os (release_data now v l))"
  by (auto simp: resolveRepository_def archive_open_def Let_def)

lemma read_notices_archive_open [simp]: "archive_open (read_notices w f p info) = archive_open info"
  by (auto simp: read_notices_def archive_open_def Let_def split: option.split)

lemma checkDeprecation_archive_open: "checkDeprecation w p info s = (info', t) \<Longrightarrow> archive_open info' = archive_open info"
  by (auto simp: checkDeprecation_def archive_open_def split: prod.splits sum.splits if_splits)

lemma checkGoModDeprecation_archive_open:
  "checkGoModDeprecation w p latest v info s = (info', t) \<Longrightarrow> archive_open info' = archive_open info"
  by (auto simp: checkGoModDeprecation_def Let_def split: option.splits prod.splits sum.splits if_splits)
    (simp_all add: archive_open_def)

lemma proxy_get_cache: "proxy_get w url purpose s = (r, t) \<Longrightarrow> ms_cache t = ms_cache s"
  by (auto simp: proxy_get_def split: prod.splits)

lemma fetch_caches:
  "fetchVersionInfo w p v s = (x, t) \<Longrightarrow> ms_cache t = ms_cache s"
  "fetchLatestInfoStatus w p s = (y, t) \<Longrightarrow> ms_cache t = ms_cache s"
  "checkDeprecation w p info s = (z, t) \<Longrightarrow> ms_cache t = ms_cache s"
  "checkGoModDeprecation w p latest v info s = (z, t) \<Longrightarrow> ms_cache t = ms_cache s"
  by (auto simp: fetchVersionInfo_def fetchLatestInfoStatus_def checkDeprecation_def checkGoModDeprecation_def Let_def
      dest: proxy_get_cache split: option.splits prod.splits sum.splits if_splits)

text \<open>A module that is not in the cache: its steps.\<close>

lemma maintenance_checkModule_steps:
  assumes "maintenance_checkModule w p v s = (Inr info, t)" "ms_cache s p = None"
  obtains vi s1 l s2 s3 info3 s4 where
    "fetchVersionInfo w p v s = (vi, s1)" "fetchLatestInfoStatus w p s1 = (l, s2)"
    "checkDeprecation w p (resolveRepository (mw_net w) p
        (latest_record vi l # (case vi of Inl e \<Rightarrow> [] | Inr x \<Rightarrow> [Some x])) (release_data (mw_ScanStart w) vi (latest_record vi l))) s2
      = (info3, s3)"
    "(let latest = (case latest_record vi l of None \<Rightarrow> '''' | Some x \<Rightarrow> pv_Version x)
      in if latest \<noteq> '''' then checkGoModDeprecation w p latest v info3 s3 else (info3\<lparr>mr_ModCheckFailed := True\<rparr>, s3)) = (info, s4)"
    "t = s4\<lparr>ms_cache := (ms_cache s4)(p \<mapsto> info)\<rparr>"
proof -
  obtain vi s1 where a: "fetchVersionInfo w p v s = (vi, s1)" by fastforce
  obtain l s2 where b: "fetchLatestInfoStatus w p s1 = (l, s2)" by fastforce
  obtain info3 s3 where c: "checkDeprecation w p (resolveRepository (mw_net w) p
        (latest_record vi l # (case vi of Inl e \<Rightarrow> [] | Inr x \<Rightarrow> [Some x])) (release_data (mw_ScanStart w) vi (latest_record vi l))) s2
      = (info3, s3)" by fastforce
  obtain info4 s4 where d: "(let latest = (case latest_record vi l of None \<Rightarrow> '''' | Some x \<Rightarrow> pv_Version x)
      in if latest \<noteq> '''' then checkGoModDeprecation w p latest v info3 s3 else (info3\<lparr>mr_ModCheckFailed := True\<rparr>, s3)) = (info4, s4)"
    by fastforce
  have "info4 = info" "t = s4\<lparr>ms_cache := (ms_cache s4)(p \<mapsto> info)\<rparr>"
    using assms(1) assms(2) a b c d by (auto simp: maintenance_checkModule_def Let_def split: sum.splits list.splits)
  then show ?thesis using that [OF a b c] d by simp
qed

lemma maintenance_checkModule_archive_open:
  assumes "maintenance_checkModule w p v s = (r, t)" "\<And>q i. ms_cache s q = Some i \<Longrightarrow> archive_open i"
  shows "(\<forall>i. r = Inr i \<longrightarrow> archive_open i) \<and> (\<forall>q i. ms_cache t q = Some i \<longrightarrow> archive_open i)"
proof (cases r)
  case (Inl e)
  then have "ms_cache t = ms_cache s"
    using assms(1)
    by (auto simp: maintenance_checkModule_def Let_def split: option.splits prod.splits sum.splits list.splits if_splits)
      (metis fetch_caches(1,2))+
  then show ?thesis using Inl assms(2) by simp
next
  case (Inr info)
  show ?thesis
  proof (cases "ms_cache s p")
    case (Some i)
    then show ?thesis using assms by (auto simp: maintenance_checkModule_def)
  next
    case None
    obtain vi s1 l s2 s3 info3 s4 where e: "fetchVersionInfo w p v s = (vi, s1)" "fetchLatestInfoStatus w p s1 = (l, s2)"
      "checkDeprecation w p (resolveRepository (mw_net w) p
        (latest_record vi l # (case vi of Inl e \<Rightarrow> [] | Inr x \<Rightarrow> [Some x])) (release_data (mw_ScanStart w) vi (latest_record vi l))) s2
      = (info3, s3)"
      "(let latest = (case latest_record vi l of None \<Rightarrow> '''' | Some x \<Rightarrow> pv_Version x)
      in if latest \<noteq> '''' then checkGoModDeprecation w p latest v info3 s3 else (info3\<lparr>mr_ModCheckFailed := True\<rparr>, s3)) = (info, s4)"
      "t = s4\<lparr>ms_cache := (ms_cache s4)(p \<mapsto> info)\<rparr>"
      using maintenance_checkModule_steps assms(1) None Inr by metis
    have "archive_open info3" using checkDeprecation_archive_open [OF e(3)] resolveRepository_archive_open by simp
    moreover have "archive_open (info3\<lparr>mr_ModCheckFailed := True\<rparr>) = archive_open info3" by (simp add: archive_open_def)
    ultimately have "archive_open info"
      using e(4) checkGoModDeprecation_archive_open by (auto simp: Let_def split: if_splits)
    moreover have "ms_cache s4 = ms_cache s"
      using e(4) fetch_caches(1) [OF e(1)] fetch_caches(2) [OF e(2)] fetch_caches(3) [OF e(3)] fetch_caches(4)
      by (auto simp: Let_def split: if_splits)
    ultimately show ?thesis using e(5) Inr assms(2) by auto
  qed
qed

lemma maintenance_step_archive_open:
  assumes "\<And>q i. ms_cache (sc_state c) q = Some i \<Longrightarrow> archive_open i" "\<And>q i. sc_results c q = Some i \<Longrightarrow> archive_open i"
  shows "(\<forall>q i. ms_cache (sc_state (maintenance_step w x c)) q = Some i \<longrightarrow> archive_open i) \<and>
     (\<forall>q i. sc_results (maintenance_step w x c) q = Some i \<longrightarrow> archive_open i)"
proof -
  obtain p v where x: "x = (p, v)" by fastforce
  obtain r t where r: "maintenance_checkModule w p v (sc_state c) = (r, t)" by fastforce
  show ?thesis
    using maintenance_checkModule_archive_open [OF r assms(1)] assms(2) r x by (auto simp: maintenance_step_def split: sum.splits)
qed

lemma maintenance_fold_archive_open:
  assumes "\<And>q i. ms_cache (sc_state c) q = Some i \<Longrightarrow> archive_open i" "\<And>q i. sc_results c q = Some i \<Longrightarrow> archive_open i"
    "sc_results (fold (maintenance_step w) order c) p = Some info"
  shows "archive_open info"
  using assms
proof (induction order arbitrary: c)
  case Nil
  then show ?case by simp
next
  case (Cons x order)
  show ?case
    using Cons.IH [of "maintenance_step w x c"] maintenance_step_archive_open [of c w x] Cons.prems by (metis fold_simps(2))
qed

lemma archive_answer_open:
  "archive_open info \<Longrightarrow> mr_RepositoryURL (archive_answer r info) = mr_RepositoryURL info \<and>
     (case r of
        Inr a \<Rightarrow> mr_ArchivedCheck (archive_answer r info) = ArchivedChecked \<and> mi_Archived (archive_answer r info) = a
      | Inl e \<Rightarrow> mr_ArchivedCheck (archive_answer r info) = ArchivedCheckFailed \<and> \<not> mi_Archived (archive_answer r info))"
  by (cases r) (auto simp: archive_answer_def archive_open_def Let_def split: github_error.split)

text \<open>C36: Scanning for maintenance data and then for archived repositories: a flag that is said to have been checked is
  the flag of a record that GitHub sent during the scan, or that the disk cache held at its start and was at most 24
  hours old, for the repository itself or for one whose record names it as its canonical name; a check that failed
  leaves no flag, and a module that is not on GitHub has none. The in-memory caches are empty at the start; nothing is
  assumed of the disk cache, which may hold a stale flag for its 24 hours and whose files may share a name.\<close>

theorem archived_flag_is_githubs:
  assumes "maintenance_ScanAll w modules s = (c, warning)" "ms_cache s = Map.empty"
    "gs_repos l = Map.empty" "distinct order" "set order = dom (sc_results c)"
    "ScanArchived False (Some (RepositoryArchived g)) order (sc_results c) l = (m, failed, l')" "m p = Some info"
  shows "case githubRepoFromURL (mr_RepositoryURL info) of
       None \<Rightarrow> \<not> mi_Archived info \<and> mr_ArchivedCheck info = (if mr_RepositoryURL info = '''' then '''' else ArchivedUnsupported)
     | Some (owner, repo) \<Rightarrow>
         (mr_ArchivedCheck info = ArchivedChecked \<and>
          flag_heard g (gs_token l) (gs_disk l) (repo_key owner repo) (mi_Archived info)) \<or>
         (mr_ArchivedCheck info = ArchivedCheckFailed \<and> \<not> mi_Archived info)"
proof -
  note start = heard_only_start [OF assms(3), of g]
  have scan: "fold (archive_step (RepositoryArchived g)) order (sc_results c, 0, l) = (m, failed, l')"
    using assms(6) by (simp add: ScanArchived_def runBounded_def)
  have p: "p \<in> set order"
  proof (rule ccontr)
    assume "p \<notin> set order"
    then have "m p = sc_results c p" using github_archive.scan [OF start assms(4) scan] by blast
    then show False using \<open>p \<notin> set order\<close> assms(5,7) by auto
  qed
  then obtain i where i: "sc_results c p = Some i" using assms(5) by auto
  have "archive_open i"
    using maintenance_fold_archive_open [of "\<lparr>sc_results = Map.empty, sc_failed = 0, sc_firstErr = None, sc_state = s\<rparr>" w modules p i]
      i assms(1,2) by (auto simp: maintenance_ScanAll_def runBounded_def Let_def)
  show ?thesis
  proof (cases "githubRepoFromURL (mr_RepositoryURL i)")
    case None
    then have "info = i" using github_archive.scan [OF start assms(4) scan, of p] p i assms(7) by simp
    then show ?thesis using None \<open>archive_open i\<close> by (auto simp: archive_open_def)
  next
    case (Some or)
    then obtain r where "info = archive_answer r i" "\<And>a. r = Inr a \<Longrightarrow> flag_heard g (gs_token l) (gs_disk l) (repo_key (fst or) (snd or)) a"
      using github_archive.scan [OF start assms(4) scan, of p] p i assms(7) by (auto split: prod.splits)
    then show ?thesis using Some archive_answer_open [OF \<open>archive_open i\<close>, of r] by (auto split: sum.splits prod.splits)
  qed
qed

text \<open>A proxy and a GitHub that know one module of one archived repository.\<close>

definition example_net :: network where
  "example_net = \<lparr>nt_parse = (\<lambda>u. Some \<lparr>pu_Scheme = ''https'', pu_HasUser = False,
       pu_Host = (if HasPrefix u ''https://api.github.com/'' then ''api.github.com''
                  else if HasPrefix u ''https://github.com/'' then ''github.com'' else ''proxy.golang.org''),
       pu_Path = (if HasPrefix u ''https://github.com/'' then ''/a/b'' else ''/x''), pu_String = u\<rparr>),
     nt_offline = False, nt_answer = (\<lambda>q. Some \<lparr>ha_Status = 200, ha_Header = (\<lambda>h. ''''), ha_Body = ''x''\<rparr>)\<rparr>"

definition example_proxy :: maintenance_world where
  "example_proxy = \<lparr>mw_net = example_net, mw_fs = quiet_disk,
     mw_info = (\<lambda>b. Some \<lparr>pv_Version = ''v1.0.0'', pv_Time = zero_time\<lparr>t_ns := 99\<rparr>, pv_Origin = None\<rparr>),
     mw_modfile = (\<lambda>b. Some \<lparr>mn_Deprecated = Some ''use c instead'', mn_Retract = [(''v1.0.0'', ''v1.0.0'', ''broken'')]\<rparr>),
     mw_IsValid = (\<lambda>v. HasPrefix v ''v1''), mw_Canonical = (\<lambda>v. v), mw_Compare = (\<lambda>a b. 0),
     mw_proxyURL = ''https://proxy.golang.org'', mw_ScanStart = zero_time\<lparr>t_ns := 999\<rparr>\<rparr>"

definition empty_state :: maintenance_state where
  "empty_state = \<lparr>ms_cache = Map.empty, ms_disk = \<lparr>dc_files = Map.empty, dc_disabled = False\<rparr>, ms_sent = {#}\<rparr>"

definition archived_repo :: github_repo where
  "archived_repo = \<lparr>gr_FullName = ''a/b'', gr_Description = '''', gr_Archived = True, gr_Fork = False, gr_Stars = 5, gr_Forks = 0,
     gr_OpenIssues = 0, gr_PushedAt = '''', gr_CreatedAt = '''', gr_DefaultBranch = ''main'', gr_License = None, gr_OwnerType = ''User''\<rparr>"

definition example_github :: github_world where
  "example_github = redirecting_world\<lparr>gw_net := example_net, gw_repo := (\<lambda>b. Some archived_repo)\<rparr>"

definition example_scan :: "maintenance_scan \<times> scan_warning option" where
  "example_scan = maintenance_ScanAll example_proxy [(''github.com/a/b'', ''v1.0.0'')] empty_state"

lemma example_scan_dom: "set [''github.com/a/b''] = dom (sc_results (fst example_scan))"
proof -
  have "\<not> isl (fst (maintenance_checkModule example_proxy ''github.com/a/b'' ''v1.0.0'' empty_state))" by code_simp
  then obtain info t where "maintenance_checkModule example_proxy ''github.com/a/b'' ''v1.0.0'' empty_state = (Inr info, t)"
    by (metis isl_def prod.collapse sum.exhaust_sel)
  then show ?thesis by (simp add: example_scan_def maintenance_ScanAll_def runBounded_def maintenance_step_def Let_def)
qed

definition example_archived :: "reports \<times> nat \<times> github_state" where
  "example_archived = ScanArchived False (Some (RepositoryArchived example_github)) [''github.com/a/b'']
     (sc_results (fst example_scan)) (github_state.truncate fresh_scanner)"

lemma example_archived_report:
  "case fst example_archived ''github.com/a/b'' of
     None \<Rightarrow> False
   | Some i \<Rightarrow> mi_Archived i \<and> mr_ArchivedCheck i = ArchivedChecked \<and> mr_RepositoryURL i = ''https://github.com/a/b''"
  by code_simp

theorem archived_flag_is_githubs_witness:
  "\<exists>i. fst example_archived ''github.com/a/b'' = Some i \<and>
     (case githubRepoFromURL (mr_RepositoryURL i) of
       None \<Rightarrow> \<not> mi_Archived i \<and> mr_ArchivedCheck i = (if mr_RepositoryURL i = '''' then '''' else ArchivedUnsupported)
     | Some (owner, repo) \<Rightarrow>
         (mr_ArchivedCheck i = ArchivedChecked \<and>
          flag_heard example_github (gs_token (github_state.truncate fresh_scanner)) (gs_disk (github_state.truncate fresh_scanner))
            (repo_key owner repo) (mi_Archived i)) \<or>
         (mr_ArchivedCheck i = ArchivedCheckFailed \<and> \<not> mi_Archived i))"
proof -
  obtain m f l' where a: "ScanArchived False (Some (RepositoryArchived example_github)) [''github.com/a/b'']
     (sc_results (fst example_scan)) (github_state.truncate fresh_scanner) = (m, f, l')" by (metis prod_cases3)
  obtain i where i: "m ''github.com/a/b'' = Some i"
    using example_archived_report a by (auto simp: example_archived_def split: option.splits)
  have s: "maintenance_ScanAll example_proxy [(''github.com/a/b'', ''v1.0.0'')] empty_state = (fst example_scan, snd example_scan)"
    by (simp add: example_scan_def)
  have e: "ms_cache empty_state = Map.empty" by (simp add: empty_state_def)
  have d: "distinct [''github.com/a/b'']" by simp
  have r: "gs_repos (github_state.truncate fresh_scanner) = Map.empty" by (simp add: fresh_scanner_def github_state.defs)
  show ?thesis
    using archived_flag_is_githubs [OF s e r d example_scan_dom a i] i a unfolding example_archived_def by auto
qed

end
