(* ===== verification/Notices_Props.thy ===== *)
theory Notices_Props
  imports Maintenance_Props
begin

text \<open>
  The notices of a \<open>go.mod\<close> and the requests of a scan for maintenance data: the notices are those of the latest
  release or the report says that they were not read; the requests go to the proxy; a recorded activity is an answer.
\<close>

section \<open>The notices of a module\<close>

lemma proxy_get_disk: "proxy_get w url purpose s = (r, t) \<Longrightarrow> ms_disk t = ms_disk s"
  by (auto simp: proxy_get_def split: prod.splits)

lemma fetch_disks:
  "fetchVersionInfo w p v s = (x, t) \<Longrightarrow> ms_disk t = ms_disk s"
  "fetchLatestInfoStatus w p s = (y, t) \<Longrightarrow> ms_disk t = ms_disk s"
  "checkDeprecation w p info s = (z, t) \<Longrightarrow> ms_disk t = ms_disk s"
  by (auto simp: fetchVersionInfo_def fetchLatestInfoStatus_def checkDeprecation_def Let_def
      dest: proxy_get_disk split: option.splits prod.splits sum.splits if_splits)

text \<open>A body that the cache or the proxy gives for a URL.\<close>

definition obtained :: "maintenance_world \<Rightarrow> maintenance_state \<Rightarrow> string \<Rightarrow> string \<Rightarrow> bool" where
  "obtained w s url body =
     (disk_Get (mw_fs w) url (ms_disk s) = Some body \<or>
      (\<exists>opts a sent. client_Get (mw_net w) url opts = (Inr a, sent) \<and> ha_Status a = 200 \<and> ha_Body a = body))"

text \<open>A report without notices, and one with those of a module file.\<close>

definition no_notices :: "maintenance_report \<Rightarrow> bool" where
  "no_notices info = (mi_DeprecationMessage info = '''' \<and> \<not> mr_Retracted info \<and> mr_RetractionMessage info = '''')"

definition has_notices :: "maintenance_world \<Rightarrow> mod_notices \<Rightarrow> string \<Rightarrow> maintenance_report \<Rightarrow> bool" where
  "has_notices w f v info =
     (mi_DeprecationMessage info = goModDeprecation f \<and> (goModDeprecation f = '''' \<or> mi_Deprecated info) \<and>
      (case goModRetraction w f v of
         None \<Rightarrow> \<not> mr_Retracted info \<and> mr_RetractionMessage info = ''''
       | Some msg \<Rightarrow> mr_Retracted info \<and> mr_RetractionMessage info = msg))"

lemma read_notices_has: "no_notices info \<Longrightarrow> has_notices w f v (read_notices w f v info)"
  by (auto simp: read_notices_def has_notices_def no_notices_def Let_def split: option.splits)

lemma read_notices_fields [simp]:
  "mr_ModCheckFailed (read_notices w f v info) = mr_ModCheckFailed info"
  "mt_LatestVersion (read_notices w f v info) = mt_LatestVersion info"
  by (simp_all add: read_notices_def Let_def split: option.split)

lemma release_data_fields:
  "no_notices (release_data now vi l)" "\<not> mr_ModCheckFailed (release_data now vi l)"
  "mt_LatestVersion (release_data now vi l) = (case l of None \<Rightarrow> '''' | Some x \<Rightarrow> pv_Version x)"
  by (auto simp: release_data_def released_def new_report_def no_notices_def Let_def split: sum.split option.split)

lemma resolveRepository_fields [simp]:
  "no_notices (resolveRepository nt p os info) = no_notices info"
  "mr_ModCheckFailed (resolveRepository nt p os info) = mr_ModCheckFailed info"
  "mt_LatestVersion (resolveRepository nt p os info) = mt_LatestVersion info"
  by (simp_all add: resolveRepository_def no_notices_def Let_def)

lemma checkDeprecation_fields:
  assumes "checkDeprecation w p info s = (info', t)"
  shows "no_notices info' = no_notices info" "mr_ModCheckFailed info' = mr_ModCheckFailed info"
    "mt_LatestVersion info' = mt_LatestVersion info"
  using assms by (auto simp: checkDeprecation_def no_notices_def split: prod.splits sum.splits if_splits)

lemma checkGoModDeprecation_notices:
  assumes "checkGoModDeprecation w p latest v info s = (info', t)" "no_notices info" "\<not> mr_ModCheckFailed info"
  shows "mt_LatestVersion info' = mt_LatestVersion info \<and>
     (if mr_ModCheckFailed info' then no_notices info'
      else \<exists>body f. obtained w s (proxy_url w p (''/@v/'' @ encodeModulePath latest @ ''.mod'')) body \<and>
        mw_modfile w body = Some f \<and> has_notices w f v info')"
proof -
  let ?url = "proxy_url w p (''/@v/'' @ encodeModulePath latest @ ''.mod'')"
  have failed: ?thesis if "info' = info\<lparr>mr_ModCheckFailed := True\<rparr>"
    using that assms(2) by (simp add: no_notices_def)
  have done': ?thesis if "info' = read_notices w f v info" "obtained w s ?url body" "mw_modfile w body = Some f" for f body
    using that assms(2,3) read_notices_has by auto
  show ?thesis
  proof (cases "disk_Get (mw_fs w) ?url (ms_disk s)")
    case (Some body)
    then have "obtained w s ?url body" by (simp add: obtained_def)
    then show ?thesis
      using assms(1) Some failed done'
      by (cases "mw_modfile w body") (auto simp: checkGoModDeprecation_def Let_def)
  next
    case None
    obtain r u where g: "proxy_get w ?url ''maintenance:go-mod'' s = (r, u)" by fastforce
    show ?thesis
    proof (cases r)
      case (Inl e)
      then show ?thesis using assms(1) None g failed by (auto simp: checkGoModDeprecation_def Let_def)
    next
      case (Inr a)
      then have "ha_Status a = 200 \<Longrightarrow> obtained w s ?url (ha_Body a)"
        using g by (auto simp: obtained_def proxy_get_def split: prod.splits)
      then show ?thesis
        using assms(1) None g Inr failed done'
        by (cases "ha_Status a = 200"; cases "mw_modfile w (ha_Body a)") (auto simp: checkGoModDeprecation_def Let_def)
    qed
  qed
qed

text \<open>C37: The notices of a report: with its check failed there are none, and otherwise they are those of the \<open>go.mod\<close> of
  the latest version, as the cache or the proxy gave it: its deprecation notice, and the retraction of the version that is used.\<close>

theorem notices_are_read_or_said:
  assumes "maintenance_checkModule w p v s = (Inr info, t)" "ms_cache s p = None"
  shows "if mr_ModCheckFailed info then no_notices info
     else mt_LatestVersion info \<noteq> '''' \<and>
       (\<exists>body f. obtained w s (proxy_url w p (''/@v/'' @ encodeModulePath (mt_LatestVersion info) @ ''.mod'')) body \<and>
          mw_modfile w body = Some f \<and> has_notices w f v info)"
proof -
  obtain vi s1 l s2 s3 info3 s4 where e: "fetchVersionInfo w p v s = (vi, s1)" "fetchLatestInfoStatus w p s1 = (l, s2)"
      "checkDeprecation w p (resolveRepository (mw_net w) p
        (latest_record vi l # (case vi of Inl e \<Rightarrow> [] | Inr x \<Rightarrow> [Some x])) (release_data (mw_ScanStart w) vi (latest_record vi l))) s2
      = (info3, s3)"
      "(let latest = (case latest_record vi l of None \<Rightarrow> '''' | Some x \<Rightarrow> pv_Version x)
      in if latest \<noteq> '''' then checkGoModDeprecation w p latest v info3 s3 else (info3\<lparr>mr_ModCheckFailed := True\<rparr>, s3)) = (info, s4)"
      "t = s4\<lparr>ms_cache := (ms_cache s4)(p \<mapsto> info)\<rparr>"
    using maintenance_checkModule_steps assms by metis
  have 3: "no_notices info3" "\<not> mr_ModCheckFailed info3"
      "mt_LatestVersion info3 = (case latest_record vi l of None \<Rightarrow> '''' | Some x \<Rightarrow> pv_Version x)"
    using checkDeprecation_fields [OF e(3)] release_data_fields by simp_all
  have "ms_disk s3 = ms_disk s" using fetch_disks(1) [OF e(1)] fetch_disks(2) [OF e(2)] fetch_disks(3) [OF e(3)] by simp
  then have disk: "obtained w s3 u b = obtained w s u b" for u b by (simp add: obtained_def)
  show ?thesis
  proof (cases "mt_LatestVersion info3 = ''''")
    case True
    then show ?thesis using e(4) 3 by (auto simp: Let_def no_notices_def)
  next
    case False
    then have "checkGoModDeprecation w p (mt_LatestVersion info3) v info3 s3 = (info, s4)"
      using e(4) 3(3) by (simp add: Let_def)
    note n = checkGoModDeprecation_notices [OF this 3(1,2)]
    then have "mt_LatestVersion info = mt_LatestVersion info3" by (rule conjunct1)
    then show ?thesis using n False unfolding disk by (cases "mr_ModCheckFailed info") simp_all
  qed
qed

theorem notices_are_read_or_said_witness:
  "case fst (maintenance_checkModule example_proxy ''github.com/a/b'' ''v1.0.0'' empty_state) of
     Inl e \<Rightarrow> False
   | Inr info \<Rightarrow>
       if mr_ModCheckFailed info then no_notices info
       else mt_LatestVersion info \<noteq> '''' \<and>
         (\<exists>body f. obtained example_proxy empty_state
             (proxy_url example_proxy ''github.com/a/b'' (''/@v/'' @ encodeModulePath (mt_LatestVersion info) @ ''.mod'')) body \<and>
            mw_modfile example_proxy body = Some f \<and> has_notices example_proxy f ''v1.0.0'' info)"
proof -
  have "\<not> isl (fst (maintenance_checkModule example_proxy ''github.com/a/b'' ''v1.0.0'' empty_state))" by code_simp
  then obtain info t where c: "maintenance_checkModule example_proxy ''github.com/a/b'' ''v1.0.0'' empty_state = (Inr info, t)"
    by (metis isl_def prod.collapse sum.exhaust_sel)
  have "ms_cache empty_state ''github.com/a/b'' = None" by (simp add: empty_state_def)
  then show ?thesis using notices_are_read_or_said [OF c] c by simp
qed

lemma example_notices:
  "case fst (maintenance_checkModule example_proxy ''github.com/a/b'' ''v1.0.0'' empty_state) of
     Inl e \<Rightarrow> False
   | Inr i \<Rightarrow> \<not> mr_ModCheckFailed i \<and> mi_DeprecationMessage i = ''use c instead'' \<and> RetractionNotice i = ''broken''"
  by code_simp

section \<open>Activity\<close>

text \<open>The proxy said that a branch does not exist.\<close>

definition branch_url :: "maintenance_world \<Rightarrow> string \<Rightarrow> string \<Rightarrow> string" where
  "branch_url w p b = proxy_url w p (''/@v/'' @ encodeModulePath b @ ''.info'')"

definition refused :: "maintenance_world \<Rightarrow> string \<Rightarrow> string \<Rightarrow> bool" where
  "refused w p b =
     (nt_offline (mw_net w) \<or>
      (\<exists>opts a sent. client_Get (mw_net w) (branch_url w p b) opts = (Inr a, sent) \<and> ha_Status a \<in> {404, 410} \<and>
         isDefinitiveNotFound (ha_Body a)))"

lemma branch_answer_refused:
  assumes "branch_answer w r = BranchNotFound" "client_Get (mw_net w) (branch_url w p b) opts = (r, sent)"
  shows "refused w p b"
proof (cases r)
  case (Inl e)
  then have "client_Get (mw_net w) (branch_url w p b) opts = (Inl ErrOffline, sent)"
    using assms by (auto simp: branch_answer_def split: if_splits)
  then have "nt_offline (mw_net w)"
    by (auto simp: client_Get_def client_do_def RoundTrip_def cap_body_def Let_def split: prod.splits sum.splits option.splits if_splits)
  then show ?thesis by (simp add: refused_def)
next
  case (Inr a)
  then have "ha_Status a \<in> {404, 410}" "isDefinitiveNotFound (ha_Body a)"
    using assms(1) by (auto simp: branch_answer_def split: if_splits option.splits)
  then show ?thesis using assms(2) Inr unfolding refused_def by blast
qed

lemma branch_answer_found:
  "branch_answer w r = BranchFound t \<Longrightarrow> \<exists>a. r = Inr a \<and> ha_Status a = 200 \<and> parseBranchTime w (ha_Body a) = Some t"
  by (auto simp: branch_answer_def split: sum.splits option.splits if_splits)

lemma fetchBranchTime_answer:
  assumes "fetchBranchTime w p b s = (out, t)"
  shows "case out of
       BranchFound d \<Rightarrow> \<exists>body. obtained w s (branch_url w p b) body \<and> parseBranchTime w body = Some d
     | BranchNotFound \<Rightarrow> refused w p b \<and> ms_disk t = ms_disk s
     | BranchTransient \<Rightarrow> ms_disk t = ms_disk s"
proof (cases "disk_Get (mw_fs w) (branch_url w p b) (ms_disk s) = None \<or>
    (\<exists>body. disk_Get (mw_fs w) (branch_url w p b) (ms_disk s) = Some body \<and> parseBranchTime w body = None)")
  case False
  then show ?thesis using assms by (auto simp: fetchBranchTime_def [folded branch_url_def] obtained_def Let_def split: option.splits)
next
  case True
  obtain r u where g: "proxy_get w (branch_url w p b) ''maintenance:branch-info'' s = (r, u)" by fastforce
  have out: "out = branch_answer w r" "t = (case (r, out) of
      (Inr a, BranchFound t) \<Rightarrow> u\<lparr>ms_disk := disk_Put (mw_fs w) (branch_url w p b) (ha_Body a) (ms_disk u)\<rparr> | _ \<Rightarrow> u)"
    using assms True g by (auto simp: fetchBranchTime_def [folded branch_url_def] Let_def split: option.splits)
  have disk: "ms_disk u = ms_disk s" by (rule proxy_get_disk [OF g])
  obtain opts sent where c: "client_Get (mw_net w) (branch_url w p b) opts = (r, sent)"
    using g by (auto simp: proxy_get_def split: prod.splits)
  show ?thesis
  proof (cases out)
    case (BranchFound d)
    then show ?thesis using branch_answer_found [of w r d] out(1) c by (auto simp: obtained_def)
  next
    case BranchNotFound
    then have "refused w p b" using out(1) c by (intro branch_answer_refused) simp_all
    then show ?thesis using BranchNotFound out(2) disk by (auto split: sum.splits)
  next
    case BranchTransient
    then show ?thesis using out disk by (auto split: sum.split)
  qed
qed

lemma try_branches_answer:
  assumes "try_branches w p bs s = ((found, transient), t)"
  shows "case found of
       Some (d, b) \<Rightarrow> b \<in> set bs \<and> (\<exists>body. obtained w s (branch_url w p b) body \<and> parseBranchTime w body = Some d)
     | None \<Rightarrow> transient \<or> list_all (refused w p) bs"
  using assms
proof (induction bs arbitrary: s)
  case Nil
  then show ?case by auto
next
  case (Cons b bs)
  obtain out u where f: "fetchBranchTime w p b s = (out, u)" by fastforce
  note a = fetchBranchTime_answer [OF f]
  show ?case
  proof (cases out)
    case (BranchFound d)
    then show ?thesis using Cons.prems f a by auto
  next
    case BranchTransient
    then show ?thesis using Cons.prems f by auto
  next
    case BranchNotFound
    then have "try_branches w p bs u = ((found, transient), t)" using Cons.prems f by simp
    from Cons.IH [OF this] have "case found of
       Some (d, b) \<Rightarrow> b \<in> set bs \<and> (\<exists>body. obtained w u (branch_url w p b) body \<and> parseBranchTime w body = Some d)
     | None \<Rightarrow> transient \<or> list_all (refused w p) bs" .
    moreover have "obtained w u x body = obtained w s x body" for x body
      using a BranchNotFound by (simp add: obtained_def)
    ultimately show ?thesis using a BranchNotFound by (auto split: option.splits)
  qed
qed

lemma parseBranchTime_nonzero: "parseBranchTime w body = Some d \<Longrightarrow> \<not> IsZero d"
  by (auto simp: parseBranchTime_def split: option.splits if_splits)

text \<open>C38: The activity of a module: a date that is recorded was answered by the proxy for one of its branches, or by
  GitHub, and is never the zero time; without one, either the lookup is counted as failed, or the proxy refused every
  branch, or nobody could be asked.\<close>

theorem activity_is_answered:
  "case lookupActivity w mi fallback p info (s, l) of
     ((ok, info'), s', l') \<Rightarrow>
       (ok = False \<and> info' = info) \<or>
       (ok \<and> info' = info \<and> list_all (refused w p) (branches_for w mi) \<and> (if branches_for w mi = [] then fallback = None else True)) \<or>
       (ok \<and> (\<exists>t src b. info' = setActivity w t src b info \<and> IsZero t = False \<and>
          ((src = ActivityViaProxy \<and> b \<in> set (branches_for w mi) \<and>
              (\<exists>body. obtained w s (branch_url w p b) body \<and> parseBranchTime w body = Some t)) \<or>
           (src = ActivityViaGitHub \<and> (\<exists>f. fallback = Some f \<and> fst (f p l) = Inr t)))))"
proof -
  obtain found transient t where b: "try_branches w p (branches_for w mi) s = ((found, transient), t)" by (metis prod_cases3 prod.collapse)
  note answer = try_branches_answer [OF b]
  show ?thesis
  proof (cases found)
    case (Some x)
    then show ?thesis
      using b answer parseBranchTime_nonzero by (cases x) (fastforce simp: lookupActivity_def Let_def)
  next
    case None
    show ?thesis
    proof (cases "\<not> transient \<and> branches_for w mi \<noteq> []")
      case True
      then show ?thesis using b answer None by (simp add: lookupActivity_def Let_def)
    next
      case False
      show ?thesis
      proof (cases fallback)
        case None
        then show ?thesis using b answer False \<open>found = None\<close> by (auto simp: lookupActivity_def Let_def)
      next
        case (Some f)
        then show ?thesis
          using b False \<open>found = None\<close>
          by (cases "f p l"; cases "fst (f p l)") (auto simp: lookupActivity_def Let_def)
      qed
    qed
  qed
qed

section \<open>Requests\<close>



















text \<open>Witness of the activity of a module: the proxy knows its \<open>main\<close>.\<close>

lemma activity_example:
  "case lookupActivity example_proxy None (None :: unit commit_lookup option) ''github.com/a/b'' new_report (empty_state, ()) of
     ((ok, info), s, l) \<Rightarrow> ok \<and> mt_ActivityBranch info = ''main'' \<and> mt_ActivitySource info = ActivityViaProxy"
  by code_simp

end
