(* ===== verification/Threat_Intel.thy ===== *)
theory Threat_Intel
  imports Http_Client Govulncheck
begin

text \<open>
  \<open>pkg/scanner/threatintel.go\<close> and \<open>enrichThreatIntelStale\<close> of \<open>pkg/scanner/vuln.go\<close>: the exploitation scores of
  FIRST and the catalog of known exploited vulnerabilities of CISA, each with a cache on disk, and what they say of
  every advisory. A cache file is what decoding it gives; JSON, \<open>strconv.ParseFloat\<close> and the disk are arguments. A score is a
  number: \<open>NaN\<close>, which passes the test of its range in the source, is not modelled.
\<close>

section \<open>Data\<close>

record epss_entry =
  ee_Score :: double
  ee_Percentile :: double
  ee_Date :: string

record kev_entry =
  ke_CVEID :: string
  ke_DateAdded :: string
  ke_Ransomware :: string

text \<open>A row of an answer: the identifier, the score and the percentile as text, the date.\<close>

type_synonym epss_row = "string \<times> string \<times> string \<times> string"

record 'a intel_file =
  if_Version :: int
  if_FetchedAt :: gotime
  if_Entry :: 'a

datatype write_outcome = Written | Untouched | Torn

record intel_world =
  iw_net :: network
  iw_epss :: "string \<Rightarrow> epss_row list option"
  iw_kev :: "string \<Rightarrow> kev_entry list option"
  iw_ParseFloat :: "string \<Rightarrow> double option"
  iw_http_text :: "http_error \<Rightarrow> string"
  iw_json_text :: "string \<Rightarrow> string"
  iw_write :: "string \<Rightarrow> write_outcome"
  iw_now :: gotime

text \<open>The files by their names, and the requests that were sent.\<close>

record intel_state =
  is_epss :: "string \<Rightarrow> epss_entry option intel_file option"
  is_kev :: "(string \<Rightarrow> kev_entry option) option intel_file option"
  is_sent :: sent

record kev_catalog =
  kc_Entries :: "(string \<Rightarrow> kev_entry option) option"
  kc_Stale :: bool
  kc_StaleSince :: gotime

definition epssHost :: string where "epssHost = ''api.first.org''"
definition kevHost :: string where "kevHost = ''www.cisa.gov''"
definition epssURL :: string where "epssURL = ''https://api.first.org/data/v1/epss''"
definition kevURL :: string where
  "kevURL = ''https://www.cisa.gov/sites/default/files/feeds/known_exploited_vulnerabilities.json''"
definition epssBatchSize :: nat where "epssBatchSize = 100"
definition epssMaxBytes :: int where "epssMaxBytes = 512 * 1024"
definition kevMaxBytes :: int where "kevMaxBytes = 8 * 1024 * 1024"
definition kevCatalogFile :: string where "kevCatalogFile = ''catalog.json''"
definition threatIntelCacheTTL :: int where "threatIntelCacheTTL = 24 * hour"
definition threatIntelCacheVers :: int where "threatIntelCacheVers = 1"
definition KEVMaxStaleAge :: int where "KEVMaxStaleAge = 30 * 24 * hour"

section \<open>The caches\<close>

definition stored :: "write_outcome \<Rightarrow> 'a \<Rightarrow> 'a option \<Rightarrow> 'a option" where
  "stored w new old = (case w of Written \<Rightarrow> Some new | Untouched \<Rightarrow> old | Torn \<Rightarrow> None)"

definition fresh_file :: "gotime \<Rightarrow> 'a intel_file \<Rightarrow> bool" where
  "fresh_file t f = (if_Version f = threatIntelCacheVers \<and> Sub t (if_FetchedAt f) \<le> threatIntelCacheTTL)"

text \<open>A hit that is \<open>None\<close> is a score that does not exist.\<close>

definition loadEPSSCache :: "intel_world \<Rightarrow> string \<Rightarrow> intel_state \<Rightarrow> epss_entry option option" where
  "loadEPSSCache w i s =
     (case is_epss s i of None \<Rightarrow> None | Some f \<Rightarrow> if fresh_file (iw_now w) f then Some (if_Entry f) else None)"

definition saveEPSSCache :: "intel_world \<Rightarrow> string \<Rightarrow> epss_entry option \<Rightarrow> intel_state \<Rightarrow> intel_state" where
  "saveEPSSCache w i e s =
     s\<lparr>is_epss := (is_epss s)(i := stored (iw_write w (''epss/'' @ i @ ''.json''))
         \<lparr>if_Version = threatIntelCacheVers, if_FetchedAt = iw_now w, if_Entry = e\<rparr> (is_epss s i))\<rparr>"

definition loadKEVCache :: "intel_world \<Rightarrow> intel_state \<Rightarrow> (string \<Rightarrow> kev_entry option) option" where
  "loadKEVCache w s =
     (case is_kev s of None \<Rightarrow> None | Some f \<Rightarrow> if fresh_file (iw_now w) f then if_Entry f else None)"

definition loadStaleKEVCache :: "intel_state \<Rightarrow> ((string \<Rightarrow> kev_entry option) \<times> gotime) option" where
  "loadStaleKEVCache s =
     (case is_kev s of
        None \<Rightarrow> None
      | Some f \<Rightarrow>
          (case if_Entry f of
             None \<Rightarrow> None
           | Some m \<Rightarrow>
               if if_Version f \<noteq> threatIntelCacheVers \<or> IsZero (if_FetchedAt f) then None else Some (m, if_FetchedAt f)))"

definition saveKEVCache :: "intel_world \<Rightarrow> (string \<Rightarrow> kev_entry option) \<Rightarrow> intel_state \<Rightarrow> intel_state" where
  "saveKEVCache w m s =
     s\<lparr>is_kev := stored (iw_write w (''kev/'' @ kevCatalogFile))
         \<lparr>if_Version = threatIntelCacheVers, if_FetchedAt = iw_now w, if_Entry = Some m\<rparr> (is_kev s)\<rparr>"

section \<open>EPSS\<close>

definition intel_get ::
  "intel_world \<Rightarrow> string \<Rightarrow> string \<Rightarrow> int \<Rightarrow> string \<Rightarrow> intel_state \<Rightarrow> (http_error + http_answer) \<times> intel_state" where
  "intel_get w url host maxBytes purpose s =
     (let (r, sent) = client_Get (iw_net w) url
        (no_options\<lparr>op_Host := host, op_MaxBytes := maxBytes, op_Accept := ''application/json'', op_Purpose := purpose\<rparr>)
      in (r, s\<lparr>is_sent := is_sent s + sent\<rparr>))"

definition in_unit :: "double \<Rightarrow> bool" where
  "in_unit x = (0 \<le> x \<and> x \<le> 1)"

definition epss_row :: "intel_world \<Rightarrow> epss_row \<Rightarrow> (string \<times> epss_entry) option" where
  "epss_row w = (\<lambda>(cve, score, percentile, date).
     case iw_ParseFloat w (TrimSpace score) of
       None \<Rightarrow> None
     | Some x \<Rightarrow>
         if \<not> in_unit x then None
         else Some (cve, \<lparr>ee_Score = x,
           ee_Percentile = (case iw_ParseFloat w (TrimSpace percentile) of
               None \<Rightarrow> 0
             | Some p \<Rightarrow> if in_unit p then p else 0),
           ee_Date = date\<rparr>))"

text \<open>Of two rows of one identifier the later one counts.\<close>

definition epss_rows :: "intel_world \<Rightarrow> epss_row list \<Rightarrow> string \<Rightarrow> epss_entry option" where
  "epss_rows w rows = map_of (rev (List.map_filter (epss_row w) rows))"

definition fetchEPSSBatch :: "intel_world \<Rightarrow> string list \<Rightarrow> intel_state \<Rightarrow> (string + (string \<Rightarrow> epss_entry option)) \<times> intel_state" where
  "fetchEPSSBatch w batch s =
     (let (r, s) = intel_get w (epssURL @ ''?cve='' @ Join batch '','') epssHost epssMaxBytes ''threatintel:epss'' s
      in (case r of
            Inl e \<Rightarrow> Inl (''EPSS fetch error: '' @ iw_http_text w e)
          | Inr a \<Rightarrow>
              if ha_Status a \<noteq> 200 then Inl (''EPSS returned HTTP '' @ itoa (ha_Status a))
              else (case iw_epss w (ha_Body a) of
                  None \<Rightarrow> Inl (''EPSS JSON parse error: '' @ iw_json_text w (ha_Body a))
                | Some rows \<Rightarrow> Inr (epss_rows w rows)), s))"

function epss_batches :: "string list \<Rightarrow> string list list" where
  "epss_batches ids = (if ids = [] then [] else take epssBatchSize ids # epss_batches (drop epssBatchSize ids))"
  by pat_completeness auto
termination by (relation "measure length") (auto simp: epssBatchSize_def)

declare epss_batches.simps [simp del]

text \<open>What was found, the identifiers that are not in the cache, and the first failure.\<close>

type_synonym epss_found = "string \<Rightarrow> epss_entry option"

definition epss_asked :: "string \<Rightarrow> bool" where
  "epss_asked i = (HasPrefix i ''CVE-'' \<and> validateVulnID i)"

definition epss_cached :: "intel_world \<Rightarrow> intel_state \<Rightarrow> string \<Rightarrow> epss_found \<Rightarrow> epss_found" where
  "epss_cached w s i scores =
     (case loadEPSSCache w i s of Some (Some e) \<Rightarrow> scores(i \<mapsto> e) | _ \<Rightarrow> scores)"

definition epss_take :: "intel_world \<Rightarrow> epss_found \<Rightarrow> string \<Rightarrow> epss_found \<times> intel_state \<Rightarrow> epss_found \<times> intel_state" where
  "epss_take w fetched i = (\<lambda>(scores, s).
     case fetched i of
       Some e \<Rightarrow> (scores(i \<mapsto> e), saveEPSSCache w i (Some e) s)
     | None \<Rightarrow> (scores, saveEPSSCache w i None s))"

definition epss_step ::
  "intel_world \<Rightarrow> string list \<Rightarrow> epss_found \<times> string option \<times> intel_state \<Rightarrow> epss_found \<times> string option \<times> intel_state" where
  "epss_step w batch = (\<lambda>(scores, firstErr, s).
     case fetchEPSSBatch w batch s of
       (Inl e, s) \<Rightarrow> (scores, (if firstErr = None then Some e else firstErr), s)
     | (Inr fetched, s) \<Rightarrow>
         (let (scores, s) = fold (epss_take w fetched) batch (scores, s) in (scores, firstErr, s)))"

definition LookupEPSS :: "intel_world \<Rightarrow> string list \<Rightarrow> intel_state \<Rightarrow> epss_found \<times> string option \<times> intel_state" where
  "LookupEPSS w cveIDs s =
     (let asked = filter epss_asked cveIDs;
          scores = fold (epss_cached w s) asked Map.empty;
          misses = filter (\<lambda>i. loadEPSSCache w i s = None) asked
      in fold (epss_step w) (epss_batches misses) (scores, None, s))"

section \<open>KEV\<close>

definition kev_map :: "kev_entry list \<Rightarrow> string \<Rightarrow> kev_entry option" where
  "kev_map es = map_of (rev (map (\<lambda>e. (ke_CVEID e, e)) (filter (\<lambda>e. ke_CVEID e \<noteq> '''') es)))"

definition fetchKEV :: "intel_world \<Rightarrow> intel_state \<Rightarrow> (string + (string \<Rightarrow> kev_entry option)) \<times> intel_state" where
  "fetchKEV w s =
     (let (r, s) = intel_get w kevURL kevHost kevMaxBytes ''threatintel:kev'' s
      in (case r of
            Inl e \<Rightarrow> Inl (''KEV catalog fetch error: '' @ iw_http_text w e)
          | Inr a \<Rightarrow>
              if ha_Status a \<noteq> 200 then Inl (''KEV catalog returned HTTP '' @ itoa (ha_Status a))
              else (case iw_kev w (ha_Body a) of
                  None \<Rightarrow> Inl (''KEV catalog JSON parse error: '' @ iw_json_text w (ha_Body a))
                | Some es \<Rightarrow> Inr (kev_map es)), s))"

definition no_catalog :: kev_catalog where
  "no_catalog = \<lparr>kc_Entries = None, kc_Stale = False, kc_StaleSince = zero_time\<rparr>"

text \<open>Whole days of a duration, by way of its hours.\<close>

definition hours_days :: "int \<Rightarrow> int" where
  "hours_days d = go_int (ddiv (Hours d) 24)"

definition LoadKEVCatalog :: "intel_world \<Rightarrow> intel_state \<Rightarrow> kev_catalog \<times> string option \<times> intel_state" where
  "LoadKEVCatalog w s =
     (case loadKEVCache w s of
        Some m \<Rightarrow> (no_catalog\<lparr>kc_Entries := Some m\<rparr>, None, s)
      | None \<Rightarrow>
          (case fetchKEV w s of
             (Inr m, s) \<Rightarrow> (no_catalog\<lparr>kc_Entries := Some m\<rparr>, None, saveKEVCache w m s)
           | (Inl err, s) \<Rightarrow>
               (case loadStaleKEVCache s of
                  None \<Rightarrow> (no_catalog, Some err, s)
                | Some (m, since) \<Rightarrow>
                    (let age = Sub (iw_now w) since
                     in if age > KEVMaxStaleAge then
                          (no_catalog, Some (err @ ''; the cached copy from '' @ fmt_iso_date (UTC since) @ '' is '' @
                             itoa (hours_days age) @ '' days old, older than the '' @ itoa (hours_days KEVMaxStaleAge) @
                             '' days allowed''), s)
                        else (\<lparr>kc_Entries = Some m, kc_Stale = True, kc_StaleSince = since\<rparr>, None, s)))))"

definition LoadKEV :: "intel_world \<Rightarrow> intel_state \<Rightarrow> (string \<Rightarrow> kev_entry option) option \<times> string option \<times> intel_state" where
  "LoadKEV w s = (let (c, err, s) = LoadKEVCatalog w s in (kc_Entries c, err, s))"

definition kevStaleWarning :: "gotime \<Rightarrow> gotime \<Rightarrow> string" where
  "kevStaleWarning since t =
     ''CISA KEV catalog could not be refreshed; using the copy from '' @ fmt_iso_date (UTC since) @ '' ('' @
       itoa (hours_days (Sub t since)) @ '' days old)''"

section \<open>Every advisory\<close>

record intel_vulnerability = gvc_vulnerability +
  v_EPSSPercentile :: "double option"
  v_EPSSDate :: string
  v_KEVDateAdded :: string
  v_KEVCatalogStaleSince :: "gotime option"

definition scored_by :: "epss_found \<Rightarrow> string \<Rightarrow> intel_vulnerability \<Rightarrow> intel_vulnerability" where
  "scored_by epss cve v =
     (case epss cve of
        None \<Rightarrow> v
      | Some e \<Rightarrow> v\<lparr>v_EPSSScore := Some (ee_Score e), v_EPSSPercentile := Some (ee_Percentile e), v_EPSSDate := ee_Date e\<rparr>)"

definition listed_by :: "kev_catalog \<Rightarrow> string \<Rightarrow> intel_vulnerability \<Rightarrow> intel_vulnerability" where
  "listed_by cat cve v =
     (case kc_Entries cat of
        None \<Rightarrow> v
      | Some kev \<Rightarrow>
          (let v = v\<lparr>v_KEVChecked := True\<rparr>;
               v = (if kc_Stale cat then v\<lparr>v_KEVCatalogStaleSince := Some (kc_StaleSince cat)\<rparr> else v)
           in case kev cve of
                None \<Rightarrow> v
              | Some e \<Rightarrow> v\<lparr>v_InKEV := True, v_KEVDateAdded := ke_DateAdded e, v_KEVRansomware := ke_Ransomware e\<rparr>))"

definition with_intel :: "epss_found \<Rightarrow> kev_catalog \<Rightarrow> intel_vulnerability \<Rightarrow> intel_vulnerability" where
  "with_intel epss cat v =
     (let cve = CVEAlias v in if cve = '''' then v else listed_by cat cve (scored_by epss cve v))"

text \<open>Modules with their advisories, in the order of the map.\<close>

type_synonym scan_results = "(string \<times> intel_vulnerability list) list"

definition cve_ids :: "scan_results \<Rightarrow> string list" where
  "cve_ids results = sort_strings (remdups (filter (\<lambda>c. c \<noteq> '''') (map CVEAlias (concat (map snd results)))))"

definition epss_warning :: "string option \<Rightarrow> string list" where
  "epss_warning err =
     (case err of
        None \<Rightarrow> []
      | Some e \<Rightarrow> [''EPSS lookup incomplete; exploitation probability may be missing for some CVEs: '' @ e])"

definition kev_unavailable :: "string \<Rightarrow> string" where
  "kev_unavailable e = ''CISA KEV catalog unavailable; known-exploited status unchecked: '' @ e"

definition kev_warnings :: "intel_world \<Rightarrow> kev_catalog \<Rightarrow> string option \<Rightarrow> string list" where
  "kev_warnings w cat err =
     (if kc_Stale cat then [kevStaleWarning (kc_StaleSince cat) (iw_now w)] else []) @
     (case err of None \<Rightarrow> [] | Some e \<Rightarrow> [kev_unavailable e])"

definition enrichThreatIntelStale ::
  "intel_world \<Rightarrow> scan_results \<Rightarrow> intel_state \<Rightarrow> scan_results \<times> string list \<times> gotime \<times> intel_state" where
  "enrichThreatIntelStale w results s =
     (let cveIDs = cve_ids results
      in if cveIDs = [] then (results, [], zero_time, s)
         else let (epss, epssErr, s) = LookupEPSS w cveIDs s;
                  (cat, kevErr, s) = LoadKEVCatalog w s
           in (map (\<lambda>(m, vs). (m, map (with_intel epss cat) vs)) results,
               epss_warning epssErr @ kev_warnings w cat kevErr,
               if kc_Stale cat then kc_StaleSince cat else zero_time, s))"

definition enrichThreatIntel :: "intel_world \<Rightarrow> scan_results \<Rightarrow> intel_state \<Rightarrow> scan_results \<times> string list \<times> intel_state" where
  "enrichThreatIntel w results s =
     (let (results, warnings, since, s) = enrichThreatIntelStale w results s in (results, warnings, s))"

end
