(* ===== verification/Threat_Intel_Props.thy ===== *)
theory Threat_Intel_Props
  imports Threat_Intel
begin

text \<open>
  What the threat intelligence says of an advisory: its known-exploited status is checked against a catalog that is at
  most thirty days old, or a warning says that it was not; its exploitation score is that of the cache or of an answer.
\<close>

section \<open>The catalog\<close>

lemma Sub_zero_age: "Sub t t = 0"
  by (simp add: Sub_def max_dur_def min_dur_def)

lemma intel_get_files:
  "intel_get w url h n p s = (r, t) \<Longrightarrow> is_epss t = is_epss s \<and> is_kev t = is_kev s"
  by (auto simp: intel_get_def split: prod.splits)

lemma saveEPSSCache_kev [simp]: "is_kev (saveEPSSCache w i e s) = is_kev s"
  by (simp add: saveEPSSCache_def)

lemma fetchEPSSBatch_files: "fetchEPSSBatch w batch s = (r, t) \<Longrightarrow> is_epss t = is_epss s \<and> is_kev t = is_kev s"
  by (auto simp: fetchEPSSBatch_def dest: intel_get_files split: prod.splits)

lemma epss_take_kev: "is_kev (snd (fold (epss_take w fetched) batch (scores, s))) = is_kev s"
  by (induction batch arbitrary: scores s) (auto simp: epss_take_def split: option.split)

lemma epss_step_kev: "epss_step w batch (scores, err, s) = (scores', err', t) \<Longrightarrow> is_kev t = is_kev s"
  using epss_take_kev by (auto simp: epss_step_def Let_def dest!: fetchEPSSBatch_files split: prod.splits sum.splits) (metis snd_conv)+

lemma epss_fold_kev: "fold (epss_step w) batches (scores, err, s) = (scores', err', t) \<Longrightarrow> is_kev t = is_kev s"
proof (induction batches arbitrary: scores err s)
  case Nil
  then show ?case by simp
next
  case (Cons batch batches)
  obtain f e u where step: "epss_step w batch (scores, err, s) = (f, e, u)" by (metis prod_cases3)
  then show ?case using Cons.IH [of f e u] Cons.prems epss_step_kev [OF step] by simp
qed

lemma LookupEPSS_kev: "LookupEPSS w ids s = (scores, err, t) \<Longrightarrow> is_kev t = is_kev s"
  by (auto simp: LookupEPSS_def Let_def dest: epss_fold_kev)

text \<open>A catalog that was fetched now, or one that was stored at a time, at most thirty days ago.\<close>

definition answered_catalog :: "intel_world \<Rightarrow> (string \<Rightarrow> kev_entry option) \<Rightarrow> bool" where
  "answered_catalog w kev = (\<exists>u. fst (fetchKEV w u) = Inr kev)"

definition stored_catalog :: "intel_state \<Rightarrow> gotime \<Rightarrow> (string \<Rightarrow> kev_entry option) \<Rightarrow> bool" where
  "stored_catalog s t kev = (\<exists>f. is_kev s = Some f \<and> if_Entry f = Some kev \<and> if_FetchedAt f = t)"

lemma LoadKEVCatalog_source:
  assumes "LoadKEVCatalog w s = (cat, err, t)"
  shows "(kc_Entries cat = None \<and> \<not> kc_Stale cat \<and> err \<noteq> None) \<or>
    (err = None \<and> (\<exists>kev. kc_Entries cat = Some kev \<and>
       (if kc_Stale cat
        then stored_catalog s (kc_StaleSince cat) kev \<and> Sub (iw_now w) (kc_StaleSince cat) \<le> KEVMaxStaleAge
        else answered_catalog w kev \<or> (\<exists>c. stored_catalog s c kev \<and> Sub (iw_now w) c \<le> threatIntelCacheTTL))))"
proof (cases "loadKEVCache w s")
  case (Some m)
  then have "\<exists>c. stored_catalog s c m \<and> Sub (iw_now w) c \<le> threatIntelCacheTTL"
    by (auto simp: loadKEVCache_def stored_catalog_def fresh_file_def split: option.splits if_splits)
  then show ?thesis using assms Some by (auto simp: LoadKEVCatalog_def no_catalog_def)
next
  case None
  obtain r u where f: "fetchKEV w s = (r, u)" by fastforce
  then have kev: "is_kev u = is_kev s" by (auto simp: fetchKEV_def dest: intel_get_files split: prod.splits)
  show ?thesis
  proof (cases r)
    case (Inr m)
    then have "answered_catalog w m" unfolding answered_catalog_def by (intro exI [of _ s]) (simp add: f)
    then show ?thesis using assms None f Inr by (auto simp: LoadKEVCatalog_def no_catalog_def)
  next
    case (Inl e)
    show ?thesis
    proof (cases "loadStaleKEVCache u")
      case None
      then show ?thesis using assms \<open>loadKEVCache w s = None\<close> f Inl by (auto simp: LoadKEVCatalog_def no_catalog_def)
    next
      case (Some x)
      obtain m since where x: "x = (m, since)" by fastforce
      then have "stored_catalog s since m"
        using Some kev by (auto simp: loadStaleKEVCache_def stored_catalog_def split: option.splits if_splits)
      then show ?thesis
        using assms None f Inl Some x by (auto simp: LoadKEVCatalog_def no_catalog_def Let_def split: if_splits)
    qed
  qed
qed

lemma with_intel_alias [simp]: "CVEAlias (with_intel epss cat v) = CVEAlias v"
proof -
  have "v_ID (with_intel epss cat v) = v_ID v" "v_Aliases (with_intel epss cat v) = v_Aliases v"
    by (simp_all add: with_intel_def scored_by_def listed_by_def Let_def split: option.split)
  then show ?thesis unfolding CVEAlias_def by metis
qed

lemma with_intel_kev:
  "CVEAlias v \<noteq> '''' \<Longrightarrow> v_KEVChecked (with_intel epss cat v) = (kc_Entries cat \<noteq> None \<or> v_KEVChecked v) \<and>
     v_InKEV (with_intel epss cat v) = ((case kc_Entries cat of None \<Rightarrow> False | Some kev \<Rightarrow> kev (CVEAlias v) \<noteq> None) \<or> v_InKEV v) \<and>
     v_KEVCatalogStaleSince (with_intel epss cat v) =
       (if kc_Entries cat \<noteq> None \<and> kc_Stale cat then Some (kc_StaleSince cat) else v_KEVCatalogStaleSince v)"
  by (auto simp: with_intel_def scored_by_def listed_by_def Let_def split: option.splits)

text \<open>The known-exploited status of every advisory with a CVE: either a warning says that it is unchecked and nothing is
  claimed, or it is checked against a catalog that CISA answered now, was stored within the last day, or was stored
  within the last thirty days, which then a warning and the advisory say.\<close>

theorem kev_status_is_said:
  assumes "enrichThreatIntelStale w results s = (results', warnings, since, t)"
  shows "\<exists>f. results' = map (\<lambda>(m, vs). (m, map f vs)) results \<and>
    ((\<exists>e. kev_unavailable e \<in> set warnings \<and>
        (\<forall>v. v_KEVChecked (f v) = v_KEVChecked v \<and> v_InKEV (f v) = v_InKEV v)) \<or>
     (\<exists>kev c. (\<forall>v. CVEAlias v \<noteq> '''' \<longrightarrow> v_KEVChecked (f v) \<and> v_InKEV (f v) = (kev (CVEAlias v) \<noteq> None \<or> v_InKEV v)) \<and>
        (answered_catalog w kev \<or>
         (stored_catalog s c kev \<and> Sub (iw_now w) c \<le> threatIntelCacheTTL) \<or>
         (stored_catalog s c kev \<and> Sub (iw_now w) c \<le> KEVMaxStaleAge \<and> kevStaleWarning c (iw_now w) \<in> set warnings \<and>
            since = c \<and> (\<forall>v. CVEAlias v \<noteq> '''' \<longrightarrow> v_KEVCatalogStaleSince (f v) = Some c)))) \<or>
     cve_ids results = [])"
proof (cases "cve_ids results = []")
  case True
  then have "results' = map (\<lambda>(m, vs). (m, map (\<lambda>v. v) vs)) results"
    using assms by (auto simp: enrichThreatIntelStale_def)
  then show ?thesis using True by blast
next
  case False
  obtain epss epssErr u where l: "LookupEPSS w (cve_ids results) s = (epss, epssErr, u)" by (metis prod_cases3)
  obtain cat kevErr x where c: "LoadKEVCatalog w u = (cat, kevErr, x)" by (metis prod_cases3)
  let ?f = "with_intel epss cat"
  have r: "results' = map (\<lambda>(m, vs). (m, map ?f vs)) results"
      "warnings = epss_warning epssErr @ kev_warnings w cat kevErr" "since = (if kc_Stale cat then kc_StaleSince cat else zero_time)"
    using assms False l c by (auto simp: enrichThreatIntelStale_def Let_def)
  have kev: "stored_catalog u = stored_catalog s"
    by (intro ext) (simp add: stored_catalog_def LookupEPSS_kev [OF l])
  note source = LoadKEVCatalog_source [OF c, unfolded kev]
  show ?thesis
  proof (cases "kc_Entries cat")
    case None
    then obtain e where "kevErr = Some e" using source by auto
    then have "kev_unavailable e \<in> set warnings" by (simp add: r(2) kev_warnings_def)
    moreover have "v_KEVChecked (?f v) = v_KEVChecked v \<and> v_InKEV (?f v) = v_InKEV v" for v
      using None by (cases "CVEAlias v = ''''") (simp_all add: with_intel_kev, simp_all add: with_intel_def)
    ultimately show ?thesis using r(1) by blast
  next
    case (Some kev)
    have "\<forall>v. CVEAlias v \<noteq> '''' \<longrightarrow> v_KEVChecked (?f v) \<and> v_InKEV (?f v) = (kev (CVEAlias v) \<noteq> None \<or> v_InKEV v)"
      using Some with_intel_kev by simp
    moreover have "\<exists>c. answered_catalog w kev \<or> (stored_catalog s c kev \<and> Sub (iw_now w) c \<le> threatIntelCacheTTL) \<or>
         (stored_catalog s c kev \<and> Sub (iw_now w) c \<le> KEVMaxStaleAge \<and> kevStaleWarning c (iw_now w) \<in> set warnings \<and>
            since = c \<and> (\<forall>v. CVEAlias v \<noteq> '''' \<longrightarrow> v_KEVCatalogStaleSince (?f v) = Some c))"
    proof (cases "kc_Stale cat")
      case True
      then have "stored_catalog s (kc_StaleSince cat) kev \<and> Sub (iw_now w) (kc_StaleSince cat) \<le> KEVMaxStaleAge"
        using source Some by auto
      moreover have "kevStaleWarning (kc_StaleSince cat) (iw_now w) \<in> set warnings" using True by (simp add: r(2) kev_warnings_def)
      ultimately show ?thesis using True Some with_intel_kev r(3) by (intro exI [of _ "kc_StaleSince cat"]) auto
    next
      case False
      then show ?thesis using source Some by auto
    qed
    ultimately show ?thesis using r(1) by blast
  qed
qed

text \<open>CISA cannot be reached, and the copy on disk is three days old.\<close>

definition dead_net :: network where
  "dead_net = \<lparr>nt_parse = (\<lambda>u. Some \<lparr>pu_Scheme = ''https'', pu_HasUser = False, pu_Host = ''www.cisa.gov'', pu_Path = '''', pu_String = u\<rparr>),
     nt_offline = False, nt_answer = (\<lambda>q. None)\<rparr>"

definition dead_world :: intel_world where
  "dead_world = \<lparr>iw_net = dead_net, iw_epss = (\<lambda>b. None), iw_kev = (\<lambda>b. None), iw_ParseFloat = (\<lambda>s. None),
     iw_http_text = (\<lambda>e. ''no route''), iw_json_text = (\<lambda>b. ''bad''), iw_write = (\<lambda>f. Written), iw_now = \<lparr>t_ns = 738000 * day_ns, t_off = 0\<rparr>\<rparr>"

definition stale_state :: intel_state where
  "stale_state = \<lparr>is_epss = Map.empty,
     is_kev = Some \<lparr>if_Version = 1, if_FetchedAt = \<lparr>t_ns = 737997 * day_ns, t_off = 0\<rparr>,
       if_Entry = Some [''CVE-2021-44228'' \<mapsto> \<lparr>ke_CVEID = ''CVE-2021-44228'', ke_DateAdded = ''2021-12-10'', ke_Ransomware = ''Known''\<rparr>]\<rparr>,
     is_sent = {#}\<rparr>"

definition log4shell :: intel_vulnerability where
  "log4shell = \<lparr>v_ID = ''GO-2021-1'', v_Aliases = [''CVE-2021-44228''], v_Severity = ''CRITICAL'', v_Reachability = '''', v_InKEV = False,
     v_Summary = '''', v_FixedVersion = '''', v_EnrichmentFailed = False, v_FixRequiresGo = '''', v_FixReleasedAt = None, v_FixDateSource = '''',
     v_AffectedPackages = [], v_Condition = '''', v_KEVChecked = False, v_SeveritySource = '''', v_EPSSScore = None, v_KEVRansomware = '''',
     v_PublishedAt = None, v_FixPublishedAt = None, v_EnrichmentAttempted = False, v_SeverityAlias = '''', v_EnrichmentErrors = [],
     v_DaysUnpatched = 0, v_CallPath = [], v_CallTrace = [], v_CalledSymbols = [], v_EPSSPercentile = None, v_EPSSDate = '''',
     v_KEVDateAdded = '''', v_KEVCatalogStaleSince = None\<rparr>"

theorem kev_status_is_said_witness:
  "case enrichThreatIntelStale dead_world [(''m'', [log4shell])] stale_state of
     (results', warnings, since, t) \<Rightarrow>
       \<exists>f. results' = [(''m'', [f log4shell])] \<and>
         ((\<exists>e. kev_unavailable e \<in> set warnings) \<or>
          (\<exists>kev c. (\<forall>v. CVEAlias v \<noteq> '''' \<longrightarrow> v_KEVChecked (f v) \<and> v_InKEV (f v) = (kev (CVEAlias v) \<noteq> None \<or> v_InKEV v)) \<and>
             (answered_catalog dead_world kev \<or> stored_catalog stale_state c kev)))"
proof -
  obtain results' warnings since t where
    e: "enrichThreatIntelStale dead_world [(''m'', [log4shell])] stale_state = (results', warnings, since, t)" by (metis prod_cases4)
  have "cve_ids [(''m'', [log4shell])] = [''CVE-2021-44228'']" by code_simp
  then show ?thesis using kev_status_is_said [OF e] e by auto
qed

lemma stale_catalog_example:
  "case enrichThreatIntelStale dead_world [(''m'', [log4shell])] stale_state of
     (results', warnings, since, t) \<Rightarrow>
       map (\<lambda>(m, vs). map (\<lambda>v. (v_KEVChecked v, v_InKEV v, v_KEVRansomware v)) vs) results' = [[(True, True, ''Known'')]] \<and>
       length warnings = 2"
  by code_simp

text \<open>An answer without a list of vulnerabilities is a catalog: nothing is known to be exploited, and all is checked.\<close>

lemma empty_answer_is_a_catalog:
  assumes "intel_get w kevURL kevHost kevMaxBytes ''threatintel:kev'' s = (Inr a, u)" "ha_Status a = 200" "iw_kev w (ha_Body a) = Some []"
    "loadKEVCache w s = None"
  shows "LoadKEVCatalog w s = (no_catalog\<lparr>kc_Entries := Some Map.empty\<rparr>, None, saveKEVCache w Map.empty u)"
  using assms by (simp add: LoadKEVCatalog_def fetchKEV_def kev_map_def)

section \<open>Scores\<close>

lemma epss_batches_ids: "set (concat (epss_batches ids)) = set ids" "distinct ids \<Longrightarrow> distinct (concat (epss_batches ids))"
    "batch \<in> set (epss_batches ids) \<Longrightarrow> length batch \<le> 100 \<and> batch \<noteq> []"
proof -
  have concat: "concat (epss_batches ids) = ids" for ids
  proof (induction ids rule: epss_batches.induct)
    case (1 ids)
    then show ?case by (cases "ids = []") (simp_all add: epss_batches.simps [of ids] epss_batches.simps [of "[]"])
  qed
  then show "set (concat (epss_batches ids)) = set ids" "distinct ids \<Longrightarrow> distinct (concat (epss_batches ids))" by simp_all
  show "batch \<in> set (epss_batches ids) \<Longrightarrow> length batch \<le> 100 \<and> batch \<noteq> []"
  proof (induction ids rule: epss_batches.induct)
    case (1 ids)
    then show ?case
      by (cases "ids = []") (auto simp: epss_batches.simps [of ids] epss_batches.simps [of "[]"] epssBatchSize_def)
  qed
qed

lemma epss_take_scores:
  "fst (fold (epss_take w fetched) batch (scores, s)) i = (if i \<in> set batch \<and> fetched i \<noteq> None then fetched i else scores i)"
  by (induction batch arbitrary: scores s) (auto simp: epss_take_def split: option.splits)

lemma epss_step_scores:
  assumes "epss_step w batch (scores, err, s) = (scores', err', t)"
  shows "(\<exists>e. fst (fetchEPSSBatch w batch s) = Inl e \<and> scores' = scores \<and> err' = (if err = None then Some e else err)) \<or>
     (\<exists>fetched. fst (fetchEPSSBatch w batch s) = Inr fetched \<and> err' = err \<and>
        (\<forall>i. scores' i = (if i \<in> set batch \<and> fetched i \<noteq> None then fetched i else scores i)))"
proof -
  obtain r u where f: "fetchEPSSBatch w batch s = (r, u)" by fastforce
  show ?thesis
  proof (cases r)
    case (Inl e)
    then show ?thesis using assms f by (auto simp: epss_step_def)
  next
    case (Inr fetched)
    obtain f2 s2 where t: "fold (epss_take w fetched) batch (scores, u) = (f2, s2)" by fastforce
    then have "scores' = f2" "err' = err" using assms f Inr by (auto simp: epss_step_def)
    then show ?thesis using epss_take_scores [of w fetched batch scores u] f Inr t by auto
  qed
qed

text \<open>What the batches say of one identifier.\<close>

definition batch_says :: "intel_world \<Rightarrow> string list \<Rightarrow> string \<Rightarrow> epss_entry option \<Rightarrow> string option \<Rightarrow> bool" where
  "batch_says w batch i score err =
     (\<exists>u. case fst (fetchEPSSBatch w batch u) of
        Inl e \<Rightarrow> score = None \<and> err \<noteq> None
      | Inr fetched \<Rightarrow> score = fetched i)"

lemma epss_fold_scores:
  assumes "fold (epss_step w) batches (scores, err, s) = (scores', err', t)" "distinct (concat batches)"
  shows "(i \<notin> set (concat batches) \<longrightarrow> scores' i = scores i) \<and> (err \<noteq> None \<longrightarrow> err' \<noteq> None) \<and>
     (i \<in> set (concat batches) \<longrightarrow> scores i = None \<longrightarrow> (\<exists>batch \<in> set batches. i \<in> set batch \<and> batch_says w batch i (scores' i) err'))"
  using assms
proof (induction batches arbitrary: scores err s)
  case Nil
  then show ?case by simp
next
  case (Cons batch batches)
  obtain f e u where step: "epss_step w batch (scores, err, s) = (f, e, u)" by (metis prod_cases3)
  then have "fold (epss_step w) batches (f, e, u) = (scores', err', t)" using Cons.prems(1) by simp
  moreover have d: "distinct (concat batches)" "set batch \<inter> set (concat batches) = {}" using Cons.prems(2) by auto
  ultimately have IH: "(i \<notin> set (concat batches) \<longrightarrow> scores' i = f i) \<and> (e \<noteq> None \<longrightarrow> err' \<noteq> None) \<and>
     (i \<in> set (concat batches) \<longrightarrow> f i = None \<longrightarrow> (\<exists>batch \<in> set batches. i \<in> set batch \<and> batch_says w batch i (scores' i) err'))"
    by (intro Cons.IH)
  note st = epss_step_scores [OF step]
  have err: "err \<noteq> None \<Longrightarrow> e \<noteq> None" using st by auto
  have other: "i \<notin> set batch \<Longrightarrow> f i = scores i" using st by auto
  have own: "batch_says w batch i (scores' i) err'" if b: "i \<in> set batch" and n: "scores i = None"
  proof -
    have "scores' i = f i" using IH b d(2) by auto
    then show ?thesis
      using st IH b n unfolding batch_says_def by (intro exI [of _ s]) (auto split: sum.splits if_splits)
  qed
  show ?case
  proof (cases "i \<in> set batch")
    case True
    then show ?thesis using IH err own by auto
  next
    case False
    then show ?thesis using IH err other by auto
  qed
qed

text \<open>The exploitation score of a CVE: the entry of the cache while it is fresh, and otherwise the answer to the batch of
  at most a hundred identifiers it is in; when that batch failed there is none and the failure is reported.\<close>

theorem epss_score_is_answered:
  assumes "LookupEPSS w ids s = (scores, err, t)" "distinct ids" "i \<in> set ids" "epss_asked i"
  shows "case loadEPSSCache w i s of
       Some e \<Rightarrow> scores i = e
     | None \<Rightarrow> \<exists>batch. i \<in> set batch \<and> length batch \<le> 100 \<and> batch_says w batch i (scores i) err"
proof -
  let ?asked = "filter epss_asked ids" and ?misses = "filter (\<lambda>i. loadEPSSCache w i s = None) (filter epss_asked ids)"
  let ?init = "fold (epss_cached w s) ?asked Map.empty"
  have init: "fold (epss_cached w s) xs m j = (if j \<in> set xs then (case loadEPSSCache w j s of Some (Some e) \<Rightarrow> Some e | _ \<Rightarrow> m j) else m j)"
    for xs m j
    by (induction xs arbitrary: m) (auto simp: epss_cached_def split: option.splits)
  have f: "fold (epss_step w) (epss_batches ?misses) (?init, None, s) = (scores, err, t)"
    using assms(1) by (simp add: LookupEPSS_def Let_def)
  have d: "distinct (concat (epss_batches ?misses))" using assms(2) epss_batches_ids(2) by simp
  note fs = epss_fold_scores [OF f d, of i, unfolded epss_batches_ids(1)]
  show ?thesis
  proof (cases "loadEPSSCache w i s")
    case (Some e)
    then have "scores i = ?init i" using fs by simp
    then show ?thesis using Some init [of ?asked Map.empty i] assms(3,4) by (cases e) auto
  next
    case None
    then have "?init i = None" using init [of ?asked Map.empty i] by simp
    then obtain batch where "batch \<in> set (epss_batches ?misses)" "i \<in> set batch" "batch_says w batch i (scores i) err"
      using fs None assms(3,4) by auto
    then show ?thesis using None epss_batches_ids(3) by auto
  qed
qed

theorem epss_score_is_answered_witness:
  "case LookupEPSS dead_world [''CVE-2021-44228''] stale_state of
     (scores, err, t) \<Rightarrow>
       \<exists>batch. ''CVE-2021-44228'' \<in> set batch \<and> length batch \<le> 100 \<and> batch_says dead_world batch ''CVE-2021-44228'' (scores ''CVE-2021-44228'') err"
proof -
  obtain scores err t where l: "LookupEPSS dead_world [''CVE-2021-44228''] stale_state = (scores, err, t)" by (metis prod_cases3)
  have "epss_asked ''CVE-2021-44228''" by code_simp
  moreover have "loadEPSSCache dead_world ''CVE-2021-44228'' stale_state = None" by (simp add: loadEPSSCache_def stale_state_def)
  ultimately show ?thesis using epss_score_is_answered [OF l, of "''CVE-2021-44228''"] l by simp
qed

end
