(* ===== verification/Fix_Date.thy ===== *)
theory Fix_Date
  imports Maintenance Go_Regexp Enrich
begin

text \<open>
  \<open>pkg/scanner/fixdate.go\<close> and \<open>pkg/scanner/fixgo.go\<close>: when the fix of an advisory was released, and which Go it needs,
  as the module proxy says it. The lookups that are started before the deadline are a prefix of their list; the
  escaping of paths and versions and \<open>semver.IsValid\<close> are arguments.
\<close>

section \<open>Data\<close>

definition FixDateModuleProxy :: string where "FixDateModuleProxy = ''module_proxy''"
definition FixDateAdvisory :: string where "FixDateAdvisory = ''advisory''"
definition defaultFixDateProxyURL :: string where "defaultFixDateProxyURL = ''https://proxy.golang.org''"
definition fixDateInfoMaxBytes :: int where "fixDateInfoMaxBytes = 64 * 1024"
definition fixGoModMaxBytes :: int where "fixGoModMaxBytes = 512 * 1024"
definition stdlibToolchainModule :: string where "stdlibToolchainModule = ''golang.org/toolchain''"
definition stdlibToolchainSuffix :: string where "stdlibToolchainSuffix = ''.linux-amd64''"

type_synonym fix_lookup = "string \<times> string"

text \<open>A \<open>go.mod\<close> that cannot be read is \<open>None\<close>, one without a \<open>go\<close> directive \<open>Some None\<close>.\<close>

record fix_world =
  fw_net :: network
  fw_info :: "string \<Rightarrow> proxy_version_info option"
  fw_gomod :: "string \<Rightarrow> string option option"
  fw_IsValid :: "string \<Rightarrow> bool"
  fw_EscapePath :: "string \<Rightarrow> string option"
  fw_EscapeVersion :: "string \<Rightarrow> string option"
  fw_ProxyURL :: string
  fw_now :: gotime
  fw_started :: nat

section \<open>Versions\<close>

definition canonicalVersion :: "(string \<Rightarrow> bool) \<Rightarrow> string \<Rightarrow> string" where
  "canonicalVersion isValid v =
     (if v = '''' \<or> v = ''0'' then ''''
      else let v = (if \<not> HasPrefix v ''v'' then ''v'' @ v else v) in if \<not> isValid v then '''' else v)"

text \<open>The expression \<open>^(?:go|v)?(\d+\.\d+(?:\.\d+)?(?:(?:rc|beta)\d+)?)$\<close>: what is in its group.\<close>

definition digits1 :: regex where "digits1 = at_least_one digit"

definition release_pattern :: regex where
  "release_pattern =
     in_order [digits1, Bytes ''.'', digits1, optional (Then (Bytes ''.'') digits1),
       optional (Then (one_of (Bytes ''rc'') [Bytes ''beta'']) digits1)]"

definition stdlibVersionPattern :: "string \<Rightarrow> string option" where
  "stdlibVersionPattern s =
     (let rel = (if HasPrefix s ''go'' then TrimPrefix s ''go'' else TrimPrefix s ''v'')
      in if list_ex (\<lambda>(p, r). r = []) (ends_of release_pattern (None, rel)) then Some rel else None)"

definition stdlib_release :: "string \<Rightarrow> string" where
  "stdlib_release rel =
     (if length (filter (\<lambda>c. c = CHR ''.'') rel) = 1 \<and> CHR ''r'' \<notin> set rel \<and> CHR ''b'' \<notin> set rel then rel @ ''.0'' else rel)"

section \<open>Lookups\<close>

definition trim_slashes :: "string \<Rightarrow> string" where
  "trim_slashes s = rev (dropWhile (\<lambda>c. c = CHR ''/'') (rev s))"

definition fix_proxy :: "fix_world \<Rightarrow> string" where
  "fix_proxy w = (let p = trim_slashes (fw_ProxyURL w) in if p = '''' then defaultFixDateProxyURL else p)"

definition proxyInfoTime :: "fix_world \<Rightarrow> string \<Rightarrow> string \<Rightarrow> fix_lookup \<Rightarrow> gotime option \<times> sent" where
  "proxyInfoTime w proxy host = (\<lambda>(m, v).
     case (fw_EscapePath w m, fw_EscapeVersion w v) of
       (Some escPath, Some escVer) \<Rightarrow>
         if \<not> fw_IsValid w v then (None, {#})
         else (let (r, sent) = client_Get (fw_net w) (proxy @ ''/'' @ escPath @ ''/@v/'' @ escVer @ ''.info'')
                 (no_options\<lparr>op_Host := host, op_MaxBytes := fixDateInfoMaxBytes, op_Accept := ''application/json'',
                    op_Purpose := ''fixdate:proxy-info''\<rparr>)
               in (case r of
                     Inl e \<Rightarrow> None
                   | Inr a \<Rightarrow>
                       if ha_Status a \<noteq> 200 then None
                       else (case fw_info w (ha_Body a) of
                           None \<Rightarrow> None
                         | Some i \<Rightarrow> if IsZero (pv_Time i) then None else Some (pv_Time i)), sent))
     | _ \<Rightarrow> (None, {#}))"

definition fix_step :: "fix_world \<Rightarrow> string \<Rightarrow> string \<Rightarrow> fix_lookup \<Rightarrow> (fix_lookup \<Rightarrow> gotime option) \<times> sent \<Rightarrow> (fix_lookup \<Rightarrow> gotime option) \<times> sent" where
  "fix_step w proxy host l = (\<lambda>(out, sent).
     let (t, more) = proxyInfoTime w proxy host l in (if t = None then out else out(l := t), sent + more))"

text \<open>\<open>order\<close>: the lookups that are started, in the order in which their workers get their turn.\<close>

definition fetchProxyTimes :: "fix_world \<Rightarrow> (fix_lookup list \<Rightarrow> fix_lookup list) \<Rightarrow> fix_lookup list \<Rightarrow> (fix_lookup \<Rightarrow> gotime option) \<times> sent" where
  "fetchProxyTimes w order lookups =
     (case nt_parse (fw_net w) (fix_proxy w) of
        None \<Rightarrow> (Map.empty, {#})
      | Some u \<Rightarrow>
          if pu_Host u = '''' then (Map.empty, {#})
          else runBounded (fix_step w (fix_proxy w) (pu_Host u)) (order (take (fw_started w) lookups)) (Map.empty, {#}))"

section \<open>Dates\<close>

definition undated :: "'a enriched_vulnerability_scheme \<Rightarrow> 'a enriched_vulnerability_scheme" where
  "undated v = v\<lparr>v_FixReleasedAt := None, v_FixDateSource := ''''\<rparr>"

definition fix_target :: "('a enriched_vulnerability_scheme \<Rightarrow> fix_lookup option) \<Rightarrow> 'a enriched_vulnerability_scheme \<Rightarrow> fix_lookup option" where
  "fix_target target v = (if v_FixedVersion v = '''' then None else target v)"

definition fix_day_count :: "gotime \<Rightarrow> gotime \<Rightarrow> int" where
  "fix_day_count t since = (let days = go_int (ddiv (Hours (Sub t since)) 24) in if days < 0 then 0 else days)"

definition dated :: "fix_world \<Rightarrow> gotime option \<Rightarrow> 'a enriched_vulnerability_scheme \<Rightarrow> 'a enriched_vulnerability_scheme" where
  "dated w proxyTime v =
     (let use = (\<lambda>t source. v\<lparr>v_FixReleasedAt := Some t, v_FixDateSource := source, v_DaysUnpatched := fix_day_count (fw_now w) t\<rparr>)
      in case (proxyTime, v_FixPublishedAt v) of
           (Some t, None) \<Rightarrow> use t FixDateModuleProxy
         | (Some t, Some p) \<Rightarrow> if \<not> Before t p then use t FixDateModuleProxy else use p FixDateAdvisory
         | (None, Some p) \<Rightarrow> use p FixDateAdvisory
         | (None, None) \<Rightarrow> v)"

definition resolveFixDates ::
  "fix_world \<Rightarrow> (fix_lookup list \<Rightarrow> fix_lookup list) \<Rightarrow> ('a enriched_vulnerability_scheme \<Rightarrow> fix_lookup option) \<Rightarrow>
    'a enriched_vulnerability_scheme list \<Rightarrow> 'a enriched_vulnerability_scheme list \<times> sent" where
  "resolveFixDates w order target vulns =
     (let lookups = rev (remdups (rev (List.map_filter (fix_target target) vulns)));
          (dates, sent) = (if lookups = [] \<or> nt_offline (fw_net w) then (Map.empty, {#}) else fetchProxyTimes w order lookups);
          proxyTime = (\<lambda>v. case fix_target target v of None \<Rightarrow> None | Some l \<Rightarrow> dates l)
      in (map (\<lambda>v. if v_FixedVersion v = '''' then undated v else dated w (proxyTime v) (undated v)) vulns, sent))"

definition ResolveFixDates ::
  "fix_world \<Rightarrow> (fix_lookup list \<Rightarrow> fix_lookup list) \<Rightarrow> string \<Rightarrow> 'a enriched_vulnerability_scheme list \<Rightarrow>
    'a enriched_vulnerability_scheme list \<times> sent" where
  "ResolveFixDates w order m vulns =
     resolveFixDates w order
       (\<lambda>v. let fixed = canonicalVersion (fw_IsValid w) (v_FixedVersion v) in if fixed = '''' then None else Some (m, fixed)) vulns"

definition ResolveStdlibFixDates ::
  "fix_world \<Rightarrow> (fix_lookup list \<Rightarrow> fix_lookup list) \<Rightarrow> 'a enriched_vulnerability_scheme list \<Rightarrow>
    'a enriched_vulnerability_scheme list \<times> sent" where
  "ResolveStdlibFixDates w order vulns =
     resolveFixDates w order
       (\<lambda>v. case stdlibVersionPattern (TrimSpace (v_FixedVersion v)) of
          None \<Rightarrow> None
        | Some rel \<Rightarrow> Some (stdlibToolchainModule, ''v0.0.1-go'' @ stdlib_release rel @ stdlibToolchainSuffix)) vulns"

text \<open>The times of published versions are kept for the life of the process.\<close>

definition ModuleVersionTime ::
  "fix_world \<Rightarrow> string \<Rightarrow> string \<Rightarrow> (string \<Rightarrow> gotime option) \<Rightarrow> gotime option \<times> (string \<Rightarrow> gotime option) \<times> sent" where
  "ModuleVersionTime w m version cache =
     (if nt_offline (fw_net w) then (None, cache, {#})
      else let v = canonicalVersion (fw_IsValid w) version
        in if v = '''' then (None, cache, {#})
           else let key = trim_slashes (fw_ProxyURL w) @ ''|'' @ m @ ''@'' @ v
             in case cache key of
                  Some t \<Rightarrow> (Some t, cache, {#})
                | None \<Rightarrow>
                    (let (times, sent) = fetchProxyTimes w (\<lambda>ls. ls) [(m, v)]
                     in case times (m, v) of None \<Rightarrow> (None, cache, sent) | Some t \<Rightarrow> (Some t, cache(key \<mapsto> t), sent)))"

section \<open>The Go a fix needs\<close>

definition fix_go_get :: "fix_world \<Rightarrow> string \<Rightarrow> string \<Rightarrow> string \<Rightarrow> string \<Rightarrow> string option \<times> sent" where
  "fix_go_get w proxy host escPath v =
     (case fw_EscapeVersion w v of
        None \<Rightarrow> (None, {#})
      | Some escVer \<Rightarrow>
          (let (r, sent) = client_Get (fw_net w) (proxy @ ''/'' @ escPath @ ''/@v/'' @ escVer @ ''.mod'')
             (no_options\<lparr>op_Host := host, op_MaxBytes := fixGoModMaxBytes, op_Purpose := ''fixgo:proxy-mod''\<rparr>)
           in (case r of
                 Inl e \<Rightarrow> None
               | Inr a \<Rightarrow> if ha_Status a \<noteq> 200 then None else (case fw_gomod w (ha_Body a) of None \<Rightarrow> None | Some g \<Rightarrow> g), sent)))"

definition fix_go_step :: "fix_world \<Rightarrow> string \<Rightarrow> string \<Rightarrow> string \<Rightarrow> string \<Rightarrow> (string \<Rightarrow> string option) \<times> sent \<Rightarrow> (string \<Rightarrow> string option) \<times> sent" where
  "fix_go_step w proxy host escPath v = (\<lambda>(got, sent).
     let (g, more) = fix_go_get w proxy host escPath v in (if g = None then got else got(v := g), sent + more))"

definition fix_versions :: "fix_world \<Rightarrow> 'a enriched_vulnerability_scheme list \<Rightarrow> string list" where
  "fix_versions w vulns =
     rev (remdups (rev (filter (\<lambda>v. v \<noteq> '''') (map (\<lambda>v. canonicalVersion (fw_IsValid w) (v_FixedVersion v)) vulns))))"

definition ResolveFixGoRequirements ::
  "fix_world \<Rightarrow> (string list \<Rightarrow> string list) \<Rightarrow> string \<Rightarrow> 'a enriched_vulnerability_scheme list \<Rightarrow>
    'a enriched_vulnerability_scheme list \<times> sent" where
  "ResolveFixGoRequirements w order modPath vulns =
     (let versions = fix_versions w vulns; unknown = map (\<lambda>v. v\<lparr>v_FixRequiresGo := ''''\<rparr>) vulns
      in if versions = [] \<or> nt_offline (fw_net w) then (unknown, {#})
         else case (nt_parse (fw_net w) (fix_proxy w), fw_EscapePath w modPath) of
             (Some u, Some escPath) \<Rightarrow>
               if pu_Host u = '''' then (unknown, {#})
               else (let (got, sent) = runBounded (fix_go_step w (fix_proxy w) (pu_Host u) escPath)
                       (order (take (fw_started w) versions)) (Map.empty, {#})
                     in (map (\<lambda>v. v\<lparr>v_FixRequiresGo :=
                           (case got (canonicalVersion (fw_IsValid w) (v_FixedVersion v)) of None \<Rightarrow> '''' | Some g \<Rightarrow> g)\<rparr>) unknown, sent))
           | _ \<Rightarrow> (unknown, {#}))"

end
