(* ===== verification/Fix_Date_Props.thy ===== *)
theory Fix_Date_Props
  imports Fix_Date
begin

text \<open>
  A date of a fix is never invented: it is the later one of what the module proxy and the advisory say. Which worker
  gets its turn first does not matter.
\<close>

section \<open>Schedules\<close>

interpretation fix_lookups: worker_pool "fix_step w proxy host" for w proxy host
proof
  show "fix_step w proxy host i (fix_step w proxy host j s) = fix_step w proxy host j (fix_step w proxy host i s)"
    if "i \<noteq> j" for i j s
    using that by (cases s) (auto simp: fix_step_def Let_def fun_upd_twist ac_simps split: prod.split)
qed

interpretation fix_go_lookups: worker_pool "fix_go_step w proxy host escPath" for w proxy host escPath
proof
  show "fix_go_step w proxy host escPath i (fix_go_step w proxy host escPath j s)
      = fix_go_step w proxy host escPath j (fix_go_step w proxy host escPath i s)" if "i \<noteq> j" for i j s
    using that by (cases s) (auto simp: fix_go_step_def Let_def fun_upd_twist ac_simps split: prod.split)
qed

lemma fetchProxyTimes_schedule:
  assumes "\<And>ls. mset (order ls) = mset ls"
  shows "fetchProxyTimes w order lookups = fetchProxyTimes w (\<lambda>ls. ls) lookups"
proof -
  have "runBounded (fix_step w p h) (order ls) x = runBounded (fix_step w p h) ls x" for p h ls x
    by (rule fix_lookups.schedule_irrelevant) (rule assms)
  then show ?thesis by (simp add: fetchProxyTimes_def split: option.split)
qed

text \<open>The dates, the Go versions and the requests do not depend on the order in which the workers get their turn.\<close>

theorem fix_schedule_irrelevant:
  assumes "\<And>ls. mset (order ls) = mset ls" "\<And>vs. mset (order' vs) = mset vs"
  shows "resolveFixDates w order target vulns = resolveFixDates w (\<lambda>ls. ls) target vulns \<and>
    ResolveFixGoRequirements w order' modPath vulns = ResolveFixGoRequirements w (\<lambda>vs. vs) modPath vulns"
proof -
  have g: "runBounded (fix_go_step w p h e) (order' vs) x = runBounded (fix_go_step w p h e) vs x" for p h e vs x
    by (rule fix_go_lookups.schedule_irrelevant) (rule assms(2))
  have "ResolveFixGoRequirements w order' modPath vulns = ResolveFixGoRequirements w (\<lambda>vs. vs) modPath vulns"
    unfolding ResolveFixGoRequirements_def g ..
  moreover have "resolveFixDates w order target vulns = resolveFixDates w (\<lambda>ls. ls) target vulns"
    unfolding resolveFixDates_def fetchProxyTimes_schedule [OF assms(1)] ..
  ultimately show ?thesis by simp
qed

section \<open>Dates\<close>

lemma fix_step_times:
  "fst (fold (fix_step w p h) ls (out, sent)) l = Some t \<Longrightarrow> out l = Some t \<or> fst (proxyInfoTime w p h l) = Some t"
proof (induction ls arbitrary: out sent)
  case Nil
  then show ?case by simp
next
  case (Cons k ls)
  obtain x more where k: "proxyInfoTime w p h k = (x, more)" by fastforce
  then have "fix_step w p h k (out, sent) = ((if x = None then out else out(k := x)), sent + more)" by (simp add: fix_step_def)
  then have "fst (fold (fix_step w p h) ls ((if x = None then out else out(k := x)), sent + more)) l = Some t"
    using Cons.prems by simp
  then consider "(if x = None then out else out(k := x)) l = Some t" | "fst (proxyInfoTime w p h l) = Some t"
    using Cons.IH by blast
  then show ?case
  proof cases
    case 1
    then show ?thesis using k by (cases "k = l") (auto split: if_splits)
  qed simp
qed

text \<open>The host of the proxy; a time is the one it gives for a version.\<close>

definition proxy_dates :: "fix_world \<Rightarrow> fix_lookup \<Rightarrow> gotime \<Rightarrow> bool" where
  "proxy_dates w l t = (\<exists>u. nt_parse (fw_net w) (fix_proxy w) = Some u \<and> fst (proxyInfoTime w (fix_proxy w) (pu_Host u) l) = Some t)"

lemma fetchProxyTimes_times: "fetchProxyTimes w order ls = (dates, sent) \<Longrightarrow> dates l = Some t \<Longrightarrow> proxy_dates w l t"
  using fix_step_times [of w "fix_proxy w" _ "order (take (fw_started w) ls)" Map.empty "{#}" l t]
  by (auto simp: fetchProxyTimes_def proxy_dates_def runBounded_def split: option.splits if_splits)

definition dated_ok ::
  "fix_world \<Rightarrow> ('a enriched_vulnerability_scheme \<Rightarrow> fix_lookup option) \<Rightarrow> 'a enriched_vulnerability_scheme \<Rightarrow>
    'a enriched_vulnerability_scheme \<Rightarrow> bool" where
  "dated_ok w target v v' =
     (case v_FixReleasedAt v' of
        None \<Rightarrow> v_FixDateSource v' = '''' \<and> (v_FixedVersion v = '''' \<or> v_FixPublishedAt v = None)
      | Some t \<Rightarrow>
          v_DaysUnpatched v' = fix_day_count (fw_now w) t \<and>
          (case v_FixPublishedAt v of None \<Rightarrow> True | Some p \<Rightarrow> \<not> Before t p) \<and>
          ((v_FixDateSource v' = FixDateModuleProxy \<and> (\<exists>l. fix_target target v = Some l \<and> proxy_dates w l t)) \<or>
           (v_FixDateSource v' = FixDateAdvisory \<and> v_FixPublishedAt v = Some t)))"

text \<open>Every date of a fix is the time the proxy gives the fixed version or the date of the advisory, never before the
  advisory, and the days without a patch are counted from it; without a date neither is known.\<close>

theorem fix_dates_are_read:
  assumes "resolveFixDates w order target vulns = (vs, sent)"
  shows "list_all2 (dated_ok w target) vulns vs"
proof -
  define lookups where "lookups = rev (remdups (rev (List.map_filter (fix_target target) vulns)))"
  obtain dates ms where t: "(if lookups = [] \<or> nt_offline (fw_net w) then (Map.empty, {#}) else fetchProxyTimes w order lookups) = (dates, ms)"
    by fastforce
  have proxy: "proxy_dates w l d" if "dates l = Some d" for l d
    using that t fetchProxyTimes_times [of w order lookups dates ms l d] by (auto split: if_splits)
  define f where "f v = (if v_FixedVersion v = '''' then undated v
      else dated w (case fix_target target v of None \<Rightarrow> None | Some l \<Rightarrow> dates l) (undated v))" for v :: "'a enriched_vulnerability_scheme"
  have vs: "vs = map f vulns"
    using assms t unfolding lookups_def f_def by (simp add: resolveFixDates_def)
  have "dated_ok w target v (f v)" for v
  proof (cases "v_FixedVersion v = ''''")
    case True
    then show ?thesis by (simp add: f_def dated_ok_def undated_def)
  next
    case False
    define pt where "pt = (case fix_target target v of None \<Rightarrow> None | Some l \<Rightarrow> dates l)"
    have pt: "\<exists>l. fix_target target v = Some l \<and> proxy_dates w l d" if "pt = Some d" for d
      using that proxy unfolding pt_def by (auto split: option.splits)
    have "f v = dated w pt (undated v)" using False by (simp add: f_def pt_def)
    then show ?thesis
      using pt by (cases pt; cases "v_FixPublishedAt v") (auto simp: dated_def dated_ok_def undated_def Let_def Before_def)
  qed
  then show ?thesis unfolding vs by (simp add: list_all2_map2 list_all2_same)
qed

text \<open>A proxy that dates every version, asked for two fixes of which one was announced later.\<close>

definition dating_world :: fix_world where
  "dating_world = \<lparr>fw_net = \<lparr>nt_parse = (\<lambda>u. Some \<lparr>pu_Scheme = ''https'', pu_HasUser = False, pu_Host = ''proxy.golang.org'', pu_Path = '''', pu_String = u\<rparr>),
       nt_offline = False, nt_answer = (\<lambda>q. Some \<lparr>ha_Status = 200, ha_Header = (\<lambda>h. ''''), ha_Body = ''x''\<rparr>)\<rparr>,
     fw_info = (\<lambda>b. Some \<lparr>pv_Version = ''v1.2.0'', pv_Time = \<lparr>t_ns = 738000 * day_ns, t_off = 0\<rparr>, pv_Origin = None\<rparr>),
     fw_gomod = (\<lambda>b. Some (Some ''1.26'')), fw_IsValid = (\<lambda>v. HasPrefix v ''v1''), fw_EscapePath = Some, fw_EscapeVersion = Some,
     fw_ProxyURL = '''', fw_now = \<lparr>t_ns = 738010 * day_ns, t_off = 0\<rparr>, fw_started = 10\<rparr>"

definition fixed_in :: "string \<Rightarrow> gotime option \<Rightarrow> enriched_vulnerability" where
  "fixed_in version published = \<lparr>v_ID = ''GO-1'', v_Aliases = [], v_Severity = ''HIGH'', v_Reachability = '''', v_InKEV = False,
     v_Summary = '''', v_FixedVersion = version, v_EnrichmentFailed = False, v_FixRequiresGo = '''', v_FixReleasedAt = None, v_FixDateSource = '''',
     v_AffectedPackages = [], v_Condition = '''', v_KEVChecked = False, v_SeveritySource = '''', v_EPSSScore = None, v_KEVRansomware = '''',
     v_PublishedAt = None, v_FixPublishedAt = published, v_EnrichmentAttempted = False, v_SeverityAlias = '''', v_EnrichmentErrors = [],
     v_DaysUnpatched = 0\<rparr>"

theorem fix_dates_are_read_witness:
  "list_all2 (dated_ok dating_world (\<lambda>v. Some (''m'', v_FixedVersion v)))
     [fixed_in ''v1.2.0'' (Some \<lparr>t_ns = 738005 * day_ns, t_off = 0\<rparr>), fixed_in ''v1.3.0'' None]
     (fst (resolveFixDates dating_world (\<lambda>ls. ls) (\<lambda>v. Some (''m'', v_FixedVersion v))
        [fixed_in ''v1.2.0'' (Some \<lparr>t_ns = 738005 * day_ns, t_off = 0\<rparr>), fixed_in ''v1.3.0'' None]))"
  by (rule fix_dates_are_read [of dating_world "\<lambda>ls. ls" "\<lambda>v. Some (''m'', v_FixedVersion v)" _ _
        "snd (resolveFixDates dating_world (\<lambda>ls. ls) (\<lambda>v. Some (''m'', v_FixedVersion v))
           [fixed_in ''v1.2.0'' (Some \<lparr>t_ns = 738005 * day_ns, t_off = 0\<rparr>), fixed_in ''v1.3.0'' None])"])
    (rule prod.collapse [symmetric])

theorem fix_schedule_irrelevant_witness:
  "resolveFixDates dating_world rev (\<lambda>v. Some (''m'', v_FixedVersion v)) [fixed_in ''v1.2.0'' None, fixed_in ''v1.3.0'' None]
     = resolveFixDates dating_world (\<lambda>ls. ls) (\<lambda>v. Some (''m'', v_FixedVersion v)) [fixed_in ''v1.2.0'' None, fixed_in ''v1.3.0'' None] \<and>
   ResolveFixGoRequirements dating_world rev ''m'' [fixed_in ''v1.2.0'' None, fixed_in ''v1.3.0'' None]
     = ResolveFixGoRequirements dating_world (\<lambda>vs. vs) ''m'' [fixed_in ''v1.2.0'' None, fixed_in ''v1.3.0'' None]"
  by (rule fix_schedule_irrelevant [of rev rev]) (rule mset_rev)+

lemma stdlib_release_example:
  "map (map_option stdlib_release \<circ> stdlibVersionPattern) [''go1.26.9'', ''v1.21'', ''1.22rc1'', ''1'', ''1.2.3.4'']
   = [Some ''1.26.9'', Some ''1.21.0'', Some ''1.22rc1'', None, None]"
  by code_simp

end
