(* ===== verification/Self_Advisory.thy ===== *)
theory Self_Advisory
  imports Threat_Intel Fix_Date Warnings
begin

text \<open>
  \<open>pkg/scanner/selfadvisory.go\<close>: the advisories of OSV that affect one version of the graded module itself, page by
  page, with the severity and the threat intelligence of a dependency's. \<open>module.CheckPath\<close>, \<open>semver\<close>, JSON and the
  deadline (a failed request) are arguments.
\<close>

section \<open>Data\<close>

record self_affected =
  sa_Name :: string
  sa_Ecosystem :: string
  sa_Ranges :: "(string \<times> string list) list"
  sa_Imports :: "string list"

record self_record = osv_response +
  so_ID :: string
  so_Summary :: string
  so_Aliases :: "string list"
  so_Withdrawn :: string
  so_Affected :: "self_affected list"

record self_page =
  sp_Vulns :: "self_record list"
  sp_NextPageToken :: string

record self_world =
  sw_net :: network
  sw_page :: "string \<Rightarrow> self_page option"
  sw_payload :: "string \<Rightarrow> string \<Rightarrow> string \<Rightarrow> string"
  sw_CheckPath :: "string \<Rightarrow> bool"
  sw_IsValid :: "string \<Rightarrow> bool"
  sw_Canonical :: "string \<Rightarrow> string"
  sw_Compare :: "string \<Rightarrow> string \<Rightarrow> int"
  sw_BaseURL :: string
  sw_now :: gotime

datatype self_error =
  SelfOffline | NeedsVersion | InvalidPath string | InvalidModuleVersion string | InvalidBaseURL string | TooManyPages
  | QueryFailed http_error | QueryStatus int | QueryParse

definition defaultOSVBaseURL :: string where "defaultOSVBaseURL = ''https://api.osv.dev''"
definition selfAdvisoryMaxBytes :: int where "selfAdvisoryMaxBytes = 8 * 1024 * 1024"
definition selfAdvisoryMaxPages :: nat where "selfAdvisoryMaxPages = 10"

section \<open>Versions\<close>

definition osvVersion :: "string \<Rightarrow> string" where
  "osvVersion version = TrimSuffix version incompatibleSuffix"

definition checkModuleVersion :: "self_world \<Rightarrow> string \<Rightarrow> string \<Rightarrow> self_error option" where
  "checkModuleVersion w path version =
     (if \<not> sw_CheckPath w path then Some (InvalidPath path)
      else map_option (\<lambda>e. InvalidModuleVersion version) (CheckModuleVersion (sw_IsValid w) (sw_Canonical w) version))"

text \<open>The lowest of the fixes above a version.\<close>

definition fix_after :: "(string \<Rightarrow> string \<Rightarrow> int) \<Rightarrow> string \<Rightarrow> string \<Rightarrow> string \<Rightarrow> string" where
  "fix_after cmp version f lowest =
     (if cmp f version \<le> 0 then lowest else if lowest = '''' \<or> cmp f lowest < 0 then f else lowest)"

definition firstFixAfter :: "(string \<Rightarrow> string \<Rightarrow> int) \<Rightarrow> string list \<Rightarrow> string \<Rightarrow> string" where
  "firstFixAfter cmp fixes version = fold (fix_after cmp version) fixes ''''"

section \<open>One record\<close>

definition affects_module :: "string \<Rightarrow> self_affected \<Rightarrow> bool" where
  "affects_module modPath a = (sa_Name a = modPath \<and> EqualFold (sa_Ecosystem a) ''Go'')"

definition self_fixes :: "self_world \<Rightarrow> self_affected \<Rightarrow> string list" where
  "self_fixes w a =
     concat (map (\<lambda>(kind, fixed). if kind \<noteq> ''SEMVER'' \<and> kind \<noteq> ''ECOSYSTEM'' then []
       else filter (\<lambda>f. f \<noteq> '''') (map (canonicalVersion (sw_IsValid w)) fixed)) (sa_Ranges a))"

definition selfVulnFromOSV :: "'w env \<Rightarrow> self_world \<Rightarrow> string \<Rightarrow> string \<Rightarrow> self_record \<Rightarrow> intel_vulnerability" where
  "selfVulnFromOSV E w modPath version rec =
     (let tier = severityTier (parse_number E) (osv_response.truncate rec);
          published = parsed_date E (o_Published rec);
          affected = filter (affects_module modPath) (so_Affected rec);
          pkgs = sort_strings (remdups (filter (\<lambda>p. p \<noteq> '''') (concat (map sa_Imports affected))));
          fixed = firstFixAfter (sw_Compare w) (concat (map (self_fixes w) affected)) version;
          counted = (fixed \<noteq> '''' \<and> published \<noteq> None)
      in \<lparr>v_ID = so_ID rec, v_Aliases = so_Aliases rec, v_Severity = (if tier \<noteq> '''' then tier else ''UNKNOWN''), v_Reachability = '''',
          v_InKEV = False, v_Summary = so_Summary rec, v_FixedVersion = fixed, v_EnrichmentFailed = False, v_FixRequiresGo = '''',
          v_FixReleasedAt = None, v_FixDateSource = '''', v_AffectedPackages = pkgs, v_Condition = '''', v_KEVChecked = False,
          v_SeveritySource = (if tier \<noteq> '''' then ''osv'' else ''''), v_EPSSScore = None, v_KEVRansomware = '''',
          v_PublishedAt = published, v_FixPublishedAt = (if counted then published else None), v_EnrichmentAttempted = False,
          v_SeverityAlias = '''', v_EnrichmentErrors = [],
          v_DaysUnpatched = (if counted then fix_day_count (sw_now w) (the published) else 0),
          v_CallPath = [], v_CallTrace = [], v_CalledSymbols = [], v_EPSSPercentile = None, v_EPSSDate = '''',
          v_KEVDateAdded = '''', v_KEVCatalogStaleSince = None\<rparr>)"

section \<open>Pages\<close>

definition queryOSVPage ::
  "self_world \<Rightarrow> string \<Rightarrow> string \<Rightarrow> string \<Rightarrow> string \<Rightarrow> string \<Rightarrow> (self_error + self_page) \<times> sent" where
  "queryOSVPage w queryURL host modPath version pageToken =
     (let (r, sent) = client_Post (sw_net w) queryURL ''application/json'' (sw_payload w (osvVersion version) modPath pageToken)
        (no_options\<lparr>op_Host := host, op_MaxBytes := selfAdvisoryMaxBytes, op_Accept := ''application/json'',
           op_Purpose := ''selfadvisory:osv''\<rparr>)
      in (case r of
            Inl e \<Rightarrow> Inl (QueryFailed e)
          | Inr a \<Rightarrow>
              if ha_Status a \<noteq> 200 then Inl (QueryStatus (ha_Status a))
              else (case sw_page w (ha_Body a) of None \<Rightarrow> Inl QueryParse | Some p \<Rightarrow> Inr p), sent))"

text \<open>A record counts once, and not when it is withdrawn.\<close>

definition take_record :: "self_record \<Rightarrow> self_record list \<Rightarrow> self_record list" where
  "take_record rec acc =
     (if so_Withdrawn rec \<noteq> '''' \<or> so_ID rec = '''' \<or> so_ID rec \<in> set (map so_ID acc) then acc else acc @ [rec])"

fun query_pages ::
  "self_world \<Rightarrow> string \<Rightarrow> string \<Rightarrow> string \<Rightarrow> string \<Rightarrow> nat \<Rightarrow> string \<Rightarrow> self_record list \<Rightarrow> sent \<Rightarrow>
    (self_error + self_record list) \<times> sent" where
  "query_pages w url host modPath version 0 token acc sent = (Inl TooManyPages, sent)"
| "query_pages w url host modPath version (Suc n) token acc sent =
     (case queryOSVPage w url host modPath version token of
        (Inl e, sent2) \<Rightarrow> (Inl e, sent + sent2)
      | (Inr page, sent2) \<Rightarrow>
          (let acc = fold take_record (sp_Vulns page) acc
           in if sp_NextPageToken page = '''' then (Inr acc, sent + sent2)
              else query_pages w url host modPath version n (sp_NextPageToken page) acc (sent + sent2)))"

section \<open>Enrichment\<close>

text \<open>The severity lookup changes what it knows of an advisory and leaves the rest.\<close>

definition enrich_intel ::
  "'w env \<Rightarrow> enrich_options \<Rightarrow> intel_vulnerability \<Rightarrow> 'w enricher \<Rightarrow> intel_vulnerability \<times> string list \<times> 'w enricher" where
  "enrich_intel E opts v st =
     (let (u, w, st) = Enrich E opts (enriched_vulnerability.truncate v) st
      in (enriched_vulnerability.extend u (enriched_vulnerability.more v), w, st))"

fun enrich_each ::
  "'w env \<Rightarrow> enrich_options \<Rightarrow> (string \<Rightarrow> bool) \<Rightarrow> intel_vulnerability list \<Rightarrow> 'w enricher \<Rightarrow>
    intel_vulnerability list \<times> string list \<times> 'w enricher" where
  "enrich_each E opts unknown [] st = ([], [], st)"
| "enrich_each E opts unknown (v # vs) st =
     (let (v, w1, st) = (if unknown (v_Severity v) then enrich_intel E opts v st else (v, [], st));
          (vs, w2, st) = enrich_each E opts unknown vs st
      in (v # vs, w1 @ w2, st))"

definition enrichSelfAdvisories ::
  "'w env \<Rightarrow> enrich_options \<Rightarrow> intel_world \<Rightarrow> string \<Rightarrow> intel_vulnerability list \<Rightarrow> 'w enricher \<times> intel_state \<Rightarrow>
    intel_vulnerability list \<times> string list \<times> 'w enricher \<times> intel_state" where
  "enrichSelfAdvisories E opts iw modPath vulns = (\<lambda>(st, s).
     if vulns = [] then ([], [], st, s)
     else let (vulns, sevWarns, st) = enrich_each E opts (\<lambda>sev. sev = ''UNKNOWN'') vulns st;
              (results, tiWarns, s) = enrichThreatIntel iw [(modPath, vulns)] s
       in (snd (hd results), collapseSeverityLookupWarnings sevWarns @ tiWarns, st, s))"

section \<open>The lookup\<close>

definition ScanModuleAdvisories ::
  "'w env \<Rightarrow> enrich_options \<Rightarrow> intel_world \<Rightarrow> self_world \<Rightarrow> string \<Rightarrow> string \<Rightarrow> 'w enricher \<times> intel_state \<Rightarrow>
    (self_error + intel_vulnerability list \<times> string list) \<times> sent \<times> 'w enricher \<times> intel_state" where
  "ScanModuleAdvisories E opts iw w modPath version st =
     (if nt_offline (sw_net w) then (Inl SelfOffline, {#}, st)
      else if version = '''' then (Inl NeedsVersion, {#}, st)
      else case checkModuleVersion w modPath version of
          Some e \<Rightarrow> (Inl e, {#}, st)
        | None \<Rightarrow>
            (let base = (if sw_BaseURL w = '''' then defaultOSVBaseURL else sw_BaseURL w)
             in case nt_parse (sw_net w) base of
                  None \<Rightarrow> (Inl (InvalidBaseURL base), {#}, st)
                | Some u \<Rightarrow>
                    if pu_Host u = '''' then (Inl (InvalidBaseURL base), {#}, st)
                    else (case query_pages w (trim_slashes base @ ''/v1/query'') (pu_Host u) modPath version selfAdvisoryMaxPages '''' [] {#} of
                        (Inl e, sent) \<Rightarrow> (Inl e, sent, st)
                      | (Inr records, sent) \<Rightarrow>
                          (let vulns = sort_by (\<lambda>a b. v_ID a < v_ID b) (map (selfVulnFromOSV E w modPath version) records);
                               (vulns, warnings, st) = enrichSelfAdvisories E opts iw modPath vulns st
                           in (Inr (vulns, warnings), sent, st)))))"

end
