(* ===== verification/Self_Advisory_Props.thy ===== *)
theory Self_Advisory_Props
  imports Self_Advisory Enrich_Props Threat_Intel_Props
begin

text \<open>
  The advisories of the graded module: a list that is returned is complete (every page was read to the end), holds each
  advisory once and none that was withdrawn; and a fix that it names is above the version.
\<close>

section \<open>Fixes\<close>

lemma fix_after_fold:
  "fold (fix_after cmp version) fs lowest = lowest \<or>
     (fold (fix_after cmp version) fs lowest \<in> set fs \<and> cmp (fold (fix_after cmp version) fs lowest) version > 0)"
proof (induction fs arbitrary: lowest)
  case Nil
  then show ?case by simp
next
  case (Cons f fs)
  have "fix_after cmp version f lowest = lowest \<or> (fix_after cmp version f lowest = f \<and> cmp f version > 0)"
    by (simp add: fix_after_def)
  then show ?case using Cons [of "fix_after cmp version f lowest"] by (elim disjE) auto
qed

lemma firstFixAfter_above:
  "firstFixAfter cmp fs version = '''' \<or> (firstFixAfter cmp fs version \<in> set fs \<and> cmp (firstFixAfter cmp fs version) version > 0)"
  using fix_after_fold [of cmp version fs "''''"] by (simp add: firstFixAfter_def)

section \<open>Pages\<close>

text \<open>The pages of an answer, each asked for with the token of the one before, down to one without a token.\<close>

inductive answer_pages :: "(string \<Rightarrow> (self_error + self_page) \<times> sent) \<Rightarrow> string \<Rightarrow> self_page list \<Rightarrow> bool" for ask where
  last_page: "fst (ask token) = Inr page \<Longrightarrow> sp_NextPageToken page = '''' \<Longrightarrow> answer_pages ask token [page]"
| next_page: "fst (ask token) = Inr page \<Longrightarrow> sp_NextPageToken page \<noteq> '''' \<Longrightarrow>
    answer_pages ask (sp_NextPageToken page) pages \<Longrightarrow> answer_pages ask token (page # pages)"

inductive_cases answer_pagesE: "answer_pages ask token pages"

lemma query_pages_answer:
  assumes "query_pages w url host p v n token acc sent = (Inr records, sent')"
  shows "\<exists>pages. answer_pages (queryOSVPage w url host p v) token pages \<and> length pages \<le> n \<and>
     records = fold take_record (concat (map sp_Vulns pages)) acc"
  using assms
proof (induction n arbitrary: token acc sent)
  case 0
  then show ?case by simp
next
  case (Suc n)
  obtain r s2 where q: "queryOSVPage w url host p v token = (r, s2)" by fastforce
  then obtain page where r: "r = Inr page" using Suc.prems by (cases r) auto
  show ?case
  proof (cases "sp_NextPageToken page = ''''")
    case True
    then have "answer_pages (queryOSVPage w url host p v) token [page]"
      using q r by (intro last_page) simp_all
    then show ?thesis using Suc.prems q r True by (intro exI [of _ "[page]"]) (auto simp: Let_def)
  next
    case False
    then have "query_pages w url host p v n (sp_NextPageToken page) (fold take_record (sp_Vulns page) acc) (sent + s2) = (Inr records, sent')"
      using Suc.prems q r by (simp add: Let_def)
    then obtain pages where pages: "answer_pages (queryOSVPage w url host p v) (sp_NextPageToken page) pages" "length pages \<le> n"
        "records = fold take_record (concat (map sp_Vulns pages)) (fold take_record (sp_Vulns page) acc)"
      using Suc.IH by blast
    have "answer_pages (queryOSVPage w url host p v) token (page # pages)"
      using q r False pages(1) by (intro next_page) simp_all
    then show ?thesis using pages by (intro exI [of _ "page # pages"]) simp
  qed
qed

text \<open>The identifiers of the records that count.\<close>

definition counted_ids :: "self_record list \<Rightarrow> string set" where
  "counted_ids recs = {so_ID r | r. r \<in> set recs \<and> so_Withdrawn r = '''' \<and> so_ID r \<noteq> ''''}"

lemma take_records:
  "distinct (map so_ID acc) \<Longrightarrow> distinct (map so_ID (fold take_record recs acc)) \<and>
     set (map so_ID (fold take_record recs acc)) = set (map so_ID acc) \<union> counted_ids recs"
proof (induction recs arbitrary: acc)
  case Nil
  then show ?case by (simp add: counted_ids_def)
next
  case (Cons r recs)
  have d: "distinct (map so_ID (take_record r acc))" using Cons.prems by (auto simp: take_record_def)
  have s: "set (map so_ID (take_record r acc)) \<union> counted_ids recs = set (map so_ID acc) \<union> counted_ids (r # recs)"
    by (auto simp: take_record_def counted_ids_def)
  show ?case using Cons.IH [OF d] s by simp
qed

section \<open>Enrichment keeps the identity of an advisory\<close>

definition same_advisory :: "'a vulnerability_scheme \<Rightarrow> 'b vulnerability_scheme \<Rightarrow> bool" where
  "same_advisory v u = (v_ID u = v_ID v \<and> v_Aliases u = v_Aliases v)"

lemma apply_published_same: "same_advisory v (apply_published t p v)"
  by (simp add: same_advisory_def apply_published_def Let_def split: option.split)

lemma applyEnrichResult_same: "same_advisory v (applyEnrichResult t r v)"
  using apply_published_same by (auto simp: applyEnrichResult_def Let_def same_advisory_def)

lemma found_same: "found E opts r v st = (u, t) \<Longrightarrow> same_advisory v u"
  using applyEnrichResult_same by (auto simp: found_def Let_def)

lemma no_severity_same: "no_severity E opts ok r v st = (u, w, t) \<Longrightarrow> same_advisory v u"
  using apply_published_same
  by (auto simp: no_severity_def Let_def markEnrichmentFailed_def markUnscored_def same_advisory_def split: if_splits option.splits)

lemma same_trans: "same_advisory v u \<Longrightarrow> same_advisory u x \<Longrightarrow> same_advisory v x"
  by (simp add: same_advisory_def)

lemma apply_cached_same: "apply_cached t c v = (u, w) \<Longrightarrow> same_advisory v u"
  using applyEnrichResult_same
  by (auto simp: apply_cached_def Let_def markEnrichmentFailed_def markUnscored_def same_advisory_def split: option.splits if_splits)

lemma enrich_by_cve_same:
  assumes "enrich_by_cve E opts ok v st = (u, w, t)"
  shows "same_advisory v u"
proof (cases "cve_of v = ''''")
  case True
  then show ?thesis using assms no_severity_same by (auto simp: enrich_by_cve_def)
next
  case False
  obtain nvd fail w1 s1 where n: "fetchNVD E opts (cve_of v) st = ((nvd, fail, w1), s1)" by (metis prod_cases3 surj_pair)
  obtain ghsa w2 s2 where g: "fetchGHSAByCVE E (cve_of v) s1 = ((ghsa, w2), s2)" by (metis surj_pair)
  show ?thesis
    using assms False n g found_same no_severity_same
    by (auto simp: enrich_by_cve_def Let_def split: if_splits prod.splits)
qed

lemma Enrich_same:
  assumes "Enrich E opts v st = (u, w, t)"
  shows "same_advisory v u"
proof -
  have live: "same_advisory x y" if "enrich_live E opts x s = (y, w, t)" for x y s w t
  proof -
    obtain osv ok w1 s1 where o: "fetchOSV E (v_ID x) s = ((osv, ok, w1), s1)" by (metis prod_cases3 surj_pair)
    obtain al aok w2 s2 where a: "lookupAliases E opts x s1 = ((al, aok, w2), s2)" by (metis prod_cases3 surj_pair)
    show ?thesis
      using that o a found_same enrich_by_cve_same
      by (auto simp: enrich_live_def Let_def split: if_splits option.splits prod.splits)
  qed
  let ?v = "v\<lparr>v_EnrichmentAttempted := True\<rparr>"
  have "u = v \<or> same_advisory ?v u"
    using assms live apply_cached_same by (fastforce simp: Enrich_def Let_def split: if_splits option.splits prod.splits)
  then show ?thesis by (auto simp: same_advisory_def)
qed

lemma enrich_intel_same: "enrich_intel E opts v st = (u, w, t) \<Longrightarrow> same_advisory v u"
  using Enrich_same
  by (fastforce simp: enrich_intel_def same_advisory_def enriched_vulnerability.defs split: prod.splits)

lemma enrich_each_same: "enrich_each E opts f vs st = (us, w, t) \<Longrightarrow> list_all2 same_advisory vs us"
proof (induction vs arbitrary: us w t st)
  case Nil
  then show ?case by simp
next
  case (Cons v vs)
  obtain u w1 s1 where v: "(if f (v_Severity v) then enrich_intel E opts v st else (v, [], st)) = (u, w1, s1)" by (metis prod_cases3)
  obtain us2 w2 s2 where r: "enrich_each E opts f vs s1 = (us2, w2, s2)" by (metis prod_cases3)
  have "same_advisory v u"
    using v enrich_intel_same [of E opts v st u w1 s1] by (cases "f (v_Severity v)") (auto simp: same_advisory_def)
  moreover have "us = u # us2" using Cons.prems v r by simp
  ultimately show ?case using Cons.IH [OF r] by simp
qed

lemma with_intel_same: "same_advisory v (with_intel epss cat v)"
  by (simp add: same_advisory_def with_intel_def scored_by_def listed_by_def Let_def split: option.split)

lemma enrichThreatIntel_same:
  assumes "enrichThreatIntel iw [(m, vs)] s = (results, w, t)"
  shows "\<exists>us. results = [(m, us)] \<and> list_all2 same_advisory vs us"
proof -
  have "\<exists>epss cat. results = [(m, map (with_intel epss cat) vs)] \<or> results = [(m, vs)]"
    using assms by (auto simp: enrichThreatIntel_def enrichThreatIntelStale_def Let_def split: prod.splits if_splits)
  then show ?thesis
    using with_intel_same by (auto simp: list_all2_map2 list_all2_same same_advisory_def)
qed

lemma enrichSelfAdvisories_ids:
  assumes "enrichSelfAdvisories E opts iw m vs (st, s) = (us, w, st', s')"
  shows "map v_ID us = map v_ID vs"
proof (cases "vs = []")
  case True
  then show ?thesis using assms by (simp add: enrichSelfAdvisories_def)
next
  case False
  obtain vs1 w1 s1 where e: "enrich_each E opts (\<lambda>sev. sev = ''UNKNOWN'') vs st = (vs1, w1, s1)" by (metis prod_cases3)
  obtain res w2 s2 where t: "enrichThreatIntel iw [(m, vs1)] s = (res, w2, s2)" by (metis prod_cases3)
  obtain us1 where u: "res = [(m, us1)]" "list_all2 same_advisory vs1 us1" using enrichThreatIntel_same [OF t] by blast
  have ids: "map v_ID ys = map v_ID xs" if "list_all2 same_advisory xs ys" for xs ys :: "intel_vulnerability list"
    using that by (induction rule: list_all2_induct) (auto simp: same_advisory_def)
  have "us = us1" using assms False e t u(1) by (simp add: enrichSelfAdvisories_def)
  then show ?thesis using ids [OF enrich_each_same [OF e]] ids [OF u(2)] by simp
qed

text \<open>A list of advisories of the graded module is complete: it was read from at most ten pages down to the last one, and
  holds, sorted and once, exactly the advisories on them that have an identifier and were not withdrawn.\<close>

theorem self_advisories_complete:
  assumes "ScanModuleAdvisories E opts iw w m version (st, s) = (Inr (vulns, warnings), sent, st', s')"
  shows "\<exists>url host pages. answer_pages (queryOSVPage w url host m version) '''' pages \<and> length pages \<le> 10 \<and>
    sorted (map v_ID vulns) \<and> distinct (map v_ID vulns) \<and> set (map v_ID vulns) = counted_ids (concat (map sp_Vulns pages))"
proof -
  let ?base = "if sw_BaseURL w = '''' then defaultOSVBaseURL else sw_BaseURL w"
  obtain u records ms where q: "nt_parse (sw_net w) ?base = Some u"
      "query_pages w (trim_slashes ?base @ ''/v1/query'') (pu_Host u) m version selfAdvisoryMaxPages '''' [] {#} = (Inr records, ms)"
      and v: "enrichSelfAdvisories E opts iw m (sort_by (\<lambda>a b. v_ID a < v_ID b) (map (selfVulnFromOSV E w m version) records)) (st, s)
        = (vulns, warnings, st', s')"
    using assms by (auto simp: ScanModuleAdvisories_def Let_def split: if_splits option.splits prod.splits sum.splits)
  obtain pages where pages: "answer_pages (queryOSVPage w (trim_slashes ?base @ ''/v1/query'') (pu_Host u) m version) '''' pages"
      "length pages \<le> selfAdvisoryMaxPages" "records = fold take_record (concat (map sp_Vulns pages)) []"
    using query_pages_answer [OF q(2)] by blast
  let ?vs = "map (selfVulnFromOSV E w m version) records"
  have ids: "map v_ID ?vs = map so_ID records" by (simp add: selfVulnFromOSV_def Let_def comp_def)
  have key: "sorted (map v_ID (sort_by (\<lambda>a b. v_ID a < v_ID b) xs)) \<and> mset (map v_ID (sort_by (\<lambda>a b. v_ID a < v_ID b) xs)) = mset (map v_ID xs)"
    for xs :: "intel_vulnerability list"
  proof (induction xs)
    case (Cons x xs)
    have ins: "sorted (map v_ID ys) \<Longrightarrow> sorted (map v_ID (insert_by (\<lambda>a b. v_ID a < v_ID b) x ys)) \<and>
        mset (map v_ID (insert_by (\<lambda>a b. v_ID a < v_ID b) x ys)) = add_mset (v_ID x) (mset (map v_ID ys))" for ys
    proof (induction ys)
      case (Cons y ys)
      have "set (map v_ID (insert_by (\<lambda>a b. v_ID a < v_ID b) x ys)) = insert (v_ID x) (set (map v_ID ys))"
        by (induction ys) auto
      then show ?case using Cons by (auto simp: less_imp_le not_less)
    qed simp
    show ?case using Cons ins [of "sort_by (\<lambda>a b. v_ID a < v_ID b) xs"] by simp
  qed simp
  have vids: "map v_ID vulns = map v_ID (sort_by (\<lambda>a b. v_ID a < v_ID b) ?vs)" by (rule enrichSelfAdvisories_ids [OF v])
  have m: "mset (map v_ID vulns) = mset (map so_ID records)" unfolding vids conjunct2 [OF key] ids ..
  have rec: "distinct (map so_ID records) \<and> set (map so_ID records) = counted_ids (concat (map sp_Vulns pages))"
    using take_records [of "[]" "concat (map sp_Vulns pages)"] unfolding pages(3) by simp
  have "distinct (map v_ID vulns)" using m rec by (metis mset_eq_imp_distinct_iff)
  moreover have "set (map v_ID vulns) = set (map so_ID records)" using m by (metis set_mset_mset)
  moreover have "sorted (map v_ID vulns)" unfolding vids using key [of ?vs] by blast
  ultimately show ?thesis using pages(1,2) rec by (auto simp: selfAdvisoryMaxPages_def)
qed

end
