(* ===== verification/Spec2Isabelle.thy ===== *)
theory Spec2Isabelle
  imports Grade_Facts Policy Resolver_Props Workflow_File Runner_Props Risk_Props Cvss_Props Enrich_Props Nvd_Props Warnings Govulncheck_Props
    Integrity_Props Scan_Failure_Props Ci_Props Resilience_Props Github_Props Notices_Props Threat_Intel_Props Fix_Date_Props Self_Advisory_Props
begin

text \<open>
  unisupply scans the supply chain of a Go module and grades it. This development models the decisions of
  the program, that is the code between what the scanners fetched and what the reports print.

  \<^bold>\<open>Parts and their interaction.\<close>
  The parser (\<open>pkg/parser\<close>) reads \<open>go.mod\<close>, \<open>go.sum\<close> and workflow files. The resolver (\<open>pkg/resolver\<close>) turns
  \<open>go.mod\<close> and the output of \<open>go mod graph\<close> into a dependency graph and classifies every module with
  \<open>go list\<close> (production, test-only, outside the build). The scanners (\<open>pkg/scanner\<close>) fetch advisories,
  maintenance data and so on; typosquatting is a pure computation. The grade (\<open>pkg/grade\<close>) turns the rows of
  the modules into a letter, or into Pending when a missing fact could change it. The policy (\<open>pkg/policy\<close>)
  is the gate on the scored project and its grade. The scorer (\<open>pkg/scorer\<close>) gives every dependency and the
  project a number from 0 to 100 and lists the time bombs. The runner (\<open>pkg/runner\<close>) hands the scanners' outputs to the grade.

  \<^bold>\<open>Theories.\<close>
  \<open>Prelude\<close>, \<open>Go_Text\<close>, \<open>Go_Time\<close>, \<open>Go_Float\<close>, \<open>Go_Double\<close>: the parts of Go's standard library the sources use.
  Strings are lists of bytes; case and space functions are those on ASCII. A time is an instant in nanoseconds with an offset; ages are truncated to whole days as in the sources.
  A \<open>float64\<close> is an integer multiple of \<open>2^-55\<close>, which is exact for the confidences of the typosquat
  scan; in the scorer it is a rational, and every operation rounds to 53 bits, ties to even (\<open>rnd\<close>, shown to
  be monotone and exact on integers). \<open>sort.Slice\<close> is a stable insertion sort; the locales \<open>weak_order\<close> and \<open>total_strict_order\<close> hold
  what is used of a comparison, and are interpreted for every comparison of the sources.

  \<open>Grade_Types\<close> (\<open>types.go\<close>), \<open>Grade_Score\<close>, \<open>Grade_Rows\<close>, \<open>Grade_Engine\<close> (\<open>engine.go\<close>, \<open>tree.go\<close>,
  \<open>pending.go\<close>), \<open>Grade_Dedupe\<close> (\<open>dedupe.go\<close>), \<open>Grade_Finding\<close> (\<open>finding.go\<close>), \<open>Called_Pass\<close>
  (\<open>calledpass.go\<close>): the grade. Advisories that share an identifier are merged by a union-find over the
  parent slice (a \<open>while\<close> loop with a proof that it ends); \<open>gradeOnce\<close> grades one reading of the facts, and
  \<open>Grade\<close> compares the readings. \<open>Grade_Letter\<close>, \<open>Grade_Order\<close>, \<open>Grade_Unread\<close>, \<open>Grade_Props\<close> and
  \<open>Grade_Facts\<close> show that a letter which is not Pending cannot be changed by any of the missing facts, that
  it does not depend on the order of the dependencies, and which evidence each letter needs.

  \<open>Typosquat\<close> (\<open>scanner/typosquat.go\<close>): the two-row table of \<open>levenshtein\<close> refines the least number of
  edits. \<open>Policy\<close> (\<open>policy/engine.go\<close>): each rule extends a result (locale \<open>policy_step\<close>), from which the
  properties of the gate follow.

  \<open>Go_Mod\<close> (\<open>parser/gomod.go\<close>), \<open>Workflow_File\<close> (\<open>parser/workflow.go\<close>): the line scan with its block flags,
  and that a written file is read back. \<open>Resolver_Graph\<close> and \<open>Resolver_Classify\<close> (\<open>resolver/graph.go\<close>): the
  graph, its edges, the breadth-first search and the classification; both loops over a queue are total
  functions with a measure. \<open>Resolver_Props\<close>: a verdict is backed by every run of \<open>go list\<close>, and the requirers of a module are
  those that were read of it.

  \<open>Runner_Grade\<close> (\<open>runner/grade.go\<close>, and what it uses of \<open>runner.go\<close>, \<open>regrade.go\<close>, \<open>scanner/private.go\<close>):
  from the graph and the scanners' records to the input of the grade. \<open>Runner_Props\<close> composes the parts: for
  a whole run, skipping govulncheck's called pass cannot change the letter, unless an imported advisory shares an
  identifier with another one of its row; merging leaves the others alone (\<open>imported_alone\<close>).

  \<open>Scanner_Data\<close> holds the scanners' records. \<open>Risk_Tiers\<close>, \<open>Risk_Dependency\<close>, \<open>Risk_Headline\<close>, \<open>Risk_Project\<close>
  (\<open>scorer/risk.go\<close>, \<open>scorer/timebombs.go\<close>): severity floors and tiers, the weighted score of a dependency over the
  axes that were measured, the step function and the five headline candidates, \<open>ScoreAll\<close> and the time bombs.
  \<open>Risk_Facts\<close> and \<open>Risk_Props\<close> show the ranges of all scores, that the headline is a maximum in which one
  candidate never counts, what the 95th percentile is under float rounding, that exploited and archived
  modules cannot stay silent, and where the severity floor is not monotone.

  \<open>Cvss\<close> (\<open>scanner/cvss.go\<close>, tiers of \<open>scanner/vulnenrich.go\<close>): the base score of a CVSS v3 vector in rounded
  arithmetic. \<open>Cvss_Impact\<close> evaluates the 27 impacts with a changed scope; \<open>Cvss_Props\<close> shows that a score is a
  decimal between 0.0 and 10.0 and never falls when a metric gets worse.

  \<open>Nvd\<close> (\<open>scanner/nvdfetch.go\<close>) and \<open>Enrich\<close> (\<open>scanner/vulnenrich.go\<close>): the lookup of an unknown severity, from the
  cache, OSV, the aliases, NVD and GitHub. The state is a record (world, cache files, pacer, deadline, requests
  sent); the retry loop is a total function with a measure. \<open>Enrich_Props\<close> shows that no advisory leaves the lookup
  unnoticed but one for which GitHub names a word of no tier, that the cache replays the live outcome, how many requests are sent, and what GitHub's severity
  \<open>unknown\<close> breaks. \<open>Nvd_Props\<close> has the pacer as a step relation in which lookups interleave, shows that starts
  stay spaced in every run and that a lookup is such a run, and that a lookup gets its answer from a server that
  recovers within the retries, if what the failed attempts cost (latencies and pauses) fits the budget.

  \<open>Govulncheck\<close>, \<open>Call_Path\<close> and \<open>Warnings\<close> (\<open>scanner/vuln.go\<close>): the stream of govulncheck is read by a partial
  function, since the source's loop does not end on malformed output; findings are merged into one record per module
  and advisory, with the preferred call path. \<open>Call_Choice\<close> shows that the preference is a linear order and the kept path a
  least one; \<open>Govulncheck_Props\<close> refines the tables of the merge to the choice among the findings of each pair, so that no
  called finding is lost and the order of the findings does not matter.

  \<open>Integrity\<close> (\<open>scanner/integrity.go\<close>): the audit of the directives of \<open>go.mod\<close>, of pseudo-versions and of
  \<open>go.sum\<close>. \<open>Integrity_Props\<close> says what a redirect is without the code's predicates, follows redirects to the gate and a checksum
  mismatch to the gate and the headline, and shows how a second replacement of a path silences the audit. \<open>Go_Regexp\<close>: matching of regular expressions, with an
  inductive meaning (\<open>spans\<close>) that the matcher \<open>ends_of\<close> is shown to compute. \<open>Scan_Failure\<close>
  (\<open>scanner/scanerror.go\<close>, \<open>scanner/status.go\<close>, \<open>scanStatusOf\<close> of \<open>runner/runner.go\<close>): why a scan failed, whether a
  retry helps, the text that is published, and the status; a panic is \<open>None\<close>. \<open>Scan_Failure_Props\<close>: a complete
  status has a letter, which failures are transient, and how long the published text is. \<open>Ci\<close> (\<open>scanner/ci.go\<close>): the audit of
  workflow and build files; \<open>Ci_Props\<close> shows the range of its scores, that a leaked secret fails the gate, and
  that build findings never count.

  \<open>Http_Client\<close> (\<open>scanner/httpclient.go\<close>, \<open>offline/offline.go\<close>): the one client that sends requests, with its host
  pin, its size cap and the offline switch; what leaves the process is a multiset of requests. \<open>Disk_Cache\<close>
  (\<open>scanner/maintainer_cache.go\<close>): answers kept for a day. \<open>Github\<close> and \<open>Maintainer\<close> (\<open>scanner/maintainer.go\<close>): the lookups
  with one redirect and one answer per key, the analysis of a repository, the takeover list. \<open>Maintenance\<close>
  (\<open>scanner/maintenance.go\<close>, \<open>scanner/activity.go\<close>): releases, notices, archived flag and activity. A run of workers is a
  fold over the order in which they get their turn. \<open>Github_Props\<close> shows where requests go; \<open>Maintenance_Props\<close> states
  what the archived scan needs of its lookup as the locale \<open>archive_lookup\<close>, interprets it on the scanner's lookup
  and follows the flag into the report from the answer of GitHub or the entry of the disk cache it was decoded from; \<open>Notices_Props\<close> does the same for the notices of a \<open>go.mod\<close> and for
  activity, and shows that nothing is sent offline.

  \<open>Module_Path\<close>, \<open>Worker_Pool\<close>, \<open>Resilience\<close> (\<open>scanner/resilience.go\<close>): the release history of every module in three
  phases (plan, share out the request budget by sorted path, read the dates). \<open>Worker_Pool\<close> has the contract of
  \<open>runBounded\<close> as the locale \<open>worker_pool\<close>: calls for different indices commute. \<open>Resilience_Props\<close> interprets it on both
  phases, so that no schedule changes a result, and bounds the requests.

  \<open>Threat_Intel\<close> (\<open>scanner/threatintel.go\<close>): exploitation scores and the catalog of known exploited vulnerabilities, with
  their caches. \<open>Threat_Intel_Props\<close> shows that a known-exploited status is checked against a catalog of at most thirty days or
  said to be unchecked. \<open>Fix_Date\<close> (\<open>scanner/fixdate.go\<close>, \<open>scanner/fixgo.go\<close>): when a fix was released and which Go it
  needs; \<open>Fix_Date_Props\<close> interprets \<open>worker_pool\<close> on both lookups and shows that no date is invented. \<open>Self_Advisory\<close>
  (\<open>scanner/selfadvisory.go\<close>): the advisories of the graded module, page by page; \<open>Self_Advisory_Props\<close> shows that a list
  is complete or an error.

  \<^bold>\<open>Parameters.\<close>
  Third-party code and the outside world are arguments of the definitions: \<open>golang.org/x/mod/semver\<close>
  (the record \<open>sv\<close>, the comparison \<open>cmp\<close>), \<open>golang.org/x/mod/modfile\<close> (\<open>lax\<close>), the YAML decoder, the clock,
  the bytes of files, the output of the \<open>go\<close> command, the offline switch, the servers and the decoding of their answers. Where a property needs a law of
  one of them (that versions are weakly ordered), it is a hypothesis with a witness.

  \<^bold>\<open>Not modelled.\<close>
  HTTP itself, subprocesses and file access; JSON, PDF, SBOM and text reports; the command line;
  the remaining scanners (response history, trust index, the advisory index) and the stages of the runner.
  The timeouts and the progress reports of the scans. Overflow, infinities and NaN of floats, and fused multiply-add. Non-ASCII text: Go's case folding and
  spaces beyond ASCII.
\<close>

end
